(* ===== verification/Mono_Prelude.thy ===== *)
theory Mono_Prelude
  imports Main "HOL-Library.Word"
begin

unbundle bit_operations_syntax

text \<open>
  Shared vocabulary of the development.  It holds the type of failures that the C code can
  end in (an assertion that aborts the process, an access outside an allocated block, a read
  through a null pointer, the use of a lock before its initialisation, a signed overflow, a division by
  zero, an overflow of the stack), the names
  of the machine types the runtime uses, the collections of
  simplification facts the component theories extend, and the generic lemmas on lists, words and
  binary search that more than one component relies on.
\<close>

named_theorems jit_defs \<open>definitions of the code-address index, unfolded one operation at a time\<close>

named_theorems prof_defs \<open>definitions of the profiler interface\<close>

section \<open>Failures and machine types\<close>

datatype fault = Assert_failed | Out_of_bounds | Null_deref | Lock_uninitialised | Int_overflow | Division_by_zero
  | Stack_overflow

type_synonym 'a res = "fault + 'a"

type_synonym addr = int

type_synonym guint8 = "8 word"
type_synonym guint16 = "16 word"
type_synonym guint32 = "32 word"
type_synonym guint64 = "64 word"

text \<open>Sequencing of computations that may fail: the first failure ends the sequence.\<close>

fun bindr :: "'a res \<Rightarrow> ('a \<Rightarrow> 'b res) \<Rightarrow> 'b res" where
  "bindr (Inl e) f = Inl e"
| "bindr (Inr x) f = f x"

fun is_ok :: "'a res \<Rightarrow> bool" where
  "is_ok (Inl e) = False"
| "is_ok (Inr x) = True"

definition guardr :: "bool \<Rightarrow> fault \<Rightarrow> 'a res \<Rightarrow> 'a res" where
  "guardr b e r = (if b then r else Inl e)"

lemma bindr_eq_Inr [simp]: "bindr m f = Inr y \<longleftrightarrow> (\<exists>x. m = Inr x \<and> f x = Inr y)"
  by (cases m) auto

lemma guardr_eq_Inr [simp]: "guardr b e r = Inr y \<longleftrightarrow> b \<and> r = Inr y"
  by (simp add: guardr_def)

lemma guardr_True [simp]: "guardr True e r = r"
  by (simp add: guardr_def)

lemma guardr_False [simp]: "guardr False e r = Inl e"
  by (simp add: guardr_def)

lemma is_ok_iff: "is_ok r \<longleftrightarrow> (\<exists>x. r = Inr x)"
  by (cases r) auto

lemma option_eq_SomeI: "(\<And>v. x = Some v \<longleftrightarrow> y = Some v) \<Longrightarrow> x = y"
  by (metis option.exhaust)

section \<open>Lists\<close>

lemma sorted_wrt_take [simp]: "sorted_wrt P xs \<Longrightarrow> sorted_wrt P (take n xs)"
  by (metis append_take_drop_id sorted_wrt_append)

lemma sorted_wrt_drop [simp]: "sorted_wrt P xs \<Longrightarrow> sorted_wrt P (drop n xs)"
  by (metis append_take_drop_id sorted_wrt_append)

lemma sorted_wrt_filter [simp]: "sorted_wrt P xs \<Longrightarrow> sorted_wrt P (filter Q xs)"
  by (induction xs) auto

lemma concat_map_take_drop:
  "i < length xs \<Longrightarrow>
   concat (map f xs) = concat (map f (take i xs)) @ f (xs ! i) @ concat (map f (drop (Suc i) xs))"
  by (metis concat.simps(2) concat_append id_take_nth_drop list.simps(9) map_append)

lemma list_update_map_upd:
  "i < length xs \<Longrightarrow> xs[i := y] = take i xs @ y # drop (Suc i) xs"
  by (simp add: upd_conv_take_nth_drop)

lemma drop_concat_map:
  "i < length xs \<Longrightarrow> p \<le> length (f (xs ! i)) \<Longrightarrow>
   drop (length (concat (map f (take i xs))) + p) (concat (map f xs)) =
     drop p (f (xs ! i)) @ concat (map f (drop (Suc i) xs))"
  by (simp add: concat_map_take_drop)

lemma in_set_take_nth: "x \<in> set (take n xs) \<Longrightarrow> \<exists>i. i < n \<and> i < length xs \<and> x = xs ! i"
  by (auto simp: in_set_conv_nth)

lemma drop_eq_nth:
  assumes "drop p d = ys @ x # zs"
  shows "p + length ys < length d \<and> d ! (p + length ys) = x"
proof -
  have "length d - p = length (ys @ x # zs)" using assms by (metis length_drop)
  then have "p + length ys < length d" by simp
  then show ?thesis using assms by (metis add_leD1 less_imp_le nth_append_length nth_drop)
qed

lemma append_split_right:
  assumes "as @ bs = ys @ x # zs" and "\<not> length ys < length as"
  shows "\<exists>ys'. ys = as @ ys' \<and> bs = ys' @ x # zs"
  using assms by (metis append_eq_append_conv_if append_take_drop_id le_less_linear not_less
      append_assoc same_append_eq)

lemma append_split_left:
  assumes "as @ bs = ys @ x # zs" and "length ys < length as"
  shows "\<exists>zs'. as = ys @ x # zs'"
proof -
  have "ys = take (length ys) as" using assms by (metis append_eq_append_conv_if less_imp_le append_eq_conv_conj take_append diff_is_0_eq take0 append_Nil2)
  moreover have "as ! length ys = x" using assms by (metis nth_append nth_append_length)
  ultimately show ?thesis using assms(2) by (metis Cons_nth_drop_Suc append_take_drop_id)
qed

section \<open>Words\<close>

lemma less_setD: "n < k \<Longrightarrow> \<forall>i \<in> set [0..<k]. P i \<Longrightarrow> P n" for n :: nat
  by simp

lemma or_low_bits:
  fixes a b :: "'a::len word"
  assumes "take_bit n a = 0" "take_bit n b = b"
  shows "a OR b = a + b"
proof (rule disjunctive_add [symmetric])
  fix i
  show "\<not> bit a i \<or> \<not> bit b i"
  proof (cases "i < n")
    case True
    then have "\<not> bit a i" using assms(1) by (metis bit_0_eq bit_take_bit_iff bot_apply bot_bool_def)
    then show ?thesis by simp
  next
    case False
    then have "\<not> bit b i" using assms(2) by (metis bit_take_bit_iff)
    then show ?thesis by simp
  qed
qed

lemma take_bit_of_nat_less: "k < 2 ^ n \<Longrightarrow> take_bit n (word_of_nat k :: 'a::len word) = word_of_nat k"
  by (simp add: take_bit_nat_eq_self flip: of_nat_take_bit)

lemma drop_bit_of_nat_word: "m < 2 ^ 32 \<Longrightarrow> drop_bit k (word_of_nat m :: guint32) = word_of_nat (m div 2 ^ k)"
proof (rule word_unat_eq_iff [THEN iffD2])
  assume m: "m < 2 ^ 32"
  then have "m div 2 ^ k < 2 ^ 32" by (meson div_le_dividend le_less_trans)
  then show "unat (drop_bit k (word_of_nat m :: guint32)) = unat (word_of_nat (m div 2 ^ k) :: guint32)"
    unfolding unat_drop_bit_eq using m by (simp add: unat_of_nat drop_bit_eq_div)
qed

lemma mask_of_nat_word: "(word_of_nat m :: guint32) AND mask k = word_of_nat (m mod 2 ^ k)"
  by (simp add: of_nat_take_bit flip: take_bit_eq_mod take_bit_eq_mask)

lemma masks: "(0x3FF :: guint32) = mask 10" "(0x3F :: guint32) = mask 6"
  by (simp_all add: mask_eq_exp_minus_1)

lemma ucast_of_nat_down: "(ucast (word_of_nat m :: guint32) :: guint16) = word_of_nat m"
  "(ucast (word_of_nat m :: guint32) :: guint8) = word_of_nat m"
  by (simp_all add: unsigned_of_nat word_unat_eq_iff unat_of_nat take_bit_eq_mod mod_mod_cancel)

section \<open>Integers as bytes\<close>

text \<open>The bytes of an integer in memory, lowest first.\<close>

fun le_bytes :: "nat \<Rightarrow> int \<Rightarrow> guint8 list" where
  "le_bytes 0 v = []"
| "le_bytes (Suc n) v = word_of_int (v mod 256) # le_bytes n (v div 256)"

fun le_value :: "guint8 list \<Rightarrow> int" where
  "le_value [] = 0"
| "le_value (b # bs) = uint b + 256 * le_value bs"

lemma length_le_bytes [simp]: "length (le_bytes n v) = n"
  by (induction n arbitrary: v) auto

lemma le_value_le_bytes: "le_value (le_bytes n v) = v mod 256 ^ n"
proof (induction n arbitrary: v)
  case (Suc n)
  have "v mod 256 + 256 * (v div 256 mod 256 ^ n) = v mod (256 * 256 ^ n)"
    by (simp add: zmod_zmult2_eq)
  moreover have "uint (word_of_int (v mod 256) :: guint8) = v mod 256"
    by (simp add: uint_word_of_int)
  ultimately show ?case using Suc by simp
qed simp

lemma take_le_bytes: "n \<le> m \<Longrightarrow> take n (le_bytes m v) = le_bytes n v"
proof (induction n arbitrary: m v)
  case (Suc n)
  then show ?case by (cases m) auto
qed simp

lemma le_value_range: "0 \<le> le_value bs \<and> le_value bs < 256 ^ length bs"
proof (induction bs)
  case (Cons b bs)
  have "0 \<le> uint b" "uint b < 256" using uint_lt2p [of b] by auto
  then show ?case using Cons by auto
qed simp

lemma le_value_append: "le_value (as @ bs) = le_value as + 256 ^ length as * le_value bs"
  by (induction as) (auto simp: algebra_simps)

section \<open>Binary search for a partition point\<close>

text \<open>
  The runtime has several hand-written searches of the same shape: \<open>left\<close> and \<open>right\<close> close in
  on the first position at which a monotone test holds.  The interface says what the loop does
  in one step; the lemmas say what it returns.
\<close>

locale partition_search =
  fixes loop :: "nat \<Rightarrow> nat \<Rightarrow> nat"
    and test :: "nat \<Rightarrow> bool"
  assumes loop_step: "loop l r =
    (if l < r then (if test ((l + r) div 2) then loop l ((l + r) div 2)
                    else loop ((l + r) div 2 + 1) r)
     else l)"
begin

lemma loop_left: "l < r \<Longrightarrow> test ((l + r) div 2) \<Longrightarrow> loop l r = loop l ((l + r) div 2)"
  using loop_step [of l r] by simp

lemma loop_right: "l < r \<Longrightarrow> \<not> test ((l + r) div 2) \<Longrightarrow> loop l r = loop ((l + r) div 2 + 1) r"
  using loop_step [of l r] by simp

lemma loop_stop: "\<not> l < r \<Longrightarrow> loop l r = l"
  using loop_step [of l r] by simp

lemma loop_range: "l \<le> r \<Longrightarrow> l \<le> loop l r \<and> loop l r \<le> r"
proof (induction "r - l" arbitrary: l r rule: less_induct)
  case less
  show ?case
  proof (cases "l < r")
    case True
    let ?m = "(l + r) div 2"
    have "l \<le> ?m" "?m < r" using True by auto
    then have "l \<le> loop l ?m \<and> loop l ?m \<le> ?m" "?m + 1 \<le> loop (?m + 1) r \<and> loop (?m + 1) r \<le> r"
      using less.hyps [of ?m l] less.hyps [of r "?m + 1"] by auto
    then show ?thesis
      using loop_left [of l r] loop_right [of l r] True by (cases "test ?m") auto
  next
    case False
    then show ?thesis using less.prems loop_stop [of l r] by simp
  qed
qed

lemma below_fails:
  assumes mono: "\<And>i j. i \<le> j \<Longrightarrow> j < n \<Longrightarrow> test i \<Longrightarrow> test j"
    and "r \<le> n" and "l \<le> i" and "i < loop l r"
  shows "\<not> test i"
  using assms(2-)
proof (induction "r - l" arbitrary: l r rule: less_induct)
  case less
  show ?case
  proof (cases "l < r")
    case True
    let ?m = "(l + r) div 2"
    have m: "l \<le> ?m" "?m < r" using True by auto
    show ?thesis
    proof (cases "test ?m")
      case True
      then show ?thesis using less.hyps [of ?m l] less.prems loop_left [of l r] m by auto
    next
      case False
      then have "loop l r = loop (?m + 1) r" using loop_right [of l r] \<open>l < r\<close> by simp
      moreover have "\<not> test i" if "i \<le> ?m"
        using mono [OF that, of] False m less.prems by auto
      ultimately show ?thesis
        using less.hyps [of r "?m + 1"] less.prems m by (cases "i \<le> ?m") auto
    qed
  next
    case False
    then show ?thesis using less.prems loop_stop [of l r] by simp
  qed
qed

lemma at_holds:
  assumes "loop l r < r" and "l \<le> r"
  shows "test (loop l r)"
  using assms
proof (induction "r - l" arbitrary: l r rule: less_induct)
  case less
  show ?case
  proof (cases "l < r")
    case True
    let ?m = "(l + r) div 2"
    have m: "l \<le> ?m" "?m < r" using True by auto
    show ?thesis
    proof (cases "test ?m")
      case True
      then have eq: "loop l r = loop l ?m" using loop_left [of l r] m by auto
      show ?thesis
      proof (cases "loop l ?m = ?m")
        case True
        then show ?thesis using eq \<open>test ?m\<close> by simp
      next
        case False
        then have "loop l ?m < ?m" using loop_range [of l ?m] m by simp
        then show ?thesis using less.hyps [of ?m l] eq m by auto
      qed
    next
      case False
      then have "loop l r = loop (?m + 1) r" using loop_right [of l r] \<open>l < r\<close> by simp
      then show ?thesis using less.hyps [of r "?m + 1"] less.prems m by auto
    qed
  next
    case False
    then show ?thesis using less.prems loop_stop [of l r] by simp
  qed
qed

lemma partition_point:
  assumes "\<And>i j. i \<le> j \<Longrightarrow> j < n \<Longrightarrow> test i \<Longrightarrow> test j"
  shows "loop 0 n \<le> n \<and> (\<forall>i < loop 0 n. \<not> test i) \<and> (\<forall>i < n. loop 0 n \<le> i \<longrightarrow> test i)"
proof -
  have "loop 0 n \<le> n" using loop_range [of 0 n] by simp
  moreover have "\<not> test i" if "i < loop 0 n" for i
    using below_fails [of n n 0 i] assms that by blast
  moreover have "test i" if "i < n" "loop 0 n \<le> i" for i
    using assms [OF that(2) that(1)] at_holds [of 0 n] that by simp
  ultimately show ?thesis by blast
qed

end

end
