(* ===== verification/Meta_Tables.thy ===== *)
theory Meta_Tables
  imports Mono_Prelude
begin

text \<open>
  The physical layout of metadata: \<open>mono/metadata/metadata.c\<close> up to the decoding of rows, with the
  types of \<open>metadata-internals.h\<close>, the table numbers of \<open>blob.h\<close>, the column numbers of
  \<open>row-indexes.h\<close>, and \<open>load_tables\<close> of \<open>image.c\<close>.  The image is a list of bytes; a pointer into it
  is an offset, \<open>None\<close> is the null pointer, and a read outside the image is \<open>Out_of_bounds\<close>.  The
  platform is little-endian with 8-bit signed \<open>char\<close>, and bit-fields narrower than \<open>int\<close> are promoted
  to \<open>int\<close>, so the comparisons with \<open>rows\<close> are signed.
\<close>

section \<open>Tables and columns\<close>

abbreviation (input) MONO_TABLE_MODULE :: nat where "MONO_TABLE_MODULE \<equiv> 0"
abbreviation (input) MONO_TABLE_TYPEREF :: nat where "MONO_TABLE_TYPEREF \<equiv> 1"
abbreviation (input) MONO_TABLE_TYPEDEF :: nat where "MONO_TABLE_TYPEDEF \<equiv> 2"
abbreviation (input) MONO_TABLE_FIELD_POINTER :: nat where "MONO_TABLE_FIELD_POINTER \<equiv> 3"
abbreviation (input) MONO_TABLE_FIELD :: nat where "MONO_TABLE_FIELD \<equiv> 4"
abbreviation (input) MONO_TABLE_METHOD_POINTER :: nat where "MONO_TABLE_METHOD_POINTER \<equiv> 5"
abbreviation (input) MONO_TABLE_METHOD :: nat where "MONO_TABLE_METHOD \<equiv> 6"
abbreviation (input) MONO_TABLE_PARAM_POINTER :: nat where "MONO_TABLE_PARAM_POINTER \<equiv> 7"
abbreviation (input) MONO_TABLE_PARAM :: nat where "MONO_TABLE_PARAM \<equiv> 8"
abbreviation (input) MONO_TABLE_INTERFACEIMPL :: nat where "MONO_TABLE_INTERFACEIMPL \<equiv> 9"
abbreviation (input) MONO_TABLE_MEMBERREF :: nat where "MONO_TABLE_MEMBERREF \<equiv> 10"
abbreviation (input) MONO_TABLE_CONSTANT :: nat where "MONO_TABLE_CONSTANT \<equiv> 11"
abbreviation (input) MONO_TABLE_CUSTOMATTRIBUTE :: nat where "MONO_TABLE_CUSTOMATTRIBUTE \<equiv> 12"
abbreviation (input) MONO_TABLE_FIELDMARSHAL :: nat where "MONO_TABLE_FIELDMARSHAL \<equiv> 13"
abbreviation (input) MONO_TABLE_DECLSECURITY :: nat where "MONO_TABLE_DECLSECURITY \<equiv> 14"
abbreviation (input) MONO_TABLE_CLASSLAYOUT :: nat where "MONO_TABLE_CLASSLAYOUT \<equiv> 15"
abbreviation (input) MONO_TABLE_FIELDLAYOUT :: nat where "MONO_TABLE_FIELDLAYOUT \<equiv> 16"
abbreviation (input) MONO_TABLE_STANDALONESIG :: nat where "MONO_TABLE_STANDALONESIG \<equiv> 17"
abbreviation (input) MONO_TABLE_EVENTMAP :: nat where "MONO_TABLE_EVENTMAP \<equiv> 18"
abbreviation (input) MONO_TABLE_EVENT_POINTER :: nat where "MONO_TABLE_EVENT_POINTER \<equiv> 19"
abbreviation (input) MONO_TABLE_EVENT :: nat where "MONO_TABLE_EVENT \<equiv> 20"
abbreviation (input) MONO_TABLE_PROPERTYMAP :: nat where "MONO_TABLE_PROPERTYMAP \<equiv> 21"
abbreviation (input) MONO_TABLE_PROPERTY_POINTER :: nat where "MONO_TABLE_PROPERTY_POINTER \<equiv> 22"
abbreviation (input) MONO_TABLE_PROPERTY :: nat where "MONO_TABLE_PROPERTY \<equiv> 23"
abbreviation (input) MONO_TABLE_METHODSEMANTICS :: nat where "MONO_TABLE_METHODSEMANTICS \<equiv> 24"
abbreviation (input) MONO_TABLE_METHODIMPL :: nat where "MONO_TABLE_METHODIMPL \<equiv> 25"
abbreviation (input) MONO_TABLE_MODULEREF :: nat where "MONO_TABLE_MODULEREF \<equiv> 26"
abbreviation (input) MONO_TABLE_TYPESPEC :: nat where "MONO_TABLE_TYPESPEC \<equiv> 27"
abbreviation (input) MONO_TABLE_IMPLMAP :: nat where "MONO_TABLE_IMPLMAP \<equiv> 28"
abbreviation (input) MONO_TABLE_FIELDRVA :: nat where "MONO_TABLE_FIELDRVA \<equiv> 29"
abbreviation (input) MONO_TABLE_UNUSED6 :: nat where "MONO_TABLE_UNUSED6 \<equiv> 30"
abbreviation (input) MONO_TABLE_UNUSED7 :: nat where "MONO_TABLE_UNUSED7 \<equiv> 31"
abbreviation (input) MONO_TABLE_ASSEMBLY :: nat where "MONO_TABLE_ASSEMBLY \<equiv> 32"
abbreviation (input) MONO_TABLE_ASSEMBLYPROCESSOR :: nat where "MONO_TABLE_ASSEMBLYPROCESSOR \<equiv> 33"
abbreviation (input) MONO_TABLE_ASSEMBLYOS :: nat where "MONO_TABLE_ASSEMBLYOS \<equiv> 34"
abbreviation (input) MONO_TABLE_ASSEMBLYREF :: nat where "MONO_TABLE_ASSEMBLYREF \<equiv> 35"
abbreviation (input) MONO_TABLE_ASSEMBLYREFPROCESSOR :: nat where "MONO_TABLE_ASSEMBLYREFPROCESSOR \<equiv> 36"
abbreviation (input) MONO_TABLE_ASSEMBLYREFOS :: nat where "MONO_TABLE_ASSEMBLYREFOS \<equiv> 37"
abbreviation (input) MONO_TABLE_FILE :: nat where "MONO_TABLE_FILE \<equiv> 38"
abbreviation (input) MONO_TABLE_EXPORTEDTYPE :: nat where "MONO_TABLE_EXPORTEDTYPE \<equiv> 39"
abbreviation (input) MONO_TABLE_MANIFESTRESOURCE :: nat where "MONO_TABLE_MANIFESTRESOURCE \<equiv> 40"
abbreviation (input) MONO_TABLE_NESTEDCLASS :: nat where "MONO_TABLE_NESTEDCLASS \<equiv> 41"
abbreviation (input) MONO_TABLE_GENERICPARAM :: nat where "MONO_TABLE_GENERICPARAM \<equiv> 42"
abbreviation (input) MONO_TABLE_METHODSPEC :: nat where "MONO_TABLE_METHODSPEC \<equiv> 43"
abbreviation (input) MONO_TABLE_GENERICPARAMCONSTRAINT :: nat where "MONO_TABLE_GENERICPARAMCONSTRAINT \<equiv> 44"

datatype MONO_MT =
    MONO_MT_END | MONO_MT_UINT32 | MONO_MT_UINT16 | MONO_MT_UINT8
  | MONO_MT_BLOB_IDX | MONO_MT_STRING_IDX | MONO_MT_GUID_IDX | MONO_MT_TABLE_IDX
  | MONO_MT_CONST_IDX | MONO_MT_HASCAT_IDX | MONO_MT_CAT_IDX | MONO_MT_HASDEC_IDX
  | MONO_MT_IMPL_IDX | MONO_MT_HFM_IDX | MONO_MT_MF_IDX | MONO_MT_TDOR_IDX
  | MONO_MT_MRP_IDX | MONO_MT_MDOR_IDX | MONO_MT_HS_IDX | MONO_MT_RS_IDX

abbreviation (input) ASSEMBLY_SCHEMA_OFFSET :: nat where "ASSEMBLY_SCHEMA_OFFSET \<equiv> 0"
abbreviation (input) ASSEMBLYOS_SCHEMA_OFFSET :: nat where "ASSEMBLYOS_SCHEMA_OFFSET \<equiv> ASSEMBLY_SCHEMA_OFFSET + 10"
abbreviation (input) ASSEMBLYPROC_SCHEMA_OFFSET :: nat where "ASSEMBLYPROC_SCHEMA_OFFSET \<equiv> ASSEMBLYOS_SCHEMA_OFFSET + 4"
abbreviation (input) ASSEMBLYREF_SCHEMA_OFFSET :: nat where "ASSEMBLYREF_SCHEMA_OFFSET \<equiv> ASSEMBLYPROC_SCHEMA_OFFSET + 2"
abbreviation (input) ASSEMBLYREFOS_SCHEMA_OFFSET :: nat where "ASSEMBLYREFOS_SCHEMA_OFFSET \<equiv> ASSEMBLYREF_SCHEMA_OFFSET + 10"
abbreviation (input) ASSEMBLYREFPROC_SCHEMA_OFFSET :: nat where "ASSEMBLYREFPROC_SCHEMA_OFFSET \<equiv> ASSEMBLYREFOS_SCHEMA_OFFSET + 5"
abbreviation (input) CLASS_LAYOUT_SCHEMA_OFFSET :: nat where "CLASS_LAYOUT_SCHEMA_OFFSET \<equiv> ASSEMBLYREFPROC_SCHEMA_OFFSET + 3"
abbreviation (input) CONSTANT_SCHEMA_OFFSET :: nat where "CONSTANT_SCHEMA_OFFSET \<equiv> CLASS_LAYOUT_SCHEMA_OFFSET + 4"
abbreviation (input) CUSTOM_ATTR_SCHEMA_OFFSET :: nat where "CUSTOM_ATTR_SCHEMA_OFFSET \<equiv> CONSTANT_SCHEMA_OFFSET + 5"
abbreviation (input) DECL_SEC_SCHEMA_OFFSET :: nat where "DECL_SEC_SCHEMA_OFFSET \<equiv> CUSTOM_ATTR_SCHEMA_OFFSET + 4"
abbreviation (input) EVENTMAP_SCHEMA_OFFSET :: nat where "EVENTMAP_SCHEMA_OFFSET \<equiv> DECL_SEC_SCHEMA_OFFSET + 4"
abbreviation (input) EVENT_SCHEMA_OFFSET :: nat where "EVENT_SCHEMA_OFFSET \<equiv> EVENTMAP_SCHEMA_OFFSET + 3"
abbreviation (input) EVENT_POINTER_SCHEMA_OFFSET :: nat where "EVENT_POINTER_SCHEMA_OFFSET \<equiv> EVENT_SCHEMA_OFFSET + 4"
abbreviation (input) EXPORTED_TYPE_SCHEMA_OFFSET :: nat where "EXPORTED_TYPE_SCHEMA_OFFSET \<equiv> EVENT_POINTER_SCHEMA_OFFSET + 2"
abbreviation (input) FIELD_SCHEMA_OFFSET :: nat where "FIELD_SCHEMA_OFFSET \<equiv> EXPORTED_TYPE_SCHEMA_OFFSET + 6"
abbreviation (input) FIELD_LAYOUT_SCHEMA_OFFSET :: nat where "FIELD_LAYOUT_SCHEMA_OFFSET \<equiv> FIELD_SCHEMA_OFFSET + 4"
abbreviation (input) FIELD_MARSHAL_SCHEMA_OFFSET :: nat where "FIELD_MARSHAL_SCHEMA_OFFSET \<equiv> FIELD_LAYOUT_SCHEMA_OFFSET + 3"
abbreviation (input) FIELD_RVA_SCHEMA_OFFSET :: nat where "FIELD_RVA_SCHEMA_OFFSET \<equiv> FIELD_MARSHAL_SCHEMA_OFFSET + 3"
abbreviation (input) FIELD_POINTER_SCHEMA_OFFSET :: nat where "FIELD_POINTER_SCHEMA_OFFSET \<equiv> FIELD_RVA_SCHEMA_OFFSET + 3"
abbreviation (input) FILE_SCHEMA_OFFSET :: nat where "FILE_SCHEMA_OFFSET \<equiv> FIELD_POINTER_SCHEMA_OFFSET + 2"
abbreviation (input) IMPLMAP_SCHEMA_OFFSET :: nat where "IMPLMAP_SCHEMA_OFFSET \<equiv> FILE_SCHEMA_OFFSET + 4"
abbreviation (input) IFACEMAP_SCHEMA_OFFSET :: nat where "IFACEMAP_SCHEMA_OFFSET \<equiv> IMPLMAP_SCHEMA_OFFSET + 5"
abbreviation (input) MANIFEST_SCHEMA_OFFSET :: nat where "MANIFEST_SCHEMA_OFFSET \<equiv> IFACEMAP_SCHEMA_OFFSET + 3"
abbreviation (input) MEMBERREF_SCHEMA_OFFSET :: nat where "MEMBERREF_SCHEMA_OFFSET \<equiv> MANIFEST_SCHEMA_OFFSET + 5"
abbreviation (input) METHOD_SCHEMA_OFFSET :: nat where "METHOD_SCHEMA_OFFSET \<equiv> MEMBERREF_SCHEMA_OFFSET + 4"
abbreviation (input) METHOD_IMPL_SCHEMA_OFFSET :: nat where "METHOD_IMPL_SCHEMA_OFFSET \<equiv> METHOD_SCHEMA_OFFSET + 7"
abbreviation (input) METHOD_SEMA_SCHEMA_OFFSET :: nat where "METHOD_SEMA_SCHEMA_OFFSET \<equiv> METHOD_IMPL_SCHEMA_OFFSET + 4"
abbreviation (input) METHOD_POINTER_SCHEMA_OFFSET :: nat where "METHOD_POINTER_SCHEMA_OFFSET \<equiv> METHOD_SEMA_SCHEMA_OFFSET + 4"
abbreviation (input) MODULE_SCHEMA_OFFSET :: nat where "MODULE_SCHEMA_OFFSET \<equiv> METHOD_POINTER_SCHEMA_OFFSET + 2"
abbreviation (input) MODULEREF_SCHEMA_OFFSET :: nat where "MODULEREF_SCHEMA_OFFSET \<equiv> MODULE_SCHEMA_OFFSET + 6"
abbreviation (input) NESTED_CLASS_SCHEMA_OFFSET :: nat where "NESTED_CLASS_SCHEMA_OFFSET \<equiv> MODULEREF_SCHEMA_OFFSET + 2"
abbreviation (input) PARAM_SCHEMA_OFFSET :: nat where "PARAM_SCHEMA_OFFSET \<equiv> NESTED_CLASS_SCHEMA_OFFSET + 3"
abbreviation (input) PARAM_POINTER_SCHEMA_OFFSET :: nat where "PARAM_POINTER_SCHEMA_OFFSET \<equiv> PARAM_SCHEMA_OFFSET + 4"
abbreviation (input) PROPERTY_SCHEMA_OFFSET :: nat where "PROPERTY_SCHEMA_OFFSET \<equiv> PARAM_POINTER_SCHEMA_OFFSET + 2"
abbreviation (input) PROPERTY_POINTER_SCHEMA_OFFSET :: nat where "PROPERTY_POINTER_SCHEMA_OFFSET \<equiv> PROPERTY_SCHEMA_OFFSET + 4"
abbreviation (input) PROPERTY_MAP_SCHEMA_OFFSET :: nat where "PROPERTY_MAP_SCHEMA_OFFSET \<equiv> PROPERTY_POINTER_SCHEMA_OFFSET + 2"
abbreviation (input) STDALON_SIG_SCHEMA_OFFSET :: nat where "STDALON_SIG_SCHEMA_OFFSET \<equiv> PROPERTY_MAP_SCHEMA_OFFSET + 3"
abbreviation (input) TYPEDEF_SCHEMA_OFFSET :: nat where "TYPEDEF_SCHEMA_OFFSET \<equiv> STDALON_SIG_SCHEMA_OFFSET + 2"
abbreviation (input) TYPEREF_SCHEMA_OFFSET :: nat where "TYPEREF_SCHEMA_OFFSET \<equiv> TYPEDEF_SCHEMA_OFFSET + 7"
abbreviation (input) TYPESPEC_SCHEMA_OFFSET :: nat where "TYPESPEC_SCHEMA_OFFSET \<equiv> TYPEREF_SCHEMA_OFFSET + 4"
abbreviation (input) GENPARAM_SCHEMA_OFFSET :: nat where "GENPARAM_SCHEMA_OFFSET \<equiv> TYPESPEC_SCHEMA_OFFSET + 2"
abbreviation (input) METHOD_SPEC_SCHEMA_OFFSET :: nat where "METHOD_SPEC_SCHEMA_OFFSET \<equiv> GENPARAM_SCHEMA_OFFSET + 5"
abbreviation (input) GEN_CONSTRAINT_SCHEMA_OFFSET :: nat where "GEN_CONSTRAINT_SCHEMA_OFFSET \<equiv> METHOD_SPEC_SCHEMA_OFFSET + 3"
abbreviation (input) NULL_SCHEMA_OFFSET :: nat where "NULL_SCHEMA_OFFSET \<equiv> GEN_CONSTRAINT_SCHEMA_OFFSET + 3"

definition TableSchemas :: "MONO_MT list" where
  "TableSchemas =
   [MONO_MT_UINT32, MONO_MT_UINT16, MONO_MT_UINT16, MONO_MT_UINT16, MONO_MT_UINT16, MONO_MT_UINT32,
     MONO_MT_BLOB_IDX, MONO_MT_STRING_IDX, MONO_MT_STRING_IDX, MONO_MT_END,
    MONO_MT_UINT32, MONO_MT_UINT32, MONO_MT_UINT32, MONO_MT_END,
    MONO_MT_UINT32, MONO_MT_END,
    MONO_MT_UINT16, MONO_MT_UINT16, MONO_MT_UINT16, MONO_MT_UINT16, MONO_MT_UINT32, MONO_MT_BLOB_IDX,
     MONO_MT_STRING_IDX, MONO_MT_STRING_IDX, MONO_MT_BLOB_IDX, MONO_MT_END,
    MONO_MT_UINT32, MONO_MT_UINT32, MONO_MT_UINT32, MONO_MT_TABLE_IDX, MONO_MT_END,
    MONO_MT_UINT32, MONO_MT_TABLE_IDX, MONO_MT_END,
    MONO_MT_UINT16, MONO_MT_UINT32, MONO_MT_TABLE_IDX, MONO_MT_END,
    MONO_MT_UINT8, MONO_MT_UINT8, MONO_MT_CONST_IDX, MONO_MT_BLOB_IDX, MONO_MT_END,
    MONO_MT_HASCAT_IDX, MONO_MT_CAT_IDX, MONO_MT_BLOB_IDX, MONO_MT_END,
    MONO_MT_UINT16, MONO_MT_HASDEC_IDX, MONO_MT_BLOB_IDX, MONO_MT_END,
    MONO_MT_TABLE_IDX, MONO_MT_TABLE_IDX, MONO_MT_END,
    MONO_MT_UINT16, MONO_MT_STRING_IDX, MONO_MT_TDOR_IDX, MONO_MT_END,
    MONO_MT_TABLE_IDX, MONO_MT_END,
    MONO_MT_UINT32, MONO_MT_TABLE_IDX, MONO_MT_STRING_IDX, MONO_MT_STRING_IDX, MONO_MT_IMPL_IDX, MONO_MT_END,
    MONO_MT_UINT16, MONO_MT_STRING_IDX, MONO_MT_BLOB_IDX, MONO_MT_END,
    MONO_MT_UINT32, MONO_MT_TABLE_IDX, MONO_MT_END,
    MONO_MT_HFM_IDX, MONO_MT_BLOB_IDX, MONO_MT_END,
    MONO_MT_UINT32, MONO_MT_TABLE_IDX, MONO_MT_END,
    MONO_MT_TABLE_IDX, MONO_MT_END,
    MONO_MT_UINT32, MONO_MT_STRING_IDX, MONO_MT_BLOB_IDX, MONO_MT_END,
    MONO_MT_UINT16, MONO_MT_MF_IDX, MONO_MT_STRING_IDX, MONO_MT_TABLE_IDX, MONO_MT_END,
    MONO_MT_TABLE_IDX, MONO_MT_TDOR_IDX, MONO_MT_END,
    MONO_MT_UINT32, MONO_MT_UINT32, MONO_MT_STRING_IDX, MONO_MT_IMPL_IDX, MONO_MT_END,
    MONO_MT_MRP_IDX, MONO_MT_STRING_IDX, MONO_MT_BLOB_IDX, MONO_MT_END,
    MONO_MT_UINT32, MONO_MT_UINT16, MONO_MT_UINT16, MONO_MT_STRING_IDX, MONO_MT_BLOB_IDX, MONO_MT_TABLE_IDX,
     MONO_MT_END,
    MONO_MT_TABLE_IDX, MONO_MT_MDOR_IDX, MONO_MT_MDOR_IDX, MONO_MT_END,
    MONO_MT_UINT16, MONO_MT_TABLE_IDX, MONO_MT_HS_IDX, MONO_MT_END,
    MONO_MT_TABLE_IDX, MONO_MT_END,
    MONO_MT_UINT16, MONO_MT_STRING_IDX, MONO_MT_GUID_IDX, MONO_MT_GUID_IDX, MONO_MT_GUID_IDX, MONO_MT_END,
    MONO_MT_STRING_IDX, MONO_MT_END,
    MONO_MT_TABLE_IDX, MONO_MT_TABLE_IDX, MONO_MT_END,
    MONO_MT_UINT16, MONO_MT_UINT16, MONO_MT_STRING_IDX, MONO_MT_END,
    MONO_MT_TABLE_IDX, MONO_MT_END,
    MONO_MT_UINT16, MONO_MT_STRING_IDX, MONO_MT_BLOB_IDX, MONO_MT_END,
    MONO_MT_TABLE_IDX, MONO_MT_END,
    MONO_MT_TABLE_IDX, MONO_MT_TABLE_IDX, MONO_MT_END,
    MONO_MT_BLOB_IDX, MONO_MT_END,
    MONO_MT_UINT32, MONO_MT_STRING_IDX, MONO_MT_STRING_IDX, MONO_MT_TDOR_IDX, MONO_MT_TABLE_IDX, MONO_MT_TABLE_IDX,
     MONO_MT_END,
    MONO_MT_RS_IDX, MONO_MT_STRING_IDX, MONO_MT_STRING_IDX, MONO_MT_END,
    MONO_MT_BLOB_IDX, MONO_MT_END,
    MONO_MT_UINT16, MONO_MT_UINT16, MONO_MT_TABLE_IDX, MONO_MT_STRING_IDX, MONO_MT_END,
    MONO_MT_MDOR_IDX, MONO_MT_BLOB_IDX, MONO_MT_END,
    MONO_MT_TABLE_IDX, MONO_MT_TDOR_IDX, MONO_MT_END,
    MONO_MT_END]"

definition table_description :: "nat list" where
  "table_description =
   [MODULE_SCHEMA_OFFSET, TYPEREF_SCHEMA_OFFSET, TYPEDEF_SCHEMA_OFFSET, FIELD_POINTER_SCHEMA_OFFSET,
    FIELD_SCHEMA_OFFSET, METHOD_POINTER_SCHEMA_OFFSET, METHOD_SCHEMA_OFFSET, PARAM_POINTER_SCHEMA_OFFSET,
    PARAM_SCHEMA_OFFSET, IFACEMAP_SCHEMA_OFFSET, MEMBERREF_SCHEMA_OFFSET, CONSTANT_SCHEMA_OFFSET,
    CUSTOM_ATTR_SCHEMA_OFFSET, FIELD_MARSHAL_SCHEMA_OFFSET, DECL_SEC_SCHEMA_OFFSET, CLASS_LAYOUT_SCHEMA_OFFSET,
    FIELD_LAYOUT_SCHEMA_OFFSET, STDALON_SIG_SCHEMA_OFFSET, EVENTMAP_SCHEMA_OFFSET, EVENT_POINTER_SCHEMA_OFFSET,
    EVENT_SCHEMA_OFFSET, PROPERTY_MAP_SCHEMA_OFFSET, PROPERTY_POINTER_SCHEMA_OFFSET, PROPERTY_SCHEMA_OFFSET,
    METHOD_SEMA_SCHEMA_OFFSET, METHOD_IMPL_SCHEMA_OFFSET, MODULEREF_SCHEMA_OFFSET, TYPESPEC_SCHEMA_OFFSET,
    IMPLMAP_SCHEMA_OFFSET, FIELD_RVA_SCHEMA_OFFSET, NULL_SCHEMA_OFFSET, NULL_SCHEMA_OFFSET,
    ASSEMBLY_SCHEMA_OFFSET, ASSEMBLYPROC_SCHEMA_OFFSET, ASSEMBLYOS_SCHEMA_OFFSET, ASSEMBLYREF_SCHEMA_OFFSET,
    ASSEMBLYREFPROC_SCHEMA_OFFSET, ASSEMBLYREFOS_SCHEMA_OFFSET, FILE_SCHEMA_OFFSET, EXPORTED_TYPE_SCHEMA_OFFSET,
    MANIFEST_SCHEMA_OFFSET, NESTED_CLASS_SCHEMA_OFFSET, GENPARAM_SCHEMA_OFFSET, METHOD_SPEC_SCHEMA_OFFSET,
    GEN_CONSTRAINT_SCHEMA_OFFSET]"

section \<open>The image\<close>

text \<open>\<open>rows\<close> is a bit-field of 24 bits, \<open>row_size\<close> of 8.\<close>

record MonoTableInfo =
  base :: "int option"
  rows :: nat
  row_size :: nat
  size_bitfield :: guint32

record MonoStreamHeader =
  heap_data :: "int option"
  heap_size :: nat

record MonoImage =
  raw_data :: "guint8 list"
  uncompressed_metadata :: bool
  idx_string_wide :: bool
  idx_guid_wide :: bool
  idx_blob_wide :: bool
  heap_strings :: MonoStreamHeader
  heap_us :: MonoStreamHeader
  heap_blob :: MonoStreamHeader
  heap_guid :: MonoStreamHeader
  heap_tables :: MonoStreamHeader
  tables_base :: int
  tables :: "MonoTableInfo list"

definition MONO_TABLE_LAST :: nat where
  "MONO_TABLE_LAST = MONO_TABLE_GENERICPARAMCONSTRAINT"

definition MONO_TABLE_NUM :: nat where
  "MONO_TABLE_NUM = MONO_TABLE_LAST + 1"

definition read8 :: "guint8 list \<Rightarrow> int \<Rightarrow> guint8 res" where
  "read8 m p = (if 0 \<le> p \<and> p < int (length m) then Inr (m ! nat p) else Inl Out_of_bounds)"

definition read16 :: "guint8 list \<Rightarrow> int \<Rightarrow> guint16 res" where
  "read16 m p = bindr (read8 m p) (\<lambda>a. bindr (read8 m (p + 1)) (\<lambda>b.
    Inr (ucast a + push_bit 8 (ucast b))))"

definition read32 :: "guint8 list \<Rightarrow> int \<Rightarrow> guint32 res" where
  "read32 m p = bindr (read16 m p) (\<lambda>a. bindr (read16 m (p + 2)) (\<lambda>b.
    Inr (ucast a + push_bit 16 (ucast b))))"

definition read64 :: "guint8 list \<Rightarrow> int \<Rightarrow> guint64 res" where
  "read64 m p = bindr (read32 m p) (\<lambda>a. bindr (read32 m (p + 4)) (\<lambda>b.
    Inr (ucast a + push_bit 32 (ucast b))))"

section \<open>The size of a row\<close>

definition rtsize :: "nat \<Rightarrow> nat \<Rightarrow> nat" where
  "rtsize s b = (if s < 2 ^ b then 2 else 4)"

definition table_rows :: "MonoImage \<Rightarrow> nat \<Rightarrow> nat" where
  "table_rows meta t = rows (tables meta ! t)"

definition idx_size :: "MonoImage \<Rightarrow> nat \<Rightarrow> nat" where
  "idx_size meta t = (if table_rows meta t < 65536 then 2 else 4)"

text \<open>The chain of \<open>MAX\<close> over the row counts of the tables a coded index can point to.\<close>

fun max_rows :: "MonoImage \<Rightarrow> nat list \<Rightarrow> nat" where
  "max_rows meta [] = 0"
| "max_rows meta (t # ts) = max (table_rows meta t) (max_rows meta ts)"

text \<open>The inner switch: which table a plain index of column \<open>i\<close> of a table points to.\<close>

definition table_idx_size :: "MonoImage \<Rightarrow> nat \<Rightarrow> nat \<Rightarrow> nat res" where
  "table_idx_size meta tableindex i =
    (let one = (\<lambda>k t. guardr (i = k) Assert_failed (Inr (idx_size meta t)));
         two = (\<lambda>j k t u. guardr (i = j \<or> i = k) Assert_failed
                 (Inr (if i = j then idx_size meta t else idx_size meta u))) in
     if tableindex = MONO_TABLE_ASSEMBLYREFOS then one 3 MONO_TABLE_ASSEMBLYREF
     else if tableindex = MONO_TABLE_ASSEMBLYREFPROCESSOR then one 1 MONO_TABLE_ASSEMBLYREF
     else if tableindex = MONO_TABLE_CLASSLAYOUT then one 2 MONO_TABLE_TYPEDEF
     else if tableindex = MONO_TABLE_EVENTMAP then two 0 1 MONO_TABLE_TYPEDEF MONO_TABLE_EVENT
     else if tableindex = MONO_TABLE_EVENT_POINTER then one 0 MONO_TABLE_EVENT
     else if tableindex = MONO_TABLE_EXPORTEDTYPE then guardr (i = 1) Assert_failed (Inr 4)
     else if tableindex = MONO_TABLE_FIELDLAYOUT then one 1 MONO_TABLE_FIELD
     else if tableindex = MONO_TABLE_FIELDRVA then one 1 MONO_TABLE_FIELD
     else if tableindex = MONO_TABLE_FIELD_POINTER then one 0 MONO_TABLE_FIELD
     else if tableindex = MONO_TABLE_IMPLMAP then one 3 MONO_TABLE_MODULEREF
     else if tableindex = MONO_TABLE_INTERFACEIMPL then one 0 MONO_TABLE_TYPEDEF
     else if tableindex = MONO_TABLE_METHOD then one 5 MONO_TABLE_PARAM
     else if tableindex = MONO_TABLE_METHODIMPL then one 0 MONO_TABLE_TYPEDEF
     else if tableindex = MONO_TABLE_METHODSEMANTICS then one 1 MONO_TABLE_METHOD
     else if tableindex = MONO_TABLE_METHOD_POINTER then one 0 MONO_TABLE_METHOD
     else if tableindex = MONO_TABLE_NESTEDCLASS then two 0 1 MONO_TABLE_TYPEDEF MONO_TABLE_TYPEDEF
     else if tableindex = MONO_TABLE_PARAM_POINTER then one 0 MONO_TABLE_PARAM
     else if tableindex = MONO_TABLE_PROPERTYMAP then two 0 1 MONO_TABLE_TYPEDEF MONO_TABLE_PROPERTY
     else if tableindex = MONO_TABLE_PROPERTY_POINTER then one 0 MONO_TABLE_PROPERTY
     else if tableindex = MONO_TABLE_TYPEDEF then two 4 5 MONO_TABLE_FIELD MONO_TABLE_METHOD
     else if tableindex = MONO_TABLE_GENERICPARAM then
       guardr (i = 2) Assert_failed
         (Inr (rtsize (max_rows meta [MONO_TABLE_METHOD, MONO_TABLE_TYPEDEF]) (16 - 1)))
     else if tableindex = MONO_TABLE_GENERICPARAMCONSTRAINT then one 0 MONO_TABLE_GENERICPARAM
     else Inl Assert_failed)"

text \<open>
  The outer switch: the size of column \<open>i\<close> of table \<open>tableindex\<close> with code \<open>code\<close>.  The end of the
  description never gets here.
\<close>

primrec field_size :: "MonoImage \<Rightarrow> nat \<Rightarrow> nat \<Rightarrow> MONO_MT \<Rightarrow> nat res" where
  "field_size meta tableindex i MONO_MT_END = Inl Assert_failed"
| "field_size meta tableindex i MONO_MT_UINT32 = Inr 4"
| "field_size meta tableindex i MONO_MT_UINT16 = Inr 2"
| "field_size meta tableindex i MONO_MT_UINT8 = Inr 1"
| "field_size meta tableindex i MONO_MT_BLOB_IDX = Inr (if idx_blob_wide meta then 4 else 2)"
| "field_size meta tableindex i MONO_MT_STRING_IDX = Inr (if idx_string_wide meta then 4 else 2)"
| "field_size meta tableindex i MONO_MT_GUID_IDX = Inr (if idx_guid_wide meta then 4 else 2)"
| "field_size meta tableindex i MONO_MT_TABLE_IDX = table_idx_size meta tableindex i"
| "field_size meta tableindex i MONO_MT_CONST_IDX =
    Inr (rtsize (max_rows meta [MONO_TABLE_PARAM, MONO_TABLE_FIELD, MONO_TABLE_PROPERTY]) (16 - 2))"
| "field_size meta tableindex i MONO_MT_HASCAT_IDX =
    Inr (rtsize (max_rows meta [MONO_TABLE_METHOD, MONO_TABLE_FIELD, MONO_TABLE_TYPEREF, MONO_TABLE_TYPEDEF,
      MONO_TABLE_PARAM, MONO_TABLE_INTERFACEIMPL, MONO_TABLE_MEMBERREF, MONO_TABLE_MODULE,
      MONO_TABLE_DECLSECURITY, MONO_TABLE_PROPERTY, MONO_TABLE_EVENT, MONO_TABLE_STANDALONESIG,
      MONO_TABLE_MODULEREF, MONO_TABLE_TYPESPEC, MONO_TABLE_ASSEMBLY, MONO_TABLE_ASSEMBLYREF,
      MONO_TABLE_FILE, MONO_TABLE_EXPORTEDTYPE, MONO_TABLE_MANIFESTRESOURCE]) (16 - 5))"
| "field_size meta tableindex i MONO_MT_CAT_IDX =
    Inr (rtsize (max_rows meta [MONO_TABLE_METHOD, MONO_TABLE_MEMBERREF]) (16 - 3))"
| "field_size meta tableindex i MONO_MT_HASDEC_IDX =
    Inr (rtsize (max_rows meta [MONO_TABLE_TYPEDEF, MONO_TABLE_METHOD, MONO_TABLE_ASSEMBLY]) (16 - 2))"
| "field_size meta tableindex i MONO_MT_IMPL_IDX =
    Inr (rtsize (max_rows meta [MONO_TABLE_FILE, MONO_TABLE_ASSEMBLYREF, MONO_TABLE_EXPORTEDTYPE]) (16 - 2))"
| "field_size meta tableindex i MONO_MT_HFM_IDX =
    Inr (rtsize (max_rows meta [MONO_TABLE_FIELD, MONO_TABLE_PARAM]) (16 - 1))"
| "field_size meta tableindex i MONO_MT_MF_IDX =
    Inr (rtsize (max_rows meta [MONO_TABLE_FIELD, MONO_TABLE_METHOD]) (16 - 1))"
| "field_size meta tableindex i MONO_MT_TDOR_IDX =
    Inr (rtsize (max_rows meta [MONO_TABLE_TYPEDEF, MONO_TABLE_TYPEREF, MONO_TABLE_TYPESPEC]) (16 - 2))"
| "field_size meta tableindex i MONO_MT_MRP_IDX =
    Inr (rtsize (max_rows meta [MONO_TABLE_TYPEDEF, MONO_TABLE_TYPEREF, MONO_TABLE_METHOD,
      MONO_TABLE_MODULEREF, MONO_TABLE_TYPESPEC]) (16 - 3))"
| "field_size meta tableindex i MONO_MT_MDOR_IDX =
    Inr (rtsize (max_rows meta [MONO_TABLE_METHOD, MONO_TABLE_MEMBERREF]) (16 - 1))"
| "field_size meta tableindex i MONO_MT_HS_IDX =
    Inr (rtsize (max_rows meta [MONO_TABLE_PROPERTY, MONO_TABLE_EVENT]) (16 - 1))"
| "field_size meta tableindex i MONO_MT_RS_IDX =
    Inr (rtsize (max_rows meta [MONO_TABLE_MODULE, MONO_TABLE_MODULEREF, MONO_TABLE_ASSEMBLYREF,
      MONO_TABLE_TYPEREF]) (16 - 2))"

fun compute_size_loop ::
  "MonoImage \<Rightarrow> nat \<Rightarrow> nat \<Rightarrow> nat \<Rightarrow> MONO_MT list \<Rightarrow> guint32 \<Rightarrow> nat \<Rightarrow> (nat \<times> guint32) res" where
  "compute_size_loop meta tableindex i shift [] bitfield sz = Inl Out_of_bounds"
| "compute_size_loop meta tableindex i shift (code # description) bitfield sz =
    (if code = MONO_MT_END then Inr (sz, push_bit 24 (of_nat i) OR bitfield)
     else bindr (field_size meta tableindex i code) (\<lambda>fs.
       compute_size_loop meta tableindex (i + 1) (shift + 2) description
         (bitfield OR push_bit shift (of_nat (fs - 1))) (sz + fs)))"

text \<open>The size of a row, and the bit-field with the number of columns and their sizes.\<close>

definition mono_metadata_compute_size :: "MonoImage \<Rightarrow> nat \<Rightarrow> (nat \<times> guint32) res" where
  "mono_metadata_compute_size meta tableindex =
    compute_size_loop meta tableindex 0 0 (drop (table_description ! tableindex) TableSchemas) 0 0"

definition mono_metadata_table_size :: "guint32 \<Rightarrow> nat \<Rightarrow> nat" where
  "mono_metadata_table_size bitfield i = unat (drop_bit (i * 2) bitfield AND 0x3) + 1"

definition mono_metadata_table_count :: "guint32 \<Rightarrow> nat" where
  "mono_metadata_table_count bitfield = unat (drop_bit 24 bitfield)"

fun table_bases_loop :: "nat list \<Rightarrow> int \<Rightarrow> MonoImage \<Rightarrow> MonoImage res" where
  "table_bases_loop [] b meta = Inr meta"
| "table_bases_loop (i # is) b meta =
    (if table_rows meta i = 0 then table_bases_loop is b meta
     else bindr (mono_metadata_compute_size meta i) (\<lambda>(sz, bitfield).
       let table = (tables meta ! i)\<lparr>row_size := sz mod 2 ^ 8, size_bitfield := bitfield, base := Some b\<rparr>
       in table_bases_loop is (b + int (rows table * row_size table))
            (meta\<lparr>tables := (tables meta)[i := table]\<rparr>)))"

definition mono_metadata_compute_table_bases :: "MonoImage \<Rightarrow> MonoImage res" where
  "mono_metadata_compute_table_bases meta = table_bases_loop [0..<MONO_TABLE_NUM] (tables_base meta) meta"

section \<open>Loading the tables stream\<close>

text \<open>The loop over the bits of the mask of valid tables: the new tables and the number of row counts.\<close>

fun row_counts_loop :: "guint8 list \<Rightarrow> guint64 \<Rightarrow> nat list \<Rightarrow> int \<Rightarrow> nat \<Rightarrow> MonoTableInfo list \<Rightarrow> (int \<times> nat \<times> MonoTableInfo list) res" where
  "row_counts_loop m valid_mask [] p valid ts = Inr (p, valid, ts)"
| "row_counts_loop m valid_mask (table # todo) p valid ts =
    (if \<not> bit valid_mask table then
       row_counts_loop m valid_mask todo p valid
         (if table > MONO_TABLE_LAST then ts else ts[table := (ts ! table)\<lparr>rows := 0\<rparr>])
     else if table > MONO_TABLE_LAST then row_counts_loop m valid_mask todo (p + 4) (valid + 1) ts
     else bindr (read32 m p) (\<lambda>n.
       row_counts_loop m valid_mask todo (p + 4) (valid + 1)
         (ts[table := (ts ! table)\<lparr>rows := unat n mod 2 ^ 24\<rparr>])))"

definition load_tables :: "MonoImage \<Rightarrow> MonoImage res" where
  "load_tables meta =
    (case heap_data (heap_tables meta) of None \<Rightarrow> Inl Null_deref
     | Some ht \<Rightarrow>
       bindr (read8 (raw_data meta) (ht + 6)) (\<lambda>heap_sizes.
       bindr (read64 (raw_data meta) (ht + 8)) (\<lambda>valid_mask.
       bindr (read64 (raw_data meta) (ht + 16)) (\<lambda>sorted_mask.
       bindr (row_counts_loop (raw_data meta) valid_mask [0..<64] (ht + 24) 0 (tables meta)) (\<lambda>(p, valid, ts).
       let meta = meta\<lparr>idx_string_wide := (heap_sizes AND 1 = 1), idx_guid_wide := (heap_sizes AND 2 = 2),
             idx_blob_wide := (heap_sizes AND 4 = 4), tables := ts, tables_base := ht + 24 + 4 * int valid\<rparr>
       in guardr (tables_base meta = p) Assert_failed (mono_metadata_compute_table_bases meta))))))"

section \<open>Rows and heaps\<close>

definition in_int :: "int \<Rightarrow> bool" where
  "in_int i \<longleftrightarrow> - (2 ^ 31) \<le> i \<and> i < 2 ^ 31"

text \<open>The address of row \<open>idx\<close>, a product of two \<open>int\<close> values added to the base.\<close>

definition row_address :: "MonoTableInfo \<Rightarrow> int \<Rightarrow> int res" where
  "row_address t idx =
    guardr (in_int (idx * int (row_size t))) Int_overflow
      (case base t of None \<Rightarrow> Inl Null_deref | Some b \<Rightarrow> Inr (b + idx * int (row_size t)))"

text \<open>A column of 1, 2 or 4 bytes; one byte is a \<open>char\<close>, which is sign-extended.\<close>

definition read_column :: "guint8 list \<Rightarrow> int \<Rightarrow> nat \<Rightarrow> guint32 res" where
  "read_column m p n =
    (if n = 1 then bindr (read8 m p) (\<lambda>b. Inr (scast b))
     else if n = 2 then bindr (read16 m p) (\<lambda>w. Inr (ucast w))
     else if n = 4 then read32 m p
     else Inl Assert_failed)"

fun decode_columns :: "guint8 list \<Rightarrow> guint32 \<Rightarrow> nat list \<Rightarrow> int \<Rightarrow> guint32 list res" where
  "decode_columns m bitfield [] p = Inr []"
| "decode_columns m bitfield (i # is) p =
    bindr (read_column m p (mono_metadata_table_size bitfield i)) (\<lambda>c.
    bindr (decode_columns m bitfield is (p + int (mono_metadata_table_size bitfield i))) (\<lambda>cs.
      Inr (c # cs)))"

definition mono_metadata_decode_row :: "guint8 list \<Rightarrow> MonoTableInfo \<Rightarrow> int \<Rightarrow> nat \<Rightarrow> guint32 list res" where
  "mono_metadata_decode_row m t idx res_size =
    (let count = mono_metadata_table_count (size_bitfield t) in
     guardr (idx < int (rows t)) Assert_failed
       (bindr (row_address t idx) (\<lambda>p.
         guardr (res_size = count) Assert_failed (decode_columns m (size_bitfield t) [0..<count] p))))"

text \<open>The loop of \<open>decode_row_col\<close>: \<open>i\<close> counts up to \<open>col\<close>.\<close>

fun column_address :: "guint32 \<Rightarrow> nat list \<Rightarrow> int \<Rightarrow> nat \<Rightarrow> int \<times> nat" where
  "column_address bitfield [] p n = (p, n)"
| "column_address bitfield (i # is) p n =
    column_address bitfield is (p + int n) (mono_metadata_table_size bitfield (i + 1))"

definition mono_metadata_decode_row_col :: "guint8 list \<Rightarrow> MonoTableInfo \<Rightarrow> int \<Rightarrow> nat \<Rightarrow> guint32 res" where
  "mono_metadata_decode_row_col m t idx col =
    guardr (idx < int (rows t)) Assert_failed
      (guardr (col < mono_metadata_table_count (size_bitfield t)) Assert_failed
        (bindr (row_address t idx) (\<lambda>p.
          case column_address (size_bitfield t) [0..<col] p (mono_metadata_table_size (size_bitfield t) 0) of
            (q, n) \<Rightarrow> read_column m q n)))"

definition mono_metadata_token_table :: "guint32 \<Rightarrow> guint32" where
  "mono_metadata_token_table token = drop_bit 24 token"

definition mono_metadata_token_index :: "guint32 \<Rightarrow> guint32" where
  "mono_metadata_token_index token = token AND 0xffffff"

text \<open>\<open>None\<close> is the empty string that the failing checks return.\<close>

definition mono_metadata_locate :: "MonoImage \<Rightarrow> nat \<Rightarrow> int \<Rightarrow> int option res" where
  "mono_metadata_locate meta table idx =
    guardr (table < MONO_TABLE_NUM) Out_of_bounds
      (if 0 < idx \<and> idx \<le> int (table_rows meta table)
       then bindr (row_address (tables meta ! table) (idx - 1)) (\<lambda>p. Inr (Some p))
       else Inr None)"

definition mono_metadata_locate_token :: "MonoImage \<Rightarrow> guint32 \<Rightarrow> int option res" where
  "mono_metadata_locate_token meta token =
    mono_metadata_locate meta (unat (drop_bit 24 token)) (uint (token AND 0xffffff))"

definition heap_ptr :: "MonoStreamHeader \<Rightarrow> guint32 \<Rightarrow> int option res" where
  "heap_ptr heap index =
    (if unat index < heap_size heap
     then (case heap_data heap of None \<Rightarrow> Inl Null_deref | Some p \<Rightarrow> Inr (Some (p + uint index)))
     else Inr None)"

definition mono_metadata_string_heap :: "MonoImage \<Rightarrow> guint32 \<Rightarrow> int option res" where
  "mono_metadata_string_heap meta index = heap_ptr (heap_strings meta) index"

definition mono_metadata_user_string :: "MonoImage \<Rightarrow> guint32 \<Rightarrow> int option res" where
  "mono_metadata_user_string meta index = heap_ptr (heap_us meta) index"

definition mono_metadata_blob_heap :: "MonoImage \<Rightarrow> guint32 \<Rightarrow> int option res" where
  "mono_metadata_blob_heap meta index = heap_ptr (heap_blob meta) index"

definition mono_metadata_guid_heap :: "MonoImage \<Rightarrow> guint32 \<Rightarrow> int option res" where
  "mono_metadata_guid_heap meta index = heap_ptr (heap_guid meta) ((index - 1) * 16)"

definition dword_align :: "int \<Rightarrow> int" where
  "dword_align p = (p + 3) AND (NOT 3)"

section \<open>Compressed integers\<close>

text \<open>Each decoder returns the value and the position behind it.\<close>

definition mono_metadata_decode_blob_size :: "guint8 list \<Rightarrow> int \<Rightarrow> (guint32 \<times> int) res" where
  "mono_metadata_decode_blob_size m p =
    bindr (read8 m p) (\<lambda>b.
    if b AND 0x80 = 0 then Inr (ucast b AND 0x7f, p + 1)
    else if b AND 0x40 = 0 then
      bindr (read8 m (p + 1)) (\<lambda>b1. Inr (push_bit 8 (ucast b AND 0x3f) + ucast b1, p + 2))
    else
      bindr (read8 m (p + 1)) (\<lambda>b1. bindr (read8 m (p + 2)) (\<lambda>b2. bindr (read8 m (p + 3)) (\<lambda>b3.
        Inr (push_bit 24 (ucast b AND 0x1f) + push_bit 16 (ucast b1) + push_bit 8 (ucast b2) + ucast b3, p + 4)))))"

definition mono_metadata_decode_value :: "guint8 list \<Rightarrow> int \<Rightarrow> (guint32 \<times> int) res" where
  "mono_metadata_decode_value m p =
    bindr (read8 m p) (\<lambda>b.
    if b AND 0x80 = 0 then Inr (ucast b, p + 1)
    else if b AND 0x40 = 0 then
      bindr (read8 m (p + 1)) (\<lambda>b1. Inr (push_bit 8 (ucast b AND 0x3f) OR ucast b1, p + 2))
    else
      bindr (read8 m (p + 1)) (\<lambda>b1. bindr (read8 m (p + 2)) (\<lambda>b2. bindr (read8 m (p + 3)) (\<lambda>b3.
        Inr (push_bit 24 (ucast b AND 0x1f) OR push_bit 16 (ucast b1) OR push_bit 8 (ucast b2) OR ucast b3, p + 4)))))"

text \<open>\<open>ival\<close> is the value shifted right, so it is not negative as a \<open>gint32\<close>.\<close>

definition mono_metadata_decode_signed_value :: "guint8 list \<Rightarrow> int \<Rightarrow> (int \<times> int) res" where
  "mono_metadata_decode_signed_value m p =
    bindr (mono_metadata_decode_value m p) (\<lambda>(uval, q).
    let ival = uint (drop_bit 1 uval) in
    if uval AND 1 = 0 then Inr (ival, q)
    else if ival < 0x40 then Inr (ival - 0x40, q)
    else if ival < 0x2000 then Inr (ival - 0x2000, q)
    else if ival < 0x10000000 then Inr (ival - 0x10000000, q)
    else guardr (ival < 0x20000000) Assert_failed (Inr (ival - 0x20000000, q)))"

definition mono_metadata_encode_value :: "guint32 \<Rightarrow> guint8 list" where
  "mono_metadata_encode_value v =
    (if v < 0x80 then [ucast v]
     else if v < 0x4000 then [ucast (0x80 OR drop_bit 8 v), ucast (v AND 0xff)]
     else [ucast (drop_bit 24 v OR 0xc0), ucast (drop_bit 16 v AND 0xff), ucast (drop_bit 8 v AND 0xff),
           ucast (v AND 0xff)])"

section \<open>Uncompressed metadata\<close>

text \<open>The table of pointers that stands between a table and its users, if there is one.\<close>

definition pointer_table :: "nat \<Rightarrow> nat option" where
  "pointer_table table =
    (if table = MONO_TABLE_METHOD then Some MONO_TABLE_METHOD_POINTER
     else if table = MONO_TABLE_FIELD then Some MONO_TABLE_FIELD_POINTER
     else if table = MONO_TABLE_EVENT then Some MONO_TABLE_EVENT_POINTER
     else if table = MONO_TABLE_PROPERTY then Some MONO_TABLE_PROPERTY_POINTER
     else if table = MONO_TABLE_PARAM then Some MONO_TABLE_PARAM_POINTER
     else None)"

definition mono_metadata_translate_token_index :: "MonoImage \<Rightarrow> nat \<Rightarrow> guint32 \<Rightarrow> guint32 res" where
  "mono_metadata_translate_token_index meta table idx =
    (if \<not> uncompressed_metadata meta then Inr idx
     else case pointer_table table of None \<Rightarrow> Inr idx
       | Some pt \<Rightarrow>
           if table_rows meta pt \<noteq> 0
           then mono_metadata_decode_row_col (raw_data meta) (tables meta ! pt) (sint (idx - 1)) 0
           else Inr idx)"

definition translated_row :: "MonoImage \<Rightarrow> nat \<Rightarrow> int \<Rightarrow> int res" where
  "translated_row meta table idx =
    (if uncompressed_metadata meta
     then bindr (mono_metadata_translate_token_index meta table (of_int (idx + 1))) (\<lambda>i. Inr (sint (i - 1)))
     else Inr idx)"

definition mono_metadata_decode_table_row :: "MonoImage \<Rightarrow> nat \<Rightarrow> int \<Rightarrow> nat \<Rightarrow> guint32 list res" where
  "mono_metadata_decode_table_row meta table idx res_size =
    bindr (translated_row meta table idx) (\<lambda>i.
      mono_metadata_decode_row (raw_data meta) (tables meta ! table) i res_size)"

definition mono_metadata_decode_table_row_col :: "MonoImage \<Rightarrow> nat \<Rightarrow> int \<Rightarrow> nat \<Rightarrow> guint32 res" where
  "mono_metadata_decode_table_row_col meta table idx col =
    bindr (translated_row meta table idx) (\<lambda>i.
      mono_metadata_decode_row_col (raw_data meta) (tables meta ! table) i col)"

end
