(* ===== verification/Meta_Lookup.thy ===== *)
theory Meta_Lookup
  imports Meta_Tables
begin

text \<open>
  The lookups of \<open>mono/metadata/metadata.c\<close> in metadata tables: the three locators that are given to
  \<open>bsearch\<close>, the linear search in tables of pointers, and the functions that find the owner of a
  field or method, the rows that belong to a type, event, property or generic parameter, and the
  optional rows of a field, method or constant.  \<open>bsearch\<close> is the one of the C library: it halves the
  interval and returns the first match it meets.  Row numbers in \<open>result\<close>, \<open>start\<close> and \<open>end\<close> are
  natural numbers; they come from a table and so are less than \<open>2^24\<close>.
\<close>

section \<open>Columns and tags\<close>

abbreviation (input) MONO_CLASS_LAYOUT_PACKING_SIZE :: nat where "MONO_CLASS_LAYOUT_PACKING_SIZE \<equiv> 0"
abbreviation (input) MONO_CLASS_LAYOUT_CLASS_SIZE :: nat where "MONO_CLASS_LAYOUT_CLASS_SIZE \<equiv> 1"
abbreviation (input) MONO_CLASS_LAYOUT_PARENT :: nat where "MONO_CLASS_LAYOUT_PARENT \<equiv> 2"
abbreviation (input) MONO_CLASS_LAYOUT_SIZE :: nat where "MONO_CLASS_LAYOUT_SIZE \<equiv> 3"
abbreviation (input) MONO_CONSTANT_PARENT :: nat where "MONO_CONSTANT_PARENT \<equiv> 2"
abbreviation (input) MONO_CUSTOM_ATTR_PARENT :: nat where "MONO_CUSTOM_ATTR_PARENT \<equiv> 0"
abbreviation (input) MONO_DECL_SECURITY_PARENT :: nat where "MONO_DECL_SECURITY_PARENT \<equiv> 1"
abbreviation (input) MONO_EVENT_MAP_PARENT :: nat where "MONO_EVENT_MAP_PARENT \<equiv> 0"
abbreviation (input) MONO_EVENT_MAP_EVENTLIST :: nat where "MONO_EVENT_MAP_EVENTLIST \<equiv> 1"
abbreviation (input) MONO_FIELD_LAYOUT_OFFSET :: nat where "MONO_FIELD_LAYOUT_OFFSET \<equiv> 0"
abbreviation (input) MONO_FIELD_LAYOUT_FIELD :: nat where "MONO_FIELD_LAYOUT_FIELD \<equiv> 1"
abbreviation (input) MONO_FIELD_MARSHAL_PARENT :: nat where "MONO_FIELD_MARSHAL_PARENT \<equiv> 0"
abbreviation (input) MONO_FIELD_MARSHAL_NATIVE_TYPE :: nat where "MONO_FIELD_MARSHAL_NATIVE_TYPE \<equiv> 1"
abbreviation (input) MONO_FIELD_RVA_RVA :: nat where "MONO_FIELD_RVA_RVA \<equiv> 0"
abbreviation (input) MONO_FIELD_RVA_FIELD :: nat where "MONO_FIELD_RVA_FIELD \<equiv> 1"
abbreviation (input) MONO_IMPLMAP_MEMBER :: nat where "MONO_IMPLMAP_MEMBER \<equiv> 1"
abbreviation (input) MONO_INTERFACEIMPL_CLASS :: nat where "MONO_INTERFACEIMPL_CLASS \<equiv> 0"
abbreviation (input) MONO_INTERFACEIMPL_INTERFACE :: nat where "MONO_INTERFACEIMPL_INTERFACE \<equiv> 1"
abbreviation (input) MONO_INTERFACEIMPL_SIZE :: nat where "MONO_INTERFACEIMPL_SIZE \<equiv> 2"
abbreviation (input) MONO_METHOD_PARAMLIST :: nat where "MONO_METHOD_PARAMLIST \<equiv> 5"
abbreviation (input) MONO_METHODIMPL_CLASS :: nat where "MONO_METHODIMPL_CLASS \<equiv> 0"
abbreviation (input) MONO_METHOD_SEMA_ASSOCIATION :: nat where "MONO_METHOD_SEMA_ASSOCIATION \<equiv> 2"
abbreviation (input) MONO_METHOD_SEMA_SIZE :: nat where "MONO_METHOD_SEMA_SIZE \<equiv> 3"
abbreviation (input) MONO_NESTED_CLASS_NESTED :: nat where "MONO_NESTED_CLASS_NESTED \<equiv> 0"
abbreviation (input) MONO_NESTED_CLASS_ENCLOSING :: nat where "MONO_NESTED_CLASS_ENCLOSING \<equiv> 1"
abbreviation (input) MONO_PARAM_FLAGS :: nat where "MONO_PARAM_FLAGS \<equiv> 0"
abbreviation (input) MONO_PARAM_SEQUENCE :: nat where "MONO_PARAM_SEQUENCE \<equiv> 1"
abbreviation (input) MONO_PARAM_SIZE :: nat where "MONO_PARAM_SIZE \<equiv> 3"
abbreviation (input) MONO_PROPERTY_MAP_PARENT :: nat where "MONO_PROPERTY_MAP_PARENT \<equiv> 0"
abbreviation (input) MONO_PROPERTY_MAP_PROPERTY_LIST :: nat where "MONO_PROPERTY_MAP_PROPERTY_LIST \<equiv> 1"
abbreviation (input) MONO_TYPEDEF_FIELD_LIST :: nat where "MONO_TYPEDEF_FIELD_LIST \<equiv> 4"
abbreviation (input) MONO_TYPEDEF_METHOD_LIST :: nat where "MONO_TYPEDEF_METHOD_LIST \<equiv> 5"
abbreviation (input) MONO_GENERICPARAM_OWNER :: nat where "MONO_GENERICPARAM_OWNER \<equiv> 2"
abbreviation (input) MONO_GENPARCONSTRAINT_GENERICPAR :: nat where "MONO_GENPARCONSTRAINT_GENERICPAR \<equiv> 0"
abbreviation (input) MONO_GENPARCONSTRAINT_CONSTRAINT :: nat where "MONO_GENPARCONSTRAINT_CONSTRAINT \<equiv> 1"
abbreviation (input) MONO_GENPARCONSTRAINT_SIZE :: nat where "MONO_GENPARCONSTRAINT_SIZE \<equiv> 2"

abbreviation (input) MONO_TOKEN_TYPE_REF :: guint32 where "MONO_TOKEN_TYPE_REF \<equiv> 0x01000000"
abbreviation (input) MONO_TOKEN_TYPE_DEF :: guint32 where "MONO_TOKEN_TYPE_DEF \<equiv> 0x02000000"
abbreviation (input) MONO_TOKEN_TYPE_SPEC :: guint32 where "MONO_TOKEN_TYPE_SPEC \<equiv> 0x1b000000"

definition mono_metadata_token_from_dor :: "guint32 \<Rightarrow> guint32 res" where
  "mono_metadata_token_from_dor dor_index =
    (let table = dor_index AND 0x03; idx = drop_bit 2 dor_index in
     if table = 0 then Inr (MONO_TOKEN_TYPE_DEF OR idx)
     else if table = 1 then Inr (MONO_TOKEN_TYPE_REF OR idx)
     else if table = 2 then Inr (MONO_TOKEN_TYPE_SPEC OR idx)
     else Inl Assert_failed)"

section \<open>Locators\<close>

record locator_t =
  idx :: guint32
  col_idx :: nat
  loc_t :: MonoTableInfo
  loc_result :: nat

text \<open>The row that an address stands for, and the comparison of an address with the key.\<close>

definition located_row :: "locator_t \<Rightarrow> int \<Rightarrow> int res" where
  "located_row loc bb =
    (case base (loc_t loc) of None \<Rightarrow> Inl Null_deref
     | Some b \<Rightarrow> guardr (row_size (loc_t loc) \<noteq> 0) Division_by_zero (Inr ((bb - b) div int (row_size (loc_t loc)))))"

definition typedef_locator :: "guint8 list \<Rightarrow> locator_t \<Rightarrow> int \<Rightarrow> (int \<times> locator_t) res" where
  "typedef_locator m loc bb =
    bindr (located_row loc bb) (\<lambda>typedef_index.
    bindr (mono_metadata_decode_row_col m (loc_t loc) typedef_index (col_idx loc)) (\<lambda>col.
    if idx loc < col then Inr (-1, loc)
    else
      let found = Inr (0, loc\<lparr>loc_result := nat typedef_index\<rparr>) in
      if typedef_index + 1 < int (rows (loc_t loc)) then
        bindr (mono_metadata_decode_row_col m (loc_t loc) (typedef_index + 1) (col_idx loc)) (\<lambda>col_next.
          if idx loc \<ge> col_next then Inr (1, loc)
          else if col = col_next then Inr (1, loc)
          else found)
      else found))"

definition table_locator :: "guint8 list \<Rightarrow> locator_t \<Rightarrow> int \<Rightarrow> (int \<times> locator_t) res" where
  "table_locator m loc bb =
    bindr (located_row loc bb) (\<lambda>table_index.
    bindr (mono_metadata_decode_row_col m (loc_t loc) table_index (col_idx loc)) (\<lambda>col.
    if idx loc = col then Inr (0, loc\<lparr>loc_result := nat table_index\<rparr>)
    else if idx loc < col then Inr (-1, loc)
    else Inr (1, loc)))"

definition declsec_locator :: "guint8 list \<Rightarrow> locator_t \<Rightarrow> int \<Rightarrow> (int \<times> locator_t) res" where
  "declsec_locator m loc bb =
    bindr (located_row loc bb) (\<lambda>table_index.
    bindr (mono_metadata_decode_row_col m (loc_t loc) table_index (col_idx loc)) (\<lambda>col.
    if idx loc = col then Inr (0, loc\<lparr>loc_result := nat table_index\<rparr>)
    else if idx loc < col then Inr (-1, loc)
    else Inr (1, loc)))"

text \<open>
  The interval from \<open>l\<close> to \<open>u\<close> is left to search.  The result says whether a match was found, with
  the locator as the comparisons have left it.
\<close>

function bsearch_loop ::
  "(locator_t \<Rightarrow> int \<Rightarrow> (int \<times> locator_t) res) \<Rightarrow> locator_t \<Rightarrow> int \<Rightarrow> nat \<Rightarrow> nat \<Rightarrow> nat \<Rightarrow> (bool \<times> locator_t) res" where
  "bsearch_loop compar loc b sz l u =
    (if l < u then
       bindr (compar loc (b + int ((l + u) div 2 * sz))) (\<lambda>(c, loc).
         if c < 0 then bsearch_loop compar loc b sz l ((l + u) div 2)
         else if c > 0 then bsearch_loop compar loc b sz ((l + u) div 2 + 1) u
         else Inr (True, loc))
     else Inr (False, loc))"
  by pat_completeness auto

termination by (relation "measure (\<lambda>(compar, loc, b, sz, l, u). u - l)") auto

declare bsearch_loop.simps [simp del]

text \<open>All searches are in the whole table of the locator.\<close>

definition bsearch :: "(locator_t \<Rightarrow> int \<Rightarrow> (int \<times> locator_t) res) \<Rightarrow> locator_t \<Rightarrow> (bool \<times> locator_t) res" where
  "bsearch compar loc =
    (case base (loc_t loc) of None \<Rightarrow> Inl Null_deref
     | Some b \<Rightarrow> bsearch_loop compar loc b (row_size (loc_t loc)) 0 (rows (loc_t loc)))"

definition locate_in :: "MonoTableInfo \<Rightarrow> nat \<Rightarrow> guint32 \<Rightarrow> locator_t" where
  "locate_in t col i = \<lparr>idx = i, col_idx = col, loc_t = t, loc_result = 0\<rparr>"

text \<open>
  The pattern of all callers: nothing when the table has no rows in the image or no row matches,
  otherwise something made of the matching row.
\<close>

definition searched :: "(locator_t \<Rightarrow> int \<Rightarrow> (int \<times> locator_t) res) \<Rightarrow> MonoTableInfo \<Rightarrow> nat \<Rightarrow> guint32 \<Rightarrow> 'a \<Rightarrow> (nat \<Rightarrow> 'a res) \<Rightarrow> 'a res" where
  "searched compar t col i missing k =
    (if base t = None then Inr missing
     else bindr (bsearch compar (locate_in t col i)) (\<lambda>(found, loc).
       if found then k (loc_result loc) else Inr missing))"

section \<open>Walking along rows\<close>

text \<open>
  Back to the first row with the same value in a column, and on to the row behind the last one.
\<close>

fun rows_back :: "guint8 list \<Rightarrow> MonoTableInfo \<Rightarrow> nat \<Rightarrow> guint32 \<Rightarrow> nat \<Rightarrow> nat res" where
  "rows_back m t col v 0 = Inr 0"
| "rows_back m t col v (Suc k) =
    bindr (mono_metadata_decode_row_col m t (int k) col) (\<lambda>c. if v = c then rows_back m t col v k else Inr (Suc k))"

function rows_on :: "guint8 list \<Rightarrow> MonoTableInfo \<Rightarrow> nat \<Rightarrow> nat \<Rightarrow> guint32 \<Rightarrow> nat \<Rightarrow> nat res" where
  "rows_on m t n col v e =
    (if e < rows t then
       bindr (mono_metadata_decode_row m t (int e) n) (\<lambda>cols.
         if cols ! col \<noteq> v then Inr e else rows_on m t n col v (Suc e))
     else Inr e)"
  by pat_completeness auto

termination by (relation "measure (\<lambda>(m, t, n, col, v, e). rows t - e)") auto

declare rows_on.simps [simp del]

text \<open>The linear search in a table of pointers, from row \<open>i\<close> on.\<close>

function ptr_table_loop :: "guint8 list \<Rightarrow> MonoTableInfo \<Rightarrow> guint32 \<Rightarrow> nat \<Rightarrow> nat res" where
  "ptr_table_loop m t i k =
    (if k < rows t then
       bindr (mono_metadata_decode_row_col m t (int k) 0) (\<lambda>c. if c = i then Inr k else ptr_table_loop m t i (Suc k))
     else Inr k)"
  by pat_completeness auto

termination by (relation "measure (\<lambda>(m, t, i, k). rows t - k)") auto

declare ptr_table_loop.simps [simp del]

definition search_ptr_table :: "MonoImage \<Rightarrow> nat \<Rightarrow> guint32 \<Rightarrow> guint32 res" where
  "search_ptr_table meta table i =
    bindr (ptr_table_loop (raw_data meta) (tables meta ! table) i 0) (\<lambda>k.
      Inr (if k < table_rows meta table then of_nat (k + 1) else i))"

definition through_ptr_table :: "MonoImage \<Rightarrow> nat \<Rightarrow> guint32 \<Rightarrow> guint32 res" where
  "through_ptr_table meta table i = (if uncompressed_metadata meta then search_ptr_table meta table i else Inr i)"

section \<open>Owners\<close>

definition mono_metadata_typedef_from_field :: "MonoImage \<Rightarrow> guint32 \<Rightarrow> guint32 res" where
  "mono_metadata_typedef_from_field meta index =
    (let tdef = tables meta ! MONO_TABLE_TYPEDEF in
     if base tdef = None then Inr 0
     else bindr (through_ptr_table meta MONO_TABLE_FIELD_POINTER (mono_metadata_token_index index)) (\<lambda>i.
       searched (typedef_locator (raw_data meta)) tdef MONO_TYPEDEF_FIELD_LIST i 0 (\<lambda>r. Inr (of_nat (r + 1)))))"

definition mono_metadata_typedef_from_method :: "MonoImage \<Rightarrow> guint32 \<Rightarrow> guint32 res" where
  "mono_metadata_typedef_from_method meta index =
    (let tdef = tables meta ! MONO_TABLE_TYPEDEF in
     if base tdef = None then Inr 0
     else bindr (through_ptr_table meta MONO_TABLE_METHOD_POINTER (mono_metadata_token_index index)) (\<lambda>i.
       searched (typedef_locator (raw_data meta)) tdef MONO_TYPEDEF_METHOD_LIST i 0 (\<lambda>r. Inr (of_nat (r + 1)))))"

definition mono_metadata_nested_in_typedef :: "MonoImage \<Rightarrow> guint32 \<Rightarrow> guint32 res" where
  "mono_metadata_nested_in_typedef meta index =
    (let tdef = tables meta ! MONO_TABLE_NESTEDCLASS in
     searched (table_locator (raw_data meta)) tdef MONO_NESTED_CLASS_NESTED (mono_metadata_token_index index) 0 (\<lambda>r.
       bindr (mono_metadata_decode_row_col (raw_data meta) tdef (int r) MONO_NESTED_CLASS_ENCLOSING) (\<lambda>c.
         Inr (c OR MONO_TOKEN_TYPE_DEF))))"

text \<open>The search for a nested type goes through the rows from \<open>start\<close>, which counts from 1.\<close>

function nesting_loop :: "guint8 list \<Rightarrow> MonoTableInfo \<Rightarrow> guint32 \<Rightarrow> nat \<Rightarrow> nat res" where
  "nesting_loop m t class_index start =
    (if start \<le> rows t then
       bindr (mono_metadata_decode_row_col m t (int start - 1) MONO_NESTED_CLASS_ENCLOSING) (\<lambda>c.
         if class_index = c then Inr start else nesting_loop m t class_index (start + 1))
     else Inr start)"
  by pat_completeness auto

termination by (relation "measure (\<lambda>(m, t, c, start). Suc (rows t) - start)") auto

declare nesting_loop.simps [simp del]

definition mono_metadata_nesting_typedef :: "MonoImage \<Rightarrow> guint32 \<Rightarrow> guint32 \<Rightarrow> guint32 res" where
  "mono_metadata_nesting_typedef meta index start_index =
    (let tdef = tables meta ! MONO_TABLE_NESTEDCLASS in
     if base tdef = None then Inr 0
     else bindr (nesting_loop (raw_data meta) tdef (mono_metadata_token_index index) (unat start_index)) (\<lambda>start.
       Inr (if start > rows tdef then 0 else of_nat start)))"

section \<open>Optional rows\<close>

text \<open>The row number from 1 (0 if there is none), the packing and the size.\<close>

definition mono_metadata_packing_from_typedef :: "MonoImage \<Rightarrow> guint32 \<Rightarrow> (guint32 \<times> (guint32 \<times> guint32) option) res" where
  "mono_metadata_packing_from_typedef meta index =
    (let tdef = tables meta ! MONO_TABLE_CLASSLAYOUT in
     searched (table_locator (raw_data meta)) tdef MONO_CLASS_LAYOUT_PARENT (mono_metadata_token_index index) (0, None) (\<lambda>r.
       bindr (mono_metadata_decode_row (raw_data meta) tdef (int r) MONO_CLASS_LAYOUT_SIZE) (\<lambda>cols.
         Inr (of_nat (r + 1), Some (cols ! MONO_CLASS_LAYOUT_PACKING_SIZE, cols ! MONO_CLASS_LAYOUT_CLASS_SIZE)))))"

text \<open>Offset and address of the data of a field; the marshalling description is not included.\<close>

definition mono_metadata_field_info_full :: "MonoImage \<Rightarrow> guint32 \<Rightarrow> (guint32 \<times> guint32) res" where
  "mono_metadata_field_info_full meta index =
    bindr (through_ptr_table meta MONO_TABLE_FIELD_POINTER (index + 1)) (\<lambda>i.
    let m = raw_data meta; layout = tables meta ! MONO_TABLE_FIELDLAYOUT; frva = tables meta ! MONO_TABLE_FIELDRVA in
    bindr (searched (table_locator m) layout MONO_FIELD_LAYOUT_FIELD i (-1) (\<lambda>r.
      mono_metadata_decode_row_col m layout (int r) MONO_FIELD_LAYOUT_OFFSET)) (\<lambda>offset.
    bindr (searched (table_locator m) frva MONO_FIELD_RVA_FIELD i 0 (\<lambda>r.
      mono_metadata_decode_row_col m frva (int r) MONO_FIELD_RVA_RVA)) (\<lambda>rva.
    Inr (offset, rva))))"

definition mono_metadata_get_constant_index :: "MonoImage \<Rightarrow> guint32 \<Rightarrow> guint32 \<Rightarrow> guint32 res" where
  "mono_metadata_get_constant_index meta token hint =
    (let m = raw_data meta; tdef = tables meta ! MONO_TABLE_CONSTANT;
         shifted = push_bit 2 (mono_metadata_token_index token); table = unat (mono_metadata_token_table token) in
     if table \<noteq> MONO_TABLE_FIELD \<and> table \<noteq> MONO_TABLE_PARAM \<and> table \<noteq> MONO_TABLE_PROPERTY then Inr 0
     else
       let index = shifted OR (if table = MONO_TABLE_FIELD then 0 else if table = MONO_TABLE_PARAM then 1 else 2);
           search = searched (table_locator m) tdef MONO_CONSTANT_PARENT index 0 (\<lambda>r. Inr (of_nat (r + 1)))
       in if hint > 0 \<and> unat hint < rows tdef then
            bindr (mono_metadata_decode_row_col m tdef (int (unat hint) - 1) MONO_CONSTANT_PARENT) (\<lambda>c.
              if c = index then Inr hint else search)
          else search)"

definition mono_metadata_implmap_from_method :: "MonoImage \<Rightarrow> guint32 \<Rightarrow> guint32 res" where
  "mono_metadata_implmap_from_method meta method_idx =
    searched (table_locator (raw_data meta)) (tables meta ! MONO_TABLE_IMPLMAP) MONO_IMPLMAP_MEMBER
      (push_bit 1 (method_idx + 1) OR 1) 0 (\<lambda>r. Inr (of_nat (r + 1)))"

text \<open>The address of the marshalling description, \<open>None\<close> for the null pointer and \<open>Some None\<close> for an empty string.\<close>

definition mono_metadata_get_marshal_info :: "MonoImage \<Rightarrow> guint32 \<Rightarrow> bool \<Rightarrow> int option option res" where
  "mono_metadata_get_marshal_info meta i is_field =
    (let tdef = tables meta ! MONO_TABLE_FIELDMARSHAL in
     searched (table_locator (raw_data meta)) tdef MONO_FIELD_MARSHAL_PARENT
       (push_bit 1 (i + 1) OR (if is_field then 0 else 1)) None (\<lambda>r.
         bindr (mono_metadata_decode_row_col (raw_data meta) tdef (int r) MONO_FIELD_MARSHAL_NATIVE_TYPE) (\<lambda>c.
         bindr (mono_metadata_blob_heap meta c) (\<lambda>p. Inr (Some p)))))"

section \<open>First rows\<close>

definition mono_metadata_custom_attrs_from_index :: "MonoImage \<Rightarrow> guint32 \<Rightarrow> guint32 res" where
  "mono_metadata_custom_attrs_from_index meta index =
    (let tdef = tables meta ! MONO_TABLE_CUSTOMATTRIBUTE in
     searched (table_locator (raw_data meta)) tdef MONO_CUSTOM_ATTR_PARENT index 0 (\<lambda>r.
       bindr (rows_back (raw_data meta) tdef MONO_CUSTOM_ATTR_PARENT index r) (\<lambda>k. Inr (of_nat (k + 1)))))"

definition mono_metadata_declsec_from_index :: "MonoImage \<Rightarrow> guint32 \<Rightarrow> guint32 res" where
  "mono_metadata_declsec_from_index meta index =
    (let tdef = tables meta ! MONO_TABLE_DECLSECURITY in
     searched (declsec_locator (raw_data meta)) tdef MONO_DECL_SECURITY_PARENT index (-1) (\<lambda>r.
       bindr (rows_back (raw_data meta) tdef MONO_DECL_SECURITY_PARENT index r) (\<lambda>k. Inr (of_nat k))))"

text \<open>The row number and the coded owner; a token of another table aborts.\<close>

definition mono_metadata_get_generic_param_row :: "MonoImage \<Rightarrow> guint32 \<Rightarrow> (guint32 \<times> guint32 option) res" where
  "mono_metadata_get_generic_param_row meta token =
    (let tdef = tables meta ! MONO_TABLE_GENERICPARAM; table = unat (mono_metadata_token_table token) in
     if base tdef = None then Inr (0, None)
     else guardr (table = MONO_TABLE_TYPEDEF \<or> table = MONO_TABLE_METHOD) Assert_failed
       (let owner = (if table = MONO_TABLE_TYPEDEF then 0 else 1) OR push_bit 1 (mono_metadata_token_index token) in
        searched (table_locator (raw_data meta)) tdef MONO_GENERICPARAM_OWNER owner (0, Some owner) (\<lambda>r.
          bindr (rows_back (raw_data meta) tdef MONO_GENERICPARAM_OWNER owner r) (\<lambda>k.
            Inr (of_nat (k + 1), Some owner)))))"

definition mono_metadata_has_generic_params :: "MonoImage \<Rightarrow> guint32 \<Rightarrow> bool res" where
  "mono_metadata_has_generic_params meta token =
    bindr (mono_metadata_get_generic_param_row meta token) (\<lambda>(row, owner). Inr (row \<noteq> 0))"

section \<open>Ranges of rows\<close>

text \<open>Each range is a first row and the row behind the last one, counted from 0.\<close>

definition list_range :: "MonoImage \<Rightarrow> nat \<Rightarrow> nat \<Rightarrow> guint32 \<Rightarrow> (guint32 \<times> guint32) res" where
  "list_range meta table listed index =
    (let m = raw_data meta; tdef = tables meta ! table in
     searched (table_locator m) tdef 0 (index + 1) (0, 0) (\<lambda>r.
       bindr (mono_metadata_decode_row_col m tdef (int r) 1) (\<lambda>start.
       bindr (if r + 1 < rows tdef
              then bindr (mono_metadata_decode_row_col m tdef (int (r + 1)) 1) (\<lambda>e. Inr (e - 1))
              else Inr (of_nat (table_rows meta listed))) (\<lambda>end_idx.
       Inr (start - 1, end_idx)))))"

definition mono_metadata_events_from_typedef :: "MonoImage \<Rightarrow> guint32 \<Rightarrow> (guint32 \<times> guint32) res" where
  "mono_metadata_events_from_typedef meta index = list_range meta MONO_TABLE_EVENTMAP MONO_TABLE_EVENT index"

definition mono_metadata_properties_from_typedef :: "MonoImage \<Rightarrow> guint32 \<Rightarrow> (guint32 \<times> guint32) res" where
  "mono_metadata_properties_from_typedef meta index = list_range meta MONO_TABLE_PROPERTYMAP MONO_TABLE_PROPERTY index"

definition semantics_range :: "MonoImage \<Rightarrow> nat \<Rightarrow> guint32 \<Rightarrow> guint32 \<Rightarrow> (guint32 \<times> guint32) res" where
  "semantics_range meta ptr_table tag index =
    (let m = raw_data meta; msemt = tables meta ! MONO_TABLE_METHODSEMANTICS in
     if base msemt = None then Inr (0, 0)
     else bindr (through_ptr_table meta ptr_table (index + 1)) (\<lambda>i.
       let key = push_bit 1 i OR tag in
       searched (table_locator m) msemt MONO_METHOD_SEMA_ASSOCIATION key (0, 0) (\<lambda>r.
         bindr (rows_back m msemt MONO_METHOD_SEMA_ASSOCIATION key r) (\<lambda>start.
         bindr (rows_on m msemt MONO_METHOD_SEMA_SIZE MONO_METHOD_SEMA_ASSOCIATION key (start + 1)) (\<lambda>e.
         Inr (of_nat start, of_nat e))))))"

definition mono_metadata_methods_from_event :: "MonoImage \<Rightarrow> guint32 \<Rightarrow> (guint32 \<times> guint32) res" where
  "mono_metadata_methods_from_event meta index = semantics_range meta MONO_TABLE_EVENT_POINTER 0 index"

definition mono_metadata_methods_from_property :: "MonoImage \<Rightarrow> guint32 \<Rightarrow> (guint32 \<times> guint32) res" where
  "mono_metadata_methods_from_property meta index = semantics_range meta MONO_TABLE_PROPERTY_POINTER 1 index"

text \<open>
  The interfaces of a type: the tokens from the row \<open>pos\<close> on that the class loader \<open>class_get\<close> turns into
  classes, \<open>None\<close> when it fails for one of them.
\<close>

function interface_loop :: "guint8 list \<Rightarrow> MonoTableInfo \<Rightarrow> (guint32 \<Rightarrow> 'c option) \<Rightarrow> guint32 \<Rightarrow> nat \<Rightarrow> 'c list option res" where
  "interface_loop m t class_get v pos =
    (if pos < rows t then
       bindr (mono_metadata_decode_row m t (int pos) MONO_INTERFACEIMPL_SIZE) (\<lambda>cols.
         if cols ! MONO_INTERFACEIMPL_CLASS \<noteq> v then Inr (Some [])
         else bindr (mono_metadata_token_from_dor (cols ! MONO_INTERFACEIMPL_INTERFACE)) (\<lambda>token.
           case class_get token of None \<Rightarrow> Inr None
           | Some iface \<Rightarrow> bindr (interface_loop m t class_get v (Suc pos)) (\<lambda>r. Inr (map_option ((#) iface) r))))
     else Inr (Some []))"
  by pat_completeness auto

termination by (relation "measure (\<lambda>(m, t, g, v, pos). rows t - pos)") auto

declare interface_loop.simps [simp del]

definition mono_metadata_interfaces_from_typedef_full :: "MonoImage \<Rightarrow> (guint32 \<Rightarrow> 'c option) \<Rightarrow> guint32 \<Rightarrow> 'c list option res" where
  "mono_metadata_interfaces_from_typedef_full meta class_get index =
    (let m = raw_data meta; tdef = tables meta ! MONO_TABLE_INTERFACEIMPL; v = mono_metadata_token_index index in
     searched (table_locator m) tdef MONO_INTERFACEIMPL_CLASS v (Some []) (\<lambda>r.
       bindr (rows_back m tdef MONO_INTERFACEIMPL_CLASS v r) (\<lambda>start.
       bindr (rows_on m tdef MONO_INTERFACEIMPL_SIZE MONO_INTERFACEIMPL_CLASS v start) (\<lambda>pos.
         interface_loop m tdef class_get v start))))"

section \<open>Parameters of a method\<close>

text \<open>One row: the flags are stored at the position that the row gives, if there is one.\<close>

definition store_param :: "nat \<Rightarrow> guint32 list \<Rightarrow> guint32 list option \<Rightarrow> guint32 list option" where
  "store_param param_count cols pattrs =
    (if cols ! MONO_PARAM_FLAGS = 0 then pattrs
     else
       let a = (case pattrs of None \<Rightarrow> replicate param_count 0 | Some a \<Rightarrow> a) in
       if unat (cols ! MONO_PARAM_SEQUENCE) \<ge> param_count then Some a
       else Some (a[unat (cols ! MONO_PARAM_SEQUENCE) := cols ! MONO_PARAM_FLAGS]))"

function param_attrs_loop :: "guint8 list \<Rightarrow> MonoTableInfo \<Rightarrow> nat \<Rightarrow> nat \<Rightarrow> nat \<Rightarrow> guint32 list option \<Rightarrow> guint32 list option res" where
  "param_attrs_loop m paramt param_count i lastp pattrs =
    (if i < lastp then
       bindr (mono_metadata_decode_row m paramt (int i - 1) MONO_PARAM_SIZE) (\<lambda>cols.
         param_attrs_loop m paramt param_count (Suc i) lastp (store_param param_count cols pattrs))
     else Inr pattrs)"
  by pat_completeness auto

termination by (relation "measure (\<lambda>(m, t, c, i, lastp, a). lastp - i)") auto

declare param_attrs_loop.simps [simp del]

definition mono_metadata_get_param_attrs :: "MonoImage \<Rightarrow> int \<Rightarrow> nat \<Rightarrow> guint32 list option res" where
  "mono_metadata_get_param_attrs meta def_index param_count =
    (let m = raw_data meta; paramt = tables meta ! MONO_TABLE_PARAM; methodt = tables meta ! MONO_TABLE_METHOD in
     bindr (mono_metadata_decode_row_col m methodt (def_index - 1) MONO_METHOD_PARAMLIST) (\<lambda>param_index.
     bindr (if def_index < int (rows methodt) then mono_metadata_decode_row_col m methodt def_index MONO_METHOD_PARAMLIST
            else Inr (of_nat (rows paramt + 1))) (\<lambda>lastp.
     param_attrs_loop m paramt param_count (unat param_index) (unat lastp) None)))"

section \<open>Constraints of a generic parameter\<close>

text \<open>
  The tokens of the constraints of \<open>owner\<close>, from row \<open>i\<close> on, with those \<open>found\<close> so far; the classes they
  name are left to the class loader.
\<close>

function constraints_loop :: "guint8 list \<Rightarrow> MonoTableInfo \<Rightarrow> (guint32 \<Rightarrow> 'c option) \<Rightarrow> guint32 \<Rightarrow> nat \<Rightarrow> 'c list \<Rightarrow> 'c list option res" where
  "constraints_loop m t class_get owner i cons =
    (if i < rows t then
       bindr (mono_metadata_decode_row m t (int i) MONO_GENPARCONSTRAINT_SIZE) (\<lambda>cols.
         if cols ! MONO_GENPARCONSTRAINT_GENERICPAR = owner then
           bindr (mono_metadata_token_from_dor (cols ! MONO_GENPARCONSTRAINT_CONSTRAINT)) (\<lambda>token.
             case class_get token of None \<Rightarrow> Inr None
             | Some klass \<Rightarrow> constraints_loop m t class_get owner (Suc i) (cons @ [klass]))
         else if cons \<noteq> [] then Inr (Some cons)
         else constraints_loop m t class_get owner (Suc i) cons)
     else Inr (Some cons))"
  by pat_completeness auto

termination by (relation "measure (\<lambda>(m, t, g, v, i, cs). rows t - i)") auto

declare constraints_loop.simps [simp del]

definition get_constraints :: "MonoImage \<Rightarrow> (guint32 \<Rightarrow> 'c option) \<Rightarrow> guint32 \<Rightarrow> 'c list option res" where
  "get_constraints meta class_get owner =
    constraints_loop (raw_data meta) (tables meta ! MONO_TABLE_GENERICPARAMCONSTRAINT) class_get owner 0 []"

end
