(* ===== verification/Meta_Tables_Proofs.thy ===== *)
theory Meta_Tables_Proofs
  imports Meta_Tables
begin

text \<open>
  Lemmas on the physical layout: reads inside the image, the bit-field of column sizes, the
  schemas, and the addresses of columns.
\<close>

section \<open>Reads\<close>

definition bytes_at :: "guint8 list \<Rightarrow> int \<Rightarrow> nat \<Rightarrow> guint8 list" where
  "bytes_at m p n = take n (drop (nat p) m)"

definition inside :: "guint8 list \<Rightarrow> int \<Rightarrow> nat \<Rightarrow> bool" where
  "inside m p n \<longleftrightarrow> 0 \<le> p \<and> p + int n \<le> int (length m)"

lemma bytes_at_0 [simp]: "bytes_at m p 0 = []"
  by (simp add: bytes_at_def)

lemma bytes_at_Suc:
  assumes "inside m p (Suc n)"
  shows "bytes_at m p (Suc n) = m ! nat p # bytes_at m (p + 1) n"
proof -
  have n: "nat p < length m" and s: "nat (p + 1) = Suc (nat p)" using assms by (auto simp: inside_def)
  show ?thesis unfolding bytes_at_def s Cons_nth_drop_Suc [OF n, symmetric] by simp
qed

lemma length_bytes_at [simp]: "inside m p n \<Longrightarrow> length (bytes_at m p n) = n"
  by (auto simp: bytes_at_def inside_def min_def)

lemma inside_Suc: "inside m p (Suc n) \<Longrightarrow> inside m (p + 1) n"
  by (auto simp: inside_def)

lemma read8_inside: "inside m p (Suc n) \<Longrightarrow> read8 m p = Inr (m ! nat p)"
  by (simp add: read8_def inside_def)

lemma bytes_at_add: "inside m p (a + b) \<Longrightarrow> bytes_at m p (a + b) = bytes_at m p a @ bytes_at m (p + int a) b"
  by (simp add: bytes_at_def inside_def take_add nat_add_distrib add.commute)

lemma inside_add: "inside m p (a + b) \<Longrightarrow> inside m p a \<and> inside m (p + int a) b"
  by (auto simp: inside_def)

lemma word_of_uint: "uint w = v \<Longrightarrow> w = word_of_int v"
  by auto

lemma le_pair: "(ucast (a :: guint8) :: guint16) + push_bit 8 (ucast (b :: guint8)) = word_of_int (uint a + 256 * uint b)"
  by (simp add: push_bit_eq_mult mult.commute)

lemma read16_inside: "inside m p 2 \<Longrightarrow> read16 m p = Inr (word_of_int (le_value (bytes_at m p 2)))"
  unfolding numeral_2_eq_2 read16_def
  by (simp only: read8_inside [OF inside_Suc] read8_inside bytes_at_Suc [of m p] bytes_at_Suc [of m "p + 1"] inside_Suc bindr.simps le_pair)
    simp

lemma ucast_small: "0 \<le> v \<Longrightarrow> v < 2 ^ LENGTH('b) \<Longrightarrow> (ucast (word_of_int v :: 'b::len word) :: 'a::len word) = word_of_int v"
  by (simp add: unsigned_of_int take_bit_int_eq_self)

lemma le_value_bound: "inside m p n \<Longrightarrow> 0 \<le> le_value (bytes_at m p n) \<and> le_value (bytes_at m p n) < 256 ^ n"
  using le_value_range [of "bytes_at m p n"] by simp

lemma le_value_bytes_add: "inside m p (a + b) \<Longrightarrow>
    le_value (bytes_at m p (a + b)) = le_value (bytes_at m p a) + 256 ^ a * le_value (bytes_at m (p + int a) b)"
  using inside_add [of m p a b] by (simp add: bytes_at_add le_value_append)

lemma read32_inside:
  assumes "inside m p 4"
  shows "read32 m p = Inr (word_of_int (le_value (bytes_at m p 4)))"
proof -
  have i: "inside m p 2" "inside m (p + 2) 2" using assms by (auto simp: inside_def)
  have "le_value (bytes_at m p 4) = le_value (bytes_at m p 2) + 65536 * le_value (bytes_at m (p + 2) 2)"
    using le_value_bytes_add [of m p 2 2] assms by simp
  then show ?thesis
    using le_value_bound [OF i(1)] le_value_bound [OF i(2)]
    by (simp add: read32_def read16_inside [OF i(1)] read16_inside [OF i(2)] ucast_small push_bit_eq_mult mult.commute)
qed

lemma read64_inside:
  assumes "inside m p 8"
  shows "read64 m p = Inr (word_of_int (le_value (bytes_at m p 8)))"
proof -
  have i: "inside m p 4" "inside m (p + 4) 4" using assms by (auto simp: inside_def)
  have "le_value (bytes_at m p 8) = le_value (bytes_at m p 4) + 4294967296 * le_value (bytes_at m (p + 4) 4)"
    using le_value_bytes_add [of m p 4 4] assms by simp
  then show ?thesis
    using le_value_bound [OF i(1)] le_value_bound [OF i(2)]
    by (simp add: read64_def read32_inside [OF i(1)] read32_inside [OF i(2)] ucast_small push_bit_eq_mult mult.commute)
qed

text \<open>The value of a column, for sizes 1, 2 and 4.\<close>

definition column_value :: "guint8 list \<Rightarrow> int \<Rightarrow> nat \<Rightarrow> guint32" where
  "column_value m p n = (if n = 1 then scast (m ! nat p) else word_of_int (le_value (bytes_at m p n)))"

definition good_size :: "nat \<Rightarrow> bool" where
  "good_size n \<longleftrightarrow> n = 1 \<or> n = 2 \<or> n = 4"

lemma read_column_inside: "inside m p n \<Longrightarrow> good_size n \<Longrightarrow> read_column m p n = Inr (column_value m p n)"
  using le_value_bound [of m p n]
  by (auto simp: read_column_def column_value_def good_size_def read8_inside read16_inside read32_inside ucast_small)

section \<open>The bit-field of column sizes\<close>

fun packed :: "nat \<Rightarrow> guint32 \<Rightarrow> nat list \<Rightarrow> guint32" where
  "packed shift bf [] = bf"
| "packed shift bf (f # fs) = packed (shift + 2) (bf OR push_bit shift (of_nat (f - 1))) fs"

lemma bit_of_nat_small: "n < 4 \<Longrightarrow> bit (word_of_nat n :: guint32) j \<Longrightarrow> j < 2"
proof (rule ccontr)
  assume n: "n < 4" "bit (word_of_nat n :: guint32) j" "\<not> j < 2"
  then have "take_bit 2 (word_of_nat n :: guint32) = word_of_nat n" by (intro take_bit_of_nat_less) simp
  then show False using n by (metis bit_take_bit_iff)
qed

definition size_bit :: "nat \<Rightarrow> nat \<Rightarrow> bool" where
  "size_bit f j = bit (word_of_nat (f - 1) :: guint32) j"

lemma size_bit_less: "f \<le> 4 \<Longrightarrow> size_bit f j \<Longrightarrow> j < 2"
  using bit_of_nat_small [of "f - 1" j] by (simp add: size_bit_def)

lemma bit_packed:
  assumes "\<forall>f \<in> set fs. f \<le> 4" "j < 32"
  shows "bit (packed shift bf fs) j \<longleftrightarrow> bit bf j \<or>
    shift \<le> j \<and> j < shift + 2 * length fs \<and> size_bit (fs ! ((j - shift) div 2)) ((j - shift) mod 2)"
  using assms(1)
proof (induction fs arbitrary: shift bf)
  case (Cons f fs)
  have step: "bit (bf OR push_bit shift (word_of_nat (f - 1))) j \<longleftrightarrow> bit bf j \<or> shift \<le> j \<and> size_bit f (j - shift)"
    using assms(2) by (simp only: bit_or_iff bit_push_bit_iff size_bit_def) auto
  have ih: "bit (packed shift bf (f # fs)) j \<longleftrightarrow> (bit bf j \<or> shift \<le> j \<and> size_bit f (j - shift)) \<or>
      shift + 2 \<le> j \<and> j < shift + 2 + 2 * length fs \<and>
      size_bit (fs ! ((j - (shift + 2)) div 2)) ((j - (shift + 2)) mod 2)"
    using Cons.IH [of "shift + 2" "bf OR push_bit shift (word_of_nat (f - 1))"] Cons.prems by (simp only: packed.simps step) simp
  show ?case
  proof (cases "shift + 2 \<le> j")
    case True
    then obtain d where d: "j = shift + 2 + d" using le_Suc_ex by blast
    have j: "(j - shift) div 2 = Suc ((j - (shift + 2)) div 2)" "(j - shift) mod 2 = (j - (shift + 2)) mod 2"
      by (simp_all add: d)
    have "\<not> size_bit f (j - shift)" using size_bit_less [of f "j - shift"] Cons.prems True by auto
    then show ?thesis unfolding ih j nth_Cons_Suc using True by auto
  next
    case False
    show ?thesis
    proof (cases "shift \<le> j")
      case True
      then have "(j - shift) div 2 = 0" "(j - shift) mod 2 = j - shift" using False by auto
      then show ?thesis unfolding ih using False True by auto
    next
      case False
      then show ?thesis unfolding ih by auto
    qed
  qed
qed auto

lemma size_of_packed:
  assumes fs: "\<forall>f \<in> set fs. 1 \<le> f \<and> f \<le> 4" and k: "k < length fs" "length fs \<le> 12"
  shows "mono_metadata_table_size (push_bit 24 (word_of_nat n) OR packed 0 0 fs) k = fs ! k"
proof -
  have f: "1 \<le> fs ! k" "fs ! k - 1 < 4" using fs k nth_mem [of k fs] by fastforce+
  have "drop_bit (k * 2) (push_bit 24 (word_of_nat n) OR packed 0 0 fs) AND 0x3 = (word_of_nat (fs ! k - 1) :: guint32)"
  proof (rule bit_word_eqI)
    fix i assume i: "i < LENGTH(32)"
    have three: "(0x3 :: guint32) = mask 2" by (simp add: mask_eq_exp_minus_1)
    show "bit (drop_bit (k * 2) (push_bit 24 (word_of_nat n) OR packed 0 0 fs) AND 0x3) i =
        bit (word_of_nat (fs ! k - 1) :: guint32) i"
    proof (cases "i < 2")
      case True
      have b: "bit (packed 0 0 fs) (k * 2 + i) \<longleftrightarrow> bit (word_of_nat (fs ! k - 1) :: guint32) i"
        using bit_packed [of fs "k * 2 + i" 0 0] fs k True by (auto simp: size_bit_def)
      show ?thesis
        using True k b
        by (simp add: three bit_and_iff bit_or_iff bit_drop_bit_eq bit_push_bit_iff bit_mask_iff add.commute mult.commute)
    next
      case False
      then show ?thesis using bit_of_nat_small [OF f(2)] by (auto simp: three bit_and_iff bit_mask_iff)
    qed
  qed
  moreover have "unat (word_of_nat (fs ! k - 1) :: guint32) = fs ! k - 1"
    using f(2) by (subst unat_of_nat) simp
  ultimately show ?thesis using f unfolding mono_metadata_table_size_def by presburger
qed

lemma count_of_packed:
  assumes fs: "\<forall>f \<in> set fs. f \<le> 4" "length fs \<le> 12" and n: "n < 256"
  shows "mono_metadata_table_count (push_bit 24 (word_of_nat n) OR packed 0 0 fs) = n"
proof -
  have "drop_bit 24 (push_bit 24 (word_of_nat n) OR packed 0 0 fs) = (word_of_nat n :: guint32)"
  proof (rule bit_word_eqI)
    fix i assume i: "i < LENGTH(32)"
    have t: "take_bit 8 (word_of_nat n :: guint32) = word_of_nat n" using n by (intro take_bit_of_nat_less) simp
    have "\<not> bit (packed 0 0 fs) (24 + i)"
    proof (cases "24 + i < 32")
      case True
      then show ?thesis using bit_packed [of fs "24 + i" 0 0] fs by auto
    next
      case False
      then show ?thesis using bit_imp_le_length [of "packed 0 0 fs" "24 + i"] by auto
    qed
    moreover have "bit (word_of_nat n :: guint32) i \<Longrightarrow> i < 8" using t by (metis bit_take_bit_iff)
    ultimately show "bit (drop_bit 24 (push_bit 24 (word_of_nat n) OR packed 0 0 fs)) i = bit (word_of_nat n :: guint32) i"
      by (auto simp: bit_drop_bit_eq bit_or_iff bit_push_bit_iff)
  qed
  then show ?thesis using n by (simp add: mono_metadata_table_count_def unat_of_nat)
qed

lemma compute_size_loop_packed:
  assumes "list_all2 (\<lambda>(k, c) f. c \<noteq> MONO_MT_END \<and> field_size meta t k c = Inr f) (enumerate i codes) fs"
  shows "compute_size_loop meta t i shift (codes @ MONO_MT_END # todo) bf sz =
    Inr (sz + sum_list fs, push_bit 24 (word_of_nat (i + length codes)) OR packed shift bf fs)"
  using assms
proof (induction codes arbitrary: i shift bf sz fs)
  case (Cons c codes)
  then obtain f fs' where "fs = f # fs'" "c \<noteq> MONO_MT_END" "field_size meta t i c = Inr f"
    "list_all2 (\<lambda>(k, c) f. c \<noteq> MONO_MT_END \<and> field_size meta t k c = Inr f) (enumerate (Suc i) codes) fs'"
    by (auto simp: list_all2_Cons1)
  then show ?case using Cons.IH [of "Suc i" fs'] by simp
qed simp

section \<open>The schemas\<close>

definition codes :: "nat \<Rightarrow> MONO_MT list" where
  "codes t = takeWhile (\<lambda>c. c \<noteq> MONO_MT_END) (drop (table_description ! t) TableSchemas)"

lemma description_ends: "\<forall>t \<in> set [0..<45]. MONO_MT_END \<in> set (drop (table_description ! t) TableSchemas)"
  by code_simp

lemma codes_then_end:
  assumes "t < 45"
  shows "\<exists>todo. drop (table_description ! t) TableSchemas = codes t @ MONO_MT_END # todo"
proof -
  let ?d = "drop (table_description ! t) TableSchemas"
  have "MONO_MT_END \<in> set ?d" using description_ends assms by auto
  then have "dropWhile (\<lambda>c. c \<noteq> MONO_MT_END) ?d \<noteq> []" by (simp add: dropWhile_eq_Nil_conv)
  then obtain c todo where c: "dropWhile (\<lambda>c. c \<noteq> MONO_MT_END) ?d = c # todo" by (meson neq_Nil_conv)
  then have "c = MONO_MT_END" using hd_dropWhile [of "\<lambda>c. c \<noteq> MONO_MT_END" ?d] by simp
  then show ?thesis using c takeWhile_dropWhile_id [of "\<lambda>c. c \<noteq> MONO_MT_END" ?d] unfolding codes_def by metis
qed

end
