(* ===== verification/Meta_Standard.thy ===== *)
theory Meta_Standard
  imports Meta_Tables_Proofs
begin

text \<open>
  The layout of metadata tables as the standard (ECMA-335, partition II, sections 22 and 24) and the
  tags of \<open>row-indexes.h\<close> describe it, independently of the descriptions in the code, and the
  agreement of the computed column sizes with it.
\<close>

section \<open>The tables of the standard\<close>

text \<open>
  A column has a fixed size, or is an index into a heap, an index of a row of a table, or a coded index:
  a row number of one of several tables, shifted left by the bits of the tag.
\<close>

datatype column = Fixed nat | Blob_index | String_index | Guid_index | Row_of nat | Coded nat "nat list"

text \<open>The tables of a \<open>HasCustomAttribute\<close> index, in the order of their tags (II.24.2.6).\<close>

definition HasCustomAttribute :: "nat list" where
  "HasCustomAttribute = [MONO_TABLE_METHOD, MONO_TABLE_FIELD, MONO_TABLE_TYPEREF, MONO_TABLE_TYPEDEF,
     MONO_TABLE_PARAM, MONO_TABLE_INTERFACEIMPL, MONO_TABLE_MEMBERREF, MONO_TABLE_MODULE, MONO_TABLE_DECLSECURITY,
     MONO_TABLE_PROPERTY, MONO_TABLE_EVENT, MONO_TABLE_STANDALONESIG, MONO_TABLE_MODULEREF, MONO_TABLE_TYPESPEC,
     MONO_TABLE_ASSEMBLY, MONO_TABLE_ASSEMBLYREF, MONO_TABLE_FILE, MONO_TABLE_EXPORTEDTYPE,
     MONO_TABLE_MANIFESTRESOURCE, MONO_TABLE_GENERICPARAM, MONO_TABLE_GENERICPARAMCONSTRAINT, MONO_TABLE_METHODSPEC]"

abbreviation (input) "TypeDefOrRef \<equiv> Coded 2 [MONO_TABLE_TYPEDEF, MONO_TABLE_TYPEREF, MONO_TABLE_TYPESPEC]"
abbreviation (input) "MethodDefOrRef \<equiv> Coded 1 [MONO_TABLE_METHOD, MONO_TABLE_MEMBERREF]"
abbreviation (input) "Implementation \<equiv> Coded 2 [MONO_TABLE_FILE, MONO_TABLE_ASSEMBLYREF, MONO_TABLE_EXPORTEDTYPE]"

definition schemas :: "column list list" where
  "schemas =
   [\<comment> \<open>Module\<close> [Fixed 2, String_index, Guid_index, Guid_index, Guid_index],
    \<comment> \<open>TypeRef\<close> [Coded 2 [MONO_TABLE_MODULE, MONO_TABLE_MODULEREF, MONO_TABLE_ASSEMBLYREF, MONO_TABLE_TYPEREF],
      String_index, String_index],
    \<comment> \<open>TypeDef\<close> [Fixed 4, String_index, String_index, TypeDefOrRef, Row_of MONO_TABLE_FIELD, Row_of MONO_TABLE_METHOD],
    \<comment> \<open>FieldPtr\<close> [Row_of MONO_TABLE_FIELD],
    \<comment> \<open>Field\<close> [Fixed 2, String_index, Blob_index],
    \<comment> \<open>MethodPtr\<close> [Row_of MONO_TABLE_METHOD],
    \<comment> \<open>Method\<close> [Fixed 4, Fixed 2, Fixed 2, String_index, Blob_index, Row_of MONO_TABLE_PARAM],
    \<comment> \<open>ParamPtr\<close> [Row_of MONO_TABLE_PARAM],
    \<comment> \<open>Param\<close> [Fixed 2, Fixed 2, String_index],
    \<comment> \<open>InterfaceImpl\<close> [Row_of MONO_TABLE_TYPEDEF, TypeDefOrRef],
    \<comment> \<open>MemberRef\<close> [Coded 3 [MONO_TABLE_TYPEDEF, MONO_TABLE_TYPEREF, MONO_TABLE_MODULEREF, MONO_TABLE_METHOD,
      MONO_TABLE_TYPESPEC], String_index, Blob_index],
    \<comment> \<open>Constant\<close> [Fixed 1, Fixed 1, Coded 2 [MONO_TABLE_FIELD, MONO_TABLE_PARAM, MONO_TABLE_PROPERTY], Blob_index],
    \<comment> \<open>CustomAttribute\<close> [Coded 5 HasCustomAttribute, Coded 3 [MONO_TABLE_METHOD, MONO_TABLE_MEMBERREF], Blob_index],
    \<comment> \<open>FieldMarshal\<close> [Coded 1 [MONO_TABLE_FIELD, MONO_TABLE_PARAM], Blob_index],
    \<comment> \<open>DeclSecurity\<close> [Fixed 2, Coded 2 [MONO_TABLE_TYPEDEF, MONO_TABLE_METHOD, MONO_TABLE_ASSEMBLY], Blob_index],
    \<comment> \<open>ClassLayout\<close> [Fixed 2, Fixed 4, Row_of MONO_TABLE_TYPEDEF],
    \<comment> \<open>FieldLayout\<close> [Fixed 4, Row_of MONO_TABLE_FIELD],
    \<comment> \<open>StandAloneSig\<close> [Blob_index],
    \<comment> \<open>EventMap\<close> [Row_of MONO_TABLE_TYPEDEF, Row_of MONO_TABLE_EVENT],
    \<comment> \<open>EventPtr\<close> [Row_of MONO_TABLE_EVENT],
    \<comment> \<open>Event\<close> [Fixed 2, String_index, TypeDefOrRef],
    \<comment> \<open>PropertyMap\<close> [Row_of MONO_TABLE_TYPEDEF, Row_of MONO_TABLE_PROPERTY],
    \<comment> \<open>PropertyPtr\<close> [Row_of MONO_TABLE_PROPERTY],
    \<comment> \<open>Property\<close> [Fixed 2, String_index, Blob_index],
    \<comment> \<open>MethodSemantics\<close> [Fixed 2, Row_of MONO_TABLE_METHOD, Coded 1 [MONO_TABLE_EVENT, MONO_TABLE_PROPERTY]],
    \<comment> \<open>MethodImpl\<close> [Row_of MONO_TABLE_TYPEDEF, MethodDefOrRef, MethodDefOrRef],
    \<comment> \<open>ModuleRef\<close> [String_index],
    \<comment> \<open>TypeSpec\<close> [Blob_index],
    \<comment> \<open>ImplMap\<close> [Fixed 2, Coded 1 [MONO_TABLE_FIELD, MONO_TABLE_METHOD], String_index, Row_of MONO_TABLE_MODULEREF],
    \<comment> \<open>FieldRVA\<close> [Fixed 4, Row_of MONO_TABLE_FIELD],
    \<comment> \<open>unused\<close> [],
    \<comment> \<open>unused\<close> [],
    \<comment> \<open>Assembly\<close> [Fixed 4, Fixed 2, Fixed 2, Fixed 2, Fixed 2, Fixed 4, Blob_index, String_index, String_index],
    \<comment> \<open>AssemblyProcessor\<close> [Fixed 4],
    \<comment> \<open>AssemblyOS\<close> [Fixed 4, Fixed 4, Fixed 4],
    \<comment> \<open>AssemblyRef\<close> [Fixed 2, Fixed 2, Fixed 2, Fixed 2, Fixed 4, Blob_index, String_index, String_index, Blob_index],
    \<comment> \<open>AssemblyRefProcessor\<close> [Fixed 4, Row_of MONO_TABLE_ASSEMBLYREF],
    \<comment> \<open>AssemblyRefOS\<close> [Fixed 4, Fixed 4, Fixed 4, Row_of MONO_TABLE_ASSEMBLYREF],
    \<comment> \<open>File\<close> [Fixed 4, String_index, Blob_index],
    \<comment> \<open>ExportedType\<close> [Fixed 4, Fixed 4, String_index, String_index, Implementation],
    \<comment> \<open>ManifestResource\<close> [Fixed 4, Fixed 4, String_index, Implementation],
    \<comment> \<open>NestedClass\<close> [Row_of MONO_TABLE_TYPEDEF, Row_of MONO_TABLE_TYPEDEF],
    \<comment> \<open>GenericParam\<close> [Fixed 2, Fixed 2, Coded 1 [MONO_TABLE_TYPEDEF, MONO_TABLE_METHOD], String_index],
    \<comment> \<open>MethodSpec\<close> [MethodDefOrRef, Blob_index],
    \<comment> \<open>GenericParamConstraint\<close> [Row_of MONO_TABLE_GENERICPARAM, TypeDefOrRef]]"

text \<open>What the size of a column depends on: the row counts and the sizes of the heaps.\<close>

record dimensions =
  row_count :: "nat \<Rightarrow> nat"
  string_wide :: bool
  guid_wide :: bool
  blob_wide :: bool

fun width :: "dimensions \<Rightarrow> column \<Rightarrow> nat" where
  "width d (Fixed n) = n"
| "width d Blob_index = (if blob_wide d then 4 else 2)"
| "width d String_index = (if string_wide d then 4 else 2)"
| "width d Guid_index = (if guid_wide d then 4 else 2)"
| "width d (Row_of t) = (if row_count d t < 2 ^ 16 then 2 else 4)"
| "width d (Coded b ts) = (if \<forall>t \<in> set ts. row_count d t < 2 ^ (16 - b) then 2 else 4)"

definition widths :: "dimensions \<Rightarrow> nat \<Rightarrow> nat list" where
  "widths d t = map (width d) (schemas ! t)"

text \<open>
  The last three tables of \<open>HasCustomAttribute\<close>, for generic parameters, their constraints and method
  specifications, are not the only reason for wide indices.  The code leaves these three out.
\<close>

definition generic_tables_modest :: "dimensions \<Rightarrow> bool" where
  "generic_tables_modest d \<longleftrightarrow> (\<forall>t \<in> set (drop 19 HasCustomAttribute). row_count d t < 2 ^ 11) \<or>
    (\<exists>t \<in> set (take 19 HasCustomAttribute). row_count d t \<ge> 2 ^ 11)"

definition dimensions_of :: "MonoImage \<Rightarrow> dimensions" where
  "dimensions_of meta = \<lparr>row_count = table_rows meta, string_wide = idx_string_wide meta,
     guid_wide = idx_guid_wide meta, blob_wide = idx_blob_wide meta\<rparr>"

section \<open>The computed sizes\<close>

lemma max_rows_less: "0 < k \<Longrightarrow> max_rows meta ts < k \<longleftrightarrow> (\<forall>t \<in> set ts. table_rows meta t < k)"
  by (induction ts) auto

lemma rtsize_max: "rtsize (max_rows meta ts) b = (if \<forall>t \<in> set ts. table_rows meta t < 2 ^ b then 2 else 4)"
  by (simp add: rtsize_def max_rows_less)

text \<open>The column that a code of a description means; the tables of plain indices as the code has them.\<close>

definition row_of_table :: "nat \<Rightarrow> nat \<Rightarrow> column option" where
  "row_of_table t i = map_option (\<lambda>u. if u = 0 then Fixed 4 else if u = 1 then Coded 1 [MONO_TABLE_TYPEDEF, MONO_TABLE_METHOD] else Row_of u)
    (map_of
      [((MONO_TABLE_ASSEMBLYREFOS, 3), MONO_TABLE_ASSEMBLYREF), ((MONO_TABLE_ASSEMBLYREFPROCESSOR, 1), MONO_TABLE_ASSEMBLYREF),
       ((MONO_TABLE_CLASSLAYOUT, 2), MONO_TABLE_TYPEDEF), ((MONO_TABLE_EVENTMAP, 0), MONO_TABLE_TYPEDEF),
       ((MONO_TABLE_EVENTMAP, 1), MONO_TABLE_EVENT), ((MONO_TABLE_EVENT_POINTER, 0), MONO_TABLE_EVENT),
       ((MONO_TABLE_EXPORTEDTYPE, 1), 0), ((MONO_TABLE_FIELDLAYOUT, 1), MONO_TABLE_FIELD),
       ((MONO_TABLE_FIELDRVA, 1), MONO_TABLE_FIELD), ((MONO_TABLE_FIELD_POINTER, 0), MONO_TABLE_FIELD),
       ((MONO_TABLE_IMPLMAP, 3), MONO_TABLE_MODULEREF), ((MONO_TABLE_INTERFACEIMPL, 0), MONO_TABLE_TYPEDEF),
       ((MONO_TABLE_METHOD, 5), MONO_TABLE_PARAM), ((MONO_TABLE_METHODIMPL, 0), MONO_TABLE_TYPEDEF),
       ((MONO_TABLE_METHODSEMANTICS, 1), MONO_TABLE_METHOD), ((MONO_TABLE_METHOD_POINTER, 0), MONO_TABLE_METHOD),
       ((MONO_TABLE_NESTEDCLASS, 0), MONO_TABLE_TYPEDEF), ((MONO_TABLE_NESTEDCLASS, 1), MONO_TABLE_TYPEDEF),
       ((MONO_TABLE_PARAM_POINTER, 0), MONO_TABLE_PARAM), ((MONO_TABLE_PROPERTYMAP, 0), MONO_TABLE_TYPEDEF),
       ((MONO_TABLE_PROPERTYMAP, 1), MONO_TABLE_PROPERTY), ((MONO_TABLE_PROPERTY_POINTER, 0), MONO_TABLE_PROPERTY),
       ((MONO_TABLE_TYPEDEF, 4), MONO_TABLE_FIELD), ((MONO_TABLE_TYPEDEF, 5), MONO_TABLE_METHOD),
       ((MONO_TABLE_GENERICPARAM, 2), 1), ((MONO_TABLE_GENERICPARAMCONSTRAINT, 0), MONO_TABLE_GENERICPARAM)] (t, i))"

primrec meaning :: "nat \<Rightarrow> nat \<Rightarrow> MONO_MT \<Rightarrow> column option" where
  "meaning t i MONO_MT_END = None"
| "meaning t i MONO_MT_UINT32 = Some (Fixed 4)"
| "meaning t i MONO_MT_UINT16 = Some (Fixed 2)"
| "meaning t i MONO_MT_UINT8 = Some (Fixed 1)"
| "meaning t i MONO_MT_BLOB_IDX = Some Blob_index"
| "meaning t i MONO_MT_STRING_IDX = Some String_index"
| "meaning t i MONO_MT_GUID_IDX = Some Guid_index"
| "meaning t i MONO_MT_TABLE_IDX = row_of_table t i"
| "meaning t i MONO_MT_CONST_IDX = Some (Coded 2 [MONO_TABLE_FIELD, MONO_TABLE_PARAM, MONO_TABLE_PROPERTY])"
| "meaning t i MONO_MT_HASCAT_IDX = Some (Coded 5 HasCustomAttribute)"
| "meaning t i MONO_MT_CAT_IDX = Some (Coded 3 [MONO_TABLE_METHOD, MONO_TABLE_MEMBERREF])"
| "meaning t i MONO_MT_HASDEC_IDX = Some (Coded 2 [MONO_TABLE_TYPEDEF, MONO_TABLE_METHOD, MONO_TABLE_ASSEMBLY])"
| "meaning t i MONO_MT_IMPL_IDX = Some Implementation"
| "meaning t i MONO_MT_HFM_IDX = Some (Coded 1 [MONO_TABLE_FIELD, MONO_TABLE_PARAM])"
| "meaning t i MONO_MT_MF_IDX = Some (Coded 1 [MONO_TABLE_FIELD, MONO_TABLE_METHOD])"
| "meaning t i MONO_MT_TDOR_IDX = Some TypeDefOrRef"
| "meaning t i MONO_MT_MRP_IDX = Some (Coded 3 [MONO_TABLE_TYPEDEF, MONO_TABLE_TYPEREF, MONO_TABLE_MODULEREF,
    MONO_TABLE_METHOD, MONO_TABLE_TYPESPEC])"
| "meaning t i MONO_MT_MDOR_IDX = Some MethodDefOrRef"
| "meaning t i MONO_MT_HS_IDX = Some (Coded 1 [MONO_TABLE_EVENT, MONO_TABLE_PROPERTY])"
| "meaning t i MONO_MT_RS_IDX = Some (Coded 2 [MONO_TABLE_MODULE, MONO_TABLE_MODULEREF, MONO_TABLE_ASSEMBLYREF, MONO_TABLE_TYPEREF])"

lemma meanings: "map (\<lambda>t. map (\<lambda>(i, code). meaning t i code) (enumerate 0 (codes t))) [0..<45] = map (map Some) schemas"
  by code_simp

lemma codes_custom_attribute: "codes MONO_TABLE_CUSTOMATTRIBUTE = [MONO_MT_HASCAT_IDX, MONO_MT_CAT_IDX, MONO_MT_BLOB_IDX]"
  by code_simp

lemma dimensions_simps [simp]:
  "row_count (dimensions_of meta) = table_rows meta" "blob_wide (dimensions_of meta) = idx_blob_wide meta"
  "string_wide (dimensions_of meta) = idx_string_wide meta" "guid_wide (dimensions_of meta) = idx_guid_wide meta"
  by (simp_all add: dimensions_of_def)

lemma table_idx_size_meaning:
  "row_of_table t i = Some c \<Longrightarrow> table_idx_size meta t i = Inr (width (dimensions_of meta) c)"
  unfolding row_of_table_def
  by (simp split: if_splits) (auto simp: table_idx_size_def Let_def idx_size_def rtsize_def)

lemma has_custom_attribute:
  assumes "generic_tables_modest (dimensions_of meta)"
  shows "(\<forall>t \<in> set HasCustomAttribute. table_rows meta t < 2048) \<longleftrightarrow>
    (\<forall>t \<in> set (take 19 HasCustomAttribute). table_rows meta t < 2048)"
  using assms by (auto simp: generic_tables_modest_def HasCustomAttribute_def)

lemma field_size_HASCAT: "field_size meta t i MONO_MT_HASCAT_IDX =
    Inr (if \<forall>t \<in> set (take 19 HasCustomAttribute). table_rows meta t < 2 ^ 11 then 2 else 4)"
  unfolding field_size.simps rtsize_max by (simp add: HasCustomAttribute_def)

lemma field_size_meaning:
  assumes "meaning t i code = Some c" "generic_tables_modest (dimensions_of meta)"
  shows "field_size meta t i code = Inr (width (dimensions_of meta) c)"
proof (cases "code = MONO_MT_HASCAT_IDX")
  case True
  then have c: "c = Coded 5 HasCustomAttribute" using assms(1) by simp
  show ?thesis unfolding True c field_size_HASCAT using has_custom_attribute [OF assms(2)] by simp
next
  case False
  then show ?thesis
    using assms(1) table_idx_size_meaning [of t i c meta]
    by (cases code) (auto simp del: max_rows.simps simp: rtsize_max)
qed

lemma nth_codes:
  assumes "t < 45"
  shows "length (codes t) = length (schemas ! t) \<and>
    (\<forall>i < length (codes t). meaning t i (codes t ! i) = Some (schemas ! t ! i))"
proof -
  have l: "length schemas = 45" by (simp add: schemas_def)
  have "map (\<lambda>(i, code). meaning t i code) (enumerate 0 (codes t)) = map Some (schemas ! t)"
    using arg_cong [OF meanings, of "\<lambda>xs. xs ! t"] assms l by simp
  then have n: "length (codes t) = length (schemas ! t)"
    and e: "\<And>i. i < length (codes t) \<Longrightarrow> map (\<lambda>(i, code). meaning t i code) (enumerate 0 (codes t)) ! i = map Some (schemas ! t) ! i"
    by (auto dest: map_eq_imp_length_eq)
  have "meaning t i (codes t ! i) = Some (schemas ! t ! i)" if "i < length (codes t)" for i
    using e [OF that] that n by (simp add: nth_enumerate_eq)
  then show ?thesis using n by simp
qed

lemma meaning_code: "meaning t i code = Some c \<Longrightarrow> code \<noteq> MONO_MT_END"
  by auto

lemma schemas_small: "list_all (\<lambda>cs. length cs \<le> 9 \<and> (\<forall>c \<in> set cs. case c of Fixed n \<Rightarrow> n = 1 \<or> n = 2 \<or> n = 4 | _ \<Rightarrow> True)) schemas"
  by (simp add: schemas_def)

lemma schema_small: "t < 45 \<Longrightarrow> length (schemas ! t) \<le> 9"
  "t < 45 \<Longrightarrow> c \<in> set (schemas ! t) \<Longrightarrow> good_size (width d c)"
proof -
  assume t: "t < 45"
  have "length schemas = 45" by (simp add: schemas_def)
  then have s: "length (schemas ! t) \<le> 9 \<and> (\<forall>c \<in> set (schemas ! t). case c of Fixed n \<Rightarrow> n = 1 \<or> n = 2 \<or> n = 4 | _ \<Rightarrow> True)"
    using schemas_small t by (simp add: list_all_length)
  then show "length (schemas ! t) \<le> 9" by simp
  show "c \<in> set (schemas ! t) \<Longrightarrow> good_size (width d c)" using s by (cases c) (auto simp: good_size_def)
qed

lemma length_widths [simp]: "length (widths d t) = length (schemas ! t)"
  by (simp add: widths_def)

lemma widths_good: "t < 45 \<Longrightarrow> f \<in> set (widths d t) \<Longrightarrow> good_size f"
  using schema_small(2) by (auto simp: widths_def)

lemma sum_list_le: "\<forall>f \<in> set fs. f \<le> k \<Longrightarrow> sum_list fs \<le> k * length fs" for fs :: "nat list"
  by (induction fs) auto

lemma sum_widths: "t < 45 \<Longrightarrow> sum_list (widths d t) \<le> 36"
proof -
  assume t: "t < 45"
  have "sum_list (widths d t) \<le> 4 * length (widths d t)"
    using widths_good [OF t] by (intro sum_list_le) (fastforce simp: good_size_def)
  then show ?thesis using schema_small(1) [OF t] by simp
qed

text \<open>The columns of a table in a bit-field.\<close>

definition describes :: "guint32 \<Rightarrow> nat list \<Rightarrow> bool" where
  "describes bitfield fs \<longleftrightarrow> mono_metadata_table_count bitfield = length fs \<and>
    (\<forall>k < length fs. mono_metadata_table_size bitfield k = fs ! k)"

lemma compute_size_eq:
  assumes "t < 45" "generic_tables_modest (dimensions_of meta)"
  shows "\<exists>bitfield. mono_metadata_compute_size meta t = Inr (sum_list (widths (dimensions_of meta) t), bitfield) \<and>
    describes bitfield (widths (dimensions_of meta) t)"
proof -
  let ?fs = "widths (dimensions_of meta) t"
  have "list_all2 (\<lambda>(k, c) f. c \<noteq> MONO_MT_END \<and> field_size meta t k c = Inr f) (enumerate 0 (codes t)) ?fs"
    using nth_codes [OF assms(1)] field_size_meaning [OF _ assms(2)] meaning_code
    by (auto simp: list_all2_conv_all_nth nth_enumerate_eq widths_def)
  from compute_size_loop_packed [OF this, of 0]
  have c: "mono_metadata_compute_size meta t =
      Inr (sum_list ?fs, push_bit 24 (word_of_nat (length (codes t))) OR packed 0 0 ?fs)"
    using codes_then_end [OF assms(1)] by (auto simp: mono_metadata_compute_size_def)
  have l: "length (codes t) = length ?fs" "length ?fs \<le> 9"
    using nth_codes [OF assms(1)] schema_small(1) [OF assms(1)] by auto
  have f: "\<forall>f \<in> set ?fs. 1 \<le> f \<and> f \<le> 4" using widths_good [OF assms(1)] by (force simp: good_size_def)
  show ?thesis
    unfolding c describes_def using size_of_packed [OF f] count_of_packed [of ?fs "length (codes t)"] f l by auto
qed

end
