(* ===== verification/Meta_Rows.thy ===== *)
theory Meta_Rows
  imports Meta_Standard
begin

text \<open>
  Rows and columns of a table that lies inside the image, the layout of the tables one after the
  other, and the tables stream of the standard as a list of bytes.
\<close>

section \<open>Decoding inside a table\<close>

definition table_in :: "guint8 list \<Rightarrow> MonoTableInfo \<Rightarrow> nat list \<Rightarrow> bool" where
  "table_in m t fs \<longleftrightarrow> describes (size_bitfield t) fs \<and> (\<forall>f \<in> set fs. good_size f) \<and>
    row_size t = sum_list fs \<and> sum_list fs \<le> 36 \<and> rows t < 2 ^ 24 \<and>
    (\<exists>b. base t = Some b \<and> inside m b (rows t * row_size t))"

definition field_at :: "guint8 list \<Rightarrow> MonoTableInfo \<Rightarrow> nat list \<Rightarrow> nat \<Rightarrow> nat \<Rightarrow> guint32" where
  "field_at m t fs i k = column_value m (the (base t) + int (i * row_size t + sum_list (take k fs))) (fs ! k)"

lemma sum_take_le: "sum_list (take k fs) + fs ! k \<le> sum_list fs" if "k < length fs" for fs :: "nat list"
proof -
  have "fs = take k fs @ fs ! k # drop (Suc k) fs" using that by (rule id_take_nth_drop)
  then have "sum_list fs = sum_list (take k fs) + (fs ! k + sum_list (drop (Suc k) fs))"
    by (metis sum_list.Cons sum_list_append)
  then show ?thesis by simp
qed

lemma inside_field:
  assumes "table_in m t fs" "i < rows t" "k < length fs"
  shows "inside m (the (base t) + int (i * row_size t + sum_list (take k fs))) (fs ! k)"
proof -
  have "i * row_size t + row_size t \<le> rows t * row_size t"
    using assms(2) by (metis Suc_leI add.commute mult_Suc mult_le_mono1)
  moreover have "sum_list (take k fs) + fs ! k \<le> row_size t"
    using sum_take_le [OF assms(3)] assms(1) by (simp add: table_in_def)
  ultimately have "i * row_size t + sum_list (take k fs) + fs ! k \<le> rows t * row_size t" by linarith
  then have "int (i * row_size t + sum_list (take k fs) + fs ! k) \<le> int (rows t * row_size t)" by (simp only: of_nat_le_iff)
  then show ?thesis using assms(1) by (auto simp: table_in_def inside_def)
qed

lemma row_address_ok:
  assumes "table_in m t fs" "i < rows t"
  shows "row_address t (int i) = Inr (the (base t) + int (i * row_size t))"
proof -
  have "i * row_size t \<le> 2 ^ 24 * 36" using assms by (intro mult_le_mono) (auto simp: table_in_def)
  then have "i * row_size t < 2 ^ 31" by (rule le_less_trans) simp
  then have "int (i * row_size t) < int (2 ^ 31)" by (simp only: of_nat_less_iff)
  moreover have "0 \<le> int i * int (row_size t)" by simp
  ultimately have "in_int (int i * int (row_size t))" unfolding in_int_def
    using order_trans [of "- (2 ^ 31)" 0 "int i * int (row_size t)"] by simp
  moreover obtain b where "base t = Some b" using assms by (auto simp: table_in_def)
  ultimately show ?thesis by (simp add: row_address_def)
qed

lemma column_address_sum:
  assumes "describes bf fs" "k < length fs" "j \<le> k"
  shows "column_address bf [j..<k] p (fs ! j) = (p + int (sum_list (take (k - j) (drop j fs))), fs ! k)"
  using assms(3)
proof (induction "k - j" arbitrary: j p)
  case (Suc d)
  then have j: "j < k" by simp
  have "mono_metadata_table_size bf (j + 1) = fs ! (Suc j)" using assms j by (simp add: describes_def)
  then have "column_address bf [j..<k] p (fs ! j) = column_address bf [Suc j..<k] (p + int (fs ! j)) (fs ! Suc j)"
    using j by (simp add: upt_conv_Cons)
  moreover have "column_address bf [Suc j..<k] (p + int (fs ! j)) (fs ! Suc j) = (p + int (fs ! j) + int (sum_list (take (k - Suc j) (drop (Suc j) fs))), fs ! k)"
    using Suc.hyps(2) j by (intro Suc.hyps(1)) auto
  moreover have "take (k - j) (drop j fs) = fs ! j # take (k - Suc j) (drop (Suc j) fs)"
    using j assms(2) by (subst Cons_nth_drop_Suc [symmetric]) (auto simp: Suc_diff_Suc [symmetric])
  ultimately show ?case by simp
qed simp

lemma decode_row_col_ok:
  assumes "table_in m t fs" "i < rows t" "k < length fs"
  shows "mono_metadata_decode_row_col m t (int i) k = Inr (field_at m t fs i k)"
proof -
  have d: "describes (size_bitfield t) fs" using assms(1) by (simp add: table_in_def)
  moreover have "0 < length fs" using assms(3) by linarith
  ultimately have c: "mono_metadata_table_count (size_bitfield t) = length fs"
    and s: "mono_metadata_table_size (size_bitfield t) 0 = fs ! 0" by (auto simp: describes_def)
  have "read_column m (the (base t) + int (i * row_size t + sum_list (take k fs))) (fs ! k) = Inr (field_at m t fs i k)"
    unfolding field_at_def using inside_field [OF assms] assms by (intro read_column_inside) (auto simp: table_in_def)
  then show ?thesis
    using column_address_sum [OF d assms(3), of 0] assms(2,3)
    by (simp add: mono_metadata_decode_row_col_def row_address_ok [OF assms(1,2)] c s add.assoc)
qed

lemma decode_columns_ok:
  assumes t: "table_in m t fs" "i < rows t" and j: "j \<le> length fs"
  shows "decode_columns m (size_bitfield t) [j..<length fs] (the (base t) + int (i * row_size t + sum_list (take j fs))) =
    Inr (map (field_at m t fs i) [j..<length fs])"
  using j
proof (induction "length fs - j" arbitrary: j)
  case (Suc d)
  then have j: "j < length fs" by simp
  have n: "mono_metadata_table_size (size_bitfield t) j = fs ! j" using t j by (auto simp: table_in_def describes_def)
  have r: "read_column m (the (base t) + int (i * row_size t + sum_list (take j fs))) (fs ! j) = Inr (field_at m t fs i j)"
    unfolding field_at_def using inside_field [OF t j] t j by (intro read_column_inside) (auto simp: table_in_def)
  have "sum_list (take (Suc j) fs) = sum_list (take j fs) + fs ! j" using j by (simp add: take_Suc_conv_app_nth)
  then have "decode_columns m (size_bitfield t) [Suc j..<length fs]
      (the (base t) + int (i * row_size t + sum_list (take j fs)) + int (fs ! j)) = Inr (map (field_at m t fs i) [Suc j..<length fs])"
    using Suc.hyps(1) [of "Suc j"] Suc.hyps(2) j by (simp add: add.assoc)
  then show ?case using j by (simp add: upt_conv_Cons n r del: of_nat_add of_nat_mult)
qed simp

lemma decode_row_ok:
  assumes "table_in m t fs" "i < rows t"
  shows "mono_metadata_decode_row m t (int i) n =
    (if n = length fs then Inr (map (field_at m t fs i) [0..<length fs]) else Inl Assert_failed)"
proof -
  have "mono_metadata_table_count (size_bitfield t) = length fs" using assms(1) by (simp add: table_in_def describes_def)
  then show ?thesis
    using decode_columns_ok [OF assms, of 0] assms(2)
    by (simp add: mono_metadata_decode_row_def row_address_ok [OF assms])
qed

lemma decode_outside: "int (rows t) \<le> idx \<Longrightarrow> mono_metadata_decode_row_col m t idx k = Inl Assert_failed"
  "int (rows t) \<le> idx \<Longrightarrow> mono_metadata_decode_row m t idx n = Inl Assert_failed"
  by (auto simp: mono_metadata_decode_row_col_def mono_metadata_decode_row_def)

section \<open>The tables one after the other\<close>

text \<open>The bytes of the tables before table \<open>t\<close>.\<close>

definition bytes_before :: "dimensions \<Rightarrow> nat \<Rightarrow> nat" where
  "bytes_before d t = sum_list (map (\<lambda>u. row_count d u * sum_list (widths d u)) [0..<t])"

lemma bytes_before_Suc: "bytes_before d (Suc t) = bytes_before d t + row_count d t * sum_list (widths d t)"
  by (simp add: bytes_before_def)

text \<open>Table \<open>t\<close> after the bases have been computed: an empty table keeps its old entry.\<close>

definition placed :: "MonoImage \<Rightarrow> nat \<Rightarrow> MonoTableInfo \<Rightarrow> bool" where
  "placed meta t info \<longleftrightarrow> rows info = table_rows meta t \<and>
    (if rows info = 0 then info = tables meta ! t
     else base info = Some (tables_base meta + int (bytes_before (dimensions_of meta) t)) \<and>
       row_size info = sum_list (widths (dimensions_of meta) t) \<and>
       describes (size_bitfield info) (widths (dimensions_of meta) t))"

lemma table_bases_loop_ok:
  assumes "length (tables meta0) = 45" "generic_tables_modest (dimensions_of meta0)"
    and "j \<le> 45" "dimensions_of meta = dimensions_of meta0" "length (tables meta) = 45"
    and "meta = meta0\<lparr>tables := tables meta\<rparr>"
    and "\<forall>t < j. placed meta0 t (tables meta ! t)" "\<forall>t < 45. j \<le> t \<longrightarrow> tables meta ! t = tables meta0 ! t"
    and "b = tables_base meta0 + int (bytes_before (dimensions_of meta0) j)"
  shows "\<exists>ts. table_bases_loop [j..<45] b meta = Inr (meta0\<lparr>tables := ts\<rparr>) \<and> length ts = 45 \<and>
    (\<forall>t < 45. placed meta0 t (ts ! t))"
  using assms(3-)
proof (induction "45 - j" arbitrary: j meta b)
  case 0
  then show ?case by (metis diff_is_0_eq le_antisym order_refl table_bases_loop.simps(1) upt_conv_Nil)
next
  case (Suc n)
  then have j: "j < 45" by simp
  let ?d = "dimensions_of meta0"
  have r: "table_rows meta j = row_count ?d j" using Suc.prems(2) by (metis dimensions_simps(1))
  have tj: "tables meta ! j = tables meta0 ! j" using Suc.prems j by simp
  show ?case
  proof (cases "table_rows meta j = 0")
    case True
    have p: "placed meta0 j (tables meta ! j)"
      using True tj by (simp add: placed_def table_rows_def)
    have "\<forall>t < Suc j. placed meta0 t (tables meta ! t)" using Suc.prems p by (auto simp: less_Suc_eq)
    moreover have "b = tables_base meta0 + int (bytes_before ?d (Suc j))"
      using Suc.prems True r by (simp add: bytes_before_Suc)
    ultimately show ?thesis
      using Suc.hyps(1) [of "Suc j" meta b] Suc.hyps(2) Suc.prems j True by (simp add: upt_conv_Cons)
  next
    case False
    obtain bf where bf: "mono_metadata_compute_size meta j = Inr (sum_list (widths ?d j), bf)" "describes bf (widths ?d j)"
      using compute_size_eq [of j meta] j Suc.prems(2) assms(2) by metis
    have s: "sum_list (widths ?d j) mod 2 ^ 8 = sum_list (widths ?d j)" using sum_widths [OF j, of ?d] by simp
    define info where "info = (tables meta ! j)\<lparr>row_size := sum_list (widths ?d j), size_bitfield := bf, base := Some b\<rparr>"
    define meta' where "meta' = meta\<lparr>tables := (tables meta)[j := info]\<rparr>"
    have rr: "table_rows meta' = table_rows meta" using Suc.prems(3) j
      by (auto simp: table_rows_def fun_eq_iff nth_list_update info_def meta'_def)
    have p: "placed meta0 j info" using False bf Suc.prems tj by (simp add: placed_def info_def table_rows_def)
    have step: "table_bases_loop [j..<45] b meta = table_bases_loop [Suc j..<45] (b + int (rows info * row_size info)) meta'"
      using j False bf s by (simp add: upt_conv_Cons Let_def info_def meta'_def)
    have "\<exists>ts. table_bases_loop [Suc j..<45] (b + int (rows info * row_size info)) meta' = Inr (meta0\<lparr>tables := ts\<rparr>) \<and>
        length ts = 45 \<and> (\<forall>t < 45. placed meta0 t (ts ! t))"
    proof (rule Suc.hyps(1))
      show "n = 45 - Suc j" using Suc.hyps(2) by simp
      show "Suc j \<le> 45" using j by simp
      show "dimensions_of meta' = dimensions_of meta0"
        using rr Suc.prems(2) by (simp add: dimensions_of_def meta'_def)
      show "length (tables meta') = 45" using Suc.prems(3) by (simp add: meta'_def)
      show "meta' = meta0\<lparr>tables := tables meta'\<rparr>"
        unfolding meta'_def by (subst Suc.prems(4)) simp
      show "\<forall>t < Suc j. placed meta0 t (tables meta' ! t)"
        using Suc.prems p j by (auto simp: meta'_def nth_list_update less_Suc_eq)
      show "\<forall>t < 45. Suc j \<le> t \<longrightarrow> tables meta' ! t = tables meta0 ! t"
        using Suc.prems by (auto simp: meta'_def nth_list_update)
      show "b + int (rows info * row_size info) = tables_base meta0 + int (bytes_before ?d (Suc j))"
        using Suc.prems(7) r by (simp add: bytes_before_Suc info_def table_rows_def)
    qed
    then show ?thesis unfolding step .
  qed
qed

lemma compute_table_bases_ok:
  assumes "length (tables meta) = 45" "generic_tables_modest (dimensions_of meta)"
  shows "\<exists>ts. mono_metadata_compute_table_bases meta = Inr (meta\<lparr>tables := ts\<rparr>) \<and> length ts = 45 \<and>
    (\<forall>t < 45. placed meta t (ts ! t))"
  unfolding mono_metadata_compute_table_bases_def MONO_TABLE_NUM_def MONO_TABLE_LAST_def
  using table_bases_loop_ok [OF assms, of 0 meta "tables_base meta"] assms by (simp add: bytes_before_def)

section \<open>The tables stream of the standard\<close>

type_synonym database = "nat \<Rightarrow> int list list"

definition flag :: "bool \<Rightarrow> int \<Rightarrow> int" where
  "flag b v = (if b then v else 0)"

definition present :: "database \<Rightarrow> nat list" where
  "present db = filter (\<lambda>t. db t \<noteq> []) [0..<45]"

definition row_bytes :: "nat list \<Rightarrow> int list \<Rightarrow> guint8 list" where
  "row_bytes fs r = concat (map2 le_bytes fs r)"

definition table_bytes :: "nat list \<Rightarrow> int list list \<Rightarrow> guint8 list" where
  "table_bytes fs rs = concat (map (row_bytes fs) rs)"

definition valid_tables :: "database \<Rightarrow> int" where
  "valid_tables db = (\<Sum>t\<leftarrow>present db. 2 ^ t)"

definition stream_header :: "dimensions \<Rightarrow> int \<Rightarrow> database \<Rightarrow> guint8 list" where
  "stream_header d smask db =
    le_bytes 4 0 @ [2, 0] @ [word_of_int (flag (string_wide d) 1 + flag (guid_wide d) 2 + flag (blob_wide d) 4), 1] @
    le_bytes 8 (valid_tables db) @ le_bytes 8 smask @
    concat (map (\<lambda>t. le_bytes 4 (int (length (db t)))) (present db))"

definition tables_stream :: "dimensions \<Rightarrow> int \<Rightarrow> database \<Rightarrow> guint8 list" where
  "tables_stream d smask db = stream_header d smask db @
    concat (map (\<lambda>t. table_bytes (widths d t) (db t)) [0..<45])"

text \<open>
  A database that fits the standard: rows have the columns of the schema, values fit their columns,
  and one-byte values are less than 128.
\<close>

definition value_fits :: "nat \<Rightarrow> int \<Rightarrow> bool" where
  "value_fits n v \<longleftrightarrow> 0 \<le> v \<and> v < (if n = 1 then 128 else 256 ^ n)"

definition database_ok :: "dimensions \<Rightarrow> database \<Rightarrow> bool" where
  "database_ok d db \<longleftrightarrow> (\<forall>t < 45. row_count d t = length (db t) \<and> length (db t) < 2 ^ 24 \<and>
     (\<forall>r \<in> set (db t). list_all2 value_fits (widths d t) r)) \<and> generic_tables_modest d"

subsection \<open>Its bytes\<close>

lemma length_row_bytes: "length r = length fs \<Longrightarrow> length (row_bytes fs r) = sum_list fs"
  by (induction fs arbitrary: r) (auto simp: row_bytes_def length_Suc_conv)

lemma length_table_bytes:
  "\<forall>r \<in> set rs. length r = length fs \<Longrightarrow> length (table_bytes fs rs) = length rs * sum_list fs"
  by (induction rs) (auto simp: table_bytes_def length_row_bytes)

lemma bytes_at_append:
  "p = int (length xs) \<Longrightarrow> n = length ys \<Longrightarrow> bytes_at (xs @ ys @ zs) p n = ys"
  by (simp add: bytes_at_def)

lemma row_bytes_split:
  assumes "length r = length fs" "k < length fs"
  shows "\<exists>as bs. row_bytes fs r = as @ le_bytes (fs ! k) (r ! k) @ bs \<and> length as = sum_list (take k fs)"
proof -
  let ?z = "zip fs r"
  have z: "?z = take k ?z @ (fs ! k, r ! k) # drop (Suc k) ?z" using assms by (metis id_take_nth_drop length_zip min.idem nth_zip)
  have "row_bytes fs r = concat (map (\<lambda>(n, v). le_bytes n v) (take k ?z)) @ le_bytes (fs ! k) (r ! k) @
      concat (map (\<lambda>(n, v). le_bytes n v) (drop (Suc k) ?z))"
    unfolding row_bytes_def by (subst z) simp
  moreover have "concat (map (\<lambda>(n, v). le_bytes n v) (take k ?z)) = row_bytes (take k fs) (take k r)"
    by (simp add: row_bytes_def take_zip)
  moreover have "length (row_bytes (take k fs) (take k r)) = sum_list (take k fs)"
    using assms by (intro length_row_bytes) simp
  ultimately show ?thesis by metis
qed

lemma concat_split:
  "i < length xs \<Longrightarrow> concat (map f xs) = concat (map f (take i xs)) @ f (xs ! i) @ concat (map f (drop (Suc i) xs))"
  by (rule concat_map_take_drop)

lemma table_bytes_split:
  assumes "\<forall>r \<in> set rs. length r = length fs" "i < length rs"
  shows "\<exists>as bs. table_bytes fs rs = as @ row_bytes fs (rs ! i) @ bs \<and> length as = i * sum_list fs"
proof -
  have "length (table_bytes fs (take i rs)) = i * sum_list fs"
    using assms by (subst length_table_bytes) (auto dest: in_set_takeD)
  then show ?thesis using concat_split [OF assms(2), of "row_bytes fs"] by (auto simp: table_bytes_def)
qed

lemma column_value_le_bytes:
  assumes "p = int (length xs)" "value_fits n v" "good_size n"
  shows "column_value (xs @ le_bytes n v @ ys) p n = word_of_int v"
proof (cases "n = 1")
  case True
  have v: "0 \<le> v" "v < 128" using assms True by (auto simp: value_fits_def)
  have "scast (word_of_int v :: guint8) = (word_of_int v :: guint32)"
    using v by (simp add: signed_of_int signed_take_bit_int_eq_self)
  then show ?thesis using v True assms(1) by (simp add: column_value_def nth_append le_bytes.simps)
next
  case False
  have "le_value (le_bytes n v) = v" using assms False by (simp add: le_value_le_bytes value_fits_def)
  then show ?thesis using False assms(1) by (simp add: column_value_def bytes_at_append)
qed

lemma field_at_bytes:
  assumes b: "base t = Some (int (length xs))" "row_size t = sum_list fs"
    and rs: "\<forall>r \<in> set rs. list_all2 value_fits fs r" and fs: "\<forall>f \<in> set fs. good_size f"
    and i: "i < length rs" and k: "k < length fs"
  shows "field_at (xs @ table_bytes fs rs @ ys) t fs i k = word_of_int (rs ! i ! k)"
proof -
  have l: "\<forall>r \<in> set rs. length r = length fs" using rs by (metis list_all2_lengthD)
  have r: "list_all2 value_fits fs (rs ! i)" "length (rs ! i) = length fs" using rs l i by auto
  obtain as bs where ab: "table_bytes fs rs = as @ row_bytes fs (rs ! i) @ bs" "length as = i * sum_list fs"
    using table_bytes_split [OF l i] by blast
  obtain cs ds where cd: "row_bytes fs (rs ! i) = cs @ le_bytes (fs ! k) (rs ! i ! k) @ ds" "length cs = sum_list (take k fs)"
    using row_bytes_split [OF r(2) k] by blast
  have e: "xs @ table_bytes fs rs @ ys = (xs @ as @ cs) @ le_bytes (fs ! k) (rs ! i ! k) @ (ds @ bs @ ys)"
    using ab cd by simp
  have "column_value (xs @ table_bytes fs rs @ ys) (int (length (xs @ as @ cs))) (fs ! k) = word_of_int (rs ! i ! k)"
    unfolding e using r k fs by (intro column_value_le_bytes) (auto dest: list_all2_nthD)
  then show ?thesis using b ab cd by (simp add: field_at_def add.assoc)
qed

subsection \<open>Loading it\<close>

lemma stream_header_length: "length (stream_header d smask db) = 24 + 4 * length (present db)"
proof -
  have "length (concat (map (\<lambda>t. le_bytes 4 (f t)) ts)) = 4 * length ts" for f and ts :: "nat list"
    by (induction ts) auto
  then show ?thesis by (simp add: stream_header_def)
qed

lemma present_mem: "t < 45 \<Longrightarrow> t \<in> set (present db) \<longleftrightarrow> db t \<noteq> []"
  by (auto simp: present_def)

lemma sum_bits: "finite A \<Longrightarrow> bit (\<Sum>t\<in>A. 2 ^ t :: int) n \<longleftrightarrow> n \<in> A"
proof (induction A arbitrary: n rule: finite_psubset_induct)
  case (psubset A)
  show ?case
  proof (cases "A = {}")
    case False
    define x where "x = Max A"
    have x: "x \<in> A" "\<forall>y \<in> A. y \<le> x" using False psubset.hyps by (auto simp: x_def)
    define s where "s = (\<Sum>t\<in>A - {x}. 2 ^ t :: int)"
    have ih: "bit s k \<longleftrightarrow> k \<in> A - {x}" for k unfolding s_def by (rule psubset.IH) (use x in auto)
    have px: "bit (push_bit x (1 :: int)) k \<longleftrightarrow> k = x" for k by (auto simp: bit_exp_iff)
    have "(\<Sum>t\<in>A. 2 ^ t :: int) = 2 ^ x + s" unfolding s_def using x psubset.hyps by (intro sum.remove) auto
    also have "2 ^ x + s = push_bit x 1 + s" by simp
    also have "\<dots> = push_bit x 1 OR s" by (rule disjunctive_add) (simp only: ih px, blast)
    finally have "bit (\<Sum>t\<in>A. 2 ^ t :: int) n \<longleftrightarrow> n = x \<or> n \<in> A - {x}"
      by (simp only: bit_or_iff ih px)
    then show ?thesis using x by auto
  qed simp
qed

lemma valid_bit: "n < 64 \<Longrightarrow> bit (word_of_int (valid_tables db) :: guint64) n \<longleftrightarrow> n < 45 \<and> db n \<noteq> []"
  using sum_bits [of "set (present db)" n]
  by (simp add: valid_tables_def sum_list_distinct_conv_sum_set bit_of_int_iff present_def del: of_int_sum)

lemma row_counts_loop_ok:
  assumes n: "\<forall>t \<in> set ts. t < 64" "distinct ts" and l: "length infos = 45"
    and c: "\<And>t. t < 45 \<Longrightarrow> length (db t) < 2 ^ 24"
    and p: "p = int (length xs)"
    and m: "m = xs @ concat (map (\<lambda>t. le_bytes 4 (int (length (db t)))) (filter (\<lambda>t. t < 45 \<and> db t \<noteq> []) ts)) @ ys"
  shows "row_counts_loop m (word_of_int (valid_tables db)) ts p v infos =
    Inr (p + 4 * int (length (filter (\<lambda>t. t < 45 \<and> db t \<noteq> []) ts)), v + length (filter (\<lambda>t. t < 45 \<and> db t \<noteq> []) ts),
         map (\<lambda>t. if t \<in> set ts then (infos ! t)\<lparr>rows := length (db t)\<rparr> else infos ! t) [0..<45])"
  using n l p m
proof (induction ts arbitrary: p v infos xs)
  case Nil
  have "map (\<lambda>t. infos ! t) [0..<45] = infos" using Nil.prems(3) by (metis map_nth)
  then show ?case by simp
next
  case (Cons t ts)
  let ?P = "\<lambda>t. t < 45 \<and> db t \<noteq> []"
  have last: "MONO_TABLE_LAST = 44" by (simp add: MONO_TABLE_LAST_def)
  show ?case
  proof (cases "?P t")
    case True
    have r: "read32 m p = Inr (word_of_int (int (length (db t))))"
    proof -
      have "inside m p 4" using Cons.prems True by (auto simp: inside_def)
      moreover have "bytes_at m p 4 = le_bytes 4 (int (length (db t)))"
        using Cons.prems True by (simp add: bytes_at_append)
      ultimately show ?thesis using c [of t] True by (simp add: read32_inside le_value_le_bytes)
    qed
    define infos' where "infos' = infos[t := (infos ! t)\<lparr>rows := length (db t)\<rparr>]"
    have s: "row_counts_loop m (word_of_int (valid_tables db)) (t # ts) p v infos =
        row_counts_loop m (word_of_int (valid_tables db)) ts (p + 4) (v + 1) infos'"
      using r True Cons.prems(1) c [of t] valid_bit [of t db]
      by (simp add: infos'_def last unat_of_nat)
    have ih: "row_counts_loop m (word_of_int (valid_tables db)) ts (p + 4) (v + 1) infos' =
        Inr (p + 4 + 4 * int (length (filter ?P ts)), v + 1 + length (filter ?P ts),
         map (\<lambda>t. if t \<in> set ts then (infos' ! t)\<lparr>rows := length (db t)\<rparr> else infos' ! t) [0..<45])"
      using Cons.prems True by (intro Cons.IH [where xs = "xs @ le_bytes 4 (int (length (db t)))"]) (auto simp: infos'_def)
    show ?thesis unfolding s ih using True Cons.prems by (auto simp: infos'_def nth_list_update)
  next
    case False
    define infos' where "infos' = (if t > 44 then infos else infos[t := (infos ! t)\<lparr>rows := 0\<rparr>])"
    have s: "row_counts_loop m (word_of_int (valid_tables db)) (t # ts) p v infos =
        row_counts_loop m (word_of_int (valid_tables db)) ts p v infos'"
      using False Cons.prems(1) valid_bit [of t db] by (simp add: infos'_def last)
    have ih: "row_counts_loop m (word_of_int (valid_tables db)) ts p v infos' =
        Inr (p + 4 * int (length (filter ?P ts)), v + length (filter ?P ts),
         map (\<lambda>t. if t \<in> set ts then (infos' ! t)\<lparr>rows := length (db t)\<rparr> else infos' ! t) [0..<45])"
      using Cons.prems False by (intro Cons.IH [where xs = xs]) (auto simp: infos'_def)
    show ?thesis unfolding s ih using False Cons.prems by (auto simp: infos'_def nth_list_update)
  qed
qed

end
