(* ===== verification/Meta_Lookup_Proofs.thy ===== *)
theory Meta_Lookup_Proofs
  imports Meta_Lookup Meta_Rows
begin

text \<open>
  Binary search in a table and the walks along its rows.  The locale \<open>row_comparison\<close> is the contract
  between \<open>bsearch\<close> and a locator; the three locators of the code are its instances.
\<close>

section \<open>Tables of an image\<close>

definition table_ok :: "guint8 list \<Rightarrow> MonoTableInfo \<Rightarrow> nat list \<Rightarrow> bool" where
  "table_ok m t fs \<longleftrightarrow> base t = None \<and> rows t = 0 \<or> table_in m t fs"

definition column_sorted :: "(nat \<Rightarrow> guint32) \<Rightarrow> nat \<Rightarrow> bool" where
  "column_sorted c n \<longleftrightarrow> (\<forall>i j. i \<le> j \<longrightarrow> j < n \<longrightarrow> c i \<le> c j)"

lemma column_sortedD: "column_sorted c n \<Longrightarrow> i \<le> j \<Longrightarrow> j < n \<Longrightarrow> c i \<le> c j"
  by (simp add: column_sorted_def)

lemma located_row_ok:
  assumes "table_in m (loc_t loc) fs" "fs \<noteq> []" "base (loc_t loc) = Some b"
  shows "located_row loc (b + int (i * row_size (loc_t loc))) = Inr (int i)"
proof -
  obtain f fs' where f: "fs = f # fs'" using assms(2) by (cases fs) auto
  then have "0 < row_size (loc_t loc)" using assms(1) by (auto simp: table_in_def good_size_def)
  then show ?thesis using assms(3) by (simp add: located_row_def)
qed

section \<open>The contract of a locator\<close>

locale row_comparison =
  fixes compar :: "guint8 list \<Rightarrow> locator_t \<Rightarrow> int \<Rightarrow> (int \<times> locator_t) res"
    and sign :: "(nat \<Rightarrow> guint32) \<Rightarrow> nat \<Rightarrow> guint32 \<Rightarrow> nat \<Rightarrow> int"
  assumes compares: "table_in m (loc_t loc) fs \<Longrightarrow> col_idx loc < length fs \<Longrightarrow> i < rows (loc_t loc) \<Longrightarrow>
      base (loc_t loc) = Some b \<Longrightarrow> s = sign (\<lambda>i. field_at m (loc_t loc) fs i (col_idx loc)) (rows (loc_t loc)) (idx loc) i \<Longrightarrow>
      compar m loc (b + int (i * row_size (loc_t loc))) = Inr (s, if s = 0 then loc\<lparr>loc_result := i\<rparr> else loc)"
    and below: "column_sorted c n \<Longrightarrow> i \<le> j \<Longrightarrow> j < n \<Longrightarrow> sign c n v i < 0 \<Longrightarrow> sign c n v j < 0"
    and above: "column_sorted c n \<Longrightarrow> i \<le> j \<Longrightarrow> j < n \<Longrightarrow> sign c n v j > 0 \<Longrightarrow> sign c n v i > 0"
begin

lemma loop_finds:
  assumes t: "table_in m (loc_t loc) fs" "col_idx loc < length fs" "base (loc_t loc) = Some b"
    and c: "c = (\<lambda>i. field_at m (loc_t loc) fs i (col_idx loc))" "column_sorted c (rows (loc_t loc))"
    and lu: "u \<le> rows (loc_t loc)"
    and out: "\<And>i. i < rows (loc_t loc) \<Longrightarrow> sign c (rows (loc_t loc)) (idx loc) i = 0 \<Longrightarrow> l \<le> i \<and> i < u"
  shows "(\<exists>r < rows (loc_t loc). sign c (rows (loc_t loc)) (idx loc) r = 0 \<and>
      bsearch_loop (compar m) loc b (row_size (loc_t loc)) l u = Inr (True, loc\<lparr>loc_result := r\<rparr>)) \<or>
    (\<forall>i < rows (loc_t loc). sign c (rows (loc_t loc)) (idx loc) i \<noteq> 0) \<and>
      bsearch_loop (compar m) loc b (row_size (loc_t loc)) l u = Inr (False, loc)"
  using lu out
proof (induction "u - l" arbitrary: l u rule: less_induct)
  case less
  let ?n = "rows (loc_t loc)"
  let ?s = "\<lambda>i. sign c ?n (idx loc) i"
  show ?case
  proof (cases "l < u")
    case True
    let ?k = "(l + u) div 2"
    have k: "l \<le> ?k" "?k < u" "?k < ?n" using True less.prems(1) by auto
    have cmp: "compar m loc (b + int (?k * row_size (loc_t loc))) = Inr (?s ?k, if ?s ?k = 0 then loc\<lparr>loc_result := ?k\<rparr> else loc)"
      using compares [OF t(1,2) k(3) t(3) refl] c(1) by simp
    consider "?s ?k < 0" | "?s ?k > 0" | "?s ?k = 0" by linarith
    then show ?thesis
    proof cases
      case 1
      have "i < ?k" if "i < ?n" "?s i = 0" for i
        using below [OF c(2) _ that(1) 1] that(2) by (metis less_irrefl not_le)
      then have "\<And>i. i < ?n \<Longrightarrow> ?s i = 0 \<Longrightarrow> l \<le> i \<and> i < ?k" using less.prems(2) by blast
      then show ?thesis
        using less.hyps [of ?k l] k 1 cmp True less.prems(1) by (simp add: bsearch_loop.simps [of _ _ _ _ l u])
    next
      case 2
      have "?k < i" if "i < ?n" "?s i = 0" for i
        using above [OF c(2) _ k(3) 2, of i] that by (metis less_irrefl not_le)
      then have "\<And>i. i < ?n \<Longrightarrow> ?s i = 0 \<Longrightarrow> ?k + 1 \<le> i \<and> i < u" using less.prems(2) by fastforce
      then show ?thesis
        using less.hyps [of u "?k + 1"] k 2 cmp True less.prems(1) by (simp add: bsearch_loop.simps [of _ _ _ _ l u])
    next
      case 3
      then show ?thesis using k cmp True by (auto simp: bsearch_loop.simps [of _ _ _ _ l u])
    qed
  next
    case False
    then have "\<forall>i < ?n. ?s i \<noteq> 0" using less.prems(2) by fastforce
    then show ?thesis using False by (simp add: bsearch_loop.simps [of _ _ _ _ l u])
  qed
qed

text \<open>A search in a sorted column: some matching row goes on, or there is none.\<close>

lemma searched_ok:
  assumes "table_ok m t fs" "k < length fs" "column_sorted (\<lambda>i. field_at m t fs i k) (rows t)"
  shows "(\<exists>r < rows t. sign (\<lambda>i. field_at m t fs i k) (rows t) v r = 0 \<and> searched (compar m) t k v missing f = f r) \<or>
    (\<forall>i < rows t. sign (\<lambda>i. field_at m t fs i k) (rows t) v i \<noteq> 0) \<and> searched (compar m) t k v missing f = Inr missing"
proof (cases "base t = None")
  case True
  then have "rows t = 0" using assms(1) by (auto simp: table_ok_def table_in_def)
  then show ?thesis using True by (simp add: searched_def)
next
  case False
  then obtain b where b: "base t = Some b" by blast
  let ?loc = "locate_in t k v"
  have t: "table_in m (loc_t ?loc) fs" using assms(1) False by (auto simp: table_ok_def locate_in_def)
  have "col_idx ?loc < length fs" "base (loc_t ?loc) = Some b" "column_sorted (\<lambda>i. field_at m t fs i k) (rows (loc_t ?loc))"
    using assms b by (simp_all add: locate_in_def)
  from loop_finds [OF t this(1,2) _ this(3) order_refl, of 0] show ?thesis
    using b by (auto simp: searched_def bsearch_def locate_in_def)
qed

end

section \<open>The locators\<close>

definition table_sign :: "(nat \<Rightarrow> guint32) \<Rightarrow> nat \<Rightarrow> guint32 \<Rightarrow> nat \<Rightarrow> int" where
  "table_sign c n v i = (if v = c i then 0 else if v < c i then -1 else 1)"

definition owner_sign :: "(nat \<Rightarrow> guint32) \<Rightarrow> nat \<Rightarrow> guint32 \<Rightarrow> nat \<Rightarrow> int" where
  "owner_sign c n v i = (if v < c i then -1 else if i + 1 < n \<and> (c (i + 1) \<le> v \<or> c i = c (i + 1)) then 1 else 0)"

lemma not_nil: "k < length fs \<Longrightarrow> fs \<noteq> []"
  by auto

interpretation by_value: row_comparison table_locator table_sign
proof
  fix m and loc :: locator_t and fs i b s
  assume t: "table_in m (loc_t loc) fs" "col_idx loc < length fs" "i < rows (loc_t loc)" "base (loc_t loc) = Some b"
    and s: "s = table_sign (\<lambda>i. field_at m (loc_t loc) fs i (col_idx loc)) (rows (loc_t loc)) (idx loc) i"
  show "table_locator m loc (b + int (i * row_size (loc_t loc))) = Inr (s, if s = 0 then loc\<lparr>loc_result := i\<rparr> else loc)"
    unfolding table_locator_def located_row_ok [OF t(1) not_nil [OF t(2)] t(4)] bindr.simps decode_row_col_ok [OF t(1,3,2)]
    by (simp add: s table_sign_def)
next
  fix c n i j v
  assume "column_sorted c n" "i \<le> j" "j < n"
  then have c: "c i \<le> c j" by (rule column_sortedD)
  show "table_sign c n v i < 0 \<Longrightarrow> table_sign c n v j < 0" using c by (auto simp: table_sign_def split: if_splits)
  show "table_sign c n v j > 0 \<Longrightarrow> table_sign c n v i > 0" using c by (auto simp: table_sign_def split: if_splits)
qed

interpretation by_parent: row_comparison declsec_locator table_sign
proof -
  have "declsec_locator = table_locator" by (simp add: fun_eq_iff declsec_locator_def table_locator_def)
  then show "row_comparison declsec_locator table_sign" using by_value.row_comparison_axioms by simp
qed

interpretation by_owner: row_comparison typedef_locator owner_sign
proof
  fix m and loc :: locator_t and fs i b s
  assume t: "table_in m (loc_t loc) fs" "col_idx loc < length fs" "i < rows (loc_t loc)" "base (loc_t loc) = Some b"
    and s: "s = owner_sign (\<lambda>i. field_at m (loc_t loc) fs i (col_idx loc)) (rows (loc_t loc)) (idx loc) i"
  show "typedef_locator m loc (b + int (i * row_size (loc_t loc))) = Inr (s, if s = 0 then loc\<lparr>loc_result := i\<rparr> else loc)"
  proof (cases "i + 1 < rows (loc_t loc)")
    case True
    show ?thesis
      using True decode_row_col_ok [OF t(1) True t(2)]
      unfolding typedef_locator_def located_row_ok [OF t(1) not_nil [OF t(2)] t(4)] bindr.simps decode_row_col_ok [OF t(1,3,2)]
      by (auto simp: s owner_sign_def Let_def add.commute)
  next
    case False
    then show ?thesis
      unfolding typedef_locator_def located_row_ok [OF t(1) not_nil [OF t(2)] t(4)] bindr.simps decode_row_col_ok [OF t(1,3,2)]
      by (auto simp: s owner_sign_def Let_def)
  qed
next
  fix c n i j v
  assume c: "column_sorted c n" "i \<le> j" "j < n"
  show "owner_sign c n v i < 0 \<Longrightarrow> owner_sign c n v j < 0"
    using column_sortedD [OF c] by (auto simp: owner_sign_def split: if_splits)
  assume "owner_sign c n v j > 0"
  then have j: "\<not> v < c j" "j + 1 < n" "c (j + 1) \<le> v \<or> c j = c (j + 1)" by (auto simp: owner_sign_def split: if_splits)
  show "owner_sign c n v i > 0"
  proof (cases "i = j")
    case False
    then have "c (i + 1) \<le> c j" "c i \<le> c j" using c by (auto intro: column_sortedD)
    then show ?thesis using j(1) c False by (auto simp: owner_sign_def)
  qed (use \<open>owner_sign c n v j > 0\<close> in simp)
qed

section \<open>Walks\<close>

lemma rows_back_first:
  assumes "table_in m t fs" "k < length fs" "column_sorted (\<lambda>i. field_at m t fs i k) (rows t)"
    and "r < rows t" "field_at m t fs r k = v"
  shows "rows_back m t k v r = Inr (LEAST i. i < rows t \<and> field_at m t fs i k = v)"
  using assms(4,5)
proof (induction r)
  case 0
  then show ?case by (simp add: Least_equality)
next
  case (Suc r)
  then have r: "r < rows t" by simp
  show ?case
  proof (cases "field_at m t fs r k = v")
    case True
    then show ?thesis using Suc r decode_row_col_ok [OF assms(1) r assms(2)] by simp
  next
    case False
    have "(LEAST i. i < rows t \<and> field_at m t fs i k = v) = Suc r"
    proof (rule Least_equality)
      show "Suc r \<le> i" if i: "i < rows t \<and> field_at m t fs i k = v" for i
      proof (rule ccontr)
        assume "\<not> Suc r \<le> i"
        then have "i \<le> r" by simp
        then have "v \<le> field_at m t fs r k" "field_at m t fs r k \<le> v"
          using column_sortedD [OF assms(3), of i r] column_sortedD [OF assms(3), of r "Suc r"] i r Suc.prems by auto
        then show False using False by simp
      qed
    qed (use Suc.prems in simp)
    then show ?thesis using False Suc.prems r decode_row_col_ok [OF assms(1) r assms(2)] by simp
  qed
qed

lemma rows_on_end:
  assumes "table_in m t fs" "k < length fs" "column_sorted (\<lambda>i. field_at m t fs i k) (rows t)"
    and "s < rows t" "field_at m t fs s k = v" "s \<le> e" "e \<le> rows t" "\<forall>i < e. s \<le> i \<longrightarrow> field_at m t fs i k = v"
  shows "\<exists>e'. rows_on m t (length fs) k v e = Inr e' \<and> e \<le> e' \<and> e' \<le> rows t \<and>
    (\<forall>i < rows t. s \<le> i \<longrightarrow> (field_at m t fs i k = v \<longleftrightarrow> i < e'))"
  using assms(6-)
proof (induction "rows t - e" arbitrary: e)
  case 0
  then show ?case by (subst rows_on.simps) auto
next
  case (Suc d)
  then have e: "e < rows t" by simp
  have row: "mono_metadata_decode_row m t (int e) (length fs) = Inr (map (field_at m t fs e) [0..<length fs])"
    using decode_row_ok [OF assms(1) e] by simp
  show ?case
  proof (cases "field_at m t fs e k = v")
    case True
    have "\<exists>e'. rows_on m t (length fs) k v (Suc e) = Inr e' \<and> Suc e \<le> e' \<and> e' \<le> rows t \<and>
        (\<forall>i < rows t. s \<le> i \<longrightarrow> (field_at m t fs i k = v \<longleftrightarrow> i < e'))"
      using Suc.prems True e Suc.hyps(2) by (intro Suc.hyps(1)) (auto simp: less_Suc_eq)
    then show ?thesis using e row True assms(2) by (subst rows_on.simps) auto
  next
    case False
    have "field_at m t fs i k \<noteq> v" if "i < rows t" "e \<le> i" for i
    proof
      assume "field_at m t fs i k = v"
      then have "field_at m t fs e k \<le> v" "v \<le> field_at m t fs e k"
        using column_sortedD [OF assms(3) that(2,1)] column_sortedD [OF assms(3) Suc.prems(1) e] assms(5) by auto
      then show False using False by simp
    qed
    then have "\<forall>i < rows t. s \<le> i \<longrightarrow> (field_at m t fs i k = v \<longleftrightarrow> i < e)" using Suc.prems by (metis not_le)
    then show ?thesis using e row False assms(2) by (subst rows_on.simps) auto
  qed
qed

lemma ptr_table_loop_first:
  assumes "table_in m t fs" "0 < length fs" "k \<le> rows t" "\<forall>i < k. field_at m t fs i 0 \<noteq> v"
  shows "ptr_table_loop m t v k = Inr (if \<exists>i < rows t. field_at m t fs i 0 = v
    then (LEAST i. i < rows t \<and> field_at m t fs i 0 = v) else rows t)"
  using assms(3,4)
proof (induction "rows t - k" arbitrary: k)
  case 0
  then show ?case by (subst ptr_table_loop.simps) auto
next
  case (Suc d)
  then have k: "k < rows t" by simp
  show ?case
  proof (cases "field_at m t fs k 0 = v")
    case True
    have "(LEAST i. i < rows t \<and> field_at m t fs i 0 = v) = k"
      using True k Suc.prems by (intro Least_equality) (auto simp: not_le [symmetric])
    then show ?thesis using True k decode_row_col_ok [OF assms(1) k assms(2)] by (subst ptr_table_loop.simps) auto
  next
    case False
    have "ptr_table_loop m t v (Suc k) = Inr (if \<exists>i < rows t. field_at m t fs i 0 = v
        then (LEAST i. i < rows t \<and> field_at m t fs i 0 = v) else rows t)"
      using Suc False k by (intro Suc.hyps(1)) (auto simp: less_Suc_eq)
    then show ?thesis using False k decode_row_col_ok [OF assms(1) k assms(2)] by (subst ptr_table_loop.simps) simp
  qed
qed

end
