(* ===== verification/Meta_Tables_Spec.thy ===== *)
theory Meta_Tables_Spec
  imports Meta_Rows
begin

text \<open>
  What the physical layer promises: row sizes as in the standard, a standard stream loads to the rows
  it was written from, and compressed integers.
\<close>

section \<open>Sizes of rows and columns\<close>

lemma widths_cong:
  assumes "\<forall>t < 45. row_count d t = row_count e t" "string_wide d = string_wide e" "guid_wide d = guid_wide e"
    "blob_wide d = blob_wide e" "t < 45"
  shows "widths d t = widths e t"
proof -
  have "\<forall>cs \<in> set schemas. \<forall>c \<in> set cs. case c of Row_of t \<Rightarrow> t < 45 | Coded b ts \<Rightarrow> \<forall>t \<in> set ts. t < 45 | _ \<Rightarrow> True"
    by (simp add: schemas_def HasCustomAttribute_def)
  moreover have "schemas ! t \<in> set schemas" using assms(5) by (intro nth_mem) (simp add: schemas_def)
  ultimately have s: "\<forall>c \<in> set (schemas ! t). case c of Row_of t \<Rightarrow> t < 45 | Coded b ts \<Rightarrow> \<forall>t \<in> set ts. t < 45 | _ \<Rightarrow> True"
    by blast
  have "width d c = width e c" if "c \<in> set (schemas ! t)" for c
    using bspec [OF s that] assms(1-4) by (cases c) auto
  then show ?thesis by (simp add: widths_def)
qed

text \<open>The greatest value that a column may have to hold.\<close>

fun holds :: "dimensions \<Rightarrow> nat \<Rightarrow> column \<Rightarrow> bool" where
  "holds d n (Row_of t) = (\<forall>r \<le> row_count d t. row_count d t < 2 ^ 24 \<longrightarrow> r < 256 ^ n)"
| "holds d n (Coded b ts) =
    (\<forall>t \<in> set ts. \<forall>r \<le> row_count d t. row_count d t < 2 ^ 24 \<longrightarrow> (\<forall>tag < 2 ^ b. r * 2 ^ b + tag < 256 ^ n))"
| "holds d n c = True"

lemma coded_fits: "r < 2 ^ k \<Longrightarrow> tag < 2 ^ b \<Longrightarrow> r * 2 ^ b + tag < 2 ^ (k + b)" for r tag :: nat
proof -
  assume r: "r < 2 ^ k" "tag < 2 ^ b"
  have "r * 2 ^ b + tag < (r + 1) * 2 ^ b" using r by simp
  also have "\<dots> \<le> 2 ^ k * 2 ^ b" using r by (intro mult_le_mono1) simp
  finally show ?thesis by (simp add: power_add)
qed

lemma bits_small: "\<forall>cs \<in> set schemas. \<forall>c \<in> set cs. case c of Coded b ts \<Rightarrow> b \<le> 5 | _ \<Rightarrow> True"
  by (simp add: schemas_def)

lemma width_holds: "case c of Coded b ts \<Rightarrow> b \<le> 5 | _ \<Rightarrow> True \<Longrightarrow> holds d (width d c) c"
proof (cases c)
  case (Coded b ts)
  assume b: "case c of Coded b ts \<Rightarrow> b \<le> 5 | _ \<Rightarrow> True"
  have "r * 2 ^ b + tag < 256 ^ width d c"
    if t: "t \<in> set ts" "r \<le> row_count d t" "row_count d t < 2 ^ 24" "tag < 2 ^ b" for t r tag
  proof (cases "\<forall>t \<in> set ts. row_count d t < 2 ^ (16 - b)")
    case True
    then have "r < 2 ^ (16 - b)" using t by fastforce
    from coded_fits [OF this t(4)] show ?thesis using True b Coded by simp
  next
    case False
    have "r < 2 ^ 24" using t by simp
    from coded_fits [OF this t(4)] have "r * 2 ^ b + tag < 2 ^ (24 + b)" .
    also have "\<dots> \<le> 2 ^ 32" using b Coded by (intro power_increasing) auto
    finally show ?thesis using False Coded by auto
  qed
  then show ?thesis using Coded by auto
qed auto

text \<open>
  C18.  Row sizes.  When the generic parameters, their constraints and the method specifications
  have fewer than \<open>2^11\<close> rows, or another table that custom attributes can belong to has as many,
  \<open>mono_metadata_compute_size\<close> ends for every table without a failed assertion; the size is the sum of the
  sizes that the standard gives the columns, the bit-field gives back the number of columns and the
  size of each, the row size fits its eight bits, and each column is wide enough for every row number and
  tag it has to hold.  Without that condition the size can be wrong.
\<close>

theorem compute_size_standard:
  assumes "t < 45" "generic_tables_modest (dimensions_of meta)"
  shows "\<exists>sz bitfield. mono_metadata_compute_size meta t = Inr (sz, bitfield) \<and> sz < 2 ^ 8 \<and>
    sz = sum_list (map (width (dimensions_of meta)) (schemas ! t)) \<and>
    mono_metadata_table_count bitfield = length (schemas ! t) \<and>
    (\<forall>k < length (schemas ! t). mono_metadata_table_size bitfield k = width (dimensions_of meta) (schemas ! t ! k) \<and>
      holds (dimensions_of meta) (mono_metadata_table_size bitfield k) (schemas ! t ! k))"
proof -
  let ?d = "dimensions_of meta"
  obtain bf where bf: "mono_metadata_compute_size meta t = Inr (sum_list (widths ?d t), bf)" "describes bf (widths ?d t)"
    using compute_size_eq [OF assms] by blast
  have s: "schemas ! t \<in> set schemas" using assms(1) by (intro nth_mem) (simp add: schemas_def)
  have "holds ?d (width ?d (schemas ! t ! k)) (schemas ! t ! k)" if "k < length (schemas ! t)" for k
    using bits_small s that nth_mem by (blast intro: width_holds)
  then show ?thesis using bf sum_widths [OF assms(1), of ?d] by (auto simp: describes_def widths_def)
qed

text \<open>An image with given row counts and narrow heaps, for the examples.\<close>

definition image_with :: "(nat \<Rightarrow> nat) \<Rightarrow> MonoImage" where
  "image_with n = \<lparr>raw_data = [], uncompressed_metadata = False, idx_string_wide = False, idx_guid_wide = False,
     idx_blob_wide = False, heap_strings = \<lparr>heap_data = None, heap_size = 0\<rparr>, heap_us = \<lparr>heap_data = None, heap_size = 0\<rparr>,
     heap_blob = \<lparr>heap_data = None, heap_size = 0\<rparr>, heap_guid = \<lparr>heap_data = None, heap_size = 0\<rparr>,
     heap_tables = \<lparr>heap_data = None, heap_size = 0\<rparr>, tables_base = 0,
     tables = map (\<lambda>t. \<lparr>base = None, rows = n t, row_size = 0, size_bitfield = 0\<rparr>) [0..<45]\<rparr>"

lemma image_with_rows: "t < 45 \<Longrightarrow> table_rows (image_with n) t = n t"
  by (simp add: table_rows_def image_with_def)

theorem compute_size_standard_witness:
  "\<exists>bitfield. mono_metadata_compute_size (image_with (\<lambda>t. 7)) MONO_TABLE_CLASSLAYOUT = Inr (8, bitfield) \<and>
     mono_metadata_table_count bitfield = 3"
proof -
  have "generic_tables_modest (dimensions_of (image_with (\<lambda>t. 7)))"
    by (simp add: generic_tables_modest_def image_with_rows HasCustomAttribute_def)
  from compute_size_standard [OF _ this, of MONO_TABLE_CLASSLAYOUT] show ?thesis
    by (auto simp: schemas_def image_with_rows)
qed

text \<open>
  C19.  The index of a custom attribute's parent can be too narrow.  When the generic parameters, their
  constraints or the method specifications (tags 19 to 21) have \<open>2^11\<close> or more rows and the other tables that custom
  attributes can belong to have fewer, the code takes two bytes for the column where the standard has
  four, because it leaves these three tables out; the coded index of row \<open>2^11\<close> of such a table
  does not fit two bytes, and all rows of the custom attributes are read at the wrong places.
\<close>

theorem custom_attribute_parent_too_narrow:
  assumes "19 \<le> tag" "tag < 22" "table_rows meta (HasCustomAttribute ! tag) \<ge> 2 ^ 11"
    and "\<forall>t \<in> set (take 19 HasCustomAttribute). table_rows meta t < 2 ^ 11"
  shows "\<exists>sz bitfield. mono_metadata_compute_size meta MONO_TABLE_CUSTOMATTRIBUTE = Inr (sz, bitfield) \<and>
    mono_metadata_table_size bitfield 0 = 2 \<and> width (dimensions_of meta) (Coded 5 HasCustomAttribute) = 4 \<and>
    2 ^ 11 * 2 ^ 5 + tag \<ge> 256 ^ 2 \<and> sz < sum_list (widths (dimensions_of meta) MONO_TABLE_CUSTOMATTRIBUTE)"
proof -
  let ?d = "dimensions_of meta" and ?t = "MONO_TABLE_CUSTOMATTRIBUTE"
  define n1 where "n1 = width ?d (Coded 3 [MONO_TABLE_METHOD, MONO_TABLE_MEMBERREF])"
  define n2 where "n2 = width ?d Blob_index"
  have n: "1 \<le> n1 \<and> n1 \<le> 4" "1 \<le> n2 \<and> n2 \<le> 4" by (auto simp: n1_def n2_def)
  have c: "codes ?t = [MONO_MT_HASCAT_IDX, MONO_MT_CAT_IDX, MONO_MT_BLOB_IDX]"
    by (rule codes_custom_attribute)
  have f0: "field_size meta ?t 0 MONO_MT_HASCAT_IDX = Inr 2" unfolding field_size_HASCAT using assms(4) by simp
  have f1: "field_size meta ?t (Suc 0) MONO_MT_CAT_IDX = Inr n1" unfolding field_size.simps rtsize_max n1_def by simp
  have f2: "field_size meta ?t (Suc (Suc 0)) MONO_MT_BLOB_IDX = Inr n2" by (simp add: n2_def)
  have l: "list_all2 (\<lambda>(k, c) f. c \<noteq> MONO_MT_END \<and> field_size meta ?t k c = Inr f) (enumerate 0 (codes ?t)) [2, n1, n2]"
    by (simp add: c f0 f1 f2 del: field_size.simps)
  obtain todo where e: "drop (table_description ! ?t) TableSchemas = codes ?t @ MONO_MT_END # todo"
    by (rule exE [OF codes_then_end [of ?t]]) simp
  have s: "mono_metadata_compute_size meta ?t =
      Inr (sum_list [2, n1, n2], push_bit 24 (word_of_nat (length (codes ?t))) OR packed 0 0 [2, n1, n2])"
    unfolding mono_metadata_compute_size_def e using compute_size_loop_packed [OF l, of 0 todo 0 0] by simp
  have b: "mono_metadata_table_size (push_bit 24 (word_of_nat (length (codes ?t))) OR packed 0 0 [2, n1, n2]) 0 = 2"
    using size_of_packed [of "[2, n1, n2]" 0] n by (simp del: packed.simps)
  have w: "width ?d (Coded 5 HasCustomAttribute) = 4"
  proof -
    have "HasCustomAttribute ! tag \<in> set HasCustomAttribute"
      using assms(2) by (intro nth_mem) (simp add: HasCustomAttribute_def)
    moreover have "\<not> table_rows meta (HasCustomAttribute ! tag) < 2 ^ (16 - 5)" using assms(3) by simp
    ultimately show ?thesis unfolding width.simps dimensions_simps by metis
  qed
  have "widths ?d ?t = [4, n1, n2]"
    unfolding widths_def n1_def n2_def w [symmetric] by (simp add: schemas_def del: width.simps)
  then have less: "sum_list [2, n1, n2] < sum_list (widths ?d ?t)" by simp
  have big: "2 ^ 11 * 2 ^ 5 + tag \<ge> 256 ^ 2" by simp
  show ?thesis by (rule exI, rule exI, rule conjI [OF s], rule conjI [OF b], rule conjI [OF w], rule conjI [OF big less])
qed

theorem custom_attribute_parent_too_narrow_witness:
  "\<exists>sz bitfield. mono_metadata_compute_size (image_with (\<lambda>t. if t = 42 then 2048 else 3)) MONO_TABLE_CUSTOMATTRIBUTE =
     Inr (sz, bitfield) \<and> mono_metadata_table_size bitfield 0 = 2"
  using custom_attribute_parent_too_narrow [of 19 "image_with (\<lambda>t. if t = 42 then 2048 else 3)"]
  by (auto simp: image_with_rows HasCustomAttribute_def)

section \<open>Loading a stream of the standard\<close>

lemma read8_append: "p = int (length as) \<Longrightarrow> read8 (as @ b # bs) p = Inr b"
  by (simp add: read8_def nth_append)

lemma read64_append: "p = int (length as) \<Longrightarrow> 0 \<le> v \<Longrightarrow> v < 2 ^ 64 \<Longrightarrow>
    read64 (as @ le_bytes 8 v @ bs) p = Inr (word_of_int v)"
  by (simp add: read64_inside inside_def bytes_at_append le_value_le_bytes)

lemma read64_append_ok: "p = int (length as) \<Longrightarrow> \<exists>w. read64 (as @ le_bytes 8 v @ bs) p = Inr w"
  using read64_inside [of "as @ le_bytes 8 v @ bs" p] by (simp add: inside_def)

lemma heap_flags:
  fixes s g b :: bool
  defines "w \<equiv> (word_of_int (flag s 1 + flag g 2 + flag b 4) :: guint8)"
  shows "(w AND 1 = 1) = s" "(w AND 2 = 2) = g" "(w AND 4 = 4) = b"
  by (cases s; cases g; cases b; simp add: w_def flag_def)+

lemma present_64: "filter (\<lambda>t. t < 45 \<and> db t \<noteq> []) [0..<64] = present db"
proof -
  have "[0..<64::nat] = [0..<45] @ [45..<64]" using upt_add_eq_append [of 0 45 19] by simp
  moreover have "filter (\<lambda>t. t < 45 \<and> db t \<noteq> []) [45..<64] = []" by (simp add: filter_empty_conv)
  moreover have "filter (\<lambda>t. t < 45 \<and> db t \<noteq> []) [0..<45] = present db" unfolding present_def by (rule filter_cong) auto
  ultimately show ?thesis by simp
qed

lemma valid_tables_range: "0 \<le> valid_tables db \<and> valid_tables db < 2 ^ 64"
proof -
  have "valid_tables db = (\<Sum>t\<in>set (present db). 2 ^ t)"
    by (simp add: valid_tables_def sum_list_distinct_conv_sum_set present_def)
  also have "\<dots> \<le> (\<Sum>t\<in>{..<45}. 2 ^ t :: int)" by (rule sum_mono2) (auto simp: present_def)
  also have "\<dots> < 2 ^ 64" by (simp add: lessThan_nat_numeral)
  finally have "valid_tables db < 2 ^ 64" .
  moreover have "0 \<le> valid_tables db" unfolding valid_tables_def by (rule sum_list_nonneg) auto
  ultimately show ?thesis by simp
qed

lemma database_rows: "database_ok d db \<Longrightarrow> t < 45 \<Longrightarrow> \<forall>r \<in> set (db t). list_all2 value_fits (widths d t) r"
  by (simp add: database_ok_def)

lemma database_lengths: "database_ok d db \<Longrightarrow> t < 45 \<Longrightarrow> \<forall>r \<in> set (db t). length r = length (widths d t)"
  using database_rows by (metis list_all2_lengthD)

lemma length_tables_before:
  assumes "database_ok d db" "t \<le> 45"
  shows "length (concat (map (\<lambda>t. table_bytes (widths d t) (db t)) [0..<t])) = bytes_before d t"
  using assms(2)
proof (induction t)
  case (Suc t)
  then have t: "t < 45" by simp
  have "length (table_bytes (widths d t) (db t)) = length (db t) * sum_list (widths d t)"
    by (rule length_table_bytes [OF database_lengths [OF assms(1) t]])
  then show ?case using Suc assms(1) t by (simp add: bytes_before_Suc database_ok_def)
qed (simp add: bytes_before_def)

lemma tables_split:
  assumes "t < 45"
  shows "concat (map (\<lambda>t. table_bytes (widths d t) (db t)) [0..<45]) =
    concat (map (\<lambda>t. table_bytes (widths d t) (db t)) [0..<t]) @ table_bytes (widths d t) (db t) @
    concat (map (\<lambda>t. table_bytes (widths d t) (db t)) [Suc t..<45])"
proof -
  have "[0..<45] = [0..<t] @ t # [Suc t..<45]" 
    using upt_add_eq_append [of 0 t "45 - t"] assms by (simp add: upt_conv_Cons)
  then show ?thesis by simp
qed

lemma load_tables_counts:
  assumes m: "raw_data meta = xs @ tables_stream d smask db @ ys" and h: "heap_data (heap_tables meta) = Some (int (length xs))"
    and t: "length (tables meta) = 45" and db: "database_ok d db"
  shows "load_tables meta = mono_metadata_compute_table_bases (meta\<lparr>idx_string_wide := string_wide d,
    idx_guid_wide := guid_wide d, idx_blob_wide := blob_wide d,
    tables := map (\<lambda>t. (tables meta ! t)\<lparr>rows := length (db t)\<rparr>) [0..<45],
    tables_base := int (length (xs @ stream_header d smask db))\<rparr>)"
proof -
  let ?fl = "word_of_int (flag (string_wide d) 1 + flag (guid_wide d) 2 + flag (blob_wide d) 4) :: guint8"
  let ?counts = "concat (map (\<lambda>t. le_bytes 4 (int (length (db t)))) (present db))"
  let ?rest = "concat (map (\<lambda>t. table_bytes (widths d t) (db t)) [0..<45]) @ ys"
  let ?h = "int (length xs)"
  have r6: "read8 (raw_data meta) (?h + 6) = Inr ?fl"
    using read8_append [of "?h + 6" "xs @ le_bytes 4 0 @ [2, 0]" ?fl]
    unfolding m tables_stream_def stream_header_def by simp
  have r8: "read64 (raw_data meta) (?h + 8) = Inr (word_of_int (valid_tables db))"
    using read64_append [of "?h + 8" "xs @ le_bytes 4 0 @ [2, 0] @ [?fl, 1]" "valid_tables db"] valid_tables_range [of db]
    unfolding m tables_stream_def stream_header_def by simp
  obtain w where r16: "read64 (raw_data meta) (?h + 16) = Inr w"
    using read64_append_ok [of "?h + 16" "xs @ le_bytes 4 0 @ [2, 0] @ [?fl, 1] @ le_bytes 8 (valid_tables db)" smask]
    unfolding m tables_stream_def stream_header_def by auto
  have "row_counts_loop (raw_data meta) (word_of_int (valid_tables db)) [0..<64] (?h + 24) 0 (tables meta) =
      Inr (?h + 24 + 4 * int (length (present db)), 0 + length (present db),
        map (\<lambda>t. if t \<in> set [0..<64] then (tables meta ! t)\<lparr>rows := length (db t)\<rparr> else tables meta ! t) [0..<45])"
    unfolding present_64 [symmetric]
  proof (rule row_counts_loop_ok)
    show "\<And>t. t < 45 \<Longrightarrow> length (db t) < 2 ^ 24" using db by (simp add: database_ok_def)
    show "?h + 24 = int (length (xs @ le_bytes 4 0 @ [2, 0] @ [?fl, 1] @ le_bytes 8 (valid_tables db) @ le_bytes 8 smask))"
      by simp
    show "raw_data meta = (xs @ le_bytes 4 0 @ [2, 0] @ [?fl, 1] @ le_bytes 8 (valid_tables db) @ le_bytes 8 smask) @
        concat (map (\<lambda>t. le_bytes 4 (int (length (db t)))) (filter (\<lambda>t. t < 45 \<and> db t \<noteq> []) [0..<64])) @ ?rest"
      unfolding m tables_stream_def stream_header_def present_64 by simp
  qed (use t in auto)
  also have "map (\<lambda>t. if t \<in> set [0..<64] then (tables meta ! t)\<lparr>rows := length (db t)\<rparr> else tables meta ! t) [0..<45] =
      map (\<lambda>t. (tables meta ! t)\<lparr>rows := length (db t)\<rparr>) [0..<45]" by simp
  finally have rc: "row_counts_loop (raw_data meta) (word_of_int (valid_tables db)) [0..<64] (?h + 24) 0 (tables meta) =
      Inr (?h + 24 + 4 * int (length (present db)), length (present db),
        map (\<lambda>t. (tables meta ! t)\<lparr>rows := length (db t)\<rparr>) [0..<45])" by simp
  show ?thesis
    unfolding load_tables_def h option.case r6 r8 r16 rc bindr.simps prod.case Let_def heap_flags
    by (simp add: stream_header_length add.assoc)
qed

lemma load_stream:
  assumes m: "raw_data meta = xs @ tables_stream d smask db @ ys"
    and h: "heap_data (heap_tables meta) = Some (int (length xs))"
    and l: "length (tables meta) = 45" and db: "database_ok d db"
  shows "\<exists>meta'. load_tables meta = Inr meta' \<and> raw_data meta' = raw_data meta \<and>
    uncompressed_metadata meta' = uncompressed_metadata meta \<and> generic_tables_modest (dimensions_of meta') \<and>
    inside (raw_data meta') (tables_base meta') (bytes_before (dimensions_of meta') 45) \<and>
    (\<forall>t < 45. widths (dimensions_of meta') t = widths d t \<and> table_rows meta' t = length (db t) \<and>
      (db t = [] \<longrightarrow> tables meta' ! t = (tables meta ! t)\<lparr>rows := 0\<rparr>) \<and>
      (\<forall>i < length (db t). table_in (raw_data meta') (tables meta' ! t) (widths d t) \<and>
        (\<forall>k < length (schemas ! t). field_at (raw_data meta') (tables meta' ! t) (widths d t) i k = word_of_int (db t ! i ! k)) \<and>
        length (db t ! i) = length (schemas ! t)))"
proof -
  define infos where "infos = map (\<lambda>t. (tables meta ! t)\<lparr>rows := length (db t)\<rparr>) [0..<45]"
  define meta1 where "meta1 = meta\<lparr>idx_string_wide := string_wide d, idx_guid_wide := guid_wide d,
    idx_blob_wide := blob_wide d, tables := infos, tables_base := int (length (xs @ stream_header d smask db))\<rparr>"
  have load: "load_tables meta = mono_metadata_compute_table_bases meta1"
    unfolding meta1_def infos_def using load_tables_counts [OF assms] .
  have r: "table_rows meta1 t = length (db t)" if "t < 45" for t
    using that by (simp add: table_rows_def meta1_def infos_def)
  have w: "widths (dimensions_of meta1) t = widths d t" if "t < 45" for t
    using that r db by (intro widths_cong) (auto simp: meta1_def database_ok_def)
  have g: "generic_tables_modest (dimensions_of meta1)"
    using db r by (auto simp: database_ok_def generic_tables_modest_def HasCustomAttribute_def)
  have bb: "bytes_before (dimensions_of meta1) t = bytes_before d t" if "t \<le> 45" for t
    unfolding bytes_before_def using that w r db by (intro arg_cong [of _ _ sum_list] map_cong) (auto simp: database_ok_def)
  have "length (tables meta1) = 45" by (simp add: meta1_def infos_def)
  from compute_table_bases_ok [OF this g] obtain ts where
    ts: "mono_metadata_compute_table_bases meta1 = Inr (meta1\<lparr>tables := ts\<rparr>)" "length ts = 45" "\<forall>t < 45. placed meta1 t (ts ! t)"
    by blast
  have raw: "raw_data meta1 = xs @ tables_stream d smask db @ ys" using m by (simp add: meta1_def)
  have rows: "rows (ts ! t) = length (db t)" if "t < 45" for t using ts(3) r that by (simp add: placed_def)
  have dec: "table_in (raw_data meta1) (ts ! t) (widths d t) \<and>
      (\<forall>k < length (schemas ! t). field_at (raw_data meta1) (ts ! t) (widths d t) i k = word_of_int (db t ! i ! k)) \<and>
      length (db t ! i) = length (schemas ! t)"
    if t: "t < 45" and i: "i < length (db t)" for t i
  proof -
    let ?fs = "widths d t"
    let ?as = "xs @ stream_header d smask db @ concat (map (\<lambda>t. table_bytes (widths d t) (db t)) [0..<t])"
    let ?bs = "concat (map (\<lambda>t. table_bytes (widths d t) (db t)) [Suc t..<45]) @ ys"
    have "rows (ts ! t) \<noteq> 0" using rows [OF t] i by auto
    then have p: "base (ts ! t) = Some (int (length ?as))" "row_size (ts ! t) = sum_list ?fs" "describes (size_bitfield (ts ! t)) ?fs"
      using ts(3) t w bb [of t] length_tables_before [OF db, of t] by (auto simp: placed_def meta1_def)
    have e: "raw_data meta1 = ?as @ table_bytes ?fs (db t) @ ?bs"
      unfolding raw tables_stream_def using tables_split [OF t] by simp
    have lt: "length (table_bytes ?fs (db t)) = length (db t) * sum_list ?fs"
      by (rule length_table_bytes [OF database_lengths [OF db t]])
    have "inside (raw_data meta1) (int (length ?as)) (length (db t) * sum_list ?fs)"
      unfolding e inside_def using lt by simp
    then have "table_in (raw_data meta1) (ts ! t) ?fs"
      using p rows [OF t] widths_good [OF t] sum_widths [OF t] db t by (simp add: table_in_def database_ok_def)
    moreover have "field_at (raw_data meta1) (ts ! t) ?fs i k = word_of_int (db t ! i ! k)" if "k < length (schemas ! t)" for k
      unfolding e using p(1,2) database_rows [OF db t] widths_good [OF t] i that by (intro field_at_bytes) auto
    moreover have "length (db t ! i) = length (schemas ! t)" using database_lengths [OF db t] i by simp
    ultimately show ?thesis by blast
  qed
  have "table_rows (meta1\<lparr>tables := ts\<rparr>) t = table_rows meta1 t" if "t < 45" for t
    using that rows r by (simp add: table_rows_def)
  then have tr: "table_rows (meta1\<lparr>tables := ts\<rparr>) t = length (db t)" if "t < 45" for t using r that by simp
  have w': "widths (dimensions_of (meta1\<lparr>tables := ts\<rparr>)) t = widths d t" if "t < 45" for t
    using that tr db by (intro widths_cong) (auto simp: meta1_def database_ok_def)
  moreover have "generic_tables_modest (dimensions_of (meta1\<lparr>tables := ts\<rparr>))"
    using db tr by (auto simp: database_ok_def generic_tables_modest_def HasCustomAttribute_def)
  moreover have "inside (raw_data meta1) (tables_base meta1) (bytes_before (dimensions_of (meta1\<lparr>tables := ts\<rparr>)) 45)"
  proof -
    have "bytes_before (dimensions_of (meta1\<lparr>tables := ts\<rparr>)) 45 = bytes_before d 45"
      unfolding bytes_before_def using tr w' db by (intro arg_cong [of _ _ sum_list] map_cong) (auto simp: database_ok_def)
    then show ?thesis
      using length_tables_before [OF db, of 45] unfolding raw inside_def tables_stream_def by (simp add: meta1_def)
  qed
  moreover have "ts ! t = (tables meta ! t)\<lparr>rows := 0\<rparr>" if "t < 45" "db t = []" for t
    using ts(3) rows [OF that(1)] that by (auto simp: placed_def meta1_def infos_def)
  moreover have "raw_data meta1 = raw_data meta" "uncompressed_metadata meta1 = uncompressed_metadata meta" by (simp_all add: meta1_def)
  ultimately show ?thesis using load ts(1) rows dec by (intro exI [of _ "meta1\<lparr>tables := ts\<rparr>"]) (simp add: table_rows_def)
qed

text \<open>
  C16.  Loading inverts writing.  When an image holds, at the address of its tables heap, the tables
  stream that the standard prescribes for a database, \<open>load_tables\<close> succeeds, finds the number of
  rows of every table, and \<open>mono_metadata_decode_row\<close> and \<open>mono_metadata_decode_row_col\<close> give back every
  row and every column as written.  The database has fewer than \<open>2^24\<close> rows in each table and values
  below 128 in one-byte columns, which the code reads as signed characters, and it meets the
  condition \<open>generic_tables_modest\<close> on the tables that the code leaves out of the size of a
  custom attribute's parent.
\<close>

theorem load_tables_round_trip:
  assumes m: "raw_data meta = xs @ tables_stream d smask db @ ys"
    and h: "heap_data (heap_tables meta) = Some (int (length xs))"
    and l: "length (tables meta) = 45" and db: "database_ok d db"
  shows "\<exists>meta'. load_tables meta = Inr meta' \<and> raw_data meta' = raw_data meta \<and>
    (\<forall>t < 45. table_rows meta' t = length (db t) \<and> (\<forall>i < length (db t).
      mono_metadata_decode_row (raw_data meta') (tables meta' ! t) (int i) (length (schemas ! t)) =
        Inr (map word_of_int (db t ! i)) \<and>
      (\<forall>k < length (schemas ! t).
        mono_metadata_decode_row_col (raw_data meta') (tables meta' ! t) (int i) k = Inr (word_of_int (db t ! i ! k)))))"
proof -
  obtain meta' where m': "load_tables meta = Inr meta'" "raw_data meta' = raw_data meta"
    and t': "\<And>t. t < 45 \<Longrightarrow> table_rows meta' t = length (db t)"
    and i': "\<And>t i. t < 45 \<Longrightarrow> i < length (db t) \<Longrightarrow> table_in (raw_data meta') (tables meta' ! t) (widths d t) \<and>
        (\<forall>k < length (schemas ! t). field_at (raw_data meta') (tables meta' ! t) (widths d t) i k = word_of_int (db t ! i ! k)) \<and>
        length (db t ! i) = length (schemas ! t)"
    using load_stream [OF assms] by auto
  have "mono_metadata_decode_row (raw_data meta') (tables meta' ! t) (int i) (length (schemas ! t)) = Inr (map word_of_int (db t ! i)) \<and>
      (\<forall>k < length (schemas ! t). mono_metadata_decode_row_col (raw_data meta') (tables meta' ! t) (int i) k = Inr (word_of_int (db t ! i ! k)))"
    if t: "t < 45" and i: "i < length (db t)" for t i
  proof -
    have r: "i < rows (tables meta' ! t)" using t' t i by (simp add: table_rows_def)
    have "map (field_at (raw_data meta') (tables meta' ! t) (widths d t) i) [0..<length (schemas ! t)] = map word_of_int (db t ! i)"
      using i' [OF t i] by (auto intro: nth_equalityI)
    then show ?thesis
      using i' [OF t i] decode_row_ok [of "raw_data meta'" "tables meta' ! t" "widths d t" i "length (schemas ! t)"]
        decode_row_col_ok [of "raw_data meta'" "tables meta' ! t" "widths d t" i] r by simp
  qed
  then show ?thesis using m' t' by blast
qed

text \<open>A database of one class layout, after three bytes of other data.\<close>

definition layout_db :: database where
  "layout_db t = (if t = MONO_TABLE_CLASSLAYOUT then [[8, 300, 2]] else [])"

definition layout_dim :: dimensions where
  "layout_dim = \<lparr>row_count = \<lambda>t. length (layout_db t), string_wide = True, guid_wide = False, blob_wide = False\<rparr>"

definition layout_image :: MonoImage where
  "layout_image = (image_with (\<lambda>t. 0))\<lparr>raw_data := [9, 9, 9] @ tables_stream layout_dim 0 layout_db @ [],
     heap_tables := \<lparr>heap_data = Some 3, heap_size = 0\<rparr>\<rparr>"

theorem load_tables_round_trip_witness:
  "\<exists>meta'. load_tables layout_image = Inr meta' \<and>
     mono_metadata_decode_row (raw_data meta') (tables meta' ! MONO_TABLE_CLASSLAYOUT) 0 3 = Inr [8, 300, 2]"
proof -
  have w: "widths layout_dim MONO_TABLE_CLASSLAYOUT = [2, 4, 2]"
    by (simp add: widths_def schemas_def layout_dim_def layout_db_def)
  have db: "database_ok layout_dim layout_db"
    using w by (auto simp: database_ok_def layout_dim_def layout_db_def value_fits_def generic_tables_modest_def HasCustomAttribute_def)
  have "raw_data layout_image = [9, 9, 9] @ tables_stream layout_dim 0 layout_db @ []"
    "heap_data (heap_tables layout_image) = Some (int (length [9, 9, 9 :: guint8]))" "length (tables layout_image) = 45"
    by (simp_all add: layout_image_def image_with_def)
  from load_tables_round_trip [OF this db] obtain meta' where "load_tables layout_image = Inr meta'"
    and d: "\<And>t i. t < 45 \<Longrightarrow> i < length (layout_db t) \<Longrightarrow>
      mono_metadata_decode_row (raw_data meta') (tables meta' ! t) (int i) (length (schemas ! t)) = Inr (map word_of_int (layout_db t ! i))"
    by blast
  moreover have "mono_metadata_decode_row (raw_data meta') (tables meta' ! MONO_TABLE_CLASSLAYOUT) 0 3 = Inr [8, 300, 2]"
    using d [of MONO_TABLE_CLASSLAYOUT 0] by (simp add: layout_db_def schemas_def numeral_3_eq_3)
  ultimately show ?thesis by blast
qed

section \<open>Compressed integers\<close>

end
