(* ===== verification/Meta_Lookup_Spec.thy ===== *)
theory Meta_Lookup_Spec
  imports Meta_Lookup_Proofs Meta_Tables_Spec
begin

text \<open>
  What the lookups return, in terms of the cells of an image whose tables lie inside it: the owner
  of a field or method, first rows, ranges, and lists of rows.
\<close>

section \<open>Images and cells\<close>

definition meta_ok :: "MonoImage \<Rightarrow> bool" where
  "meta_ok meta \<longleftrightarrow> (\<forall>t < 45. table_ok (raw_data meta) (tables meta ! t) (widths (dimensions_of meta) t))"

definition cell :: "MonoImage \<Rightarrow> nat \<Rightarrow> nat \<Rightarrow> nat \<Rightarrow> guint32" where
  "cell meta t k i = field_at (raw_data meta) (tables meta ! t) (widths (dimensions_of meta) t) i k"

definition sorted_by :: "MonoImage \<Rightarrow> nat \<Rightarrow> nat \<Rightarrow> bool" where
  "sorted_by meta t k \<longleftrightarrow> column_sorted (cell meta t k) (table_rows meta t)"

lemma table_in_ok: "meta_ok meta \<Longrightarrow> t < 45 \<Longrightarrow> i < table_rows meta t \<Longrightarrow>
    table_in (raw_data meta) (tables meta ! t) (widths (dimensions_of meta) t)"
  by (auto simp: meta_ok_def table_ok_def table_rows_def)

lemma no_base_no_rows: "meta_ok meta \<Longrightarrow> t < 45 \<Longrightarrow> base (tables meta ! t) = None \<Longrightarrow> table_rows meta t = 0"
  unfolding meta_ok_def table_ok_def table_in_def table_rows_def by fastforce

lemma cell_decoded: "meta_ok meta \<Longrightarrow> t < 45 \<Longrightarrow> i < table_rows meta t \<Longrightarrow> k < length (schemas ! t) \<Longrightarrow>
    mono_metadata_decode_row_col (raw_data meta) (tables meta ! t) (int i) k = Inr (cell meta t k i)"
  using decode_row_col_ok [OF table_in_ok, of meta t i i k] by (simp add: cell_def table_rows_def)

lemma row_decoded: "meta_ok meta \<Longrightarrow> t < 45 \<Longrightarrow> i < table_rows meta t \<Longrightarrow> n = length (schemas ! t) \<Longrightarrow>
    mono_metadata_decode_row (raw_data meta) (tables meta ! t) (int i) n = Inr (map (\<lambda>k. cell meta t k i) [0..<n])"
  using decode_row_ok [OF table_in_ok, of meta t i i n] by (simp add: cell_def table_rows_def)

lemma row_counts_loop_keeps:
  assumes "row_counts_loop m vmask todo p v ts = Inr (p', v', ts')" "length ts = 45"
  shows "length ts' = 45 \<and> (\<forall>t < 45. base (ts' ! t) = base (ts ! t) \<and>
    (t \<in> set todo \<or> rows (ts ! t) < 2 ^ 24 \<longrightarrow> rows (ts' ! t) < 2 ^ 24))"
  using assms
proof (induction todo arbitrary: p v ts)
  case (Cons t todo)
  have last: "MONO_TABLE_LAST = 44" by (simp add: MONO_TABLE_LAST_def)
  have keep: "length (ts[t := (ts ! t)\<lparr>rows := n\<rparr>]) = 45 \<and>
      (\<forall>s < 45. base (ts[t := (ts ! t)\<lparr>rows := n\<rparr>] ! s) = base (ts ! s)) \<and>
      (\<forall>s < 45. rows (ts[t := (ts ! t)\<lparr>rows := n\<rparr>] ! s) = (if s = t then n else rows (ts ! s)))" for n
    using Cons.prems(2) by (cases "t < 45") (auto simp: nth_list_update list_update_beyond)
  consider "\<not> bit vmask t" "t > 44" | "\<not> bit vmask t" "t \<le> 44" | "bit vmask t" "t > 44" | "bit vmask t" "t \<le> 44" by linarith
  then show ?case
  proof cases
    case 1
    then show ?thesis using Cons.IH [of p v ts] Cons.prems by (auto simp: last)
  next
    case 2
    then have "row_counts_loop m vmask todo p v (ts[t := (ts ! t)\<lparr>rows := 0\<rparr>]) = Inr (p', v', ts')"
      using Cons.prems by (simp add: last)
    from Cons.IH [OF this] keep [of 0] show ?thesis by (auto split: if_splits)
  next
    case 3
    then show ?thesis using Cons.IH [of "p + 4" "v + 1" ts] Cons.prems by (auto simp: last)
  next
    case 4
    then have "\<exists>n :: guint32. row_counts_loop m vmask todo (p + 4) (v + 1) (ts[t := (ts ! t)\<lparr>rows := unat n mod 2 ^ 24\<rparr>]) = Inr (p', v', ts')"
      using Cons.prems by (auto simp: last)
    then obtain n :: guint32 where n: "row_counts_loop m vmask todo (p + 4) (v + 1) (ts[t := (ts ! t)\<lparr>rows := unat n mod 2 ^ 24\<rparr>]) = Inr (p', v', ts')"
      ..
    have "unat n mod 2 ^ 24 < 2 ^ 24" by simp
    with Cons.IH [OF n] keep [of "unat n mod 2 ^ 24"] show ?thesis by (auto split: if_splits)
  qed
qed simp

lemma table_bases_loop_keeps:
  assumes "table_bases_loop is b meta = Inr meta'" "\<forall>i \<in> set is. i < length (tables meta)"
  shows "dimensions_of meta' = dimensions_of meta \<and> raw_data meta' = raw_data meta \<and> tables_base meta' = tables_base meta"
  using assms
proof (induction "is" arbitrary: b meta)
  case (Cons i "is")
  show ?case
  proof (cases "table_rows meta i = 0")
    case True
    then show ?thesis using Cons by simp
  next
    case False
    then obtain sz bf where s: "table_bases_loop is (b + int (rows (tables meta ! i) * (sz mod 2 ^ 8)))
        (meta\<lparr>tables := (tables meta)[i := (tables meta ! i)\<lparr>row_size := sz mod 2 ^ 8, size_bitfield := bf, base := Some b\<rparr>]\<rparr>) = Inr meta'"
      using Cons.prems(1) by (auto simp: Let_def)
    let ?m = "meta\<lparr>tables := (tables meta)[i := (tables meta ! i)\<lparr>row_size := sz mod 2 ^ 8, size_bitfield := bf, base := Some b\<rparr>]\<rparr>"
    have "table_rows ?m = table_rows meta"
      using Cons.prems(2) by (auto simp: table_rows_def fun_eq_iff nth_list_update)
    then have "dimensions_of ?m = dimensions_of meta" by (simp add: dimensions_of_def)
    then show ?thesis using Cons.IH [OF s] Cons.prems(2) by simp
  qed
qed simp

lemma row_counts_loop_count: "row_counts_loop m vmask todo p v ts = Inr (p', v', ts') \<Longrightarrow> v' \<le> v + length todo"
proof (induction todo arbitrary: p v ts)
  case (Cons t todo)
  then show ?case by (fastforce split: if_splits dest!: Cons.IH)
qed simp

text \<open>
  A successful load: only the index widths, the tables and their base change, and every table
  is placed behind those before it.
\<close>

lemma load_tables_placed:
  assumes "load_tables meta = Inr meta'" "length (tables meta) = 45" "\<forall>t < 45. base (tables meta ! t) = None"
    and "generic_tables_modest (dimensions_of meta')"
  obtains ht v s g b us ts where "heap_data (heap_tables meta) = Some ht" "v \<le> 64"
    "meta' = meta\<lparr>idx_string_wide := s, idx_guid_wide := g, idx_blob_wide := b, tables := us, tables_base := ht + 24 + 4 * int v\<rparr>"
    "dimensions_of meta' = dimensions_of (meta'\<lparr>tables := ts\<rparr>)" "length us = 45"
    "\<forall>t < 45. base (ts ! t) = None \<and> rows (ts ! t) < 2 ^ 24 \<and> placed (meta'\<lparr>tables := ts\<rparr>) t (us ! t)"
proof -
  obtain ht vmask p v ts and fl :: guint8 where ht: "heap_data (heap_tables meta) = Some ht"
    and rc: "row_counts_loop (raw_data meta) vmask [0..<64] (ht + 24) 0 (tables meta) = Inr (p, v, ts)"
    and c: "mono_metadata_compute_table_bases (meta\<lparr>idx_string_wide := (fl AND 1 = 1), idx_guid_wide := (fl AND 2 = 2),
      idx_blob_wide := (fl AND 4 = 4), tables := ts, tables_base := ht + 24 + 4 * int v\<rparr>) = Inr meta'"
    using assms(1) by (auto simp: load_tables_def Let_def split: option.splits)
  define meta1 where "meta1 = meta\<lparr>idx_string_wide := (fl AND 1 = 1), idx_guid_wide := (fl AND 2 = 2),
      idx_blob_wide := (fl AND 4 = 4), tables := ts, tables_base := ht + 24 + 4 * int v\<rparr>"
  have ts: "length ts = 45" "\<forall>t < 45. base (ts ! t) = None" "\<forall>t < 45. rows (ts ! t) < 2 ^ 24"
    using row_counts_loop_keeps [OF rc assms(2)] assms(3) by auto
  have num: "MONO_TABLE_NUM = 45" by (simp add: MONO_TABLE_NUM_def MONO_TABLE_LAST_def)
  have keep: "dimensions_of meta' = dimensions_of meta1"
    using table_bases_loop_keeps [of "[0..<45]" "tables_base meta1" meta1 meta'] c ts(1)
    by (simp_all add: mono_metadata_compute_table_bases_def meta1_def num)
  obtain us where us: "mono_metadata_compute_table_bases meta1 = Inr (meta1\<lparr>tables := us\<rparr>)" "length us = 45" "\<forall>t < 45. placed meta1 t (us ! t)"
    using compute_table_bases_ok [of meta1] ts(1) assms(4) keep by (auto simp: meta1_def)
  then have m': "meta' = meta1\<lparr>tables := us\<rparr>" using c by (simp add: meta1_def)
  then have m1: "meta'\<lparr>tables := ts\<rparr> = meta1" by (simp add: meta1_def)
  have "v \<le> 64" using row_counts_loop_count [OF rc] by simp
  show ?thesis
    by (rule that [of ht v us "fl AND 4 = 4" "fl AND 2 = 2" "fl AND 1 = 1" ts], unfold m1)
      (use ht \<open>v \<le> 64\<close> ts us keep in \<open>simp_all add: m' meta1_def\<close>)
qed

text \<open>Tables that are placed one behind the other and end inside the image lie inside it.\<close>

lemma load_tables_meta_ok:
  assumes "load_tables meta = Inr meta'" "length (tables meta) = 45" "\<forall>t < 45. base (tables meta ! t) = None"
    and "generic_tables_modest (dimensions_of meta')"
    and "inside (raw_data meta) (tables_base meta') (bytes_before (dimensions_of meta') 45)"
  shows "meta_ok meta'"
proof -
  obtain s g bl ts us ht v where m': "meta' = meta\<lparr>idx_string_wide := s, idx_guid_wide := g, idx_blob_wide := bl, tables := us,
      tables_base := ht + 24 + 4 * int v\<rparr>"
    and d: "dimensions_of meta' = dimensions_of (meta'\<lparr>tables := ts\<rparr>)"
    and us: "\<forall>t < 45. base (ts ! t) = None \<and> rows (ts ! t) < 2 ^ 24 \<and> placed (meta'\<lparr>tables := ts\<rparr>) t (us ! t)"
    by (rule load_tables_placed [OF assms(1-4)])
  let ?d = "dimensions_of meta'" and ?m1 = "meta'\<lparr>tables := ts\<rparr>"
  have raw: "raw_data meta' = raw_data meta" by (subst m') simp
  have "table_ok (raw_data meta') (us ! t) (widths ?d t)" if t: "t < 45" for t
  proof (cases "rows (us ! t) = 0")
    case True
    then have "us ! t = ts ! t" using us t by (auto simp: placed_def)
    then show ?thesis using True us t by (simp add: table_ok_def)
  next
    case False
    have p: "rows (us ! t) = table_rows ?m1 t" "base (us ! t) = Some (tables_base meta' + int (bytes_before ?d t))"
      "row_size (us ! t) = sum_list (widths ?d t)" "describes (size_bitfield (us ! t)) (widths ?d t)"
      using us t False d by (auto simp: placed_def)
    have "bytes_before ?d (Suc t) \<le> bytes_before ?d 45"
    proof -
      have e: "[0..<45] = [0..<Suc t] @ [Suc t..<45]" using upt_add_eq_append [of 0 "Suc t" "44 - t"] t by simp
      show ?thesis unfolding bytes_before_def e by simp
    qed
    moreover have "row_count ?d t = rows (us ! t)" using p(1) d by simp
    ultimately have b: "bytes_before ?d t + rows (us ! t) * row_size (us ! t) \<le> bytes_before ?d 45"
      using p by (simp add: bytes_before_Suc)
    then have "int (bytes_before ?d t + rows (us ! t) * row_size (us ! t)) \<le> int (bytes_before ?d 45)" by (simp only: of_nat_le_iff)
    then have "inside (raw_data meta') (tables_base meta' + int (bytes_before ?d t)) (rows (us ! t) * row_size (us ! t))"
      using assms(5) raw by (simp add: inside_def)
    moreover have "rows (us ! t) < 2 ^ 24" using p(1) us t by (simp add: table_rows_def)
    ultimately have "table_in (raw_data meta') (us ! t) (widths ?d t)"
      using p widths_good [OF t] sum_widths [OF t] by (simp add: table_in_def)
    then show ?thesis by (simp add: table_ok_def)
  qed
  then show ?thesis unfolding m' by (simp add: meta_ok_def)
qed

text \<open>
  C17.  Loading gives a well-formed image.  When \<open>load_tables\<close> succeeds on an image whose tables were
  empty, the row counts meet the condition \<open>generic_tables_modest\<close> under which the code's column sizes are
  those of the standard, and the tables end inside the image, then every table is empty or lies
  inside the image with the column sizes of the standard; so every row of it can be decoded.
\<close>

theorem load_tables_wf:
  assumes "load_tables meta = Inr meta'" "length (tables meta) = 45" "\<forall>t < 45. base (tables meta ! t) = None"
    and "generic_tables_modest (dimensions_of meta')"
    and "inside (raw_data meta) (tables_base meta') (bytes_before (dimensions_of meta') 45)"
  shows "meta_ok meta' \<and> (\<forall>t < 45. \<forall>i < table_rows meta' t.
    is_ok (mono_metadata_decode_row (raw_data meta') (tables meta' ! t) (int i) (length (schemas ! t))))"
  using load_tables_meta_ok [OF assms] row_decoded by (simp add: is_ok_iff)

section \<open>The owner of a field or a method\<close>

text \<open>Where row \<open>i\<close> of a table is listed, through the table of pointers if there is one.\<close>

definition listed_at :: "MonoImage \<Rightarrow> nat \<Rightarrow> guint32 \<Rightarrow> guint32" where
  "listed_at meta pt i =
    (if uncompressed_metadata meta \<and> (\<exists>k < table_rows meta pt. cell meta pt 0 k = i)
     then of_nat ((LEAST k. k < table_rows meta pt \<and> cell meta pt 0 k = i) + 1) else i)"

lemma through_ptr_table_ok:
  assumes "meta_ok meta" "pt < 45" "0 < length (schemas ! pt)"
  shows "through_ptr_table meta pt i = Inr (listed_at meta pt i)"
proof (cases "table_rows meta pt = 0")
  case True
  then show ?thesis
    by (simp add: through_ptr_table_def search_ptr_table_def listed_at_def ptr_table_loop.simps table_rows_def)
next
  case False
  let ?P = "\<lambda>k. k < table_rows meta pt \<and> cell meta pt 0 k = i"
  have t: "table_in (raw_data meta) (tables meta ! pt) (widths (dimensions_of meta) pt)"
    using table_in_ok [OF assms(1,2), of 0] False by simp
  have "ptr_table_loop (raw_data meta) (tables meta ! pt) i 0 = Inr (if \<exists>k. ?P k then (LEAST k. ?P k) else table_rows meta pt)"
    using ptr_table_loop_first [OF t, of 0 i] assms(3) by (auto simp: cell_def table_rows_def)
  moreover have "?P (LEAST k. ?P k)" if "\<exists>k. ?P k" using that by (rule LeastI_ex)
  ultimately show ?thesis
    by (auto simp: through_ptr_table_def search_ptr_table_def listed_at_def)
qed

lemma owner_count:
  assumes "column_sorted c n" "r < n" "owner_sign c n v r = 0"
  shows "{i. i < n \<and> c i \<le> v} = {..r}"
proof -
  have r: "c r \<le> v" "r + 1 < n \<Longrightarrow> v < c (r + 1)" using assms(3) by (auto simp: owner_sign_def split: if_splits)
  have "i \<le> r" if "i < n" "c i \<le> v" for i
  proof (rule ccontr)
    assume "\<not> i \<le> r"
    then have "c (r + 1) \<le> c i" "r + 1 < n" using column_sortedD [OF assms(1), of "r + 1" i] that by auto
    then show False using r that by auto
  qed
  moreover have "c i \<le> v" if "i \<le> r" for i using column_sortedD [OF assms(1) that assms(2)] r by simp
  ultimately show ?thesis using assms(2) by auto
qed

lemma owner_missing:
  assumes "column_sorted c n" "\<forall>i < n. owner_sign c n v i \<noteq> 0"
  shows "{i. i < n \<and> c i \<le> v} = {}"
proof (rule ccontr)
  assume "{i. i < n \<and> c i \<le> v} \<noteq> {}"
  then have ne: "\<exists>i. i < n \<and> c i \<le> v" by auto
  define r where "r = (GREATEST i. i < n \<and> c i \<le> v)"
  have r: "r < n \<and> c r \<le> v" unfolding r_def by (rule GreatestI_ex_nat [OF ne, of n]) auto
  have "\<not> c (r + 1) \<le> v" if "r + 1 < n"
    using Greatest_le_nat [of "\<lambda>i. i < n \<and> c i \<le> v" "r + 1" n] that unfolding r_def by auto
  then have "owner_sign c n v r = 0" using r by (auto simp: owner_sign_def not_le)
  then show False using assms(2) r by simp
qed

lemma owner_found:
  assumes "meta_ok meta" "sorted_by meta MONO_TABLE_TYPEDEF k" "k < 6"
  shows "searched (typedef_locator (raw_data meta)) (tables meta ! MONO_TABLE_TYPEDEF) k v 0 (\<lambda>r. Inr (of_nat (r + 1))) =
    Inr (of_nat (card {i. i < table_rows meta MONO_TABLE_TYPEDEF \<and> cell meta MONO_TABLE_TYPEDEF k i \<le> v}) :: guint32)"
proof -
  let ?t = "tables meta ! MONO_TABLE_TYPEDEF" and ?fs = "widths (dimensions_of meta) MONO_TABLE_TYPEDEF"
  let ?c = "\<lambda>i. field_at (raw_data meta) ?t ?fs i k"
  have ok: "table_ok (raw_data meta) ?t ?fs" "k < length ?fs" "column_sorted ?c (rows ?t)"
    using assms by (auto simp: meta_ok_def sorted_by_def cell_def [abs_def] table_rows_def schemas_def)
  from by_owner.searched_ok [OF this, of v "0 :: guint32" "\<lambda>r. Inr (of_nat (r + 1))"] show ?thesis
  proof
    assume "\<exists>r < rows ?t. owner_sign ?c (rows ?t) v r = 0 \<and>
      searched (typedef_locator (raw_data meta)) ?t k v 0 (\<lambda>r. Inr (of_nat (r + 1))) = Inr (of_nat (r + 1) :: guint32)"
    then show ?thesis using owner_count [OF ok(3)] by (auto simp: cell_def table_rows_def)
  next
    assume "(\<forall>i < rows ?t. owner_sign ?c (rows ?t) v i \<noteq> 0) \<and>
      searched (typedef_locator (raw_data meta)) ?t k v 0 (\<lambda>r. Inr (of_nat (r + 1))) = Inr (0 :: guint32)"
    moreover from this have e: "{i. i < rows ?t \<and> ?c i \<le> v} = {}" using owner_missing [OF ok(3)] by blast
    ultimately show ?thesis unfolding cell_def table_rows_def e by simp
  qed
qed

text \<open>How many lists of members start at or before a member; an index behind the last member counts them all.\<close>

lemma typedef_from_member_count:
  assumes "meta_ok meta" "sorted_by meta MONO_TABLE_TYPEDEF MONO_TYPEDEF_METHOD_LIST"
    "sorted_by meta MONO_TABLE_TYPEDEF MONO_TYPEDEF_FIELD_LIST"
  shows "mono_metadata_typedef_from_method meta mtoken =
      Inr (of_nat (card {i. i < table_rows meta MONO_TABLE_TYPEDEF \<and>
        cell meta MONO_TABLE_TYPEDEF MONO_TYPEDEF_METHOD_LIST i
          \<le> listed_at meta MONO_TABLE_METHOD_POINTER (mono_metadata_token_index mtoken)})) \<and>
    mono_metadata_typedef_from_field meta ftoken =
      Inr (of_nat (card {i. i < table_rows meta MONO_TABLE_TYPEDEF \<and>
        cell meta MONO_TABLE_TYPEDEF MONO_TYPEDEF_FIELD_LIST i
          \<le> listed_at meta MONO_TABLE_FIELD_POINTER (mono_metadata_token_index ftoken)}))"
proof (cases "base (tables meta ! MONO_TABLE_TYPEDEF) = None")
  case True
  then have "table_rows meta MONO_TABLE_TYPEDEF = 0" using no_base_no_rows [OF assms(1)] by simp
  then show ?thesis using True
    by (simp add: mono_metadata_typedef_from_method_def mono_metadata_typedef_from_field_def)
next
  case False
  then obtain b where b: "base (tables meta ! MONO_TABLE_TYPEDEF) = Some b" by blast
  have l: "0 < length (schemas ! MONO_TABLE_METHOD_POINTER)" "0 < length (schemas ! MONO_TABLE_FIELD_POINTER)"
    by (simp_all add: schemas_def)
  show ?thesis
    using b owner_found [OF assms(1,2)] owner_found [OF assms(1,3)] through_ptr_table_ok [OF assms(1) _ l(1)]
      through_ptr_table_ok [OF assms(1) _ l(2)]
    by (simp add: mono_metadata_typedef_from_method_def mono_metadata_typedef_from_field_def Let_def)
qed

text \<open>
  The type in row \<open>r\<close> declares member \<open>v\<close> of the table \<open>mt\<close> when \<open>v\<close> is in its run of members, which
  ends before the run of the next type or, for the last type, with the table.
\<close>

definition declares :: "MonoImage \<Rightarrow> nat \<Rightarrow> nat \<Rightarrow> guint32 \<Rightarrow> nat \<Rightarrow> bool" where
  "declares meta col mt v r \<longleftrightarrow> (let n = table_rows meta MONO_TABLE_TYPEDEF in
     r < n \<and> cell meta MONO_TABLE_TYPEDEF col r \<le> v \<and>
     unat v < (if r + 1 < n then unat (cell meta MONO_TABLE_TYPEDEF col (r + 1)) else table_rows meta mt + 1))"

text \<open>The 1-based number of the one type that declares the member, or 0 when there is none.\<close>

definition names_declaring_type :: "MonoImage \<Rightarrow> nat \<Rightarrow> nat \<Rightarrow> guint32 \<Rightarrow> guint32 res \<Rightarrow> bool" where
  "names_declaring_type meta col mt v result \<longleftrightarrow>
    (\<exists>r. (\<forall>r'. declares meta col mt v r' \<longleftrightarrow> r' = r) \<and> result = Inr (of_nat (r + 1))) \<or>
    (\<forall>r. \<not> declares meta col mt v r) \<and> result = Inr 0"

lemma sorted_prefix:
  assumes "column_sorted c n"
  shows "{i. i < n \<and> c i \<le> v} = {..<card {i. i < n \<and> c i \<le> v}}"
proof -
  let ?A = "{i. i < n \<and> c i \<le> v}"
  have down: "i \<in> ?A" if "j \<in> ?A" "i \<le> j" for i j
    using that column_sortedD [OF assms, of i j] by auto
  have fin: "finite ?A" by simp
  have sub: "?A \<subseteq> {..<card ?A}"
  proof
    fix j assume "j \<in> ?A"
    then have "{..j} \<subseteq> ?A" using down by blast
    then have "card {..j} \<le> card ?A" by (rule card_mono [OF fin])
    then show "j \<in> {..<card ?A}" by simp
  qed
  show ?thesis by (rule card_subset_eq [OF _ sub]) simp_all
qed

lemma card_names_declaring_type:
  assumes "sorted_by meta MONO_TABLE_TYPEDEF col" "unat v \<le> table_rows meta mt"
  shows "names_declaring_type meta col mt v (Inr (of_nat (card {i. i < table_rows meta MONO_TABLE_TYPEDEF \<and>
    cell meta MONO_TABLE_TYPEDEF col i \<le> v})))"
proof -
  let ?c = "cell meta MONO_TABLE_TYPEDEF col" and ?n = "table_rows meta MONO_TABLE_TYPEDEF"
  define k where "k = card {i. i < ?n \<and> ?c i \<le> v}"
  have "{i. i < ?n \<and> ?c i \<le> v} = {..<k}"
    using sorted_prefix [of ?c ?n v] assms(1) by (simp add: sorted_by_def k_def)
  then have prefix: "i < ?n \<and> ?c i \<le> v \<longleftrightarrow> i < k" for i by blast
  have d: "declares meta col mt v r \<longleftrightarrow> r + 1 = k" for r
  proof
    assume "declares meta col mt v r"
    then have r: "r < k" "r + 1 < ?n \<longrightarrow> \<not> ?c (r + 1) \<le> v"
      using prefix [of r] by (auto simp: declares_def Let_def word_le_nat_alt)
    have "\<not> r + 1 < k"
    proof
      assume "r + 1 < k"
      then have "r + 1 < ?n \<and> ?c (r + 1) \<le> v" using prefix [of "r + 1"] by blast
      then show False using r(2) by blast
    qed
    then show "r + 1 = k" using r(1) by linarith
  next
    assume r: "r + 1 = k"
    then have "r < ?n \<and> ?c r \<le> v" using prefix [of r] by simp
    moreover have "\<not> ?c (r + 1) \<le> v" if "r + 1 < ?n" using prefix [of "r + 1"] that r by simp
    ultimately show "declares meta col mt v r" using assms(2) by (auto simp: declares_def Let_def word_le_nat_alt)
  qed
  show ?thesis
  proof (cases k)
    case 0
    then show ?thesis unfolding names_declaring_type_def k_def [symmetric] by (auto simp: d)
  next
    case (Suc r)
    then have "(\<forall>r'. declares meta col mt v r' \<longleftrightarrow> r' = r) \<and> Inr (of_nat k) = (Inr (of_nat (r + 1)) :: guint32 res)" by (auto simp: d)
    then show ?thesis unfolding names_declaring_type_def k_def [symmetric] by blast
  qed
qed

text \<open>
  C22.  The owner of a method or a field.  In an image whose \<open>TypeDef\<close> rows have ascending method and
  field lists, the lookup of an existing method or field gives the 1-based number of the one type that
  declares it, that is, whose run of members has it, and 0 when no type declares it.  In uncompressed
  metadata the row is first looked up in the table of pointers.
\<close>

theorem typedef_from_member_correct:
  assumes "meta_ok meta" "sorted_by meta MONO_TABLE_TYPEDEF MONO_TYPEDEF_METHOD_LIST"
    "sorted_by meta MONO_TABLE_TYPEDEF MONO_TYPEDEF_FIELD_LIST"
    and "m = listed_at meta MONO_TABLE_METHOD_POINTER (mono_metadata_token_index mtoken)" "unat m \<le> table_rows meta MONO_TABLE_METHOD"
    and "f = listed_at meta MONO_TABLE_FIELD_POINTER (mono_metadata_token_index ftoken)" "unat f \<le> table_rows meta MONO_TABLE_FIELD"
  shows "names_declaring_type meta MONO_TYPEDEF_METHOD_LIST MONO_TABLE_METHOD m (mono_metadata_typedef_from_method meta mtoken) \<and>
    names_declaring_type meta MONO_TYPEDEF_FIELD_LIST MONO_TABLE_FIELD f (mono_metadata_typedef_from_field meta ftoken)"
  using card_names_declaring_type [OF assms(2,5)] card_names_declaring_type [OF assms(3,7)]
    typedef_from_member_count [OF assms(1-3), of mtoken ftoken] assms(4,6) by simp

section \<open>Images made from a database\<close>

definition image_of :: "dimensions \<Rightarrow> database \<Rightarrow> MonoImage" where
  "image_of d db = (image_with (\<lambda>t. 0))\<lparr>raw_data := tables_stream d 0 db,
     heap_tables := \<lparr>heap_data = Some 0, heap_size = 0\<rparr>\<rparr>"

lemma stream_loads:
  assumes m: "raw_data im = xs @ tables_stream d smask db @ ys"
    and h: "heap_data (heap_tables im) = Some (int (length xs))"
    and l: "length (tables im) = 45" "\<forall>t < 45. base (tables im ! t) = None" and db: "database_ok d db"
  shows "\<exists>meta. load_tables im = Inr meta \<and> meta_ok meta \<and> uncompressed_metadata meta = uncompressed_metadata im \<and>
    generic_tables_modest (dimensions_of meta) \<and> inside (raw_data meta) (tables_base meta) (bytes_before d 45) \<and>
    (\<forall>t < 45. table_rows meta t = length (db t) \<and> (db t \<noteq> [] \<longrightarrow> row_size (tables meta ! t) = sum_list (widths d t)) \<and>
      (\<forall>i < length (db t). \<forall>k < length (schemas ! t). cell meta t k i = word_of_int (db t ! i ! k)))"
proof -
  obtain meta where m: "load_tables im = Inr meta" "uncompressed_metadata meta = uncompressed_metadata im"
      "generic_tables_modest (dimensions_of meta)" "inside (raw_data meta) (tables_base meta) (bytes_before (dimensions_of meta) 45)"
    and t: "\<And>t. t < 45 \<Longrightarrow> widths (dimensions_of meta) t = widths d t \<and> table_rows meta t = length (db t)"
    and e: "\<And>t. t < 45 \<Longrightarrow> db t = [] \<Longrightarrow> tables meta ! t = (tables im ! t)\<lparr>rows := 0\<rparr>"
    and i: "\<And>t i. t < 45 \<Longrightarrow> i < length (db t) \<Longrightarrow> table_in (raw_data meta) (tables meta ! t) (widths d t) \<and>
        (\<forall>k < length (schemas ! t). field_at (raw_data meta) (tables meta ! t) (widths d t) i k = word_of_int (db t ! i ! k))"
    using load_stream [OF m h l(1) db] by auto
  have "table_ok (raw_data meta) (tables meta ! t) (widths (dimensions_of meta) t)" if "t < 45" for t
  proof (cases "db t = []")
    case True
    then show ?thesis using e [OF that] that l(2) by (simp add: table_ok_def)
  next
    case False
    then show ?thesis using i [OF that, of 0] t [OF that] by (simp add: table_ok_def)
  qed
  then have "meta_ok meta" by (simp add: meta_ok_def)
  moreover have "row_size (tables meta ! t) = sum_list (widths d t)" if "t < 45" "db t \<noteq> []" for t
    using i [OF that(1), of 0] that(2) by (simp add: table_in_def)
  moreover have "bytes_before (dimensions_of meta) 45 = bytes_before d 45"
    unfolding bytes_before_def using t db by (intro arg_cong [of _ _ sum_list] map_cong) (auto simp: database_ok_def)
  ultimately show ?thesis using m t i by (intro exI [of _ meta]) (simp add: cell_def)
qed

lemma image_of_loads:
  assumes "database_ok d db"
  shows "\<exists>meta. load_tables (image_of d db) = Inr meta \<and> meta_ok meta \<and> \<not> uncompressed_metadata meta \<and>
    (\<forall>t < 45. table_rows meta t = length (db t) \<and>
      (\<forall>i < length (db t). \<forall>k < length (schemas ! t). cell meta t k i = word_of_int (db t ! i ! k)))"
  using stream_loads [of "image_of d db" "[]" d 0 db "[]"] assms by (fastforce simp: image_of_def image_with_def)

text \<open>The dimensions of a database with narrow heaps.\<close>

definition narrow :: "database \<Rightarrow> dimensions" where
  "narrow db = \<lparr>row_count = \<lambda>t. length (db t), string_wide = False, guid_wide = False, blob_wide = False\<rparr>"

text \<open>
  Three types with four methods: the first type has none, the second the first two, the third the
  others; a nested type, custom attributes, an event with three accessors and interfaces.
\<close>

definition sample_db :: database where
  "sample_db t =
    (if t = MONO_TABLE_TYPEDEF then [[0, 1, 0, 0, 1, 1], [0, 7, 0, 0, 1, 1], [0, 13, 0, 0, 2, 3]]
     else if t = MONO_TABLE_FIELD then [[0, 1, 1], [0, 2, 1]]
     else if t = MONO_TABLE_METHOD then [[0, 0, 0, 1, 1, 1], [0, 0, 0, 2, 1, 1], [0, 0, 0, 3, 1, 1], [0, 0, 0, 4, 1, 1]]
     else if t = MONO_TABLE_INTERFACEIMPL then [[2, 5], [3, 9], [3, 13]]
     else if t = MONO_TABLE_CUSTOMATTRIBUTE then [[32, 10, 1], [96, 10, 1], [96, 18, 1], [128, 10, 1]]
     else if t = MONO_TABLE_METHODSEMANTICS then [[8, 1, 2], [16, 2, 2], [1, 3, 5]]
     else if t = MONO_TABLE_NESTEDCLASS then [[3, 2]]
     else [])"

lemma sample_ok: "database_ok (narrow sample_db) sample_db"
  unfolding database_ok_def
proof (intro conjI allI impI)
  fix t :: nat
  have w: "widths (narrow sample_db) MONO_TABLE_TYPEDEF = [4, 2, 2, 2, 2, 2]" "widths (narrow sample_db) MONO_TABLE_FIELD = [2, 2, 2]"
    "widths (narrow sample_db) MONO_TABLE_METHOD = [4, 2, 2, 2, 2, 2]" "widths (narrow sample_db) MONO_TABLE_INTERFACEIMPL = [2, 2]"
    "widths (narrow sample_db) MONO_TABLE_CUSTOMATTRIBUTE = [2, 2, 2]" "widths (narrow sample_db) MONO_TABLE_METHODSEMANTICS = [2, 2, 2]"
    "widths (narrow sample_db) MONO_TABLE_NESTEDCLASS = [2, 2]"
    by (simp_all add: widths_def schemas_def narrow_def sample_db_def HasCustomAttribute_def)
  show "row_count (narrow sample_db) t = length (sample_db t)" by (simp add: narrow_def)
  show "length (sample_db t) < 2 ^ 24" by (simp add: sample_db_def)
  show "\<forall>r \<in> set (sample_db t). list_all2 value_fits (widths (narrow sample_db) t) r"
    using w by (auto simp: sample_db_def value_fits_def)
  show "generic_tables_modest (narrow sample_db)" by (simp add: generic_tables_modest_def narrow_def sample_db_def HasCustomAttribute_def)
qed

definition sample :: MonoImage where
  "sample = (case load_tables (image_of (narrow sample_db) sample_db) of Inr meta \<Rightarrow> meta | Inl e \<Rightarrow> image_with (\<lambda>t. 0))"

lemma sample:
  "meta_ok sample" "\<not> uncompressed_metadata sample"
  "t < 45 \<Longrightarrow> table_rows sample t = length (sample_db t)"
  "t < 45 \<Longrightarrow> i < length (sample_db t) \<Longrightarrow> k < length (schemas ! t) \<Longrightarrow> cell sample t k i = word_of_int (sample_db t ! i ! k)"
  using image_of_loads [OF sample_ok] by (auto simp: sample_def)

lemma less_numerals: "i < 2 \<longleftrightarrow> i = 0 \<or> i = 1" "i < 3 \<longleftrightarrow> i = 0 \<or> i = 1 \<or> i = 2" "i < 4 \<longleftrightarrow> i = 0 \<or> i = 1 \<or> i = 2 \<or> i = (3 :: nat)" for i :: nat
  by auto

lemma column_sorted_steps:
  assumes "\<And>i. Suc i < n \<Longrightarrow> c i \<le> c (Suc i)"
  shows "column_sorted c n"
proof -
  have "i \<le> j \<Longrightarrow> j < n \<Longrightarrow> c i \<le> c j" for i j
  proof (induction j)
    case (Suc j)
    then show ?case using assms [of j] by (cases "i = Suc j") auto
  qed simp
  then show ?thesis by (simp add: column_sorted_def)
qed

lemma sample_cells:
  "i < 3 \<Longrightarrow> cell sample MONO_TABLE_TYPEDEF MONO_TYPEDEF_METHOD_LIST i = [1, 1, 3] ! i"
  "i < 3 \<Longrightarrow> cell sample MONO_TABLE_TYPEDEF MONO_TYPEDEF_FIELD_LIST i = [1, 1, 2] ! i"
  "i < 4 \<Longrightarrow> cell sample MONO_TABLE_CUSTOMATTRIBUTE MONO_CUSTOM_ATTR_PARENT i = [32, 96, 96, 128] ! i"
  "i < 3 \<Longrightarrow> cell sample MONO_TABLE_METHODSEMANTICS MONO_METHOD_SEMA_ASSOCIATION i = [2, 2, 5] ! i"
  "i < 3 \<Longrightarrow> cell sample MONO_TABLE_INTERFACEIMPL MONO_INTERFACEIMPL_CLASS i = [2, 3, 3] ! i"
  "i < 3 \<Longrightarrow> cell sample MONO_TABLE_INTERFACEIMPL MONO_INTERFACEIMPL_INTERFACE i = [5, 9, 13] ! i"
  "cell sample MONO_TABLE_NESTEDCLASS 0 0 = 3" "cell sample MONO_TABLE_NESTEDCLASS 1 0 = 2"
  by (auto simp: sample(4) sample_db_def schemas_def less_numerals)

lemma sample_rows: "table_rows sample MONO_TABLE_TYPEDEF = 3" "table_rows sample MONO_TABLE_CUSTOMATTRIBUTE = 4"
  "table_rows sample MONO_TABLE_METHODSEMANTICS = 3" "table_rows sample MONO_TABLE_INTERFACEIMPL = 3"
  "table_rows sample MONO_TABLE_NESTEDCLASS = 1"
  by (simp_all add: sample(3) sample_db_def)

theorem typedef_from_member_correct_witness:
  "mono_metadata_typedef_from_method sample 0x06000002 = Inr 2 \<and> mono_metadata_typedef_from_field sample 0x04000002 = Inr 3"
proof -
  have s: "sorted_by sample MONO_TABLE_TYPEDEF MONO_TYPEDEF_METHOD_LIST" "sorted_by sample MONO_TABLE_TYPEDEF MONO_TYPEDEF_FIELD_LIST"
    unfolding sorted_by_def sample_rows by (rule column_sorted_steps; auto simp: numeral_3_eq_3 less_Suc_eq sample_cells)+
  have l: "listed_at sample pt (mono_metadata_token_index 0x06000002) = 2" "listed_at sample pt (mono_metadata_token_index 0x04000002) = 2" for pt
    by (simp_all add: listed_at_def sample(2) mono_metadata_token_index_def)
  have n: "table_rows sample MONO_TABLE_METHOD = 4" "table_rows sample MONO_TABLE_FIELD = 2" by (simp_all add: sample(3) sample_db_def)
  have "declares sample MONO_TYPEDEF_METHOD_LIST MONO_TABLE_METHOD 2 1" "declares sample MONO_TYPEDEF_FIELD_LIST MONO_TABLE_FIELD 2 2"
    by (simp_all add: declares_def sample_rows sample_cells n)
  moreover note typedef_from_member_correct [OF sample(1) s l(1) [symmetric] _ l(2) [symmetric]]
  ultimately show ?thesis unfolding names_declaring_type_def n by fastforce
qed


section \<open>First rows and ranges\<close>

text \<open>The first row with a given value, and a search by value that walks back to it.\<close>

definition first_row :: "MonoImage \<Rightarrow> nat \<Rightarrow> nat \<Rightarrow> guint32 \<Rightarrow> nat option" where
  "first_row meta t k v =
    (if \<exists>i < table_rows meta t. cell meta t k i = v
     then Some (LEAST i. i < table_rows meta t \<and> cell meta t k i = v) else None)"

lemma first_rowD:
  assumes "first_row meta t k v = Some s"
  shows "s < table_rows meta t" "cell meta t k s = v" "i < s \<Longrightarrow> cell meta t k i \<noteq> v"
proof -
  let ?P = "\<lambda>i. i < table_rows meta t \<and> cell meta t k i = v"
  have e: "\<exists>i. ?P i" and s: "s = (LEAST i. ?P i)" using assms by (auto simp: first_row_def split: if_splits)
  show "s < table_rows meta t" "cell meta t k s = v" using LeastI_ex [OF e] s by auto
  show "cell meta t k i \<noteq> v" if "i < s"
    using not_less_Least [of i ?P] that s \<open>s < table_rows meta t\<close> by auto
qed

lemma first_row_none: "first_row meta t k v = None \<longleftrightarrow> (\<forall>i < table_rows meta t. cell meta t k i \<noteq> v)"
  by (auto simp: first_row_def)

definition by_value_search :: "(guint8 list \<Rightarrow> locator_t \<Rightarrow> int \<Rightarrow> (int \<times> locator_t) res) \<Rightarrow> bool" where
  "by_value_search compar \<longleftrightarrow> compar = table_locator \<or> compar = declsec_locator"

lemma search_first:
  assumes "meta_ok meta" "t < 45" "k < length (schemas ! t)" "sorted_by meta t k" "by_value_search compar"
  shows "searched (compar (raw_data meta)) (tables meta ! t) k v missing
      (\<lambda>r. bindr (rows_back (raw_data meta) (tables meta ! t) k v r) f) =
    (case first_row meta t k v of None \<Rightarrow> Inr missing | Some s \<Rightarrow> f s)"
proof -
  let ?t = "tables meta ! t" and ?fs = "widths (dimensions_of meta) t"
  have ok: "table_ok (raw_data meta) ?t ?fs" "k < length ?fs" "column_sorted (\<lambda>i. field_at (raw_data meta) ?t ?fs i k) (rows ?t)"
    using assms by (auto simp: meta_ok_def sorted_by_def cell_def [abs_def] table_rows_def)
  have c: "cell meta t k i = field_at (raw_data meta) ?t ?fs i k" for i by (simp add: cell_def)
  let ?f = "\<lambda>r. bindr (rows_back (raw_data meta) ?t k v r) f"
  have "(\<exists>r < rows ?t. cell meta t k r = v \<and> searched (compar (raw_data meta)) ?t k v missing ?f = ?f r) \<or>
      (\<forall>i < rows ?t. cell meta t k i \<noteq> v) \<and> searched (compar (raw_data meta)) ?t k v missing ?f = Inr missing"
    using assms(5) by_value.searched_ok [OF ok, of v missing ?f] by_parent.searched_ok [OF ok, of v missing ?f]
    by (auto simp: by_value_search_def table_sign_def c split: if_splits)
  then show ?thesis
  proof (elim disjE exE conjE)
    fix r assume r: "r < rows ?t" "cell meta t k r = v" and e: "searched (compar (raw_data meta)) ?t k v missing ?f = ?f r"
    have "table_in (raw_data meta) ?t ?fs" using table_in_ok [OF assms(1,2)] r(1) by (auto simp: table_rows_def)
    from rows_back_first [OF this ok(2,3) r(1)] r(2)
    have "rows_back (raw_data meta) ?t k v r = Inr (LEAST i. i < table_rows meta t \<and> cell meta t k i = v)"
      by (simp add: c table_rows_def)
    moreover have "first_row meta t k v = Some (LEAST i. i < table_rows meta t \<and> cell meta t k i = v)"
      using r by (auto simp: first_row_def table_rows_def)
    ultimately show ?thesis using e by simp
  next
    assume "\<forall>i < rows ?t. cell meta t k i \<noteq> v" "searched (compar (raw_data meta)) ?t k v missing ?f = Inr missing"
    moreover from this(1) have "first_row meta t k v = None" by (simp add: first_row_none table_rows_def)
    ultimately show ?thesis by simp
  qed
qed

text \<open>
  C23.  The first row.  In tables sorted by their parent column, the custom attributes of an index
  start at the first row with that parent, counted from 1, and 0 means that there is none; the
  security declarations start at the first row counted from 0, and -1 means none; and a type or
  method is generic exactly when some row of the generic parameters names it.
\<close>

theorem first_rows_correct:
  assumes "meta_ok meta" "sorted_by meta MONO_TABLE_CUSTOMATTRIBUTE MONO_CUSTOM_ATTR_PARENT"
    "sorted_by meta MONO_TABLE_DECLSECURITY MONO_DECL_SECURITY_PARENT"
    "sorted_by meta MONO_TABLE_GENERICPARAM MONO_GENERICPARAM_OWNER"
    "mono_metadata_token_table token = of_nat (if is_method then MONO_TABLE_METHOD else MONO_TABLE_TYPEDEF)"
  shows "mono_metadata_custom_attrs_from_index meta index =
      Inr (case first_row meta MONO_TABLE_CUSTOMATTRIBUTE MONO_CUSTOM_ATTR_PARENT index of
        None \<Rightarrow> 0 | Some s \<Rightarrow> of_nat (s + 1)) \<and>
    mono_metadata_declsec_from_index meta index =
      Inr (case first_row meta MONO_TABLE_DECLSECURITY MONO_DECL_SECURITY_PARENT index of
        None \<Rightarrow> -1 | Some s \<Rightarrow> of_nat s) \<and>
    bindr (mono_metadata_get_generic_param_row meta token) (\<lambda>(row, owner). Inr row) =
      Inr (case first_row meta MONO_TABLE_GENERICPARAM MONO_GENERICPARAM_OWNER
          ((if is_method then 1 else 0) OR push_bit 1 (mono_metadata_token_index token)) of
        None \<Rightarrow> 0 | Some s \<Rightarrow> of_nat (s + 1))"
proof (intro conjI)
  have l: "MONO_CUSTOM_ATTR_PARENT < length (schemas ! MONO_TABLE_CUSTOMATTRIBUTE)"
    "MONO_DECL_SECURITY_PARENT < length (schemas ! MONO_TABLE_DECLSECURITY)"
    "MONO_GENERICPARAM_OWNER < length (schemas ! MONO_TABLE_GENERICPARAM)"
    by (simp_all add: schemas_def)
  have b: "by_value_search table_locator" "by_value_search declsec_locator" by (simp_all add: by_value_search_def)
  show "mono_metadata_custom_attrs_from_index meta index =
      Inr (case first_row meta MONO_TABLE_CUSTOMATTRIBUTE MONO_CUSTOM_ATTR_PARENT index of None \<Rightarrow> 0 | Some s \<Rightarrow> of_nat (s + 1))"
    using search_first [OF assms(1) _ l(1) assms(2) b(1), of index 0 "\<lambda>k. Inr (of_nat (k + 1))"]
    by (simp add: mono_metadata_custom_attrs_from_index_def Let_def split: option.splits)
  show "mono_metadata_declsec_from_index meta index =
      Inr (case first_row meta MONO_TABLE_DECLSECURITY MONO_DECL_SECURITY_PARENT index of None \<Rightarrow> -1 | Some s \<Rightarrow> of_nat s)"
    using search_first [OF assms(1) _ l(2) assms(3) b(2), of index "-1" "\<lambda>k. Inr (of_nat k)"]
    by (simp add: mono_metadata_declsec_from_index_def Let_def split: option.splits)
  let ?owner = "(if is_method then 1 else 0) OR push_bit 1 (mono_metadata_token_index token)"
  show "bindr (mono_metadata_get_generic_param_row meta token) (\<lambda>(row, owner). Inr row) =
      Inr (case first_row meta MONO_TABLE_GENERICPARAM MONO_GENERICPARAM_OWNER ?owner of None \<Rightarrow> 0 | Some s \<Rightarrow> of_nat (s + 1))"
  proof (cases "base (tables meta ! MONO_TABLE_GENERICPARAM) = None")
    case True
    then have "table_rows meta MONO_TABLE_GENERICPARAM = 0" using no_base_no_rows [OF assms(1)] by simp
    then have "first_row meta MONO_TABLE_GENERICPARAM MONO_GENERICPARAM_OWNER ?owner = None" by (simp add: first_row_none)
    then show ?thesis using True by (simp add: mono_metadata_get_generic_param_row_def)
  next
    case False
    then obtain b where b': "base (tables meta ! MONO_TABLE_GENERICPARAM) = Some b" by blast
    have tt: "unat (mono_metadata_token_table token) = (if is_method then MONO_TABLE_METHOD else MONO_TABLE_TYPEDEF)"
      using assms(5) by simp
    show ?thesis
      using b' tt search_first [OF assms(1) _ l(3) assms(4) b(1), of ?owner "(0, Some ?owner)" "\<lambda>k. Inr (of_nat (k + 1) :: guint32, Some ?owner)"]
      by (cases is_method) (simp_all add: mono_metadata_get_generic_param_row_def Let_def split: option.splits)
  qed
qed

text \<open>The range of rows that a walk forth finds after a search.\<close>

lemma range_after_search:
  assumes "meta_ok meta" "t < 45" "n = length (schemas ! t)" "k < n" "sorted_by meta t k"
    "first_row meta t k v = Some s" "s \<le> e" "e \<le> s + 1"
  shows "\<exists>e'. rows_on (raw_data meta) (tables meta ! t) n k v e = Inr e' \<and> s < e' \<and> e' \<le> table_rows meta t \<and>
    (\<forall>i < table_rows meta t. cell meta t k i = v \<longleftrightarrow> s \<le> i \<and> i < e')"
proof -
  let ?t = "tables meta ! t" and ?fs = "widths (dimensions_of meta) t"
  have c: "cell meta t k i = field_at (raw_data meta) ?t ?fs i k" for i by (simp add: cell_def)
  note s = first_rowD [OF assms(6)]
  have t: "table_in (raw_data meta) ?t ?fs" using table_in_ok [OF assms(1,2)] s(1) by simp
  have l: "length ?fs = n" "k < length ?fs" using assms(3,4) by simp_all
  have o: "column_sorted (\<lambda>i. field_at (raw_data meta) ?t ?fs i k) (rows ?t)"
    using assms(5) by (simp add: sorted_by_def cell_def [abs_def] table_rows_def)
  have "\<forall>i < e. s \<le> i \<longrightarrow> field_at (raw_data meta) ?t ?fs i k = v"
    using s(2) assms(8) by (auto simp: c [symmetric] less_Suc_eq le_less)
  then obtain e' where e': "rows_on (raw_data meta) ?t n k v e = Inr e'" "e' \<le> table_rows meta t"
    "\<And>i. i < table_rows meta t \<Longrightarrow> s \<le> i \<Longrightarrow> cell meta t k i = v \<longleftrightarrow> i < e'"
    using rows_on_end [OF t l(2) o, of s v e] s(1,2) assms(7,8) l(1) by (auto simp: c table_rows_def)
  have "cell meta t k i = v \<longleftrightarrow> s \<le> i \<and> i < e'" if "i < table_rows meta t" for i
    using e'(3) [OF that] s(3) [of i] by (cases "s \<le> i") auto
  then show ?thesis using e'(1,2) e'(3) [OF s(1)] s(1,2) by (intro exI [of _ e']) auto
qed

text \<open>
  The accessors of an event or a property.  In a table sorted by association the result is a range of
  rows of MethodSemantics, counted from 0, that contains exactly the rows associated with the event (tag 0)
  or the property (tag 1); it is empty when there is none.
\<close>

theorem semantics_range_exact:
  assumes "meta_ok meta" "sorted_by meta MONO_TABLE_METHODSEMANTICS MONO_METHOD_SEMA_ASSOCIATION"
  shows "\<exists>s e s' e'. mono_metadata_methods_from_event meta index = Inr (of_nat s, of_nat e) \<and>
    mono_metadata_methods_from_property meta index = Inr (of_nat s', of_nat e') \<and>
    e \<le> table_rows meta MONO_TABLE_METHODSEMANTICS \<and> e' \<le> table_rows meta MONO_TABLE_METHODSEMANTICS \<and>
    (\<forall>i < table_rows meta MONO_TABLE_METHODSEMANTICS.
      (cell meta MONO_TABLE_METHODSEMANTICS MONO_METHOD_SEMA_ASSOCIATION i =
        push_bit 1 (listed_at meta MONO_TABLE_EVENT_POINTER (index + 1)) \<longleftrightarrow> s \<le> i \<and> i < e) \<and>
      (cell meta MONO_TABLE_METHODSEMANTICS MONO_METHOD_SEMA_ASSOCIATION i =
        push_bit 1 (listed_at meta MONO_TABLE_PROPERTY_POINTER (index + 1)) OR 1 \<longleftrightarrow> s' \<le> i \<and> i < e'))"
proof -
  let ?t = "MONO_TABLE_METHODSEMANTICS" and ?k = "MONO_METHOD_SEMA_ASSOCIATION"
  have l: "?k < length (schemas ! ?t)" "MONO_METHOD_SEMA_SIZE = length (schemas ! ?t)"
    "0 < length (schemas ! MONO_TABLE_EVENT_POINTER)" "0 < length (schemas ! MONO_TABLE_PROPERTY_POINTER)"
    by (simp_all add: schemas_def)
  have range: "\<exists>s e. semantics_range meta pt tag index = Inr (of_nat s, of_nat e) \<and> e \<le> table_rows meta ?t \<and>
      (\<forall>i < table_rows meta ?t. cell meta ?t ?k i = push_bit 1 (listed_at meta pt (index + 1)) OR tag \<longleftrightarrow> s \<le> i \<and> i < e)"
    if pt: "pt < 45" "0 < length (schemas ! pt)" for pt tag
  proof (cases "base (tables meta ! ?t) = None")
    case True
    then have "table_rows meta ?t = 0" using no_base_no_rows [OF assms(1)] by simp
    then show ?thesis using True by (intro exI [of _ 0]) (simp add: semantics_range_def Let_def)
  next
    case False
    then obtain b where b: "base (tables meta ! ?t) = Some b" by blast
    let ?v = "push_bit 1 (listed_at meta pt (index + 1)) OR tag"
    let ?f = "\<lambda>s. bindr (rows_on (raw_data meta) (tables meta ! ?t) MONO_METHOD_SEMA_SIZE ?k ?v (s + 1))
      (\<lambda>e. Inr (of_nat s :: guint32, of_nat e :: guint32))"
    have r: "semantics_range meta pt tag index = (case first_row meta ?t ?k ?v of None \<Rightarrow> Inr (0, 0) | Some s \<Rightarrow> ?f s)"
      using b search_first [OF assms(1) _ l(1) assms(2), of table_locator ?v "(0, 0)" ?f] through_ptr_table_ok [OF assms(1) pt]
      by (simp add: semantics_range_def Let_def by_value_search_def del: push_bit_Suc)
    show ?thesis
    proof (cases "first_row meta ?t ?k ?v")
      case None
      then have "semantics_range meta pt tag index = Inr (0, 0)" using r by (simp only: option.case)
      then show ?thesis using None by (intro exI [of _ 0]) (simp add: first_row_none)
    next
      case (Some s)
      from range_after_search [OF assms(1) _ l(2) _ assms(2) Some, of "s + 1"] r Some show ?thesis by auto
    qed
  qed
  from range [OF _ l(3), of 0] range [OF _ l(4), of 1] show ?thesis
    unfolding mono_metadata_methods_from_event_def mono_metadata_methods_from_property_def by (simp only: or.right_neutral) force
qed


text \<open>The interfaces of the rows from a range, in order.\<close>

lemma interface_loop_range:
  assumes "meta_ok meta" "s \<le> e" "e \<le> table_rows meta MONO_TABLE_INTERFACEIMPL"
    "\<And>i. i < table_rows meta MONO_TABLE_INTERFACEIMPL \<Longrightarrow> s \<le> i \<Longrightarrow>
      cell meta MONO_TABLE_INTERFACEIMPL MONO_INTERFACEIMPL_CLASS i = v \<longleftrightarrow> i < e"
    "\<And>i. s \<le> i \<Longrightarrow> i < e \<Longrightarrow> \<exists>c. bindr (mono_metadata_token_from_dor (cell meta MONO_TABLE_INTERFACEIMPL MONO_INTERFACEIMPL_INTERFACE i))
      (\<lambda>token. Inr (class_get token)) = Inr (Some c) \<and> c = iface i"
  shows "interface_loop (raw_data meta) (tables meta ! MONO_TABLE_INTERFACEIMPL) class_get v s = Inr (Some (map iface [s..<e]))"
  using assms(2,4,5)
proof (induction "e - s" arbitrary: s)
  case 0
  then have s: "s = e" by simp
  show ?case
  proof (cases "e < table_rows meta MONO_TABLE_INTERFACEIMPL")
    case True
    then have "cell meta MONO_TABLE_INTERFACEIMPL MONO_INTERFACEIMPL_CLASS e \<noteq> v" using 0 s by auto
    moreover have "mono_metadata_decode_row (raw_data meta) (tables meta ! MONO_TABLE_INTERFACEIMPL) (int e) MONO_INTERFACEIMPL_SIZE =
        Inr (map (\<lambda>k. cell meta MONO_TABLE_INTERFACEIMPL k e) [0..<MONO_INTERFACEIMPL_SIZE])"
      using True by (intro row_decoded [OF assms(1)]) (simp_all add: schemas_def)
    ultimately show ?thesis using True s by (subst interface_loop.simps) (simp add: table_rows_def)
  next
    case False
    then show ?thesis using s by (subst interface_loop.simps) (simp add: table_rows_def)
  qed
next
  case (Suc d)
  then have s: "s < e" "s < table_rows meta MONO_TABLE_INTERFACEIMPL" using assms(3) by auto
  have row: "mono_metadata_decode_row (raw_data meta) (tables meta ! MONO_TABLE_INTERFACEIMPL) (int s) MONO_INTERFACEIMPL_SIZE =
      Inr (map (\<lambda>k. cell meta MONO_TABLE_INTERFACEIMPL k s) [0..<MONO_INTERFACEIMPL_SIZE])"
    using s(2) by (intro row_decoded [OF assms(1)]) (simp_all add: schemas_def)
  obtain token where token: "mono_metadata_token_from_dor (cell meta MONO_TABLE_INTERFACEIMPL MONO_INTERFACEIMPL_INTERFACE s) = Inr token"
    "class_get token = Some (iface s)"
    using Suc.prems(3) [of s] s(1) by (cases "mono_metadata_token_from_dor (cell meta MONO_TABLE_INTERFACEIMPL MONO_INTERFACEIMPL_INTERFACE s)") auto
  have "interface_loop (raw_data meta) (tables meta ! MONO_TABLE_INTERFACEIMPL) class_get v (Suc s) = Inr (Some (map iface [Suc s..<e]))"
    using Suc.hyps(2) s Suc.prems by (intro Suc.hyps(1)) auto
  moreover have "cell meta MONO_TABLE_INTERFACEIMPL MONO_INTERFACEIMPL_CLASS s = v" using Suc.prems(2) [of s] s by simp
  ultimately show ?case
    using row token s by (subst interface_loop.simps) (simp add: table_rows_def upt_rec [of s e])
qed

text \<open>
  C24.  The interfaces of a type.  In a table sorted by class, when each row of the type names an
  interface that the class loader knows, the result is the interfaces of exactly the rows of the
  type, in the order of the rows.
\<close>

theorem interfaces_from_typedef_correct:
  assumes "meta_ok meta" "sorted_by meta MONO_TABLE_INTERFACEIMPL MONO_INTERFACEIMPL_CLASS"
    "\<forall>i < table_rows meta MONO_TABLE_INTERFACEIMPL.
      cell meta MONO_TABLE_INTERFACEIMPL MONO_INTERFACEIMPL_CLASS i = mono_metadata_token_index token \<longrightarrow>
      bindr (mono_metadata_token_from_dor (cell meta MONO_TABLE_INTERFACEIMPL MONO_INTERFACEIMPL_INTERFACE i))
        (\<lambda>t. Inr (class_get t)) = Inr (Some (iface i))"
  shows "mono_metadata_interfaces_from_typedef_full meta class_get token =
    Inr (Some (map iface (filter (\<lambda>i. cell meta MONO_TABLE_INTERFACEIMPL MONO_INTERFACEIMPL_CLASS i =
      mono_metadata_token_index token) [0..<table_rows meta MONO_TABLE_INTERFACEIMPL])))"
proof -
  let ?t = "MONO_TABLE_INTERFACEIMPL" and ?k = "MONO_INTERFACEIMPL_CLASS" and ?v = "mono_metadata_token_index token"
  let ?P = "\<lambda>i. cell meta ?t ?k i = ?v"
  have l: "?k < length (schemas ! ?t)" "MONO_INTERFACEIMPL_SIZE = length (schemas ! ?t)" by (simp_all add: schemas_def)
  let ?f = "\<lambda>s. bindr (rows_on (raw_data meta) (tables meta ! ?t) MONO_INTERFACEIMPL_SIZE ?k ?v s)
    (\<lambda>e. interface_loop (raw_data meta) (tables meta ! ?t) class_get ?v s)"
  have r: "mono_metadata_interfaces_from_typedef_full meta class_get token =
      (case first_row meta ?t ?k ?v of None \<Rightarrow> Inr (Some []) | Some s \<Rightarrow> ?f s)"
    using search_first [OF assms(1) _ l(1) assms(2), of table_locator ?v "Some []" ?f]
    by (simp add: mono_metadata_interfaces_from_typedef_full_def Let_def by_value_search_def)
  show ?thesis
  proof (cases "first_row meta ?t ?k ?v")
    case None
    then have "filter ?P [0..<table_rows meta ?t] = []" by (auto simp: first_row_none filter_empty_conv)
    then show ?thesis using r None by simp
  next
    case (Some s)
    obtain e where e: "rows_on (raw_data meta) (tables meta ! ?t) MONO_INTERFACEIMPL_SIZE ?k ?v s = Inr e" "s < e" "e \<le> table_rows meta ?t"
      "\<And>i. i < table_rows meta ?t \<Longrightarrow> ?P i \<longleftrightarrow> s \<le> i \<and> i < e"
      using range_after_search [OF assms(1) _ l(2) _ assms(2) Some, of s] by auto
    have "interface_loop (raw_data meta) (tables meta ! ?t) class_get ?v s = Inr (Some (map iface [s..<e]))"
      using e assms(3) by (intro interface_loop_range [OF assms(1)]) auto
    moreover have "filter ?P [0..<table_rows meta ?t] = [s..<e]"
    proof -
      have "[0..<table_rows meta ?t] = [0..<s] @ [s..<e] @ [e..<table_rows meta ?t]"
        using e(2,3) upt_add_eq_append [of 0 s "table_rows meta ?t - s"] upt_add_eq_append [of s e "table_rows meta ?t - e"] by simp
      moreover have "filter ?P [0..<s] = []" "filter ?P [e..<table_rows meta ?t] = []" using e by (auto simp: filter_empty_conv)
      moreover have "filter ?P [s..<e] = [s..<e]" using e by (simp add: filter_id_conv)
      ultimately show ?thesis by simp
    qed
    ultimately show ?thesis using r Some e(1) by simp
  qed
qed

text \<open>The search among the nested types, for rows counted from 1.\<close>

lemma nesting_loop_next:
  assumes "\<And>i. 0 < i \<Longrightarrow> i \<le> rows t \<Longrightarrow> mono_metadata_decode_row_col m t (int i - 1) MONO_NESTED_CLASS_ENCLOSING = Inr (c i)"
    and "0 < s"
  shows "nesting_loop m t v s = Inr (if \<exists>i. s \<le> i \<and> i \<le> rows t \<and> c i = v
    then (LEAST i. s \<le> i \<and> i \<le> rows t \<and> c i = v) else max s (Suc (rows t)))"
  using assms(2)
proof (induction "Suc (rows t) - s" arbitrary: s)
  case 0
  then have "\<not> s \<le> rows t" by simp
  then show ?case by (subst nesting_loop.simps) auto
next
  case (Suc d)
  then have s: "s \<le> rows t" by simp
  show ?case
  proof (cases "c s = v")
    case True
    then have "(LEAST i. s \<le> i \<and> i \<le> rows t \<and> c i = v) = s" using s by (intro Least_equality) auto
    then show ?thesis using True assms(1) [OF Suc.prems s] s by (subst nesting_loop.simps) auto
  next
    case False
    then have e: "(s \<le> i \<and> i \<le> rows t \<and> c i = v) = (Suc s \<le> i \<and> i \<le> rows t \<and> c i = v)" for i
      by (cases "i = s") auto
    have "nesting_loop m t v (Suc s) = Inr (if \<exists>i. Suc s \<le> i \<and> i \<le> rows t \<and> c i = v
        then (LEAST i. Suc s \<le> i \<and> i \<le> rows t \<and> c i = v) else max (Suc s) (Suc (rows t)))"
      using Suc.hyps(2) by (intro Suc.hyps(1)) auto
    moreover have "max (Suc s) (Suc (rows t)) = max s (Suc (rows t))" using s by simp
    ultimately show ?thesis using False assms(1) [OF Suc.prems s] s unfolding e by (subst nesting_loop.simps) simp
  qed
qed

text \<open>
  Nested types are found one after the other: from row \<open>start\<close> (counted from 1, and at least 1)
  on, the result is the first row whose enclosing type is the given one, and 0 when there is none.
\<close>

theorem nesting_typedef_next:
  assumes "meta_ok meta" "0 < start" "start < 2 ^ 24"
  shows "mono_metadata_nesting_typedef meta token (of_nat start) =
    Inr (if \<exists>i. start \<le> i \<and> i \<le> table_rows meta MONO_TABLE_NESTEDCLASS \<and>
          cell meta MONO_TABLE_NESTEDCLASS MONO_NESTED_CLASS_ENCLOSING (i - 1) = mono_metadata_token_index token
      then of_nat (LEAST i. start \<le> i \<and> i \<le> table_rows meta MONO_TABLE_NESTEDCLASS \<and>
          cell meta MONO_TABLE_NESTEDCLASS MONO_NESTED_CLASS_ENCLOSING (i - 1) = mono_metadata_token_index token) else 0)"
proof -
  let ?t = "tables meta ! MONO_TABLE_NESTEDCLASS"
  define c where "c i = cell meta MONO_TABLE_NESTEDCLASS MONO_NESTED_CLASS_ENCLOSING (i - 1)" for i
  let ?P = "\<lambda>i. start \<le> i \<and> i \<le> rows ?t \<and> c i = mono_metadata_token_index token"
  have cells: "mono_metadata_decode_row_col (raw_data meta) ?t (int i - 1) MONO_NESTED_CLASS_ENCLOSING = Inr (c i)"
    if "0 < i" "i \<le> rows ?t" for i
    using cell_decoded [OF assms(1), of MONO_TABLE_NESTEDCLASS "i - 1" MONO_NESTED_CLASS_ENCLOSING] that
    by (simp add: c_def table_rows_def schemas_def of_nat_diff)
  note loop = nesting_loop_next [OF cells assms(2), where v = "mono_metadata_token_index token"]
  have u: "unat (of_nat start :: guint32) = start" using assms(3) by (simp add: unat_of_nat take_bit_nat_eq_self)
  have none: "table_rows meta MONO_TABLE_NESTEDCLASS = 0" if "base ?t = None"
    using no_base_no_rows [OF assms(1) _ that] by simp
  have "mono_metadata_nesting_typedef meta token (of_nat start) = Inr (if \<exists>i. ?P i then of_nat (LEAST i. ?P i) else 0)"
  proof (cases "\<exists>i. ?P i")
    case True
    then have "(LEAST i. ?P i) \<le> rows ?t" using LeastI_ex [OF True] by blast
    moreover have "base ?t \<noteq> None" using none True assms(2) unfolding table_rows_def by force
    ultimately show ?thesis
      using True by (simp only: mono_metadata_nesting_typedef_def Let_def u loop bindr.simps if_True if_False not_less [symmetric] simp_thms)
  next
    case False
    then have "nesting_loop (raw_data meta) ?t (mono_metadata_token_index token) start = Inr (max start (Suc (rows ?t)))"
      using loop by (simp only: if_False)
    moreover have "rows ?t < max start (Suc (rows ?t))" by simp
    ultimately show ?thesis
      using False by (simp only: mono_metadata_nesting_typedef_def Let_def u bindr.simps if_True if_False if_cancel)
  qed
  then show ?thesis unfolding c_def table_rows_def .
qed

section \<open>The lookups on the sample\<close>

lemmas cells = sample_cells [unfolded One_nat_def]

lemma sample_sorted:
  "sorted_by sample MONO_TABLE_CUSTOMATTRIBUTE MONO_CUSTOM_ATTR_PARENT"
  "sorted_by sample MONO_TABLE_METHODSEMANTICS MONO_METHOD_SEMA_ASSOCIATION"
  "sorted_by sample MONO_TABLE_INTERFACEIMPL MONO_INTERFACEIMPL_CLASS"
  unfolding sorted_by_def sample_rows
proof -
  have s: "i = 0 \<or> i = 1 \<or> i = 2" if "Suc i < 4" for i using that by linarith
  have s': "i = 0 \<or> i = 1" if "Suc i < 3" for i using that by linarith
  show "column_sorted (cell sample MONO_TABLE_CUSTOMATTRIBUTE MONO_CUSTOM_ATTR_PARENT) 4"
    by (rule column_sorted_steps) (drule s, auto simp: cells)
  show "column_sorted (cell sample MONO_TABLE_METHODSEMANTICS MONO_METHOD_SEMA_ASSOCIATION) 3"
    by (rule column_sorted_steps) (drule s', auto simp: cells)
  show "column_sorted (cell sample MONO_TABLE_INTERFACEIMPL MONO_INTERFACEIMPL_CLASS) 3"
    by (rule column_sorted_steps) (drule s', auto simp: cells)
qed

lemma sample_empty: "table_rows sample MONO_TABLE_DECLSECURITY = 0" "table_rows sample MONO_TABLE_GENERICPARAM = 0"
  by (simp_all add: sample(3) sample_db_def)

theorem first_rows_correct_witness:
  "mono_metadata_custom_attrs_from_index sample 96 = Inr 2 \<and> mono_metadata_declsec_from_index sample 96 = Inr (-1)"
proof -
  have s: "sorted_by sample MONO_TABLE_DECLSECURITY MONO_DECL_SECURITY_PARENT" "sorted_by sample MONO_TABLE_GENERICPARAM MONO_GENERICPARAM_OWNER"
    by (simp_all add: sorted_by_def column_sorted_def sample_empty)
  let ?c = "cell sample MONO_TABLE_CUSTOMATTRIBUTE MONO_CUSTOM_ATTR_PARENT"
  have c: "?c 0 = 32" "?c 1 = 96" by (simp_all add: cells)
  then have "(LEAST i. i < 4 \<and> ?c i = 96) = 1"
    by (intro Least_equality) (auto simp: Suc_le_eq intro: gr0I)
  then have "first_row sample MONO_TABLE_CUSTOMATTRIBUTE MONO_CUSTOM_ATTR_PARENT 96 = Some 1"
    unfolding first_row_def sample_rows using c(2) by (auto intro: exI [of _ 1])
  moreover have "first_row sample MONO_TABLE_DECLSECURITY MONO_DECL_SECURITY_PARENT 96 = None"
    by (simp add: first_row_none sample_empty)
  moreover have "mono_metadata_token_table 0x02000001 = of_nat (if False then MONO_TABLE_METHOD else MONO_TABLE_TYPEDEF)"
    by (simp add: mono_metadata_token_table_def)
  ultimately show ?thesis
    using first_rows_correct [OF sample(1) sample_sorted(1) s, of "0x02000001" False 96] by simp
qed

lemma range_of_rows:
  assumes "e \<le> (3 :: nat)" "\<forall>i < 3. P i \<longleftrightarrow> s \<le> i \<and> i < e" "P 0" "P 1" "\<not> P 2"
  shows "s = 0 \<and> e = 2"
  using assms(1,3-) assms(2) [rule_format, of 0] assms(2) [rule_format, of 1] assms(2) [rule_format, of 2] by auto

theorem semantics_range_exact_witness:
  "mono_metadata_methods_from_event sample 0 = Inr (0, 2)"
proof -
  let ?c = "cell sample MONO_TABLE_METHODSEMANTICS MONO_METHOD_SEMA_ASSOCIATION"
  have l: "listed_at sample pt i = i" for pt i by (simp add: listed_at_def sample(2))
  have c: "?c 0 = 2" "?c 1 = 2" "?c 2 = 5" by (simp_all add: cells)
  obtain s e where e: "mono_metadata_methods_from_event sample 0 = Inr (of_nat s, of_nat e)" "e \<le> 3"
    "\<forall>i < 3. ?c i = push_bit 1 (0 + 1) \<longleftrightarrow> s \<le> i \<and> i < e"
    using semantics_range_exact [OF sample(1) sample_sorted(2), of 0] unfolding l sample_rows by blast
  have "s = 0 \<and> e = 2" using range_of_rows [OF e(2,3)] c by simp
  then show ?thesis using e(1) by simp
qed

theorem interfaces_from_typedef_correct_witness:
  "mono_metadata_interfaces_from_typedef_full sample Some 0x02000003 = Inr (Some [0x01000002, 0x01000003])"
proof -
  define iface :: "nat \<Rightarrow> guint32" where "iface i = 0x01000001 + of_nat i" for i
  have "filter (\<lambda>i. cell sample MONO_TABLE_INTERFACEIMPL MONO_INTERFACEIMPL_CLASS i = 3) [0..<3] = [1, 2]"
    by (simp add: upt_rec cells)
  moreover have "bindr (mono_metadata_token_from_dor (cell sample MONO_TABLE_INTERFACEIMPL MONO_INTERFACEIMPL_INTERFACE i)) (\<lambda>t. Inr (Some t)) =
      Inr (Some (iface i))" if "i < 3" for i
    using that by (auto simp: less_numerals cells mono_metadata_token_from_dor_def iface_def)
  ultimately show ?thesis
    using interfaces_from_typedef_correct [OF sample(1) sample_sorted(3), where token = "0x02000003" and class_get = Some and iface = iface]
    by (simp add: sample_rows mono_metadata_token_index_def iface_def)
qed

theorem nesting_typedef_next_witness:
  "mono_metadata_nesting_typedef sample 0x02000002 1 = Inr 1 \<and> mono_metadata_nesting_typedef sample 0x02000002 2 = Inr 0"
proof -
  have "(LEAST i. 1 \<le> i \<and> i \<le> 1 \<and> cell sample MONO_TABLE_NESTEDCLASS MONO_NESTED_CLASS_ENCLOSING (i - 1) = 2) = 1"
    by (rule Least_equality) (auto simp: cells)
  then show ?thesis
    using nesting_typedef_next [OF sample(1), of 1 "0x02000002"] nesting_typedef_next [OF sample(1), of 2 "0x02000002"]
    by (auto simp: sample_rows mono_metadata_token_index_def cells)
qed

theorem load_tables_wf_witness:
  "\<exists>meta. load_tables (image_of (narrow sample_db) sample_db) = Inr meta \<and>
    is_ok (mono_metadata_decode_row (raw_data meta) (tables meta ! MONO_TABLE_CUSTOMATTRIBUTE) 3 3)"
proof -
  let ?im = "image_of (narrow sample_db) sample_db"
  have im: "raw_data ?im = [] @ tables_stream (narrow sample_db) 0 sample_db @ []"
    "heap_data (heap_tables ?im) = Some (int (length ([] :: guint8 list)))" "length (tables ?im) = 45"
    "\<forall>t < 45. base (tables ?im ! t) = None"
    by (simp_all add: image_of_def image_with_def)
  obtain meta where m: "load_tables ?im = Inr meta" "raw_data meta = raw_data ?im" "generic_tables_modest (dimensions_of meta)"
    "inside (raw_data meta) (tables_base meta) (bytes_before (dimensions_of meta) 45)"
    "table_rows meta MONO_TABLE_CUSTOMATTRIBUTE = length (sample_db MONO_TABLE_CUSTOMATTRIBUTE)"
    using load_stream [OF im(1-3) sample_ok] by auto
  have "is_ok (mono_metadata_decode_row (raw_data meta) (tables meta ! MONO_TABLE_CUSTOMATTRIBUTE) (int 3)
      (length (schemas ! MONO_TABLE_CUSTOMATTRIBUTE)))"
    using load_tables_wf [OF m(1) im(3,4) m(3) m(4) [unfolded m(2)]] m(5) by (simp add: sample_db_def del: of_nat_numeral)
  then show ?thesis using m(1) by (simp add: schemas_def numeral_3_eq_3)
qed

end
