(* ===== verification/Meta_Numbers.thy ===== *)
theory Meta_Numbers
  imports Meta_Tables_Proofs
begin

text \<open>
  The compressed integers of signatures and blobs (ECMA-335, II.23.2): encoding and decoding, the two
  decoders, and signed values.
\<close>

section \<open>Forms of one, two and four bytes\<close>

lemma byte_tests: "b AND 0x80 = 0 \<longleftrightarrow> \<not> bit b 7" "b AND 0x40 = 0 \<longleftrightarrow> \<not> bit b 6" for b :: guint8
  using and_exp_eq_0_iff_not_bit [of b 7] and_exp_eq_0_iff_not_bit [of b 6] by simp_all

lemma number_masks: "(0x7f :: guint32) = mask 7" "(0x3f :: guint32) = mask 6" "(0x1f :: guint32) = mask 5"
  "(0xff :: guint32) = mask 8"
  by (simp_all add: mask_eq_exp_minus_1)

lemma high_bits_word: "bit (128 :: 'a::len word) n \<longleftrightarrow> n = 7 \<and> n < LENGTH('a)"
  "bit (192 :: 'a::len word) n \<longleftrightarrow> (n = 6 \<or> n = 7) \<and> n < LENGTH('a)"
proof -
  have e: "(128 :: 'a word) = push_bit 7 (mask 1)" "(192 :: 'a word) = push_bit 6 (mask 2)"
    by (simp_all add: mask_eq_exp_minus_1)
  show "bit (128 :: 'a::len word) n \<longleftrightarrow> n = 7 \<and> n < LENGTH('a)"
    "bit (192 :: 'a::len word) n \<longleftrightarrow> (n = 6 \<or> n = 7) \<and> n < LENGTH('a)"
    unfolding e bit_push_bit_iff bit_mask_iff by auto
qed

lemmas high_bits = high_bits_word [where 'a = 8, simplified] high_bits_word [where 'a = 32, simplified]

lemma less_bits: "v < 2 ^ n \<Longrightarrow> bit v i \<Longrightarrow> i < n" for v :: guint32
  by (metis bit_take_bit_iff less_mask_eq take_bit_eq_mask)

lemmas bits = bit_or_iff bit_and_iff bit_push_bit_iff bit_drop_bit_eq bit_mask_iff bit_unsigned_iff bit_take_bit_iff high_bits

text \<open>The forms of the standard, for a value of 7, 14 and 29 bits.\<close>

definition form2 :: "guint32 \<Rightarrow> guint8 list" where
  "form2 w = [ucast (0x80 OR drop_bit 8 w), ucast (w AND 0xff)]"

definition form4 :: "guint32 \<Rightarrow> guint8 list" where
  "form4 w = [ucast (drop_bit 24 w OR 0xc0), ucast (drop_bit 16 w AND 0xff), ucast (drop_bit 8 w AND 0xff), ucast (w AND 0xff)]"

lemma read8_nth: "p = int (length xs) + int k \<Longrightarrow> k < length bs \<Longrightarrow> read8 (xs @ bs @ ys) p = Inr (bs ! k)"
  by (simp add: read8_def nth_append nat_add_distrib)

lemma decode_form1:
  assumes "v < 0x80"
  shows "mono_metadata_decode_value (xs @ [ucast v] @ ys) (int (length xs)) = Inr (v, int (length xs) + 1)"
proof -
  have b: "bit v i \<Longrightarrow> i < 7" for i using less_bits [of v 7 i] assms by simp
  have "(ucast (ucast v :: guint8) :: guint32) = v"
  proof (rule bit_word_eqI)
    show "bit (ucast (ucast v :: guint8) :: guint32) n = bit v n" for n using b [of n] by (auto simp: bits)
  qed
  moreover have "\<not> bit (ucast v :: guint8) 7" using b [of 7] by (auto simp: bits)
  ultimately show ?thesis
    by (simp add: mono_metadata_decode_value_def read8_nth [where bs = "[_]" and k = 0, simplified] byte_tests)
qed

lemma decode_form2:
  assumes "\<not> bit w 14"
  shows "mono_metadata_decode_value (xs @ form2 w @ ys) (int (length xs)) = Inr (take_bit 14 w, int (length xs) + 2)"
proof -
  let ?b0 = "ucast (0x80 OR drop_bit 8 w) :: guint8"
  have v: "push_bit 8 (ucast ?b0 AND 0x3f) OR ucast (ucast (w AND 0xff) :: guint8) = take_bit 14 w"
    unfolding number_masks
    by (rule bit_word_eqI) (auto simp: bits)
  have t: "bit ?b0 7" "\<not> bit ?b0 6" unfolding number_masks using assms by (simp_all add: bits)
  have "read8 (xs @ form2 w @ ys) (int (length xs)) = Inr ?b0" "read8 (xs @ form2 w @ ys) (int (length xs) + 1) = Inr (ucast (w AND 0xff))"
    using read8_nth [of "int (length xs)" xs 0 "form2 w" ys] read8_nth [of "int (length xs) + 1" xs 1 "form2 w" ys]
    by (simp_all add: form2_def)
  then show ?thesis using t v by (simp add: mono_metadata_decode_value_def byte_tests)
qed

lemma decode_form4:
  "mono_metadata_decode_value (xs @ form4 w @ ys) (int (length xs)) = Inr (take_bit 29 w, int (length xs) + 4)"
proof -
  let ?b0 = "ucast (drop_bit 24 w OR 0xc0) :: guint8" and ?b1 = "ucast (drop_bit 16 w AND 0xff) :: guint8"
    and ?b2 = "ucast (drop_bit 8 w AND 0xff) :: guint8" and ?b3 = "ucast (w AND 0xff) :: guint8"
  have v: "push_bit 24 (ucast ?b0 AND 0x1f) OR push_bit 16 (ucast ?b1) OR push_bit 8 (ucast ?b2) OR ucast ?b3 = take_bit 29 w"
  proof (rule bit_word_eqI)
    fix n assume "n < LENGTH(32)"
    consider "n < 8" | "8 \<le> n" "n < 16" | "16 \<le> n" "n < 24" | "24 \<le> n" by linarith
    then show "bit (push_bit 24 (ucast ?b0 AND 0x1f :: guint32) OR push_bit 16 (ucast ?b1) OR push_bit 8 (ucast ?b2) OR ucast ?b3) n =
        bit (take_bit 29 w) n"
      unfolding number_masks by cases (simp_all add: bits, auto)
  qed
  have t: "bit ?b0 7" "bit ?b0 6" unfolding number_masks by (simp_all add: bits)
  have "read8 (xs @ form4 w @ ys) (int (length xs)) = Inr ?b0" "read8 (xs @ form4 w @ ys) (int (length xs) + 1) = Inr ?b1"
    "read8 (xs @ form4 w @ ys) (int (length xs) + 2) = Inr ?b2" "read8 (xs @ form4 w @ ys) (int (length xs) + 3) = Inr ?b3"
    using read8_nth [of "int (length xs)" xs 0 "form4 w" ys] read8_nth [of "int (length xs) + 1" xs 1 "form4 w" ys]
      read8_nth [of "int (length xs) + 2" xs 2 "form4 w" ys] read8_nth [of "int (length xs) + 3" xs 3 "form4 w" ys]
    by (simp_all add: form4_def)
  then show ?thesis using t v by (simp add: mono_metadata_decode_value_def byte_tests)
qed

section \<open>Round trips\<close>

lemma take_bit_less: "v < 2 ^ n \<Longrightarrow> n \<le> k \<Longrightarrow> take_bit k v = v" for v :: guint32
  by (rule bit_word_eqI) (use less_bits in \<open>fastforce simp: bit_take_bit_iff\<close>)

text \<open>
  C20.  What \<open>mono_metadata_encode_value\<close> writes, at any place, \<open>mono_metadata_decode_value\<close> reads back,
  with the position behind it, for every value below \<open>2^29\<close>; a larger value comes back without its
  upper three bits.
\<close>

theorem compressed_round_trip:
  "mono_metadata_decode_value (xs @ mono_metadata_encode_value v @ ys) (int (length xs)) =
    Inr (take_bit 29 v, int (length xs) + int (length (mono_metadata_encode_value v)))"
proof -
  consider "v < 0x80" | "\<not> v < 0x80" "v < 0x4000" | "\<not> v < 0x80" "\<not> v < 0x4000" by blast
  then show ?thesis
  proof cases
    case 1
    have "take_bit 29 v = v" using 1 by (intro take_bit_less [where n = 7]) simp_all
    then show ?thesis using 1 decode_form1 [OF 1, of xs ys] by (simp add: mono_metadata_encode_value_def)
  next
    case 2
    have v: "take_bit 29 v = v" "take_bit 14 v = v" "\<not> bit v 14"
      using 2 take_bit_less [of v 14] less_bits [of v 14 14] by auto
    have e: "mono_metadata_encode_value v = form2 v" "length (form2 v) = 2"
      using 2 by (simp_all add: mono_metadata_encode_value_def form2_def)
    show ?thesis unfolding e using decode_form2 [of v xs ys] v by simp
  next
    case 3
    have e: "mono_metadata_encode_value v = form4 v" "length (form4 v) = 4"
      using 3 by (simp_all add: mono_metadata_encode_value_def form4_def)
    show ?thesis unfolding e using decode_form4 [of xs v ys] by simp
  qed
qed

lemma or_is_plus: "(\<And>i. \<not> bit a i \<or> \<not> bit b i) \<Longrightarrow> a + b = a OR b" for a b :: guint32
  by (rule disjunctive_add) blast

text \<open>
  The two decoders agree: on all bytes and at all positions \<open>mono_metadata_decode_blob_size\<close> returns
  what \<open>mono_metadata_decode_value\<close> returns, failures included.
\<close>

theorem decode_blob_size_is_decode_value:
  "mono_metadata_decode_blob_size m p = mono_metadata_decode_value m p"
proof -
  have one: "(ucast b :: guint32) AND 0x7f = ucast b" if "\<not> bit b 7" for b :: guint8
    unfolding number_masks
  proof (rule bit_word_eqI)
    show "bit ((ucast b :: guint32) AND mask 7) n = bit (ucast b :: guint32) n" if "n < LENGTH(32)" for n
      using \<open>\<not> bit b 7\<close> bit_imp_le_length [of b n] less_SucE [of n 7] by (auto simp: bits)
  qed
  have two: "push_bit 8 x + (ucast b :: guint32) = push_bit 8 x OR ucast b" for x and b :: guint8
    by (rule or_is_plus) (auto simp: bits dest: bit_imp_le_length)
  have four: "push_bit 24 x + push_bit 16 (ucast b1) + push_bit 8 (ucast b2) + (ucast b3 :: guint32) =
      push_bit 24 x OR push_bit 16 (ucast b1) OR push_bit 8 (ucast b2) OR ucast b3" for x and b1 b2 b3 :: guint8
  proof -
    have "push_bit 8 (ucast b2) + (ucast b3 :: guint32) = push_bit 8 (ucast b2) OR ucast b3" by (rule two)
    moreover have "push_bit 16 (ucast b1) + (push_bit 8 (ucast b2) OR ucast b3 :: guint32) =
        push_bit 16 (ucast b1) OR (push_bit 8 (ucast b2) OR ucast b3)"
      by (rule or_is_plus) (auto simp: bits dest: bit_imp_le_length)
    moreover have "push_bit 24 x + (push_bit 16 (ucast b1) OR (push_bit 8 (ucast b2) OR ucast b3 :: guint32)) =
        push_bit 24 x OR (push_bit 16 (ucast b1) OR (push_bit 8 (ucast b2) OR ucast b3))"
      by (rule or_is_plus) (auto simp: bits dest: bit_imp_le_length)
    ultimately show ?thesis by (simp add: add.assoc or.assoc)
  qed
  show ?thesis
    unfolding mono_metadata_decode_blob_size_def mono_metadata_decode_value_def
    unfolding byte_tests two four by (intro arg_cong [of _ _ "bindr _"] ext) (simp add: one)
qed

section \<open>Signed values\<close>

text \<open>
  The standard stores a signed value of \<open>n\<close> bits (7, 14 or 29) rotated left by one, in the
  form of \<open>n\<close> bits, the smallest that holds it.
\<close>

definition rotated :: "nat \<Rightarrow> int \<Rightarrow> int" where
  "rotated n v = 2 * (v mod 2 ^ (n - 1)) + (if v < 0 then 1 else 0)"

definition encode_signed :: "int \<Rightarrow> guint8 list" where
  "encode_signed v =
    (if -64 \<le> v \<and> v < 64 then [word_of_int (rotated 7 v)]
     else if -8192 \<le> v \<and> v < 8192 then form2 (word_of_int (rotated 14 v))
     else form4 (word_of_int (rotated 29 v)))"

definition signed_read_back :: "int \<Rightarrow> int" where
  "signed_read_back v =
    (if -8192 \<le> v \<and> v < -8128 then v + 8128
     else if - (2 ^ 28) \<le> v \<and> v < - (2 ^ 28) + 64 then v + 2 ^ 28 - 64
     else if - (2 ^ 28) \<le> v \<and> v < - (2 ^ 28) + 8192 then v + 2 ^ 28 - 8192
     else v)"

lemma take_bit_word_of_int: "0 \<le> u \<Longrightarrow> u < 2 ^ n \<Longrightarrow> n \<le> 32 \<Longrightarrow> take_bit n (word_of_int u :: guint32) = word_of_int u"
  by (simp add: take_bit_int_eq_self flip: of_int_take_bit)

lemma rotated_range: "1 \<le> n \<Longrightarrow> 0 \<le> rotated n v \<and> rotated n v < 2 ^ n"
proof -
  assume n: "1 \<le> n"
  have "0 \<le> v mod 2 ^ (n - 1)" "v mod 2 ^ (n - 1) < 2 ^ (n - 1)" by simp_all
  moreover have "(2 :: int) ^ n = 2 * 2 ^ (n - 1)" using n by (cases n) auto
  ultimately show ?thesis unfolding rotated_def
    by (cases "v < 0") (simp_all only: if_True if_False, linarith+)
qed

text \<open>The signed decoder after the unsigned one has given \<open>u\<close>.\<close>

definition unrotate :: "int \<Rightarrow> int" where
  "unrotate u = (let i = u div 2 in
     if u mod 2 = 0 then i else if i < 0x40 then i - 0x40 else if i < 0x2000 then i - 0x2000 else i - 0x10000000)"

lemma decode_signed_unrotate:
  assumes "mono_metadata_decode_value m p = Inr (word_of_int u, q)" "0 \<le> u" "u < 2 ^ 29"
  shows "mono_metadata_decode_signed_value m p = Inr (unrotate u, q)"
proof -
  have u: "uint (word_of_int u :: guint32) = u" using assms by (simp add: uint_word_of_int_eq take_bit_int_eq_self)
  have "uint (drop_bit 1 (word_of_int u :: guint32)) = u div 2"
    using u by (simp add: uint_div drop_bit_eq_div)
  moreover have "word_of_int u AND (1 :: guint32) = 0 \<longleftrightarrow> u mod 2 = 0"
  proof -
    have "word_of_int u AND (1 :: guint32) = 0 \<longleftrightarrow> even (word_of_int u :: guint32)" by (simp add: and_one_eq odd_iff_mod_2_eq_one even_iff_mod_2_eq_zero)
    also have "\<dots> \<longleftrightarrow> even u" 
      using bit_of_int_iff [where 'a = guint32, of u 0] unfolding bit_0 by simp
    finally show ?thesis by presburger
  qed
  moreover have "u div 2 < 0x10000000" using assms by simp
  ultimately show ?thesis using assms(1) by (simp add: mono_metadata_decode_signed_value_def unrotate_def Let_def)
qed

lemma unrotate_rotated:
  "-64 \<le> v \<Longrightarrow> v < 64 \<Longrightarrow> unrotate (rotated 7 v) = v"
  "-8192 \<le> v \<Longrightarrow> v < 8192 \<Longrightarrow> unrotate (rotated 14 v) = (if -8192 \<le> v \<and> v < -8128 then v + 8128 else v)"
  "- (2 ^ 28) \<le> v \<Longrightarrow> v < 2 ^ 28 \<Longrightarrow> unrotate (rotated 29 v) =
    (if v < - (2 ^ 28) + 64 then v + 2 ^ 28 - 64 else if v < - (2 ^ 28) + 8192 then v + 2 ^ 28 - 8192 else v)"
proof -
  have m: "v mod k = (if v < 0 then v + k else v)" if "- k \<le> v" "v < k" for k :: int
  proof (cases "v < 0")
    case True
    then have "(v + k) mod k = v + k" using that by (intro mod_pos_pos_trivial) auto
    then show ?thesis using True by simp
  next
    case False
    then show ?thesis using that by (simp add: mod_pos_pos_trivial)
  qed
  have u: "unrotate (2 * a + 1) = (if a < 0x40 then a - 0x40 else if a < 0x2000 then a - 0x2000 else a - 0x10000000)"
    "unrotate (2 * a) = a" for a
    by (simp_all add: unrotate_def Let_def)
  show "-64 \<le> v \<Longrightarrow> v < 64 \<Longrightarrow> unrotate (rotated 7 v) = v"
    unfolding rotated_def using m [of 64] u(1) [of "v + 64"] by (cases "v < 0") (simp_all add: u(2))
  show "-8192 \<le> v \<Longrightarrow> v < 8192 \<Longrightarrow> unrotate (rotated 14 v) = (if -8192 \<le> v \<and> v < -8128 then v + 8128 else v)"
    unfolding rotated_def using m [of 8192] u(1) [of "v + 8192"] by (cases "v < 0") (simp_all add: u(2))
  show "- (2 ^ 28) \<le> v \<Longrightarrow> v < 2 ^ 28 \<Longrightarrow> unrotate (rotated 29 v) =
      (if v < - (2 ^ 28) + 64 then v + 2 ^ 28 - 64 else if v < - (2 ^ 28) + 8192 then v + 2 ^ 28 - 8192 else v)"
    unfolding rotated_def using m [of "2 ^ 28"] u(1) [of "v + 2 ^ 28"] by (cases "v < 0") (simp_all add: u(2))
qed

text \<open>
  C21.  Signed values.  A signed value of up to 29 bits, encoded as the standard says, is read back by
  \<open>mono_metadata_decode_signed_value\<close> as \<open>signed_read_back\<close>, and that is the value itself except for the 64
  least values of two bytes and the 8192 least values of four bytes: the code takes the
  number of bits to extend from the value, not from the form it was stored in, so that
  \<open>-8192\<close> is read as \<open>-64\<close>.
\<close>

theorem signed_value_decodes:
  assumes "- (2 ^ 28) \<le> v" "v < 2 ^ 28"
  shows "mono_metadata_decode_signed_value (xs @ encode_signed v @ ys) (int (length xs)) =
      Inr (signed_read_back v, int (length xs) + int (length (encode_signed v))) \<and>
    (signed_read_back v = v \<longleftrightarrow> \<not> (-8192 \<le> v \<and> v < -8128) \<and> \<not> (v < - (2 ^ 28) + 8192))"
proof (rule conjI)
  let ?n = "int (length xs)"
  consider "-64 \<le> v" "v < 64" | "\<not> (-64 \<le> v \<and> v < 64)" "-8192 \<le> v" "v < 8192"
    | "\<not> (-64 \<le> v \<and> v < 64)" "\<not> (-8192 \<le> v \<and> v < 8192)" by linarith
  then show "mono_metadata_decode_signed_value (xs @ encode_signed v @ ys) ?n =
      Inr (signed_read_back v, ?n + int (length (encode_signed v)))"
  proof cases
    case 1
    let ?u = "rotated 7 v"
    have r: "0 \<le> ?u" "?u < 2 ^ 7" using rotated_range [of 7 v] by auto
    have "mono_metadata_decode_value (xs @ [ucast (word_of_int ?u :: guint32)] @ ys) ?n = Inr (word_of_int ?u, ?n + 1)"
      using r by (intro decode_form1) (simp add: word_less_alt uint_word_of_int_eq take_bit_int_eq_self)
    moreover have "(ucast (word_of_int ?u :: guint32) :: guint8) = word_of_int ?u"
      using r by (simp add: ucast_small)
    ultimately have "mono_metadata_decode_signed_value (xs @ [word_of_int ?u] @ ys) ?n = Inr (unrotate ?u, ?n + 1)"
      using r by (intro decode_signed_unrotate) auto
    then show ?thesis using 1 unrotate_rotated(1) [of v] by (simp add: encode_signed_def signed_read_back_def)
  next
    case 2
    let ?u = "rotated 14 v"
    have r: "0 \<le> ?u" "?u < 2 ^ 14" using rotated_range [of 14 v] by auto
    have t: "take_bit 14 (word_of_int ?u :: guint32) = word_of_int ?u" using r by (intro take_bit_word_of_int) auto
    then have "\<not> bit (word_of_int ?u :: guint32) 14" by (metis bit_take_bit_iff less_irrefl)
    then have "mono_metadata_decode_value (xs @ form2 (word_of_int ?u) @ ys) ?n = Inr (word_of_int ?u, ?n + 2)"
      using decode_form2 [of "word_of_int ?u" xs ys] t by simp
    then have "mono_metadata_decode_signed_value (xs @ form2 (word_of_int ?u) @ ys) ?n = Inr (unrotate ?u, ?n + 2)"
      using r by (intro decode_signed_unrotate) auto
    moreover have "encode_signed v = form2 (word_of_int ?u)" "length (encode_signed v) = 2"
      using 2 by (auto simp: encode_signed_def form2_def)
    ultimately show ?thesis using 2 unrotate_rotated(2) [of v] by (auto simp: signed_read_back_def)
  next
    case 3
    let ?u = "rotated 29 v"
    have r: "0 \<le> ?u" "?u < 2 ^ 29" using rotated_range [of 29 v] by auto
    have "take_bit 29 (word_of_int ?u :: guint32) = word_of_int ?u" using r by (intro take_bit_word_of_int) auto
    then have "mono_metadata_decode_value (xs @ form4 (word_of_int ?u) @ ys) ?n = Inr (word_of_int ?u, ?n + 4)"
      using decode_form4 [of xs "word_of_int ?u" ys] by simp
    then have "mono_metadata_decode_signed_value (xs @ form4 (word_of_int ?u) @ ys) ?n = Inr (unrotate ?u, ?n + 4)"
      using r by (intro decode_signed_unrotate) auto
    moreover have "encode_signed v = form4 (word_of_int ?u)" "length (encode_signed v) = 4"
      using 3 by (auto simp: encode_signed_def form4_def)
    moreover have "unrotate ?u = signed_read_back v"
      using 3 assms unrotate_rotated(3) [of v] by (auto simp: signed_read_back_def)
    ultimately show ?thesis by simp
  qed
  show "signed_read_back v = v \<longleftrightarrow> \<not> (-8192 \<le> v \<and> v < -8128) \<and> \<not> (v < - (2 ^ 28) + 8192)"
    using assms by (auto simp: signed_read_back_def)
qed

theorem signed_value_decodes_witness:
  "mono_metadata_decode_signed_value [0x80, 0x01] 0 = Inr (-64, 2) \<and> encode_signed (-8192) = [0x80, 0x01]"
proof -
  have e: "encode_signed (-8192) = [0x80, 0x01]"
    by (simp add: encode_signed_def form2_def rotated_def)
  show ?thesis using signed_value_decodes [of "-8192" "[]" "[]"] e by (simp add: signed_read_back_def)
qed

end
