(* ===== verification/Jit_Info_Table.thy ===== *)
theory Jit_Info_Table
  imports Mono_Prelude
begin

text \<open>
  The code-address index of \<open>mono/metadata/domain.c\<close>: the table that maps the address of a
  machine instruction to the \<open>MonoJitInfo\<close> of the jitted method it belongs to.  The table is a
  sequence of chunks of at most 64 entries, sorted by the end address of the code; removed
  methods leave tombstones behind.  Addresses and \<open>code_size\<close> are integers; pointer arithmetic
  in the source stays inside one code block, so it does not wrap.  The entries of a chunk are
  the prefix \<open>data [0 .. num_elements)\<close> of the C array, the only part of it that is ever read.
  A chunk is named by its position in the table, a \<open>MonoJitInfo\<close> by its own address.
  Every \<open>g_assert\<close> of the source is a branch that returns \<open>Inl Assert_failed\<close>.
\<close>

section \<open>Data\<close>

record MonoJitInfo =
  ji_self :: addr
  ji_method :: addr
  code_start :: addr
  code_size :: int

record MonoJitInfoTableChunk =
  refcount :: int
  last_code_end :: addr
  chunk_data :: "MonoJitInfo list"

record MonoJitInfoTable =
  table_domain :: addr
  chunks :: "MonoJitInfoTableChunk list"

abbreviation num_elements :: "MonoJitInfoTableChunk \<Rightarrow> nat" where
  "num_elements c \<equiv> length (chunk_data c)"

abbreviation num_chunks :: "MonoJitInfoTable \<Rightarrow> nat" where
  "num_chunks t \<equiv> length (chunks t)"

definition code_end :: "MonoJitInfo \<Rightarrow> addr" where
  "code_end ji = code_start ji + code_size ji"

definition IS_JIT_INFO_TOMBSTONE :: "MonoJitInfo \<Rightarrow> bool" where
  "IS_JIT_INFO_TOMBSTONE ji \<longleftrightarrow> ji_method ji = 0"

definition CHUNK_SIZE :: nat where
  "CHUNK_SIZE = 64"

definition FILLED_NUM_ELEMENTS :: nat where
  "FILLED_NUM_ELEMENTS = CHUNK_SIZE * 3 div 4"

definition LOW_WATERMARK :: "nat \<Rightarrow> nat" where
  "LOW_WATERMARK n = n div 2"

definition HIGH_WATERMARK :: "nat \<Rightarrow> nat" where
  "HIGH_WATERMARK n = n * 5 div 6"

section \<open>Counting and construction\<close>

definition jit_info_table_num_elements :: "MonoJitInfoTable \<Rightarrow> nat" where
  "jit_info_table_num_elements t =
     foldl (\<lambda>n c. foldl (\<lambda>m ji. if \<not> IS_JIT_INFO_TOMBSTONE ji then m + 1 else m) n (chunk_data c))
       0 (chunks t)"

definition jit_info_table_new_chunk :: MonoJitInfoTableChunk where
  "jit_info_table_new_chunk = \<lparr>refcount = 1, last_code_end = 0, chunk_data = []\<rparr>"

definition jit_info_table_new :: "addr \<Rightarrow> MonoJitInfoTable" where
  "jit_info_table_new d = \<lparr>table_domain = d, chunks = [jit_info_table_new_chunk]\<rparr>"

section \<open>Binary searches\<close>

function table_index_loop :: "MonoJitInfoTableChunk list \<Rightarrow> addr \<Rightarrow> nat \<Rightarrow> nat \<Rightarrow> nat" where
  "table_index_loop cs a left right =
     (if left < right then
        let pos = (left + right) div 2 in
        if a < last_code_end (cs ! pos) then table_index_loop cs a left pos
        else table_index_loop cs a (pos + 1) right
      else left)"
  by pat_completeness auto
termination
  by (relation "measure (\<lambda>(cs, a, left, right). right - left)") auto

definition jit_info_table_index :: "MonoJitInfoTable \<Rightarrow> addr \<Rightarrow> nat res" where
  "jit_info_table_index t a =
     (if \<not> 0 < num_chunks t then Inl Assert_failed
      else let left = table_index_loop (chunks t) a 0 (num_chunks t) in
        if left \<ge> num_chunks t then Inr (num_chunks t - 1) else Inr left)"

function chunk_index_loop :: "MonoJitInfo list \<Rightarrow> addr \<Rightarrow> nat \<Rightarrow> nat \<Rightarrow> nat" where
  "chunk_index_loop d a left right =
     (if left < right then
        let pos = (left + right) div 2 in
        if a < code_end (d ! pos) then chunk_index_loop d a left pos
        else chunk_index_loop d a (pos + 1) right
      else left)"
  by pat_completeness auto
termination
  by (relation "measure (\<lambda>(d, a, left, right). right - left)") auto

definition jit_info_table_chunk_index :: "MonoJitInfoTableChunk \<Rightarrow> addr \<Rightarrow> nat" where
  "jit_info_table_chunk_index c a = chunk_index_loop (chunk_data c) a 0 (num_elements c)"

declare table_index_loop.simps [simp del] chunk_index_loop.simps [simp del]

section \<open>Lookup\<close>

text \<open>
  The inner loop of the lookup ends in one of three ways: it returns an entry, it leaves the
  search with \<open>goto not_found\<close>, or it runs off the end of the chunk.
\<close>

datatype scan = Found MonoJitInfo | Not_found | Exhausted

fun scan_chunk :: "addr \<Rightarrow> MonoJitInfo list \<Rightarrow> scan" where
  "scan_chunk a [] = Exhausted"
| "scan_chunk a (ji # jis) =
     (if IS_JIT_INFO_TOMBSTONE ji then scan_chunk a jis
      else if a \<ge> code_start ji \<and> a < code_start ji + code_size ji then Found ji
      else if a < code_start ji then Not_found
      else scan_chunk a jis)"

fun scan_chunks :: "addr \<Rightarrow> nat \<Rightarrow> MonoJitInfoTableChunk list \<Rightarrow> MonoJitInfo option" where
  "scan_chunks a pos [] = None"
| "scan_chunks a pos (c # cs) =
     (case scan_chunk a (drop pos (chunk_data c)) of
        Found ji \<Rightarrow> Some ji
      | Not_found \<Rightarrow> None
      | Exhausted \<Rightarrow> scan_chunks a 0 cs)"

definition jit_info_table_scan :: "MonoJitInfoTable \<Rightarrow> addr \<Rightarrow> MonoJitInfo option res" where
  "jit_info_table_scan t a =
     bindr (jit_info_table_index t a) (\<lambda>chunk_pos.
     guardr (chunk_pos < num_chunks t) Assert_failed
       (Inr (scan_chunks a (jit_info_table_chunk_index (chunks t ! chunk_pos) a)
               (drop chunk_pos (chunks t)))))"

subsection \<open>Ahead-of-time compiled modules\<close>

record AotModuleInfo =
  aot_image :: addr
  aot_start :: addr
  aot_end :: addr

function aot_index_loop :: "AotModuleInfo list \<Rightarrow> addr \<Rightarrow> nat \<Rightarrow> nat \<Rightarrow> nat" where
  "aot_index_loop tab a left right =
     (if left < right then
        let pos = (left + right) div 2 in
        if a < aot_start (tab ! pos) then aot_index_loop tab a left pos
        else if a \<ge> aot_end (tab ! pos) then aot_index_loop tab a (pos + 1) right
        else pos
      else left)"
  by pat_completeness auto
termination
  by (relation "measure (\<lambda>(tab, a, left, right). right - left)") auto

declare aot_index_loop.simps [simp del]

definition aot_info_table_index :: "AotModuleInfo list \<Rightarrow> addr \<Rightarrow> nat" where
  "aot_info_table_index tab a = aot_index_loop tab a 0 (length tab)"

definition mono_jit_info_add_aot_module ::
    "AotModuleInfo list option \<Rightarrow> addr \<Rightarrow> addr \<Rightarrow> addr \<Rightarrow> AotModuleInfo list option" where
  "mono_jit_info_add_aot_module aot_modules img st en =
     (let ainfo = \<lparr>aot_image = img, aot_start = st, aot_end = en\<rparr>;
          tab = (case aot_modules of None \<Rightarrow> [] | Some tab \<Rightarrow> tab);
          pos = aot_info_table_index tab st
      in Some (take pos tab @ ainfo # drop pos tab))"

function find_aot_loop :: "AotModuleInfo list \<Rightarrow> addr \<Rightarrow> nat \<Rightarrow> nat \<Rightarrow> addr option" where
  "find_aot_loop tab a left right =
     (if left < right then
        let pos = (left + right) div 2 in
        if a < aot_start (tab ! pos) then find_aot_loop tab a left pos
        else if a \<ge> aot_end (tab ! pos) then find_aot_loop tab a (pos + 1) right
        else Some (aot_image (tab ! pos))
      else None)"
  by pat_completeness auto
termination
  by (relation "measure (\<lambda>(tab, a, left, right). right - left)") auto

declare find_aot_loop.simps [simp del]

definition mono_jit_info_find_aot_module :: "AotModuleInfo list option \<Rightarrow> addr \<Rightarrow> addr option" where
  "mono_jit_info_find_aot_module aot_modules a =
     (case aot_modules of None \<Rightarrow> None | Some tab \<Rightarrow> find_aot_loop tab a 0 (length tab))"

text \<open>
  \<open>hp\<close> says whether the calling thread has hazard pointers; \<open>find_in_aot\<close> is the callback the
  JIT installs with \<open>mono_install_jit_info_find_in_aot\<close>.
\<close>

definition mono_jit_info_table_find ::
    "bool \<Rightarrow> AotModuleInfo list option \<Rightarrow> (addr \<Rightarrow> addr \<Rightarrow> addr \<Rightarrow> MonoJitInfo option) \<Rightarrow>
     MonoJitInfoTable \<Rightarrow> addr \<Rightarrow> MonoJitInfo option res" where
  "mono_jit_info_table_find hp aot_modules find_in_aot t a =
     bindr (jit_info_table_scan t a) (\<lambda>r.
       case r of
         Some ji \<Rightarrow> Inr (Some ji)
       | None \<Rightarrow>
           if \<not> hp then Inr None
           else (case mono_jit_info_find_aot_module aot_modules a of
                   None \<Rightarrow> Inr None
                 | Some img \<Rightarrow> Inr (find_in_aot (table_domain t) img a)))"

section \<open>The consistency check of the source\<close>

definition first_nonempty :: "MonoJitInfoTableChunk list \<Rightarrow> MonoJitInfo option" where
  "first_nonempty cs = (case dropWhile (\<lambda>c. num_elements c = 0) cs of
     [] \<Rightarrow> None | c # _ \<Rightarrow> Some (chunk_data c ! 0))"

text \<open>
  One chunk of \<open>jit_info_table_check\<close>: \<open>rest\<close> are the chunks after it.  \<open>Inr False\<close> is the early
  \<open>return\<close> of the source (no entry follows), \<open>Inr True\<close> goes on with the next chunk.
\<close>

fun check_entries ::
    "MonoJitInfoTableChunk \<Rightarrow> MonoJitInfo list \<Rightarrow> MonoJitInfoTableChunk list \<Rightarrow> bool res" where
  "check_entries c [] rest = Inr True"
| "check_entries c (x # y # ys) rest =
     guardr (code_end x \<le> last_code_end c) Assert_failed
       (guardr (code_end x \<le> code_end y) Assert_failed (check_entries c (y # ys) rest))"
| "check_entries c [x] rest =
     guardr (code_end x \<le> last_code_end c) Assert_failed
       (case first_nonempty rest of
          None \<Rightarrow> Inr False
        | Some y \<Rightarrow> guardr (code_end x \<le> code_end y) Assert_failed (Inr True))"

fun check_chunks :: "MonoJitInfoTableChunk list \<Rightarrow> unit res" where
  "check_chunks [] = Inr ()"
| "check_chunks (c # cs) =
     guardr (refcount c > 0) Assert_failed
       (guardr (num_elements c \<le> CHUNK_SIZE) Assert_failed
         (bindr (check_entries c (chunk_data c) cs) (\<lambda>go.
            if go then check_chunks cs else Inr ())))"

definition jit_info_table_check :: "MonoJitInfoTable \<Rightarrow> unit res" where
  "jit_info_table_check t = check_chunks (chunks t)"

section \<open>Making room: reallocation, splitting, purifying\<close>

text \<open>
  The copy loop of \<open>jit_info_table_realloc\<close>: \<open>done\<close> are the new chunks already closed (their
  number is \<open>new_chunk\<close>), \<open>cur\<close> the entries of the chunk being filled (\<open>new_element\<close> of them).
\<close>

fun realloc_fill ::
    "nat \<Rightarrow> MonoJitInfo list list \<Rightarrow> MonoJitInfo list \<Rightarrow> MonoJitInfo list \<Rightarrow>
     (MonoJitInfo list list \<times> MonoJitInfo list) res" where
  "realloc_fill n closed cur [] = Inr (closed, cur)"
| "realloc_fill n closed cur (ji # jis) =
     (if \<not> IS_JIT_INFO_TOMBSTONE ji then
        guardr (length closed < n) Assert_failed
          (if length (cur @ [ji]) \<ge> FILLED_NUM_ELEMENTS
           then realloc_fill n (closed @ [cur @ [ji]]) [] jis
           else realloc_fill n closed (cur @ [ji]) jis)
      else realloc_fill n closed cur jis)"

fun realloc_fill_chunks ::
    "nat \<Rightarrow> MonoJitInfo list list \<Rightarrow> MonoJitInfo list \<Rightarrow> MonoJitInfoTableChunk list \<Rightarrow>
     (MonoJitInfo list list \<times> MonoJitInfo list) res" where
  "realloc_fill_chunks n closed cur [] = Inr (closed, cur)"
| "realloc_fill_chunks n closed cur (c # cs) =
     bindr (realloc_fill n closed cur (chunk_data c))
       (\<lambda>(closed', cur'). realloc_fill_chunks n closed' cur' cs)"

definition chunk_of_data :: "MonoJitInfo list \<Rightarrow> MonoJitInfoTableChunk res" where
  "chunk_of_data d =
     guardr (0 < length d) Out_of_bounds
       (Inr (jit_info_table_new_chunk
          \<lparr>chunk_data := d, last_code_end := code_end (d ! (length d - 1))\<rparr>))"

fun close_chunks :: "MonoJitInfo list list \<Rightarrow> MonoJitInfoTableChunk list res" where
  "close_chunks [] = Inr []"
| "close_chunks (d # ds) = bindr (chunk_of_data d) (\<lambda>c. bindr (close_chunks ds) (\<lambda>cs. Inr (c # cs)))"

definition realloc_num_chunks :: "nat \<Rightarrow> nat" where
  "realloc_num_chunks n = (n * 4 div 3 + CHUNK_SIZE - 1) div CHUNK_SIZE"

definition jit_info_table_realloc :: "MonoJitInfoTable \<Rightarrow> MonoJitInfoTable res" where
  "jit_info_table_realloc old =
     (let n = realloc_num_chunks (jit_info_table_num_elements old) in
      bindr (realloc_fill_chunks n [] [] (chunks old)) (\<lambda>(closed, cur).
      bindr (if length closed < n then
               guardr (length closed = n - 1) Assert_failed
                 (guardr (0 < length cur) Assert_failed (Inr (closed @ [cur])))
             else Inr closed) (\<lambda>ds.
      bindr (close_chunks ds) (\<lambda>cs. Inr \<lparr>table_domain = table_domain old, chunks = cs\<rparr>))))"

definition jit_info_table_split_chunk ::
    "MonoJitInfoTableChunk \<Rightarrow> (MonoJitInfoTableChunk \<times> MonoJitInfoTableChunk) res" where
  "jit_info_table_split_chunk c =
     guardr (num_elements c = CHUNK_SIZE) Assert_failed
       (let n1 = CHUNK_SIZE div 2; n2 = CHUNK_SIZE - n1;
            d1 = take n1 (chunk_data c); d2 = take n2 (drop n1 (chunk_data c))
        in Inr (jit_info_table_new_chunk\<lparr>chunk_data := d1, last_code_end := code_end (d1 ! (n1 - 1))\<rparr>,
                jit_info_table_new_chunk\<lparr>chunk_data := d2, last_code_end := code_end (d2 ! (n2 - 1))\<rparr>))"

definition retain :: "MonoJitInfoTableChunk \<Rightarrow> MonoJitInfoTableChunk" where
  "retain c = c\<lparr>refcount := refcount c + 1\<rparr>"

definition jit_info_table_copy_and_split_chunk ::
    "MonoJitInfoTable \<Rightarrow> nat \<Rightarrow> MonoJitInfoTable res" where
  "jit_info_table_copy_and_split_chunk t i =
     bindr (jit_info_table_split_chunk (chunks t ! i)) (\<lambda>(c1, c2).
       Inr (t\<lparr>chunks := map retain (take i (chunks t)) @ [c1, c2] @
                        map retain (drop (Suc i) (chunks t))\<rparr>))"

definition jit_info_table_purify_chunk :: "MonoJitInfoTableChunk \<Rightarrow> MonoJitInfoTableChunk" where
  "jit_info_table_purify_chunk old =
     (let d = filter (\<lambda>ji. \<not> IS_JIT_INFO_TOMBSTONE ji) (chunk_data old); j = length d in
      jit_info_table_new_chunk
        \<lparr>chunk_data := d,
         last_code_end := (if 0 < j then code_end (d ! (j - 1)) else last_code_end old)\<rparr>)"

definition jit_info_table_copy_and_purify_chunk :: "MonoJitInfoTable \<Rightarrow> nat \<Rightarrow> MonoJitInfoTable" where
  "jit_info_table_copy_and_purify_chunk t i =
     t\<lparr>chunks := map retain (take i (chunks t)) @ [jit_info_table_purify_chunk (chunks t ! i)] @
                 map retain (drop (Suc i) (chunks t))\<rparr>"

definition jit_info_table_chunk_overflow :: "MonoJitInfoTable \<Rightarrow> nat \<Rightarrow> MonoJitInfoTable res" where
  "jit_info_table_chunk_overflow t i =
     (let n = jit_info_table_num_elements t in
      if n < LOW_WATERMARK (num_chunks t * CHUNK_SIZE) \<or>
         n > HIGH_WATERMARK (num_chunks t * CHUNK_SIZE)
      then jit_info_table_realloc t
      else if foldl (\<lambda>m ji. if \<not> IS_JIT_INFO_TOMBSTONE ji then m + 1 else m) 0
                (chunk_data (chunks t ! i)) = CHUNK_SIZE
      then jit_info_table_copy_and_split_chunk t i
      else Inr (jit_info_table_copy_and_purify_chunk t i))"

section \<open>Insertion and removal\<close>

text \<open>
  Insertion into a chunk writes one array cell at a time, since readers do not take the lock.
  \<open>shift_up k pos d\<close> is the loop that copies cell \<open>k - 1\<close> to cell \<open>k\<close> for \<open>k\<close> counting down
  to \<open>pos + 1\<close>; \<open>shift_states\<close> lists every content of the array that a reader can see
  during that loop.
\<close>

fun shift_up :: "nat \<Rightarrow> nat \<Rightarrow> MonoJitInfo list \<Rightarrow> MonoJitInfo list" where
  "shift_up 0 pos d = d"
| "shift_up (Suc k) pos d = (if Suc k > pos then shift_up k pos (d[Suc k := d ! k]) else d)"

fun shift_states :: "nat \<Rightarrow> nat \<Rightarrow> MonoJitInfo list \<Rightarrow> MonoJitInfo list list" where
  "shift_states 0 pos d = [d]"
| "shift_states (Suc k) pos d =
     d # (if Suc k > pos then shift_states k pos (d[Suc k := d ! k]) else [])"

definition size_up :: "MonoJitInfo list \<Rightarrow> MonoJitInfo \<Rightarrow> MonoJitInfo list" where
  "size_up d ji = (if 0 < length d then d @ [d ! (length d - 1)] else [ji])"

definition chunk_insert :: "MonoJitInfoTableChunk \<Rightarrow> MonoJitInfo \<Rightarrow> MonoJitInfoTableChunk" where
  "chunk_insert c ji =
     (let pos = jit_info_table_chunk_index c (code_start ji + code_size ji);
          d1 = size_up (chunk_data c) ji;
          d2 = shift_up (length d1 - 1) pos d1;
          d3 = d2[pos := ji]
      in c\<lparr>chunk_data := d3, last_code_end := code_end (d3 ! (length d3 - 1))\<rparr>)"

definition chunk_insert_states :: "MonoJitInfoTableChunk \<Rightarrow> MonoJitInfo \<Rightarrow> MonoJitInfoTableChunk list" where
  "chunk_insert_states c ji =
     (let pos = jit_info_table_chunk_index c (code_start ji + code_size ji);
          d1 = size_up (chunk_data c) ji;
          d2 = shift_up (length d1 - 1) pos d1
      in map (\<lambda>d. c\<lparr>chunk_data := d\<rparr>)
           (chunk_data c # shift_states (length d1 - 1) pos d1 @ [d2[pos := ji]]) @
         [chunk_insert c ji])"

text \<open>
  The part of a \<open>MonoDomain\<close> the table operations touch.  \<open>retired\<close> are the tables handed to
  \<open>mono_thread_hazardous_free_or_queue\<close>, \<open>hazard_freed\<close> the entries handed to it, and
  \<open>next_block\<close> is the address the next \<open>g_new0\<close> returns.
\<close>

record MonoDomain =
  jit_info_table :: MonoJitInfoTable
  num_jit_info_tables :: int
  jit_info_free_queue :: "addr list"
  retired :: "MonoJitInfoTable list"
  hazard_freed :: "addr list"
  next_block :: addr

text \<open>The table of a new domain, as \<open>mono_domain_create\<close> sets it up.\<close>

definition new_domain :: "addr \<Rightarrow> addr \<Rightarrow> MonoDomain" where
  "new_domain self frontier =
     \<lparr>jit_info_table = jit_info_table_new self, num_jit_info_tables = 1, jit_info_free_queue = [],
      retired = [], hazard_freed = [], next_block = frontier\<rparr>"

partial_function (option) add_restart :: "MonoDomain \<Rightarrow> MonoJitInfo \<Rightarrow> MonoDomain res option" where
  "add_restart d ji =
     (let t = jit_info_table d in
      case jit_info_table_index t (code_start ji + code_size ji) of
        Inl e \<Rightarrow> Some (Inl e)
      | Inr i \<Rightarrow>
          if \<not> i < num_chunks t then Some (Inl Assert_failed)
          else if num_elements (chunks t ! i) \<ge> CHUNK_SIZE then
            (case jit_info_table_chunk_overflow t i of
               Inl e \<Rightarrow> Some (Inl e)
             | Inr t' \<Rightarrow>
                 add_restart (d\<lparr>jit_info_table := t',
                                num_jit_info_tables := num_jit_info_tables d + 1,
                                retired := t # retired d\<rparr>) ji)
          else Some (Inr (d\<lparr>jit_info_table :=
                 t\<lparr>chunks := (chunks t)[i := chunk_insert (chunks t ! i) ji]\<rparr>\<rparr>)))"

definition mono_jit_info_table_add :: "MonoDomain \<Rightarrow> MonoJitInfo \<Rightarrow> MonoDomain res option" where
  "mono_jit_info_table_add d ji =
     (if ji_method ji = 0 then Some (Inl Assert_failed) else add_restart d ji)"

definition mono_jit_info_make_tombstone :: "addr \<Rightarrow> MonoJitInfo \<Rightarrow> MonoJitInfo" where
  "mono_jit_info_make_tombstone fresh ji =
     \<lparr>ji_self = fresh, ji_method = 0, code_start = code_start ji, code_size = code_size ji\<rparr>"

definition mono_jit_info_free_or_queue :: "MonoDomain \<Rightarrow> MonoJitInfo \<Rightarrow> MonoDomain" where
  "mono_jit_info_free_or_queue d ji =
     (if num_jit_info_tables d \<le> 1 then d\<lparr>hazard_freed := ji_self ji # hazard_freed d\<rparr>
      else d\<lparr>jit_info_free_queue := ji_self ji # jit_info_free_queue d\<rparr>)"

text \<open>
  The search loop of the removal: it yields the position of the entry in the chunk, \<open>None\<close>
  when the chunk is exhausted, and fails where one of the two assertions of the loop fails.
\<close>

fun remove_scan :: "MonoJitInfo \<Rightarrow> nat \<Rightarrow> MonoJitInfo list \<Rightarrow> nat option res" where
  "remove_scan ji pos [] = Inr None"
| "remove_scan ji pos (x # xs) =
     (if ji_self x = ji_self ji then Inr (Some pos)
      else guardr (IS_JIT_INFO_TOMBSTONE x) Assert_failed
        (guardr (code_end x \<le> code_end ji) Assert_failed (remove_scan ji (Suc pos) xs)))"

text \<open>
  When the last chunk is exhausted the loop ends with \<open>pos = 0\<close> and the assertion at the
  label \<open>found\<close> compares the first entry of that chunk.
\<close>

fun remove_search ::
    "MonoJitInfo \<Rightarrow> nat \<Rightarrow> nat \<Rightarrow> MonoJitInfoTableChunk list \<Rightarrow> (nat \<times> nat) res" where
  "remove_search ji i pos [] = Inl Assert_failed"
| "remove_search ji i pos (c # cs) =
     bindr (remove_scan ji pos (drop pos (chunk_data c))) (\<lambda>r.
       case r of
         Some p \<Rightarrow> Inr (i, p)
       | None \<Rightarrow>
           if cs = [] then
             guardr (0 < num_elements c \<and> ji_self (chunk_data c ! 0) = ji_self ji) Assert_failed
               (Inr (i, 0))
           else remove_search ji (Suc i) 0 cs)"

definition mono_jit_info_table_remove :: "MonoDomain \<Rightarrow> MonoJitInfo \<Rightarrow> MonoDomain res" where
  "mono_jit_info_table_remove d ji =
     (let t = jit_info_table d in
      bindr (jit_info_table_index t (code_start ji)) (\<lambda>i0.
      guardr (i0 < num_chunks t) Assert_failed
        (bindr (remove_search ji i0 (jit_info_table_chunk_index (chunks t ! i0) (code_start ji))
                  (drop i0 (chunks t))) (\<lambda>(i, p).
           let c = chunks t ! i;
               c' = c\<lparr>chunk_data := (chunk_data c)[p := mono_jit_info_make_tombstone (next_block d) ji]\<rparr>
           in Inr (mono_jit_info_free_or_queue
                (d\<lparr>jit_info_table := t\<lparr>chunks := (chunks t)[i := c']\<rparr>,
                   next_block := next_block d + 1\<rparr>) ji)))))"

end
