(* ===== verification/Jit_Info_Table_Proofs.thy ===== *)
theory Jit_Info_Table_Proofs
  imports Jit_Info_Table
begin

text \<open>
  Correctness of the code-address index: the table invariant, the lookup against the set of
  live entries, insertion and removal, and the states a lock-free reader can observe.
\<close>

section \<open>Invariant\<close>

definition entries :: "MonoJitInfoTable \<Rightarrow> MonoJitInfo list" where
  "entries t = concat (map chunk_data (chunks t))"

abbreviation is_live :: "MonoJitInfo \<Rightarrow> bool" where
  "is_live ji \<equiv> \<not> IS_JIT_INFO_TOMBSTONE ji"

definition live :: "MonoJitInfoTable \<Rightarrow> MonoJitInfo set" where
  "live t = set (filter is_live (entries t))"

definition covers :: "MonoJitInfo \<Rightarrow> addr \<Rightarrow> bool" where
  "covers ji a \<longleftrightarrow> code_start ji \<le> a \<and> a < code_end ji"

definition precedes :: "MonoJitInfo \<Rightarrow> MonoJitInfo \<Rightarrow> bool" where
  "precedes x y \<longleftrightarrow> code_end x \<le> code_end y \<and> (is_live x \<and> is_live y \<longrightarrow> code_end x \<le> code_start y)"

definition chunk_wf :: "MonoJitInfoTableChunk \<Rightarrow> bool" where
  "chunk_wf c \<longleftrightarrow> num_elements c \<le> CHUNK_SIZE \<and> 0 < refcount c \<and>
     (\<forall>x \<in> set (chunk_data c). 0 < code_size x \<and> code_end x \<le> last_code_end c)"

definition chunk_precedes :: "MonoJitInfoTableChunk \<Rightarrow> MonoJitInfoTableChunk \<Rightarrow> bool" where
  "chunk_precedes c c' \<longleftrightarrow> last_code_end c \<le> last_code_end c' \<and>
     (\<forall>y \<in> set (chunk_data c'). last_code_end c \<le> code_end y)"

definition chunks_wf :: "MonoJitInfoTableChunk list \<Rightarrow> bool" where
  "chunks_wf cs \<longleftrightarrow> (\<forall>c \<in> set cs. chunk_wf c) \<and> sorted_wrt chunk_precedes cs \<and>
     sorted_wrt precedes (concat (map chunk_data cs))"

definition table_wf :: "MonoJitInfoTable \<Rightarrow> bool" where
  "table_wf t \<longleftrightarrow> chunks t \<noteq> [] \<and> chunks_wf (chunks t)"

definition apart :: "MonoJitInfo \<Rightarrow> MonoJitInfo \<Rightarrow> bool" where
  "apart x y \<longleftrightarrow> code_end x \<le> code_start y \<or> code_end y \<le> code_start x"

lemma chunks_wf_append:
  "chunks_wf (xs @ ys) \<longleftrightarrow> chunks_wf xs \<and> chunks_wf ys \<and>
     (\<forall>c \<in> set xs. \<forall>c' \<in> set ys. chunk_precedes c c' \<and>
        (\<forall>x \<in> set (chunk_data c). \<forall>y \<in> set (chunk_data c'). precedes x y))"
  by (auto simp: chunks_wf_def sorted_wrt_append)

lemma chunks_wf_Cons:
  "chunks_wf (c # cs) \<longleftrightarrow> chunk_wf c \<and> sorted_wrt precedes (chunk_data c) \<and> chunks_wf cs \<and>
     (\<forall>c' \<in> set cs. chunk_precedes c c' \<and>
        (\<forall>x \<in> set (chunk_data c). \<forall>y \<in> set (chunk_data c'). precedes x y))"
  by (auto simp: chunks_wf_def sorted_wrt_append)

lemma chunks_wf_Nil [simp]: "chunks_wf []"
  by (simp add: chunks_wf_def)

lemma entries_positive: "chunks_wf cs \<Longrightarrow> x \<in> set (concat (map chunk_data cs)) \<Longrightarrow> 0 < code_size x"
  by (auto simp: chunks_wf_def chunk_wf_def)

lemma table_positive: "table_wf t \<Longrightarrow> x \<in> set (entries t) \<Longrightarrow> 0 < code_size x"
  unfolding table_wf_def entries_def using entries_positive by blast

lemma table_sorted: "table_wf t \<Longrightarrow> sorted_wrt precedes (entries t)"
  by (simp add: table_wf_def chunks_wf_def entries_def)

lemma chunk_sorted: "chunks_wf cs \<Longrightarrow> c \<in> set cs \<Longrightarrow> sorted_wrt precedes (chunk_data c)"
  by (induction cs) (auto simp: chunks_wf_Cons)

text \<open>
  What a lookup needs of a table is less than the invariant, and it also holds between the
  single writes of an insertion: an entry may be there twice, and the end address recorded
  for the last chunk may lag behind.
\<close>

abbreviation ends_sorted :: "MonoJitInfo list \<Rightarrow> bool" where
  "ends_sorted \<equiv> sorted_wrt (\<lambda>x y. code_end x \<le> code_end y)"

definition precedes_eq :: "MonoJitInfo \<Rightarrow> MonoJitInfo \<Rightarrow> bool" where
  "precedes_eq x y \<longleftrightarrow> x = y \<or> precedes x y"

definition readable :: "MonoJitInfoTable \<Rightarrow> bool" where
  "readable t \<longleftrightarrow> chunks t \<noteq> [] \<and> sorted_wrt chunk_precedes (chunks t) \<and>
     sorted_wrt precedes_eq (entries t) \<and> (\<forall>x \<in> set (entries t). 0 < code_size x) \<and>
     (\<forall>c \<in> set (butlast (chunks t)). \<forall>x \<in> set (chunk_data c). code_end x \<le> last_code_end c)"

lemma precedes_ends: "sorted_wrt precedes xs \<Longrightarrow> ends_sorted xs"
  by (erule sorted_wrt_mono_rel [rotated]) (simp add: precedes_def)

lemma precedes_eq_ends: "sorted_wrt precedes_eq xs \<Longrightarrow> ends_sorted xs"
  by (erule sorted_wrt_mono_rel [rotated]) (auto simp: precedes_eq_def precedes_def)

lemma table_wf_readable: "table_wf t \<Longrightarrow> readable t"
proof -
  assume t: "table_wf t"
  have "sorted_wrt precedes_eq (entries t)"
    by (rule sorted_wrt_mono_rel [OF _ table_sorted [OF t]]) (simp add: precedes_eq_def)
  then show ?thesis
    using t table_positive [OF t]
    by (auto simp: readable_def table_wf_def chunks_wf_def chunk_wf_def dest: in_set_butlastD)
qed

lemma readable_chunk_sorted:
  assumes "readable t" "c \<in> set (chunks t)"
  shows "ends_sorted (chunk_data c)"
proof -
  obtain xs ys where "chunks t = xs @ c # ys" using assms(2) by (metis split_list)
  then show ?thesis
    using precedes_eq_ends [of "entries t"] assms(1)
    by (simp add: readable_def entries_def sorted_wrt_append)
qed

section \<open>The searches find the partition point\<close>

interpretation table_search: partition_search "table_index_loop cs a" "\<lambda>i. a < last_code_end (cs ! i)"
  for cs a
  by unfold_locales (simp add: table_index_loop.simps [of cs a] Let_def)

interpretation chunk_search: partition_search "chunk_index_loop d a" "\<lambda>i. a < code_end (d ! i)"
  for d a
  by unfold_locales (simp add: chunk_index_loop.simps [of d a] Let_def)

lemma last_code_end_mono:
  "sorted_wrt chunk_precedes cs \<Longrightarrow> i \<le> j \<Longrightarrow> j < length cs \<Longrightarrow>
   last_code_end (cs ! i) \<le> last_code_end (cs ! j)"
  by (cases "i = j") (auto simp: sorted_wrt_iff_nth_less chunk_precedes_def)

lemma code_end_mono:
  "ends_sorted d \<Longrightarrow> i \<le> j \<Longrightarrow> j < length d \<Longrightarrow> code_end (d ! i) \<le> code_end (d ! j)"
  by (cases "i = j") (auto simp: sorted_wrt_iff_nth_less)

lemma table_index_point:
  assumes "sorted_wrt chunk_precedes cs"
  shows "table_index_loop cs a 0 (length cs) \<le> length cs"
    and "i < table_index_loop cs a 0 (length cs) \<Longrightarrow> last_code_end (cs ! i) \<le> a"
    and "i < length cs \<Longrightarrow> table_index_loop cs a 0 (length cs) \<le> i \<Longrightarrow> a < last_code_end (cs ! i)"
proof -
  let ?l = "table_index_loop cs a 0 (length cs)"
  have *: "?l \<le> length cs \<and> (\<forall>i < ?l. \<not> a < last_code_end (cs ! i)) \<and>
      (\<forall>i < length cs. ?l \<le> i \<longrightarrow> a < last_code_end (cs ! i))"
    by (rule table_search.partition_point) (use last_code_end_mono [OF assms] order_less_le_trans in blast)
  show "table_index_loop cs a 0 (length cs) \<le> length cs" using * by blast
  show "last_code_end (cs ! i) \<le> a" if "i < table_index_loop cs a 0 (length cs)"
    using * that by (meson not_le)
  show "a < last_code_end (cs ! i)" if "i < length cs" "table_index_loop cs a 0 (length cs) \<le> i"
    using * that by blast
qed

lemma chunk_index_point:
  assumes "ends_sorted (chunk_data c)"
  shows "jit_info_table_chunk_index c a \<le> num_elements c"
    and "i < jit_info_table_chunk_index c a \<Longrightarrow> code_end (chunk_data c ! i) \<le> a"
    and "i < num_elements c \<Longrightarrow> jit_info_table_chunk_index c a \<le> i \<Longrightarrow> a < code_end (chunk_data c ! i)"
proof -
  let ?l = "jit_info_table_chunk_index c a"
  have *: "?l \<le> num_elements c \<and> (\<forall>i < ?l. \<not> a < code_end (chunk_data c ! i)) \<and>
      (\<forall>i < num_elements c. ?l \<le> i \<longrightarrow> a < code_end (chunk_data c ! i))"
    unfolding jit_info_table_chunk_index_def
    by (rule chunk_search.partition_point) (use code_end_mono [OF assms] order_less_le_trans in blast)
  show "jit_info_table_chunk_index c a \<le> num_elements c" using * by blast
  show "code_end (chunk_data c ! i) \<le> a" if "i < jit_info_table_chunk_index c a"
    using * that by (meson not_le)
  show "a < code_end (chunk_data c ! i)" if "i < num_elements c" "jit_info_table_chunk_index c a \<le> i"
    using * that by blast
qed

lemma jit_info_table_index_spec:
  assumes "readable t"
  obtains i where "jit_info_table_index t a = Inr i" and "i < num_chunks t"
    and "\<And>j. j < i \<Longrightarrow> last_code_end (chunks t ! j) \<le> a"
    and "i < num_chunks t - 1 \<Longrightarrow> a < last_code_end (chunks t ! i)"
proof -
  let ?l = "table_index_loop (chunks t) a 0 (num_chunks t)"
  have s: "sorted_wrt chunk_precedes (chunks t)" and ne: "0 < num_chunks t"
    using assms by (auto simp: readable_def)
  show thesis
  proof (cases "?l \<ge> num_chunks t")
    case True
    then have "jit_info_table_index t a = Inr (num_chunks t - 1)"
      using ne by (simp add: jit_info_table_index_def)
    moreover have "last_code_end (chunks t ! j) \<le> a" if "j < num_chunks t - 1" for j
      using table_index_point(2) [OF s, of j a] True that by simp
    ultimately show ?thesis using that ne by simp
  next
    case False
    then have "jit_info_table_index t a = Inr ?l"
      using ne by (simp add: jit_info_table_index_def)
    then show ?thesis
      using that table_index_point [OF s] False by (metis not_le order_refl)
  qed
qed

section \<open>Lookup\<close>

text \<open>Entries that end at or before the address are passed over without ending the search.\<close>

lemma scan_chunk_skip:
  "(\<And>x. x \<in> set ys \<Longrightarrow> code_end x \<le> a \<and> 0 < code_size x) \<Longrightarrow>
   scan_chunk a (ys @ zs) = scan_chunk a zs"
  by (induction ys) (force simp: code_end_def)+

lemma scan_chunk_append:
  "scan_chunk a (xs @ ys) =
     (case scan_chunk a xs of Exhausted \<Rightarrow> scan_chunk a ys | r \<Rightarrow> r)"
  by (induction xs) auto

fun scan_result :: "scan \<Rightarrow> MonoJitInfo option" where
  "scan_result (Found ji) = Some ji"
| "scan_result Not_found = None"
| "scan_result Exhausted = None"

lemma scan_chunks_concat:
  "scan_chunks a 0 cs = scan_result (scan_chunk a (concat (map chunk_data cs)))"
  by (induction cs) (auto simp: scan_chunk_append split: scan.splits)

lemma scan_chunks_flat:
  "scan_chunks a pos (c # cs) =
     scan_result (scan_chunk a (drop pos (chunk_data c) @ concat (map chunk_data cs)))"
  by (auto simp: scan_chunk_append scan_chunks_concat split: scan.splits)

text \<open>
  The two searches together cut the sequence of entries at the address: the entries before the
  position end at or before it, the entries from the position on end after it.
\<close>

lemma search_position:
  assumes "readable t"
  obtains i pre R where "jit_info_table_index t a = Inr i" "i < num_chunks t"
    and "R = drop (jit_info_table_chunk_index (chunks t ! i) a) (chunk_data (chunks t ! i)) @
      concat (map chunk_data (drop (Suc i) (chunks t)))"
    and "entries t = pre @ R"
    and "\<And>x. x \<in> set pre \<Longrightarrow> code_end x \<le> a \<and> 0 < code_size x"
    and "\<And>x. x \<in> set R \<Longrightarrow> a < code_end x"
proof -
  obtain i where i: "jit_info_table_index t a = Inr i" "i < num_chunks t"
    and below: "\<And>j. j < i \<Longrightarrow> last_code_end (chunks t ! j) \<le> a"
    and above: "i < num_chunks t - 1 \<Longrightarrow> a < last_code_end (chunks t ! i)"
    using jit_info_table_index_spec [OF assms] by metis
  let ?c = "chunks t ! i" and ?ys = "drop (Suc i) (chunks t)"
  let ?p = "jit_info_table_chunk_index ?c a"
  let ?pre = "concat (map chunk_data (take i (chunks t))) @ take ?p (chunk_data ?c)"
  let ?R = "drop ?p (chunk_data ?c) @ concat (map chunk_data ?ys)"
  have c: "?c \<in> set (chunks t)" using i by simp
  have positive: "0 < code_size x" if "c' \<in> set (chunks t)" "x \<in> set (chunk_data c')" for x c'
    using assms that by (auto simp: readable_def entries_def)
  note point = chunk_index_point [OF readable_chunk_sorted [OF assms c], where a = a]
  have p1: "code_end x \<le> a \<and> 0 < code_size x"
    if x: "x \<in> set (concat (map chunk_data (take i (chunks t))))" for x
  proof -
    obtain c' where "c' \<in> set (take i (chunks t))" "x \<in> set (chunk_data c')" using x by auto
    then obtain j where "j < i" "x \<in> set (chunk_data (chunks t ! j))"
      using in_set_take_nth by metis
    moreover from this have "chunks t ! j \<in> set (butlast (chunks t))"
      using i by (metis butlast_conv_take in_set_conv_nth length_butlast less_trans_Suc
          less_diff_conv less_eq_Suc_le nth_butlast Suc_eq_plus1 order_less_le_trans)
    ultimately show ?thesis
      using below [of j] assms positive [of "chunks t ! j" x]
      by (fastforce simp: readable_def dest: in_set_butlastD)
  qed
  have p2: "code_end x \<le> a \<and> 0 < code_size x" if x: "x \<in> set (take ?p (chunk_data ?c))" for x
    using in_set_take_nth [OF x] point(2) positive [OF c] by (metis in_set_takeD x)
  have p3: "a < code_end x" if x: "x \<in> set (drop ?p (chunk_data ?c))" for x
    using x point(3) by (auto simp: in_set_conv_nth)
  have p4: "a < code_end x" if x: "x \<in> set (concat (map chunk_data ?ys))" for x
  proof -
    obtain c' where c': "c' \<in> set ?ys" "x \<in> set (chunk_data c')" using x by auto
    then have "chunk_precedes ?c c'"
      using assms i(2) unfolding readable_def
      by (metis id_take_nth_drop sorted_wrt.simps(2) sorted_wrt_append)
    then show ?thesis using above c' by (force simp: chunk_precedes_def)
  qed
  have ent: "entries t = ?pre @ ?R"
    using i by (simp add: entries_def concat_map_take_drop)
  show thesis
  proof (rule that [OF i refl ent])
    show "code_end x \<le> a \<and> 0 < code_size x" if "x \<in> set ?pre" for x
      using that p1 p2 unfolding set_append by blast
    show "a < code_end x" if "x \<in> set ?R" for x
      using that p3 p4 unfolding set_append by blast
  qed
qed

lemma jit_info_table_scan_eq:
  assumes "readable t"
  shows "jit_info_table_scan t a = Inr (scan_result (scan_chunk a (entries t)))"
proof -
  obtain i pre R where i: "jit_info_table_index t a = Inr i" "i < num_chunks t"
    and R: "R = drop (jit_info_table_chunk_index (chunks t ! i) a) (chunk_data (chunks t ! i)) @
      concat (map chunk_data (drop (Suc i) (chunks t)))" "entries t = pre @ R"
    and skip: "\<And>x. x \<in> set pre \<Longrightarrow> code_end x \<le> a \<and> 0 < code_size x"
    using search_position [OF assms] by metis
  have "drop i (chunks t) = chunks t ! i # drop (Suc i) (chunks t)"
    using i by (simp add: Cons_nth_drop_Suc)
  moreover have "scan_chunk a (entries t) = scan_chunk a R"
    unfolding R(2) by (rule scan_chunk_skip) (rule skip)
  ultimately show ?thesis
    using i R(1) by (simp add: jit_info_table_scan_def scan_chunks_flat del: scan_chunks.simps)
qed

lemma scan_chunk_finds:
  assumes "sorted_wrt precedes_eq xs" and "\<And>x. x \<in> set xs \<Longrightarrow> 0 < code_size x"
  shows "scan_result (scan_chunk a xs) = Some ji \<longleftrightarrow> ji \<in> set xs \<and> is_live ji \<and> covers ji a"
  using assms
proof (induction xs)
  case Nil
  then show ?case by simp
next
  case (Cons x xs)
  have later: "y = x \<or> code_end x \<le> code_start y" if "y \<in> set xs" "is_live x" "is_live y" for y
    using Cons.prems(1) that by (auto simp: precedes_eq_def precedes_def)
  have pos: "0 < code_size x" "\<And>y. y \<in> set xs \<Longrightarrow> 0 < code_size y" using Cons.prems by auto
  have IH: "scan_result (scan_chunk a xs) = Some ji \<longleftrightarrow> ji \<in> set xs \<and> is_live ji \<and> covers ji a"
    using Cons by simp
  show ?case
  proof (cases "is_live x \<and> a < code_end x")
    case False
    then show ?thesis using IH pos(1) by (auto simp: covers_def code_end_def)
  next
    case True
    then have "y = x \<or> \<not> covers y a" if "y \<in> set xs" "is_live y" for y
      using later [OF that(1) _ that(2)] by (auto simp: covers_def)
    then show ?thesis using True pos by (auto simp: covers_def code_end_def)
  qed
qed

lemma readable_scan_live:
  assumes "readable t"
  shows "jit_info_table_scan t a = Inr (Some ji) \<longleftrightarrow> ji \<in> live t \<and> covers ji a"
proof -
  show ?thesis
    using scan_chunk_finds [of "entries t" a ji] assms
    by (auto simp: jit_info_table_scan_eq live_def readable_def)
qed

lemmas jit_info_table_scan_live = readable_scan_live [OF table_wf_readable]

lemma jit_info_table_scan_none:
  assumes "table_wf t"
  shows "jit_info_table_scan t a = Inr None \<longleftrightarrow> (\<forall>ji \<in> live t. \<not> covers ji a)"
proof -
  obtain r where r: "jit_info_table_scan t a = Inr r" using jit_info_table_scan_eq [OF table_wf_readable [OF assms]] by blast
  show ?thesis
    using jit_info_table_scan_live [OF assms, of a] r by (cases r) auto
qed

lemma live_covers_unique:
  assumes "table_wf t" "x \<in> live t" "y \<in> live t" "covers x a" "covers y a"
  shows "x = y"
  using jit_info_table_scan_live [OF assms(1), of a x] jit_info_table_scan_live [OF assms(1), of a y]
    assms by simp

section \<open>Insertion into a chunk\<close>

lemma shift_up_shape:
  "length d1 = Suc k \<Longrightarrow> pos \<le> k \<Longrightarrow>
   (shift_up k pos (d1 @ rest))[pos := ji] = take pos d1 @ ji # drop pos (butlast d1) @ rest"
proof (induction k arbitrary: d1 rest)
  case 0
  then obtain x where "d1 = [x]" by (auto simp: length_Suc_conv)
  then show ?case using 0 by simp
next
  case (Suc k)
  show ?case
  proof (cases "Suc k > pos")
    case False
    then have pos: "pos = Suc k" using Suc.prems by simp
    obtain ys y where d1: "d1 = ys @ [y]" "length ys = Suc k"
      using Suc.prems by (cases d1 rule: rev_cases) auto
    then show ?thesis using pos by (simp add: list_update_append)
  next
    case True
    obtain ys y where d1: "d1 = ys @ [y]" "length ys = Suc k"
      using Suc.prems by (cases d1 rule: rev_cases) auto
    then have "(d1 @ rest)[Suc k := (d1 @ rest) ! k] = ys @ (ys ! k) # rest"
      by (simp add: list_update_append nth_append)
    then have "(shift_up (Suc k) pos (d1 @ rest))[pos := ji] =
        (shift_up k pos (ys @ (ys ! k) # rest))[pos := ji]"
      using True by simp
    also have "\<dots> = take pos ys @ ji # drop pos (butlast ys) @ (ys ! k) # rest"
      using Suc.IH [of ys "(ys ! k) # rest"] d1 True by simp
    also have "drop pos (butlast ys) @ [ys ! k] = drop pos ys"
      using d1 True by (metis append_butlast_last_id diff_Suc_1 drop_append last_conv_nth
          length_0_conv length_butlast less_Suc_eq_le nat.simps(3) append_self_conv diff_is_0_eq drop0)
    then have "take pos ys @ ji # drop pos (butlast ys) @ (ys ! k) # rest =
        take pos d1 @ ji # drop pos (butlast d1) @ rest"
      using d1 True by (metis append.assoc append_Cons append_Nil butlast_snoc diff_is_0_eq
          less_imp_le take_append take0 append_self_conv2 append_Nil2)
    finally show ?thesis .
  qed
qed

lemma chunk_insert_data:
  assumes "sorted_wrt precedes (chunk_data c)"
    and p_def: "p = jit_info_table_chunk_index c (code_end ji)"
  shows "chunk_data (chunk_insert c ji) = take p (chunk_data c) @ ji # drop p (chunk_data c)"
proof -
  have p: "p \<le> num_elements c" using chunk_index_point(1) [OF precedes_ends [OF assms(1)]] by (simp add: p_def)
  show ?thesis
  proof (cases "chunk_data c = []")
    case True
    then show ?thesis using p
      by (simp add: chunk_insert_def size_up_def p_def code_end_def Let_def)
  next
    case False
    let ?d = "chunk_data c"
    have "(shift_up (length ?d) p (?d @ [?d ! (length ?d - 1)]))[p := ji] =
        take p (?d @ [?d ! (length ?d - 1)]) @ ji # drop p ?d"
      using shift_up_shape [of "?d @ [?d ! (length ?d - 1)]" "length ?d" p "[]" ji] p by simp
    then show ?thesis using p False
      by (simp add: chunk_insert_def size_up_def Let_def p_def [unfolded code_end_def, symmetric])
  qed
qed

lemma precedes_left:
  "code_end x \<le> code_end y \<Longrightarrow> 0 < code_size x \<Longrightarrow> (is_live x \<Longrightarrow> apart x y) \<Longrightarrow> 0 < code_size y \<Longrightarrow>
   precedes x y"
  by (auto simp: precedes_def apart_def code_end_def)

lemma apart_sym: "apart x y \<longleftrightarrow> apart y x"
  by (auto simp: apart_def)

lemma precedes_right:
  "code_end x \<le> code_end y \<Longrightarrow> 0 < code_size x \<Longrightarrow> (is_live y \<Longrightarrow> apart y x) \<Longrightarrow> 0 < code_size y \<Longrightarrow>
   precedes x y"
  by (auto simp: precedes_def apart_def code_end_def)

lemma last_code_end_bound:
  assumes "sorted_wrt precedes d" and "x \<in> set d"
  shows "code_end x \<le> code_end (d ! (length d - 1))"
proof -
  obtain i where "i < length d" "x = d ! i" using assms(2) by (auto simp: in_set_conv_nth)
  then show ?thesis using code_end_mono [OF precedes_ends [OF assms(1)], of i "length d - 1"] by simp
qed

lemma chunk_insert_fields:
  "last_code_end (chunk_insert c ji) =
     code_end (chunk_data (chunk_insert c ji) ! (num_elements (chunk_insert c ji) - 1))"
  "refcount (chunk_insert c ji) = refcount c"
  by (simp_all add: chunk_insert_def Let_def)

lemma chunk_insert_parts:
  assumes "sorted_wrt precedes (chunk_data c)"
  obtains A B where "chunk_data c = A @ B" "chunk_data (chunk_insert c ji) = A @ ji # B"
    "\<And>x. x \<in> set A \<Longrightarrow> code_end x \<le> code_end ji" "\<And>y. y \<in> set B \<Longrightarrow> code_end ji < code_end y"
proof -
  let ?p = "jit_info_table_chunk_index c (code_end ji)"
  have A: "code_end x \<le> code_end ji" if "x \<in> set (take ?p (chunk_data c))" for x
    using in_set_take_nth [OF that] chunk_index_point(2) [OF precedes_ends [OF assms]] by blast
  have B: "code_end ji < code_end y" if y: "y \<in> set (drop ?p (chunk_data c))" for y
  proof -
    obtain k where "k < num_elements c - ?p" "y = chunk_data c ! (?p + k)"
      using y by (auto simp: in_set_conv_nth)
    then show ?thesis using chunk_index_point(3) [OF precedes_ends [OF assms], of "?p + k" "code_end ji"] by simp
  qed
  show thesis
    using that [of "take ?p (chunk_data c)" "drop ?p (chunk_data c)"]
      chunk_insert_data [OF assms refl] A B by simp
qed

text \<open>What a position for a new entry has to satisfy, as the searches of the source establish it.\<close>

definition insertable :: "MonoJitInfoTableChunk list \<Rightarrow> MonoJitInfo \<Rightarrow> bool" where
  "insertable cs ji \<longleftrightarrow> 0 < code_size ji \<and>
     (\<forall>x \<in> set (concat (map chunk_data cs)). is_live x \<longrightarrow> apart x ji)"

lemma chunk_insert_wf:
  assumes wf: "chunks_wf (xs @ c # ys)" and ins: "insertable (xs @ c # ys) ji"
    and room: "num_elements c < CHUNK_SIZE"
    and left: "\<And>c'. c' \<in> set xs \<Longrightarrow> last_code_end c' \<le> code_end ji"
    and right: "ys \<noteq> [] \<Longrightarrow> code_end ji < last_code_end c"
  shows "chunks_wf (xs @ chunk_insert c ji # ys)"
proof -
  let ?c = "chunk_insert c ji"
  have sc: "sorted_wrt precedes (chunk_data c)" using chunk_sorted [OF wf] by simp
  obtain A B where d: "chunk_data c = A @ B" and d': "chunk_data ?c = A @ ji # B"
    and A: "\<And>x. x \<in> set A \<Longrightarrow> code_end x \<le> code_end ji"
    and B: "\<And>y. y \<in> set B \<Longrightarrow> code_end ji < code_end y"
    using chunk_insert_parts [OF sc] by metis
  have pos: "0 < code_size x" if "x \<in> set (concat (map chunk_data (xs @ c # ys)))" for x
    using entries_positive [OF wf that] .
  have ji: "0 < code_size ji" using ins by (simp add: insertable_def)
  have apart: "is_live x \<Longrightarrow> apart x ji" if "x \<in> set (concat (map chunk_data (xs @ c # ys)))" for x
    using ins that unfolding insertable_def by blast
  have Aji: "precedes x ji" if "x \<in> set A" for x
    using precedes_left [OF A [OF that]] pos apart ji that d by simp
  have jiB: "precedes ji y" if "y \<in> set B" for y
    using precedes_right [OF less_imp_le [OF B [OF that]]] pos apart ji that d by simp
  have sc': "sorted_wrt precedes (chunk_data ?c)"
    using sc Aji jiB by (auto simp: d d' sorted_wrt_append)
  let ?L = "last_code_end ?c"
  have L: "code_end x \<le> ?L" if "x \<in> set (chunk_data ?c)" for x
    using last_code_end_bound [OF sc' that] by (simp add: chunk_insert_fields)
  have L_old: "?L \<le> last_code_end c" if "ys \<noteq> []"
  proof -
    have "chunk_data ?c ! (num_elements ?c - 1) \<in> set (chunk_data ?c)"
      by (rule nth_mem) (simp add: d')
    then show ?thesis
      using wf right [OF that] by (auto simp: d d' chunk_insert_fields chunks_wf_def chunk_wf_def)
  qed
  have wfc: "chunk_wf ?c"
    using wf room ji L by (auto simp: chunks_wf_def chunk_wf_def chunk_insert_fields d d')
  have xs_ji: "precedes x ji" if "c' \<in> set xs" "x \<in> set (chunk_data c')" for c' x
  proof -
    have "code_end x \<le> last_code_end c'" using wf that by (auto simp: chunks_wf_def chunk_wf_def)
    then show ?thesis
      using precedes_left [of x ji] left [OF that(1)] pos apart ji that by fastforce
  qed
  have ji_ys: "precedes ji y" if "c' \<in> set ys" "y \<in> set (chunk_data c')" for c' y
  proof -
    have "last_code_end c \<le> code_end y" using wf that by (auto simp: chunks_wf_def sorted_wrt_append chunk_precedes_def)
    then show ?thesis
      using precedes_right [of ji y] right pos apart ji that by fastforce
  qed
  have cp1: "chunk_precedes c' ?c" if "c' \<in> set xs" for c'
    using wf left [OF that] L [of ji] that
    by (auto simp: chunks_wf_append chunks_wf_Cons chunk_precedes_def d d')
  have cp2: "chunk_precedes ?c c'" if "c' \<in> set ys" for c'
    using wf L_old that
    by (fastforce simp: chunks_wf_append chunks_wf_Cons chunk_precedes_def)
  show ?thesis
    using wf wfc sc' cp1 cp2 xs_ji ji_ys by (auto simp: chunks_wf_append chunks_wf_Cons d d')
qed

section \<open>Making room keeps the live entries\<close>

lemma foldl_count: "foldl (\<lambda>m x. if P x then m + 1 else m) n xs = n + length (filter P xs)"
  by (induction xs arbitrary: n) auto

lemma jit_info_table_num_elements_eq:
  "jit_info_table_num_elements t = length (filter is_live (entries t))"
proof -
  have *: "foldl (\<lambda>n c. foldl (\<lambda>m ji. if is_live ji then m + 1 else m) n (chunk_data c)) k cs =
      k + length (filter is_live (concat (map chunk_data cs)))" for k cs
    by (induction cs arbitrary: k) (auto simp: foldl_count)
  show ?thesis using * [of 0 "chunks t"] by (simp add: jit_info_table_num_elements_def entries_def)
qed

lemma retain_fields [simp]:
  "chunk_data (retain c) = chunk_data c" "last_code_end (retain c) = last_code_end c"
  "refcount (retain c) = refcount c + 1"
  by (simp_all add: retain_def)

lemma map_retain_data [simp]: "map (chunk_data \<circ> retain) cs = map chunk_data cs"
  by simp

lemma chunk_wf_retain: "chunk_wf c \<Longrightarrow> chunk_wf (retain c)"
  by (auto simp: chunk_wf_def)

lemma chunk_precedes_retain [simp]:
  "chunk_precedes (retain c) d = chunk_precedes c d" "chunk_precedes c (retain d) = chunk_precedes c d"
  by (auto simp: chunk_precedes_def)

lemma chunks_wf_retain:
  "chunks_wf (xs @ c # ys) \<Longrightarrow> chunks_wf (map retain xs @ c # map retain ys)"
  by (auto simp: chunks_wf_def sorted_wrt_append sorted_wrt_map chunk_wf_retain)

lemma replace_chunk_wf:
  assumes wf: "chunks_wf (xs @ c # ys)" and cs: "chunks_wf cs"
    and sub: "\<And>c'. c' \<in> set cs \<Longrightarrow> set (chunk_data c') \<subseteq> set (chunk_data c)"
    and le: "\<And>c'. c' \<in> set cs \<Longrightarrow> last_code_end c' \<le> last_code_end c"
    and ne: "\<And>c'. c' \<in> set cs \<Longrightarrow> chunk_data c' \<noteq> [] \<or> last_code_end c' = last_code_end c"
  shows "chunks_wf (xs @ cs @ ys)"
proof -
  have left: "chunk_precedes x c'" if "x \<in> set xs" "c' \<in> set cs" for x c'
  proof (cases "chunk_data c' = []")
    case True
    then show ?thesis using wf ne [OF that(2)] that(1)
      by (auto simp: chunks_wf_append chunks_wf_Cons chunk_precedes_def)
  next
    case False
    then obtain y where y: "y \<in> set (chunk_data c')" by (cases "chunk_data c'") auto
    then have "code_end y \<le> last_code_end c'" using cs that(2) by (auto simp: chunks_wf_def chunk_wf_def)
    moreover have "last_code_end x \<le> code_end z" if "z \<in> set (chunk_data c')" for z
      using wf \<open>x \<in> set xs\<close> sub [OF \<open>c' \<in> set cs\<close>] that
      by (auto simp: chunks_wf_append chunks_wf_Cons chunk_precedes_def)
    ultimately show ?thesis using y by (force simp: chunk_precedes_def)
  qed
  have right: "chunk_precedes c' y" if "y \<in> set ys" "c' \<in> set cs" for y c'
    using wf le [OF that(2)] that(1)
    by (fastforce simp: chunks_wf_append chunks_wf_Cons chunk_precedes_def)
  show ?thesis
    using wf cs sub left right by (fastforce simp: chunks_wf_append chunks_wf_Cons)
qed

text \<open>Consecutive segments of a sorted sequence make a well-formed run of chunks.\<close>

definition segment_chunk :: "MonoJitInfo list \<Rightarrow> MonoJitInfoTableChunk" where
  "segment_chunk d =
     jit_info_table_new_chunk\<lparr>chunk_data := d, last_code_end := code_end (d ! (length d - 1))\<rparr>"

lemma segment_chunk_simps [simp]:
  "chunk_data (segment_chunk d) = d" "refcount (segment_chunk d) = 1"
  "last_code_end (segment_chunk d) = code_end (d ! (length d - 1))"
  by (simp_all add: segment_chunk_def jit_info_table_new_chunk_def)

lemma segments_wf:
  assumes "sorted_wrt precedes (concat ds)" and "\<And>x. x \<in> set (concat ds) \<Longrightarrow> 0 < code_size x"
    and "\<And>d. d \<in> set ds \<Longrightarrow> d \<noteq> [] \<and> length d \<le> CHUNK_SIZE"
  shows "chunks_wf (map segment_chunk ds)"
  using assms
proof (induction ds)
  case Nil
  then show ?case by simp
next
  case (Cons d ds)
  have d: "d \<noteq> []" "length d \<le> CHUNK_SIZE" "sorted_wrt precedes d"
    using Cons.prems by (auto simp: sorted_wrt_append)
  have "chunk_wf (segment_chunk d)"
    using d last_code_end_bound [OF d(3)] Cons.prems(2) by (auto simp: chunk_wf_def)
  moreover have "chunks_wf (map segment_chunk ds)"
    using Cons by (auto simp: sorted_wrt_append)
  moreover have before: "precedes x y" if "e \<in> set ds" "x \<in> set d" "y \<in> set e" for e x y
    using Cons.prems(1) that by (auto simp: sorted_wrt_append)
  moreover have "chunk_precedes (segment_chunk d) (segment_chunk e)" if "e \<in> set ds" for e
  proof -
    have "d ! (length d - 1) \<in> set d" "e ! (length e - 1) \<in> set e"
      using d Cons.prems(3) [of e] that by (auto intro!: nth_mem)
    then show ?thesis using before [OF that] by (auto simp: chunk_precedes_def precedes_def)
  qed
  ultimately show ?case using d by (auto simp: chunks_wf_Cons)
qed

lemma split_chunk_eq:
  assumes "num_elements c = CHUNK_SIZE"
  shows "jit_info_table_split_chunk c =
    Inr (segment_chunk (take 32 (chunk_data c)), segment_chunk (drop 32 (chunk_data c)))"
  using assms by (simp add: jit_info_table_split_chunk_def segment_chunk_def CHUNK_SIZE_def Let_def)

lemma purify_chunk_data [simp]:
  "chunk_data (jit_info_table_purify_chunk c) = filter is_live (chunk_data c)"
  by (simp add: jit_info_table_purify_chunk_def Let_def)

lemma purify_chunk_wf:
  assumes "chunk_wf c" "sorted_wrt precedes (chunk_data c)"
  shows "chunks_wf [jit_info_table_purify_chunk c]"
    "last_code_end (jit_info_table_purify_chunk c) \<le> last_code_end c"
    "filter is_live (chunk_data c) \<noteq> [] \<or> last_code_end (jit_info_table_purify_chunk c) = last_code_end c"
proof -
  let ?d = "filter is_live (chunk_data c)"
  have len: "length ?d \<le> CHUNK_SIZE"
    using assms(1) length_filter_le le_trans unfolding chunk_wf_def by blast
  have s: "sorted_wrt precedes ?d" using assms(2) by simp
  show "chunks_wf [jit_info_table_purify_chunk c]"
    using assms len s last_code_end_bound [OF s]
    by (auto simp: chunks_wf_Cons chunk_wf_def jit_info_table_purify_chunk_def Let_def
        jit_info_table_new_chunk_def filter_empty_conv)
  show "last_code_end (jit_info_table_purify_chunk c) \<le> last_code_end c"
  proof (cases "?d = []")
    case False
    then have "?d ! (length ?d - 1) \<in> set ?d" by (intro nth_mem) simp
    then show ?thesis using assms(1) False
      by (auto simp: jit_info_table_purify_chunk_def Let_def chunk_wf_def)
  qed (simp add: jit_info_table_purify_chunk_def Let_def)
  show "?d \<noteq> [] \<or> last_code_end (jit_info_table_purify_chunk c) = last_code_end c"
    by (auto simp: jit_info_table_purify_chunk_def Let_def)
qed

subsection \<open>Reallocation\<close>

lemma realloc_fill_spec:
  assumes "FILLED_NUM_ELEMENTS * length closed + length cur + length (filter is_live xs)
      \<le> FILLED_NUM_ELEMENTS * n"
    and "\<forall>d \<in> set closed. length d = FILLED_NUM_ELEMENTS" and "length cur < FILLED_NUM_ELEMENTS"
  shows "\<exists>closed' cur'. realloc_fill n closed cur xs = Inr (closed', cur') \<and>
    concat closed' @ cur' = concat closed @ cur @ filter is_live xs \<and>
    (\<forall>d \<in> set closed'. length d = FILLED_NUM_ELEMENTS) \<and> length cur' < FILLED_NUM_ELEMENTS"
  using assms
proof (induction xs arbitrary: closed cur)
  case Nil
  then show ?case by simp
next
  case (Cons x xs)
  show ?case
  proof (cases "is_live x")
    case False
    then show ?thesis using Cons by simp
  next
    case True
    let ?F = FILLED_NUM_ELEMENTS
    have "0 < length (filter is_live (x # xs))" using True by simp
    then have "?F * length closed < ?F * n" using Cons.prems(1) by linarith
    then have lt: "length closed < n" by simp
    show ?thesis
    proof (cases "length (cur @ [x]) \<ge> ?F")
      case True
      then have "Suc (length cur) = ?F" using Cons.prems(3) by simp
      then show ?thesis
        using Cons.IH [of "closed @ [cur @ [x]]" "[]"] Cons.prems True lt \<open>is_live x\<close> by simp
    next
      case False
      then show ?thesis
        using Cons.IH [of closed "cur @ [x]"] Cons.prems lt \<open>is_live x\<close> by simp
    qed
  qed
qed

lemma realloc_fill_append:
  "realloc_fill n closed cur (xs @ ys) =
     bindr (realloc_fill n closed cur xs) (\<lambda>(closed', cur'). realloc_fill n closed' cur' ys)"
  by (induction xs arbitrary: closed cur) (auto simp: guardr_def)

lemma realloc_fill_chunks_flat:
  "realloc_fill_chunks n closed cur cs = realloc_fill n closed cur (concat (map chunk_data cs))"
proof (induction cs arbitrary: closed cur)
  case (Cons c cs)
  then show ?case
    by (cases "realloc_fill n closed cur (chunk_data c)") (auto simp: realloc_fill_append)
qed simp

lemma realloc_num_chunks_eq:
  "b < FILLED_NUM_ELEMENTS \<Longrightarrow>
   realloc_num_chunks (FILLED_NUM_ELEMENTS * a + b) = (if b = 0 then a else Suc a)"
proof -
  assume "b < FILLED_NUM_ELEMENTS"
  then have b: "b < 48" by (simp add: FILLED_NUM_ELEMENTS_def CHUNK_SIZE_def)
  have "(48 * a + b) * 4 div 3 = (b * 4 + 3 * (64 * a)) div 3" by (simp add: algebra_simps)
  also have "\<dots> = 64 * a + b * 4 div 3" by (simp add: div_mult_self2)
  finally have "((48 * a + b) * 4 div 3 + 63) div 64 = (b * 4 div 3 + 63 + 64 * a) div 64"
    by (simp add: algebra_simps)
  also have "\<dots> = a + (b * 4 div 3 + 63) div 64" by simp
  also have "(b * 4 div 3 + 63) div 64 = (if b = 0 then 0 else 1)" using b by auto
  finally have "((48 * a + b) * 4 div 3 + 63) div 64 = (if b = 0 then a else Suc a)" by simp
  moreover have "realloc_num_chunks (48 * a + b) = ((48 * a + b) * 4 div 3 + 63) div 64"
    unfolding realloc_num_chunks_def CHUNK_SIZE_def by simp
  moreover have "FILLED_NUM_ELEMENTS = 48" by (simp add: FILLED_NUM_ELEMENTS_def CHUNK_SIZE_def)
  ultimately show ?thesis by metis
qed

lemma realloc_enough: "m \<le> FILLED_NUM_ELEMENTS * realloc_num_chunks m"
proof -
  let ?F = FILLED_NUM_ELEMENTS
  have F: "0 < ?F" by (simp add: FILLED_NUM_ELEMENTS_def CHUNK_SIZE_def)
  have m: "m = ?F * (m div ?F) + m mod ?F" by simp
  have lt: "m mod ?F < ?F" using F by simp
  have "?F * realloc_num_chunks m = (if m mod ?F = 0 then ?F * (m div ?F) else ?F * (m div ?F) + ?F)"
    using realloc_num_chunks_eq [OF lt, of "m div ?F"] by simp
  then show ?thesis using m lt by (metis add.right_neutral add_left_mono less_imp_le order_refl)
qed

lemma length_concat_const: "\<forall>d \<in> set ds. length d = k \<Longrightarrow> length (concat ds) = k * length ds"
  by (induction ds) auto

lemma close_chunks_segments:
  "(\<And>d. d \<in> set ds \<Longrightarrow> d \<noteq> []) \<Longrightarrow> close_chunks ds = Inr (map segment_chunk ds)"
  by (induction ds) (auto simp: chunk_of_data_def segment_chunk_def)

lemma jit_info_table_realloc_spec:
  obtains ds where "jit_info_table_realloc t = Inr \<lparr>table_domain = table_domain t, chunks = map segment_chunk ds\<rparr>"
    and "concat ds = filter is_live (entries t)"
    and "\<And>d. d \<in> set ds \<Longrightarrow> d \<noteq> [] \<and> length d \<le> FILLED_NUM_ELEMENTS"
proof -
  let ?F = FILLED_NUM_ELEMENTS
  let ?L = "filter is_live (entries t)"
  let ?n = "realloc_num_chunks (length ?L)"
  have F: "0 < ?F" by (simp add: FILLED_NUM_ELEMENTS_def CHUNK_SIZE_def)
  obtain closed cur where fill: "realloc_fill ?n [] [] (entries t) = Inr (closed, cur)"
    and cat: "concat closed @ cur = ?L"
    and full: "\<forall>d \<in> set closed. length d = ?F" and cur: "length cur < ?F"
    using realloc_fill_spec [of "[]" "[]" "entries t" ?n] realloc_enough [of "length ?L"] F
    by (metis add_0 append_Nil concat.simps(1) empty_iff list.set(1) list.size(3) mult_0_right)
  have len: "?F * length closed + length cur = length ?L"
    using length_concat_const [of closed ?F] full by (simp flip: cat)
  have n: "?n = (if cur = [] then length closed else Suc (length closed))"
    using realloc_num_chunks_eq [OF cur, of "length closed"] len by simp
  let ?ds = "if cur = [] then closed else closed @ [cur]"
  have ne: "d \<noteq> []" "length d \<le> ?F" if "d \<in> set ?ds" for d
    using that full cur F by (auto split: if_splits)
  have close: "close_chunks ?ds = Inr (map segment_chunk ?ds)"
    by (rule close_chunks_segments) (use ne in blast)
  have "jit_info_table_realloc t =
      Inr \<lparr>table_domain = table_domain t, chunks = map segment_chunk ?ds\<rparr>"
    unfolding jit_info_table_realloc_def Let_def jit_info_table_num_elements_eq
      realloc_fill_chunks_flat entries_def [symmetric] fill bindr.simps prod.case
    using n close by (cases "cur = []") simp_all
  moreover have "concat ?ds = ?L" using cat by auto
  ultimately show thesis by (rule that) (use ne in blast)+
qed

definition full_chunks :: "MonoJitInfoTable \<Rightarrow> nat" where
  "full_chunks t = length (filter (\<lambda>c. num_elements c \<ge> CHUNK_SIZE) (chunks t))"

lemma realloc_wf:
  assumes "table_wf t" and "live t \<noteq> {}"
  shows "\<exists>t'. jit_info_table_realloc t = Inr t' \<and> table_wf t' \<and>
    entries t' = filter is_live (entries t) \<and> full_chunks t' = 0"
proof -
  obtain ds where r: "jit_info_table_realloc t =
      Inr \<lparr>table_domain = table_domain t, chunks = map segment_chunk ds\<rparr>" (is "_ = Inr ?t")
    and cat: "concat ds = filter is_live (entries t)"
    and ds: "\<And>d. d \<in> set ds \<Longrightarrow> d \<noteq> [] \<and> length d \<le> FILLED_NUM_ELEMENTS"
    using jit_info_table_realloc_spec by metis
  have small: "FILLED_NUM_ELEMENTS < CHUNK_SIZE"
    by (simp add: FILLED_NUM_ELEMENTS_def CHUNK_SIZE_def)
  have "sorted_wrt precedes (concat ds)" "\<And>x. x \<in> set (concat ds) \<Longrightarrow> 0 < code_size x"
    using assms(1) entries_positive [of "chunks t"]
    by (auto simp: cat table_wf_def chunks_wf_def entries_def)
  then have "chunks_wf (map segment_chunk ds)"
    using ds small by (intro segments_wf) fastforce+
  moreover have "concat ds \<noteq> []" using assms(2) unfolding cat live_def by (metis set_empty)
  then have "ds \<noteq> []" by auto
  moreover have "entries ?t = concat ds" by (simp add: entries_def comp_def)
  moreover have "full_chunks ?t = 0"
    using ds small by (fastforce simp: full_chunks_def filter_empty_conv)
  ultimately show ?thesis using r cat by (auto simp: table_wf_def)
qed

subsection \<open>Overflow\<close>

lemma chunks_split: "i < num_chunks t \<Longrightarrow> chunks t = take i (chunks t) @ chunks t ! i # drop (Suc i) (chunks t)"
  by (simp add: id_take_nth_drop)

lemma filter_length_retain [simp]:
  "length (filter (\<lambda>c. CHUNK_SIZE \<le> num_elements c) (map retain cs)) =
   length (filter (\<lambda>c. CHUNK_SIZE \<le> num_elements c) cs)"
  by (induction cs) auto

text \<open>
  Both ways of dealing with one chunk replace it by chunks with the same live entries that
  have room; the other chunks are shared with the old table.
\<close>

lemma replace_in_table:
  assumes t: "table_wf t" "i < num_chunks t" and big: "CHUNK_SIZE \<le> num_elements (chunks t ! i)"
    and cs: "chunks_wf cs" "cs \<noteq> []" "\<And>c. c \<in> set cs \<Longrightarrow> num_elements c < CHUNK_SIZE"
    and data: "filter is_live (concat (map chunk_data cs)) = filter is_live (chunk_data (chunks t ! i))"
    and sub: "set (concat (map chunk_data cs)) \<subseteq> set (chunk_data (chunks t ! i))"
    and le: "\<And>c. c \<in> set cs \<Longrightarrow> last_code_end c \<le> last_code_end (chunks t ! i)"
    and ne: "\<And>c. c \<in> set cs \<Longrightarrow> chunk_data c \<noteq> [] \<or> last_code_end c = last_code_end (chunks t ! i)"
    and t': "t' = t\<lparr>chunks := map retain (take i (chunks t)) @ cs @ map retain (drop (Suc i) (chunks t))\<rparr>"
  shows "table_wf t' \<and> filter is_live (entries t') = filter is_live (entries t) \<and>
    set (entries t') \<subseteq> set (entries t) \<and> full_chunks t' < full_chunks t"
proof -
  let ?c = "chunks t ! i" and ?xs = "take i (chunks t)" and ?ys = "drop (Suc i) (chunks t)"
  note split = chunks_split [OF t(2)]
  have "chunks_wf (?xs @ ?c # ?ys)" using t split by (simp add: table_wf_def)
  then have "chunks_wf (map retain ?xs @ cs @ map retain ?ys)"
    by (intro replace_chunk_wf [OF chunks_wf_retain cs(1)]) (use sub le ne in auto)
  moreover have ent: "entries t = concat (map chunk_data ?xs) @ chunk_data ?c @ concat (map chunk_data ?ys)"
    by (simp add: entries_def concat_map_take_drop [OF t(2)])
  moreover have "entries t' = concat (map chunk_data ?xs) @ concat (map chunk_data cs) @ concat (map chunk_data ?ys)"
    by (simp add: entries_def t')
  moreover have "full_chunks t' < full_chunks t"
  proof -
    have none: "filter (\<lambda>c. CHUNK_SIZE \<le> num_elements c) cs = []"
      using cs(3) by (auto simp: filter_empty_conv not_le)
    have "full_chunks t = length (filter (\<lambda>c. CHUNK_SIZE \<le> num_elements c) (?xs @ ?c # ?ys))"
      unfolding full_chunks_def using split by simp
    then show ?thesis using big none by (simp add: full_chunks_def t' comp_def)
  qed
  ultimately show ?thesis
    using data sub cs(2) by (auto simp: table_wf_def t')
qed

lemma split_in_table:
  assumes t: "table_wf t" "i < num_chunks t" and size: "num_elements (chunks t ! i) = CHUNK_SIZE"
  shows "\<exists>t'. jit_info_table_copy_and_split_chunk t i = Inr t' \<and> table_wf t' \<and>
    filter is_live (entries t') = filter is_live (entries t) \<and>
    set (entries t') \<subseteq> set (entries t) \<and> full_chunks t' < full_chunks t"
proof -
  let ?c = "chunks t ! i"
  let ?d1 = "take 32 (chunk_data ?c)" and ?d2 = "drop 32 (chunk_data ?c)"
  let ?cs = "[segment_chunk ?d1, segment_chunk ?d2]"
  let ?t = "t\<lparr>chunks := map retain (take i (chunks t)) @ ?cs @ map retain (drop (Suc i) (chunks t))\<rparr>"
  have wf: "chunk_wf ?c" "sorted_wrt precedes (chunk_data ?c)"
    using t chunk_sorted by (auto simp: table_wf_def chunks_wf_def)
  have "chunks_wf (map segment_chunk [?d1, ?d2])"
    using wf size by (intro segments_wf) (auto simp: chunk_wf_def CHUNK_SIZE_def dest: in_set_takeD in_set_dropD)
  moreover have "code_end x \<le> last_code_end ?c" if "x \<in> set (chunk_data ?c)" for x
    using wf that by (simp add: chunk_wf_def)
  moreover have "?d1 ! (length ?d1 - 1) \<in> set (chunk_data ?c)" "?d2 ! (length ?d2 - 1) \<in> set (chunk_data ?c)"
    using size by (auto simp: CHUNK_SIZE_def)
  moreover have "filter is_live (?d1 @ ?d2) = filter is_live (chunk_data ?c)" by simp
  moreover have "jit_info_table_copy_and_split_chunk t i = Inr ?t"
    using size by (simp add: jit_info_table_copy_and_split_chunk_def split_chunk_eq)
  ultimately show ?thesis
    using replace_in_table [OF t eq_refl [OF size [symmetric]], of ?cs] size
    by (fastforce simp: CHUNK_SIZE_def dest: in_set_takeD in_set_dropD simp del: append_take_drop_id)
qed

lemma purify_in_table:
  assumes t: "table_wf t" "i < num_chunks t" and size: "num_elements (chunks t ! i) = CHUNK_SIZE"
    and tomb: "length (filter is_live (chunk_data (chunks t ! i))) \<noteq> CHUNK_SIZE"
    and t': "t' = jit_info_table_copy_and_purify_chunk t i"
  shows "table_wf t' \<and> filter is_live (entries t') = filter is_live (entries t) \<and>
    set (entries t') \<subseteq> set (entries t) \<and> full_chunks t' < full_chunks t"
proof -
  let ?c = "chunks t ! i"
  have wf: "chunk_wf ?c" "sorted_wrt precedes (chunk_data ?c)"
    using t chunk_sorted by (auto simp: table_wf_def chunks_wf_def)
  have "length (filter is_live (chunk_data ?c)) < CHUNK_SIZE"
    using tomb size length_filter_le [of is_live "chunk_data ?c"] by simp
  then show ?thesis
    using replace_in_table [OF t eq_refl [OF size [symmetric]] purify_chunk_wf(1) [OF wf], of t']
      purify_chunk_wf(2,3) [OF wf] t'
    by (auto simp: jit_info_table_copy_and_purify_chunk_def)
qed

lemma chunk_overflow_spec:
  assumes t: "table_wf t" "i < num_chunks t" and big: "CHUNK_SIZE \<le> num_elements (chunks t ! i)"
    and "live t \<noteq> {}"
  shows "\<exists>t'. jit_info_table_chunk_overflow t i = Inr t' \<and> table_wf t' \<and>
    filter is_live (entries t') = filter is_live (entries t) \<and>
    set (entries t') \<subseteq> set (entries t) \<and> full_chunks t' < full_chunks t"
proof -
  let ?c = "chunks t ! i" and ?n = "jit_info_table_num_elements t"
  have c: "?c \<in> set (chunks t)" using t(2) by simp
  then have "chunk_wf ?c" using t by (auto simp: table_wf_def chunks_wf_def)
  then have size: "num_elements ?c = CHUNK_SIZE" using big by (simp add: chunk_wf_def)
  consider "?n < LOW_WATERMARK (num_chunks t * CHUNK_SIZE) \<or> ?n > HIGH_WATERMARK (num_chunks t * CHUNK_SIZE)"
    | "\<not> (?n < LOW_WATERMARK (num_chunks t * CHUNK_SIZE) \<or> ?n > HIGH_WATERMARK (num_chunks t * CHUNK_SIZE))"
      "length (filter is_live (chunk_data ?c)) = CHUNK_SIZE"
    | "\<not> (?n < LOW_WATERMARK (num_chunks t * CHUNK_SIZE) \<or> ?n > HIGH_WATERMARK (num_chunks t * CHUNK_SIZE))"
      "length (filter is_live (chunk_data ?c)) \<noteq> CHUNK_SIZE"
    by blast
  then show ?thesis
  proof cases
    case 1
    then have "jit_info_table_chunk_overflow t i = jit_info_table_realloc t"
      by (simp add: jit_info_table_chunk_overflow_def)
    moreover have "0 < full_chunks t" using big c by (auto simp: full_chunks_def filter_empty_conv)
    ultimately show ?thesis using realloc_wf [OF t(1) assms(4)] by auto
  next
    case 2
    then show ?thesis using split_in_table [OF t size]
      by (simp add: jit_info_table_chunk_overflow_def foldl_count)
  next
    case 3
    then show ?thesis using purify_in_table [OF t size _ refl]
      by (simp add: jit_info_table_chunk_overflow_def foldl_count)
  qed
qed

section \<open>Adding and removing at the level of the domain\<close>

text \<open>
  Every entry of the table lies below the allocation frontier and no two different entries
  have the same address, so that comparing pointers compares entries.
\<close>

definition domain_wf :: "MonoDomain \<Rightarrow> bool" where
  "domain_wf d \<longleftrightarrow> table_wf (jit_info_table d) \<and>
     inj_on ji_self (set (entries (jit_info_table d))) \<and>
     (\<forall>x \<in> set (entries (jit_info_table d)). ji_self x < next_block d)"

definition fresh_for :: "MonoDomain \<Rightarrow> MonoJitInfo \<Rightarrow> bool" where
  "fresh_for d ji \<longleftrightarrow> ji_method ji \<noteq> 0 \<and> 0 < code_size ji \<and>
     (\<forall>x \<in> live (jit_info_table d). apart x ji) \<and>
     (\<forall>x \<in> set (entries (jit_info_table d)). ji_self x \<noteq> ji_self ji) \<and> ji_self ji < next_block d"

text \<open>The chunk that the insertion chooses for a block has no free place.\<close>

definition target_full :: "MonoDomain \<Rightarrow> MonoJitInfo \<Rightarrow> bool" where
  "target_full d ji \<longleftrightarrow> (case jit_info_table_index (jit_info_table d) (code_end ji) of Inl e \<Rightarrow> False
     | Inr i \<Rightarrow> num_elements (chunks (jit_info_table d) ! i) \<ge> CHUNK_SIZE)"

definition has_room :: "MonoDomain \<Rightarrow> MonoJitInfo \<Rightarrow> bool" where
  "has_room d ji \<longleftrightarrow> live (jit_info_table d) \<noteq> {} \<or> \<not> target_full d ji"

lemma table_insert_spec:
  assumes t: "table_wf t" and ins: "insertable (chunks t) ji"
    and i: "jit_info_table_index t (code_end ji) = Inr i"
    and room: "num_elements (chunks t ! i) < CHUNK_SIZE"
    and t': "t' = t\<lparr>chunks := (chunks t)[i := chunk_insert (chunks t ! i) ji]\<rparr>"
  shows "table_wf t' \<and> set (entries t') = insert ji (set (entries t))"
proof -
  obtain i' where i': "jit_info_table_index t (code_end ji) = Inr i'" "i' < num_chunks t"
    and left: "\<And>j. j < i' \<Longrightarrow> last_code_end (chunks t ! j) \<le> code_end ji"
    and right: "i' < num_chunks t - 1 \<Longrightarrow> code_end ji < last_code_end (chunks t ! i')"
    using jit_info_table_index_spec [OF table_wf_readable [OF t]] by metis
  have n: "i < num_chunks t" using i i' by simp
  let ?c = "chunks t ! i" and ?xs = "take i (chunks t)" and ?ys = "drop (Suc i) (chunks t)"
  note split = chunks_split [OF n]
  have wf: "chunks_wf (?xs @ ?c # ?ys)" and ins': "insertable (?xs @ ?c # ?ys) ji"
    using t ins split by (simp_all add: table_wf_def)
  have "chunks_wf (?xs @ chunk_insert ?c ji # ?ys)"
  proof (rule chunk_insert_wf [OF wf ins' room])
    show "last_code_end c' \<le> code_end ji" if "c' \<in> set ?xs" for c'
      using in_set_take_nth [OF that] left i i' by auto
    show "code_end ji < last_code_end ?c" if "?ys \<noteq> []"
      using right i i' that by auto
  qed
  moreover have "chunks t' = ?xs @ chunk_insert ?c ji # ?ys"
    using n by (simp add: t' list_update_map_upd)
  moreover have "set (chunk_data (chunk_insert ?c ji)) = insert ji (set (chunk_data ?c))"
    by (rule chunk_insert_parts [of ?c ji]) (use chunk_sorted [OF wf] in auto)
  moreover have "entries t = concat (map chunk_data ?xs) @ chunk_data ?c @ concat (map chunk_data ?ys)"
    by (simp add: entries_def concat_map_take_drop [OF n])
  ultimately show ?thesis by (auto simp: table_wf_def entries_def)
qed

lemma live_iff: "x \<in> live t \<longleftrightarrow> x \<in> set (entries t) \<and> is_live x"
  by (auto simp: live_def)

lemma fresh_insertable: "fresh_for d ji \<Longrightarrow> insertable (chunks (jit_info_table d)) ji"
  by (auto simp: fresh_for_def insertable_def live_iff entries_def)

lemma add_restart_spec:
  assumes "domain_wf d" "fresh_for d ji" "has_room d ji"
  shows "\<exists>d'. add_restart d ji = Some (Inr d') \<and> domain_wf d' \<and>
    live (jit_info_table d') = insert ji (live (jit_info_table d)) \<and> next_block d' = next_block d"
  using assms
proof (induction "full_chunks (jit_info_table d)" arbitrary: d rule: less_induct)
  case less
  let ?t = "jit_info_table d"
  have t: "table_wf ?t" using less.prems by (simp add: domain_wf_def)
  have ji: "is_live ji" using less.prems by (simp add: fresh_for_def IS_JIT_INFO_TOMBSTONE_def)
  obtain i where i: "jit_info_table_index ?t (code_end ji) = Inr i" "i < num_chunks ?t"
    using jit_info_table_index_spec [OF table_wf_readable [OF t]] by metis
  show ?case
  proof (cases "num_elements (chunks ?t ! i) \<ge> CHUNK_SIZE")
    case False
    let ?t' = "?t\<lparr>chunks := (chunks ?t)[i := chunk_insert (chunks ?t ! i) ji]\<rparr>"
    have ins: "table_wf ?t'" "set (entries ?t') = insert ji (set (entries ?t))"
      using table_insert_spec [OF t fresh_insertable [OF less.prems(2)] i(1)] False by auto
    have "add_restart d ji = Some (Inr (d\<lparr>jit_info_table := ?t'\<rparr>))"
      using i False by (subst add_restart.simps) (simp add: code_end_def Let_def)
    moreover have "domain_wf (d\<lparr>jit_info_table := ?t'\<rparr>)"
      using less.prems ins by (auto simp: domain_wf_def fresh_for_def)
    moreover have "live ?t' = insert ji (live ?t)"
      using ins ji by (auto simp: live_iff)
    ultimately show ?thesis by simp
  next
    case True
    have ne: "live ?t \<noteq> {}" using less.prems(3) i(1) True by (simp add: has_room_def target_full_def)
    obtain t' where t': "jit_info_table_chunk_overflow ?t i = Inr t'" "table_wf t'"
      "filter is_live (entries t') = filter is_live (entries ?t)"
      "set (entries t') \<subseteq> set (entries ?t)" "full_chunks t' < full_chunks ?t"
      using chunk_overflow_spec [OF t i(2) True ne] by blast
    let ?d = "d\<lparr>jit_info_table := t', num_jit_info_tables := num_jit_info_tables d + 1,
        retired := ?t # retired d\<rparr>"
    have live: "live t' = live ?t" unfolding live_def using t'(3) by simp
    have "domain_wf ?d" "fresh_for ?d ji" "has_room ?d ji"
      using less.prems t' live ne
      by (auto simp: domain_wf_def fresh_for_def has_room_def intro: inj_on_subset)
    then obtain d' where "add_restart ?d ji = Some (Inr d')" "domain_wf d'"
      "live (jit_info_table d') = insert ji (live t')" "next_block d' = next_block d"
      using less.hyps [of ?d] t'(5) by auto
    moreover have "add_restart d ji = add_restart ?d ji"
      using i True t'(1) by (subst add_restart.simps) (simp add: code_end_def Let_def)
    ultimately show ?thesis using live by simp
  qed
qed

text \<open>
  A full chunk in a table without a live entry: the reallocation makes a table of no chunks, and the
  index of the new block is looked up in it.
\<close>

lemma overflow_nothing_live:
  assumes "live t = {}" "0 < num_chunks t"
  shows "jit_info_table_chunk_overflow t i = Inr \<lparr>table_domain = table_domain t, chunks = []\<rparr>"
proof -
  have none: "filter is_live (entries t) = []" using assms(1) by (auto simp: live_def filter_empty_conv)
  obtain ds where "jit_info_table_realloc t = Inr \<lparr>table_domain = table_domain t, chunks = map segment_chunk ds\<rparr>"
    "concat ds = filter is_live (entries t)" "\<And>d. d \<in> set ds \<Longrightarrow> d \<noteq> [] \<and> length d \<le> FILLED_NUM_ELEMENTS"
    using jit_info_table_realloc_spec [of t] by metis
  moreover from this have "ds = []" using none by (cases ds) auto
  ultimately have "jit_info_table_realloc t = Inr \<lparr>table_domain = table_domain t, chunks = []\<rparr>" by simp
  moreover have "jit_info_table_num_elements t < LOW_WATERMARK (num_chunks t * CHUNK_SIZE)"
    using none assms(2) by (simp add: jit_info_table_num_elements_eq LOW_WATERMARK_def CHUNK_SIZE_def)
  ultimately show ?thesis by (simp add: jit_info_table_chunk_overflow_def)
qed

lemma add_restart_no_room:
  assumes "jit_info_table_index (jit_info_table d) (code_end ji) = Inr i" "i < num_chunks (jit_info_table d)"
    "live (jit_info_table d) = {}" "num_elements (chunks (jit_info_table d) ! i) \<ge> CHUNK_SIZE"
  shows "add_restart d ji = Some (Inl Assert_failed)"
proof -
  let ?t = "jit_info_table d"
  have "add_restart d' ji = Some (Inl Assert_failed)" if "jit_info_table d' = \<lparr>table_domain = table_domain ?t, chunks = []\<rparr>" for d'
    using that by (subst add_restart.simps) (simp add: jit_info_table_index_def Let_def)
  moreover have "jit_info_table_chunk_overflow ?t i = Inr \<lparr>table_domain = table_domain ?t, chunks = []\<rparr>"
    using assms(2,3) by (intro overflow_nothing_live) auto
  ultimately show ?thesis
    using assms by (subst add_restart.simps) (simp add: Let_def code_end_def)
qed

lemma add_restart_without_room:
  assumes "domain_wf d" "\<not> has_room d ji"
  shows "add_restart d ji = Some (Inl Assert_failed)"
proof -
  have "table_wf (jit_info_table d)" using assms(1) by (simp add: domain_wf_def)
  then obtain i where "jit_info_table_index (jit_info_table d) (code_end ji) = Inr i" "i < num_chunks (jit_info_table d)"
    using jit_info_table_index_spec [OF table_wf_readable] by metis
  then show ?thesis using assms(2) by (intro add_restart_no_room) (auto simp: has_room_def target_full_def)
qed

subsection \<open>Removal\<close>

abbreviation passed :: "MonoJitInfo \<Rightarrow> MonoJitInfo \<Rightarrow> bool" where
  "passed ji y \<equiv> ji_self y \<noteq> ji_self ji \<and> IS_JIT_INFO_TOMBSTONE y \<and> code_end y \<le> code_end ji"

lemma remove_scan_finds:
  "(\<And>y. y \<in> set ys \<Longrightarrow> passed ji y) \<Longrightarrow> ji_self x = ji_self ji \<Longrightarrow>
   remove_scan ji pos (ys @ x # zs) = Inr (Some (pos + length ys))"
  by (induction ys arbitrary: pos) auto

lemma remove_scan_exhausts:
  "(\<And>y. y \<in> set ys \<Longrightarrow> passed ji y) \<Longrightarrow> remove_scan ji pos ys = Inr None"
  by (induction ys arbitrary: pos) auto

lemma remove_search_finds:
  assumes "drop pos (chunk_data c) @ concat (map chunk_data cs) = ys @ x # zs"
    and "\<And>y. y \<in> set ys \<Longrightarrow> passed ji y" and "ji_self x = ji_self ji"
  shows "\<exists>k p. remove_search ji i pos (c # cs) = Inr (i + k, p) \<and> k < length (c # cs) \<and>
    p < num_elements ((c # cs) ! k) \<and> chunk_data ((c # cs) ! k) ! p = x"
  using assms(1,2)
proof (induction cs arbitrary: c pos i ys)
  case Nil
  then have d: "drop pos (chunk_data c) = ys @ x # zs" by simp
  then have "pos + length ys < num_elements c" "chunk_data c ! (pos + length ys) = x"
    using drop_eq_nth [OF d] by simp_all
  moreover have "remove_search ji i pos [c] = Inr (i, pos + length ys)"
    using d remove_scan_finds [of ys ji x pos zs] Nil.prems assms(3) by simp
  ultimately have "remove_search ji i pos [c] = Inr (i + 0, pos + length ys) \<and> 0 < length [c] \<and>
      pos + length ys < num_elements ([c] ! 0) \<and> chunk_data ([c] ! 0) ! (pos + length ys) = x"
    by (simp del: remove_search.simps)
  then show ?case by blast
next
  case (Cons c' cs)
  show ?case
  proof (cases "length ys < length (drop pos (chunk_data c))")
    case True
    then obtain zs' where d: "drop pos (chunk_data c) = ys @ x # zs'"
      using append_split_left [OF Cons.prems(1)] by blast
    moreover have "pos + length ys < num_elements c" "chunk_data c ! (pos + length ys) = x"
      using drop_eq_nth [OF d] by simp_all
    moreover have "remove_search ji i pos (c # c' # cs) = Inr (i, pos + length ys)"
      using d remove_scan_finds [of ys ji x pos zs'] Cons.prems assms(3) by simp
    ultimately have "remove_search ji i pos (c # c' # cs) = Inr (i + 0, pos + length ys) \<and>
        0 < length (c # c' # cs) \<and> pos + length ys < num_elements ((c # c' # cs) ! 0) \<and>
        chunk_data ((c # c' # cs) ! 0) ! (pos + length ys) = x"
      using True by (simp del: remove_search.simps)
    then show ?thesis by blast
  next
    case False
    then obtain ys' where ys: "ys = drop pos (chunk_data c) @ ys'"
      and rest: "chunk_data c' @ concat (map chunk_data cs) = ys' @ x # zs"
      using append_split_right [OF Cons.prems(1)] by auto
    have none: "remove_scan ji pos (drop pos (chunk_data c)) = Inr None"
      using remove_scan_exhausts [of "drop pos (chunk_data c)" ji pos] Cons.prems(2) ys by auto
    obtain k p where "remove_search ji (Suc i) 0 (c' # cs) = Inr (Suc i + k, p)"
      "k < length (c' # cs)" "p < num_elements ((c' # cs) ! k)" "chunk_data ((c' # cs) ! k) ! p = x"
      using Cons.IH [of 0 c' ys' "Suc i"] rest Cons.prems(2) ys by auto
    then have "remove_search ji i pos (c # c' # cs) = Inr (i + Suc k, p) \<and>
        Suc k < length (c # c' # cs) \<and> p < num_elements ((c # c' # cs) ! Suc k) \<and>
        chunk_data ((c # c' # cs) ! Suc k) ! p = x"
      using none by (simp only: remove_search.simps(2) [of ji i]) simp
    then show ?thesis by blast
  qed
qed

lemma tombstone_wf:
  assumes wf: "chunks_wf (xs @ c # ys)" and p: "p < num_elements c"
    and y: "IS_JIT_INFO_TOMBSTONE y" "code_start y = code_start (chunk_data c ! p)"
      "code_size y = code_size (chunk_data c ! p)"
  shows "chunks_wf (xs @ c\<lparr>chunk_data := (chunk_data c)[p := y]\<rparr> # ys)"
proof -
  obtain A x B where d: "chunk_data c = A @ x # B" "length A = p" "x = chunk_data c ! p"
    using p by (metis id_take_nth_drop length_take less_imp_le min.absorb2)
  have ends: "code_end y = code_end x" "code_size y = code_size x"
    using y unfolding d(3) [symmetric] by (simp_all add: code_end_def)
  then have pre: "precedes z x \<Longrightarrow> precedes z y" "precedes x z \<Longrightarrow> precedes y z" for z
    using y(1) by (auto simp: precedes_def)
  let ?c = "c\<lparr>chunk_data := (chunk_data c)[p := y]\<rparr>"
  have d': "chunk_data ?c = A @ y # B" "last_code_end ?c = last_code_end c" "refcount ?c = refcount c"
    using d(1) by (simp_all flip: d(2))
  have c: "chunk_wf c" "sorted_wrt precedes (chunk_data c)" "chunks_wf xs" "chunks_wf ys"
    using wf by (simp_all add: chunks_wf_append chunks_wf_Cons)
  have left: "chunk_precedes z c" "\<forall>u \<in> set (chunk_data z). \<forall>w \<in> set (chunk_data c). precedes u w"
    if "z \<in> set xs" for z using wf that by (simp_all add: chunks_wf_append)
  have right: "chunk_precedes c z" "\<forall>u \<in> set (chunk_data c). \<forall>w \<in> set (chunk_data z). precedes u w"
    if "z \<in> set ys" for z using wf that by (simp_all add: chunks_wf_append chunks_wf_Cons)
  have cross: "chunk_precedes z z' \<and> (\<forall>u \<in> set (chunk_data z). \<forall>w \<in> set (chunk_data z'). precedes u w)"
    if "z \<in> set xs" "z' \<in> set ys" for z z' using wf that by (simp add: chunks_wf_append)
  have "chunk_wf ?c" unfolding chunk_wf_def d' using c(1) by (auto simp: chunk_wf_def d(1) ends)
  moreover have "sorted_wrt precedes (chunk_data ?c)"
    unfolding d' using c(2) by (auto simp: d(1) sorted_wrt_append intro: pre)
  moreover have "chunk_precedes z ?c \<and> (\<forall>u \<in> set (chunk_data z). \<forall>w \<in> set (chunk_data ?c). precedes u w)"
    if "z \<in> set xs" for z
    unfolding chunk_precedes_def d'
    using left [OF that] by (auto simp: chunk_precedes_def d(1) ends intro: pre)
  moreover have "chunk_precedes ?c z \<and> (\<forall>u \<in> set (chunk_data ?c). \<forall>w \<in> set (chunk_data z). precedes u w)"
    if "z \<in> set ys" for z
    unfolding chunk_precedes_def d'
    using right [OF that] by (auto simp: chunk_precedes_def d(1) intro: pre)
  ultimately show ?thesis
    using c(3,4) cross unfolding chunks_wf_append chunks_wf_Cons by (metis set_ConsD)
qed

lemma live_occurs_once:
  "sorted_wrt precedes (L @ x # R) \<Longrightarrow> is_live x \<Longrightarrow> 0 < code_size x \<Longrightarrow> x \<notin> set L \<and> x \<notin> set R"
  by (auto simp: sorted_wrt_append precedes_def code_end_def)

text \<open>Where the search of the removal ends: at the entry itself.\<close>

lemma remove_search_spec:
  assumes t: "table_wf t" and ji: "ji \<in> live t" and inj: "inj_on ji_self (set (entries t))"
  obtains i0 i p where "jit_info_table_index t (code_start ji) = Inr i0" "i0 < num_chunks t"
    and "remove_search ji i0 (jit_info_table_chunk_index (chunks t ! i0) (code_start ji))
           (drop i0 (chunks t)) = Inr (i, p)"
    and "i < num_chunks t" "p < num_elements (chunks t ! i)" "chunk_data (chunks t ! i) ! p = ji"
proof -
  let ?a = "code_start ji"
  note sorted = table_sorted [OF t]
  have ji': "ji \<in> set (entries t)" "is_live ji" using ji by (auto simp: live_iff)
  then have "0 < code_size ji" using table_positive [OF t] by blast
  then have after: "?a < code_end ji" by (simp add: code_end_def)
  obtain i0 pre R where i0: "jit_info_table_index t ?a = Inr i0" "i0 < num_chunks t"
    and R: "R = drop (jit_info_table_chunk_index (chunks t ! i0) ?a) (chunk_data (chunks t ! i0)) @
      concat (map chunk_data (drop (Suc i0) (chunks t)))" "entries t = pre @ R"
    and pre: "\<And>x. x \<in> set pre \<Longrightarrow> code_end x \<le> ?a \<and> 0 < code_size x"
    and post: "\<And>x. x \<in> set R \<Longrightarrow> ?a < code_end x"
    using search_position [OF table_wf_readable [OF t]] by metis
  have "ji \<in> set R" using ji'(1) R(2) pre [of ji] after by auto
  then obtain ys zs where split: "R = ys @ ji # zs" "ji \<notin> set ys" by (metis split_list_first)
  have passed: "passed ji y" if "y \<in> set ys" for y
  proof -
    have "precedes y ji" using sorted that unfolding R(2) split by (simp add: sorted_wrt_append)
    moreover have "ji_self y \<noteq> ji_self ji"
      using inj_onD [OF inj, of y ji] that split R(2) by auto
    ultimately show ?thesis using post [of y] that split ji'(2) by (force simp: precedes_def)
  qed
  have cs: "drop i0 (chunks t) = chunks t ! i0 # drop (Suc i0) (chunks t)"
    using i0 by (simp add: Cons_nth_drop_Suc)
  have "drop (jit_info_table_chunk_index (chunks t ! i0) ?a) (chunk_data (chunks t ! i0)) @
      concat (map chunk_data (drop (Suc i0) (chunks t))) = ys @ ji # zs"
    using R(1) split(1) by simp
  then obtain k p where "remove_search ji i0 (jit_info_table_chunk_index (chunks t ! i0) ?a)
      (drop i0 (chunks t)) = Inr (i0 + k, p)" "k < length (drop i0 (chunks t))"
    "p < num_elements (drop i0 (chunks t) ! k)" "chunk_data (drop i0 (chunks t) ! k) ! p = ji"
    using remove_search_finds [OF _ passed refl] unfolding cs by metis
  then show thesis using that [OF i0, of "i0 + k" p] i0 by simp
qed

lemma table_tombstone_spec:
  assumes t: "table_wf t" and i: "i < num_chunks t" and p: "p < num_elements (chunks t ! i)"
    and ji: "chunk_data (chunks t ! i) ! p = ji" "is_live ji"
    and y: "IS_JIT_INFO_TOMBSTONE y" "code_start y = code_start ji" "code_size y = code_size ji"
    and t': "t' = t\<lparr>chunks := (chunks t)[i := (chunks t ! i)\<lparr>chunk_data := (chunk_data (chunks t ! i))[p := y]\<rparr>]\<rparr>"
  shows "table_wf t' \<and> set (entries t') = insert y (set (entries t) - {ji})"
proof -
  let ?c = "chunks t ! i" and ?xs = "take i (chunks t)" and ?ys = "drop (Suc i) (chunks t)"
  have wf: "chunks_wf (?xs @ ?c # ?ys)" using t chunks_split [OF i] by (simp add: table_wf_def)
  have cs: "chunks t' = ?xs @ ?c\<lparr>chunk_data := (chunk_data ?c)[p := y]\<rparr> # ?ys"
    using i by (simp add: t' list_update_map_upd)
  have wf': "table_wf t'"
    using tombstone_wf [OF wf p y(1)] y(2,3) ji(1) cs by (simp add: table_wf_def)
  let ?L = "concat (map chunk_data ?xs) @ take p (chunk_data ?c)"
  let ?R = "drop (Suc p) (chunk_data ?c) @ concat (map chunk_data ?ys)"
  have ent: "entries t = ?L @ ji # ?R"
    using concat_map_take_drop [OF i, of chunk_data] id_take_nth_drop [OF p] ji(1)
    by (simp add: entries_def)
  have ent': "entries t' = ?L @ y # ?R"
    using p by (simp add: entries_def cs list_update_map_upd)
  have "ji \<notin> set ?L \<and> ji \<notin> set ?R"
  proof (rule live_occurs_once)
    show "sorted_wrt precedes (?L @ ji # ?R)" "0 < code_size ji"
      using table_positive [OF t, of ji] table_sorted [OF t] ent by simp_all
  qed (rule ji(2))
  then show ?thesis using wf' ent ent' by auto
qed

lemma remove_spec:
  assumes d: "domain_wf d" and ji: "ji \<in> live (jit_info_table d)"
  shows "\<exists>d'. mono_jit_info_table_remove d ji = Inr d' \<and> domain_wf d' \<and>
    live (jit_info_table d') = live (jit_info_table d) - {ji}"
proof -
  let ?t = "jit_info_table d" and ?y = "mono_jit_info_make_tombstone (next_block d) ji"
  have t: "table_wf ?t" and inj: "inj_on ji_self (set (entries ?t))"
    and bound: "\<And>x. x \<in> set (entries ?t) \<Longrightarrow> ji_self x < next_block d"
    using d by (simp_all add: domain_wf_def)
  obtain i0 i p where search: "jit_info_table_index ?t (code_start ji) = Inr i0" "i0 < num_chunks ?t"
    "remove_search ji i0 (jit_info_table_chunk_index (chunks ?t ! i0) (code_start ji))
       (drop i0 (chunks ?t)) = Inr (i, p)"
    and at: "i < num_chunks ?t" "p < num_elements (chunks ?t ! i)" "chunk_data (chunks ?t ! i) ! p = ji"
    using remove_search_spec [OF t ji inj] by metis
  let ?t' = "?t\<lparr>chunks := (chunks ?t)[i := (chunks ?t ! i)\<lparr>chunk_data := (chunk_data (chunks ?t ! i))[p := ?y]\<rparr>]\<rparr>"
  have y: "IS_JIT_INFO_TOMBSTONE ?y" "code_start ?y = code_start ji" "code_size ?y = code_size ji"
    "ji_self ?y = next_block d"
    by (simp_all add: mono_jit_info_make_tombstone_def IS_JIT_INFO_TOMBSTONE_def)
  have t': "table_wf ?t'" "set (entries ?t') = insert ?y (set (entries ?t) - {ji})"
    using table_tombstone_spec [OF t at _ y(1-3) refl] ji by (auto simp: live_iff)
  let ?d = "mono_jit_info_free_or_queue (d\<lparr>jit_info_table := ?t', next_block := next_block d + 1\<rparr>) ji"
  have "mono_jit_info_table_remove d ji = Inr ?d"
    using search at by (simp add: mono_jit_info_table_remove_def Let_def)
  moreover have fields: "jit_info_table ?d = ?t'" "next_block ?d = next_block d + 1"
    by (simp_all add: mono_jit_info_free_or_queue_def)
  moreover have "live ?t' = live ?t - {ji}"
    using t'(2) y(1) by (auto simp: live_iff)
  moreover have "domain_wf ?d"
    unfolding domain_wf_def fields
    using t' y(4) inj bound by (fastforce simp: inj_on_def)
  ultimately show ?thesis by metis
qed

section \<open>What a reader can see during an insertion\<close>

text \<open>
  Between two writes of an insertion the chunk holds its old content with one entry doubled,
  or its new content.  \<open>dup d j\<close> is \<open>d\<close> with entry \<open>j - 1\<close> doubled.
\<close>

definition dup :: "MonoJitInfo list \<Rightarrow> nat \<Rightarrow> MonoJitInfo list" where
  "dup d j = take j d @ d ! (j - 1) # drop j d"

lemma dup_nth:
  "1 \<le> j \<Longrightarrow> j \<le> length d \<Longrightarrow> i \<le> length d \<Longrightarrow> dup d j ! i = (if i < j then d ! i else d ! (i - 1))"
  by (auto simp: dup_def nth_append nth_Cons' min_def)

lemma length_dup [simp]: "j \<le> length d \<Longrightarrow> length (dup d j) = Suc (length d)"
  by (simp add: dup_def)

lemma set_dup: "1 \<le> j \<Longrightarrow> j \<le> length d \<Longrightarrow> set (dup d j) = set d"
proof -
  assume j: "1 \<le> j" "j \<le> length d"
  have "set (take j d) \<union> set (drop j d) = set d" by (metis append_take_drop_id set_append)
  then show ?thesis using j by (auto simp: dup_def)
qed

lemma dup_shift:
  assumes "j = Suc k \<or> j = Suc (Suc k)" "j \<le> length d"
  shows "(dup d j)[Suc k := dup d j ! k] = dup d (Suc k)"
  by (rule nth_equalityI) (use assms in \<open>auto simp: dup_nth nth_list_update\<close>)

lemma shift_states_dup:
  "s \<in> set (shift_states k pos (dup d j)) \<Longrightarrow> j = k \<or> j = Suc k \<Longrightarrow> 1 \<le> j \<Longrightarrow> j \<le> length d \<Longrightarrow>
   \<exists>j'. 1 \<le> j' \<and> j' \<le> length d \<and> s = dup d j'"
proof (induction k arbitrary: j)
  case 0
  then show ?case by auto
next
  case (Suc k)
  consider "s = dup d j" | "s \<in> set (shift_states k pos (dup d (Suc k)))"
    using Suc.prems dup_shift [of j k d] by (auto split: if_splits)
  then show ?case
    using Suc.IH [of "Suc k"] Suc.prems by cases auto
qed

lemma size_up_dup: "d \<noteq> [] \<Longrightarrow> size_up d ji = dup d (length d)"
  by (simp add: size_up_def dup_def)

lemma dup_sorted:
  assumes "1 \<le> j" "j \<le> length d" "sorted_wrt precedes (xs @ d @ ys)"
  shows "sorted_wrt precedes_eq (xs @ dup d j @ ys)"
proof -
  have "sorted_wrt precedes_eq (xs @ d @ ys)"
    by (rule sorted_wrt_mono_rel [OF _ assms(3)]) (simp add: precedes_eq_def)
  moreover have "sorted_wrt precedes_eq (dup d j)"
    unfolding sorted_wrt_iff_nth_less
  proof (intro allI impI)
    fix i k assume ik: "i < k" "k < length (dup d j)"
    have d: "sorted_wrt precedes d" using assms(3) by (simp add: sorted_wrt_append)
    have mono: "precedes_eq (d ! a) (d ! b)" if "a \<le> b" "b < length d" for a b
      using d that by (cases "a = b") (auto simp: precedes_eq_def sorted_wrt_iff_nth_less)
    show "precedes_eq (dup d j ! i) (dup d j ! k)"
      using ik assms(1,2) by (auto simp: dup_nth intro!: mono)
  qed
  ultimately show ?thesis
    using set_dup [OF assms(1,2)] by (auto simp: sorted_wrt_append)
qed

lemma chunk_insert_states_cases:
  assumes s: "s \<in> set (chunk_insert_states c ji)" and sc: "sorted_wrt precedes (chunk_data c)"
  shows "s = chunk_insert c ji \<or> s = c \<or>
    (\<exists>j. 1 \<le> j \<and> j \<le> num_elements c \<and> s = c\<lparr>chunk_data := dup (chunk_data c) j\<rparr>) \<or>
    s = c\<lparr>chunk_data := chunk_data (chunk_insert c ji)\<rparr>"
proof (cases "chunk_data c = []")
  case True
  then show ?thesis using s
    by (auto simp: chunk_insert_states_def chunk_insert_def size_up_def Let_def
        jit_info_table_chunk_index_def chunk_index_loop.simps)
next
  case False
  let ?d = "chunk_data c" and ?p = "jit_info_table_chunk_index c (code_start ji + code_size ji)"
  have "\<exists>j. 1 \<le> j \<and> j \<le> length ?d \<and> d' = dup ?d j"
    if "d' \<in> set (shift_states (length ?d) ?p (dup ?d (length ?d)))" for d'
    using shift_states_dup [OF that] False by (simp add: Suc_le_eq)
  then show ?thesis
    using s False
    by (auto simp: chunk_insert_states_def size_up_dup Let_def chunk_insert_def)
qed

lemma readable_with_chunk:
  assumes t: "table_wf t" and i: "i < num_chunks t"
    and t': "t' = t\<lparr>chunks := (chunks t)[i := (chunks t ! i)\<lparr>chunk_data := d\<rparr>]\<rparr>"
    and sorted: "sorted_wrt precedes_eq (concat (map chunk_data (take i (chunks t))) @ d @
      concat (map chunk_data (drop (Suc i) (chunks t))))"
    and left: "\<And>j x. j < i \<Longrightarrow> x \<in> set d \<Longrightarrow> last_code_end (chunks t ! j) \<le> code_end x"
    and right: "\<And>x. i < num_chunks t - 1 \<Longrightarrow> x \<in> set d \<Longrightarrow> code_end x \<le> last_code_end (chunks t ! i)"
    and pos: "\<And>x. x \<in> set d \<Longrightarrow> 0 < code_size x"
  shows "readable t' \<and> set (entries t') = set (concat (map chunk_data (take i (chunks t)))) \<union> set d \<union>
      set (concat (map chunk_data (drop (Suc i) (chunks t))))"
proof -
  let ?c = "chunks t ! i" and ?xs = "take i (chunks t)" and ?ys = "drop (Suc i) (chunks t)"
  let ?c' = "?c\<lparr>chunk_data := d\<rparr>"
  have wf: "chunks_wf (?xs @ ?c # ?ys)" using t chunks_split [OF i] by (simp add: table_wf_def)
  have cs: "chunks t' = ?xs @ ?c' # ?ys" using i by (simp add: t' list_update_map_upd)
  have "chunk_precedes z ?c'" if z: "z \<in> set ?xs" for z
  proof -
    obtain j where j: "j < i" "z = chunks t ! j" using in_set_take_nth [OF z] by blast
    have "last_code_end z \<le> last_code_end ?c"
      using wf z unfolding chunks_wf_append by (simp add: chunk_precedes_def)
    then show ?thesis using left [OF j(1)] j(2) by (simp add: chunk_precedes_def)
  qed
  moreover have "sorted_wrt chunk_precedes ?xs" "sorted_wrt chunk_precedes ?ys"
    "\<And>z z'. z \<in> set ?xs \<Longrightarrow> z' \<in> set ?ys \<Longrightarrow> chunk_precedes z z'"
    "\<And>z. z \<in> set ?ys \<Longrightarrow> chunk_precedes ?c' z"
    using wf by (auto simp: chunks_wf_def sorted_wrt_append chunk_precedes_def)
  ultimately have "sorted_wrt chunk_precedes (chunks t')"
    by (auto simp: cs sorted_wrt_append)
  moreover have "code_end x \<le> last_code_end z" if "z \<in> set (butlast (chunks t'))" "x \<in> set (chunk_data z)" for z x
  proof -
    have "z \<in> set ?xs \<or> z = ?c' \<and> ?ys \<noteq> [] \<or> z \<in> set ?ys"
      using that(1) unfolding cs by (auto simp: butlast_append split: if_splits dest: in_set_butlastD)
    moreover have "chunk_wf w" if "w \<in> set ?xs \<or> w \<in> set ?ys" for w
      using wf that by (auto simp: chunks_wf_def)
    ultimately show ?thesis using right that(2) by (force simp: chunk_wf_def)
  qed
  moreover have ent: "entries t' = concat (map chunk_data ?xs) @ d @ concat (map chunk_data ?ys)"
    by (simp add: entries_def cs)
  moreover have "0 < code_size x" if "x \<in> set (entries t')" for x
    using that pos entries_positive [OF wf, of x] unfolding ent by auto
  ultimately show ?thesis using sorted by (auto simp: readable_def cs)
qed

lemma insert_states_readable:
  assumes t: "table_wf t" and ins: "insertable (chunks t) ji" and live: "is_live ji"
    and i: "jit_info_table_index t (code_end ji) = Inr i"
    and room: "num_elements (chunks t ! i) < CHUNK_SIZE"
    and s: "s \<in> set (chunk_insert_states (chunks t ! i) ji)"
    and t': "t' = t\<lparr>chunks := (chunks t)[i := s]\<rparr>"
  shows "readable t' \<and> set (entries t) \<subseteq> set (entries t') \<and> set (entries t') \<subseteq> insert ji (set (entries t))"
proof -
  let ?c = "chunks t ! i" and ?xs = "take i (chunks t)" and ?ys = "drop (Suc i) (chunks t)"
  let ?n = "t\<lparr>chunks := (chunks t)[i := chunk_insert ?c ji]\<rparr>"
  obtain i' where i': "jit_info_table_index t (code_end ji) = Inr i'" "i' < num_chunks t"
    and below: "\<And>j. j < i' \<Longrightarrow> last_code_end (chunks t ! j) \<le> code_end ji"
    and above: "i' < num_chunks t - 1 \<Longrightarrow> code_end ji < last_code_end (chunks t ! i')"
    using jit_info_table_index_spec [OF table_wf_readable [OF t]] by metis
  have n: "i < num_chunks t" and ii: "i' = i" using i i' by simp_all
  have wf: "chunks_wf (?xs @ ?c # ?ys)" using t chunks_split [OF n] by (simp add: table_wf_def)
  have sc: "sorted_wrt precedes (chunk_data ?c)" using chunk_sorted [OF wf] by simp
  have new: "table_wf ?n" "set (entries ?n) = insert ji (set (entries t))"
    using table_insert_spec [OF t ins i room refl] by auto
  have ent: "entries t = concat (map chunk_data ?xs) @ chunk_data ?c @ concat (map chunk_data ?ys)"
    by (simp add: entries_def concat_map_take_drop [OF n])
  have entn: "entries ?n = concat (map chunk_data ?xs) @ chunk_data (chunk_insert ?c ji) @ concat (map chunk_data ?ys)"
    using n by (simp add: entries_def list_update_map_upd)
  have dn: "set (chunk_data (chunk_insert ?c ji)) = insert ji (set (chunk_data ?c))"
    by (rule chunk_insert_parts [OF sc, of ji]) auto
  have old: "last_code_end (chunks t ! j) \<le> code_end x" "code_end x \<le> last_code_end ?c" "0 < code_size x"
    if "x \<in> set (chunk_data ?c)" "j < i" for x j
    using that t n by (auto simp: table_wf_def chunks_wf_def chunk_wf_def sorted_wrt_iff_nth_less chunk_precedes_def)
  have old': "code_end x \<le> last_code_end ?c" "0 < code_size x" if "x \<in> set (chunk_data ?c)" for x
    using that t n by (auto simp: table_wf_def chunks_wf_def chunk_wf_def)
  have ji: "0 < code_size ji" using ins by (simp add: insertable_def)
  show ?thesis
    using chunk_insert_states_cases [OF s sc]
  proof (elim disjE exE conjE)
    assume "s = chunk_insert ?c ji"
    then show ?thesis using new table_wf_readable by (auto simp: t')
  next
    assume "s = ?c"
    then show ?thesis using t table_wf_readable n by (auto simp: t')
  next
    fix j assume j: "1 \<le> j" "j \<le> num_elements ?c" "s = ?c\<lparr>chunk_data := dup (chunk_data ?c) j\<rparr>"
    have "sorted_wrt precedes_eq (concat (map chunk_data ?xs) @ dup (chunk_data ?c) j @ concat (map chunk_data ?ys))"
      using dup_sorted [OF j(1,2)] table_sorted [OF t] by (simp add: ent)
    from readable_with_chunk [OF t n _ this] show ?thesis
      using old old' set_dup [OF j(1,2)] by (simp add: t' j(3) ent) auto
  next
    assume e: "s = ?c\<lparr>chunk_data := chunk_data (chunk_insert ?c ji)\<rparr>"
    have sorted: "sorted_wrt precedes_eq (entries ?n)"
      using table_wf_readable [OF new(1)] by (simp add: readable_def)
    have a1: "last_code_end (chunks t ! j) \<le> code_end x"
      if "j < i" "x \<in> set (chunk_data (chunk_insert ?c ji))" for j x
      using that old below ii dn by auto
    have a2: "code_end x \<le> last_code_end ?c"
      if "i < num_chunks t - 1" "x \<in> set (chunk_data (chunk_insert ?c ji))" for x
      using that old' above ii dn by auto
    have a3: "0 < code_size x" if "x \<in> set (chunk_data (chunk_insert ?c ji))" for x
      using that old' ji dn by auto
    show ?thesis
      using readable_with_chunk [OF t n t' [unfolded e] sorted [unfolded entn] a1 a2 a3] dn
      by (auto simp: ent)
  qed
qed

section \<open>The consistency check accepts every well-formed table\<close>

lemma first_nonempty_in: "first_nonempty cs = Some y \<Longrightarrow> \<exists>c \<in> set cs. y \<in> set (chunk_data c)"
proof -
  assume "first_nonempty cs = Some y"
  then obtain c cs' where c: "dropWhile (\<lambda>c. num_elements c = 0) cs = c # cs'" "y = chunk_data c ! 0"
    by (auto simp: first_nonempty_def split: list.splits)
  have "num_elements c \<noteq> 0" using c(1) hd_dropWhile [of "\<lambda>c. num_elements c = 0" cs] by simp
  moreover have "c \<in> set cs" using c(1) by (metis list.set_intros(1) set_dropWhileD)
  ultimately show ?thesis using c(2) by (intro bexI [of _ c]) auto
qed

lemma check_entries_ok:
  assumes "sorted_wrt precedes xs" and "\<And>x. x \<in> set xs \<Longrightarrow> code_end x \<le> last_code_end c"
    and "\<And>x c' y. x \<in> set xs \<Longrightarrow> c' \<in> set rest \<Longrightarrow> y \<in> set (chunk_data c') \<Longrightarrow> precedes x y"
  shows "is_ok (check_entries c xs rest)"
  using assms
proof (induction c xs rest rule: check_entries.induct)
  case (2 c x y ys rest)
  then show ?case by (auto simp: precedes_def)
next
  case (3 c x rest)
  then show ?case
    by (auto simp: guardr_def precedes_def split: option.split dest!: first_nonempty_in)
qed simp

lemma check_chunks_ok: "chunks_wf cs \<Longrightarrow> check_chunks cs = Inr ()"
proof (induction cs)
  case (Cons c cs)
  have "is_ok (check_entries c (chunk_data c) cs)"
    using Cons.prems by (intro check_entries_ok) (auto simp: chunks_wf_Cons chunk_wf_def)
  then obtain go where "check_entries c (chunk_data c) cs = Inr go" by (auto simp: is_ok_iff)
  then show ?case using Cons by (auto simp: chunks_wf_Cons chunk_wf_def)
qed simp

section \<open>Modules compiled ahead of time\<close>

text \<open>The table of modules is sorted and the modules do not overlap.\<close>

definition aot_wf :: "AotModuleInfo list \<Rightarrow> bool" where
  "aot_wf tab \<longleftrightarrow> (\<forall>m \<in> set tab. aot_start m < aot_end m) \<and>
     sorted_wrt (\<lambda>m m'. aot_end m \<le> aot_start m') tab"

lemma aot_order:
  assumes "aot_wf tab" "i < length tab" "j < length tab"
  shows "i < j \<Longrightarrow> aot_end (tab ! i) \<le> aot_start (tab ! j)"
    and "aot_start (tab ! i) < aot_end (tab ! i)"
  using assms by (auto simp: aot_wf_def sorted_wrt_iff_nth_less)

lemma find_aot_loop_hit:
  assumes "aot_wf tab" "r \<le> length tab" "l \<le> k" "k < r"
    and "aot_start (tab ! k) \<le> a" "a < aot_end (tab ! k)"
  shows "find_aot_loop tab a l r = Some (aot_image (tab ! k))"
  using assms(2-)
proof (induction "r - l" arbitrary: l r rule: less_induct)
  case less
  let ?m = "(l + r) div 2"
  have m: "l \<le> ?m" "?m < r" using less.prems by auto
  have nth: "?m < length tab" "k < length tab" using m less.prems by auto
  show ?case
  proof (cases "?m = k")
    case True
    then show ?thesis using less.prems by (subst find_aot_loop.simps) (simp add: Let_def)
  next
    case False
    then consider "?m < k" | "k < ?m" by linarith
    then show ?thesis
    proof cases
      case 1
      then have "aot_end (tab ! ?m) \<le> a" "aot_start (tab ! ?m) < aot_end (tab ! ?m)"
        using aot_order [OF assms(1) nth] less.prems by auto
      then show ?thesis
        using less.hyps [of r "?m + 1"] less.prems m 1
        by (subst find_aot_loop.simps) (simp add: Let_def)
    next
      case 2
      then have "a < aot_start (tab ! ?m)"
        using aot_order [OF assms(1) nth(2,1)] less.prems by auto
      then show ?thesis
        using less.hyps [of ?m l] less.prems m 2
        by (subst find_aot_loop.simps) (simp add: Let_def)
    qed
  qed
qed

lemma find_aot_loop_sound:
  assumes "find_aot_loop tab a l r = Some img" "r \<le> length tab"
  shows "\<exists>m \<in> set tab. aot_image m = img \<and> aot_start m \<le> a \<and> a < aot_end m"
  using assms
proof (induction tab a l r rule: find_aot_loop.induct)
  case (1 tab a l r)
  then show ?case
    by (subst (asm) (3) find_aot_loop.simps)
      (auto simp: Let_def not_less split: if_splits intro!: bexI [of _ "tab ! ((l + r) div 2)"])
qed

lemma find_aot_module_iff:
  assumes "aot_wf tab"
  shows "mono_jit_info_find_aot_module (Some tab) a = Some img \<longleftrightarrow>
    (\<exists>m \<in> set tab. aot_image m = img \<and> aot_start m \<le> a \<and> a < aot_end m)"
  using find_aot_loop_sound [of tab a 0 "length tab" img] find_aot_loop_hit [OF assms, of "length tab" 0]
  by (auto simp: mono_jit_info_find_aot_module_def in_set_conv_nth)

lemma aot_index_spec:
  assumes wf: "aot_wf tab" and out: "\<And>m. m \<in> set tab \<Longrightarrow> a < aot_start m \<or> aot_end m \<le> a"
    and "r \<le> length tab" "l \<le> r"
    and "\<And>i. i < l \<Longrightarrow> aot_end (tab ! i) \<le> a" "\<And>i. r \<le> i \<Longrightarrow> i < length tab \<Longrightarrow> a < aot_start (tab ! i)"
  shows "aot_index_loop tab a l r \<le> length tab \<and> (\<forall>i < aot_index_loop tab a l r. aot_end (tab ! i) \<le> a) \<and>
    (\<forall>i < length tab. aot_index_loop tab a l r \<le> i \<longrightarrow> a < aot_start (tab ! i))"
  using assms(3-)
proof (induction "r - l" arbitrary: l r rule: less_induct)
  case less
  show ?case
  proof (cases "l < r")
    case False
    then have "aot_index_loop tab a l r = l" by (subst aot_index_loop.simps) simp
    then show ?thesis using less.prems False by auto
  next
    case True
    let ?m = "(l + r) div 2"
    have m: "l \<le> ?m" "?m < r" "?m < length tab" using True less.prems by auto
    have in_tab: "tab ! ?m \<in> set tab" using m by simp
    show ?thesis
    proof (cases "a < aot_start (tab ! ?m)")
      case left: True
      have up: "a < aot_start (tab ! i)" if "?m \<le> i" "i < length tab" for i
        using aot_order [OF wf m(3) that(2)] left that(1) by (cases "?m = i") auto
      have eq: "aot_index_loop tab a l r = aot_index_loop tab a l ?m"
        using True left by (subst aot_index_loop.simps) (simp add: Let_def)
      show ?thesis unfolding eq by (rule less.hyps) (use less.prems(3) m up in auto)
    next
      case right: False
      then have ge: "aot_end (tab ! ?m) \<le> a" using out [OF in_tab] by simp
      have down: "aot_end (tab ! i) \<le> a" if "i < ?m + 1" for i
      proof (cases "i = ?m")
        case False
        then have "i < ?m" "i < length tab" using that m by auto
        then show ?thesis using aot_order [OF wf _ m(3), of i] aot_order(2) [OF wf m(3) m(3)] ge by linarith
      qed (simp add: ge)
      have eq: "aot_index_loop tab a l r = aot_index_loop tab a (?m + 1) r"
        using True right ge by (subst aot_index_loop.simps) (simp add: Let_def)
      show ?thesis unfolding eq by (rule less.hyps) (use less.prems(1,4) m down in auto)
    qed
  qed
qed

lemma add_aot_module_wf:
  assumes wf: "aot_wf tab" and "st < en"
    and out: "\<And>m. m \<in> set tab \<Longrightarrow> en \<le> aot_start m \<or> aot_end m \<le> st"
  shows "\<exists>tab'. mono_jit_info_add_aot_module (Some tab) img st en = Some tab' \<and> aot_wf tab' \<and>
    set tab' = insert \<lparr>aot_image = img, aot_start = st, aot_end = en\<rparr> (set tab)"
proof -
  let ?p = "aot_info_table_index tab st" and ?a = "\<lparr>aot_image = img, aot_start = st, aot_end = en\<rparr>"
  have p: "?p \<le> length tab" "\<And>i. i < ?p \<Longrightarrow> aot_end (tab ! i) \<le> st"
    "\<And>i. ?p \<le> i \<Longrightarrow> i < length tab \<Longrightarrow> st < aot_start (tab ! i)"
    using aot_index_spec [OF wf, of st "length tab" 0] out \<open>st < en\<close>
    by (fastforce simp: aot_info_table_index_def)+
  have left: "aot_end m \<le> st" if "m \<in> set (take ?p tab)" for m
    using in_set_take_nth [OF that] p(2) by blast
  have right: "en \<le> aot_start m" if m: "m \<in> set (drop ?p tab)" for m
  proof -
    obtain k where k: "k < length tab - ?p" "m = tab ! (?p + k)"
      using m by (auto simp: in_set_conv_nth)
    then have "st < aot_start m" "m \<in> set tab" using p(3) [of "?p + k"] by auto
    moreover from this have "aot_start m < aot_end m" using wf by (simp add: aot_wf_def)
    ultimately show ?thesis using out [of m] by auto
  qed
  have "aot_wf (take ?p tab @ drop ?p tab)" using wf by simp
  then have "aot_wf (take ?p tab @ ?a # drop ?p tab)"
    using left right \<open>st < en\<close> unfolding aot_wf_def sorted_wrt_append
    by (auto dest: in_set_takeD in_set_dropD)
  moreover have "set (take ?p tab @ ?a # drop ?p tab) = insert ?a (set tab)"
    by (metis Un_insert_right append_take_drop_id list.simps(15) set_append)
  ultimately show ?thesis
    unfolding mono_jit_info_add_aot_module_def Let_def option.case by blast
qed

end
