(* ===== verification/Jit_Info_Table_Spec.thy ===== *)
theory Jit_Info_Table_Spec
  imports Jit_Info_Table_Proofs
begin

text \<open>
  The code-address index seen from its clients: the interface \<open>code_index\<close> with the laws a
  client relies on, its interpretation on the operations of the source, the reachable states of
  a domain, and the properties of the component.
\<close>

section \<open>The index as an interface\<close>

text \<open>
  What the rest of the runtime relies on (stack walks, exception handling, the profilers): the
  index is a set of code blocks that do not overlap; lookup is membership, insertion and removal
  change the set by one element.  \<open>admissible d j\<close> says when \<open>j\<close> may be inserted.
\<close>

locale code_index =
  fixes inv :: "'d \<Rightarrow> bool"
    and blocks :: "'d \<Rightarrow> 'j set"
    and block_covers :: "'j \<Rightarrow> addr \<Rightarrow> bool"
    and admissible :: "'d \<Rightarrow> 'j \<Rightarrow> bool"
    and find :: "'d \<Rightarrow> addr \<Rightarrow> 'j option res"
    and add :: "'d \<Rightarrow> 'j \<Rightarrow> 'd res option"
    and remove :: "'d \<Rightarrow> 'j \<Rightarrow> 'd res"
  assumes find_total: "inv d \<Longrightarrow> \<exists>r. find d a = Inr r"
    and find_iff: "inv d \<Longrightarrow> find d a = Inr (Some j) \<longleftrightarrow> j \<in> blocks d \<and> block_covers j a"
    and add_law: "inv d \<Longrightarrow> admissible d j \<Longrightarrow>
      \<exists>d'. add d j = Some (Inr d') \<and> inv d' \<and> blocks d' = insert j (blocks d)"
    and remove_law: "inv d \<Longrightarrow> j \<in> blocks d \<Longrightarrow>
      \<exists>d'. remove d j = Inr d' \<and> inv d' \<and> blocks d' = blocks d - {j}"
begin

lemma find_none_iff: "inv d \<Longrightarrow> find d a = Inr None \<longleftrightarrow> (\<forall>j \<in> blocks d. \<not> block_covers j a)"
  using find_total [of d a] find_iff [of d a] by (metis Inr_inject option.exhaust option.distinct(1))

lemma blocks_disjoint:
  "inv d \<Longrightarrow> j \<in> blocks d \<Longrightarrow> k \<in> blocks d \<Longrightarrow> block_covers j a \<Longrightarrow> block_covers k a \<Longrightarrow> j = k"
  using find_iff [of d a j] find_iff [of d a k] by simp

lemma find_after_add:
  assumes "inv d" "admissible d j" "add d j = Some (Inr d')"
  shows "find d' a = (if block_covers j a then Inr (Some j) else find d a)"
proof -
  have d': "inv d'" "blocks d' = insert j (blocks d)" using add_law [OF assms(1,2)] assms(3) by auto
  obtain r where r: "find d a = Inr r" using find_total [OF assms(1)] by blast
  show ?thesis
  proof (cases "block_covers j a")
    case True
    then show ?thesis using find_iff [OF d'(1), of a j] d' by simp
  next
    case False
    then show ?thesis
      using find_iff [OF d'(1), of a] find_none_iff [OF d'(1), of a] find_iff [OF assms(1), of a]
        find_none_iff [OF assms(1), of a] d'(2) r by (cases r) auto
  qed
qed

lemma find_after_remove:
  assumes "inv d" "j \<in> blocks d" "remove d j = Inr d'"
  shows "find d' a = (if block_covers j a then Inr None else find d a)"
proof -
  have d': "inv d'" "blocks d' = blocks d - {j}" using remove_law [OF assms(1,2)] assms(3) by auto
  obtain r where r: "find d a = Inr r" using find_total [OF assms(1)] by blast
  show ?thesis
  proof (cases "block_covers j a")
    case True
    then show ?thesis
      using find_none_iff [OF d'(1), of a] d'(2) blocks_disjoint [OF assms(1) assms(2)] by auto
  next
    case False
    then show ?thesis
      using find_iff [OF d'(1), of a] find_none_iff [OF d'(1), of a] find_iff [OF assms(1), of a]
        find_none_iff [OF assms(1), of a] d'(2) r by (cases r) auto
  qed
qed

end

definition domain_find :: "MonoDomain \<Rightarrow> addr \<Rightarrow> MonoJitInfo option res" where
  "domain_find d a = jit_info_table_scan (jit_info_table d) a"

definition domain_live :: "MonoDomain \<Rightarrow> MonoJitInfo set" where
  "domain_live d = live (jit_info_table d)"

definition can_add :: "MonoDomain \<Rightarrow> MonoJitInfo \<Rightarrow> bool" where
  "can_add d ji \<longleftrightarrow> fresh_for d ji \<and> has_room d ji"

lemma add_spec:
  assumes "domain_wf d" "can_add d ji"
  shows "\<exists>d'. mono_jit_info_table_add d ji = Some (Inr d') \<and> domain_wf d' \<and>
    domain_live d' = insert ji (domain_live d)"
proof -
  have "ji_method ji \<noteq> 0" using assms(2) by (simp add: can_add_def fresh_for_def)
  then show ?thesis
    using add_restart_spec [of d ji] assms
    by (auto simp: mono_jit_info_table_add_def can_add_def domain_live_def)
qed

lemma add_without_room:
  assumes "domain_wf d" "fresh_for d ji" "\<not> has_room d ji"
  shows "mono_jit_info_table_add d ji = Some (Inl Assert_failed)"
  using add_restart_without_room [OF assms(1,3)] assms(2) by (simp add: mono_jit_info_table_add_def fresh_for_def)

interpretation jit_index: code_index domain_wf domain_live covers can_add domain_find
  mono_jit_info_table_add mono_jit_info_table_remove
proof unfold_locales
  fix d a j
  assume wf: "domain_wf d"
  then have t: "table_wf (jit_info_table d)" by (simp add: domain_wf_def)
  show "\<exists>r. domain_find d a = Inr r"
    using jit_info_table_scan_eq [OF table_wf_readable [OF t]] by (simp add: domain_find_def)
  show "domain_find d a = Inr (Some j) \<longleftrightarrow> j \<in> domain_live d \<and> covers j a"
    using jit_info_table_scan_live [OF t] by (simp add: domain_find_def domain_live_def)
  show "\<exists>d'. mono_jit_info_table_add d j = Some (Inr d') \<and> domain_wf d' \<and>
      domain_live d' = insert j (domain_live d)" if "can_add d j"
    using add_spec [OF wf that] .
  show "\<exists>d'. mono_jit_info_table_remove d j = Inr d' \<and> domain_wf d' \<and>
      domain_live d' = domain_live d - {j}" if "j \<in> domain_live d"
    using remove_spec [OF wf] that by (simp add: domain_live_def)
qed

section \<open>Histories\<close>

text \<open>
  A domain starts with an empty table (\<open>mono_domain_create\<close>); then methods are compiled and
  freed.  A new block overlaps no live one, and its insertion either returns or fails an assertion,
  which ends the process and the history.  \<open>history S d\<close>: the domain state \<open>d\<close> can be reached and
  \<open>S\<close> are the blocks that were added and not removed since.
\<close>

inductive history :: "MonoJitInfo set \<Rightarrow> MonoDomain \<Rightarrow> bool" where
  created: "history {} (new_domain self frontier)"
| compiled: "history S d \<Longrightarrow> fresh_for d ji \<Longrightarrow> mono_jit_info_table_add d ji = Some (Inr d') \<Longrightarrow>
    history (insert ji S) d'"
| freed: "history S d \<Longrightarrow> ji \<in> S \<Longrightarrow> mono_jit_info_table_remove d ji = Inr d' \<Longrightarrow>
    history (S - {ji}) d'"

lemma new_domain_wf: "domain_wf (new_domain s f)" "domain_live (new_domain s f) = {}"
  by (simp_all add: domain_wf_def new_domain_def table_wf_def jit_info_table_new_def
      jit_info_table_new_chunk_def chunks_wf_def chunk_wf_def entries_def domain_live_def live_def)

lemma history_simulates: "history S d \<Longrightarrow> domain_wf d \<and> domain_live d = S"
proof (induction rule: history.induct)
  case (created self frontier)
  then show ?case using new_domain_wf by simp
next
  case (compiled S d ji d')
  then have "can_add d ji" using add_without_room [of d ji] by (auto simp: can_add_def)
  then show ?case using compiled jit_index.add_law [of d ji] by auto
next
  case (freed S d ji d')
  then show ?case using jit_index.remove_law [of d ji] by auto
qed

section \<open>Properties\<close>

text \<open>Values for the examples: a method at address 4096 and a table that holds it.\<close>

definition ji_a :: MonoJitInfo where
  "ji_a = \<lparr>ji_self = 1, ji_method = 7, code_start = 4096, code_size = 64\<rparr>"

definition ji_b :: MonoJitInfo where
  "ji_b = \<lparr>ji_self = 2, ji_method = 8, code_start = 8192, code_size = 16\<rparr>"

definition tab_a :: MonoJitInfoTable where
  "tab_a = \<lparr>table_domain = 5, chunks = [\<lparr>refcount = 1, last_code_end = 4160, chunk_data = [ji_a]\<rparr>]\<rparr>"

definition dom_a :: MonoDomain where
  "dom_a = (new_domain 5 100)\<lparr>jit_info_table := tab_a\<rparr>"

lemmas example_defs = ji_a_def ji_b_def tab_a_def dom_a_def new_domain_def

lemmas wf_defs = domain_wf_def table_wf_def chunks_wf_def chunk_wf_def entries_def live_def
  IS_JIT_INFO_TOMBSTONE_def CHUNK_SIZE_def code_end_def covers_def

lemma dom_a_facts: "domain_wf dom_a" "table_wf tab_a" "live tab_a = {ji_a}" "domain_live dom_a = {ji_a}"
  by (auto simp: example_defs wf_defs domain_live_def)

lemma dom_a_can_add: "can_add dom_a ji_b"
  by (auto simp: can_add_def fresh_for_def has_room_def dom_a_facts live_iff example_defs wf_defs
      apart_def full_chunks_def)

text \<open>
  C4.  The lookup by address is exact: in a well-formed table, an address inside a live code
  block yields that block and no other; an address outside every live block yields what the
  ahead-of-time modules give, and nothing when the thread has no hazard pointers.
\<close>

theorem mono_jit_info_table_find_exact:
  assumes "table_wf t"
  shows "(\<forall>ji. ji \<in> live t \<and> covers ji a \<longrightarrow>
           mono_jit_info_table_find hp aot_modules find_in_aot t a = Inr (Some ji)) \<and>
    ((\<forall>ji \<in> live t. \<not> covers ji a) \<longrightarrow>
       mono_jit_info_table_find hp aot_modules find_in_aot t a =
         Inr (if hp then (case mono_jit_info_find_aot_module aot_modules a of
                            None \<Rightarrow> None | Some img \<Rightarrow> find_in_aot (table_domain t) img a)
              else None))"
proof (intro conjI allI impI)
  show "mono_jit_info_table_find hp aot_modules find_in_aot t a = Inr (Some ji)"
    if "ji \<in> live t \<and> covers ji a" for ji
    using jit_info_table_scan_live [OF assms, of a ji] that by (simp add: mono_jit_info_table_find_def)
  show "mono_jit_info_table_find hp aot_modules find_in_aot t a =
      Inr (if hp then (case mono_jit_info_find_aot_module aot_modules a of
                         None \<Rightarrow> None | Some img \<Rightarrow> find_in_aot (table_domain t) img a) else None)"
    if "\<forall>ji \<in> live t. \<not> covers ji a"
    using jit_info_table_scan_none [OF assms, of a] that
    by (simp add: mono_jit_info_table_find_def split: option.split)
qed

theorem mono_jit_info_table_find_exact_witness:
  "mono_jit_info_table_find True None (\<lambda>_ _ _. None) tab_a 4100 = Inr (Some ji_a) \<and>
   mono_jit_info_table_find True None (\<lambda>_ _ _. None) tab_a 4160 = Inr None"
proof -
  have "covers ji_a 4100" "\<not> covers ji_a 4160" by (simp_all add: example_defs wf_defs)
  then show ?thesis
    using mono_jit_info_table_find_exact [OF dom_a_facts(2), of 4100 True None "\<lambda>_ _ _. None"]
      mono_jit_info_table_find_exact [OF dom_a_facts(2), of 4160 True None "\<lambda>_ _ _. None"] dom_a_facts(3)
    by (simp add: mono_jit_info_find_aot_module_def)
qed

text \<open>
  C5.  What an insertion does, in every state of a domain and for every new, non-empty block of a
  method that overlaps no live one.  When no entry of the table is live and the chunk that the block belongs to is full, the call
  fails an assertion.  In every other state it returns, keeps the invariant of the domain and
  changes the lookup at exactly the addresses of the new block, however many times the table has
  to be reallocated, split or purified on the way.
\<close>

theorem mono_jit_info_table_add_correct:
  assumes "domain_wf d" and "fresh_for d ji"
  shows "if domain_live d = {} \<and> target_full d ji
    then mono_jit_info_table_add d ji = Some (Inl Assert_failed)
    else \<exists>d'. mono_jit_info_table_add d ji = Some (Inr d') \<and> domain_wf d' \<and>
      domain_live d' = insert ji (domain_live d) \<and>
      (\<forall>a. domain_find d' a = (if covers ji a then Inr (Some ji) else domain_find d a))"
proof (cases "has_room d ji")
  case True
  then have c: "can_add d ji" using assms(2) by (simp add: can_add_def)
  obtain d' where "mono_jit_info_table_add d ji = Some (Inr d')" "domain_wf d'"
    "domain_live d' = insert ji (domain_live d)"
    using jit_index.add_law [OF assms(1) c] by blast
  then show ?thesis using jit_index.find_after_add [OF assms(1) c] True
    by (auto simp: has_room_def domain_live_def)
next
  case False
  then show ?thesis using add_without_room [OF assms False] by (simp add: has_room_def domain_live_def)
qed

theorem mono_jit_info_table_add_correct_witness:
  "\<exists>d'. mono_jit_info_table_add dom_a ji_b = Some (Inr d') \<and> domain_live d' = {ji_b, ji_a} \<and>
    domain_find d' 8200 = Inr (Some ji_b)"
proof -
  have "covers ji_b 8200" by (simp add: example_defs wf_defs)
  moreover have "fresh_for dom_a ji_b" using dom_a_can_add by (simp add: can_add_def)
  ultimately show ?thesis
    using mono_jit_info_table_add_correct [OF dom_a_facts(1), of ji_b] dom_a_facts(4) by auto
qed

text \<open>
  C6.  Removal of a live block never fails an assertion, keeps the invariant, and makes the
  addresses of that block, and only those, unknown to the lookup.
\<close>

theorem mono_jit_info_table_remove_correct:
  assumes "domain_wf d" and "ji \<in> domain_live d"
  shows "\<exists>d'. mono_jit_info_table_remove d ji = Inr d' \<and> domain_wf d' \<and>
    domain_live d' = domain_live d - {ji} \<and>
    (\<forall>a. domain_find d' a = (if covers ji a then Inr None else domain_find d a))"
proof -
  obtain d' where "mono_jit_info_table_remove d ji = Inr d'" "domain_wf d'"
    "domain_live d' = domain_live d - {ji}"
    using jit_index.remove_law [OF assms] by blast
  then show ?thesis using jit_index.find_after_remove [OF assms] by blast
qed

theorem mono_jit_info_table_remove_correct_witness:
  "\<exists>d'. mono_jit_info_table_remove dom_a ji_a = Inr d' \<and> domain_live d' = {} \<and>
    domain_find d' 4100 = Inr None"
proof -
  have "covers ji_a 4100" by (simp add: example_defs wf_defs)
  then show ?thesis
    using mono_jit_info_table_remove_correct [OF dom_a_facts(1), of ji_a] dom_a_facts(4) by auto
qed

text \<open>
  C7.  After any history of insertions of new, non-empty blocks of methods that overlap no live one, all of
  which returned, and of removals of live blocks, the lookup is the lookup in the abstract set of blocks: it finds a block
  exactly when that block was added, not removed since, and contains the address; and the
  table passes the consistency check of the source.
\<close>

theorem jit_info_table_refines_set:
  assumes "history S d"
  shows "(domain_find d a = Inr (Some ji) \<longleftrightarrow> ji \<in> S \<and> covers ji a) \<and>
    (domain_find d a = Inr None \<longleftrightarrow> (\<forall>ji \<in> S. \<not> covers ji a)) \<and>
    jit_info_table_check (jit_info_table d) = Inr ()"
proof -
  have d: "domain_wf d" "domain_live d = S" using history_simulates [OF assms] by auto
  then have "jit_info_table_check (jit_info_table d) = Inr ()"
    by (simp add: jit_info_table_check_def domain_wf_def table_wf_def check_chunks_ok)
  then show ?thesis
    using jit_index.find_iff [OF d(1)] jit_index.find_none_iff [OF d(1)] d(2) by simp
qed

lemma can_add_first: "can_add (new_domain 5 100) ji_a"
  by (auto simp: can_add_def fresh_for_def has_room_def target_full_def jit_info_table_index_def table_index_loop.simps
      example_defs wf_defs jit_info_table_new_def jit_info_table_new_chunk_def)

theorem jit_info_table_refines_set_witness:
  "\<exists>d. history {ji_a} d \<and> domain_find d 4100 = Inr (Some ji_a) \<and> domain_find d 5000 = Inr None"
proof -
  obtain d where "mono_jit_info_table_add (new_domain 5 100) ji_a = Some (Inr d)"
    using add_spec [OF new_domain_wf(1) can_add_first] by blast
  then have h: "history {ji_a} d"
    using history.compiled [OF history.created [of 5 100]] can_add_first by (simp add: can_add_def)
  have "covers ji_a 4100" "\<not> covers ji_a 5000" by (simp_all add: example_defs wf_defs)
  then show ?thesis
    using jit_info_table_refines_set [OF h, of 4100 ji_a] jit_info_table_refines_set [OF h, of 5000 ji_a] h
    by auto
qed

text \<open>
  C8.  A lookup that runs between any two of the single writes by which an insertion shifts the
  entries of a chunk, without taking the domain lock, still finds every block that was live
  before, and never returns anything but such a block or the new one.
\<close>

theorem lookup_during_insertion:
  assumes "table_wf t" and "insertable (chunks t) ji" and "is_live ji"
    and "jit_info_table_index t (code_end ji) = Inr i"
    and "num_elements (chunks t ! i) < CHUNK_SIZE"
    and "s \<in> set (chunk_insert_states (chunks t ! i) ji)"
  shows "(\<forall>x \<in> live t. covers x a \<longrightarrow>
      jit_info_table_scan (t\<lparr>chunks := (chunks t)[i := s]\<rparr>) a = Inr (Some x)) \<and>
    (\<forall>x. jit_info_table_scan (t\<lparr>chunks := (chunks t)[i := s]\<rparr>) a = Inr (Some x) \<longrightarrow>
      (x \<in> live t \<or> x = ji) \<and> covers x a)"
proof -
  let ?t = "t\<lparr>chunks := (chunks t)[i := s]\<rparr>"
  have r: "readable ?t" "set (entries t) \<subseteq> set (entries ?t)"
    "set (entries ?t) \<subseteq> insert ji (set (entries t))"
    using insert_states_readable [OF assms refl] by auto
  then show ?thesis using readable_scan_live [OF r(1), of a] by (auto simp: live_iff)
qed

lemma insertion_example_index:
  "jit_info_table_index tab_a (code_end ji_b) = Inr 0"
  "jit_info_table_chunk_index (chunks tab_a ! 0) (code_start ji_b + code_size ji_b) = 1"
  by (simp_all add: example_defs code_end_def jit_info_table_index_def table_index_loop.simps
      jit_info_table_chunk_index_def chunk_index_loop.simps)

lemma insertion_example_states:
  "tab_a\<lparr>chunks := [(chunks tab_a ! 0)\<lparr>chunk_data := [ji_a, ji_a]\<rparr>]\<rparr> =
     tab_a\<lparr>chunks := (chunks tab_a)[0 := (chunks tab_a ! 0)\<lparr>chunk_data := [ji_a, ji_a]\<rparr>]\<rparr>"
  "(chunks tab_a ! 0)\<lparr>chunk_data := [ji_a, ji_a]\<rparr> \<in> set (chunk_insert_states (chunks tab_a ! 0) ji_b)"
proof -
  show "tab_a\<lparr>chunks := [(chunks tab_a ! 0)\<lparr>chunk_data := [ji_a, ji_a]\<rparr>]\<rparr> =
     tab_a\<lparr>chunks := (chunks tab_a)[0 := (chunks tab_a ! 0)\<lparr>chunk_data := [ji_a, ji_a]\<rparr>]\<rparr>"
    by (simp add: tab_a_def)
  show "(chunks tab_a ! 0)\<lparr>chunk_data := [ji_a, ji_a]\<rparr> \<in> set (chunk_insert_states (chunks tab_a ! 0) ji_b)"
    unfolding chunk_insert_states_def insertion_example_index Let_def
    by (simp add: tab_a_def size_up_def)
qed

theorem lookup_during_insertion_witness:
  "jit_info_table_scan (tab_a\<lparr>chunks := [(chunks tab_a ! 0)\<lparr>chunk_data := [ji_a, ji_a]\<rparr>]\<rparr>) 4100 =
     Inr (Some ji_a)"
proof -
  have ins: "insertable (chunks tab_a) ji_b"
    by (simp add: insertable_def apart_def example_defs code_end_def)
  have live: "is_live ji_b" and room: "num_elements (chunks tab_a ! 0) < CHUNK_SIZE" and cov: "covers ji_a 4100"
    by (simp_all add: example_defs covers_def code_end_def CHUNK_SIZE_def IS_JIT_INFO_TOMBSTONE_def)
  have "ji_a \<in> live tab_a" by (simp add: dom_a_facts(3))
  then show ?thesis
    using lookup_during_insertion [OF dom_a_facts(2) ins live insertion_example_index(1) room
        insertion_example_states(2), of 4100] cov
    by (subst insertion_example_states(1)) blast
qed

text \<open>
  C9.  An index whose methods have all been freed can abort the process.  When every entry of a full one-chunk
  table is a tombstone, the reallocation makes a table of no chunks and the next insertion of any
  method ends in a failed assertion.
\<close>

theorem add_aborts_when_all_freed:
  assumes "chunks (jit_info_table d) = [c]" and "num_elements c = CHUNK_SIZE"
    and "\<forall>x \<in> set (chunk_data c). IS_JIT_INFO_TOMBSTONE x"
  shows "mono_jit_info_table_add d ji = Some (Inl Assert_failed)"
proof -
  have "live (jit_info_table d) = {}" using assms by (auto simp: live_def entries_def)
  moreover have "jit_info_table_index (jit_info_table d) a = Inr 0" for a
    using assms(1) by (simp add: jit_info_table_index_def table_index_loop.simps Let_def)
  ultimately have "add_restart d ji = Some (Inl Assert_failed)"
    using add_restart_no_room [of d ji 0] assms(1,2) by simp
  then show ?thesis by (simp add: mono_jit_info_table_add_def)
qed

theorem add_aborts_when_all_freed_witness:
  "mono_jit_info_table_add ((new_domain 5 100)\<lparr>jit_info_table :=
     \<lparr>table_domain = 5, chunks = [\<lparr>refcount = 1, last_code_end = 4160,
        chunk_data = replicate 64 (mono_jit_info_make_tombstone 9 ji_a)\<rparr>]\<rparr>\<rparr>) ji_b = Some (Inl Assert_failed)"
  by (rule add_aborts_when_all_freed [of _ "\<lparr>refcount = 1, last_code_end = 4160,
        chunk_data = replicate 64 (mono_jit_info_make_tombstone 9 ji_a)\<rparr>"])
    (simp_all add: CHUNK_SIZE_def mono_jit_info_make_tombstone_def IS_JIT_INFO_TOMBSTONE_def)

text \<open>
  Registering an ahead-of-time module that overlaps no registered one keeps the module
  table sorted, and the module is then found at exactly its own addresses, the others as before.
\<close>

theorem aot_module_registered:
  assumes "aot_wf tab" and "st < en" and "\<forall>m \<in> set tab. en \<le> aot_start m \<or> aot_end m \<le> st"
  shows "\<exists>tab'. mono_jit_info_add_aot_module (Some tab) img st en = Some tab' \<and> aot_wf tab' \<and>
    (st \<le> a \<and> a < en \<longrightarrow> mono_jit_info_find_aot_module (Some tab') a = Some img) \<and>
    (\<not> (st \<le> a \<and> a < en) \<longrightarrow>
       mono_jit_info_find_aot_module (Some tab') a = mono_jit_info_find_aot_module (Some tab) a)"
proof -
  obtain tab' where t: "mono_jit_info_add_aot_module (Some tab) img st en = Some tab'" "aot_wf tab'"
    "set tab' = insert \<lparr>aot_image = img, aot_start = st, aot_end = en\<rparr> (set tab)"
    using add_aot_module_wf [OF assms(1,2)] assms(3) by blast
  note iff = find_aot_module_iff [OF t(2), of a] and iff0 = find_aot_module_iff [OF assms(1), of a]
  have "mono_jit_info_find_aot_module (Some tab') a = mono_jit_info_find_aot_module (Some tab) a"
    if "\<not> (st \<le> a \<and> a < en)"
  proof -
    have "mono_jit_info_find_aot_module (Some tab') a = Some i \<longleftrightarrow>
        mono_jit_info_find_aot_module (Some tab) a = Some i" for i
      using that by (auto simp: iff iff0 t(3))
    then show ?thesis by (metis option.exhaust)
  qed
  then show ?thesis using t iff by auto
qed

theorem aot_module_registered_witness:
  "\<exists>tab'. mono_jit_info_add_aot_module (Some [\<lparr>aot_image = 3, aot_start = 100, aot_end = 200\<rparr>]) 4 50 60 =
     Some tab' \<and> mono_jit_info_find_aot_module (Some tab') 55 = Some 4"
  using aot_module_registered [of "[\<lparr>aot_image = 3, aot_start = 100, aot_end = 200\<rparr>]" 50 60 4 55]
  by (auto simp: aot_wf_def)

end
