(* ===== verification/Profiler.thy ===== *)
theory Profiler
  imports Mono_Prelude
begin

unbundle bit_operations_syntax

text \<open>
  The profiler interface of the runtime (\<open>mono/metadata/profiler.c\<close>): the list of installed
  profilers with their callbacks and event masks, the functions by which a profiler registers
  its callbacks, the functions by which the runtime reports an event to every profiler that
  asked for it, and the per-method coverage records.

  Profilers are newest first, as in the source, where \<open>mono_profiler_install\<close> links a new
  descriptor before the others; the registration functions write to the newest one.  The type
  variable \<open>'f\<close> stands for function pointers (a null pointer is \<open>None\<close>).  Reporting an event is
  modelled by the sequence of calls it makes; a callback is taken not to change the list of
  profilers or their masks while it runs.
\<close>

section \<open>State\<close>

type_synonym MonoProfileFlags = guint32

text \<open>\<open>struct _ProfilerDesc\<close>; the link \<open>next\<close> is the order of the list of descriptors.\<close>

record 'f ProfilerDesc =
  profiler :: addr
  events :: MonoProfileFlags
  finalizer_thread_start :: "'f option"
  domain_unload_start :: "'f option"
  domain_unload_finish :: "'f option"
  domain_unload_thread :: "'f option"
  domain_start_load :: "'f option"
  domain_end_load :: "'f option"
  domain_start_unload :: "'f option"
  domain_end_unload :: "'f option"
  assembly_start_load :: "'f option"
  assembly_end_load :: "'f option"
  assembly_start_unload :: "'f option"
  assembly_end_unload :: "'f option"
  module_start_load :: "'f option"
  module_end_load :: "'f option"
  module_start_unload :: "'f option"
  module_end_unload :: "'f option"
  class_start_load :: "'f option"
  class_end_load :: "'f option"
  class_start_unload :: "'f option"
  class_end_unload :: "'f option"
  jit_start :: "'f option"
  jit_end :: "'f option"
  jit_end2 :: "'f option"
  method_free :: "'f option"
  method_start_invoke :: "'f option"
  method_end_invoke :: "'f option"
  man_unman_transition :: "'f option"
  allocation_cb :: "'f option"
  fileio_cb :: "'f option"
  monitor_event_cb :: "'f option"
  statistical_cb :: "'f option"
  statistical_call_chain_cb :: "'f option"
  statistical_call_chain_depth :: int
  statistical_call_chain_strategy :: int
  method_enter :: "'f option"
  method_leave :: "'f option"
  exception_throw_cb :: "'f option"
  exception_method_leave_cb :: "'f option"
  exception_clause_cb :: "'f option"
  iomap_cb :: "'f option"
  thread_start :: "'f option"
  thread_end :: "'f option"
  thread_fast_attach :: "'f option"
  thread_fast_detach :: "'f option"
  coverage_filter_cb :: "'f option"
  shutdown_callback :: "'f option"
  gc_event :: "'f option"
  gc_heap_resize :: "'f option"
  gc_moves :: "'f option"
  runtime_initialized_event :: "'f option"
  code_chunk_new :: "'f option"
  code_chunk_destroy :: "'f option"
  code_buffer_new :: "'f option"

text \<open>The descriptor \<open>g_new0\<close> makes: no events, no callbacks.\<close>

definition desc0 :: "'f ProfilerDesc" where
  "desc0 = \<lparr>
    profiler = 0, events = 0, finalizer_thread_start = None, domain_unload_start = None,
    domain_unload_finish = None, domain_unload_thread = None, domain_start_load = None,
    domain_end_load = None, domain_start_unload = None, domain_end_unload = None,
    assembly_start_load = None, assembly_end_load = None, assembly_start_unload = None,
    assembly_end_unload = None, module_start_load = None, module_end_load = None,
    module_start_unload = None, module_end_unload = None, class_start_load = None,
    class_end_load = None, class_start_unload = None, class_end_unload = None, jit_start = None,
    jit_end = None, jit_end2 = None, method_free = None, method_start_invoke = None,
    method_end_invoke = None, man_unman_transition = None, allocation_cb = None,
    fileio_cb = None, monitor_event_cb = None, statistical_cb = None,
    statistical_call_chain_cb = None, statistical_call_chain_depth = 0,
    statistical_call_chain_strategy = 0, method_enter = None, method_leave = None,
    exception_throw_cb = None, exception_method_leave_cb = None, exception_clause_cb = None,
    iomap_cb = None, thread_start = None, thread_end = None, thread_fast_attach = None,
    thread_fast_detach = None, coverage_filter_cb = None, shutdown_callback = None,
    gc_event = None, gc_heap_resize = None, gc_moves = None, runtime_initialized_event = None,
    code_chunk_new = None, code_chunk_destroy = None, code_buffer_new = None\<rparr>"

text \<open>\<open>MonoProfileCoverageInfo\<close>: per basic block the address of its code and a counter.\<close>

record MonoProfileCoverageInfo =
  cov_data :: "(addr \<times> int) list"

text \<open>
  The static variables of the file.  \<open>coverage_hash\<close> is \<open>None\<close> until the first allocation;
  \<open>mutex_ready\<close> says whether \<open>profiler_coverage_mutex\<close> was initialised and \<open>gc_events_on\<close>
  whether \<open>mono_gc_enable_events\<close> was called.
\<close>

record 'f Profilers =
  prof_list :: "'f ProfilerDesc list"
  mono_profiler_events :: MonoProfileFlags
  coverage_hash :: "(addr \<rightharpoonup> MonoProfileCoverageInfo) option"
  mutex_ready :: bool
  gc_events_on :: bool

definition profilers0 :: "'f Profilers" where
  "profilers0 = \<lparr>prof_list = [], mono_profiler_events = 0, coverage_hash = None,
    mutex_ready = False, gc_events_on = False\<rparr>"

text \<open>\<open>MonoProfileFlags\<close>\<close>

definition MONO_PROFILE_NONE :: MonoProfileFlags where
  "MONO_PROFILE_NONE = 0"

definition MONO_PROFILE_APPDOMAIN_EVENTS :: MonoProfileFlags where
  "MONO_PROFILE_APPDOMAIN_EVENTS = push_bit 0 1"

definition MONO_PROFILE_ASSEMBLY_EVENTS :: MonoProfileFlags where
  "MONO_PROFILE_ASSEMBLY_EVENTS = push_bit 1 1"

definition MONO_PROFILE_MODULE_EVENTS :: MonoProfileFlags where
  "MONO_PROFILE_MODULE_EVENTS = push_bit 2 1"

definition MONO_PROFILE_CLASS_EVENTS :: MonoProfileFlags where
  "MONO_PROFILE_CLASS_EVENTS = push_bit 3 1"

definition MONO_PROFILE_JIT_COMPILATION :: MonoProfileFlags where
  "MONO_PROFILE_JIT_COMPILATION = push_bit 4 1"

definition MONO_PROFILE_INLINING :: MonoProfileFlags where
  "MONO_PROFILE_INLINING = push_bit 5 1"

definition MONO_PROFILE_EXCEPTIONS :: MonoProfileFlags where
  "MONO_PROFILE_EXCEPTIONS = push_bit 6 1"

definition MONO_PROFILE_ALLOCATIONS :: MonoProfileFlags where
  "MONO_PROFILE_ALLOCATIONS = push_bit 7 1"

definition MONO_PROFILE_GC :: MonoProfileFlags where
  "MONO_PROFILE_GC = push_bit 8 1"

definition MONO_PROFILE_THREADS :: MonoProfileFlags where
  "MONO_PROFILE_THREADS = push_bit 9 1"

definition MONO_PROFILE_REMOTING :: MonoProfileFlags where
  "MONO_PROFILE_REMOTING = push_bit 10 1"

definition MONO_PROFILE_TRANSITIONS :: MonoProfileFlags where
  "MONO_PROFILE_TRANSITIONS = push_bit 11 1"

definition MONO_PROFILE_ENTER_LEAVE :: MonoProfileFlags where
  "MONO_PROFILE_ENTER_LEAVE = push_bit 12 1"

definition MONO_PROFILE_COVERAGE :: MonoProfileFlags where
  "MONO_PROFILE_COVERAGE = push_bit 13 1"

definition MONO_PROFILE_INS_COVERAGE :: MonoProfileFlags where
  "MONO_PROFILE_INS_COVERAGE = push_bit 14 1"

definition MONO_PROFILE_STATISTICAL :: MonoProfileFlags where
  "MONO_PROFILE_STATISTICAL = push_bit 15 1"

definition MONO_PROFILE_METHOD_EVENTS :: MonoProfileFlags where
  "MONO_PROFILE_METHOD_EVENTS = push_bit 16 1"

definition MONO_PROFILE_MONITOR_EVENTS :: MonoProfileFlags where
  "MONO_PROFILE_MONITOR_EVENTS = push_bit 17 1"

definition MONO_PROFILE_IOMAP_EVENTS :: MonoProfileFlags where
  "MONO_PROFILE_IOMAP_EVENTS = push_bit 18 1"

definition MONO_PROFILE_GC_MOVES :: MonoProfileFlags where
  "MONO_PROFILE_GC_MOVES = push_bit 19 1"

definition MONO_PROFILE_FILEIO :: MonoProfileFlags where
  "MONO_PROFILE_FILEIO = push_bit 23 1"

lemmas profile_flag_defs = MONO_PROFILE_NONE_def
  MONO_PROFILE_APPDOMAIN_EVENTS_def
  MONO_PROFILE_ASSEMBLY_EVENTS_def
  MONO_PROFILE_MODULE_EVENTS_def
  MONO_PROFILE_CLASS_EVENTS_def
  MONO_PROFILE_JIT_COMPILATION_def
  MONO_PROFILE_INLINING_def
  MONO_PROFILE_EXCEPTIONS_def
  MONO_PROFILE_ALLOCATIONS_def
  MONO_PROFILE_GC_def
  MONO_PROFILE_THREADS_def
  MONO_PROFILE_REMOTING_def
  MONO_PROFILE_TRANSITIONS_def
  MONO_PROFILE_ENTER_LEAVE_def
  MONO_PROFILE_COVERAGE_def
  MONO_PROFILE_INS_COVERAGE_def
  MONO_PROFILE_STATISTICAL_def
  MONO_PROFILE_METHOD_EVENTS_def
  MONO_PROFILE_MONITOR_EVENTS_def
  MONO_PROFILE_IOMAP_EVENTS_def
  MONO_PROFILE_GC_MOVES_def
  MONO_PROFILE_FILEIO_def

text \<open>The codes of load and unload events, and the call-chain strategies.\<close>

definition MONO_PROFILE_START_LOAD :: int where
  "MONO_PROFILE_START_LOAD = 0"

definition MONO_PROFILE_END_LOAD :: int where
  "MONO_PROFILE_END_LOAD = 1"

definition MONO_PROFILE_START_UNLOAD :: int where
  "MONO_PROFILE_START_UNLOAD = 2"

definition MONO_PROFILE_END_UNLOAD :: int where
  "MONO_PROFILE_END_UNLOAD = 3"

definition MONO_PROFILER_CALL_CHAIN_NONE :: int where
  "MONO_PROFILER_CALL_CHAIN_NONE = 0"

definition MONO_PROFILER_CALL_CHAIN_INVALID :: int where
  "MONO_PROFILER_CALL_CHAIN_INVALID = 4"

definition MONO_PROFILER_MAX_STAT_CALL_CHAIN_DEPTH :: int where
  "MONO_PROFILER_MAX_STAT_CALL_CHAIN_DEPTH = 16"

section \<open>Installation and event masks\<close>

definition mono_profiler_install :: "addr \<Rightarrow> 'f option \<Rightarrow> 'f Profilers \<Rightarrow> 'f Profilers" where
  "mono_profiler_install prof callback st =
    (let st' = (if prof_list st = [] then st\<lparr>mutex_ready := True\<rparr> else st) in
     st'\<lparr>prof_list := desc0\<lparr>profiler := prof, shutdown_callback := callback\<rparr> # prof_list st\<rparr>)"

text \<open>The loop that ORs the masks of all descriptors.\<close>

fun or_events :: "MonoProfileFlags \<Rightarrow> 'f ProfilerDesc list \<Rightarrow> MonoProfileFlags" where
  "or_events v [] = v"
| "or_events v (d # ds) = or_events (v OR events d) ds"

definition mono_profiler_set_events :: "MonoProfileFlags \<Rightarrow> 'f Profilers \<Rightarrow> 'f Profilers" where
  "mono_profiler_set_events ev st =
    (let ds = (case prof_list st of [] \<Rightarrow> [] | d # ds \<Rightarrow> d\<lparr>events := ev\<rparr> # ds) in
     st\<lparr>prof_list := ds, mono_profiler_events := or_events 0 ds\<rparr>)"

fun set_matching :: "addr \<Rightarrow> MonoProfileFlags \<Rightarrow> MonoProfileFlags \<Rightarrow> 'f ProfilerDesc list \<Rightarrow>
    'f ProfilerDesc list \<times> MonoProfileFlags" where
  "set_matching p ev v [] = ([], v)"
| "set_matching p ev v (d # ds) =
    (let d' = (if profiler d = p then d\<lparr>events := ev\<rparr> else d);
         (ds', v') = set_matching p ev (v OR events d') ds
     in (d' # ds', v'))"

definition mono_profiler_set_profiler_events ::
    "addr \<Rightarrow> MonoProfileFlags \<Rightarrow> 'f Profilers \<Rightarrow> 'f Profilers" where
  "mono_profiler_set_profiler_events p ev st =
    (let (ds, v) = set_matching p ev 0 (prof_list st) in
     st\<lparr>prof_list := ds, mono_profiler_events := v\<rparr>)"

definition mono_profiler_get_events :: "'f Profilers \<Rightarrow> MonoProfileFlags" where
  "mono_profiler_get_events st = mono_profiler_events st"

section \<open>Registration of callbacks\<close>

text \<open>Every registration returns when no profiler is installed and writes to the newest one.\<close>

definition registered :: "('f ProfilerDesc \<Rightarrow> 'f ProfilerDesc) \<Rightarrow> 'f Profilers \<Rightarrow> 'f Profilers" where
  "registered f st =
    (case prof_list st of [] \<Rightarrow> st | d # ds \<Rightarrow> st\<lparr>prof_list := f d # ds\<rparr>)"

definition mono_profiler_install_enter_leave ::
    "'f option \<Rightarrow> 'f option \<Rightarrow> 'f Profilers \<Rightarrow> 'f Profilers" where
  "mono_profiler_install_enter_leave enter fleave =
    registered (\<lambda>d. d\<lparr>method_enter := enter, method_leave := fleave\<rparr>)"

definition mono_profiler_install_jit_compile ::
    "'f option \<Rightarrow> 'f option \<Rightarrow> 'f Profilers \<Rightarrow> 'f Profilers" where
  "mono_profiler_install_jit_compile start fin =
    registered (\<lambda>d. d\<lparr>jit_start := start, jit_end := fin\<rparr>)"

definition mono_profiler_install_jit_end ::
    "'f option \<Rightarrow> 'f Profilers \<Rightarrow> 'f Profilers" where
  "mono_profiler_install_jit_end fin =
    registered (\<lambda>d. d\<lparr>jit_end2 := fin\<rparr>)"

definition mono_profiler_install_method_free ::
    "'f option \<Rightarrow> 'f Profilers \<Rightarrow> 'f Profilers" where
  "mono_profiler_install_method_free callback =
    registered (\<lambda>d. d\<lparr>method_free := callback\<rparr>)"

definition mono_profiler_install_method_invoke ::
    "'f option \<Rightarrow> 'f option \<Rightarrow> 'f Profilers \<Rightarrow> 'f Profilers" where
  "mono_profiler_install_method_invoke start fin =
    registered (\<lambda>d. d\<lparr>method_start_invoke := start, method_end_invoke := fin\<rparr>)"

definition mono_profiler_install_thread ::
    "'f option \<Rightarrow> 'f option \<Rightarrow> 'f Profilers \<Rightarrow> 'f Profilers" where
  "mono_profiler_install_thread start fin =
    registered (\<lambda>d. d\<lparr>thread_start := start, thread_end := fin\<rparr>)"

definition mono_profiler_install_thread_fast_attach_detach ::
    "'f option \<Rightarrow> 'f option \<Rightarrow> 'f Profilers \<Rightarrow> 'f Profilers" where
  "mono_profiler_install_thread_fast_attach_detach fast_attach fast_detach =
    registered (\<lambda>d. d\<lparr>thread_fast_attach := fast_attach, thread_fast_detach := fast_detach\<rparr>)"

definition mono_profiler_install_transition ::
    "'f option \<Rightarrow> 'f Profilers \<Rightarrow> 'f Profilers" where
  "mono_profiler_install_transition callback =
    registered (\<lambda>d. d\<lparr>man_unman_transition := callback\<rparr>)"

definition mono_profiler_install_allocation ::
    "'f option \<Rightarrow> 'f Profilers \<Rightarrow> 'f Profilers" where
  "mono_profiler_install_allocation callback =
    registered (\<lambda>d. d\<lparr>allocation_cb := callback\<rparr>)"

definition mono_profiler_install_fileio ::
    "'f option \<Rightarrow> 'f Profilers \<Rightarrow> 'f Profilers" where
  "mono_profiler_install_fileio callback =
    registered (\<lambda>d. d\<lparr>fileio_cb := callback\<rparr>)"

definition mono_profiler_install_monitor ::
    "'f option \<Rightarrow> 'f Profilers \<Rightarrow> 'f Profilers" where
  "mono_profiler_install_monitor callback =
    registered (\<lambda>d. d\<lparr>monitor_event_cb := callback\<rparr>)"

definition mono_profiler_install_statistical ::
    "'f option \<Rightarrow> 'f Profilers \<Rightarrow> 'f Profilers" where
  "mono_profiler_install_statistical callback =
    registered (\<lambda>d. d\<lparr>statistical_cb := callback\<rparr>)"

definition mono_profiler_install_statistical_call_chain ::
    "'f option \<Rightarrow> int \<Rightarrow> int \<Rightarrow> 'f Profilers \<Rightarrow> 'f Profilers" where
  "mono_profiler_install_statistical_call_chain callback call_chain_depth call_chain_strategy =
    (let depth = (if call_chain_depth > MONO_PROFILER_MAX_STAT_CALL_CHAIN_DEPTH
                  then MONO_PROFILER_MAX_STAT_CALL_CHAIN_DEPTH else call_chain_depth);
         strategy = (if call_chain_strategy \<ge> MONO_PROFILER_CALL_CHAIN_INVALID \<or>
                        call_chain_strategy < MONO_PROFILER_CALL_CHAIN_NONE
                     then MONO_PROFILER_CALL_CHAIN_NONE else call_chain_strategy)
     in registered (\<lambda>d. d\<lparr>statistical_call_chain_cb := callback,
          statistical_call_chain_depth := depth, statistical_call_chain_strategy := strategy\<rparr>))"

definition mono_profiler_stat_get_call_chain_depth :: "'f Profilers \<Rightarrow> int" where
  "mono_profiler_stat_get_call_chain_depth st =
    (case prof_list st of [] \<Rightarrow> 0
     | d # ds \<Rightarrow> (if statistical_call_chain_cb d \<noteq> None then statistical_call_chain_depth d else 0))"

definition mono_profiler_stat_get_call_chain_strategy :: "'f Profilers \<Rightarrow> int" where
  "mono_profiler_stat_get_call_chain_strategy st =
    (case prof_list st of [] \<Rightarrow> MONO_PROFILER_CALL_CHAIN_NONE
     | d # ds \<Rightarrow> (if statistical_call_chain_cb d \<noteq> None then statistical_call_chain_strategy d
                 else MONO_PROFILER_CALL_CHAIN_NONE))"

definition mono_profiler_install_exception ::
    "'f option \<Rightarrow> 'f option \<Rightarrow> 'f option \<Rightarrow> 'f Profilers \<Rightarrow> 'f Profilers" where
  "mono_profiler_install_exception throw_callback exc_method_leave clause_callback =
    registered (\<lambda>d. d\<lparr>exception_throw_cb := throw_callback, exception_method_leave_cb := exc_method_leave,
      exception_clause_cb := clause_callback\<rparr>)"

definition mono_profiler_install_coverage_filter ::
    "'f option \<Rightarrow> 'f Profilers \<Rightarrow> 'f Profilers" where
  "mono_profiler_install_coverage_filter callback =
    registered (\<lambda>d. d\<lparr>coverage_filter_cb := callback\<rparr>)"

definition mono_profiler_install_appdomain ::
    "'f option \<Rightarrow> 'f option \<Rightarrow> 'f option \<Rightarrow> 'f option \<Rightarrow> 'f Profilers \<Rightarrow> 'f Profilers" where
  "mono_profiler_install_appdomain start_load end_load start_unload end_unload =
    registered (\<lambda>d. d\<lparr>domain_start_load := start_load, domain_end_load := end_load,
      domain_start_unload := start_unload, domain_end_unload := end_unload\<rparr>)"

definition mono_profiler_install_finalizer_thread ::
    "'f option \<Rightarrow> 'f Profilers \<Rightarrow> 'f Profilers" where
  "mono_profiler_install_finalizer_thread start =
    registered (\<lambda>d. d\<lparr>finalizer_thread_start := start\<rparr>)"

definition mono_profiler_install_appdomain_unload_thread ::
    "'f option \<Rightarrow> 'f Profilers \<Rightarrow> 'f Profilers" where
  "mono_profiler_install_appdomain_unload_thread func =
    registered (\<lambda>d. d\<lparr>domain_unload_thread := func\<rparr>)"

definition mono_profiler_install_appdomain_start_finish_unload ::
    "'f option \<Rightarrow> 'f option \<Rightarrow> 'f Profilers \<Rightarrow> 'f Profilers" where
  "mono_profiler_install_appdomain_start_finish_unload start_unload finish_unload =
    registered (\<lambda>d. d\<lparr>domain_unload_start := start_unload, domain_unload_finish := finish_unload\<rparr>)"

definition mono_profiler_install_assembly ::
    "'f option \<Rightarrow> 'f option \<Rightarrow> 'f option \<Rightarrow> 'f option \<Rightarrow> 'f Profilers \<Rightarrow> 'f Profilers" where
  "mono_profiler_install_assembly start_load end_load start_unload end_unload =
    registered (\<lambda>d. d\<lparr>assembly_start_load := start_load, assembly_end_load := end_load,
      assembly_start_unload := start_unload, assembly_end_unload := end_unload\<rparr>)"

definition mono_profiler_install_module ::
    "'f option \<Rightarrow> 'f option \<Rightarrow> 'f option \<Rightarrow> 'f option \<Rightarrow> 'f Profilers \<Rightarrow> 'f Profilers" where
  "mono_profiler_install_module start_load end_load start_unload end_unload =
    registered (\<lambda>d. d\<lparr>module_start_load := start_load, module_end_load := end_load,
      module_start_unload := start_unload, module_end_unload := end_unload\<rparr>)"

definition mono_profiler_install_class ::
    "'f option \<Rightarrow> 'f option \<Rightarrow> 'f option \<Rightarrow> 'f option \<Rightarrow> 'f Profilers \<Rightarrow> 'f Profilers" where
  "mono_profiler_install_class start_load end_load start_unload end_unload =
    registered (\<lambda>d. d\<lparr>class_start_load := start_load, class_end_load := end_load,
      class_start_unload := start_unload, class_end_unload := end_unload\<rparr>)"

definition mono_profiler_install_gc :: "'f option \<Rightarrow> 'f option \<Rightarrow> 'f Profilers \<Rightarrow> 'f Profilers" where
  "mono_profiler_install_gc callback heap_resize_callback st =
    registered (\<lambda>d. d\<lparr>gc_event := callback, gc_heap_resize := heap_resize_callback\<rparr>)
      (st\<lparr>gc_events_on := True\<rparr>)"

definition mono_profiler_install_gc_moves ::
    "'f option \<Rightarrow> 'f Profilers \<Rightarrow> 'f Profilers" where
  "mono_profiler_install_gc_moves callback =
    registered (\<lambda>d. d\<lparr>gc_moves := callback\<rparr>)"

definition mono_profiler_install_runtime_initialized ::
    "'f option \<Rightarrow> 'f Profilers \<Rightarrow> 'f Profilers" where
  "mono_profiler_install_runtime_initialized callback =
    registered (\<lambda>d. d\<lparr>runtime_initialized_event := callback\<rparr>)"

definition mono_profiler_install_code_chunk_new ::
    "'f option \<Rightarrow> 'f Profilers \<Rightarrow> 'f Profilers" where
  "mono_profiler_install_code_chunk_new callback =
    registered (\<lambda>d. d\<lparr>code_chunk_new := callback\<rparr>)"

definition mono_profiler_install_code_chunk_destroy ::
    "'f option \<Rightarrow> 'f Profilers \<Rightarrow> 'f Profilers" where
  "mono_profiler_install_code_chunk_destroy callback =
    registered (\<lambda>d. d\<lparr>code_chunk_destroy := callback\<rparr>)"

definition mono_profiler_install_code_buffer_new ::
    "'f option \<Rightarrow> 'f Profilers \<Rightarrow> 'f Profilers" where
  "mono_profiler_install_code_buffer_new callback =
    registered (\<lambda>d. d\<lparr>code_buffer_new := callback\<rparr>)"

definition mono_profiler_install_iomap ::
    "'f option \<Rightarrow> 'f Profilers \<Rightarrow> 'f Profilers" where
  "mono_profiler_install_iomap callback =
    registered (\<lambda>d. d\<lparr>iomap_cb := callback\<rparr>)"

lemmas install_defs [prof_defs] =
  mono_profiler_install_enter_leave_def
  mono_profiler_install_jit_compile_def
  mono_profiler_install_jit_end_def
  mono_profiler_install_method_free_def
  mono_profiler_install_method_invoke_def
  mono_profiler_install_thread_def
  mono_profiler_install_thread_fast_attach_detach_def
  mono_profiler_install_transition_def
  mono_profiler_install_allocation_def
  mono_profiler_install_fileio_def
  mono_profiler_install_monitor_def
  mono_profiler_install_statistical_def
  mono_profiler_install_statistical_call_chain_def
  mono_profiler_install_exception_def
  mono_profiler_install_coverage_filter_def
  mono_profiler_install_appdomain_def
  mono_profiler_install_finalizer_thread_def
  mono_profiler_install_appdomain_unload_thread_def
  mono_profiler_install_appdomain_start_finish_unload_def
  mono_profiler_install_assembly_def
  mono_profiler_install_module_def
  mono_profiler_install_class_def
  mono_profiler_install_gc_def
  mono_profiler_install_gc_moves_def
  mono_profiler_install_runtime_initialized_def
  mono_profiler_install_code_chunk_new_def
  mono_profiler_install_code_chunk_destroy_def
  mono_profiler_install_code_buffer_new_def
  mono_profiler_install_iomap_def

text \<open>One value per function that changes the list of profilers, and its effect.\<close>

datatype 'f profiler_op =
    Install addr "'f option"
  | Set_events MonoProfileFlags
  | Set_profiler_events addr MonoProfileFlags
  | Install_enter_leave "'f option" "'f option"
  | Install_jit_compile "'f option" "'f option"
  | Install_jit_end "'f option"
  | Install_method_free "'f option"
  | Install_method_invoke "'f option" "'f option"
  | Install_thread "'f option" "'f option"
  | Install_thread_fast_attach_detach "'f option" "'f option"
  | Install_transition "'f option"
  | Install_allocation "'f option"
  | Install_fileio "'f option"
  | Install_monitor "'f option"
  | Install_statistical "'f option"
  | Install_statistical_call_chain "'f option" int int
  | Install_exception "'f option" "'f option" "'f option"
  | Install_coverage_filter "'f option"
  | Install_appdomain "'f option" "'f option" "'f option" "'f option"
  | Install_finalizer_thread "'f option"
  | Install_appdomain_unload_thread "'f option"
  | Install_appdomain_start_finish_unload "'f option" "'f option"
  | Install_assembly "'f option" "'f option" "'f option" "'f option"
  | Install_module "'f option" "'f option" "'f option" "'f option"
  | Install_class "'f option" "'f option" "'f option" "'f option"
  | Install_gc "'f option" "'f option"
  | Install_gc_moves "'f option"
  | Install_runtime_initialized "'f option"
  | Install_code_chunk_new "'f option"
  | Install_code_chunk_destroy "'f option"
  | Install_code_buffer_new "'f option"
  | Install_iomap "'f option"

fun exec_op :: "'f profiler_op \<Rightarrow> 'f Profilers \<Rightarrow> 'f Profilers" where
  "exec_op (Install p a) = mono_profiler_install p a"
| "exec_op (Set_events ev) = mono_profiler_set_events ev"
| "exec_op (Set_profiler_events p ev) = mono_profiler_set_profiler_events p ev"
| "exec_op (Install_enter_leave a b) = mono_profiler_install_enter_leave a b"
| "exec_op (Install_jit_compile a b) = mono_profiler_install_jit_compile a b"
| "exec_op (Install_jit_end a) = mono_profiler_install_jit_end a"
| "exec_op (Install_method_free a) = mono_profiler_install_method_free a"
| "exec_op (Install_method_invoke a b) = mono_profiler_install_method_invoke a b"
| "exec_op (Install_thread a b) = mono_profiler_install_thread a b"
| "exec_op (Install_thread_fast_attach_detach a b) = mono_profiler_install_thread_fast_attach_detach a b"
| "exec_op (Install_transition a) = mono_profiler_install_transition a"
| "exec_op (Install_allocation a) = mono_profiler_install_allocation a"
| "exec_op (Install_fileio a) = mono_profiler_install_fileio a"
| "exec_op (Install_monitor a) = mono_profiler_install_monitor a"
| "exec_op (Install_statistical a) = mono_profiler_install_statistical a"
| "exec_op (Install_statistical_call_chain a n s) = mono_profiler_install_statistical_call_chain a n s"
| "exec_op (Install_exception a b c) = mono_profiler_install_exception a b c"
| "exec_op (Install_coverage_filter a) = mono_profiler_install_coverage_filter a"
| "exec_op (Install_appdomain a b c e) = mono_profiler_install_appdomain a b c e"
| "exec_op (Install_finalizer_thread a) = mono_profiler_install_finalizer_thread a"
| "exec_op (Install_appdomain_unload_thread a) = mono_profiler_install_appdomain_unload_thread a"
| "exec_op (Install_appdomain_start_finish_unload a b) = mono_profiler_install_appdomain_start_finish_unload a b"
| "exec_op (Install_assembly a b c e) = mono_profiler_install_assembly a b c e"
| "exec_op (Install_module a b c e) = mono_profiler_install_module a b c e"
| "exec_op (Install_class a b c e) = mono_profiler_install_class a b c e"
| "exec_op (Install_gc a b) = mono_profiler_install_gc a b"
| "exec_op (Install_gc_moves a) = mono_profiler_install_gc_moves a"
| "exec_op (Install_runtime_initialized a) = mono_profiler_install_runtime_initialized a"
| "exec_op (Install_code_chunk_new a) = mono_profiler_install_code_chunk_new a"
| "exec_op (Install_code_chunk_destroy a) = mono_profiler_install_code_chunk_destroy a"
| "exec_op (Install_code_buffer_new a) = mono_profiler_install_code_buffer_new a"
| "exec_op (Install_iomap a) = mono_profiler_install_iomap a"

fun exec_ops :: "'f profiler_op list \<Rightarrow> 'f Profilers \<Rightarrow> 'f Profilers" where
  "exec_ops [] st = st"
| "exec_ops (x # xs) st = exec_ops xs (exec_op x st)"

section \<open>Reporting events\<close>

datatype arg = Ptr addr | Num int

text \<open>A call of a callback: the function, the profiler it is given, the other arguments.\<close>

datatype 'f call = Call (callee: 'f) (call_profiler: addr) (call_args: "arg list")

definition enabled :: "MonoProfileFlags \<Rightarrow> 'f ProfilerDesc \<Rightarrow> bool" where
  "enabled flag d \<longleftrightarrow> events d AND flag \<noteq> 0"

definition fire :: "('f ProfilerDesc \<Rightarrow> 'f option) \<Rightarrow> arg list \<Rightarrow> 'f ProfilerDesc \<Rightarrow> 'f call list" where
  "fire sel args d = (case sel d of None \<Rightarrow> [] | Some f \<Rightarrow> [Call f (profiler d) args])"

text \<open>The loop over the descriptors, with and without a test of the mask.\<close>

fun walk :: "('f ProfilerDesc \<Rightarrow> 'f call list) \<Rightarrow> 'f ProfilerDesc list \<Rightarrow> 'f call list" where
  "walk body [] = []"
| "walk body (d # ds) = body d @ walk body ds"

definition notify :: "MonoProfileFlags \<Rightarrow> ('f ProfilerDesc \<Rightarrow> 'f option) \<Rightarrow> arg list \<Rightarrow> 'f Profilers \<Rightarrow> 'f call list" where
  "notify flag sel args st = walk (\<lambda>d. if enabled flag d then fire sel args d else []) (prof_list st)"

definition notify_all :: "('f ProfilerDesc \<Rightarrow> 'f option) \<Rightarrow> arg list \<Rightarrow> 'f Profilers \<Rightarrow> 'f call list" where
  "notify_all sel args st = walk (fire sel args) (prof_list st)"

text \<open>The loop of the load and unload events, with its switch on the code of the event.\<close>

fun event_walk :: "MonoProfileFlags \<Rightarrow> ('f ProfilerDesc \<Rightarrow> 'f option) \<Rightarrow> ('f ProfilerDesc \<Rightarrow> 'f option) \<Rightarrow>
    ('f ProfilerDesc \<Rightarrow> 'f option) \<Rightarrow> arg list \<Rightarrow> int \<Rightarrow> 'f ProfilerDesc list \<Rightarrow> 'f call list res" where
  "event_walk flag start_load start_unload end_unload args code [] = Inr []"
| "event_walk flag start_load start_unload end_unload args code (d # ds) =
    (let rest = event_walk flag start_load start_unload end_unload args code ds in
     if \<not> enabled flag d then rest
     else if code = MONO_PROFILE_START_LOAD then bindr rest (\<lambda>cs. Inr (fire start_load args d @ cs))
     else if code = MONO_PROFILE_START_UNLOAD then bindr rest (\<lambda>cs. Inr (fire start_unload args d @ cs))
     else if code = MONO_PROFILE_END_UNLOAD then bindr rest (\<lambda>cs. Inr (fire end_unload args d @ cs))
     else Inl Assert_failed)"

definition mono_profiler_method_enter :: "addr \<Rightarrow> 'f Profilers \<Rightarrow> 'f call list" where
  "mono_profiler_method_enter meth =
    notify MONO_PROFILE_ENTER_LEAVE method_enter [Ptr meth]"

definition mono_profiler_method_leave :: "addr \<Rightarrow> 'f Profilers \<Rightarrow> 'f call list" where
  "mono_profiler_method_leave meth =
    notify MONO_PROFILE_ENTER_LEAVE method_leave [Ptr meth]"

definition mono_profiler_method_jit :: "addr \<Rightarrow> 'f Profilers \<Rightarrow> 'f call list" where
  "mono_profiler_method_jit meth =
    notify MONO_PROFILE_JIT_COMPILATION jit_start [Ptr meth]"

definition mono_profiler_method_end_jit :: "addr \<Rightarrow> addr \<Rightarrow> int \<Rightarrow> 'f Profilers \<Rightarrow> 'f call list" where
  "mono_profiler_method_end_jit meth jinfo result st =
    walk (\<lambda>d. if enabled MONO_PROFILE_JIT_COMPILATION d
               then fire jit_end [Ptr meth, Num result] d @
                    fire jit_end2 [Ptr meth, Ptr jinfo, Num result] d
               else []) (prof_list st)"

definition mono_profiler_method_free :: "addr \<Rightarrow> 'f Profilers \<Rightarrow> 'f call list" where
  "mono_profiler_method_free meth =
    notify MONO_PROFILE_METHOD_EVENTS method_free [Ptr meth]"

definition mono_profiler_method_start_invoke ::
    "addr \<Rightarrow> 'f Profilers \<Rightarrow> 'f call list" where
  "mono_profiler_method_start_invoke meth =
    notify MONO_PROFILE_METHOD_EVENTS method_start_invoke [Ptr meth]"

definition mono_profiler_method_end_invoke ::
    "addr \<Rightarrow> 'f Profilers \<Rightarrow> 'f call list" where
  "mono_profiler_method_end_invoke meth =
    notify MONO_PROFILE_METHOD_EVENTS method_end_invoke [Ptr meth]"

definition mono_profiler_code_transition ::
    "addr \<Rightarrow> int \<Rightarrow> 'f Profilers \<Rightarrow> 'f call list" where
  "mono_profiler_code_transition meth result =
    notify MONO_PROFILE_TRANSITIONS man_unman_transition [Ptr meth, Num result]"

definition mono_profiler_allocation ::
    "addr \<Rightarrow> addr \<Rightarrow> 'f Profilers \<Rightarrow> 'f call list" where
  "mono_profiler_allocation obj klass =
    notify MONO_PROFILE_ALLOCATIONS allocation_cb [Ptr obj, Ptr klass]"

definition mono_profiler_monitor_event ::
    "addr \<Rightarrow> int \<Rightarrow> 'f Profilers \<Rightarrow> 'f call list" where
  "mono_profiler_monitor_event obj event =
    notify MONO_PROFILE_MONITOR_EVENTS monitor_event_cb [Ptr obj, Num event]"

definition mono_profiler_fileio ::
    "int \<Rightarrow> int \<Rightarrow> 'f Profilers \<Rightarrow> 'f call list" where
  "mono_profiler_fileio kind count =
    notify MONO_PROFILE_FILEIO fileio_cb [Num kind, Num count]"

definition mono_profiler_stat_hit ::
    "addr \<Rightarrow> addr \<Rightarrow> 'f Profilers \<Rightarrow> 'f call list" where
  "mono_profiler_stat_hit ip ctxt =
    notify MONO_PROFILE_STATISTICAL statistical_cb [Ptr ip, Ptr ctxt]"

definition mono_profiler_stat_call_chain ::
    "int \<Rightarrow> addr \<Rightarrow> addr \<Rightarrow> 'f Profilers \<Rightarrow> 'f call list" where
  "mono_profiler_stat_call_chain call_chain_depth ips ctxt =
    notify MONO_PROFILE_STATISTICAL statistical_call_chain_cb [Num call_chain_depth, Ptr ips, Ptr ctxt]"

definition mono_profiler_exception_thrown ::
    "addr \<Rightarrow> 'f Profilers \<Rightarrow> 'f call list" where
  "mono_profiler_exception_thrown exn =
    notify MONO_PROFILE_EXCEPTIONS exception_throw_cb [Ptr exn]"

definition mono_profiler_exception_method_leave ::
    "addr \<Rightarrow> 'f Profilers \<Rightarrow> 'f call list" where
  "mono_profiler_exception_method_leave meth =
    notify MONO_PROFILE_EXCEPTIONS exception_method_leave_cb [Ptr meth]"

definition mono_profiler_exception_clause_handler ::
    "addr \<Rightarrow> int \<Rightarrow> int \<Rightarrow> 'f Profilers \<Rightarrow> 'f call list" where
  "mono_profiler_exception_clause_handler meth clause_type clause_num =
    notify MONO_PROFILE_EXCEPTIONS exception_clause_cb [Ptr meth, Num clause_type, Num clause_num]"

definition mono_profiler_thread_start :: "int \<Rightarrow> 'f Profilers \<Rightarrow> 'f call list" where
  "mono_profiler_thread_start tid =
    notify MONO_PROFILE_THREADS thread_start [Num tid]"

definition mono_profiler_thread_end :: "int \<Rightarrow> 'f Profilers \<Rightarrow> 'f call list" where
  "mono_profiler_thread_end tid =
    notify MONO_PROFILE_THREADS thread_end [Num tid]"

definition mono_profiler_thread_fast_attach ::
    "int \<Rightarrow> 'f Profilers \<Rightarrow> 'f call list" where
  "mono_profiler_thread_fast_attach tid =
    notify MONO_PROFILE_THREADS thread_fast_attach [Num tid]"

definition mono_profiler_thread_fast_detach ::
    "int \<Rightarrow> 'f Profilers \<Rightarrow> 'f call list" where
  "mono_profiler_thread_fast_detach tid =
    notify MONO_PROFILE_THREADS thread_fast_detach [Num tid]"

definition mono_profiler_assembly_event :: "addr \<Rightarrow> int \<Rightarrow> 'f Profilers \<Rightarrow> 'f call list res" where
  "mono_profiler_assembly_event assembly code st =
    event_walk MONO_PROFILE_ASSEMBLY_EVENTS assembly_start_load assembly_start_unload assembly_end_unload
      [Ptr assembly] code (prof_list st)"

definition mono_profiler_assembly_loaded ::
    "addr \<Rightarrow> int \<Rightarrow> 'f Profilers \<Rightarrow> 'f call list" where
  "mono_profiler_assembly_loaded assembly result =
    notify MONO_PROFILE_ASSEMBLY_EVENTS assembly_end_load [Ptr assembly, Num result]"

definition mono_profiler_iomap ::
    "addr \<Rightarrow> addr \<Rightarrow> addr \<Rightarrow> 'f Profilers \<Rightarrow> 'f call list" where
  "mono_profiler_iomap report pathname new_pathname =
    notify MONO_PROFILE_IOMAP_EVENTS iomap_cb [Ptr report, Ptr pathname, Ptr new_pathname]"

definition mono_profiler_module_event :: "addr \<Rightarrow> int \<Rightarrow> 'f Profilers \<Rightarrow> 'f call list res" where
  "mono_profiler_module_event module code st =
    event_walk MONO_PROFILE_MODULE_EVENTS module_start_load module_start_unload module_end_unload
      [Ptr module] code (prof_list st)"

definition mono_profiler_module_loaded ::
    "addr \<Rightarrow> int \<Rightarrow> 'f Profilers \<Rightarrow> 'f call list" where
  "mono_profiler_module_loaded module result =
    notify MONO_PROFILE_MODULE_EVENTS module_end_load [Ptr module, Num result]"

definition mono_profiler_class_event :: "addr \<Rightarrow> int \<Rightarrow> 'f Profilers \<Rightarrow> 'f call list res" where
  "mono_profiler_class_event klass code st =
    event_walk MONO_PROFILE_CLASS_EVENTS class_start_load class_start_unload class_end_unload
      [Ptr klass] code (prof_list st)"

definition mono_profiler_finalizer_thread_start_event :: "'f Profilers \<Rightarrow> 'f call list" where
  "mono_profiler_finalizer_thread_start_event =
    notify_all finalizer_thread_start []"

definition mono_profiler_domain_unload_thread_event ::
    "int \<Rightarrow> 'f Profilers \<Rightarrow> 'f call list" where
  "mono_profiler_domain_unload_thread_event event =
    notify_all domain_unload_thread [Num event]"

definition mono_profiler_domain_unload_start_event ::
    "addr \<Rightarrow> 'f Profilers \<Rightarrow> 'f call list" where
  "mono_profiler_domain_unload_start_event appdomain =
    notify_all domain_unload_start [Ptr appdomain]"

definition mono_profiler_domain_unload_finish_event :: "'f Profilers \<Rightarrow> 'f call list" where
  "mono_profiler_domain_unload_finish_event =
    notify_all domain_unload_finish []"

definition mono_profiler_class_loaded ::
    "addr \<Rightarrow> int \<Rightarrow> 'f Profilers \<Rightarrow> 'f call list" where
  "mono_profiler_class_loaded klass result =
    notify MONO_PROFILE_CLASS_EVENTS class_end_load [Ptr klass, Num result]"

definition mono_profiler_appdomain_event :: "addr \<Rightarrow> int \<Rightarrow> 'f Profilers \<Rightarrow> 'f call list res" where
  "mono_profiler_appdomain_event appdomain code st =
    event_walk MONO_PROFILE_APPDOMAIN_EVENTS domain_start_load domain_start_unload domain_end_unload
      [Ptr appdomain] code (prof_list st)"

definition mono_profiler_appdomain_loaded ::
    "addr \<Rightarrow> int \<Rightarrow> 'f Profilers \<Rightarrow> 'f call list" where
  "mono_profiler_appdomain_loaded appdomain result =
    notify MONO_PROFILE_APPDOMAIN_EVENTS domain_end_load [Ptr appdomain, Num result]"

definition mono_profiler_shutdown :: "'f Profilers \<Rightarrow> 'f call list" where
  "mono_profiler_shutdown =
    notify_all shutdown_callback []"

definition mono_profiler_gc_heap_resize :: "int \<Rightarrow> 'f Profilers \<Rightarrow> 'f call list" where
  "mono_profiler_gc_heap_resize new_size =
    notify MONO_PROFILE_GC gc_heap_resize [Num new_size]"

definition mono_profiler_gc_event ::
    "int \<Rightarrow> int \<Rightarrow> 'f Profilers \<Rightarrow> 'f call list" where
  "mono_profiler_gc_event event generation =
    notify MONO_PROFILE_GC gc_event [Num event, Num generation]"

definition mono_profiler_gc_moves ::
    "addr \<Rightarrow> int \<Rightarrow> 'f Profilers \<Rightarrow> 'f call list" where
  "mono_profiler_gc_moves objects num =
    notify MONO_PROFILE_GC_MOVES gc_moves [Ptr objects, Num num]"

definition mono_profiler_runtime_initialized :: "'f Profilers \<Rightarrow> 'f call list" where
  "mono_profiler_runtime_initialized =
    notify_all runtime_initialized_event []"

definition mono_profiler_code_chunk_new ::
    "addr \<Rightarrow> int \<Rightarrow> 'f Profilers \<Rightarrow> 'f call list" where
  "mono_profiler_code_chunk_new chunk sz =
    notify_all code_chunk_new [Ptr chunk, Num sz]"

definition mono_profiler_code_chunk_destroy ::
    "addr \<Rightarrow> 'f Profilers \<Rightarrow> 'f call list" where
  "mono_profiler_code_chunk_destroy chunk =
    notify_all code_chunk_destroy [Ptr chunk]"

definition mono_profiler_code_buffer_new ::
    "addr \<Rightarrow> int \<Rightarrow> int \<Rightarrow> addr \<Rightarrow> 'f Profilers \<Rightarrow> 'f call list" where
  "mono_profiler_code_buffer_new buffer sz buffer_type dat =
    notify_all code_buffer_new [Ptr buffer, Num sz, Num buffer_type, Ptr dat]"

lemmas report_defs [prof_defs] = mono_profiler_method_enter_def
  mono_profiler_method_leave_def
  mono_profiler_method_jit_def
  mono_profiler_method_end_jit_def
  mono_profiler_method_free_def
  mono_profiler_method_start_invoke_def
  mono_profiler_method_end_invoke_def
  mono_profiler_code_transition_def
  mono_profiler_allocation_def
  mono_profiler_monitor_event_def
  mono_profiler_fileio_def
  mono_profiler_stat_hit_def
  mono_profiler_stat_call_chain_def
  mono_profiler_exception_thrown_def
  mono_profiler_exception_method_leave_def
  mono_profiler_exception_clause_handler_def
  mono_profiler_thread_start_def
  mono_profiler_thread_end_def
  mono_profiler_thread_fast_attach_def
  mono_profiler_thread_fast_detach_def
  mono_profiler_assembly_event_def
  mono_profiler_assembly_loaded_def
  mono_profiler_iomap_def
  mono_profiler_module_event_def
  mono_profiler_module_loaded_def
  mono_profiler_class_event_def
  mono_profiler_finalizer_thread_start_event_def
  mono_profiler_domain_unload_thread_event_def
  mono_profiler_domain_unload_start_event_def
  mono_profiler_domain_unload_finish_event_def
  mono_profiler_class_loaded_def
  mono_profiler_appdomain_event_def
  mono_profiler_appdomain_loaded_def
  mono_profiler_shutdown_def
  mono_profiler_gc_heap_resize_def
  mono_profiler_gc_event_def
  mono_profiler_gc_moves_def
  mono_profiler_runtime_initialized_def
  mono_profiler_code_chunk_new_def
  mono_profiler_code_chunk_destroy_def
  mono_profiler_code_buffer_new_def

section \<open>Coverage\<close>

text \<open>
  \<open>filter_result f p m\<close> is what the coverage filter \<open>f\<close> of the profiler \<open>p\<close> answers for the
  method \<open>m\<close>.  The filters of all profilers are called, also after one of them has asked for
  the method.
\<close>

fun ask_filters :: "('f \<Rightarrow> addr \<Rightarrow> addr \<Rightarrow> bool) \<Rightarrow> addr \<Rightarrow> bool \<Rightarrow> 'f ProfilerDesc list \<Rightarrow> 'f call list \<times> bool" where
  "ask_filters filter_result meth instrument [] = ([], instrument)"
| "ask_filters filter_result meth instrument (d # ds) =
    (case coverage_filter_cb d of
       None \<Rightarrow> ask_filters filter_result meth instrument ds
     | Some f \<Rightarrow>
         (let (cs, b) = ask_filters filter_result meth
                (if filter_result f (profiler d) meth then True else instrument) ds
          in (Call f (profiler d) [Ptr meth] # cs, b)))"

definition mono_profiler_coverage_alloc :: "('f \<Rightarrow> addr \<Rightarrow> addr \<Rightarrow> bool) \<Rightarrow> addr \<Rightarrow> nat \<Rightarrow> 'f Profilers \<Rightarrow>
    ('f call list \<times> MonoProfileCoverageInfo option \<times> 'f Profilers) res" where
  "mono_profiler_coverage_alloc filter_result meth entry_count st =
    (let (cs, instrument) = ask_filters filter_result meth False (prof_list st) in
     if \<not> instrument then Inr (cs, None, st)
     else guardr (mutex_ready st) Lock_uninitialised
       (let h = (case coverage_hash st of None \<Rightarrow> Map.empty | Some h \<Rightarrow> h);
            info = \<lparr>cov_data = replicate entry_count (0, 0)\<rparr>
        in Inr (cs, Some info, st\<lparr>coverage_hash := Some (h(meth \<mapsto> info))\<rparr>)))"

definition mono_profiler_coverage_free :: "addr \<Rightarrow> 'f Profilers \<Rightarrow> 'f Profilers res" where
  "mono_profiler_coverage_free meth st =
    guardr (mutex_ready st) Lock_uninitialised
     (case coverage_hash st of None \<Rightarrow> Inr st
      | Some h \<Rightarrow> (case h meth of None \<Rightarrow> Inr st
                  | Some info \<Rightarrow> Inr (st\<lparr>coverage_hash := Some (h(meth := None))\<rparr>)))"

record MonoProfileCoverageEntry =
  entry_method :: addr
  iloffset :: int
  counter :: int
  filename :: "string option"
  entry_line :: int
  entry_col :: int

text \<open>
  The report on a method.  \<open>code m\<close> is the start and the size of the method's code
  (\<open>mono_method_get_header\<close>, \<open>mono_method_header_get_code\<close>), \<open>location m off\<close> the source
  position the debug information has for an offset, if there is any.
\<close>

fun coverage_entries :: "addr \<Rightarrow> addr \<Rightarrow> addr \<Rightarrow> (int \<Rightarrow> (string \<times> int \<times> int) option) \<Rightarrow>
    (addr \<times> int) list \<Rightarrow> MonoProfileCoverageEntry list" where
  "coverage_entries meth start code_end' loc [] = []"
| "coverage_entries meth start code_end' loc ((cil_code, count) # xs) =
    (if cil_code \<noteq> 0 \<and> cil_code \<ge> start \<and> cil_code < code_end'
     then (let offset = cil_code - start in
           (case loc offset of
              None \<Rightarrow> \<lparr>entry_method = meth, iloffset = offset, counter = count, filename = None,
                       entry_line = 1, entry_col = 1\<rparr>
            | Some (file, row, column) \<Rightarrow>
                \<lparr>entry_method = meth, iloffset = offset, counter = count, filename = Some file,
                 entry_line = row, entry_col = column\<rparr>))
          # coverage_entries meth start code_end' loc xs
     else coverage_entries meth start code_end' loc xs)"

definition mono_profiler_coverage_get :: "(addr \<Rightarrow> addr \<times> int) \<Rightarrow>
    (addr \<Rightarrow> int \<Rightarrow> (string \<times> int \<times> int) option) \<Rightarrow> addr \<Rightarrow> 'f Profilers \<Rightarrow>
    MonoProfileCoverageEntry list res" where
  "mono_profiler_coverage_get code location meth st =
    guardr (mutex_ready st) Lock_uninitialised
     (case coverage_hash st of None \<Rightarrow> Inr []
      | Some h \<Rightarrow>
         (case h meth of None \<Rightarrow> Inr []
          | Some info \<Rightarrow> (let (start, code_size) = code meth in
              Inr (coverage_entries meth start (start + code_size) (location meth) (cov_data info)))))"

end
