(* ===== verification/Utf_Conv.thy ===== *)
theory Utf_Conv
  imports Mono_Prelude
begin

unbundle bit_operations_syntax

text \<open>
  The string conversions of \<open>eglib/src/gutf8.c\<close>: UTF-8 to UTF-16 and back, UCS-4 to UTF-16 and
  back.  Each conversion first computes the size of the result, allocates a buffer of that many
  units and one more, and then converts in a second pass over the input; a second pass that
  writes more than the first one counted leaves the buffer, which is the outcome
  \<open>Out_of_bounds\<close> here.  The argument \<open>has_error\<close> says whether the caller passed a place for the
  error (\<open>error != NULL\<close>), which must hold \<open>NULL\<close> on entry.
\<close>

named_theorems utf_defs \<open>definitions of the string conversions\<close>

section \<open>Inputs and results\<close>

text \<open>
  \<open>glong\<close> is the C type \<open>long\<close>, which has 32 bits on Windows, read as a signed number.  A count
  that can exceed it is kept at this width: the bytes of UTF-8, of which a unit of UTF-16 takes up to
  three.  The other counts are at most the number of units read, and are natural numbers; the
  count of UTF-16 units for UCS-4, which can be twice as many, is checked where the buffer is allocated.
\<close>

type_synonym glong = "32 word"

text \<open>
  The units that are read: \<open>len\<close> units, or all up to the terminating zero when \<open>len\<close> is
  negative.  That the memory at \<open>str\<close> holds as many is up to the caller.
\<close>

definition input_units :: "'a::len word list \<Rightarrow> int \<Rightarrow> 'a word list" where
  "input_units str len = (if len < 0 then takeWhile (\<lambda>c. c \<noteq> 0) str else take (nat len) str)"

text \<open>The errors that are reported (all with the code \<open>G_CONVERT_ERROR_ILLEGAL_SEQUENCE\<close>).\<close>

datatype convert_error =
    Illegal_first_byte
  | Illegal_following_bytes
  | Overlong
  | Range_excess
  | Missing_surrogate_tail
  | Missing_surrogate_head
  | Invalid_sequence
  | Out_of_range

text \<open>
  What the caller gets back: the units before the final zero, and the output arguments; an error; or
  a null pointer without an error.
\<close>

datatype 'a conversion =
    Converted (units: "'a list") (items_read: nat) (items_written: nat)
  | Failed (conv_error: convert_error) (items_read: nat)
  | No_result (items_read: nat)

section \<open>UTF-8 to UTF-16\<close>

text \<open>The first byte of a character: the bits it contributes and the number of bytes.\<close>

definition lead_byte :: "guint8 \<Rightarrow> (guint32 \<times> nat) option" where
  "lead_byte ch =
    (if ch AND 0xE0 = 0xC0 then Some (ucast (ch AND 0x1F), 2)
     else if ch AND 0xF0 = 0xE0 then Some (ucast (ch AND 0x0F), 3)
     else if ch AND 0xF8 = 0xF0 then Some (ucast (ch AND 7), 4)
     else if ch AND 0xFC = 0xF8 then Some (ucast (ch AND 3), 5)
     else if ch AND 0xFE = 0xFC then Some (ucast (ch AND 3), 6)
     else None)"

definition overlong :: "nat \<Rightarrow> guint32 \<Rightarrow> bool" where
  "overlong mb_size codepoint =
    (if mb_size = 2 then codepoint < 0x7F
     else if mb_size = 3 then codepoint < 0x7FF
     else if mb_size = 4 then codepoint < 0xFFFF
     else if mb_size = 5 then codepoint < 0x1FFFFF
     else if mb_size = 6 then codepoint < 0x03FFFFFF
     else False)"

text \<open>
  The counting loop.  \<open>mb_size\<close> is 0 between characters; inside one it is the number of its
  bytes, \<open>mb_remain\<close> of them still to come.
\<close>

fun len_loop :: "bool \<Rightarrow> guint8 list \<Rightarrow> nat \<Rightarrow> nat \<Rightarrow> nat \<Rightarrow> guint32 \<Rightarrow> nat \<Rightarrow> (convert_error \<times> nat) + nat" where
  "len_loop has_error [] in_pos mb_size mb_remain codepoint ret = Inr ret"
| "len_loop has_error (ch # str) in_pos mb_size mb_remain codepoint ret =
    (if mb_size = 0 then
       (if ch < 0x80 then len_loop has_error str (in_pos + 1) 0 mb_remain codepoint (ret + 1)
        else (case lead_byte ch of
            Some (bits, n) \<Rightarrow> len_loop has_error str (in_pos + 1) n (n - 1) bits ret
          | None \<Rightarrow>
              if has_error then Inl (Illegal_first_byte, in_pos)
              else len_loop has_error str (in_pos + 1) 0 0 0 ret))
     else if ch AND 0xC0 = 0x80 then
       (let codepoint = push_bit 6 codepoint OR ucast (ch AND 0x3F);
            mb_remain = mb_remain - 1 in
        if mb_remain = 0 then
          (if codepoint < 0x10000 then
             (if overlong mb_size codepoint then
                (if has_error then Inl (Overlong, in_pos)
                 else len_loop has_error str (in_pos + 1) 0 0 0 ret)
              else len_loop has_error str (in_pos + 1) 0 0 codepoint (ret + 1))
           else if codepoint < 0x110000 then
             len_loop has_error str (in_pos + 1) 0 0 codepoint (ret + 2)
           else if has_error then Inl (Range_excess, in_pos)
           else len_loop has_error str (in_pos + 1) 0 0 0 ret)
        else len_loop has_error str (in_pos + 1) mb_size mb_remain codepoint ret)
     else if has_error then Inl (Illegal_following_bytes, in_pos)
     else len_loop has_error str (in_pos + 1) 0 0 0 ret)"

text \<open>The loop for the common case, which passes over the bytes below 0x80.\<close>

fun ascii_prefix :: "guint8 list \<Rightarrow> nat" where
  "ascii_prefix [] = 0"
| "ascii_prefix (ch # str) = (if ch < 0x80 then Suc (ascii_prefix str) else 0)"

definition utf8_to_utf16_len :: "bool \<Rightarrow> guint8 list \<Rightarrow> (convert_error \<times> nat) + nat" where
  "utf8_to_utf16_len has_error str =
    (let in_pos = ascii_prefix str in
     if in_pos = length str then Inr in_pos
     else len_loop has_error (drop in_pos str) in_pos 0 0 0 in_pos)"

text \<open>The converting loop, with the units it writes.\<close>

fun conv_loop :: "guint8 list \<Rightarrow> nat \<Rightarrow> nat \<Rightarrow> guint32 \<Rightarrow> guint16 list" where
  "conv_loop [] mb_size mb_remain codepoint = []"
| "conv_loop (ch # str) mb_size mb_remain codepoint =
    (if mb_size = 0 then
       (if ch < 0x80 then ucast ch # conv_loop str 0 mb_remain codepoint
        else (case lead_byte ch of
            Some (bits, n) \<Rightarrow> conv_loop str n (n - 1) bits
          | None \<Rightarrow> conv_loop str 0 0 0))
     else if ch AND 0xC0 = 0x80 then
       (let codepoint = push_bit 6 codepoint OR ucast (ch AND 0x3F);
            mb_remain = mb_remain - 1 in
        if mb_remain = 0 then
          (if codepoint < 0x10000 then
             ucast (codepoint mod 0x10000) # conv_loop str 0 0 codepoint
           else if codepoint < 0x110000 then
             (let codepoint = codepoint - 0x10000 in
              ucast (drop_bit 10 codepoint + 0xD800) # ucast ((codepoint AND 0x3FF) + 0xDC00) #
                conv_loop str 0 0 codepoint)
           else conv_loop str 0 0 0)
        else conv_loop str mb_size mb_remain codepoint)
     else conv_loop str 0 0 0)"

definition g_utf8_to_utf16 :: "bool \<Rightarrow> guint8 list \<Rightarrow> int \<Rightarrow> guint16 conversion res" where
  "g_utf8_to_utf16 has_error str len =
    (let bs = input_units str len in
     case utf8_to_utf16_len has_error bs of
       Inl (e, pos) \<Rightarrow> Inr (Failed e pos)
     | Inr utf16_len \<Rightarrow>
         (let in_pos = ascii_prefix bs;
              ret = map ucast (take in_pos bs) @ conv_loop (drop in_pos bs) 0 0 0 in
          guardr (length ret \<le> utf16_len) Out_of_bounds
            (Inr (Converted ret (length bs) (length ret)))))"

text \<open>\<open>u8to16\<close>: the whole of a zero-terminated string, no place for an error.\<close>

definition u8to16 :: "guint8 list \<Rightarrow> guint16 conversion res" where
  "u8to16 str = g_utf8_to_utf16 False str (int (length (takeWhile (\<lambda>c. c \<noteq> 0) str)))"

section \<open>UTF-16 to UTF-8\<close>

definition is_high :: "guint16 \<Rightarrow> bool" where
  "is_high ch \<longleftrightarrow> ch \<ge> 0xD800 \<and> ch \<le> 0xDBFF"

definition is_low :: "guint16 \<Rightarrow> bool" where
  "is_low ch \<longleftrightarrow> ch \<ge> 0xDC00 \<and> ch \<le> 0xDFFF"

text \<open>
  The counting loop.  The inner loop over bytes below 0x80, after which the outer loop starts
  over, is one more turn of the outer loop for each of them.
\<close>

fun utf8_len_loop :: "bool \<Rightarrow> guint16 list \<Rightarrow> nat \<Rightarrow> bool \<Rightarrow> glong \<Rightarrow> (convert_error \<times> nat) + glong" where
  "utf8_len_loop has_error [] in_pos surrogate ret = Inr ret"
| "utf8_len_loop has_error (ch # str) in_pos surrogate ret =
    (if surrogate then
       (if is_low ch then utf8_len_loop has_error str (in_pos + 1) False (ret + 4)
        else if has_error then Inl (Missing_surrogate_tail, in_pos)
        else utf8_len_loop has_error str (in_pos + 1) False ret)
     else if ch < 0x80 then utf8_len_loop has_error str (in_pos + 1) False (ret + 1)
     else if ch < 0x0800 then utf8_len_loop has_error str (in_pos + 1) False (ret + 2)
     else if is_high ch then utf8_len_loop has_error str (in_pos + 1) True ret
     else if is_low ch then
       (if has_error then Inl (Missing_surrogate_head, in_pos)
        else utf8_len_loop has_error str (in_pos + 1) False ret)
     else utf8_len_loop has_error str (in_pos + 1) False (ret + 3))"

definition utf16_to_utf8_len :: "bool \<Rightarrow> guint16 list \<Rightarrow> (convert_error \<times> nat) + glong" where
  "utf16_to_utf8_len has_error str = utf8_len_loop has_error str 0 False 0"

text \<open>The bytes of one code point.\<close>

definition put_codepoint :: "guint32 \<Rightarrow> guint8 list" where
  "put_codepoint codepoint =
    (if codepoint < 0x80 then [ucast codepoint]
     else if codepoint < 0x0800 then
       [ucast (0xC0 OR drop_bit 6 codepoint), ucast (0x80 OR (codepoint AND 0x3F))]
     else if codepoint < 0x10000 then
       [ucast (0xE0 OR drop_bit 12 codepoint), ucast (0x80 OR (drop_bit 6 codepoint AND 0x3F)),
        ucast (0x80 OR (codepoint AND 0x3F))]
     else
       [ucast (0xF0 OR drop_bit 18 codepoint), ucast (0x80 OR (drop_bit 12 codepoint AND 0x3F)),
        ucast (0x80 OR (drop_bit 6 codepoint AND 0x3F)), ucast (0x80 OR (codepoint AND 0x3F))])"

text \<open>
  The converting loop.  \<open>surrogate\<close> is 0 or the first half of a pair; the code point of a pair
  is computed on 32-bit integers.
\<close>

fun utf8_conv_loop :: "guint16 list \<Rightarrow> guint16 \<Rightarrow> guint8 list" where
  "utf8_conv_loop [] surrogate = []"
| "utf8_conv_loop (ch # str) surrogate =
    (if surrogate \<noteq> 0 then
       (if is_low ch then
          put_codepoint (0x10000 + (ucast ch - 0xDC00) + push_bit 10 (ucast surrogate - 0xD800)) @
            utf8_conv_loop str 0
        else utf8_conv_loop str 0)
     else if ch < 0x80 then ucast ch # utf8_conv_loop str 0
     else if is_high ch then utf8_conv_loop str ch
     else if is_low ch then utf8_conv_loop str 0
     else put_codepoint (ucast ch) @ utf8_conv_loop str 0)"

text \<open>
  The count is a signed number of 32 bits, which wraps for a long input: a negative one gives a null
  pointer, and \<open>1+utf8_len\<close> overflows for the largest one.
\<close>

definition g_utf16_to_utf8 :: "bool \<Rightarrow> guint16 list \<Rightarrow> int \<Rightarrow> guint8 conversion res" where
  "g_utf16_to_utf8 has_error str len =
    (let us = input_units str len in
     case utf16_to_utf8_len has_error us of
       Inl (e, pos) \<Rightarrow> Inr (Failed e pos)
     | Inr utf8_len \<Rightarrow>
         if sint utf8_len < 0 then Inr (No_result (length us))
         else
           (let ret = utf8_conv_loop us 0 in
            guardr (1 + sint utf8_len < 2 ^ 31) Int_overflow
              (guardr (int (length ret) \<le> sint utf8_len) Out_of_bounds
                (Inr (Converted ret (length us) (length ret))))))"

section \<open>UCS-4 to UTF-16\<close>

text \<open>
  These two conversions read the next unit before they test the count, so that the memory must
  hold one unit more than \<open>len\<close>, or a zero before.  The list is the memory at \<open>str\<close>; reading past
  its end is \<open>Out_of_bounds\<close>.
\<close>

fun ucs4_len_loop :: "guint32 list \<Rightarrow> int \<Rightarrow> nat \<Rightarrow> nat \<Rightarrow> ((convert_error \<times> nat) + nat \<times> nat) res" where
  "ucs4_len_loop [] len pos retlen = Inl Out_of_bounds"
| "ucs4_len_loop (ch # lstr) len pos retlen =
    (if ch = 0 \<or> len = 0 then Inr (Inr (retlen, pos))
     else if ch \<le> 0xFFFF then
       (if ch \<ge> 0xD800 \<and> ch \<le> 0xDFFF then Inr (Inl (Invalid_sequence, pos))
        else ucs4_len_loop lstr (len - 1) (pos + 1) (retlen + 1))
     else if ch > 0x10FFFF then Inr (Inl (Out_of_range, pos))
     else ucs4_len_loop lstr (len - 1) (pos + 1) (retlen + 2))"

fun ucs4_conv_loop :: "guint32 list \<Rightarrow> int \<Rightarrow> guint16 list res" where
  "ucs4_conv_loop [] len = Inl Out_of_bounds"
| "ucs4_conv_loop (ch # str) len =
    (if ch = 0 \<or> len = 0 then Inr []
     else if ch \<le> 0xFFFF \<and> (ch < 0xD800 \<or> ch > 0xDFFF) then
       bindr (ucs4_conv_loop str (len - 1)) (\<lambda>us. Inr (ucast ch # us))
     else
       (let ch = ch - 0x10000 in
        bindr (ucs4_conv_loop str (len - 1))
          (\<lambda>us. Inr (ucast (drop_bit 10 ch + 0xD800) # ucast ((ch AND 0x3FF) + 0xDC00) # us))))"

definition g_ucs4_to_utf16_len :: "guint32 list option \<Rightarrow> int \<Rightarrow> ((convert_error \<times> nat) + nat \<times> nat) res" where
  "g_ucs4_to_utf16_len str len =
    (case str of None \<Rightarrow> Inr (Inr (0, 0)) | Some s \<Rightarrow> ucs4_len_loop s len 0 0)"

definition g_ucs4_to_utf16 :: "guint32 list option \<Rightarrow> int \<Rightarrow> guint16 conversion res" where
  "g_ucs4_to_utf16 str len =
    bindr (g_ucs4_to_utf16_len str len) (\<lambda>r. case r of
       Inl (e, pos) \<Rightarrow> Inr (Failed e pos)
     | Inr (allocsz, read) \<Rightarrow>
         (case str of None \<Rightarrow> Inl Null_deref
          | Some s \<Rightarrow>
             guardr (allocsz + 1 < 2 ^ 31) Int_overflow
               (bindr (ucs4_conv_loop s len) (\<lambda>ret.
                 guardr (length ret \<le> allocsz) Out_of_bounds
                   (Inr (Converted ret read (length ret)))))))"

section \<open>UTF-16 to UCS-4\<close>

fun utf16_len_loop :: "guint16 list \<Rightarrow> int \<Rightarrow> nat \<Rightarrow> nat \<Rightarrow> ((convert_error \<times> nat) + nat \<times> nat) res" where
  "utf16_len_loop [] len pos retlen = Inl Out_of_bounds"
| "utf16_len_loop (ch # lstr) len pos retlen =
    (if ch = 0 \<or> len = 0 then Inr (Inr (retlen, pos))
     else if is_high ch then
       (if len - 1 = 0 then Inr (Inr (retlen, pos))
        else (case lstr of [] \<Rightarrow> Inl Out_of_bounds
              | ch2 # lstr' \<Rightarrow>
                  if is_low ch2 then utf16_len_loop lstr' (len - 2) (pos + 2) (retlen + 1)
                  else Inr (Inl (Invalid_sequence, pos + 1))))
     else if is_low ch then Inr (Inl (Invalid_sequence, pos))
     else utf16_len_loop lstr (len - 1) (pos + 1) (retlen + 1))"

text \<open>The converting loop runs for the counted number of characters.\<close>

fun utf16_conv_loop :: "guint16 list \<Rightarrow> nat \<Rightarrow> guint32 list res" where
  "utf16_conv_loop [] allocsz = Inl Out_of_bounds"
| "utf16_conv_loop (ch # str) allocsz =
    (if ch = 0 \<or> allocsz = 0 then Inr []
     else if is_high ch then
       (case str of [] \<Rightarrow> Inl Out_of_bounds
        | ch2 # str' \<Rightarrow>
            bindr (utf16_conv_loop str' (allocsz - 1))
              (\<lambda>cs. Inr ((push_bit 10 (ucast ch - 0xD800) + (ucast ch2 - 0xDC00) + 0x10000) # cs)))
     else bindr (utf16_conv_loop str (allocsz - 1)) (\<lambda>cs. Inr (ucast ch # cs)))"

definition g_utf16_to_ucs4_len :: "guint16 list option \<Rightarrow> int \<Rightarrow> ((convert_error \<times> nat) + nat \<times> nat) res" where
  "g_utf16_to_ucs4_len str len =
    (case str of None \<Rightarrow> Inr (Inr (0, 0)) | Some s \<Rightarrow> utf16_len_loop s len 0 0)"

definition g_utf16_to_ucs4 :: "guint16 list option \<Rightarrow> int \<Rightarrow> guint32 conversion res" where
  "g_utf16_to_ucs4 str len =
    bindr (g_utf16_to_ucs4_len str len) (\<lambda>r. case r of
       Inl (e, pos) \<Rightarrow> Inr (Failed e pos)
     | Inr (allocsz, read) \<Rightarrow>
         (case str of None \<Rightarrow> Inl Null_deref
          | Some s \<Rightarrow>
             bindr (utf16_conv_loop s allocsz) (\<lambda>ret. Inr (Converted ret read allocsz))))"

end
