(* ===== verification/Etw_Symbols.thy ===== *)
theory Etw_Symbols
  imports Jit_Info_Table Profiler Utf_Conv
begin

unbundle bit_operations_syntax

text \<open>
  The symbol profiler itself (\<open>etwSymbols.c\<close>): a profiler that writes an ETW event of the
  Microsoft-JScript provider for every jitted method and every loaded assembly, so that a trace
  viewer can give names to addresses of jitted code.

  What the callbacks read of the runtime is the record \<open>Memory\<close>: the \<open>MonoJitInfo\<close> and the
  names at given addresses (\<open>None\<close> where the pointer is null or a link of the chain of pointers
  is).  \<open>mono_method_full_name\<close> gives zero-terminated UTF-8.  Pointers have \<open>ptr_size\<close> bytes and
  the machine is little-endian, as every Windows machine.  The effect of \<open>EventWrite\<close> is the
  event it is given; its status is ignored by the source.
\<close>

section \<open>Descriptors\<close>

record GUID =
  Data1 :: guint32
  Data2 :: guint16
  Data3 :: guint16
  Data4 :: "guint8 list"

record EVENT_DESCRIPTOR =
  Id :: guint16
  Version :: guint8
  Channel :: guint8
  Level :: guint8
  Opcode :: guint8
  Task :: guint16
  Keyword :: guint64

definition PROVIDER_JSCRIPT9 :: GUID where
  "PROVIDER_JSCRIPT9 = \<lparr>Data1 = 0x57277741, Data2 = 0x3638, Data3 = 0x4a4b,
    Data4 = [0xbd, 0xba, 0x0a, 0xc6, 0xe4, 0x5d, 0xa5, 0x6c]\<rparr>"

definition SourceLoad :: EVENT_DESCRIPTOR where
  "SourceLoad = \<lparr>Id = 0x29, Version = 0x0, Channel = 0x0, Level = 0x4, Opcode = 0xc, Task = 0x2, Keyword = 0x1\<rparr>"

definition MethodLoad :: EVENT_DESCRIPTOR where
  "MethodLoad = \<lparr>Id = 0x9, Version = 0x0, Channel = 0x0, Level = 0x4, Opcode = 0xa, Task = 0x1, Keyword = 0x1\<rparr>"

section \<open>Memory and events\<close>

record Memory =
  ptr_size :: nat
  jit_info_at :: "addr \<rightharpoonup> MonoJitInfo"
  method_assembly :: "addr \<rightharpoonup> addr"
  mono_method_full_name :: "addr \<Rightarrow> guint8 list"
  assembly_name :: "addr \<rightharpoonup> guint8 list"

definition unit_bytes :: "guint16 list \<Rightarrow> guint8 list" where
  "unit_bytes us = concat (map (\<lambda>u. le_bytes 2 (uint u)) us)"

text \<open>
  \<open>EventDataDescCreate\<close> on a variable of which the bytes are given: the descriptor covers the
  first \<open>sz\<close> of them.
\<close>

definition EventDataDescCreate :: "guint8 list \<Rightarrow> nat \<Rightarrow> guint8 list res" where
  "EventDataDescCreate var_bytes sz = guardr (sz \<le> length var_bytes) Out_of_bounds (Inr (take sz var_bytes))"

definition wcslen :: "guint16 list \<Rightarrow> nat" where
  "wcslen us = length (takeWhile (\<lambda>u. u \<noteq> 0) us)"

datatype etw_event = Event (event_handle: int) (event_descriptor: EVENT_DESCRIPTOR) (event_data: "guint8 list list")

fun all_ok :: "'a res list \<Rightarrow> 'a list res" where
  "all_ok [] = Inr []"
| "all_ok (r # rs) = bindr r (\<lambda>x. bindr (all_ok rs) (\<lambda>xs. Inr (x # xs)))"

text \<open>The buffer that \<open>u8to16\<close> returns: the units and the zero after them.\<close>

definition name_buffer :: "guint8 list \<Rightarrow> guint16 list res" where
  "name_buffer name_u8 =
    bindr (u8to16 name_u8) (\<lambda>c. case c of Converted us r w \<Rightarrow> Inr (us @ [0]) | Failed e pos \<Rightarrow> Inl Null_deref | No_result r \<Rightarrow> Inl Null_deref)"

section \<open>Callbacks\<close>

definition on_method_jitted :: "Memory \<Rightarrow> int \<Rightarrow> addr \<Rightarrow> addr \<Rightarrow> int \<Rightarrow> etw_event res" where
  "on_method_jitted mem handle meth jinfo result =
    (case jit_info_at mem jinfo of None \<Rightarrow> Inl Null_deref
     | Some ji \<Rightarrow>
     (case method_assembly mem meth of None \<Rightarrow> Inl Null_deref
      | Some assembly \<Rightarrow>
        bindr (name_buffer (mono_method_full_name mem meth)) (\<lambda>name.
        bindr (all_ok
          [EventDataDescCreate (le_bytes (ptr_size mem) 0) (ptr_size mem),
           EventDataDescCreate (le_bytes (ptr_size mem) (code_start ji)) (ptr_size mem),
           EventDataDescCreate (le_bytes 8 (code_size ji)) 8,
           EventDataDescCreate (le_bytes (ptr_size mem) meth) 4,
           EventDataDescCreate (le_bytes 4 0) 2,
           EventDataDescCreate (le_bytes 8 0) 2,
           EventDataDescCreate (le_bytes 8 assembly) 8,
           EventDataDescCreate (le_bytes 4 0) 4,
           EventDataDescCreate (le_bytes 4 0) 4,
           EventDataDescCreate (unit_bytes name) (2 * (wcslen name + 1))])
          (\<lambda>ds. Inr (Event handle MethodLoad ds)))))"

definition on_load_assembly :: "Memory \<Rightarrow> int \<Rightarrow> addr \<Rightarrow> int \<Rightarrow> etw_event res" where
  "on_load_assembly mem handle assembly result =
    (case assembly_name mem assembly of None \<Rightarrow> Inl Null_deref
     | Some aname \<Rightarrow>
        bindr (name_buffer aname) (\<lambda>name.
        bindr (all_ok
          [EventDataDescCreate (le_bytes 8 assembly) 8,
           EventDataDescCreate (le_bytes (ptr_size mem) 0) (ptr_size mem),
           EventDataDescCreate (le_bytes 4 0) 4,
           EventDataDescCreate (unit_bytes name) (2 * (wcslen name + 1))])
          (\<lambda>ds. Inr (Event handle SourceLoad ds))))"

section \<open>Initialisation\<close>

text \<open>The function pointers that the profiler registers; those of other profilers are numbered.\<close>

datatype etw_fn = On_load_assembly | On_method_jitted | Other_fn nat

record EtwState =
  profilers :: "etw_fn Profilers"
  etw_registration_handle :: int
  registered_providers :: "GUID list"

text \<open>
  \<open>etw_profiler\<close> is the address of the static profiler object; \<open>event_register g\<close> is the handle
  that \<open>EventRegister\<close> stores for the provider \<open>g\<close> (0 when it fails).
\<close>

definition init_etw_symbol_profiler :: "addr \<Rightarrow> (GUID \<Rightarrow> int) \<Rightarrow> EtwState \<Rightarrow> EtwState" where
  "init_etw_symbol_profiler etw_profiler event_register st =
    (let ps = mono_profiler_install etw_profiler None (profilers st);
         ps = mono_profiler_set_events (MONO_PROFILE_ASSEMBLY_EVENTS OR MONO_PROFILE_JIT_COMPILATION) ps;
         ps = mono_profiler_install_assembly None (Some On_load_assembly) None None ps;
         ps = mono_profiler_install_jit_end (Some On_method_jitted) ps
     in st\<lparr>profilers := ps, etw_registration_handle := event_register PROVIDER_JSCRIPT9,
           registered_providers := PROVIDER_JSCRIPT9 # registered_providers st\<rparr>)"

text \<open>Running the callbacks of a report: the events that are written, in order.\<close>

fun run_call :: "Memory \<Rightarrow> int \<Rightarrow> etw_fn call \<Rightarrow> etw_event list res" where
  "run_call mem h (Call On_method_jitted p [Ptr meth, Ptr jinfo, Num result]) =
    bindr (on_method_jitted mem h meth jinfo result) (\<lambda>e. Inr [e])"
| "run_call mem h (Call On_load_assembly p [Ptr assembly, Num result]) =
    bindr (on_load_assembly mem h assembly result) (\<lambda>e. Inr [e])"
| "run_call mem h _ = Inr []"

fun run_calls :: "Memory \<Rightarrow> int \<Rightarrow> etw_fn call list \<Rightarrow> etw_event list res" where
  "run_calls mem h [] = Inr []"
| "run_calls mem h (c # cs) = bindr (run_call mem h c) (\<lambda>es. bindr (run_calls mem h cs) (\<lambda>es'. Inr (es @ es')))"

definition report_jitted :: "Memory \<Rightarrow> addr \<Rightarrow> addr \<Rightarrow> int \<Rightarrow> EtwState \<Rightarrow> etw_event list res" where
  "report_jitted mem meth jinfo result st =
    run_calls mem (etw_registration_handle st) (mono_profiler_method_end_jit meth jinfo result (profilers st))"

definition report_loaded :: "Memory \<Rightarrow> addr \<Rightarrow> int \<Rightarrow> EtwState \<Rightarrow> etw_event list res" where
  "report_loaded mem assembly result st =
    run_calls mem (etw_registration_handle st) (mono_profiler_assembly_loaded assembly result (profilers st))"

end
