(* ===== verification/Utf_Conv_Proofs.thy ===== *)
theory Utf_Conv_Proofs
  imports Utf_Conv
begin

unbundle bit_operations_syntax

text \<open>
  The loops of the string conversions on text in a well-formed encoding, and the exactness of the
  counting passes.
\<close>

section \<open>Lead and continuation bytes\<close>

lemma lead_byte_2: "k < 32 \<Longrightarrow> lead_byte (word_of_nat (192 + k)) = Some (word_of_nat k, 2)"
  by (erule less_setD) (simp add: lead_byte_def upt_rec)

lemma lead_byte_3: "k < 16 \<Longrightarrow> lead_byte (word_of_nat (224 + k)) = Some (word_of_nat k, 3)"
  by (erule less_setD) (simp add: lead_byte_def upt_rec)

lemma lead_byte_4: "k < 8 \<Longrightarrow> lead_byte (word_of_nat (240 + k)) = Some (word_of_nat k, 4)"
  by (erule less_setD) (simp add: lead_byte_def upt_rec)

lemma cont_byte: "k < 64 \<Longrightarrow> (word_of_nat (128 + k) :: guint8) AND 0xC0 = 0x80 \<and>
   (ucast ((word_of_nat (128 + k) :: guint8) AND 0x3F) :: guint32) = word_of_nat k"
  by (erule less_setD) (simp add: upt_rec)

lemma append_six_bits:
  assumes "k < 64"
  shows "push_bit 6 (word_of_nat m :: guint32) OR word_of_nat k = word_of_nat (m * 64 + k)"
proof -
  have "push_bit 6 (word_of_nat m :: guint32) OR word_of_nat k = push_bit 6 (word_of_nat m) + word_of_nat k"
    by (rule or_low_bits [of 6]) (use assms in \<open>simp_all add: take_bit_of_nat_less take_bit_push_bit\<close>)
  then show ?thesis by (simp add: push_bit_eq_mult mult.commute)
qed

lemma of_nat_less_iff:
  assumes "n < 2 ^ 32"
  shows "(word_of_nat n :: guint32) < 0x80 \<longleftrightarrow> n < 0x80" "(word_of_nat n :: guint32) < 0x800 \<longleftrightarrow> n < 0x800"
    "(word_of_nat n :: guint32) < 0x10000 \<longleftrightarrow> n < 0x10000"
    "(word_of_nat n :: guint32) < 0x110000 \<longleftrightarrow> n < 0x110000" "(word_of_nat n :: guint32) < 0x7F \<longleftrightarrow> n < 0x7F"
    "(word_of_nat n :: guint32) < 0x7FF \<longleftrightarrow> n < 0x7FF" "(word_of_nat n :: guint32) < 0xFFFF \<longleftrightarrow> n < 0xFFFF"
  using assms by (simp_all add: word_less_nat_alt unat_of_nat)

section \<open>Text and its encodings\<close>

text \<open>The encodings as the Unicode standard defines them, on code points as numbers.\<close>

definition scalar :: "nat \<Rightarrow> bool" where
  "scalar n \<longleftrightarrow> n < 0xD800 \<or> 0xDFFF < n \<and> n < 0x110000"

definition utf8_of :: "nat \<Rightarrow> guint8 list" where
  "utf8_of n =
    (if n < 0x80 then [word_of_nat n]
     else if n < 0x800 then [word_of_nat (0xC0 + n div 64), word_of_nat (0x80 + n mod 64)]
     else if n < 0x10000 then
       [word_of_nat (0xE0 + n div 4096), word_of_nat (0x80 + n div 64 mod 64), word_of_nat (0x80 + n mod 64)]
     else
       [word_of_nat (0xF0 + n div 262144), word_of_nat (0x80 + n div 4096 mod 64),
        word_of_nat (0x80 + n div 64 mod 64), word_of_nat (0x80 + n mod 64)])"

definition utf16_of :: "nat \<Rightarrow> guint16 list" where
  "utf16_of n =
    (if n < 0x10000 then [word_of_nat n]
     else [word_of_nat (0xD800 + (n - 0x10000) div 1024), word_of_nat (0xDC00 + (n - 0x10000) mod 1024)])"

text \<open>Between characters the other two loop variables are not read.\<close>

lemma len_loop_reset:
  "len_loop e bs p 0 r c ret = len_loop e bs p 0 0 0 ret"
  by (induction bs arbitrary: p r c ret) (simp_all split: option.splits)

lemma conv_loop_reset: "conv_loop bs 0 r c = conv_loop bs 0 0 0"
  by (induction bs arbitrary: r c) (simp_all split: option.splits)

lemma not_ascii_lead: "128 \<le> k \<Longrightarrow> k < 256 \<Longrightarrow> \<not> (word_of_nat k :: guint8) < 0x80"
  by (simp add: word_less_nat_alt unat_of_nat)

lemma len_loop_cont:
  assumes "k < 64" "m \<noteq> 0"
  shows "len_loop e (word_of_nat (128 + k) # bs) p m r (word_of_nat c) ret =
    (let d = word_of_nat (c * 64 + k) in
     if r - 1 = 0 then
          (if d < 0x10000 then
             (if overlong m d then
                (if e then Inl (Overlong, p)
                 else len_loop e bs (p + 1) 0 0 0 ret)
              else len_loop e bs (p + 1) 0 0 0 (ret + 1))
           else if d < 0x110000 then
             len_loop e bs (p + 1) 0 0 0 (ret + 2)
           else if e then Inl (Range_excess, p)
           else len_loop e bs (p + 1) 0 0 0 ret)
     else len_loop e bs (p + 1) m (r - 1) d ret)"
  using cont_byte [OF assms(1)] append_six_bits [OF assms(1), of c] assms(2)
  by (simp add: Let_def len_loop_reset [of e bs _ 0 "word_of_nat _"] del: of_nat_add)

lemma conv_loop_cont:
  assumes "k < 64" "m \<noteq> 0"
  shows "conv_loop (word_of_nat (128 + k) # bs) m r (word_of_nat c) =
    (let d = word_of_nat (c * 64 + k) in
     if r - 1 = 0 then
          (if d < 0x10000 then ucast (d mod 0x10000) # conv_loop bs 0 0 0
           else if d < 0x110000 then
             ucast (drop_bit 10 (d - 0x10000) + 0xD800) # ucast ((d - 0x10000 AND 0x3FF) + 0xDC00) #
                conv_loop bs 0 0 0
           else conv_loop bs 0 0 0)
     else conv_loop bs m (r - 1) d)"
  using cont_byte [OF assms(1)] append_six_bits [OF assms(1), of c] assms(2)
  by (simp add: Let_def conv_loop_reset [of bs 0 "word_of_nat _"] conv_loop_reset [of bs 0 "_ - _"] del: of_nat_add)

lemma len_loop_lead:
  assumes "lead_byte ch = Some (c, n)" "\<not> ch < 0x80"
  shows "len_loop e (ch # bs) p 0 r d ret = len_loop e bs (p + 1) n (n - 1) c ret"
    "conv_loop (ch # bs) 0 r d = conv_loop bs n (n - 1) c"
  using assms by simp_all

lemma six_bit_groups:
  "n div 64 * 64 + n mod 64 = n" "n div 4096 * 64 + n div 64 mod 64 = n div 64"
  "n div 262144 * 64 + n div 4096 mod 64 = n div 4096" for n :: nat
proof -
  have "n div 4096 = n div 64 div 64" "n div 262144 = n div 4096 div 64"
    using div_mult2_eq [of n 64 64] div_mult2_eq [of n 4096 64] by simp_all
  then show "n div 64 * 64 + n mod 64 = n" "n div 4096 * 64 + n div 64 mod 64 = n div 64"
    "n div 262144 * 64 + n div 4096 mod 64 = n div 4096"
    by (simp_all only: div_mult_mod_eq)
qed

lemma lead_bytes:
  "k < 32 \<Longrightarrow> len_loop e (word_of_nat (192 + k) # bs) p 0 r d ret = len_loop e bs (p + 1) 2 1 (word_of_nat k) ret"
  "k < 16 \<Longrightarrow> len_loop e (word_of_nat (224 + k) # bs) p 0 r d ret = len_loop e bs (p + 1) 3 2 (word_of_nat k) ret"
  "k < 8 \<Longrightarrow> len_loop e (word_of_nat (240 + k) # bs) p 0 r d ret = len_loop e bs (p + 1) 4 3 (word_of_nat k) ret"
  "k < 32 \<Longrightarrow> conv_loop (word_of_nat (192 + k) # bs) 0 r d = conv_loop bs 2 1 (word_of_nat k)"
  "k < 16 \<Longrightarrow> conv_loop (word_of_nat (224 + k) # bs) 0 r d = conv_loop bs 3 2 (word_of_nat k)"
  "k < 8 \<Longrightarrow> conv_loop (word_of_nat (240 + k) # bs) 0 r d = conv_loop bs 4 3 (word_of_nat k)"
  using len_loop_lead [OF lead_byte_2 not_ascii_lead, of k] len_loop_lead [OF lead_byte_3 not_ascii_lead, of k]
    len_loop_lead [OF lead_byte_4 not_ascii_lead, of k] by simp_all

lemma len_loop_utf8_of:
  assumes "n < 0x110000"
  shows "len_loop e (utf8_of n @ bs) p 0 r c ret =
    len_loop e bs (p + length (utf8_of n)) 0 0 0 (ret + length (utf16_of n))"
proof -
  consider "n < 0x80" | "0x80 \<le> n" "n < 0x800" | "0x800 \<le> n" "n < 0x10000" | "0x10000 \<le> n"
    by linarith
  then show ?thesis
  proof cases
    case 1
    then show ?thesis
      by (simp add: utf8_of_def utf16_of_def word_less_nat_alt unat_of_nat len_loop_reset [of e bs _ r])
  next
    case 2
    then have "n div 64 < 32" by simp
    then show ?thesis using 2
      by (simp add: utf8_of_def utf16_of_def lead_bytes len_loop_cont six_bit_groups of_nat_less_iff
          overlong_def Let_def del: of_nat_add len_loop.simps)
  next
    case 3
    then have "n div 4096 < 16" by simp
    then show ?thesis using 3
      by (simp add: utf8_of_def utf16_of_def lead_bytes len_loop_cont six_bit_groups of_nat_less_iff
          overlong_def Let_def del: of_nat_add len_loop.simps)
  next
    case 4
    then have "n div 262144 < 8" using assms by simp
    then show ?thesis using 4 assms
      by (simp add: utf8_of_def utf16_of_def lead_bytes len_loop_cont six_bit_groups of_nat_less_iff
          overlong_def Let_def del: of_nat_add len_loop.simps)
  qed
qed

lemma surrogate_units:
  assumes "m < 0x100000"
  shows "(ucast (drop_bit 10 (word_of_nat m :: guint32) + 0xD800) :: guint16) = word_of_nat (0xD800 + m div 1024)"
    "(ucast ((word_of_nat m AND 0x3FF :: guint32) + 0xDC00) :: guint16) = word_of_nat (0xDC00 + m mod 1024)"
proof -
  have "drop_bit 10 (word_of_nat m :: guint32) + 0xD800 = word_of_nat (0xD800 + m div 1024)"
    using assms by (simp add: drop_bit_of_nat_word)
  moreover have "(word_of_nat m AND 0x3FF :: guint32) + 0xDC00 = word_of_nat (0xDC00 + m mod 1024)"
    by (simp add: masks mask_of_nat_word)
  ultimately show "(ucast (drop_bit 10 (word_of_nat m :: guint32) + 0xD800) :: guint16) = word_of_nat (0xD800 + m div 1024)"
    "(ucast ((word_of_nat m AND 0x3FF :: guint32) + 0xDC00) :: guint16) = word_of_nat (0xDC00 + m mod 1024)"
    by (simp_all only: ucast_of_nat_down)
qed

lemma ucast_mod_unit: "n < 0x10000 \<Longrightarrow> (ucast ((word_of_nat n :: guint32) mod 0x10000) :: guint16) = word_of_nat n"
proof -
  assume "n < 0x10000"
  then have "(word_of_nat n :: guint32) mod 0x10000 = word_of_nat n"
    by (simp add: word_unat_eq_iff unat_mod_distrib unat_of_nat)
  then show ?thesis by (simp only: ucast_of_nat_down)
qed

lemma conv_loop_utf8_of:
  assumes "n < 0x110000"
  shows "conv_loop (utf8_of n @ bs) 0 r c = utf16_of n @ conv_loop bs 0 0 0"
proof -
  consider "n < 0x80" | "0x80 \<le> n" "n < 0x800" | "0x800 \<le> n" "n < 0x10000" | "0x10000 \<le> n"
    by linarith
  then show ?thesis
  proof cases
    case 1
    then show ?thesis
      by (simp add: utf8_of_def utf16_of_def word_less_nat_alt unat_of_nat conv_loop_reset [of bs r]
          unsigned_of_nat word_unat_eq_iff take_bit_eq_mod)
  next
    case 2
    then have "n div 64 < 32" by simp
    then show ?thesis using 2
      by (simp add: utf8_of_def utf16_of_def lead_bytes conv_loop_cont six_bit_groups of_nat_less_iff
          ucast_mod_unit Let_def del: of_nat_add conv_loop.simps)
  next
    case 3
    then have "n div 4096 < 16" by simp
    then show ?thesis using 3
      by (simp add: utf8_of_def utf16_of_def lead_bytes conv_loop_cont six_bit_groups of_nat_less_iff
          ucast_mod_unit Let_def del: of_nat_add conv_loop.simps)
  next
    case 4
    then have "n div 262144 < 8" using assms by simp
    moreover have "(word_of_nat n :: guint32) - 0x10000 = word_of_nat (n - 0x10000)"
      using 4 by (simp add: of_nat_diff)
    ultimately show ?thesis using 4 assms
      by (simp add: utf8_of_def utf16_of_def lead_bytes conv_loop_cont six_bit_groups of_nat_less_iff
          surrogate_units Let_def del: of_nat_add of_nat_diff conv_loop.simps)
  qed
qed

lemma ascii_prefix_len:
  "len_loop e bs p 0 0 0 ret = len_loop e (drop (ascii_prefix bs) bs) (p + ascii_prefix bs) 0 0 0 (ret + ascii_prefix bs)"
  by (induction bs arbitrary: p ret) simp_all

lemma ascii_prefix_le: "ascii_prefix bs \<le> length bs"
  by (induction bs) auto

lemma utf8_to_utf16_len_loop: "utf8_to_utf16_len e bs = len_loop e bs 0 0 0 0 0"
  using ascii_prefix_len [of e bs 0 0] by (simp add: utf8_to_utf16_len_def Let_def)

lemma ascii_prefix_conv:
  "map ucast (take (ascii_prefix bs) bs) @ conv_loop (drop (ascii_prefix bs) bs) 0 0 0 = conv_loop bs 0 0 0"
  by (induction bs) simp_all

lemmas conv_loop_resets = conv_loop_reset [of _ 0 "_ OR _"] conv_loop_reset [of _ 0 "_ - _"]

lemma len_loop_checked:
  "len_loop True bs p m r c ret = Inr n \<Longrightarrow>
    n = ret + length (conv_loop bs m r c) \<and> len_loop False bs p m r c ret = Inr n"
  by (induction True bs p m r c ret rule: len_loop.induct)
    (auto simp: Let_def conv_loop_resets split: if_splits option.splits)

text \<open>
  The number of characters that the scan meets and that the code's own test \<open>overlong\<close> flags.  The
  test misses the largest code point of each shorter form.
\<close>

fun flagged_overlongs :: "guint8 list \<Rightarrow> nat \<Rightarrow> nat \<Rightarrow> guint32 \<Rightarrow> nat" where
  "flagged_overlongs [] mb_size mb_remain codepoint = 0"
| "flagged_overlongs (ch # str) mb_size mb_remain codepoint =
    (if mb_size = 0 then
       (if ch < 0x80 then flagged_overlongs str 0 0 0
        else (case lead_byte ch of Some (bits, n) \<Rightarrow> flagged_overlongs str n (n - 1) bits | None \<Rightarrow> flagged_overlongs str 0 0 0))
     else if ch AND 0xC0 \<noteq> 0x80 then flagged_overlongs str 0 0 0
     else
       (let codepoint = push_bit 6 codepoint OR ucast (ch AND 0x3F) in
        if 1 < mb_remain then flagged_overlongs str mb_size (mb_remain - 1) codepoint
        else if codepoint < 0x10000 \<and> overlong mb_size codepoint then Suc (flagged_overlongs str 0 0 0)
        else flagged_overlongs str 0 0 0))"

lemma len_loop_lenient:
  "\<exists>n. len_loop False bs p m r c ret = Inr n \<and> n + flagged_overlongs bs m r c = ret + length (conv_loop bs m r c)"
proof (induction bs arbitrary: p m r c ret)
  case (Cons ch bs)
  let ?d = "push_bit 6 c OR ucast (ch AND 0x3F) :: guint32"
  show ?case
  proof (cases "m = 0")
    case True
    then show ?thesis
      using Cons.IH [of "p + 1" 0 0 0 "ret + 1"] Cons.IH [of "p + 1" 0 0 0 ret]
        Cons.IH [of "p + 1" _ _ _ ret]
      by (auto simp: len_loop_reset [of False bs _ r c] conv_loop_reset [of bs r c] split: option.splits)
  next
    case False
    then show ?thesis
      using Cons.IH [of "p + 1" 0 0 0 "ret + 1"] Cons.IH [of "p + 1" 0 0 0 "ret + 2"] Cons.IH [of "p + 1" 0 0 0 ret]
        Cons.IH [of "p + 1" m "r - 1" ?d ret]
      by (simp add: Let_def conv_loop_resets len_loop_reset [of False bs _ 0 "_ OR _"])
  qed
qed simp

definition utf8_encode :: "nat list \<Rightarrow> guint8 list" where
  "utf8_encode cs = concat (map utf8_of cs)"

definition utf16_encode :: "nat list \<Rightarrow> guint16 list" where
  "utf16_encode cs = concat (map utf16_of cs)"

lemma encode_simps [simp]:
  "utf8_encode [] = []" "utf8_encode (c # cs) = utf8_of c @ utf8_encode cs"
  "utf16_encode [] = []" "utf16_encode (c # cs) = utf16_of c @ utf16_encode cs"
  by (simp_all add: utf8_encode_def utf16_encode_def)

lemma scalar_less: "scalar n \<Longrightarrow> n < 0x110000"
  by (auto simp: scalar_def)

lemma loops_utf8_encode:
  assumes "list_all scalar cs"
  shows "len_loop e (utf8_encode cs) p 0 0 0 ret = Inr (ret + length (utf16_encode cs))"
    "conv_loop (utf8_encode cs) 0 0 0 = utf16_encode cs"
  using assms by (induction cs arbitrary: p ret)
    (simp_all add: len_loop_utf8_of conv_loop_utf8_of scalar_less)

lemma g_utf8_to_utf16_loop:
  "g_utf8_to_utf16 e str len =
    (let bs = input_units str len in
     case len_loop e bs 0 0 0 0 0 of
       Inl (er, pos) \<Rightarrow> Inr (Failed er pos)
     | Inr n \<Rightarrow> guardr (length (conv_loop bs 0 0 0) \<le> n) Out_of_bounds
            (Inr (Converted (conv_loop bs 0 0 0) (length bs) (length (conv_loop bs 0 0 0)))))"
  by (simp only: g_utf8_to_utf16_def utf8_to_utf16_len_loop ascii_prefix_conv Let_def)

section \<open>UTF-16 to UTF-8\<close>

lemma or_of_nat:
  "k < 64 \<Longrightarrow> (0xC0 :: guint32) OR word_of_nat k = word_of_nat (0xC0 + k)"
  "k < 32 \<Longrightarrow> (0xE0 :: guint32) OR word_of_nat k = word_of_nat (0xE0 + k)"
  "k < 16 \<Longrightarrow> (0xF0 :: guint32) OR word_of_nat k = word_of_nat (0xF0 + k)"
  "k < 128 \<Longrightarrow> (0x80 :: guint32) OR word_of_nat k = word_of_nat (0x80 + k)"
  by (simp_all add: or_low_bits [of 6] or_low_bits [of 5] or_low_bits [of 4] or_low_bits [of 7] take_bit_of_nat_less)

lemma put_codepoint_of_nat:
  assumes "n < 0x110000"
  shows "put_codepoint (word_of_nat n) = utf8_of n"
proof -
  have "n div 64 < 64" if "n < 0x800" using that by simp
  moreover have "n div 4096 < 32" if "n < 0x10000" using that by simp
  moreover have "n div 262144 < 16" using assms by simp
  moreover have "k mod 64 < 128" for k :: nat by (rule less_trans [of _ 64]) simp_all
  ultimately show ?thesis using assms
    by (simp add: put_codepoint_def utf8_of_def of_nat_less_iff drop_bit_of_nat_word masks mask_of_nat_word
        or_of_nat ucast_of_nat_down del: of_nat_add)
qed

lemma surrogate_classes:
  "k < 1024 \<Longrightarrow> is_high (word_of_nat (0xD800 + k))" "k < 1024 \<Longrightarrow> \<not> (word_of_nat (0xD800 + k) :: guint16) < 0x80"
  "k < 1024 \<Longrightarrow> is_low (word_of_nat (0xDC00 + k))" "k < 1024 \<Longrightarrow> (word_of_nat (0xD800 + k) :: guint16) \<noteq> 0"
  "k < 1024 \<Longrightarrow> \<not> (word_of_nat (0xD800 + k) :: guint16) < 0x800"
  by (simp_all add: is_high_def is_low_def word_le_nat_alt word_less_nat_alt unat_of_nat word_unat_eq_iff
      del: of_nat_add)

lemma pair_codepoint:
  assumes "a < 1024" "b < 1024"
  shows "0x10000 + ((ucast (word_of_nat (0xDC00 + b) :: guint16) :: guint32) - 0xDC00) +
    push_bit 10 ((ucast (word_of_nat (0xD800 + a) :: guint16) :: guint32) - 0xD800) = word_of_nat (0x10000 + a * 1024 + b)"
proof -
  have "(ucast (word_of_nat (0xDC00 + b) :: guint16) :: guint32) = word_of_nat (0xDC00 + b)"
    "(ucast (word_of_nat (0xD800 + a) :: guint16) :: guint32) = word_of_nat (0xD800 + a)"
    using assms by (simp_all add: unsigned_of_nat take_bit_eq_mod del: of_nat_add)
  then show ?thesis by (simp add: push_bit_eq_mult)
qed

lemma unit_classes:
  assumes "n < 0x10000" "scalar n"
  shows "\<not> is_high (word_of_nat n)" "\<not> is_low (word_of_nat n)" "(word_of_nat n :: guint16) < 0x80 \<longleftrightarrow> n < 0x80"
    "(word_of_nat n :: guint16) < 0x800 \<longleftrightarrow> n < 0x800" "(ucast (word_of_nat n :: guint16) :: guint32) = word_of_nat n"
    "(ucast (word_of_nat n :: guint16) :: guint8) = word_of_nat n" "(word_of_nat n :: guint16) = 0 \<longleftrightarrow> n = 0"
  using assms by (auto simp: scalar_def is_high_def is_low_def word_le_nat_alt word_less_nat_alt unat_of_nat
      unsigned_of_nat take_bit_eq_mod word_unat_eq_iff mod_mod_cancel)

lemma utf8_conv_loop_utf16_of:
  assumes "scalar n"
  shows "utf8_conv_loop (utf16_of n @ us) 0 = utf8_of n @ utf8_conv_loop us 0"
proof (cases "n < 0x10000")
  case True
  then show ?thesis
    using unit_classes [OF True assms] put_codepoint_of_nat [of n] by (simp add: utf16_of_def utf8_of_def)
next
  case False
  let ?a = "(n - 0x10000) div 1024" and ?b = "(n - 0x10000) mod 1024"
  have ab: "?a < 1024" "?b < 1024" "0x10000 + ?a * 1024 + ?b = n"
    using False scalar_less [OF assms] by (auto simp: less_mult_imp_div_less)
  show ?thesis
    using surrogate_classes [OF ab(1)] surrogate_classes(3) [OF ab(2)] pair_codepoint [OF ab(1,2)]
      put_codepoint_of_nat [of n] scalar_less [OF assms] False ab(3)
    by (simp add: utf16_of_def del: of_nat_add of_nat_diff)
qed

lemma Suc4: "Suc (Suc (Suc (Suc n))) = n + 4"
  by simp

lemma utf8_len_loop_utf16_of:
  assumes "scalar n"
  shows "utf8_len_loop e (utf16_of n @ us) p False ret =
    utf8_len_loop e us (p + length (utf16_of n)) False (ret + of_nat (length (utf8_of n)))"
proof (cases "n < 0x10000")
  case True
  then show ?thesis
    using unit_classes [OF True assms] by (simp add: utf16_of_def utf8_of_def numeral_3_eq_3)
next
  case False
  let ?a = "(n - 0x10000) div 1024" and ?b = "(n - 0x10000) mod 1024"
  have ab: "?a < 1024" "?b < 1024" using False scalar_less [OF assms] by (auto simp: less_mult_imp_div_less)
  show ?thesis
    using surrogate_classes [OF ab(1)] surrogate_classes(3) [OF ab(2)] False
    by (simp add: utf16_of_def utf8_of_def Suc4 del: of_nat_add of_nat_diff)
qed

lemma utf8_loops_encode:
  assumes "list_all scalar cs"
  shows "utf8_len_loop e (utf16_encode cs) p False ret = Inr (ret + of_nat (length (utf8_encode cs)))"
    "utf8_conv_loop (utf16_encode cs) 0 = utf8_encode cs"
  using assms by (induction cs arbitrary: p ret)
    (simp_all add: utf8_len_loop_utf16_of utf8_conv_loop_utf16_of)

lemma unat_unit: "unat (ch :: guint16) < 0x10000"
  by (rule order.strict_trans2 [OF unsigned_less]) simp

lemma unat_ucast_unit: "unat (ucast (ch :: guint16) :: guint32) = unat ch"
  using unat_unit [of ch] by (simp add: unsigned_ucast_eq take_bit_nat_eq_self)

lemma length_put_unit:
  assumes "\<not> ch < 0x80" "\<not> is_high ch" "\<not> is_low ch"
  shows "length (put_codepoint (ucast ch)) = (if ch < 0x800 then 2 else 3)"
proof -
  have "(ucast ch :: guint32) < 0x10000" "(ucast ch :: guint32) < 0x80 \<longleftrightarrow> ch < 0x80"
    "(ucast ch :: guint32) < 0x800 \<longleftrightarrow> ch < 0x800"
    using unat_unit [of ch] by (simp_all add: word_less_nat_alt unat_ucast_unit)
  then show ?thesis using assms by (simp add: put_codepoint_def)
qed

lemma length_put_pair:
  assumes "is_high s" "is_low ch"
  shows "length (put_codepoint (0x10000 + (ucast ch - 0xDC00) + push_bit 10 (ucast s - 0xD800))) = 4"
proof -
  obtain a b where ab: "s = word_of_nat (0xD800 + a)" "ch = word_of_nat (0xDC00 + b)" "a < 1024" "b < 1024"
  proof
    show "s = word_of_nat (0xD800 + (unat s - 0xD800))" "ch = word_of_nat (0xDC00 + (unat ch - 0xDC00))"
      "unat s - 0xD800 < 1024" "unat ch - 0xDC00 < 1024"
      using assms by (auto simp: is_high_def is_low_def word_le_nat_alt)
  qed
  have "0x10000 + a * 1024 + b < 0x110000" using ab by simp
  then show ?thesis
    unfolding ab(1,2) pair_codepoint [OF ab(3,4)] using put_codepoint_of_nat by (simp add: utf8_of_def del: of_nat_add)
qed

lemma is_high_nonzero: "is_high s \<Longrightarrow> s \<noteq> 0"
  by (auto simp: is_high_def word_le_nat_alt)

lemma small_unit_class: "ch < 0x800 \<Longrightarrow> \<not> is_high ch \<and> \<not> is_low ch"
  by (auto simp: is_high_def is_low_def word_less_nat_alt word_le_nat_alt)

lemma ascii_unit_small: "(ch :: guint16) < 0x80 \<Longrightarrow> ch < 0x800"
  by (simp add: word_less_nat_alt)

lemma utf8_len_loop_exact:
  "s = 0 \<or> is_high s \<Longrightarrow>
    (utf8_len_loop e us p (s \<noteq> 0) ret = Inr n \<longrightarrow> n = ret + of_nat (length (utf8_conv_loop us s))) \<and>
    (\<not> e \<longrightarrow> utf8_len_loop e us p (s \<noteq> 0) ret = Inr (ret + of_nat (length (utf8_conv_loop us s))))"
proof (induction us arbitrary: s p ret)
  case (Cons ch us)
  show ?case
  proof (cases "s = 0")
    case True
    consider (ascii) "ch < 0x80" | (two) "\<not> ch < 0x80" "ch < 0x800" | (high) "\<not> ch < 0x800" "is_high ch"
      | (low) "\<not> ch < 0x800" "\<not> is_high ch" "is_low ch"
      | (three) "\<not> ch < 0x800" "\<not> is_high ch" "\<not> is_low ch" by blast
    then show ?thesis
    proof cases
      case ascii
      then show ?thesis using Cons.IH [of 0 "p + 1" "ret + 1"] True by (simp add: add.assoc)
    next
      case two
      then show ?thesis
        using Cons.IH [of 0 "p + 1" "ret + 2"] True small_unit_class [of ch] length_put_unit [of ch] by (simp add: add.assoc)
    next
      case high
      then show ?thesis
        using Cons.IH [of ch "p + 1" ret] True ascii_unit_small [of ch] is_high_nonzero [of ch] by auto
    next
      case low
      then show ?thesis using Cons.IH [of 0 "p + 1" ret] True ascii_unit_small [of ch] by auto
    next
      case three
      then show ?thesis
        using Cons.IH [of 0 "p + 1" "ret + 3"] True ascii_unit_small [of ch] length_put_unit [of ch] by (auto simp: add.assoc)
    qed
  next
    case False
    then have "is_high s" using Cons.prems by simp
    then show ?thesis
      using Cons.IH [of 0 "p + 1" ret] Cons.IH [of 0 "p + 1" "ret + 4"] False length_put_pair [of s ch]
      by (cases "is_low ch") (auto simp: add.assoc)
  qed
qed simp

text \<open>A unit takes at most three bytes; \<open>s\<close> is the first half of a pair, or 0.\<close>

lemma utf8_conv_loop_bound:
  "s = 0 \<or> is_high s \<Longrightarrow> length (utf8_conv_loop us s) \<le> 3 * length us + (if s = 0 then 0 else 1)"
proof (induction us arbitrary: s)
  case (Cons ch us)
  show ?case
  proof (cases "s = 0")
    case True
    consider (ascii) "ch < 0x80" | (high) "\<not> ch < 0x80" "is_high ch" | (low) "\<not> ch < 0x80" "\<not> is_high ch" "is_low ch"
      | (plain) "\<not> ch < 0x80" "\<not> is_high ch" "\<not> is_low ch" by blast
    then show ?thesis
    proof cases
      case high
      then show ?thesis using Cons.IH [of ch] True is_high_nonzero [of ch] by simp
    next
      case plain
      then show ?thesis using Cons.IH [of 0] True length_put_unit [of ch] by simp
    qed (use Cons.IH [of 0] True in simp_all)
  next
    case False
    then show ?thesis using Cons.IH [of 0] Cons.prems length_put_pair [of s ch] by simp
  qed
qed simp

section \<open>UCS-4\<close>

text \<open>\<open>len\<close> allows \<open>n\<close> units: it is negative, or large enough.\<close>

definition long_enough :: "int \<Rightarrow> nat \<Rightarrow> bool" where
  "long_enough len n \<longleftrightarrow> len < 0 \<or> int n \<le> len"

lemma long_enough_Suc: "long_enough len (Suc n) \<Longrightarrow> long_enough (len - 1) n \<and> len \<noteq> 0"
  by (auto simp: long_enough_def)

lemma ucs4_classes:
  assumes "scalar n" "n \<noteq> 0"
  shows "(word_of_nat n :: guint32) \<noteq> 0" "(word_of_nat n :: guint32) \<le> 0xFFFF \<longleftrightarrow> n < 0x10000"
    "\<not> ((word_of_nat n :: guint32) \<ge> 0xD800 \<and> (word_of_nat n :: guint32) \<le> 0xDFFF)"
    "\<not> (word_of_nat n :: guint32) > 0x10FFFF"
  using assms scalar_less [OF assms(1)]
  by (auto simp: scalar_def word_le_nat_alt word_less_nat_alt unat_of_nat word_unat_eq_iff)

lemma ucs4_len_loop_scalars:
  assumes "list_all scalar cs" "0 \<notin> set cs" "long_enough len (length cs)"
  shows "ucs4_len_loop (map word_of_nat cs @ rest) len p ret =
    ucs4_len_loop rest (len - int (length cs)) (p + length cs) (ret + length (utf16_encode cs))"
  using assms
proof (induction cs arbitrary: len p ret)
  case (Cons c cs)
  then have len: "long_enough (len - 1) (length cs)" "len \<noteq> 0" using long_enough_Suc by auto
  have c: "scalar c" "c \<noteq> 0" using Cons.prems by auto
  show ?case
    using Cons.IH [OF _ _ len(1)] Cons.prems len(2) ucs4_classes [OF c]
    by (auto simp: utf16_of_def algebra_simps)
qed simp

lemma ucs4_conv_loop_scalars:
  assumes "list_all scalar cs" "0 \<notin> set cs" "long_enough len (length cs)"
  shows "ucs4_conv_loop (map word_of_nat cs @ rest) len =
    bindr (ucs4_conv_loop rest (len - int (length cs))) (\<lambda>us. Inr (utf16_encode cs @ us))"
  using assms
proof (induction cs arbitrary: len)
  case Nil
  then show ?case by (cases "ucs4_conv_loop rest len") simp_all
next
  case (Cons c cs)
  then have len: "long_enough (len - 1) (length cs)" "len \<noteq> 0" using long_enough_Suc by auto
  have c: "scalar c" "c \<noteq> 0" using Cons.prems by auto
  note IH = Cons.IH [OF _ _ len(1)] and classes = ucs4_classes [OF c]
  obtain r where r: "ucs4_conv_loop rest (len - int (length (c # cs))) = r" by simp
  then have r': "ucs4_conv_loop rest (len - 1 - int (length cs)) = r" by (simp add: algebra_simps)
  show ?case
  proof (cases "c < 0x10000")
    case True
    then show ?thesis
      using IH Cons.prems len(2) classes r r' by (cases r) (auto simp: utf16_of_def ucast_of_nat_down)
  next
    case False
    have "(word_of_nat c :: guint32) - 0x10000 = word_of_nat (c - 0x10000)" using False by (simp add: of_nat_diff)
    then show ?thesis
      using IH Cons.prems len(2) classes r r' False surrogate_units [of "c - 0x10000"] scalar_less [OF c(1)]
      by (cases r) (simp_all add: utf16_of_def Let_def del: of_nat_diff of_nat_add)
  qed
qed

lemma utf16_pair_exists:
  assumes "scalar n" "\<not> n < 0x10000"
  obtains a b where "utf16_of n = [word_of_nat (0xD800 + a), word_of_nat (0xDC00 + b)]" "a < 1024" "b < 1024"
    "n = 0x10000 + a * 1024 + b"
proof
  show "utf16_of n = [word_of_nat (0xD800 + (n - 0x10000) div 1024), word_of_nat (0xDC00 + (n - 0x10000) mod 1024)]"
    "(n - 0x10000) div 1024 < 1024" "(n - 0x10000) mod 1024 < 1024"
    "n = 0x10000 + (n - 0x10000) div 1024 * 1024 + (n - 0x10000) mod 1024"
    using assms scalar_less [OF assms(1)] by (auto simp: utf16_of_def less_mult_imp_div_less)
qed

lemma long_enough_mono: "long_enough len n \<Longrightarrow> m \<le> n \<Longrightarrow> long_enough len m"
  by (auto simp: long_enough_def)

lemma long_enough_diff: "long_enough len (m + n) \<Longrightarrow> long_enough (len - int m) n"
  by (auto simp: long_enough_def)

lemma utf16_len_loop_encode:
  assumes "list_all scalar cs" "0 \<notin> set cs" "long_enough len (length (utf16_encode cs))"
  shows "utf16_len_loop (utf16_encode cs @ rest) len p ret =
    utf16_len_loop rest (len - int (length (utf16_encode cs))) (p + length (utf16_encode cs)) (ret + length cs)"
  using assms
proof (induction cs arbitrary: len p ret)
  case (Cons c cs)
  have c: "scalar c" "c \<noteq> 0" using Cons.prems by auto
  have IH: "utf16_len_loop (utf16_encode cs @ rest) (len - int (length (utf16_of c))) p' ret' =
      utf16_len_loop rest (len - int (length (utf16_of c)) - int (length (utf16_encode cs)))
        (p' + length (utf16_encode cs)) (ret' + length cs)" for p' ret'
    using Cons.IH Cons.prems long_enough_diff by simp
  show ?case
  proof (cases "c < 0x10000")
    case True
    then have "len \<noteq> 0" using Cons.prems(3) by (auto simp: long_enough_def utf16_of_def)
    then show ?thesis using IH unit_classes [OF True c(1)] c(2) True by (simp add: utf16_of_def algebra_simps)
  next
    case False
    obtain a b where ab: "utf16_of c = [word_of_nat (0xD800 + a), word_of_nat (0xDC00 + b)]" "a < 1024" "b < 1024"
      using utf16_pair_exists [OF c(1) False] .
    then have "len \<noteq> 0" "len \<noteq> 1" using Cons.prems(3) by (auto simp: long_enough_def)
    then show ?thesis
      using IH [of "p + 2" "ret + 1"] ab(1) surrogate_classes [OF ab(2)] surrogate_classes(3) [OF ab(3)]
      by (simp add: algebra_simps del: of_nat_add)
  qed
qed simp

lemma pair_codepoint':
  assumes "a < 1024" "b < 1024"
  shows "push_bit 10 ((ucast (word_of_nat (0xD800 + a) :: guint16) :: guint32) - 0xD800) +
    ((ucast (word_of_nat (0xDC00 + b) :: guint16) :: guint32) - 0xDC00) + 0x10000 = word_of_nat (0x10000 + a * 1024 + b)"
  using pair_codepoint [OF assms] by (simp only: ac_simps)

lemma utf16_conv_loop_encode:
  assumes "list_all scalar cs" "0 \<notin> set cs"
  shows "utf16_conv_loop (utf16_encode cs @ u # rest) (length cs) = Inr (map word_of_nat cs)"
  using assms
proof (induction cs)
  case (Cons c cs)
  have c: "scalar c" "c \<noteq> 0" using Cons.prems by auto
  show ?case
  proof (cases "c < 0x10000")
    case True
    then show ?thesis using Cons unit_classes [OF True c(1)] c(2) by (simp add: utf16_of_def)
  next
    case False
    obtain a b where ab: "utf16_of c = [word_of_nat (0xD800 + a), word_of_nat (0xDC00 + b)]" "a < 1024" "b < 1024"
      "c = 0x10000 + a * 1024 + b"
      using utf16_pair_exists [OF c(1) False] .
    then show ?thesis
      using Cons.IH Cons.prems surrogate_classes [OF ab(2)] pair_codepoint' [OF ab(2,3)]
      by (simp del: of_nat_add add: ab(1))
  qed
qed simp

lemma utf8_of_nonzero: "n \<noteq> 0 \<Longrightarrow> n < 0x110000 \<Longrightarrow> 0 \<notin> set (utf8_of n)"
  by (auto simp: utf8_of_def word_unat_eq_iff unat_of_nat simp del: of_nat_add)

lemma utf8_encode_nonzero: "list_all scalar cs \<Longrightarrow> 0 \<notin> set cs \<Longrightarrow> 0 \<notin> set (utf8_encode cs)"
  by (induction cs) (auto simp: utf8_of_nonzero scalar_less)

lemma utf16_of_nonzero: "n \<noteq> 0 \<Longrightarrow> scalar n \<Longrightarrow> 0 \<notin> set (utf16_of n)"
  by (auto simp: utf16_of_def scalar_def word_unat_eq_iff unat_of_nat less_mult_imp_div_less simp del: of_nat_add)

end
