(* ===== verification/Utf_Conv_Spec.thy ===== *)
theory Utf_Conv_Spec
  imports Utf_Conv_Proofs
begin

unbundle bit_operations_syntax

text \<open>
  The properties of the string conversions: on text in a well-formed encoding they produce the
  other encoding of the same text; which inputs overrun the buffer that the counting pass
  computed; which inputs are refused.
\<close>

section \<open>Conversions in two passes\<close>

text \<open>
  A conversion that counts, allocates and writes.  It stays inside its buffer when what it writes
  is what it counted.
\<close>

definition two_pass :: "('i list \<Rightarrow> (convert_error \<times> nat) + nat) \<Rightarrow> ('i list \<Rightarrow> 'o list) \<Rightarrow>
    'i list \<Rightarrow> 'o conversion res" where
  "two_pass count emit us =
    (case count us of
       Inl (e, pos) \<Rightarrow> Inr (Failed e pos)
     | Inr n \<Rightarrow> guardr (length (emit us) \<le> n) Out_of_bounds
         (Inr (Converted (emit us) (length us) (length (emit us)))))"

locale exact_count =
  fixes count :: "'i list \<Rightarrow> (convert_error \<times> nat) + nat"
    and emit :: "'i list \<Rightarrow> 'o list"
  assumes counted: "count us = Inr n \<Longrightarrow> length (emit us) = n"
begin

lemma never_overruns: "two_pass count emit us =
    (case count us of Inl (e, pos) \<Rightarrow> Inr (Failed e pos)
     | Inr n \<Rightarrow> Inr (Converted (emit us) (length us) n))"
  using counted [of us] by (auto simp: two_pass_def split: sum.splits)

lemma returns: "\<exists>r. two_pass count emit us = Inr r"
  by (cases "count us") (auto simp: never_overruns)

end

lemma g_utf8_to_utf16_two_pass:
  "g_utf8_to_utf16 e str len =
    two_pass (\<lambda>bs. len_loop e bs 0 0 0 0 0) (\<lambda>bs. conv_loop bs 0 0 0) (input_units str len)"
  by (simp add: g_utf8_to_utf16_loop two_pass_def Let_def)

text \<open>The conversion to UTF-8 in terms of the number \<open>n\<close> of bytes that it writes.\<close>

definition utf8_outcome :: "guint16 list \<Rightarrow> guint8 conversion res" where
  "utf8_outcome us =
    (let bs = utf8_conv_loop us 0; n = length bs in
     if n < 2 ^ 31 - 1 then Inr (Converted bs (length us) n)
     else if n mod 2 ^ 32 = 2 ^ 31 - 1 then Inl Int_overflow
     else if 2 ^ 31 \<le> n mod 2 ^ 32 then Inr (No_result (length us))
     else Inl Out_of_bounds)"

lemma sint_of_nat: "sint (of_nat n :: glong) =
    (if n mod 2 ^ 32 < 2 ^ 31 then int (n mod 2 ^ 32) else int (n mod 2 ^ 32) - 2 ^ 32)"
proof -
  define k where "k = n mod 2 ^ 32"
  have k: "k < 2 ^ 32" by (simp add: k_def)
  have "uint (of_nat n :: glong) = int k" by (simp add: unsigned_of_nat take_bit_eq_mod k_def)
  then have s: "sint (of_nat n :: glong) = signed_take_bit 31 (int k)" by (simp add: sint_uint)
  show ?thesis
  proof (cases "k < 2 ^ 31")
    case True
    then have "signed_take_bit 31 (int k) = int k" by (simp add: signed_take_bit_int_eq_self_iff)
    then show ?thesis using s True by (simp add: k_def)
  next
    case False
    have "take_bit (Suc 31) (int k) = take_bit (Suc 31) (int k - 2 ^ 32)" by (simp add: take_bit_eq_mod)
    then have "signed_take_bit 31 (int k) = signed_take_bit 31 (int k - 2 ^ 32)"
      by (simp only: signed_take_bit_eq_iff_take_bit_eq)
    also have "\<dots> = int k - 2 ^ 32" using False k by (simp add: signed_take_bit_int_eq_self_iff)
    finally show ?thesis using s False by (simp add: k_def)
  qed
qed

lemma counted_outcome:
  assumes "n = length (utf8_conv_loop us 0)"
  shows "(if sint (of_nat n :: glong) < 0 then Inr (No_result (length us))
     else guardr (1 + sint (of_nat n :: glong) < 2 ^ 31) Int_overflow
       (guardr (int n \<le> sint (of_nat n :: glong)) Out_of_bounds (Inr (Converted (utf8_conv_loop us 0) (length us) n)))) =
    utf8_outcome us"
proof -
  define k where "k = n mod 2 ^ 32"
  have k: "k < 2 ^ 32" "k \<le> n" "n < 2 ^ 31 - 1 \<Longrightarrow> k = n" "int n \<le> int k \<Longrightarrow> k = n" by (simp_all add: k_def)
  have o: "utf8_outcome us = (if n < 2 ^ 31 - 1 then Inr (Converted (utf8_conv_loop us 0) (length us) n)
     else if k = 2 ^ 31 - 1 then Inl Int_overflow else if 2 ^ 31 \<le> k then Inr (No_result (length us)) else Inl Out_of_bounds)"
    unfolding utf8_outcome_def Let_def k_def assms ..
  have s: "sint (of_nat n :: glong) = (if k < 2 ^ 31 then int k else int k - 2 ^ 32)"
    unfolding k_def by (rule sint_of_nat)
  consider "n < 2 ^ 31 - 1" | "\<not> n < 2 ^ 31 - 1" "k < 2 ^ 31 - 1" | "\<not> n < 2 ^ 31 - 1" "k = 2 ^ 31 - 1" | "2 ^ 31 \<le> k" by linarith
  then show ?thesis
  proof cases
    case 1
    then have "k = n" by (rule k(3))
    then show ?thesis using 1 by (simp add: o s guardr_def)
  next
    case 2
    then have "k \<noteq> n" by auto
    then have "\<not> int n \<le> int k" using k(4) by blast
    then show ?thesis using 2 by (simp add: o s guardr_def)
  next
    case 3
    then show ?thesis by (simp add: o s guardr_def)
  next
    case 4
    then have "\<not> n < 2 ^ 31 - 1" using k(2) by linarith
    moreover have "\<not> k < 2 ^ 31" "k \<noteq> 2 ^ 31 - 1" using 4 by simp_all
    moreover have "int k - 2 ^ 32 < 0" using k(1) by simp
    ultimately show ?thesis using 4 by (simp only: o s if_True if_False)
  qed
qed

lemma g_utf16_to_utf8_outcome:
  "g_utf16_to_utf8 e str len =
    (case utf16_to_utf8_len e (input_units str len) of Inl (er, pos) \<Rightarrow> Inr (Failed er pos)
     | Inr n \<Rightarrow> utf8_outcome (input_units str len))"
proof (cases "utf16_to_utf8_len e (input_units str len)")
  case (Inr n)
  then have n: "n = of_nat (length (utf8_conv_loop (input_units str len) 0))"
    using utf8_len_loop_exact [of 0 e "input_units str len" 0 0 n] by (simp add: utf16_to_utf8_len_def)
  show ?thesis
    unfolding g_utf16_to_utf8_def Let_def Inr sum.case n counted_outcome [OF refl] ..
qed (auto simp: g_utf16_to_utf8_def Let_def)

interpretation checked_utf8: exact_count "\<lambda>bs. len_loop True bs 0 0 0 0 0" "\<lambda>bs. conv_loop bs 0 0 0"
  by unfold_locales (use len_loop_checked in fastforce)

section \<open>Transcoding\<close>

text \<open>
  A conversion between two encodings of the same abstract text, and what two opposite ones give
  together.
\<close>

locale transcoder =
  fixes valid :: "'t \<Rightarrow> bool"
    and src :: "'t \<Rightarrow> 'a list"
    and dst :: "'t \<Rightarrow> 'b list"
    and conv :: "'a list \<Rightarrow> 'b list option"
  assumes transcodes: "valid t \<Longrightarrow> conv (src t) = Some (dst t)"

locale transcoder_pair = fwd: transcoder valid a b f + bwd: transcoder valid b a g
  for valid :: "'t \<Rightarrow> bool" and a :: "'t \<Rightarrow> 'a list" and b :: "'t \<Rightarrow> 'b list" and f g
begin

lemma round_trip: "valid t \<Longrightarrow> Option.bind (f (a t)) g = Some (a t)"
  by (simp add: fwd.transcodes bwd.transcodes)

lemma round_trip_back: "valid t \<Longrightarrow> Option.bind (g (b t)) f = Some (b t)"
  by (simp add: fwd.transcodes bwd.transcodes)

end

fun result_units :: "'a conversion res \<Rightarrow> 'a list option" where
  "result_units (Inr (Converted us r w)) = Some us"
| "result_units _ = None"

lemma input_units_exact [simp]: "input_units (us @ rest) (int (length us)) = us"
  by (simp add: input_units_def)

lemma input_units_all [simp]: "input_units us (int (length us)) = us"
  by (simp add: input_units_def)

lemma g_utf8_to_utf16_encoded:
  assumes "list_all scalar cs" "input_units str len = utf8_encode cs"
  shows "g_utf8_to_utf16 e str len =
    Inr (Converted (utf16_encode cs) (length (utf8_encode cs)) (length (utf16_encode cs)))"
  using assms loops_utf8_encode(1) [OF assms(1), of e 0 0] loops_utf8_encode(2) [OF assms(1)]
  by (simp add: g_utf8_to_utf16_two_pass two_pass_def)

text \<open>The size of a result with its final zero fits a \<open>glong\<close>.\<close>

definition fits_glong :: "'a list \<Rightarrow> bool" where
  "fits_glong xs \<longleftrightarrow> length xs + 1 < 2 ^ 31"

lemma g_utf16_to_utf8_encoded:
  assumes "list_all scalar cs" "input_units str len = utf16_encode cs" "fits_glong (utf8_encode cs)"
  shows "g_utf16_to_utf8 e str len =
    Inr (Converted (utf8_encode cs) (length (utf16_encode cs)) (length (utf8_encode cs)))"
  using assms utf8_loops_encode(1) [OF assms(1), of e 0 0] utf8_loops_encode(2) [OF assms(1)]
  by (simp add: g_utf16_to_utf8_outcome utf8_outcome_def fits_glong_def utf16_to_utf8_len_def Let_def)

lemma g_ucs4_to_utf16_encoded:
  assumes "list_all scalar cs" "0 \<notin> set cs" "long_enough len (length cs)" "fits_glong (utf16_encode cs)"
  shows "g_ucs4_to_utf16 (Some (map word_of_nat cs @ 0 # rest)) len =
    Inr (Converted (utf16_encode cs) (length cs) (length (utf16_encode cs)))"
  using ucs4_len_loop_scalars [OF assms(1-3), of "0 # rest" 0 0] ucs4_conv_loop_scalars [OF assms(1-3), of "0 # rest"] assms(4)
  by (simp add: g_ucs4_to_utf16_def g_ucs4_to_utf16_len_def fits_glong_def)

lemma g_utf16_to_ucs4_encoded:
  assumes "list_all scalar cs" "0 \<notin> set cs" "long_enough len (length (utf16_encode cs))"
  shows "g_utf16_to_ucs4 (Some (utf16_encode cs @ 0 # rest)) len =
    Inr (Converted (map word_of_nat cs) (length (utf16_encode cs)) (length cs))"
  using utf16_len_loop_encode [OF assms, of "0 # rest" 0 0] utf16_conv_loop_encode [OF assms(1,2), of 0 rest]
  by (simp add: g_utf16_to_ucs4_def g_utf16_to_ucs4_len_def)

interpretation utf8_utf16: transcoder_pair "\<lambda>cs. list_all scalar cs \<and> fits_glong (utf8_encode cs)" utf8_encode utf16_encode
  "\<lambda>bs. result_units (g_utf8_to_utf16 e bs (int (length bs)))"
  "\<lambda>us. result_units (g_utf16_to_utf8 e' us (int (length us)))" for e e'
  by unfold_locales (elim conjE, simp add: g_utf8_to_utf16_encoded g_utf16_to_utf8_encoded)+

definition nonzero_text :: "nat list \<Rightarrow> bool" where
  "nonzero_text cs \<longleftrightarrow> list_all scalar cs \<and> 0 \<notin> set cs"

interpretation ucs4_utf16: transcoder_pair "\<lambda>cs. nonzero_text cs \<and> fits_glong (utf16_encode cs)" "map word_of_nat" utf16_encode
  "\<lambda>cs. result_units (g_ucs4_to_utf16 (Some (cs @ [0])) (int (length cs)))"
  "\<lambda>us. result_units (g_utf16_to_ucs4 (Some (us @ [0])) (int (length us)))"
  by unfold_locales (elim conjE, simp add: nonzero_text_def g_ucs4_to_utf16_encoded g_utf16_to_ucs4_encoded long_enough_def)+

section \<open>Properties\<close>

text \<open>
  C28.  Well-formed UTF-8 of any text is converted to the UTF-16 of the same text, with the right
  counts of units read and written, whether or not the caller passes a place for an error.
\<close>

theorem g_utf8_to_utf16_correct:
  assumes "list_all scalar cs"
  shows "g_utf8_to_utf16 has_error (utf8_encode cs @ rest) (int (length (utf8_encode cs))) =
    Inr (Converted (utf16_encode cs) (length (utf8_encode cs)) (length (utf16_encode cs)))"
  by (rule g_utf8_to_utf16_encoded [OF assms]) simp

theorem g_utf8_to_utf16_correct_witness:
  "g_utf8_to_utf16 False ([0x41, 0xC3, 0xA9, 0xF0, 0x9F, 0x98, 0x80] @ [0]) 7 =
    Inr (Converted [0x41, 0xE9, 0xD83D, 0xDE00] 7 4)"
  using g_utf8_to_utf16_correct [of "[0x41, 0xE9, 0x1F600]" False "[0]"]
  by (simp add: scalar_def utf8_of_def utf16_of_def)

text \<open>
  C30.  With a place for the error, the conversion from UTF-8 never leaves its buffer, on any
  bytes: it fails with an error or it writes exactly as many units as it counted.
\<close>

theorem checked_utf8_stays_in_buffer:
  "(\<exists>er pos. g_utf8_to_utf16 True str len = Inr (Failed er pos)) \<or>
   (\<exists>us n. utf8_to_utf16_len True (input_units str len) = Inr n \<and> length us = n \<and>
      g_utf8_to_utf16 True str len = Inr (Converted us (length (input_units str len)) n))"
proof (cases "len_loop True (input_units str len) 0 0 0 0 0")
  case (Inl a)
  then show ?thesis by (cases a) (simp add: g_utf8_to_utf16_two_pass checked_utf8.never_overruns)
next
  case (Inr n)
  then show ?thesis
    using checked_utf8.counted [OF Inr]
    by (simp add: g_utf8_to_utf16_two_pass checked_utf8.never_overruns utf8_to_utf16_len_loop)
qed

text \<open>
  C31.  Without a place for the error, which is how \<open>u8to16\<close> calls it, the conversion writes past
  the end of its buffer exactly when the input has a character that the code's own test for overlong
  forms flags: such a character is not counted but is written.  The two bytes C0 80 are such an
  input.  The test compares with \<open>0x7F\<close>, \<open>0x7FF\<close> and \<open>0xFFFF\<close> by \<open><\<close>, so the overlong forms C1 BF,
  E0 9F BF and F0 8F BF BF of these three code points are not flagged and overrun nothing.
\<close>

theorem unchecked_utf8_overruns_iff:
  "(g_utf8_to_utf16 False str len = Inl Out_of_bounds \<longleftrightarrow> 0 < flagged_overlongs (input_units str len) 0 0 0) \<and>
   u8to16 [0xC0, 0x80, 0] = Inl Out_of_bounds"
proof
  obtain n where n: "len_loop False (input_units str len) 0 0 0 0 0 = Inr n"
    "n + flagged_overlongs (input_units str len) 0 0 0 = length (conv_loop (input_units str len) 0 0 0)"
    using len_loop_lenient [of "input_units str len" 0 0 0 0 0] by auto
  then show "g_utf8_to_utf16 False str len = Inl Out_of_bounds \<longleftrightarrow> 0 < flagged_overlongs (input_units str len) 0 0 0"
    by (auto simp: g_utf8_to_utf16_two_pass two_pass_def guardr_def)
  show "u8to16 [0xC0, 0x80, 0] = Inl Out_of_bounds"
    by (simp add: u8to16_def g_utf8_to_utf16_def utf8_to_utf16_len_def input_units_def lead_byte_def overlong_def
        guardr_def Let_def)
qed

text \<open>
  The pass over the leading bytes below 0x80 is an optimisation only: the count and the
  converted units are those of the general loops run from the start of the input.
\<close>

theorem ascii_fast_path_equivalent:
  "utf8_to_utf16_len has_error bs = len_loop has_error bs 0 0 0 0 0 \<and>
   map ucast (take (ascii_prefix bs) bs) @ conv_loop (drop (ascii_prefix bs) bs) 0 0 0 = conv_loop bs 0 0 0"
  by (simp add: utf8_to_utf16_len_loop ascii_prefix_conv)

text \<open>
  The test for overlong characters misses the last code point of each shorter form: the
  two-byte form of U+007F, the three-byte form of U+07FF and the four-byte form of U+FFFF are
  accepted also when errors are reported.
\<close>

theorem overlong_boundary_accepted:
  "utf8_to_utf16_len True [0xC1, 0xBF] = Inr 1 \<and> utf8_to_utf16_len True [0xE0, 0x9F, 0xBF] = Inr 1 \<and>
   utf8_to_utf16_len True [0xF0, 0x8F, 0xBF, 0xBF] = Inr 1"
  by (simp add: utf8_to_utf16_len_def lead_byte_def overlong_def Let_def)

text \<open>
  C32.  When the conversion from UTF-16 to UTF-8 leaves its buffer.  Its count is a \<open>glong\<close>, so what
  happens depends on the number \<open>n\<close> of bytes that the input takes in UTF-8.  Below \<open>2 ^ 31 - 1\<close> the
  buffer is large enough, and the conversion yields these bytes or, with a place for the error, an
  error; in particular this holds for every input of fewer than 715827882 units.  A larger \<open>n\<close> wraps:
  the size of the buffer overflows when the wrapped count is \<open>2 ^ 31 - 1\<close>, the result is a null pointer when the
  count is negative, and otherwise the conversion writes past the end of its buffer.
\<close>

theorem g_utf16_to_utf8_overruns_iff:
  assumes "us = input_units str len" and "n = length (utf8_conv_loop us 0)"
  shows "(has_error \<and> (\<exists>er pos. g_utf16_to_utf8 has_error str len = Inr (Failed er pos)) \<or>
      g_utf16_to_utf8 has_error str len =
        (if n < 2 ^ 31 - 1 then Inr (Converted (utf8_conv_loop us 0) (length us) n)
         else if n mod 2 ^ 32 = 2 ^ 31 - 1 then Inl Int_overflow
         else if 2 ^ 31 \<le> n mod 2 ^ 32 then Inr (No_result (length us))
         else Inl Out_of_bounds)) \<and>
    (length us < 715827882 \<longrightarrow> n < 2 ^ 31 - 1)"
proof -
  have o: "utf8_outcome us = (if n < 2 ^ 31 - 1 then Inr (Converted (utf8_conv_loop us 0) (length us) n)
     else if n mod 2 ^ 32 = 2 ^ 31 - 1 then Inl Int_overflow
     else if 2 ^ 31 \<le> n mod 2 ^ 32 then Inr (No_result (length us)) else Inl Out_of_bounds)"
    unfolding utf8_outcome_def Let_def assms(2) ..
  have "n \<le> 3 * length us" using utf8_conv_loop_bound [of 0 us] assms(2) by simp
  then have "length us < 715827882 \<longrightarrow> n < 2 ^ 31 - 1" by simp
  moreover have "has_error \<and> (\<exists>er pos. g_utf16_to_utf8 has_error str len = Inr (Failed er pos)) \<or>
      g_utf16_to_utf8 has_error str len = utf8_outcome us"
  proof (cases "utf16_to_utf8_len has_error us")
    case (Inl x)
    then have has_error using utf8_len_loop_exact [of 0 has_error us 0 0] by (cases has_error) (auto simp: utf16_to_utf8_len_def)
    then show ?thesis using Inl by (cases x) (simp add: g_utf16_to_utf8_outcome assms(1))
  next
    case (Inr m)
    then show ?thesis by (simp add: g_utf16_to_utf8_outcome assms(1))
  qed
  ultimately show ?thesis unfolding o by blast
qed

lemma three_bytes_each: "length (utf8_conv_loop (replicate k 0x0800) 0) = 3 * k"
proof (induction k)
  case (Suc k)
  have "\<not> (0x0800 :: guint16) < 0x80" "\<not> is_high 0x0800" "\<not> is_low 0x0800" by (simp_all add: is_high_def is_low_def)
  then show ?case using Suc length_put_unit [of "0x0800"] by simp
qed simp

theorem g_utf16_to_utf8_overruns_iff_witness:
  "g_utf16_to_utf8 False (replicate 1431655766 0x0800) 1431655766 = Inl Out_of_bounds"
proof -
  define k :: nat where "k = 1431655766"
  have "replicate k 0x0800 = input_units (replicate k (0x0800 :: guint16)) (int k)"
    using input_units_all [of "replicate k (0x0800 :: guint16)"] by simp
  from g_utf16_to_utf8_overruns_iff [OF this three_bytes_each [symmetric], of False]
  have "g_utf16_to_utf8 False (replicate k 0x0800) (int k) = Inl Out_of_bounds" by (simp add: k_def)
  then show ?thesis by (simp add: k_def)
qed

text \<open>
  C29.  UTF-8 to UTF-16 and back is the identity on well-formed text, in both directions and with
  or without a place for errors, when the size of the UTF-8 text fits a \<open>glong\<close>.
\<close>

theorem utf8_utf16_round_trip:
  assumes "list_all scalar cs" "fits_glong (utf8_encode cs)"
  shows "Option.bind (result_units (g_utf8_to_utf16 e (utf8_encode cs) (int (length (utf8_encode cs)))))
      (\<lambda>us. result_units (g_utf16_to_utf8 e' us (int (length us)))) = Some (utf8_encode cs) \<and>
    Option.bind (result_units (g_utf16_to_utf8 e' (utf16_encode cs) (int (length (utf16_encode cs)))))
      (\<lambda>bs. result_units (g_utf8_to_utf16 e bs (int (length bs)))) = Some (utf16_encode cs)"
  using utf8_utf16.round_trip [of cs] utf8_utf16.round_trip_back [of cs] assms by blast

theorem utf8_utf16_round_trip_witness:
  "Option.bind (result_units (g_utf8_to_utf16 True [0xC3, 0xA9, 0x21] 3))
      (\<lambda>us. result_units (g_utf16_to_utf8 True us (int (length us)))) = Some [0xC3, 0xA9, 0x21]"
  using utf8_utf16_round_trip [of "[0xE9, 0x21]" True True] by (simp add: scalar_def utf8_of_def fits_glong_def)

text \<open>
  UCS-4 to UTF-16 and back is the identity on text without zero characters, given as
  zero-terminated memory.
\<close>

theorem ucs4_utf16_round_trip:
  assumes "nonzero_text cs" "fits_glong (utf16_encode cs)"
  shows "Option.bind (result_units (g_ucs4_to_utf16 (Some (map word_of_nat cs @ [0])) (int (length cs))))
      (\<lambda>us. result_units (g_utf16_to_ucs4 (Some (us @ [0])) (int (length us)))) = Some (map word_of_nat cs)"
  using ucs4_utf16.round_trip [of cs] assms by simp

theorem ucs4_utf16_round_trip_witness:
  "Option.bind (result_units (g_ucs4_to_utf16 (Some [0x41, 0x1F600, 0]) 2))
      (\<lambda>us. result_units (g_utf16_to_ucs4 (Some (us @ [0])) (int (length us)))) = Some [0x41, 0x1F600]"
  using ucs4_utf16_round_trip [of "[0x41, 0x1F600]"] by (simp add: nonzero_text_def scalar_def utf16_of_def fits_glong_def)

text \<open>
  The conversion from UCS-4 refuses the first surrogate or out-of-range value and reports
  its index.
\<close>

theorem g_ucs4_to_utf16_refuses:
  assumes "nonzero_text cs" and "long_enough len (Suc (length cs))"
    and "0xD800 \<le> c \<and> c \<le> 0xDFFF \<or> 0x10FFFF < c"
  shows "g_ucs4_to_utf16 (Some (map word_of_nat cs @ c # rest)) len =
    Inr (Failed (if 0x10FFFF < c then Out_of_range else Invalid_sequence) (length cs))"
proof -
  have "len - int (length cs) \<noteq> 0" using assms(2) by (auto simp: long_enough_def)
  moreover have "c \<noteq> 0" using assms(3) by auto
  moreover have "c \<le> 0xFFFF \<longleftrightarrow> \<not> 0x10FFFF < c" using assms(3) by (auto simp: word_le_nat_alt word_less_nat_alt)
  moreover have "ucs4_len_loop (map word_of_nat cs @ c # rest) len 0 0 =
      ucs4_len_loop (c # rest) (len - int (length cs)) (length cs) (length (utf16_encode cs))"
    using ucs4_len_loop_scalars [of cs len "c # rest" 0 0] assms(1,2) long_enough_mono [of len]
    by (simp add: nonzero_text_def)
  ultimately show ?thesis
    using assms(3) by (auto simp: g_ucs4_to_utf16_def g_ucs4_to_utf16_len_def)
qed

theorem g_ucs4_to_utf16_refuses_witness:
  "g_ucs4_to_utf16 (Some [0x41, 0xD801, 0x42, 0]) (-1) = Inr (Failed Invalid_sequence 1)"
  using g_ucs4_to_utf16_refuses [of "[0x41]" "-1" "0xD801" "[0x42, 0]"]
  by (simp add: nonzero_text_def scalar_def long_enough_def)

end
