(* ===== verification/Profiler_Spec.thy ===== *)
theory Profiler_Spec
  imports Profiler
begin

unbundle bit_operations_syntax

text \<open>
  Invariants and properties of the profiler interface: the global event mask is the union of
  the masks of all profilers after any sequence of operations, so that testing it before a report
  loses no call; a registration touches the newest profiler only; the switch of the load events;
  the coverage records.
\<close>

section \<open>The global mask guards the reports\<close>

text \<open>
  The runtime tests the global mask before it reports an event.  The interface says what makes
  that test sound: when a bit of the mask is clear, no subscriber wants it.
\<close>

locale guarded_report =
  fixes inv :: "'s \<Rightarrow> bool"
    and mask :: "'s \<Rightarrow> guint32"
    and report :: "guint32 \<Rightarrow> 'b \<Rightarrow> 's \<Rightarrow> 'c list"
  assumes silent: "inv s \<Longrightarrow> mask s AND flag = 0 \<Longrightarrow> report flag body s = []"
begin

lemma guard_transparent:
  "inv s \<Longrightarrow> (if mask s AND flag \<noteq> 0 then report flag body s else []) = report flag body s"
  using silent by simp

lemma some_call_needs_bit: "inv s \<Longrightarrow> c \<in> set (report flag body s) \<Longrightarrow> mask s AND flag \<noteq> 0"
  using silent by fastforce

end

definition masks_ok :: "'f Profilers \<Rightarrow> bool" where
  "masks_ok st \<longleftrightarrow> mono_profiler_events st = or_events 0 (prof_list st)"

definition report_body :: "MonoProfileFlags \<Rightarrow> ('f ProfilerDesc \<Rightarrow> 'f call list) \<Rightarrow> 'f Profilers \<Rightarrow> 'f call list" where
  "report_body flag body st = walk (\<lambda>d. if enabled flag d then body d else []) (prof_list st)"

lemma bit_or_events: "bit (or_events v ds) n \<longleftrightarrow> bit v n \<or> (\<exists>d \<in> set ds. bit (events d) n)"
  by (induction ds arbitrary: v) (auto simp: bit_or_iff)

lemma bit_or_events_map:
  "bit (or_events v (map g ds)) n \<longleftrightarrow> bit v n \<or> (\<exists>d \<in> set ds. bit (events (g d)) n)"
  by (induction ds arbitrary: v) (auto simp: bit_or_iff)

lemma or_events_silent:
  assumes "or_events v ds AND flag = 0" "d \<in> set ds"
  shows "events d AND flag = 0"
proof (rule bit_eqI)
  fix n
  have "\<not> bit (or_events v ds AND flag) n" using assms(1) by simp
  then show "bit (events d AND flag) n \<longleftrightarrow> bit 0 n"
    using assms(2) by (auto simp: bit_or_events bit_and_iff)
qed

lemma walk_empty: "(\<And>d. d \<in> set ds \<Longrightarrow> body d = []) \<Longrightarrow> walk body ds = []"
  by (induction ds) auto

lemma walk_concat: "walk body ds = concat (map body ds)"
  by (induction ds) auto

interpretation reports: guarded_report masks_ok mono_profiler_events report_body
proof unfold_locales
  fix st :: "'f Profilers" and flag and body :: "'f ProfilerDesc \<Rightarrow> 'f call list"
  assume "masks_ok st" "mono_profiler_events st AND flag = 0"
  then have "\<not> enabled flag d" if "d \<in> set (prof_list st)" for d
    using or_events_silent [OF _ that] by (simp add: masks_ok_def enabled_def)
  then show "report_body flag body st = []" by (simp add: report_body_def walk_empty)
qed

lemma notify_report: "notify flag sel args st = report_body flag (fire sel args) st"
  by (simp add: notify_def report_body_def)

section \<open>Sequences of operations\<close>

lemma or_events_set_matching:
  "set_matching p ev v ds = (ds', v') \<Longrightarrow> v' = or_events v ds'"
  by (induction p ev v ds arbitrary: ds' v' rule: set_matching.induct)
    (auto simp: Let_def split: prod.splits)

lemma set_matching_map:
  "fst (set_matching p ev v ds) = map (\<lambda>d. if profiler d = p then d\<lparr>events := ev\<rparr> else d) ds"
  by (induction p ev v ds rule: set_matching.induct) (auto simp: Let_def split: prod.splits)

definition keeps_events :: "('f ProfilerDesc \<Rightarrow> 'f ProfilerDesc) \<Rightarrow> bool" where
  "keeps_events f \<longleftrightarrow> (\<forall>d. events (f d) = events d \<and> profiler (f d) = profiler d)"

definition chain_ok :: "'f ProfilerDesc \<Rightarrow> bool" where
  "chain_ok d \<longleftrightarrow> statistical_call_chain_depth d \<le> MONO_PROFILER_MAX_STAT_CALL_CHAIN_DEPTH \<and>
    MONO_PROFILER_CALL_CHAIN_NONE \<le> statistical_call_chain_strategy d \<and>
    statistical_call_chain_strategy d < MONO_PROFILER_CALL_CHAIN_INVALID"

text \<open>
  Every registration writes, through \<open>registered\<close>, a function that keeps the profiler and its
  mask and does not leave the range of the call-chain settings.
\<close>

definition registration :: "('f Profilers \<Rightarrow> 'f Profilers) \<Rightarrow> bool" where
  "registration g \<longleftrightarrow> (\<exists>f h. keeps_events f \<and> (\<forall>d. chain_ok d \<longrightarrow> chain_ok (f d)) \<and>
     (\<forall>st. g st = registered f (st\<lparr>gc_events_on := h st\<rparr>)))"

lemma registrationI:
  assumes "\<And>d. events (f d) = events d \<and> profiler (f d) = profiler d"
    and "\<And>d. chain_ok d \<Longrightarrow> chain_ok (f d)"
    and "\<And>st. g st = registered f (st\<lparr>gc_events_on := h st\<rparr>)"
  shows "registration g"
  unfolding registration_def keeps_events_def using assms by blast

lemma registered_registration:
  assumes "\<And>d. events (f d) = events d \<and> profiler (f d) = profiler d"
    and "\<And>d. chain_ok d \<Longrightarrow> chain_ok (f d)"
  shows "registration (registered f)"
  by (rule registrationI [of f _ gc_events_on]) (use assms in simp_all)

definition plain_op :: "'f profiler_op \<Rightarrow> bool" where
  "plain_op x \<longleftrightarrow> (\<forall>p a. x \<noteq> Install p a) \<and> (\<forall>ev. x \<noteq> Set_events ev) \<and>
     (\<forall>p ev. x \<noteq> Set_profiler_events p ev)"

lemma stat_registration: "registration (mono_profiler_install_statistical_call_chain f n s)"
  unfolding mono_profiler_install_statistical_call_chain_def Let_def
  by (rule registered_registration)
    (auto simp: chain_ok_def MONO_PROFILER_MAX_STAT_CALL_CHAIN_DEPTH_def
      MONO_PROFILER_CALL_CHAIN_INVALID_def MONO_PROFILER_CALL_CHAIN_NONE_def)

lemma gc_registration: "registration (mono_profiler_install_gc f g)"
  by (rule registrationI [of "\<lambda>d. d\<lparr>gc_event := f, gc_heap_resize := g\<rparr>" _ "\<lambda>_. True"])
    (simp_all add: mono_profiler_install_gc_def chain_ok_def)

lemma plain_op_registration: "plain_op x \<Longrightarrow> registration (exec_op x)"
  by (cases x) (simp_all add: plain_op_def, (rule stat_registration gc_registration |
      (simp add: install_defs; rule registered_registration; simp add: chain_ok_def))+)

lemma registration_cases:
  assumes "registration g"
  obtains f h where "g st = registered f (st\<lparr>gc_events_on := h\<rparr>)"
    "\<And>d. events (f d) = events d \<and> profiler (f d) = profiler d" "\<And>d. chain_ok d \<Longrightarrow> chain_ok (f d)"
  using assms unfolding registration_def keeps_events_def by metis

lemma profiler_op_cases:
  obtains (install) p a where "x = Install p a" | (set_events) ev where "x = Set_events ev"
    | (set_profiler) p ev where "x = Set_profiler_events p ev" | (plain) "plain_op x"
  unfolding plain_op_def by blast

lemma registered_list:
  "prof_list (registered f st) = (case prof_list st of [] \<Rightarrow> [] | d # ds \<Rightarrow> f d # ds)"
  "mono_profiler_events (registered f st) = mono_profiler_events st"
  "mutex_ready (registered f st) = mutex_ready st"
  "coverage_hash (registered f st) = coverage_hash st"
  by (auto simp: registered_def split: list.splits)

text \<open>The invariant of the interface.\<close>

definition profilers_inv :: "'f Profilers \<Rightarrow> bool" where
  "profilers_inv st \<longleftrightarrow> masks_ok st \<and> list_all chain_ok (prof_list st) \<and>
    (prof_list st \<noteq> [] \<longrightarrow> mutex_ready st)"

lemma desc0_facts [simp]: "events desc0 = 0" "chain_ok (desc0\<lparr>profiler := p, shutdown_callback := a\<rparr>)"
  by (simp_all add: desc0_def chain_ok_def MONO_PROFILER_MAX_STAT_CALL_CHAIN_DEPTH_def
      MONO_PROFILER_CALL_CHAIN_INVALID_def MONO_PROFILER_CALL_CHAIN_NONE_def)

lemma chain_ok_events [simp]: "chain_ok (d\<lparr>events := ev\<rparr>) \<longleftrightarrow> chain_ok d"
  by (simp add: chain_ok_def)

lemma set_profiler_events_list:
  "prof_list (mono_profiler_set_profiler_events p ev st) =
    map (\<lambda>d. if profiler d = p then d\<lparr>events := ev\<rparr> else d) (prof_list st)"
  "mono_profiler_events (mono_profiler_set_profiler_events p ev st) =
    or_events 0 (prof_list (mono_profiler_set_profiler_events p ev st))"
  "mutex_ready (mono_profiler_set_profiler_events p ev st) = mutex_ready st"
  using set_matching_map [of p ev 0 "prof_list st"] or_events_set_matching [of p ev 0 "prof_list st"]
  by (auto simp: mono_profiler_set_profiler_events_def split: prod.splits)

lemma exec_op_inv:
  assumes "profilers_inv st"
  shows "profilers_inv (exec_op x st)"
proof (cases x rule: profiler_op_cases)
  case (install p a)
  then show ?thesis using assms
    by (auto simp: profilers_inv_def masks_ok_def mono_profiler_install_def Let_def)
next
  case (set_events ev)
  then show ?thesis using assms
    by (auto simp: profilers_inv_def masks_ok_def mono_profiler_set_events_def Let_def split: list.splits)
next
  case (set_profiler p ev)
  then show ?thesis using assms
    by (auto simp: profilers_inv_def masks_ok_def set_profiler_events_list list_all_iff)
next
  case plain
  obtain f h where "exec_op x st = registered f (st\<lparr>gc_events_on := h\<rparr>)"
    "\<And>d. events (f d) = events d \<and> profiler (f d) = profiler d" "\<And>d. chain_ok d \<Longrightarrow> chain_ok (f d)"
    using registration_cases [OF plain_op_registration [OF plain]] by metis
  then show ?thesis using assms
    by (auto simp: profilers_inv_def masks_ok_def registered_list split: list.splits)
qed

lemma exec_ops_inv: "profilers_inv st \<Longrightarrow> profilers_inv (exec_ops xs st)"
  by (induction xs arbitrary: st) (auto intro: exec_op_inv)

lemma profilers0_inv: "profilers_inv profilers0"
  by (simp add: profilers_inv_def masks_ok_def profilers0_def)

lemmas reachable_inv = exec_ops_inv [OF profilers0_inv]

lemma exec_ops_append: "exec_ops (xs @ ys) st = exec_ops ys (exec_ops xs st)"
  by (induction xs arbitrary: st) auto

section \<open>Properties\<close>

text \<open>
  C33.  Whatever sequence of installations, mask changes and registrations the profilers make, the
  global event mask that the runtime tests is the OR of the masks of all installed profilers:
  a bit is set in it exactly when some profiler asks for it.
\<close>

theorem mono_profiler_events_is_union:
  "bit (mono_profiler_get_events (exec_ops xs profilers0)) n \<longleftrightarrow>
    (\<exists>d \<in> set (prof_list (exec_ops xs profilers0)). bit (events d) n)"
  using reachable_inv [of xs]
  by (simp add: mono_profiler_get_events_def profilers_inv_def masks_ok_def bit_or_events)

text \<open>
  Testing the global mask before a report is sound: in every reachable state, when the bit
  of a kind of event is clear in the global mask, the report of such an event calls nothing.
\<close>

theorem clear_mask_reports_nothing:
  assumes "st = exec_ops xs profilers0"
  shows "(mono_profiler_events st AND MONO_PROFILE_JIT_COMPILATION = 0 \<longrightarrow>
       mono_profiler_method_jit m st = [] \<and> mono_profiler_method_end_jit m j r st = []) \<and>
    (mono_profiler_events st AND MONO_PROFILE_ENTER_LEAVE = 0 \<longrightarrow>
       mono_profiler_method_enter m st = [] \<and> mono_profiler_method_leave m st = []) \<and>
    (mono_profiler_events st AND MONO_PROFILE_METHOD_EVENTS = 0 \<longrightarrow>
       mono_profiler_method_free m st = [] \<and> mono_profiler_method_start_invoke m st = [] \<and>
       mono_profiler_method_end_invoke m st = []) \<and>
    (mono_profiler_events st AND MONO_PROFILE_ASSEMBLY_EVENTS = 0 \<longrightarrow> mono_profiler_assembly_loaded m r st = []) \<and>
    (mono_profiler_events st AND MONO_PROFILE_MODULE_EVENTS = 0 \<longrightarrow> mono_profiler_module_loaded m r st = []) \<and>
    (mono_profiler_events st AND MONO_PROFILE_CLASS_EVENTS = 0 \<longrightarrow> mono_profiler_class_loaded m r st = []) \<and>
    (mono_profiler_events st AND MONO_PROFILE_APPDOMAIN_EVENTS = 0 \<longrightarrow> mono_profiler_appdomain_loaded m r st = []) \<and>
    (mono_profiler_events st AND MONO_PROFILE_STATISTICAL = 0 \<longrightarrow>
       mono_profiler_stat_hit m j st = [] \<and> mono_profiler_stat_call_chain r m j st = []) \<and>
    (mono_profiler_events st AND MONO_PROFILE_EXCEPTIONS = 0 \<longrightarrow>
       mono_profiler_exception_thrown m st = [] \<and> mono_profiler_exception_method_leave m st = [] \<and>
       mono_profiler_exception_clause_handler m r r' st = []) \<and>
    (mono_profiler_events st AND MONO_PROFILE_THREADS = 0 \<longrightarrow>
       mono_profiler_thread_start r st = [] \<and> mono_profiler_thread_end r st = [] \<and>
       mono_profiler_thread_fast_attach r st = [] \<and> mono_profiler_thread_fast_detach r st = []) \<and>
    (mono_profiler_events st AND MONO_PROFILE_GC = 0 \<longrightarrow>
       mono_profiler_gc_event r r' st = [] \<and> mono_profiler_gc_heap_resize r st = []) \<and>
    (mono_profiler_events st AND MONO_PROFILE_GC_MOVES = 0 \<longrightarrow> mono_profiler_gc_moves m r st = [])"
proof -
  have "masks_ok st" using reachable_inv [of xs] assms by (simp add: profilers_inv_def)
  note silent = reports.silent [OF this]
  have "mono_profiler_method_end_jit m j r st = report_body MONO_PROFILE_JIT_COMPILATION
      (\<lambda>d. fire jit_end [Ptr m, Num r] d @ fire jit_end2 [Ptr m, Ptr j, Num r] d) st"
    by (simp add: mono_profiler_method_end_jit_def report_body_def)
  then show ?thesis
    using silent by (simp add: report_defs notify_report)
qed

theorem clear_mask_reports_nothing_witness:
  "mono_profiler_method_enter 7 (exec_ops [Install 1 None, Set_events MONO_PROFILE_JIT_COMPILATION,
     Install_enter_leave (Some (11 :: nat)) (Some 12)] profilers0) = []"
proof -
  let ?xs = "[Install 1 None, Set_events MONO_PROFILE_JIT_COMPILATION,
     Install_enter_leave (Some (11 :: nat)) (Some 12)]"
  have "mono_profiler_events (exec_ops ?xs profilers0) AND MONO_PROFILE_ENTER_LEAVE = 0"
    by (simp add: mono_profiler_install_def mono_profiler_set_events_def install_defs registered_def
        profilers0_def profile_flag_defs push_bit_of_1)
  then show ?thesis
    using clear_mask_reports_nothing [OF refl, of ?xs] by blast
qed

text \<open>
  A registration or a change of the mask by \<open>mono_profiler_set_events\<close> concerns the newest
  profiler only: the descriptors of all profilers installed before it are unchanged, no profiler
  is added or lost, and with no profiler installed nothing is registered.
\<close>

theorem registration_is_local:
  assumes "\<forall>p a. x \<noteq> Install p a" and "\<forall>p ev. x \<noteq> Set_profiler_events p ev"
  shows "tl (prof_list (exec_op x st)) = tl (prof_list st) \<and>
    map profiler (prof_list (exec_op x st)) = map profiler (prof_list st) \<and>
    ((\<forall>ev. x \<noteq> Set_events ev) \<longrightarrow> map events (prof_list (exec_op x st)) = map events (prof_list st))"
proof (cases x rule: profiler_op_cases)
  case (set_events ev)
  then show ?thesis by (auto simp: mono_profiler_set_events_def Let_def split: list.splits)
next
  case plain
  obtain f h where "exec_op x st = registered f (st\<lparr>gc_events_on := h\<rparr>)"
    "\<And>d. events (f d) = events d \<and> profiler (f d) = profiler d"
    using registration_cases [OF plain_op_registration [OF plain]] by metis
  then show ?thesis by (auto simp: registered_list split: list.splits)
qed (use assms in auto)

theorem registration_is_local_witness:
  "tl (prof_list (exec_op (Install_jit_end (Some (3 :: nat)))
     (exec_ops [Install 1 None, Install 2 None] profilers0))) =
   tl (prof_list (exec_ops [Install 1 None, Install 2 None] profilers0))"
  using registration_is_local [of "Install_jit_end (Some (3 :: nat))" "exec_ops [Install 1 None, Install 2 None] profilers0"]
  by simp

text \<open>
  \<open>mono_profiler_set_profiler_events\<close> gives the mask to exactly the profilers with the
  given handle, wherever they are in the list, keeps the order and every callback, and leaves the
  global mask the OR of the new masks.
\<close>

theorem set_profiler_events_exact:
  "prof_list (mono_profiler_set_profiler_events p ev st) =
     map (\<lambda>d. if profiler d = p then d\<lparr>events := ev\<rparr> else d) (prof_list st) \<and>
   (bit (mono_profiler_events (mono_profiler_set_profiler_events p ev st)) n \<longleftrightarrow>
     (\<exists>d \<in> set (prof_list st). if profiler d = p then bit ev n else bit (events d) n))"
  using set_profiler_events_list [of p ev st] by (simp add: bit_or_events_map if_distrib)

lemmas load_codes = MONO_PROFILE_START_LOAD_def MONO_PROFILE_END_LOAD_def
  MONO_PROFILE_START_UNLOAD_def MONO_PROFILE_END_UNLOAD_def

definition handled_code :: "int \<Rightarrow> bool" where
  "handled_code code \<longleftrightarrow>
    code \<in> {MONO_PROFILE_START_LOAD, MONO_PROFILE_START_UNLOAD, MONO_PROFILE_END_UNLOAD}"

lemma bindr_Inr_fails_iff [simp]: "bindr m (\<lambda>x. Inr (g x)) = Inl e \<longleftrightarrow> m = Inl e"
  by (cases m) simp_all

lemma event_walk_handled:
  assumes "handled_code code"
  shows "event_walk flag sl su eu args code ds \<noteq> Inl Assert_failed"
proof -
  consider "code = 0" | "code = 2" | "code = 3"
    using assms by (auto simp: handled_code_def load_codes)
  then show ?thesis by cases (induction ds; simp add: Let_def load_codes)+
qed

lemma event_walk_unhandled:
  assumes "\<not> handled_code code"
  shows "event_walk flag sl su eu args code ds = Inl Assert_failed \<longleftrightarrow> (\<exists>d \<in> set ds. enabled flag d)"
  using assms by (induction ds) (simp_all add: Let_def handled_code_def)

lemma event_walk_fails_iff:
  "event_walk flag sl su eu args code ds = Inl Assert_failed \<longleftrightarrow>
    \<not> handled_code code \<and> (\<exists>d \<in> set ds. enabled flag d)"
  using event_walk_handled event_walk_unhandled by blast

text \<open>
  The load and unload reports abort (\<open>g_assert_not_reached\<close>) exactly when some profiler has
  the kind of event enabled and the code is none of the three that the switch handles; in
  particular an end-of-load event may not be reported through them.
\<close>

theorem load_event_aborts_iff:
  "(mono_profiler_assembly_event a code st = Inl Assert_failed \<longleftrightarrow>
      \<not> handled_code code \<and> (\<exists>d \<in> set (prof_list st). enabled MONO_PROFILE_ASSEMBLY_EVENTS d)) \<and>
    (mono_profiler_module_event a code st = Inl Assert_failed \<longleftrightarrow>
      \<not> handled_code code \<and> (\<exists>d \<in> set (prof_list st). enabled MONO_PROFILE_MODULE_EVENTS d)) \<and>
    (mono_profiler_class_event a code st = Inl Assert_failed \<longleftrightarrow>
      \<not> handled_code code \<and> (\<exists>d \<in> set (prof_list st). enabled MONO_PROFILE_CLASS_EVENTS d)) \<and>
    (mono_profiler_appdomain_event a code st = Inl Assert_failed \<longleftrightarrow>
      \<not> handled_code code \<and> (\<exists>d \<in> set (prof_list st). enabled MONO_PROFILE_APPDOMAIN_EVENTS d)) \<and>
    \<not> handled_code MONO_PROFILE_END_LOAD"
  unfolding mono_profiler_assembly_event_def mono_profiler_module_event_def
    mono_profiler_class_event_def mono_profiler_appdomain_event_def event_walk_fails_iff
  by (simp add: handled_code_def load_codes)

text \<open>
  In every reachable state the call-chain depth that the sampler reads is at most 16 and
  the strategy is one of the four valid ones, whatever values the profilers registered.
\<close>

theorem call_chain_settings_in_range:
  "mono_profiler_stat_get_call_chain_depth (exec_ops xs profilers0) \<le> 16 \<and>
   mono_profiler_stat_get_call_chain_strategy (exec_ops xs profilers0) \<in> {0, 1, 2, 3}"
proof (cases "prof_list (exec_ops xs profilers0)")
  case (Cons d ds)
  then have "chain_ok d" using reachable_inv [of xs] by (simp add: profilers_inv_def)
  then have "statistical_call_chain_depth d \<le> 16 \<and> 0 \<le> statistical_call_chain_strategy d \<and>
      statistical_call_chain_strategy d < 4"
    by (simp add: chain_ok_def MONO_PROFILER_MAX_STAT_CALL_CHAIN_DEPTH_def
        MONO_PROFILER_CALL_CHAIN_INVALID_def MONO_PROFILER_CALL_CHAIN_NONE_def)
  then show ?thesis using Cons
    by (auto simp: mono_profiler_stat_get_call_chain_depth_def MONO_PROFILER_CALL_CHAIN_NONE_def
        mono_profiler_stat_get_call_chain_strategy_def)
qed (simp_all add: mono_profiler_stat_get_call_chain_depth_def MONO_PROFILER_CALL_CHAIN_NONE_def
    mono_profiler_stat_get_call_chain_strategy_def)

lemma ask_filters_result:
  "ask_filters flt m b ds = (walk (fire coverage_filter_cb [Ptr m]) ds,
     b \<or> (\<exists>d \<in> set ds. \<exists>f. coverage_filter_cb d = Some f \<and> flt f (profiler d) m))"
  by (induction flt m b ds rule: ask_filters.induct) (auto simp: fire_def split: option.splits)

text \<open>
  In every reachable state \<open>mono_profiler_coverage_alloc\<close> takes its lock only after it was
  initialised, calls the filter of every profiler in list order, and makes a record exactly when
  one of them accepts the method; the record is empty, is the one a later report finds, and the
  records of all other methods are kept.
\<close>

theorem coverage_alloc_correct:
  assumes "st = exec_ops xs profilers0"
  shows "\<exists>res st'. mono_profiler_coverage_alloc flt m n st =
      Inr (notify_all coverage_filter_cb [Ptr m] st, res, st') \<and>
    (res \<noteq> None \<longleftrightarrow> (\<exists>d \<in> set (prof_list st). \<exists>f. coverage_filter_cb d = Some f \<and> flt f (profiler d) m)) \<and>
    (res \<noteq> None \<longrightarrow> (\<exists>h. coverage_hash st' = Some h \<and> h m = Some \<lparr>cov_data = replicate n (0, 0)\<rparr> \<and>
       mono_profiler_coverage_get code loc m st' = Inr [] \<and>
       (\<forall>m' h'. m' \<noteq> m \<and> coverage_hash st = Some h' \<longrightarrow> h m' = h' m'))) \<and>
    (res = None \<longrightarrow> st' = st)"
proof (cases "\<exists>d \<in> set (prof_list st). \<exists>f. coverage_filter_cb d = Some f \<and> flt f (profiler d) m")
  case True
  then have ready: "mutex_ready st" using reachable_inv [of xs] assms by (auto simp: profilers_inv_def)
  have "coverage_entries m a b l (replicate n (0, 0)) = []" for a b l by (induction n) auto
  then show ?thesis using True ready
    by (auto simp: mono_profiler_coverage_alloc_def ask_filters_result notify_all_def guardr_def
        mono_profiler_coverage_get_def Let_def split: prod.splits)
next
  case False
  then show ?thesis
    by (auto simp: mono_profiler_coverage_alloc_def ask_filters_result notify_all_def)
qed

theorem coverage_alloc_correct_witness:
  "\<exists>st'. mono_profiler_coverage_alloc (\<lambda>f p m. m = 7) 7 3
      (exec_ops [Install 1 None, Install_coverage_filter (Some (5 :: nat))] profilers0) =
    Inr ([Call 5 1 [Ptr 7]], Some \<lparr>cov_data = replicate 3 (0, 0)\<rparr>, st')"
proof -
  let ?st = "exec_ops [Install 1 None, Install_coverage_filter (Some (5 :: nat))] profilers0"
  have l: "prof_list ?st = [desc0\<lparr>profiler := 1, coverage_filter_cb := Some 5\<rparr>]"
    by (simp add: mono_profiler_install_def install_defs registered_def profilers0_def desc0_def)
  have c: "notify_all coverage_filter_cb [Ptr 7] ?st = [Call 5 1 [Ptr 7]]"
    unfolding notify_all_def l by (simp add: fire_def)
  obtain res st' where r: "mono_profiler_coverage_alloc (\<lambda>f p m. m = 7) 7 3 ?st = Inr ([Call 5 1 [Ptr 7]], res, st')"
    "res \<noteq> None"
    using coverage_alloc_correct [OF refl, of "\<lambda>f p m. m = 7" 7 3 "[Install 1 None, Install_coverage_filter (Some (5 :: nat))]"
        "\<lambda>m. (0, 0)" "\<lambda>m i. None"]
    unfolding c l by auto
  then show ?thesis
    by (auto simp: mono_profiler_coverage_alloc_def Let_def guardr_def split: if_splits prod.splits)
qed

lemma coverage_entries_eq:
  "map (\<lambda>e. (iloffset e, counter e)) (coverage_entries m a b l xs) =
    map (\<lambda>(c, n). (c - a, n)) (filter (\<lambda>(c, n). c \<noteq> 0 \<and> a \<le> c \<and> c < b) xs)"
  by (induction m a b l xs rule: coverage_entries.induct) (auto simp: Let_def split: option.splits)

lemma coverage_entries_method: "e \<in> set (coverage_entries m a b l xs) \<Longrightarrow> entry_method e = m"
  by (induction m a b l xs rule: coverage_entries.induct) (auto simp: Let_def split: if_splits option.splits)

text \<open>
  A coverage report of a method has one entry per recorded block whose code lies in the
  method, in order, each with the counter of the block and an offset inside the method's code;
  after \<open>mono_profiler_coverage_free\<close> the report is empty.
\<close>

theorem coverage_get_exact:
  assumes "mutex_ready st" and "coverage_hash st = Some h" and "h m = Some info" and "code m = (start, sz)"
  shows "\<exists>es. mono_profiler_coverage_get code loc m st = Inr es \<and>
    map (\<lambda>e. (iloffset e, counter e)) es =
      map (\<lambda>(c, n). (c - start, n)) (filter (\<lambda>(c, n). c \<noteq> 0 \<and> start \<le> c \<and> c < start + sz) (cov_data info)) \<and>
    (\<forall>e \<in> set es. entry_method e = m \<and> 0 \<le> iloffset e \<and> iloffset e < sz) \<and>
    (\<exists>st'. mono_profiler_coverage_free m st = Inr st' \<and> mono_profiler_coverage_get code loc m st' = Inr [])"
proof -
  let ?es = "coverage_entries m start (start + sz) (loc m) (cov_data info)"
  have eq: "map (\<lambda>e. (iloffset e, counter e)) ?es =
      map (\<lambda>(c, n). (c - start, n)) (filter (\<lambda>(c, n). c \<noteq> 0 \<and> start \<le> c \<and> c < start + sz) (cov_data info))"
    by (rule coverage_entries_eq)
  have "0 \<le> iloffset e \<and> iloffset e < sz" if "e \<in> set ?es" for e
  proof -
    have "(iloffset e, counter e) \<in> set (map (\<lambda>e. (iloffset e, counter e)) ?es)" using that by auto
    then show ?thesis unfolding eq by auto
  qed
  moreover have "mono_profiler_coverage_get code loc m st = Inr ?es"
    using assms by (simp add: mono_profiler_coverage_get_def guardr_def)
  moreover have "\<exists>st'. mono_profiler_coverage_free m st = Inr st' \<and> mono_profiler_coverage_get code loc m st' = Inr []"
    using assms by (simp add: mono_profiler_coverage_free_def mono_profiler_coverage_get_def guardr_def)
  ultimately show ?thesis using eq coverage_entries_method by blast
qed

theorem coverage_get_exact_witness:
  "\<exists>es. mono_profiler_coverage_get (\<lambda>m. (100, 20)) (\<lambda>m i. None) 7
     ((profilers0 :: nat Profilers)\<lparr>mutex_ready := True,
        coverage_hash := Some [7 \<mapsto> \<lparr>cov_data = [(104, 2), (300, 1)]\<rparr>]\<rparr>) = Inr es \<and>
     map (\<lambda>e. (iloffset e, counter e)) es = [(4, 2)]"
  using coverage_get_exact [of "(profilers0 :: nat Profilers)\<lparr>mutex_ready := True,
        coverage_hash := Some [7 \<mapsto> \<lparr>cov_data = [(104, 2), (300, 1)]\<rparr>]\<rparr>" "[7 \<mapsto> \<lparr>cov_data = [(104, 2), (300, 1)]\<rparr>]" 7
        "\<lparr>cov_data = [(104, 2), (300, 1)]\<rparr>" "\<lambda>m. (100, 20)" 100 20 "\<lambda>m i. None"] by auto

end
