(* ===== verification/Etw_Proofs.thy ===== *)
theory Etw_Proofs
  imports Etw_Symbols Utf_Conv_Spec Profiler_Spec
begin

unbundle bit_operations_syntax

text \<open>
  The layout of the events as a trace consumer reads it, and the lemmas on the bytes that the
  symbol profiler writes.
\<close>

section \<open>Reading integers and names back\<close>

lemma EventDataDescCreate_le [simp]:
  "n \<le> m \<Longrightarrow> EventDataDescCreate (le_bytes m v) n = Inr (le_bytes n v)"
  by (simp add: EventDataDescCreate_def take_le_bytes)

fun units_of :: "guint8 list \<Rightarrow> guint16 list" where
  "units_of (a # b # bs) = word_of_int (uint a + 256 * uint b) # units_of bs"
| "units_of _ = []"

lemma unit_bytes_simps [simp]:
  "unit_bytes [] = []" "unit_bytes (u # us) = le_bytes 2 (uint u) @ unit_bytes us"
  by (simp_all add: unit_bytes_def)

lemma length_unit_bytes [simp]: "length (unit_bytes us) = 2 * length us"
  by (induction us) auto

lemma le_bytes_2: "le_bytes 2 v = [word_of_int (v mod 256), word_of_int (v div 256 mod 256)]"
  by (simp add: numeral_2_eq_2)

lemma units_of_unit_bytes [simp]: "units_of (unit_bytes us) = us"
proof (induction us)
  case (Cons u us)
  have "0 \<le> uint u" "uint u < 65536" by (simp, rule order.strict_trans2 [OF unsigned_less]) simp
  then have "uint u div 256 mod 256 = uint u div 256" by (intro mod_pos_pos_trivial) (auto simp: pos_imp_zdiv_nonneg_iff)
  then have "uint (word_of_int (uint u mod 256) :: guint8) + 256 * uint (word_of_int (uint u div 256 mod 256) :: guint8) = uint u"
    by (simp add: uint_word_of_int)
  then show ?case using Cons by (simp add: le_bytes_2)
qed simp

text \<open>The fields of a payload of fixed sizes, and what is left after them.\<close>

fun payload_fields :: "nat list \<Rightarrow> guint8 list \<Rightarrow> int list \<times> guint8 list" where
  "payload_fields [] bs = ([], bs)"
| "payload_fields (n # ns) bs = (let (vs, rest) = payload_fields ns (drop n bs) in (le_value (take n bs) # vs, rest))"

record MethodLoadPayload =
  ml_ScriptContextID :: int
  ml_MethodStartAddress :: int
  ml_MethodSize :: int
  ml_MethodID :: int
  ml_MethodFlags :: int
  ml_MethodAddressRangeID :: int
  ml_SourceID :: int
  ml_Line :: int
  ml_Column :: int
  ml_MethodName :: "guint16 list"

text \<open>A consumer of the event: nine integers, then a zero-terminated name.\<close>

definition parse_MethodLoad :: "nat \<Rightarrow> guint8 list \<Rightarrow> MethodLoadPayload" where
  "parse_MethodLoad p bs =
    (let (vs, rest) = payload_fields [p, p, 8, 4, 2, 2, 8, 4, 4] bs in
     \<lparr>ml_ScriptContextID = vs ! 0, ml_MethodStartAddress = vs ! 1, ml_MethodSize = vs ! 2,
      ml_MethodID = vs ! 3, ml_MethodFlags = vs ! 4, ml_MethodAddressRangeID = vs ! 5,
      ml_SourceID = vs ! 6, ml_Line = vs ! 7, ml_Column = vs ! 8,
      ml_MethodName = takeWhile (\<lambda>u. u \<noteq> 0) (units_of rest)\<rparr>)"

record SourceLoadPayload =
  sl_SourceID :: int
  sl_ScriptContextID :: int
  sl_SourceFlags :: int
  sl_Url :: "guint16 list"

definition parse_SourceLoad :: "nat \<Rightarrow> guint8 list \<Rightarrow> SourceLoadPayload" where
  "parse_SourceLoad p bs =
    (let (vs, rest) = payload_fields [8, p, 4] bs in
     \<lparr>sl_SourceID = vs ! 0, sl_ScriptContextID = vs ! 1, sl_SourceFlags = vs ! 2,
      sl_Url = takeWhile (\<lambda>u. u \<noteq> 0) (units_of rest)\<rparr>)"

section \<open>Names\<close>

lemma utf16_encode_nonzero: "nonzero_text cs \<Longrightarrow> 0 \<notin> set (utf16_encode cs)"
  by (induction cs) (auto simp: nonzero_text_def utf16_of_nonzero)

lemma takeWhile_nonzero: "0 \<notin> set us \<Longrightarrow> takeWhile (\<lambda>u. u \<noteq> 0) (us @ 0 # rest) = us"
  for us :: "'a::zero list"
  by (induction us) auto

lemma u8to16_encoded:
  assumes "nonzero_text cs"
  shows "u8to16 (utf8_encode cs @ 0 # rest) =
    Inr (Converted (utf16_encode cs) (length (utf8_encode cs)) (length (utf16_encode cs)))"
proof -
  have "takeWhile (\<lambda>c. c \<noteq> 0) (utf8_encode cs @ 0 # rest) = utf8_encode cs"
    using assms utf8_encode_nonzero by (simp add: nonzero_text_def takeWhile_nonzero)
  then show ?thesis
    using assms g_utf8_to_utf16_encoded [of cs] by (simp add: u8to16_def nonzero_text_def)
qed

lemma name_buffer_encoded:
  "nonzero_text cs \<Longrightarrow> name_buffer (utf8_encode cs @ 0 # rest) = Inr (utf16_encode cs @ [0])"
  by (simp add: name_buffer_def u8to16_encoded)

lemma wcslen_buffer: "0 \<notin> set us \<Longrightarrow> wcslen (us @ [0]) = length us"
  using takeWhile_nonzero [of us "[]"] by (simp add: wcslen_def)

lemma EventDataDescCreate_name:
  assumes "0 \<notin> set us"
  shows "EventDataDescCreate (unit_bytes (us @ [0])) (2 * (wcslen (us @ [0]) + 1)) = Inr (unit_bytes (us @ [0]))"
  using wcslen_buffer [OF assms] by (simp add: EventDataDescCreate_def)

lemma payload_fields_Cons_le [simp]:
  "payload_fields (n # ns) (le_bytes n v @ bs) = (let (vs, rest) = payload_fields ns bs in ((v mod 256 ^ n) # vs, rest))"
  by (simp add: le_value_le_bytes)

section \<open>The profiler list after initialisation\<close>

lemma init_prof_list:
  "prof_list (profilers (init_etw_symbol_profiler p reg st)) =
    desc0\<lparr>profiler := p, events := MONO_PROFILE_ASSEMBLY_EVENTS OR MONO_PROFILE_JIT_COMPILATION,
      assembly_end_load := Some On_load_assembly, jit_end2 := Some On_method_jitted\<rparr> # prof_list (profilers st)"
  by (simp add: init_etw_symbol_profiler_def mono_profiler_install_def mono_profiler_set_events_def
      install_defs registered_def Let_def desc0_def)

lemma init_enabled:
  "(MONO_PROFILE_ASSEMBLY_EVENTS OR MONO_PROFILE_JIT_COMPILATION) AND MONO_PROFILE_ASSEMBLY_EVENTS \<noteq> 0"
  "(MONO_PROFILE_ASSEMBLY_EVENTS OR MONO_PROFILE_JIT_COMPILATION) AND MONO_PROFILE_JIT_COMPILATION \<noteq> 0"
  by (simp_all add: profile_flag_defs push_bit_of_1)

lemma init_calls_jitted:
  "mono_profiler_method_end_jit m j r (profilers (init_etw_symbol_profiler p reg st)) =
    Call On_method_jitted p [Ptr m, Ptr j, Num r] # mono_profiler_method_end_jit m j r (profilers st)"
  unfolding mono_profiler_method_end_jit_def init_prof_list
  using init_enabled by (simp add: enabled_def fire_def desc0_def)

lemma overruns_if_overlong:
  assumes "0 < flagged_overlongs (input_units str len) 0 0 0"
  shows "g_utf8_to_utf16 False str len = Inl Out_of_bounds"
proof -
  obtain n where "len_loop False (input_units str len) 0 0 0 0 0 = Inr n"
    "n + flagged_overlongs (input_units str len) 0 0 0 = length (conv_loop (input_units str len) 0 0 0)"
    using len_loop_lenient [of "input_units str len" 0 0 0 0 0] by auto
  then show ?thesis using assms by (auto simp: g_utf8_to_utf16_two_pass two_pass_def guardr_def)
qed

section \<open>The event of a jitted method\<close>

lemma method_event:
  assumes "jit_info_at mem j = Some ji" and "method_assembly mem m = Some asm"
    and "mono_method_full_name mem m = utf8_encode cs @ [0]" and "nonzero_text cs" and "4 \<le> ptr_size mem"
    and "asm mod 2 ^ 64 = source"
    and "0 \<le> code_start ji" and "code_start ji < 256 ^ ptr_size mem"
    and "0 \<le> code_size ji" and "code_size ji < 2 ^ 31"
  shows "\<exists>ds. on_method_jitted mem h m j result = Inr (Event h MethodLoad ds) \<and> length ds = 10 \<and>
    parse_MethodLoad (ptr_size mem) (concat ds) =
      \<lparr>ml_ScriptContextID = 0, ml_MethodStartAddress = code_start ji, ml_MethodSize = code_size ji,
       ml_MethodID = m mod 2 ^ 32, ml_MethodFlags = 0, ml_MethodAddressRangeID = 0, ml_SourceID = source,
       ml_Line = 0, ml_Column = 0, ml_MethodName = utf16_encode cs\<rparr>"
proof -
  have z: "0 \<notin> set (utf16_encode cs)" using utf16_encode_nonzero [OF assms(4)] .
  have name: "name_buffer (mono_method_full_name mem m) = Inr (utf16_encode cs @ [0])"
    using name_buffer_encoded [OF assms(4), of "[]"] assms(3) by simp
  let ?p = "ptr_size mem"
  let ?ds = "[le_bytes ?p 0, le_bytes ?p (code_start ji), le_bytes 8 (code_size ji), le_bytes 4 m, le_bytes 2 0,
    le_bytes 2 0, le_bytes 8 asm, le_bytes 4 0, le_bytes 4 0, unit_bytes (utf16_encode cs @ [0])]"
  have "on_method_jitted mem h m j result = Inr (Event h MethodLoad ?ds)"
    using assms(1,2,5) name EventDataDescCreate_name [OF z] by (simp add: on_method_jitted_def del: le_bytes.simps)
  moreover have "parse_MethodLoad ?p (concat ?ds) =
      \<lparr>ml_ScriptContextID = 0, ml_MethodStartAddress = code_start ji, ml_MethodSize = code_size ji,
       ml_MethodID = m mod 2 ^ 32, ml_MethodFlags = 0, ml_MethodAddressRangeID = 0, ml_SourceID = source,
       ml_Line = 0, ml_Column = 0, ml_MethodName = utf16_encode cs\<rparr>"
    using assms(6-) takeWhile_nonzero [OF z, of "[]"]
    by (simp add: parse_MethodLoad_def del: le_bytes.simps payload_fields.simps(2))
  ultimately show ?thesis by auto
qed

end
