(* ===== verification/Eg_Hashtable.thy ===== *)
theory Eg_Hashtable
  imports Mono_Prelude
begin

unbundle bit_operations_syntax

text \<open>
  The hash table of \<open>eglib/src/ghashtable.c\<close>: an array of chains of slots.  A chain is a list of
  pairs, in the order of the links; \<open>table_size\<close> is the length of the array.  The hash and the
  comparison function are fields of the table, as in the source.  The calls of the destroy
  functions are recorded in \<open>destroyed\<close>, the latest last; a null destroy function is the value
  \<open>False\<close> of \<open>has_key_destroy\<close> or \<open>has_value_destroy\<close>.  The tables are not null
  (\<open>g_return_if_fail\<close> makes every operation on a null table do nothing).
\<close>

section \<open>State\<close>

datatype ('k, 'v) destroy_call = Key_destroyed 'k | Value_destroyed 'v

record ('k, 'v) GHashTable =
  hash_func :: "'k \<Rightarrow> guint32"
  key_equal_func :: "'k \<Rightarrow> 'k \<Rightarrow> bool"
  table :: "('k \<times> 'v) list list"
  in_use :: nat
  threshold :: nat
  last_rehash :: nat
  has_key_destroy :: bool
  has_value_destroy :: bool
  destroyed :: "('k, 'v) destroy_call list"

abbreviation table_size :: "('k, 'v) GHashTable \<Rightarrow> nat" where
  "table_size h \<equiv> length (table h)"

section \<open>Table sizes\<close>

definition prime_tbl :: "nat list" where
  "prime_tbl = [11, 19, 37, 73, 109, 163, 251, 367, 557, 823, 1237,
    1861, 2777, 4177, 6247, 9371, 14057, 21089, 31627,
    47431, 71143, 106721, 160073, 240101, 360163,
    540217, 810343, 1215497, 1823231, 2734867, 4102283,
    6153409, 9230113, 13845163]"

text \<open>\<open>n < (int) sqrt (x)\<close> is \<open>(n + 1) * (n + 1) \<le> x\<close> on integers.\<close>

function test_prime_loop :: "nat \<Rightarrow> nat \<Rightarrow> bool" where
  "test_prime_loop x n =
    (if (n + 1) * (n + 1) \<le> x then (if x mod n = 0 then False else test_prime_loop x (n + 2)) else True)"
  by pat_completeness auto
termination
proof (relation "measure (\<lambda>(x, n). x - n)")
  fix x n :: nat
  assume "(n + 1) * (n + 1) \<le> x"
  moreover have "n < (n + 1) * (n + 1)" by simp
  ultimately show "((x, n + 2), x, n) \<in> measure (\<lambda>(x, n). x - n)" by simp
qed simp

declare test_prime_loop.simps [simp del]

definition test_prime :: "nat \<Rightarrow> bool" where
  "test_prime x = (if odd x then test_prime_loop x 3 else x = 2)"

definition G_MAXINT32 :: nat where
  "G_MAXINT32 = 2147483647"

function calc_prime_loop :: "nat \<Rightarrow> nat \<Rightarrow> nat" where
  "calc_prime_loop x i =
    (if i < G_MAXINT32 then (if test_prime i then i else calc_prime_loop x (i + 2)) else x)"
  by pat_completeness auto
termination
  by (relation "measure (\<lambda>(x, i). G_MAXINT32 - i)") auto

declare calc_prime_loop.simps [simp del]

definition calc_prime :: "nat \<Rightarrow> nat" where
  "calc_prime x = calc_prime_loop x (2 * (x div 2) - 1)"

definition g_spaced_primes_closest :: "nat \<Rightarrow> nat" where
  "g_spaced_primes_closest x =
    (case find (\<lambda>p. x \<le> p) prime_tbl of Some p \<Rightarrow> p | None \<Rightarrow> calc_prime x)"

section \<open>Creation and resizing\<close>

definition g_hash_table_new :: "('k \<Rightarrow> guint32) \<Rightarrow> ('k \<Rightarrow> 'k \<Rightarrow> bool) \<Rightarrow> ('k, 'v) GHashTable" where
  "g_hash_table_new hash eq =
    \<lparr>hash_func = hash, key_equal_func = eq, table = replicate (g_spaced_primes_closest 1) [], in_use = 0,
     threshold = 0, last_rehash = g_spaced_primes_closest 1, has_key_destroy = False,
     has_value_destroy = False, destroyed = []\<rparr>"

definition g_hash_table_new_full :: "('k \<Rightarrow> guint32) \<Rightarrow> ('k \<Rightarrow> 'k \<Rightarrow> bool) \<Rightarrow> bool \<Rightarrow> bool \<Rightarrow> ('k, 'v) GHashTable" where
  "g_hash_table_new_full hash eq kd vd =
    (g_hash_table_new hash eq)\<lparr>has_key_destroy := kd, has_value_destroy := vd\<rparr>"

definition bucket_index :: "('k \<Rightarrow> guint32) \<Rightarrow> nat \<Rightarrow> 'k \<Rightarrow> nat" where
  "bucket_index hash n key = unat (hash key) mod n"

text \<open>Every slot is moved to the front of its new chain.\<close>

definition push_slot :: "('k \<Rightarrow> guint32) \<Rightarrow> ('k \<times> 'v) list list \<Rightarrow> 'k \<times> 'v \<Rightarrow> ('k \<times> 'v) list list" where
  "push_slot hash t s = (let i = bucket_index hash (length t) (fst s) in t[i := s # t ! i])"

definition do_rehash :: "('k, 'v) GHashTable \<Rightarrow> ('k, 'v) GHashTable" where
  "do_rehash h =
    (let new_size = g_spaced_primes_closest (in_use h) in
     h\<lparr>last_rehash := table_size h,
       table := foldl (push_slot (hash_func h)) (replicate new_size []) (concat (table h))\<rparr>)"

text \<open>\<open>diff * 0.75 > table_size * 2\<close>, multiplied by four.\<close>

definition rehash :: "('k, 'v) GHashTable \<Rightarrow> ('k, 'v) GHashTable" where
  "rehash h =
    (let diff = \<bar>int (last_rehash h) - int (in_use h)\<bar> in
     if \<not> diff * 3 > int (table_size h) * 8 then h else do_rehash h)"

section \<open>Insertion, lookup and removal\<close>

text \<open>The loop over a chain that looks for the key; \<open>None\<close> when the end is reached.\<close>

fun replace_slot :: "('k, 'v) GHashTable \<Rightarrow> 'k \<Rightarrow> 'v \<Rightarrow> bool \<Rightarrow> ('k \<times> 'v) list \<Rightarrow>
    (('k \<times> 'v) list \<times> ('k, 'v) destroy_call list) option" where
  "replace_slot h key value replace [] = None"
| "replace_slot h key value replace ((k, v) # s) =
    (if key_equal_func h k key then
       Some ((if replace then key else k, value) # s,
         (if replace \<and> has_key_destroy h then [Key_destroyed k] else []) @
         (if has_value_destroy h then [Value_destroyed v] else []))
     else (case replace_slot h key value replace s of
         None \<Rightarrow> None
       | Some (s', calls) \<Rightarrow> Some ((k, v) # s', calls)))"

definition g_hash_table_insert_replace :: "('k, 'v) GHashTable \<Rightarrow> 'k \<Rightarrow> 'v \<Rightarrow> bool \<Rightarrow> ('k, 'v) GHashTable" where
  "g_hash_table_insert_replace h0 key value replace =
    (let h = (if in_use h0 \<ge> threshold h0 then rehash h0 else h0);
         i = bucket_index (hash_func h) (table_size h) key in
     case replace_slot h key value replace (table h ! i) of
       Some (chain, calls) \<Rightarrow> h\<lparr>table := (table h)[i := chain], destroyed := destroyed h @ calls\<rparr>
     | None \<Rightarrow> h\<lparr>table := (table h)[i := (key, value) # table h ! i], in_use := in_use h + 1\<rparr>)"

definition g_hash_table_size :: "('k, 'v) GHashTable \<Rightarrow> nat" where
  "g_hash_table_size h = in_use h"

fun chain_lookup :: "('k \<Rightarrow> 'k \<Rightarrow> bool) \<Rightarrow> 'k \<Rightarrow> ('k \<times> 'v) list \<Rightarrow> ('k \<times> 'v) option" where
  "chain_lookup eq key [] = None"
| "chain_lookup eq key ((k, v) # s) = (if eq k key then Some (k, v) else chain_lookup eq key s)"

definition g_hash_table_lookup_extended :: "('k, 'v) GHashTable \<Rightarrow> 'k \<Rightarrow> ('k \<times> 'v) option" where
  "g_hash_table_lookup_extended h key =
    chain_lookup (key_equal_func h) key (table h ! bucket_index (hash_func h) (table_size h) key)"

definition g_hash_table_lookup :: "('k, 'v) GHashTable \<Rightarrow> 'k \<Rightarrow> 'v option" where
  "g_hash_table_lookup h key =
    (case g_hash_table_lookup_extended h key of Some (orig_key, value) \<Rightarrow> Some value | None \<Rightarrow> None)"

definition destroy_calls :: "('k, 'v) GHashTable \<Rightarrow> 'k \<times> 'v \<Rightarrow> ('k, 'v) destroy_call list" where
  "destroy_calls h s =
    (if has_key_destroy h then [Key_destroyed (fst s)] else []) @
    (if has_value_destroy h then [Value_destroyed (snd s)] else [])"

fun unlink_slot :: "('k \<Rightarrow> 'k \<Rightarrow> bool) \<Rightarrow> 'k \<Rightarrow> ('k \<times> 'v) list \<Rightarrow> ('k \<times> 'v) list \<times> ('k \<times> 'v) option" where
  "unlink_slot eq key [] = ([], None)"
| "unlink_slot eq key ((k, v) # s) =
    (if eq k key then (s, Some (k, v))
     else (let (s', r) = unlink_slot eq key s in ((k, v) # s', r)))"

definition g_hash_table_remove :: "('k, 'v) GHashTable \<Rightarrow> 'k \<Rightarrow> bool \<times> ('k, 'v) GHashTable" where
  "g_hash_table_remove h key =
    (let i = bucket_index (hash_func h) (table_size h) key in
     case unlink_slot (key_equal_func h) key (table h ! i) of
       (chain, Some s) \<Rightarrow> (True, h\<lparr>table := (table h)[i := chain], in_use := in_use h - 1,
                              destroyed := destroyed h @ destroy_calls h s\<rparr>)
     | (chain, None) \<Rightarrow> (False, h))"

section \<open>Traversal\<close>

text \<open>The calls \<open>func (key, value, user_data)\<close>, in order.\<close>

definition g_hash_table_foreach :: "('k, 'v) GHashTable \<Rightarrow> ('k \<times> 'v) list" where
  "g_hash_table_foreach h = concat (table h)"

definition g_hash_table_find :: "('k, 'v) GHashTable \<Rightarrow> ('k \<Rightarrow> 'v \<Rightarrow> bool) \<Rightarrow> 'v option" where
  "g_hash_table_find h predicate =
    map_option snd (find (\<lambda>(k, v). predicate k v) (concat (table h)))"

text \<open>The removal loop over one chain: the slots kept and the slots unlinked.\<close>

fun remove_from_chain :: "('k \<Rightarrow> 'v \<Rightarrow> bool) \<Rightarrow> ('k \<times> 'v) list \<Rightarrow> ('k \<times> 'v) list \<times> ('k \<times> 'v) list" where
  "remove_from_chain func [] = ([], [])"
| "remove_from_chain func ((k, v) # s) =
    (let (kept, gone) = remove_from_chain func s in
     if func k v then (kept, (k, v) # gone) else ((k, v) # kept, gone))"

definition remove_slots :: "bool \<Rightarrow> ('k, 'v) GHashTable \<Rightarrow> ('k \<Rightarrow> 'v \<Rightarrow> bool) \<Rightarrow> nat \<times> ('k, 'v) GHashTable" where
  "remove_slots destroy h func =
    (let gone = concat (map (snd \<circ> remove_from_chain func) (table h));
         count = length gone;
         h' = h\<lparr>table := map (fst \<circ> remove_from_chain func) (table h), in_use := in_use h - count,
                destroyed := destroyed h @ (if destroy then concat (map (destroy_calls h) gone) else [])\<rparr>
     in (count, if count > 0 then rehash h' else h'))"

definition g_hash_table_foreach_remove :: "('k, 'v) GHashTable \<Rightarrow> ('k \<Rightarrow> 'v \<Rightarrow> bool) \<Rightarrow> nat \<times> ('k, 'v) GHashTable" where
  "g_hash_table_foreach_remove h func = remove_slots True h func"

definition g_hash_table_foreach_steal :: "('k, 'v) GHashTable \<Rightarrow> ('k \<Rightarrow> 'v \<Rightarrow> bool) \<Rightarrow> nat \<times> ('k, 'v) GHashTable" where
  "g_hash_table_foreach_steal h func = remove_slots False h func"

definition g_hash_table_remove_all :: "('k, 'v) GHashTable \<Rightarrow> ('k, 'v) GHashTable" where
  "g_hash_table_remove_all h = snd (remove_slots True h (\<lambda>k v. True))"

text \<open>The destroy calls that \<open>g_hash_table_destroy\<close> makes before it frees the table.\<close>

definition g_hash_table_destroy :: "('k, 'v) GHashTable \<Rightarrow> ('k, 'v) destroy_call list" where
  "g_hash_table_destroy h = destroyed h @ concat (map (destroy_calls h) (concat (table h)))"

text \<open>Iterators: the position in the array and the rest of the current chain.\<close>

record ('k, 'v) Iter =
  slot_index :: int
  slot :: "('k \<times> 'v) list"

definition g_hash_table_iter_init :: "('k, 'v) Iter" where
  "g_hash_table_iter_init = \<lparr>slot_index = -1, slot = []\<rparr>"

text \<open>The loop to the next chain that is not empty, on the chains after the current one.\<close>

fun next_chain :: "('k \<times> 'v) list list \<Rightarrow> int \<Rightarrow> (int \<times> ('k \<times> 'v) list) option" where
  "next_chain [] i = None"
| "next_chain (c # cs) i = (if c \<noteq> [] then Some (i, c) else next_chain cs (i + 1))"

definition g_hash_table_iter_next :: "('k, 'v) GHashTable \<Rightarrow> ('k, 'v) Iter \<Rightarrow>
    (('k \<times> 'v) option \<times> ('k, 'v) Iter) res" where
  "g_hash_table_iter_next h it =
    guardr (slot_index it \<noteq> -2) Assert_failed
     (case slot it of
        s # rest \<Rightarrow> Inr (Some s, it\<lparr>slot := rest\<rparr>)
      | [] \<Rightarrow>
         (case next_chain (drop (nat (slot_index it + 1)) (table h)) (slot_index it + 1) of
            None \<Rightarrow> Inr (None, it\<lparr>slot_index := -2\<rparr>)
          | Some (i, c) \<Rightarrow> Inr (Some (hd c), \<lparr>slot_index = i, slot = tl c\<rparr>)))"

section \<open>Hash functions\<close>

text \<open>Pointers as integers; \<open>GPOINTER_TO_UINT\<close> keeps the low 32 bits.\<close>

definition g_direct_equal :: "addr \<Rightarrow> addr \<Rightarrow> bool" where
  "g_direct_equal v1 v2 \<longleftrightarrow> v1 = v2"

definition g_direct_hash :: "addr \<Rightarrow> guint32" where
  "g_direct_hash v1 = word_of_int v1"

definition g_int_equal :: "addr \<Rightarrow> addr \<Rightarrow> bool" where
  "g_int_equal v1 v2 \<longleftrightarrow> (word_of_int v1 :: guint32) = word_of_int v2"

definition g_int_hash :: "addr \<Rightarrow> guint32" where
  "g_int_hash v1 = word_of_int v1"

text \<open>Strings as their bytes before the terminating zero.\<close>

definition g_str_equal :: "guint8 list \<Rightarrow> guint8 list \<Rightarrow> bool" where
  "g_str_equal v1 v2 \<longleftrightarrow> v1 = v2"

text \<open>
  \<open>while (*p++) hash = (hash << 5) - (hash + *p)\<close>: the pointer has moved on when the character
  is read, so the loop reads the second character first and the final zero last.  \<open>char\<close> is
  signed.
\<close>

fun str_hash_loop :: "guint8 list \<Rightarrow> guint32 \<Rightarrow> guint32" where
  "str_hash_loop [] hash = hash"
| "str_hash_loop (c # p) hash =
    str_hash_loop p (push_bit 5 hash - (hash + (case p of [] \<Rightarrow> 0 | c' # _ \<Rightarrow> scast c')))"

definition g_str_hash :: "guint8 list \<Rightarrow> guint32" where
  "g_str_hash v1 = str_hash_loop v1 0"

end
