(* ===== verification/Eg_Hashtable_Spec.thy ===== *)
theory Eg_Hashtable_Spec
  imports Eg_Hashtable "HOL-Library.Multiset"
begin

unbundle bit_operations_syntax

text \<open>
  The hash table as a map.  The contract between a hash function and a comparison function is a
  locale, interpreted on the three pairs that the library provides; inside it the operations are
  proved to keep the invariant of the table and to act on its entries as on a map.
\<close>

section \<open>Table sizes\<close>

lemma calc_prime_loop_ge: "0 < i \<Longrightarrow> 0 < x \<Longrightarrow> 0 < calc_prime_loop x i"
proof (induction x i rule: calc_prime_loop.induct)
  case (1 x i)
  then show ?case by (subst calc_prime_loop.simps) simp
qed

lemma g_spaced_primes_closest_pos: "0 < g_spaced_primes_closest x"
proof (cases "find (\<lambda>p. x \<le> p) prime_tbl")
  case None
  then have "\<forall>p \<in> set prime_tbl. \<not> x \<le> p" by (simp add: find_None_iff)
  then have "13845163 < x" by (simp add: prime_tbl_def)
  then have "0 < calc_prime x" unfolding calc_prime_def by (intro calc_prime_loop_ge) auto
  then show ?thesis using None by (simp add: g_spaced_primes_closest_def)
next
  case (Some p)
  then have "p \<in> set prime_tbl" by (auto simp: find_Some_iff)
  then show ?thesis using Some by (auto simp: g_spaced_primes_closest_def prime_tbl_def)
qed

section \<open>Invariant\<close>

lemma distinct_map_sorted_wrt: "distinct (map f xs) \<longleftrightarrow> sorted_wrt (\<lambda>s t. f s \<noteq> f t) xs"
  by (induction xs) auto

definition key_distinct :: "('k \<Rightarrow> 'k \<Rightarrow> bool) \<Rightarrow> ('k \<times> 'v) list \<Rightarrow> bool" where
  "key_distinct eq xs = sorted_wrt (\<lambda>s t. \<not> eq (fst s) (fst t)) xs"

definition slots :: "('k, 'v) GHashTable \<Rightarrow> ('k \<times> 'v) list" where
  "slots h = concat (table h)"

definition in_place :: "('k \<Rightarrow> guint32) \<Rightarrow> ('k \<times> 'v) list list \<Rightarrow> bool" where
  "in_place hash t \<longleftrightarrow> (\<forall>i < length t. \<forall>s \<in> set (t ! i). bucket_index hash (length t) (fst s) = i)"

definition ht_wf :: "('k, 'v) GHashTable \<Rightarrow> bool" where
  "ht_wf h \<longleftrightarrow> table h \<noteq> [] \<and> in_place (hash_func h) (table h) \<and>
    key_distinct (key_equal_func h) (slots h) \<and> in_use h = length (slots h)"

lemma bucket_index_less: "0 < n \<Longrightarrow> bucket_index hash n k < n"
  by (simp add: bucket_index_def)

lemma slots_split:
  assumes "i < table_size h"
  obtains A B where "slots h = A @ table h ! i @ B"
    "\<And>c. concat ((table h)[i := c]) = A @ c @ B"
proof
  show "slots h = concat (take i (table h)) @ table h ! i @ concat (drop (Suc i) (table h))"
    using concat_map_take_drop [OF assms, of id] by (simp add: slots_def)
  show "concat ((table h)[i := c]) = concat (take i (table h)) @ c @ concat (drop (Suc i) (table h))" for c
    using assms by (simp add: upd_conv_take_nth_drop)
qed

lemma in_place_update:
  "in_place hash t \<Longrightarrow> (\<And>s. s \<in> set c \<Longrightarrow> bucket_index hash (length t) (fst s) = i) \<Longrightarrow> in_place hash (t[i := c])"
  unfolding in_place_def by (metis length_list_update nth_list_update_eq nth_list_update_neq)

lemma mset_push_slot:
  "0 < length t \<Longrightarrow> mset (concat (push_slot hash t s)) = add_mset s (mset (concat t))"
proof -
  assume "0 < length t"
  then have i: "bucket_index hash (length t) (fst s) < length t" by (rule bucket_index_less)
  have "concat t = concat (take (bucket_index hash (length t) (fst s)) t) @ t ! bucket_index hash (length t) (fst s) @
      concat (drop (Suc (bucket_index hash (length t) (fst s))) t)"
    using concat_map_take_drop [OF i, of id] by simp
  then show ?thesis using i by (simp add: push_slot_def Let_def upd_conv_take_nth_drop)
qed

lemma push_slot_in_place: "in_place hash t \<Longrightarrow> t \<noteq> [] \<Longrightarrow> in_place hash (push_slot hash t s)"
  unfolding push_slot_def Let_def
  using bucket_index_less [of "length t" hash "fst s"]
  by (intro in_place_update) (auto simp: in_place_def)

lemma length_push_slot [simp]: "length (push_slot hash t s) = length t"
  by (simp add: push_slot_def Let_def)

lemma foldl_push_slot:
  assumes "in_place hash t" "t \<noteq> []"
  shows "in_place hash (foldl (push_slot hash) t ss) \<and> length (foldl (push_slot hash) t ss) = length t \<and>
    mset (concat (foldl (push_slot hash) t ss)) = mset (concat t) + mset ss"
  using assms
proof (induction ss arbitrary: t)
  case (Cons s ss)
  have "push_slot hash t s \<noteq> []" using Cons.prems by (metis length_0_conv length_push_slot)
  then show ?case
    using Cons.IH [of "push_slot hash t s"] push_slot_in_place [OF Cons.prems, of s]
      mset_push_slot [of t hash s] Cons.prems by simp
qed simp

lemma in_place_empty: "in_place hash (replicate n [])"
  by (simp add: in_place_def)

text \<open>A well-formed table with the given functions.\<close>

definition table_of :: "('k \<Rightarrow> guint32) \<Rightarrow> ('k \<Rightarrow> 'k \<Rightarrow> bool) \<Rightarrow> ('k, 'v) GHashTable \<Rightarrow> bool" where
  "table_of hash eq h \<longleftrightarrow> hash_func h = hash \<and> key_equal_func h = eq \<and> ht_wf h"

lemma remove_from_chain_eq:
  "remove_from_chain f c = (filter (\<lambda>(k, v). \<not> f k v) c, filter (\<lambda>(k, v). f k v) c)"
  by (induction f c rule: remove_from_chain.induct) (auto simp: Let_def)

text \<open>Sequences of updates, on tables and on the abstract map.\<close>

datatype ('k, 'v) update = Put 'k 'v bool | Del 'k

fun apply_update :: "('k, 'v) GHashTable \<Rightarrow> ('k, 'v) update \<Rightarrow> ('k, 'v) GHashTable" where
  "apply_update h (Put k v replace) = g_hash_table_insert_replace h k v replace"
| "apply_update h (Del k) = snd (g_hash_table_remove h k)"

fun spec_update :: "('k \<Rightarrow> 'k \<Rightarrow> bool) \<Rightarrow> ('k \<rightharpoonup> 'v) \<Rightarrow> ('k, 'v) update \<Rightarrow> ('k \<rightharpoonup> 'v)" where
  "spec_update eq m (Put k v replace) = (\<lambda>l. if eq k l then Some v else m l)"
| "spec_update eq m (Del k) = (\<lambda>l. if eq k l then None else m l)"

section \<open>Hash functions that agree with the comparison\<close>

locale hash_contract =
  fixes hash :: "'k \<Rightarrow> guint32"
    and eq :: "'k \<Rightarrow> 'k \<Rightarrow> bool"
  assumes refl: "eq k k"
    and sym: "eq k l \<Longrightarrow> eq l k"
    and trans: "eq k l \<Longrightarrow> eq l m \<Longrightarrow> eq k m"
    and agrees: "eq k l \<Longrightarrow> hash k = hash l"
begin

lemma key_distinct_mset:
  "key_distinct eq xs \<Longrightarrow> mset xs = mset ys \<Longrightarrow> key_distinct eq ys"
proof (induction ys arbitrary: xs)
  case Nil
  then show ?case by (simp add: key_distinct_def)
next
  case (Cons y ys)
  then have "y \<in> set xs" by (metis list.set_intros(1) set_mset_mset)
  then obtain as bs where xs: "xs = as @ y # bs" by (meson split_list)
  then have "mset (as @ bs) = mset ys" using Cons.prems by simp
  moreover have "key_distinct eq (as @ bs)" "\<forall>s \<in> set (as @ bs). \<not> eq (fst y) (fst s)"
    using Cons.prems(1) sym by (auto simp: xs key_distinct_def sorted_wrt_append)
  moreover have "set (as @ bs) = set ys" using calculation(1) by (metis set_mset_mset)
  ultimately show ?case using Cons.IH by (auto simp: key_distinct_def)
qed

lemma bucket_eq: "eq k l \<Longrightarrow> bucket_index hash n k = bucket_index hash n l"
  using agrees by (simp add: bucket_index_def)

lemma chain_lookup_iff:
  "key_distinct eq c \<Longrightarrow> chain_lookup eq key c = Some s \<longleftrightarrow> s \<in> set c \<and> eq (fst s) key"
proof (induction c)
  case (Cons t c)
  obtain k v where t: "t = (k, v)" by (cases t)
  have IH: "chain_lookup eq key c = Some s \<longleftrightarrow> s \<in> set c \<and> eq (fst s) key"
    using Cons by (simp add: key_distinct_def)
  have "\<not> eq (fst s) key" if "s \<in> set c" "eq k key"
  proof
    assume "eq (fst s) key"
    then have "eq k (fst s)" using that(2) sym trans by blast
    then show False using Cons.prems that(1) t by (auto simp: key_distinct_def)
  qed
  then show ?case using IH t by auto
qed simp

lemma chain_lookup_None: "chain_lookup eq key c = None \<longleftrightarrow> (\<forall>s \<in> set c. \<not> eq (fst s) key)"
  by (induction c) (auto split: if_splits)

lemma lookup_extended_iff:
  assumes "table_of hash eq h"
  shows "g_hash_table_lookup_extended h key = Some s \<longleftrightarrow> s \<in> set (slots h) \<and> eq (fst s) key"
proof -
  let ?i = "bucket_index hash (table_size h) key"
  have i: "?i < table_size h" using assms by (simp add: table_of_def ht_wf_def bucket_index_less)
  obtain A B where AB: "slots h = A @ table h ! ?i @ B" using slots_split [OF i] by metis
  have "key_distinct eq (table h ! ?i)"
    using assms AB by (auto simp: table_of_def ht_wf_def key_distinct_def sorted_wrt_append)
  moreover have "s \<in> set (table h ! ?i)" if m: "s \<in> set (slots h)" "eq (fst s) key"
  proof -
    obtain c where c: "c \<in> set (table h)" "s \<in> set c" using m(1) by (auto simp: slots_def)
    obtain j where "j < table_size h" "table h ! j = c" using c(1) by (auto simp: in_set_conv_nth)
    with c(2) have j: "j < table_size h" "s \<in> set (table h ! j)" by auto
    then have "bucket_index hash (table_size h) (fst s) = j"
      using assms by (auto simp: table_of_def ht_wf_def in_place_def)
    then show ?thesis using j bucket_eq [OF m(2)] by simp
  qed
  ultimately show ?thesis
    using assms AB chain_lookup_iff [of "table h ! ?i" key s]
    by (auto simp: g_hash_table_lookup_extended_def table_of_def)
qed

lemma lookup_iff:
  assumes "table_of hash eq h"
  shows "g_hash_table_lookup h key = Some v \<longleftrightarrow> (\<exists>k. (k, v) \<in> set (slots h) \<and> eq k key)"
proof -
  have "g_hash_table_lookup h key = Some v \<longleftrightarrow> (\<exists>k. g_hash_table_lookup_extended h key = Some (k, v))"
    by (auto simp: g_hash_table_lookup_def split: option.splits prod.splits)
  then show ?thesis using lookup_extended_iff [OF assms] by simp
qed

lemma do_rehash_table:
  assumes "table_of hash eq h"
  shows "table_of hash eq (do_rehash h) \<and> mset (slots (do_rehash h)) = mset (slots h)"
proof -
  let ?t = "replicate (g_spaced_primes_closest (in_use h)) [] :: ('k \<times> _) list list"
  have ne: "?t \<noteq> []" using g_spaced_primes_closest_pos by simp
  note f = foldl_push_slot [OF in_place_empty ne, of hash "concat (table h)"]
  have m: "mset (slots (do_rehash h)) = mset (slots h)"
    using f assms by (simp add: do_rehash_def Let_def slots_def table_of_def)
  then have "key_distinct eq (slots (do_rehash h))" "length (slots (do_rehash h)) = length (slots h)"
    using assms key_distinct_mset [of "slots h"] by (auto simp: table_of_def ht_wf_def dest: mset_eq_length)
  then show ?thesis
    using f ne assms m by (auto simp: do_rehash_def Let_def table_of_def ht_wf_def)
qed

lemma rehash_table: "table_of hash eq h \<Longrightarrow> table_of hash eq (rehash h) \<and> mset (slots (rehash h)) = mset (slots h)"
  using do_rehash_table [of h] by (simp add: rehash_def Let_def)

lemma replace_slot_cases:
  assumes "key_equal_func h = eq"
  shows "(\<exists>pre k v post calls. c = pre @ (k, v) # post \<and> eq k key \<and>
      replace_slot h key value replace c = Some (pre @ (if replace then key else k, value) # post, calls)) \<or>
    (replace_slot h key value replace c = None \<and> (\<forall>s \<in> set c. \<not> eq (fst s) key))"
proof (induction c)
  case (Cons s c)
  obtain k v where s: "s = (k, v)" by (cases s)
  show ?case
  proof (cases "eq k key")
    case True
    then have "replace_slot h key value replace (s # c) = Some ([] @ (if replace then key else k, value) # c,
        (if replace \<and> has_key_destroy h then [Key_destroyed k] else []) @
        (if has_value_destroy h then [Value_destroyed v] else []))"
      using assms s by simp
    moreover have "s # c = [] @ (k, v) # c" using s by simp
    ultimately show ?thesis using True by blast
  next
    case False
    from Cons.IH show ?thesis
    proof
      assume "\<exists>pre k v post calls. c = pre @ (k, v) # post \<and> eq k key \<and>
        replace_slot h key value replace c = Some (pre @ (if replace then key else k, value) # post, calls)"
      then obtain pre k' v' post calls where r: "c = pre @ (k', v') # post" "eq k' key"
        "replace_slot h key value replace c = Some (pre @ (if replace then key else k', value) # post, calls)"
        by blast
      then have "replace_slot h key value replace (s # c) =
          Some ((s # pre) @ (if replace then key else k', value) # post, calls)"
        using s False assms by simp
      moreover have "s # c = (s # pre) @ (k', v') # post" using r by simp
      ultimately show ?thesis using r(2) by blast
    next
      assume "replace_slot h key value replace c = None \<and> (\<forall>s \<in> set c. \<not> eq (fst s) key)"
      then show ?thesis using s False assms by simp
    qed
  qed
qed simp

lemma unlink_slot_cases:
  "(\<exists>pre k v post. c = pre @ (k, v) # post \<and> eq k key \<and> unlink_slot eq key c = (pre @ post, Some (k, v))) \<or>
   (unlink_slot eq key c = (c, None) \<and> (\<forall>s \<in> set c. \<not> eq (fst s) key))"
proof (induction c)
  case (Cons s c)
  obtain k v where s: "s = (k, v)" by (cases s)
  show ?case
  proof (cases "eq k key")
    case True
    then have "s # c = [] @ (k, v) # c \<and> eq k key \<and> unlink_slot eq key (s # c) = ([] @ c, Some (k, v))"
      using s by simp
    then show ?thesis by blast
  next
    case False
    from Cons.IH show ?thesis
    proof
      assume "\<exists>pre k v post. c = pre @ (k, v) # post \<and> eq k key \<and> unlink_slot eq key c = (pre @ post, Some (k, v))"
      then obtain pre k' v' post where r: "c = pre @ (k', v') # post" "eq k' key"
        "unlink_slot eq key c = (pre @ post, Some (k', v'))" by blast
      then have "s # c = (s # pre) @ (k', v') # post \<and> eq k' key \<and>
          unlink_slot eq key (s # c) = ((s # pre) @ post, Some (k', v'))"
        using s False by simp
      then show ?thesis by blast
    next
      assume "unlink_slot eq key c = (c, None) \<and> (\<forall>s \<in> set c. \<not> eq (fst s) key)"
      then show ?thesis using s False by simp
    qed
  qed
qed simp

lemma key_distinct_replace:
  assumes "key_distinct eq (A @ (k, v) # B)" "eq k k'"
  shows "key_distinct eq (A @ (k', v') # B)"
proof -
  have "\<not> eq k' l" if "\<not> eq k l" for l using assms(2) that trans by blast
  moreover have "\<not> eq l k'" if "\<not> eq l k" for l using sym [OF assms(2)] that trans by blast
  ultimately show ?thesis using assms(1) by (auto simp: key_distinct_def sorted_wrt_append)
qed

text \<open>What an insertion does to the entries: it replaces the entry of an equal key, or adds one.\<close>

lemma insert_no_rehash:
  assumes "table_of hash eq h" and h': "h' = (let i = bucket_index (hash_func h) (table_size h) key in
     case replace_slot h key value replace (table h ! i) of
       Some (chain, calls) \<Rightarrow> h\<lparr>table := (table h)[i := chain], destroyed := destroyed h @ calls\<rparr>
     | None \<Rightarrow> h\<lparr>table := (table h)[i := (key, value) # table h ! i], in_use := in_use h + 1\<rparr>)"
  shows "table_of hash eq h' \<and>
    (\<forall>s. s \<in> set (slots h') \<longrightarrow> eq (fst s) key \<and> snd s = value \<or> s \<in> set (slots h) \<and> \<not> eq (fst s) key) \<and>
    (\<exists>k. (k, value) \<in> set (slots h') \<and> eq k key) \<and>
    (\<forall>s \<in> set (slots h). \<not> eq (fst s) key \<longrightarrow> s \<in> set (slots h')) \<and>
    length (slots h') = length (slots h) + (if \<exists>s \<in> set (slots h). eq (fst s) key then 0 else 1)"
proof -
  let ?i = "bucket_index hash (table_size h) key"
  have hf: "hash_func h = hash" "key_equal_func h = eq" and wf: "ht_wf h" using assms(1) by (auto simp: table_of_def)
  have i: "?i < table_size h" using wf by (simp add: ht_wf_def bucket_index_less)
  obtain A B where AB: "slots h = A @ table h ! ?i @ B" "\<And>c. concat ((table h)[?i := c]) = A @ c @ B"
    using slots_split [OF i] by metis
  have kd: "key_distinct eq (A @ table h ! ?i @ B)" using wf AB(1) hf by (simp add: ht_wf_def)
  have place: "\<And>s. s \<in> set (table h ! ?i) \<Longrightarrow> bucket_index hash (table_size h) (fst s) = ?i"
    using wf i hf by (simp add: ht_wf_def in_place_def)
  have elsewhere: "\<not> eq (fst s) key" if "s \<in> set A \<union> set B" "\<forall>t \<in> set (table h ! ?i). \<not> eq (fst t) key" for s
    using lookup_extended_iff [OF assms(1), of key s] chain_lookup_iff [of "table h ! ?i" key s] that kd AB(1) hf
    by (auto simp: g_hash_table_lookup_extended_def key_distinct_def sorted_wrt_append)
  from replace_slot_cases [OF hf(2), of "table h ! ?i" key "value" replace] show ?thesis
  proof
    assume "\<exists>pre k v post calls. table h ! ?i = pre @ (k, v) # post \<and> eq k key \<and>
      replace_slot h key value replace (table h ! ?i) = Some (pre @ (if replace then key else k, value) # post, calls)"
    then obtain pre k v post calls where r: "table h ! ?i = pre @ (k, v) # post" "eq k key"
      "replace_slot h key value replace (table h ! ?i) = Some (pre @ (if replace then key else k, value) # post, calls)"
      by blast
    let ?k = "if replace then key else k"
    have k: "eq k ?k" "eq ?k key" using r(2) refl by auto
    have sl: "slots h' = (A @ pre) @ (?k, value) # (post @ B)" using h' hf r(3) AB(2) by (simp add: slots_def Let_def)
    have kd': "key_distinct eq ((A @ pre) @ (k, v) # (post @ B))" using kd r(1) by simp
    have others: "\<not> eq (fst s) key" if "s \<in> set (A @ pre) \<union> set (post @ B)" for s
    proof
      assume "eq (fst s) key"
      then have "eq (fst s) k" "eq k (fst s)" using r(2) sym trans by blast+
      then show False using kd' that by (auto simp: key_distinct_def sorted_wrt_append)
    qed
    have "in_place hash ((table h)[?i := pre @ (?k, value) # post])"
      using wf hf place r(1) bucket_eq [OF k(2)]
      by (intro in_place_update) (auto simp: ht_wf_def)
    moreover have "length (slots h') = length (slots h)" using sl AB(1) r(1) by simp
    ultimately have "table_of hash eq h'"
      using h' hf r(3) wf key_distinct_replace [OF kd' k(1), of "value"] sl
      by (auto simp: table_of_def ht_wf_def Let_def)
    then show ?thesis using sl AB(1) r(1,2) k(2) others by auto
  next
    assume n: "replace_slot h key value replace (table h ! ?i) = None \<and> (\<forall>s \<in> set (table h ! ?i). \<not> eq (fst s) key)"
    then have sl: "slots h' = A @ (key, value) # table h ! ?i @ B" using h' hf AB(2) by (simp add: slots_def Let_def)
    have others: "\<not> eq (fst s) key" if "s \<in> set (slots h)" for s
      using elsewhere [of s] n that AB(1) by auto
    have "\<not> eq key (fst s)" if "s \<in> set (slots h)" for s using others [OF that] sym by blast
    then have "key_distinct eq (slots h')"
      using kd others AB(1) unfolding sl by (auto simp: key_distinct_def sorted_wrt_append)
    moreover have "in_place hash ((table h)[?i := (key, value) # table h ! ?i])"
      using wf hf place by (intro in_place_update) (auto simp: ht_wf_def)
    moreover have "length (slots h') = length (slots h) + 1" using sl AB(1) by simp
    ultimately have "table_of hash eq h'"
      using h' hf n wf by (auto simp: table_of_def ht_wf_def Let_def)
    then show ?thesis using sl AB(1) refl others by auto
  qed
qed

lemma lookup_same_slots:
  assumes "table_of hash eq h" "table_of hash eq h'" "set (slots h') = set (slots h)"
  shows "g_hash_table_lookup h' k = g_hash_table_lookup h k"
  using lookup_iff [OF assms(1), of k] lookup_iff [OF assms(2), of k] assms(3) by (metis option.exhaust)

lemma insert_entries:
  assumes "table_of hash eq h"
  shows "table_of hash eq (g_hash_table_insert_replace h key val rep) \<and>
    (g_hash_table_lookup (g_hash_table_insert_replace h key val rep) k =
      (if eq key k then Some val else g_hash_table_lookup h k)) \<and>
    g_hash_table_size (g_hash_table_insert_replace h key val rep) =
      g_hash_table_size h + (if g_hash_table_lookup h key = None then 1 else 0)"
proof -
  define h1 where "h1 = (if in_use h \<ge> threshold h then rehash h else h)"
  define h' where "h' = g_hash_table_insert_replace h key val rep"
  have h1: "table_of hash eq h1" "mset (slots h1) = mset (slots h)"
    using rehash_table [OF assms] assms by (auto simp: h1_def)
  then have sl: "set (slots h1) = set (slots h)" "length (slots h1) = length (slots h)"
    by (metis set_mset_mset, metis size_mset)
  have lk: "g_hash_table_lookup h1 l = g_hash_table_lookup h l" for l
    by (rule lookup_same_slots [OF assms h1(1) sl(1)])
  have e: "h' = (let i = bucket_index (hash_func h1) (table_size h1) key in
     case replace_slot h1 key val rep (table h1 ! i) of
       Some (chain, calls) \<Rightarrow> h1\<lparr>table := (table h1)[i := chain], destroyed := destroyed h1 @ calls\<rparr>
     | None \<Rightarrow> h1\<lparr>table := (table h1)[i := (key, val) # table h1 ! i], in_use := in_use h1 + 1\<rparr>)"
    unfolding h'_def g_hash_table_insert_replace_def h1_def Let_def ..
  note n = insert_no_rehash [OF h1(1) e]
  have h': "table_of hash eq h'" using n by blast
  have "g_hash_table_lookup h' k = Some v \<longleftrightarrow> (if eq key k then v = val else g_hash_table_lookup h1 k = Some v)" for v
  proof (cases "eq key k")
    case True
    then have "v = val" if "(l, v) \<in> set (slots h')" "eq l k" for l
      using n that sym trans by (metis fst_conv snd_conv)
    moreover have "\<exists>l. (l, val) \<in> set (slots h') \<and> eq l k" using n True trans by blast
    ultimately show ?thesis using lookup_iff [OF h', of k v] True by auto
  next
    case False
    then have "(l, v) \<in> set (slots h') \<longleftrightarrow> (l, v) \<in> set (slots h1)" if "eq l k" for l
      using n that sym trans by (metis fst_conv)
    then show ?thesis using lookup_iff [OF h', of k v] lookup_iff [OF h1(1), of k v] False by auto
  qed
  then have "g_hash_table_lookup h' k = (if eq key k then Some val else g_hash_table_lookup h k)"
    unfolding lk by (intro option_eq_SomeI) auto
  moreover have "(\<exists>s \<in> set (slots h1). eq (fst s) key) \<longleftrightarrow> g_hash_table_lookup h1 key \<noteq> None"
    using lookup_iff [OF h1(1), of key] by force
  ultimately show ?thesis
    using n h' assms sl(2) lk [of key] unfolding h'_def [symmetric]
    by (simp add: g_hash_table_size_def table_of_def ht_wf_def)
qed

lemma remove_entries:
  assumes "table_of hash eq h"
  shows "table_of hash eq (snd (g_hash_table_remove h key)) \<and>
    (fst (g_hash_table_remove h key) \<longleftrightarrow> g_hash_table_lookup h key \<noteq> None) \<and>
    g_hash_table_lookup (snd (g_hash_table_remove h key)) k =
      (if eq key k then None else g_hash_table_lookup h k) \<and>
    g_hash_table_size (snd (g_hash_table_remove h key)) =
      g_hash_table_size h - (if g_hash_table_lookup h key = None then 0 else 1)"
proof -
  let ?i = "bucket_index hash (table_size h) key"
  have hf: "hash_func h = hash" "key_equal_func h = eq" and wf: "ht_wf h" using assms by (auto simp: table_of_def)
  have i: "?i < table_size h" using wf by (simp add: ht_wf_def bucket_index_less)
  obtain A B where AB: "slots h = A @ table h ! ?i @ B" "\<And>c. concat ((table h)[?i := c]) = A @ c @ B"
    using slots_split [OF i] by metis
  have kd: "key_distinct eq (A @ table h ! ?i @ B)" using wf AB(1) hf by (simp add: ht_wf_def)
  have found: "g_hash_table_lookup h key = None \<longleftrightarrow> (\<forall>s \<in> set (table h ! ?i). \<not> eq (fst s) key)"
    using chain_lookup_None [of key "table h ! ?i"] hf
    by (auto simp: g_hash_table_lookup_def g_hash_table_lookup_extended_def split: option.splits)
  from unlink_slot_cases [of "table h ! ?i" key] show ?thesis
  proof
    assume "\<exists>pre k v post. table h ! ?i = pre @ (k, v) # post \<and> eq k key \<and>
      unlink_slot eq key (table h ! ?i) = (pre @ post, Some (k, v))"
    then obtain pre k0 v0 post where r: "table h ! ?i = pre @ (k0, v0) # post" "eq k0 key"
      "unlink_slot eq key (table h ! ?i) = (pre @ post, Some (k0, v0))" by blast
    let ?h = "snd (g_hash_table_remove h key)"
    have sl: "slots ?h = A @ pre @ post @ B" "slots h = A @ pre @ (k0, v0) # post @ B"
      using r AB hf by (simp_all add: g_hash_table_remove_def Let_def slots_def)
    have kd': "key_distinct eq (slots ?h)" "\<forall>s \<in> set (slots ?h). \<not> eq (fst s) k0 \<and> \<not> eq k0 (fst s)"
      using kd r(1) sym unfolding sl(1) by (auto simp: key_distinct_def sorted_wrt_append)
    have "in_place hash ((table h)[?i := pre @ post])"
      using wf hf i r(1) by (intro in_place_update) (auto simp: ht_wf_def in_place_def)
    then have h': "table_of hash eq ?h"
      using wf hf kd'(1) sl r(3) by (auto simp: table_of_def ht_wf_def g_hash_table_remove_def Let_def)
    have "g_hash_table_lookup ?h k = Some v \<longleftrightarrow> \<not> eq key k \<and> g_hash_table_lookup h k = Some v" for v
    proof (cases "eq key k")
      case True
      then have "\<not> eq l k" if "(l, v) \<in> set (slots ?h)" for l
        using kd'(2) that r(2) sym trans by (metis fst_conv)
      then show ?thesis using lookup_iff [OF h', of k v] True by auto
    next
      case False
      then have "\<not> eq k0 k" using r(2) sym trans by blast
      then have "(l, v) \<in> set (slots ?h) \<longleftrightarrow> (l, v) \<in> set (slots h)" if "eq l k" for l using sl that by auto
      then show ?thesis using lookup_iff [OF h', of k v] lookup_iff [OF assms, of k v] False by auto
    qed
    then have "g_hash_table_lookup ?h k = (if eq key k then None else g_hash_table_lookup h k)"
      by (intro option_eq_SomeI) auto
    then show ?thesis
      using h' found r hf wf sl by (auto simp: g_hash_table_remove_def g_hash_table_size_def Let_def)
  next
    assume n: "unlink_slot eq key (table h ! ?i) = (table h ! ?i, None) \<and> (\<forall>s \<in> set (table h ! ?i). \<not> eq (fst s) key)"
    then have r: "g_hash_table_remove h key = (False, h)" "g_hash_table_lookup h key = None"
      using hf found by (simp_all add: g_hash_table_remove_def Let_def)
    have "g_hash_table_lookup h k = None" if "eq key k"
      using lookup_iff [OF assms, of k] lookup_iff [OF assms, of key] r(2) that sym trans by (metis option.exhaust option.distinct(1))
    then show ?thesis using r assms by simp
  qed
qed

lemma new_table: "table_of hash eq (g_hash_table_new_full hash eq kd vd)"
  "slots (g_hash_table_new_full hash eq kd vd) = []"
  using g_spaced_primes_closest_pos [of 1]
  by (simp_all add: table_of_def ht_wf_def g_hash_table_new_full_def g_hash_table_new_def slots_def
      in_place_empty key_distinct_def)

lemma new_table_lookup: "g_hash_table_lookup (g_hash_table_new_full hash eq kd vd) k = None"
  using lookup_iff [OF new_table(1), of kd vd k] new_table(2) [of kd vd] by (metis empty_iff empty_set option.exhaust)

lemma remove_slots_entries:
  assumes "table_of hash eq h"
  shows "table_of hash eq (snd (remove_slots b h f)) \<and>
    fst (remove_slots b h f) = length (filter (\<lambda>(k, v). f k v) (slots h)) \<and>
    (g_hash_table_lookup_extended (snd (remove_slots b h f)) key = Some (k, v) \<longleftrightarrow>
      g_hash_table_lookup_extended h key = Some (k, v) \<and> \<not> f k v)"
proof -
  let ?keep = "filter (\<lambda>(k, v). \<not> f k v)"
  define h1 where "h1 = h\<lparr>table := map ?keep (table h),
    in_use := in_use h - length (filter (\<lambda>(k, v). f k v) (slots h)),
    destroyed := destroyed h @ (if b then concat (map (destroy_calls h) (filter (\<lambda>(k, v). f k v) (slots h))) else [])\<rparr>"
  have r: "remove_slots b h f = (length (filter (\<lambda>(k, v). f k v) (slots h)),
      if length (filter (\<lambda>(k, v). f k v) (slots h)) > 0 then rehash h1 else h1)"
    by (simp add: remove_slots_def Let_def remove_from_chain_eq filter_concat slots_def h1_def comp_def)
  have sl: "slots h1 = ?keep (slots h)" by (simp add: h1_def slots_def filter_concat)
  have len: "length (slots h) - length (filter (\<lambda>(k, v). f k v) (slots h)) = length (?keep (slots h))"
    using sum_length_filter_compl [of "\<lambda>(k, v). f k v" "slots h"] by (simp add: case_prod_unfold)
  have "in_place hash (table h1)"
    using assms by (force simp: table_of_def ht_wf_def in_place_def h1_def)
  then have h1: "table_of hash eq h1"
    using assms sl len by (auto simp: table_of_def ht_wf_def key_distinct_def h1_def)
  have "table_of hash eq (snd (remove_slots b h f)) \<and> set (slots (snd (remove_slots b h f))) = set (slots h1)"
    using r rehash_table [OF h1] h1 by (auto dest: mset_eq_setD)
  then show ?thesis using lookup_extended_iff [OF assms] lookup_extended_iff [of "snd (remove_slots b h f)"] r sl by auto
qed

lemma updates_refine:
  assumes "table_of hash eq h" "g_hash_table_lookup h = m"
  shows "table_of hash eq (foldl apply_update h us) \<and>
    g_hash_table_lookup (foldl apply_update h us) = foldl (spec_update eq) m us"
  using assms
proof (induction us arbitrary: h m)
  case (Cons u us)
  have "table_of hash eq (apply_update h u) \<and> g_hash_table_lookup (apply_update h u) = spec_update eq m u"
    using insert_entries [OF Cons.prems(1)] remove_entries [OF Cons.prems(1)] Cons.prems(2)
    by (cases u) (simp_all add: fun_eq_iff)
  then show ?case using Cons.IH by simp
qed simp

lemma new_updates_refine:
  "g_hash_table_lookup (foldl apply_update (g_hash_table_new_full hash eq kd vd) us) =
    foldl (spec_update eq) Map.empty us"
proof -
  have "g_hash_table_lookup (g_hash_table_new_full hash eq kd vd) = Map.empty"
    by (rule ext) (rule new_table_lookup)
  then show ?thesis using updates_refine [OF new_table(1)] by blast
qed

lemma size_is_card:
  assumes "table_of hash eq h" and "eq = (\<lambda>a b. a = b)"
  shows "finite (dom (g_hash_table_lookup h)) \<and> g_hash_table_size h = card (dom (g_hash_table_lookup h))"
proof -
  have "dom (g_hash_table_lookup h) = fst ` set (slots h)"
    using lookup_iff [OF assms(1)] assms(2) by (force simp: dom_def)
  moreover have "distinct (map fst (slots h))"
    using assms by (auto simp: table_of_def ht_wf_def key_distinct_def distinct_map_sorted_wrt)
  then have "card (fst ` set (slots h)) = length (slots h)" by (metis distinct_card length_map set_map)
  ultimately show ?thesis using assms(1) by (simp add: table_of_def ht_wf_def g_hash_table_size_def)
qed

end

section \<open>The hash functions of the library\<close>

interpretation direct: hash_contract g_direct_hash g_direct_equal
  by unfold_locales (auto simp: g_direct_equal_def)

interpretation int_keys: hash_contract g_int_hash g_int_equal
  by unfold_locales (auto simp: g_int_equal_def g_int_hash_def)

interpretation str: hash_contract g_str_hash g_str_equal
  by unfold_locales (auto simp: g_str_equal_def)

section \<open>Iteration\<close>

text \<open>What an iterator has still to deliver.\<close>

definition pending :: "('k, 'v) GHashTable \<Rightarrow> ('k, 'v) Iter \<Rightarrow> ('k \<times> 'v) list" where
  "pending h it = slot it @ concat (drop (nat (slot_index it + 1)) (table h))"

lemma next_chain_None: "next_chain cs i = None \<longleftrightarrow> concat cs = []"
  by (induction cs i rule: next_chain.induct) auto

lemma next_chain_Some:
  "next_chain cs i = Some (j, c) \<Longrightarrow> i \<le> j \<and> c \<noteq> [] \<and> concat cs = c @ concat (drop (nat (j - i) + 1) cs)"
proof (induction cs i rule: next_chain.induct)
  case (2 d cs i)
  show ?case
  proof (cases "d = []")
    case True
    then have IH: "i + 1 \<le> j" "c \<noteq> []" "concat cs = c @ concat (drop (nat (j - (i + 1)) + 1) cs)" using 2 by auto
    have "nat (j - i) + 1 = Suc (nat (j - (i + 1)) + 1)" using IH(1) by simp
    then have "drop (nat (j - i) + 1) (d # cs) = drop (nat (j - (i + 1)) + 1) cs" by (simp only: drop_Suc_Cons)
    then show ?thesis using IH True by simp
  next
    case False
    then show ?thesis using 2 by auto
  qed
qed simp

lemma iter_next_pending:
  assumes "- 1 \<le> slot_index it"
  shows "(pending h it = [] \<longrightarrow> (\<exists>it'. g_hash_table_iter_next h it = Inr (None, it'))) \<and>
    (pending h it \<noteq> [] \<longrightarrow> (\<exists>it'. g_hash_table_iter_next h it = Inr (Some (hd (pending h it)), it') \<and>
      - 1 \<le> slot_index it' \<and> pending h it' = tl (pending h it)))"
proof (cases "slot it")
  case Nil
  let ?cs = "drop (nat (slot_index it + 1)) (table h)" and ?i = "slot_index it + 1"
  show ?thesis
  proof (cases "next_chain ?cs ?i")
    case None
    then have "pending h it = []" using Nil next_chain_None [of ?cs ?i] by (simp add: pending_def)
    then show ?thesis using None Nil assms by (simp add: g_hash_table_iter_next_def)
  next
    case (Some jc)
    obtain j c where jc: "jc = (j, c)" by (cases jc)
    then have c: "?i \<le> j" "c \<noteq> []" "concat ?cs = c @ concat (drop (nat (j - ?i) + 1) ?cs)"
      using next_chain_Some [of ?cs ?i j c] Some by auto
    have "nat (j - ?i) + 1 + nat ?i = nat (j + 1)" using c(1) assms by linarith
    then have "concat ?cs = c @ concat (drop (nat (j + 1)) (table h))"
      by (subst c(3)) (simp only: drop_drop)
    then have p: "pending h it = c @ concat (drop (nat (j + 1)) (table h))" using Nil by (simp add: pending_def)
    have "g_hash_table_iter_next h it = Inr (Some (hd c), \<lparr>slot_index = j, slot = tl c\<rparr>)"
      using Nil Some jc assms by (simp add: g_hash_table_iter_next_def)
    then show ?thesis using p c(1,2) assms by (simp add: pending_def)
  qed
next
  case (Cons s rest)
  then show ?thesis using assms by (simp add: g_hash_table_iter_next_def pending_def guardr_def)
qed

text \<open>A client's loop over an iterator, at most \<open>n\<close> times; \<open>None\<close> when it is not done by then.\<close>

fun iterate :: "nat \<Rightarrow> ('k, 'v) GHashTable \<Rightarrow> ('k, 'v) Iter \<Rightarrow> ('k \<times> 'v) list option res" where
  "iterate 0 h it = Inr None"
| "iterate (Suc n) h it =
    bindr (g_hash_table_iter_next h it) (\<lambda>(r, it').
      case r of None \<Rightarrow> Inr (Some [])
      | Some s \<Rightarrow> bindr (iterate n h it') (\<lambda>rest. Inr (map_option (\<lambda>xs. s # xs) rest)))"

lemma iterate_pending:
  "- 1 \<le> slot_index it \<Longrightarrow> length (pending h it) < n \<Longrightarrow> iterate n h it = Inr (Some (pending h it))"
proof (induction n arbitrary: it)
  case (Suc n)
  show ?case
  proof (cases "pending h it")
    case Nil
    then show ?thesis using iter_next_pending [OF Suc.prems(1), of h] by auto
  next
    case (Cons s rest)
    then obtain it' where "g_hash_table_iter_next h it = Inr (Some s, it')" "- 1 \<le> slot_index it'" "pending h it' = rest"
      using iter_next_pending [OF Suc.prems(1), of h] by auto
    then show ?thesis using Suc Cons by simp
  qed
qed simp

lemma rehash_keeps [simp]:
  "destroyed (rehash h) = destroyed h" "in_use (rehash h) = in_use h"
  "has_key_destroy (rehash h) = has_key_destroy h" "has_value_destroy (rehash h) = has_value_destroy h"
  by (simp_all add: rehash_def do_rehash_def Let_def)

lemma remove_slots_calls:
  "destroyed (snd (remove_slots b h f)) =
    destroyed h @ (if b then concat (map (destroy_calls h) (filter (\<lambda>(k, v). f k v) (slots h))) else [])"
  by (simp add: remove_slots_def Let_def remove_from_chain_eq slots_def filter_concat comp_def)

lemma equal_funcs: "g_direct_equal = (\<lambda>a b. a = b)" "g_str_equal = (\<lambda>a b. a = b)"
  by (simp_all add: fun_eq_iff g_direct_equal_def g_str_equal_def)

section \<open>Properties\<close>

text \<open>
  C36.  After any sequence of insertions and removals on a new table, with keys compared as
  pointers or as strings, a lookup gives what the abstract map gives, through every rehash; and
  the size is the number of keys in it.
\<close>

theorem hash_table_refines_map:
  "g_hash_table_lookup (foldl apply_update (g_hash_table_new_full g_direct_hash g_direct_equal kd vd) us) =
      foldl (spec_update (\<lambda>a b. a = b)) Map.empty us \<and>
    g_hash_table_lookup (foldl apply_update (g_hash_table_new_full g_str_hash g_str_equal kd vd) ws) =
      foldl (spec_update (\<lambda>a b. a = b)) Map.empty ws \<and>
    g_hash_table_size (foldl apply_update (g_hash_table_new_full g_direct_hash g_direct_equal kd vd) us) =
      card (dom (foldl (spec_update (\<lambda>a b. a = b)) Map.empty us)) \<and>
    g_hash_table_size (foldl apply_update (g_hash_table_new_full g_str_hash g_str_equal kd vd) ws) =
      card (dom (foldl (spec_update (\<lambda>a b. a = b)) Map.empty ws))"
proof -
  note d = direct.new_updates_refine [of kd vd us] and t = str.new_updates_refine [of kd vd ws]
  have dt: "table_of g_direct_hash g_direct_equal (foldl apply_update (g_hash_table_new_full g_direct_hash g_direct_equal kd vd) us)"
    using direct.updates_refine [OF direct.new_table(1) refl] by blast
  have st: "table_of g_str_hash g_str_equal (foldl apply_update (g_hash_table_new_full g_str_hash g_str_equal kd vd) ws)"
    using str.updates_refine [OF str.new_table(1) refl] by blast
  show ?thesis
    using d t direct.size_is_card [OF dt] str.size_is_card [OF st] by (simp add: equal_funcs)
qed

text \<open>
  \<open>g_hash_table_foreach_remove\<close> removes exactly the entries for which the function answers
  true and counts them, keeps the invariant and every other entry with its stored key, and calls
  the destroy functions once for each removed entry, in table order, and for no other.
\<close>

theorem foreach_remove_exact:
  assumes "table_of g_direct_hash g_direct_equal h"
  shows "table_of g_direct_hash g_direct_equal (snd (g_hash_table_foreach_remove h f)) \<and>
    fst (g_hash_table_foreach_remove h f) = length (filter (\<lambda>(k, v). f k v) (g_hash_table_foreach h)) \<and>
    (g_hash_table_lookup_extended (snd (g_hash_table_foreach_remove h f)) key = Some (k, v) \<longleftrightarrow>
      g_hash_table_lookup_extended h key = Some (k, v) \<and> \<not> f k v) \<and>
    destroyed (snd (g_hash_table_foreach_remove h f)) =
      destroyed h @ concat (map (destroy_calls h) (filter (\<lambda>(k, v). f k v) (g_hash_table_foreach h)))"
  using direct.remove_slots_entries [OF assms, of True f key k v] remove_slots_calls [of True h f]
  by (simp add: g_hash_table_foreach_remove_def g_hash_table_foreach_def slots_def)

definition table_a :: "(addr, nat) GHashTable" where
  "table_a = foldl apply_update (g_hash_table_new_full g_direct_hash g_direct_equal False True) [Put 12 7 True, Put 5 8 True]"

lemma table_a_wf: "table_of g_direct_hash g_direct_equal table_a"
  unfolding table_a_def using direct.updates_refine [OF direct.new_table(1) refl] by blast

theorem foreach_remove_exact_witness:
  "table_of g_direct_hash g_direct_equal (snd (g_hash_table_foreach_remove table_a (\<lambda>k v. v = 7)))"
  using foreach_remove_exact [OF table_a_wf, of "\<lambda>k v. v = 7"] by blast

text \<open>
  A loop over an iterator ends and delivers exactly the entries that
  \<open>g_hash_table_foreach\<close> visits, each once and in the same order, without hitting the assertion
  against use after the end.
\<close>

theorem iterator_visits_all:
  "iterate (Suc (length (g_hash_table_foreach h))) h g_hash_table_iter_init = Inr (Some (g_hash_table_foreach h))"
  using iterate_pending [of g_hash_table_iter_init h "Suc (length (g_hash_table_foreach h))"]
  by (simp add: g_hash_table_iter_init_def pending_def g_hash_table_foreach_def)

text \<open>
  The string hash does not depend on the first character: two strings that differ only
  there always collide, and all strings of one character have the hash 0.
\<close>

theorem g_str_hash_ignores_first:
  "g_str_hash (a # s) = g_str_hash (b # s) \<and> g_str_hash [a] = 0"
  by (simp add: g_str_hash_def)

text \<open>
  The table size chosen for a number of entries is never 0, and for up to 13845163 entries
  it is at least that number; but the primality test used above that bound stops before the
  square root and accepts the square of a prime, such as 9 or 25.
\<close>

theorem table_sizes:
  "0 < g_spaced_primes_closest n \<and> (n \<le> 13845163 \<longrightarrow> n \<le> g_spaced_primes_closest n) \<and>
   test_prime 9 \<and> test_prime 25"
proof -
  have "n \<le> g_spaced_primes_closest n" if "n \<le> 13845163"
  proof -
    have "13845163 \<in> set prime_tbl" by (simp add: prime_tbl_def)
    then have "find (\<lambda>p. n \<le> p) prime_tbl \<noteq> None" using that by (auto simp: find_None_iff)
    then obtain p where "find (\<lambda>p. n \<le> p) prime_tbl = Some p" by blast
    moreover from this have "n \<le> p" by (auto simp: find_Some_iff)
    ultimately show ?thesis by (simp add: g_spaced_primes_closest_def)
  qed
  moreover have "test_prime 9" "test_prime 25" by (simp_all add: test_prime_def test_prime_loop.simps)
  ultimately show ?thesis using g_spaced_primes_closest_pos by blast
qed

theorem table_sizes_witness: "100 \<le> g_spaced_primes_closest 100"
  using table_sizes [of 100] by simp

end
