(* ===== verification/Eg_Slist.thy ===== *)
theory Eg_Slist
  imports Mono_Prelude
begin

text \<open>
  The singly linked lists of \<open>eglib/src/gslist.c\<close>, on an explicit store: a pointer is an
  address, 0 is the null pointer, and a node is a cell of the store that an operation may change
  in place.  Reading or writing through a pointer to no cell (null, or freed) is
  \<open>Inl Null_deref\<close>.  New nodes are taken from \<open>frontier\<close>, an address that no cell has had
  before.  A loop over a list need not end, on a cyclic list; it is a
  \<open>partial_function (option)\<close>, with \<open>None\<close> for a run that does not end.
\<close>

section \<open>The store\<close>

record 'a GSList =
  node_data :: 'a
  node_next :: addr

record 'a heap =
  cells :: "addr \<rightharpoonup> 'a GSList"
  frontier :: addr

definition deref :: "'a heap \<Rightarrow> addr \<Rightarrow> 'a GSList res" where
  "deref h p = (case cells h p of None \<Rightarrow> Inl Null_deref | Some c \<Rightarrow> Inr c)"

definition set_next :: "addr \<Rightarrow> addr \<Rightarrow> 'a heap \<Rightarrow> 'a heap res" where
  "set_next p q h = bindr (deref h p) (\<lambda>c. Inr (h\<lparr>cells := (cells h)(p \<mapsto> c\<lparr>node_next := q\<rparr>)\<rparr>))"

text \<open>Sequencing of a computation that may fail or not end.\<close>

definition bindo :: "'a res option \<Rightarrow> ('a \<Rightarrow> 'b res option) \<Rightarrow> 'b res option" where
  "bindo m f = Option.bind m (\<lambda>r. case r of Inl e \<Rightarrow> Some (Inl e) | Inr x \<Rightarrow> f x)"

lemma bindo_mono [partial_function_mono]:
  assumes mf: "monotone (fun_ord option_ord) option_ord B"
    and mg: "\<And>y. monotone (fun_ord option_ord) option_ord (\<lambda>f. C y f)"
  shows "monotone (fun_ord option_ord) option_ord (\<lambda>f. bindo (B f) (\<lambda>y. C y f))"
  unfolding bindo_def
proof (rule bind_mono [OF mf])
  show "monotone (fun_ord option_ord) option_ord (\<lambda>f. case y of Inl e \<Rightarrow> Some (Inl e) | Inr x \<Rightarrow> C x f)" for y
    by (cases y) (simp_all add: mg option.const_mono)
qed

lemma bindo_simps [simp]:
  "bindo (Some (Inr x)) f = f x" "bindo (Some (Inl e)) f = Some (Inl e)" "bindo None f = None"
  by (simp_all add: bindo_def)

section \<open>Allocation and links\<close>

definition g_slist_alloc :: "'a \<Rightarrow> 'a heap \<Rightarrow> addr \<times> 'a heap" where
  "g_slist_alloc null h =
    (frontier h, h\<lparr>cells := (cells h)(frontier h \<mapsto> \<lparr>node_data = null, node_next = 0\<rparr>), frontier := frontier h + 1\<rparr>)"

definition g_slist_free_1 :: "addr \<Rightarrow> 'a heap \<Rightarrow> 'a heap" where
  "g_slist_free_1 list h = h\<lparr>cells := (cells h)(list := None)\<rparr>"

text \<open>The two writes to the node that was just allocated.\<close>

definition g_slist_prepend :: "addr \<Rightarrow> 'a \<Rightarrow> 'a heap \<Rightarrow> addr \<times> 'a heap" where
  "g_slist_prepend list d h =
    (let (head, h') = g_slist_alloc d h in
     (head, h'\<lparr>cells := (cells h')(head \<mapsto> \<lparr>node_data = d, node_next = list\<rparr>)\<rparr>))"

definition insert_after :: "addr \<Rightarrow> 'a \<Rightarrow> 'a heap \<Rightarrow> (addr \<times> 'a heap) res" where
  "insert_after list d h =
    bindr (deref h list) (\<lambda>c.
      let (new, h') = g_slist_prepend (node_next c) d h in
      bindr (set_next list new h') (\<lambda>h''. Inr (new, h'')))"

section \<open>Searching\<close>

partial_function (option) find_prev_loop :: "'a heap \<Rightarrow> 'a \<Rightarrow> addr \<Rightarrow> addr \<Rightarrow> addr res option" where
  "find_prev_loop h d prev list =
    (if list = 0 then Some (Inr prev)
     else bindo (Some (deref h list)) (\<lambda>c.
       if node_data c = d then Some (Inr prev) else find_prev_loop h d list (node_next c)))"

definition find_prev :: "'a heap \<Rightarrow> addr \<Rightarrow> 'a \<Rightarrow> addr res option" where
  "find_prev h list d = find_prev_loop h d 0 list"

partial_function (option) find_prev_link_loop :: "'a heap \<Rightarrow> addr \<Rightarrow> addr \<Rightarrow> addr \<Rightarrow> addr res option" where
  "find_prev_link_loop h link prev list =
    (if list = 0 then Some (Inr prev)
     else if list = link then Some (Inr prev)
     else bindo (Some (deref h list)) (\<lambda>c. find_prev_link_loop h link list (node_next c)))"

definition find_prev_link :: "'a heap \<Rightarrow> addr \<Rightarrow> addr \<Rightarrow> addr res option" where
  "find_prev_link h list link = find_prev_link_loop h link 0 list"

partial_function (option) last_loop :: "'a heap \<Rightarrow> addr \<Rightarrow> addr res option" where
  "last_loop h list =
    bindo (Some (deref h list)) (\<lambda>c. if node_next c \<noteq> 0 then last_loop h (node_next c) else Some (Inr list))"

definition g_slist_last :: "'a heap \<Rightarrow> addr \<Rightarrow> addr res option" where
  "g_slist_last h list = (if list = 0 then Some (Inr 0) else last_loop h list)"

partial_function (option) g_slist_find :: "'a heap \<Rightarrow> addr \<Rightarrow> 'a \<Rightarrow> addr res option" where
  "g_slist_find h list d =
    (if list = 0 then Some (Inr 0)
     else bindo (Some (deref h list)) (\<lambda>c.
       if node_data c = d then Some (Inr list) else g_slist_find h (node_next c) d))"

partial_function (option) find_custom_loop :: "'a heap \<Rightarrow> addr \<Rightarrow> 'a \<Rightarrow> ('a \<Rightarrow> 'a \<Rightarrow> int) \<Rightarrow> addr res option" where
  "find_custom_loop h list d func =
    (if list = 0 then Some (Inr 0)
     else bindo (Some (deref h list)) (\<lambda>c.
       if func (node_data c) d = 0 then Some (Inr list) else find_custom_loop h (node_next c) d func))"

definition g_slist_find_custom :: "'a heap \<Rightarrow> addr \<Rightarrow> 'a \<Rightarrow> ('a \<Rightarrow> 'a \<Rightarrow> int) option \<Rightarrow> addr res option" where
  "g_slist_find_custom h list d func =
    (case func of None \<Rightarrow> Some (Inr 0) | Some f \<Rightarrow> find_custom_loop h list d f)"

text \<open>The calls \<open>func (list->data, user_data)\<close>, in order, when \<open>func\<close> leaves the list alone.\<close>

partial_function (option) g_slist_foreach :: "'a heap \<Rightarrow> addr \<Rightarrow> 'a list res option" where
  "g_slist_foreach h list =
    (if list = 0 then Some (Inr [])
     else bindo (Some (deref h list)) (\<lambda>c.
       bindo (g_slist_foreach h (node_next c)) (\<lambda>ds. Some (Inr (node_data c # ds)))))"

partial_function (option) length_loop :: "'a heap \<Rightarrow> addr \<Rightarrow> nat \<Rightarrow> nat res option" where
  "length_loop h list n =
    (if list = 0 then Some (Inr n)
     else bindo (Some (deref h list)) (\<lambda>c. length_loop h (node_next c) (n + 1)))"

definition g_slist_length :: "'a heap \<Rightarrow> addr \<Rightarrow> nat res option" where
  "g_slist_length h list = length_loop h list 0"

partial_function (option) index_loop :: "'a heap \<Rightarrow> addr \<Rightarrow> 'a \<Rightarrow> int \<Rightarrow> int res option" where
  "index_loop h list d index =
    (if list = 0 then Some (Inr (-1))
     else bindo (Some (deref h list)) (\<lambda>c.
       if node_data c = d then Some (Inr index) else index_loop h (node_next c) d (index + 1)))"

definition g_slist_index :: "'a heap \<Rightarrow> addr \<Rightarrow> 'a \<Rightarrow> int res option" where
  "g_slist_index h list d = index_loop h list d 0"

partial_function (option) g_slist_nth :: "'a heap \<Rightarrow> addr \<Rightarrow> nat \<Rightarrow> addr res option" where
  "g_slist_nth h list n =
    (if list = 0 then Some (Inr 0)
     else if n = 0 then Some (Inr list)
     else bindo (Some (deref h list)) (\<lambda>c. g_slist_nth h (node_next c) (n - 1)))"

definition g_slist_nth_data :: "'a heap \<Rightarrow> addr \<Rightarrow> nat \<Rightarrow> 'a option res option" where
  "g_slist_nth_data h list n =
    bindo (g_slist_nth h list n) (\<lambda>p.
      if p = 0 then Some (Inr None) else bindo (Some (deref h p)) (\<lambda>c. Some (Inr (Some (node_data c)))))"

section \<open>Changing a list\<close>

definition g_slist_concat :: "addr \<Rightarrow> addr \<Rightarrow> 'a heap \<Rightarrow> (addr \<times> 'a heap) res option" where
  "g_slist_concat list1 list2 h =
    (if list1 = 0 then Some (Inr (list2, h))
     else bindo (g_slist_last h list1) (\<lambda>l.
       bindo (Some (set_next l list2 h)) (\<lambda>h'. Some (Inr (list1, h')))))"

definition g_slist_append :: "addr \<Rightarrow> 'a \<Rightarrow> 'a heap \<Rightarrow> (addr \<times> 'a heap) res option" where
  "g_slist_append list d h = (let (n, h') = g_slist_prepend 0 d h in g_slist_concat list n h')"

definition g_slist_insert_before :: "addr \<Rightarrow> addr \<Rightarrow> 'a \<Rightarrow> 'a heap \<Rightarrow> (addr \<times> 'a heap) res option" where
  "g_slist_insert_before list sibling d h =
    bindo (find_prev_link h list sibling) (\<lambda>prev.
      if prev = 0 then Some (Inr (g_slist_prepend list d h))
      else bindo (Some (insert_after prev d h)) (\<lambda>(new, h'). Some (Inr (list, h'))))"

partial_function (option) g_slist_free :: "addr \<Rightarrow> 'a heap \<Rightarrow> 'a heap res option" where
  "g_slist_free list h =
    (if list = 0 then Some (Inr h)
     else bindo (Some (deref h list)) (\<lambda>c. g_slist_free (node_next c) (g_slist_free_1 list h)))"

partial_function (option) copy_loop :: "addr \<Rightarrow> addr \<Rightarrow> 'a heap \<Rightarrow> 'a heap res option" where
  "copy_loop tmp list h =
    (if list = 0 then Some (Inr h)
     else bindo (Some (deref h list)) (\<lambda>c.
       bindo (Some (insert_after tmp (node_data c) h)) (\<lambda>r. copy_loop (fst r) (node_next c) (snd r))))"

definition g_slist_copy :: "addr \<Rightarrow> 'a heap \<Rightarrow> (addr \<times> 'a heap) res option" where
  "g_slist_copy list h =
    (if list = 0 then Some (Inr (0, h))
     else bindo (Some (deref h list)) (\<lambda>c.
       let (copy, h') = g_slist_prepend 0 (node_data c) h in
       bindo (copy_loop copy (node_next c) h') (\<lambda>h''. Some (Inr (copy, h'')))))"

text \<open>
  Unlinking the node \<open>current\<close> after \<open>prev\<close>, or the first one when \<open>prev\<close> is null: the new
  head, the unlinked node (0 when there is none) and the store.
\<close>

definition unlink_next :: "addr \<Rightarrow> addr \<Rightarrow> 'a heap \<Rightarrow> (addr \<times> addr \<times> 'a heap) res" where
  "unlink_next list prev h =
    bindr (if prev = 0 then Inr list else bindr (deref h prev) (\<lambda>c. Inr (node_next c))) (\<lambda>current.
      if current = 0 then Inr (list, 0, h)
      else bindr (deref h current) (\<lambda>c.
        if prev = 0 then Inr (node_next c, current, h)
        else bindr (set_next prev (node_next c) h) (\<lambda>h'. Inr (list, current, h'))))"

definition g_slist_remove :: "addr \<Rightarrow> 'a \<Rightarrow> 'a heap \<Rightarrow> (addr \<times> 'a heap) res option" where
  "g_slist_remove list d h =
    bindo (find_prev h list d) (\<lambda>prev.
      bindo (Some (unlink_next list prev h)) (\<lambda>(list', current, h').
        Some (Inr (list', if current = 0 then h' else g_slist_free_1 current h'))))"

partial_function (option) remove_all_loop :: "'a \<Rightarrow> addr \<Rightarrow> addr \<Rightarrow> addr \<Rightarrow> 'a heap \<Rightarrow> (addr \<times> 'a heap) res option" where
  "remove_all_loop d list prev nxt h =
    (if nxt = 0 then Some (Inr (list, h))
     else bindo (find_prev h nxt d) (\<lambda>tmp_prev.
       let prev = (if tmp_prev \<noteq> 0 then tmp_prev else prev) in
       bindo (Some (if prev = 0 then Inr list else bindr (deref h prev) (\<lambda>c. Inr (node_next c)))) (\<lambda>current.
         if current = 0 then Some (Inr (list, h))
         else bindo (Some (deref h current)) (\<lambda>c.
           if prev = 0 then remove_all_loop d (node_next c) prev (node_next c) (g_slist_free_1 current h)
           else bindo (Some (set_next prev (node_next c) h)) (\<lambda>h'.
             remove_all_loop d list prev (node_next c) (g_slist_free_1 current h'))))))"

definition g_slist_remove_all :: "addr \<Rightarrow> 'a \<Rightarrow> 'a heap \<Rightarrow> (addr \<times> 'a heap) res option" where
  "g_slist_remove_all list d h = remove_all_loop d list 0 list h"

definition g_slist_remove_link :: "addr \<Rightarrow> addr \<Rightarrow> 'a heap \<Rightarrow> (addr \<times> 'a heap) res option" where
  "g_slist_remove_link list link h =
    bindo (find_prev_link h list link) (\<lambda>prev.
      bindo (Some (unlink_next list prev h)) (\<lambda>(list', current, h').
        if current = 0 then Some (Inr (list', h'))
        else bindo (Some (set_next current 0 h')) (\<lambda>h''. Some (Inr (list', h'')))))"

definition g_slist_delete_link :: "addr \<Rightarrow> addr \<Rightarrow> 'a heap \<Rightarrow> (addr \<times> 'a heap) res option" where
  "g_slist_delete_link list link h =
    bindo (g_slist_remove_link list link h) (\<lambda>(list', h'). Some (Inr (list', g_slist_free_1 link h')))"

partial_function (option) reverse_loop :: "addr \<Rightarrow> addr \<Rightarrow> 'a heap \<Rightarrow> (addr \<times> 'a heap) res option" where
  "reverse_loop prev list h =
    (if list = 0 then Some (Inr (prev, h))
     else bindo (Some (deref h list)) (\<lambda>c.
       bindo (Some (set_next list prev h)) (\<lambda>h'. reverse_loop list (node_next c) h')))"

definition g_slist_reverse :: "addr \<Rightarrow> 'a heap \<Rightarrow> (addr \<times> 'a heap) res option" where
  "g_slist_reverse list h = reverse_loop 0 list h"

partial_function (option) insert_sorted_loop :: "('a \<Rightarrow> 'a \<Rightarrow> int) \<Rightarrow> 'a \<Rightarrow> 'a heap \<Rightarrow> addr \<Rightarrow> addr res option" where
  "insert_sorted_loop func d h prev =
    bindo (Some (deref h prev)) (\<lambda>c.
      if node_next c = 0 then Some (Inr prev)
      else bindo (Some (deref h (node_next c))) (\<lambda>c'.
        if func (node_data c') d > 0 then Some (Inr prev) else insert_sorted_loop func d h (node_next c)))"

definition g_slist_insert_sorted :: "addr \<Rightarrow> 'a \<Rightarrow> ('a \<Rightarrow> 'a \<Rightarrow> int) option \<Rightarrow> 'a heap \<Rightarrow> (addr \<times> 'a heap) res option" where
  "g_slist_insert_sorted list d func h =
    (case func of None \<Rightarrow> Some (Inr (list, h))
     | Some f \<Rightarrow>
        if list = 0 then Some (Inr (g_slist_prepend list d h))
        else bindo (Some (deref h list)) (\<lambda>c.
          if f (node_data c) d > 0 then Some (Inr (g_slist_prepend list d h))
          else bindo (insert_sorted_loop f d h list) (\<lambda>prev.
            bindo (Some (insert_after prev d h)) (\<lambda>(new, h'). Some (Inr (list, h'))))))"

end
