(* ===== verification/Eg_Slist_Proofs.thy ===== *)
theory Eg_Slist_Proofs
  imports Eg_Slist
begin

text \<open>
  Lists in the store.  \<open>seg h p as q\<close> says that following the links from \<open>p\<close> passes through the
  nodes \<open>as\<close> and arrives at \<open>q\<close>; a whole list is a segment that ends in the null pointer.  Each
  loop is shown to end and to compute what it should on such a list.
\<close>

section \<open>Segments\<close>

fun seg :: "'a heap \<Rightarrow> addr \<Rightarrow> addr list \<Rightarrow> addr \<Rightarrow> bool" where
  "seg h p [] q \<longleftrightarrow> p = q"
| "seg h p (a # as) q \<longleftrightarrow> p = a \<and> a \<noteq> 0 \<and> (\<exists>c. cells h a = Some c \<and> seg h (node_next c) as q)"

definition val :: "'a heap \<Rightarrow> addr \<Rightarrow> 'a" where
  "val h a = node_data (the (cells h a))"

definition heap_ok :: "'a heap \<Rightarrow> bool" where
  "heap_ok h \<longleftrightarrow> 0 < frontier h \<and> (\<forall>a c. cells h a = Some c \<longrightarrow> 0 < a \<and> a < frontier h)"

lemma seg_append: "seg h p (as @ bs) q \<longleftrightarrow> (\<exists>r. seg h p as r \<and> seg h r bs q)"
  by (induction as arbitrary: p) auto

lemma seg_Nil0 [simp]: "seg h 0 as q \<longleftrightarrow> as = [] \<and> q = 0"
  by (cases as) auto

lemma seg_null_iff: "seg h p as 0 \<Longrightarrow> p = 0 \<longleftrightarrow> as = []"
  by (cases as) auto

lemma seg_unique: "seg h p as 0 \<Longrightarrow> seg h p bs 0 \<Longrightarrow> as = bs"
proof (induction as arbitrary: p bs)
  case (Cons a as)
  then show ?case by (cases bs) auto
qed simp

lemma seg_distinct: "seg h p as 0 \<Longrightarrow> distinct as"
proof (induction as arbitrary: p)
  case (Cons a as)
  then obtain c where c: "cells h a = Some c" "seg h (node_next c) as 0" by auto
  have "a \<notin> set as"
  proof
    assume "a \<in> set as"
    then obtain xs ys where "as = xs @ a # ys" by (meson split_list)
    then have "seg h a (a # ys) 0" using c(2) by (auto simp: seg_append)
    moreover have "seg h a (a # as) 0" using Cons.prems by auto
    ultimately have "a # as = a # ys" using seg_unique by blast
    then show False using \<open>as = xs @ a # ys\<close> by simp
  qed
  then show ?case using Cons.IH [OF c(2)] by simp
qed simp

lemma seg_dom: "seg h p as q \<Longrightarrow> set as \<subseteq> dom (cells h)"
  by (induction as arbitrary: p) auto

lemma seg_cong: "(\<And>a. a \<in> set as \<Longrightarrow> cells h' a = cells h a) \<Longrightarrow> seg h' p as q \<longleftrightarrow> seg h p as q"
  by (induction as arbitrary: p) auto

lemma val_cong: "cells h' a = cells h a \<Longrightarrow> val h' a = val h a"
  by (simp add: val_def)

lemma deref_Some [simp]: "cells h p = Some c \<Longrightarrow> deref h p = Inr c"
  by (simp add: deref_def)

lemma set_next_Some [simp]:
  "cells h p = Some c \<Longrightarrow> set_next p q h = Inr (h\<lparr>cells := (cells h)(p \<mapsto> c\<lparr>node_next := q\<rparr>)\<rparr>)"
  by (simp add: set_next_def)

lemma val_Some: "cells h a = Some c \<Longrightarrow> val h a = node_data c"
  by (simp add: val_def)

section \<open>Searches\<close>

lemma find_prev_loop_seg:
  "seg h p as 0 \<Longrightarrow> find_prev_loop h d q p = Some (Inr (last (q # takeWhile (\<lambda>a. val h a \<noteq> d) as)))"
proof (induction as arbitrary: p q)
  case Nil
  then show ?case by (subst find_prev_loop.simps) simp
next
  case (Cons a as)
  then obtain c where c: "cells h a = Some c" "seg h (node_next c) as 0" "p = a" "a \<noteq> 0" by auto
  then show ?case using Cons.IH [OF c(2)] by (subst find_prev_loop.simps) (simp add: val_Some)
qed

lemma find_prev_link_loop_seg:
  "seg h p as 0 \<Longrightarrow> find_prev_link_loop h link q p = Some (Inr (last (q # takeWhile (\<lambda>a. a \<noteq> link) as)))"
proof (induction as arbitrary: p q)
  case Nil
  then show ?case by (subst find_prev_link_loop.simps) simp
next
  case (Cons a as)
  then obtain c where c: "cells h a = Some c" "seg h (node_next c) as 0" "p = a" "a \<noteq> 0" by auto
  then show ?case using Cons.IH [OF c(2)] by (subst find_prev_link_loop.simps) simp
qed

lemma last_loop_seg: "seg h p (a # as) 0 \<Longrightarrow> last_loop h p = Some (Inr (last (a # as)))"
proof (induction as arbitrary: p a)
  case Nil
  then show ?case by (subst last_loop.simps) auto
next
  case (Cons b as)
  then obtain c where c: "cells h a = Some c" "seg h (node_next c) (b # as) 0" "p = a" by auto
  then have "node_next c \<noteq> 0" by auto
  then show ?case using Cons.IH [OF c(2)] c by (subst last_loop.simps) simp
qed

lemma foreach_seg: "seg h p as 0 \<Longrightarrow> g_slist_foreach h p = Some (Inr (map (val h) as))"
proof (induction as arbitrary: p)
  case Nil
  then show ?case by (subst g_slist_foreach.simps) simp
next
  case (Cons a as)
  then obtain c where c: "cells h a = Some c" "seg h (node_next c) as 0" "p = a" "a \<noteq> 0" by auto
  then show ?case using Cons.IH [OF c(2)] by (subst g_slist_foreach.simps) (simp add: val_Some)
qed

lemma length_loop_seg: "seg h p as 0 \<Longrightarrow> length_loop h p n = Some (Inr (n + length as))"
proof (induction as arbitrary: p n)
  case Nil
  then show ?case by (subst length_loop.simps) simp
next
  case (Cons a as)
  then obtain c where c: "cells h a = Some c" "seg h (node_next c) as 0" "p = a" "a \<noteq> 0" by auto
  then show ?case using Cons.IH [OF c(2)] by (subst length_loop.simps) simp
qed

lemma nth_seg: "seg h p as 0 \<Longrightarrow> g_slist_nth h p n = Some (Inr (if n < length as then as ! n else 0))"
proof (induction as arbitrary: p n)
  case Nil
  then show ?case by (subst g_slist_nth.simps) simp
next
  case (Cons a as)
  then obtain c where c: "cells h a = Some c" "seg h (node_next c) as 0" "p = a" "a \<noteq> 0" by auto
  then show ?case using Cons.IH [OF c(2)] by (subst g_slist_nth.simps) (cases n, simp_all)
qed

lemma find_seg:
  "seg h p as 0 \<Longrightarrow> g_slist_find h p d =
    Some (Inr (case find (\<lambda>a. val h a = d) as of None \<Rightarrow> 0 | Some a \<Rightarrow> a))"
proof (induction as arbitrary: p)
  case Nil
  then show ?case by (subst g_slist_find.simps) simp
next
  case (Cons a as)
  then obtain c where c: "cells h a = Some c" "seg h (node_next c) as 0" "p = a" "a \<noteq> 0" by auto
  then show ?case using Cons.IH [OF c(2)] by (subst g_slist_find.simps) (simp add: val_Some)
qed

lemma find_custom_seg:
  "seg h p as 0 \<Longrightarrow> find_custom_loop h p d f =
    Some (Inr (case find (\<lambda>a. f (val h a) d = 0) as of None \<Rightarrow> 0 | Some a \<Rightarrow> a))"
proof (induction as arbitrary: p)
  case Nil
  then show ?case by (subst find_custom_loop.simps) simp
next
  case (Cons a as)
  then obtain c where c: "cells h a = Some c" "seg h (node_next c) as 0" "p = a" "a \<noteq> 0" by auto
  then show ?case using Cons.IH [OF c(2)] by (subst find_custom_loop.simps) (simp add: val_Some)
qed

lemma index_seg:
  "seg h p as 0 \<Longrightarrow> index_loop h p d n =
    Some (Inr (if d \<in> val h ` set as then n + int (length (takeWhile (\<lambda>a. val h a \<noteq> d) as)) else -1))"
proof (induction as arbitrary: p n)
  case Nil
  then show ?case by (subst index_loop.simps) simp
next
  case (Cons a as)
  then obtain c where c: "cells h a = Some c" "seg h (node_next c) as 0" "p = a" "a \<noteq> 0" by auto
  then show ?case using Cons.IH [OF c(2)] by (subst index_loop.simps) (auto simp: val_Some)
qed

lemma insert_sorted_loop_seg:
  "seg h p (a # as) 0 \<Longrightarrow> insert_sorted_loop f d h p =
    Some (Inr (last (a # takeWhile (\<lambda>b. f (val h b) d \<le> 0) as)))"
proof (induction as arbitrary: p a)
  case Nil
  then show ?case by (subst insert_sorted_loop.simps) auto
next
  case (Cons b as)
  then obtain c where c: "cells h a = Some c" "seg h (node_next c) (b # as) 0" "p = a" by auto
  then obtain c' where c': "cells h b = Some c'" "node_next c = b" "b \<noteq> 0" by auto
  then show ?case
    using Cons.IH [OF c(2)] c by (subst insert_sorted_loop.simps) (auto simp: val_Some not_less)
qed

section \<open>Relinking and allocation\<close>

definition relink :: "addr \<Rightarrow> addr \<Rightarrow> 'a heap \<Rightarrow> 'a heap" where
  "relink a q h = h\<lparr>cells := (cells h)(a \<mapsto> (the (cells h a))\<lparr>node_next := q\<rparr>)\<rparr>"

lemma set_next_relink: "a \<in> dom (cells h) \<Longrightarrow> set_next a q h = Inr (relink a q h)"
  by (auto simp: relink_def)

lemma relink_simps [simp]:
  "a \<in> dom (cells h) \<Longrightarrow> dom (cells (relink a q h)) = dom (cells h)"
  "a \<in> dom (cells h) \<Longrightarrow> val (relink a q h) = val h"
  "b \<noteq> a \<Longrightarrow> cells (relink a q h) b = cells h b"
  "frontier (relink a q h) = frontier h"
  by (auto simp: relink_def val_def fun_eq_iff)

lemma relink_heap_ok: "heap_ok h \<Longrightarrow> a \<in> dom (cells h) \<Longrightarrow> heap_ok (relink a q h)"
  by (auto simp: heap_ok_def relink_def)

lemma seg_relink_last:
  assumes "seg h p (xs @ [a]) r" "a \<notin> set xs"
  shows "seg (relink a q h) p (xs @ [a]) q"
proof -
  obtain c where c: "seg h p xs a" "cells h a = Some c" "a \<noteq> 0" using assms(1) by (auto simp: seg_append)
  have "seg (relink a q h) p xs a" using seg_cong [of xs "relink a q h" h p a] c(1) assms(2) by (metis relink_simps(3))
  then show ?thesis using c by (auto simp: seg_append relink_def)
qed

lemma seg_relink_other: "a \<notin> set xs \<Longrightarrow> seg (relink a q h) p xs r \<longleftrightarrow> seg h p xs r"
  by (rule seg_cong) (metis relink_simps(3))

lemma relink_split:
  assumes "seg h p (xs @ a # ys) 0" "seg h q zs 0" "a \<notin> set zs"
  shows "seg (relink a q h) p (xs @ a # zs) 0" "a \<in> dom (cells h)"
proof -
  have d: "distinct (xs @ a # ys)" using seg_distinct [OF assms(1)] .
  obtain r where "seg h p (xs @ [a]) r" using assms(1) seg_append [of h p "xs @ [a]" ys 0] by auto
  then have "seg (relink a q h) p (xs @ [a]) q" using d by (intro seg_relink_last) auto
  moreover have "seg (relink a q h) q zs 0" using seg_relink_other [OF assms(3)] assms(2) by blast
  ultimately show "seg (relink a q h) p (xs @ a # zs) 0" using seg_append [of _ p "xs @ [a]" zs 0] by auto
  show "a \<in> dom (cells h)" using seg_dom [OF assms(1)] by auto
qed

lemma seg_tail: "seg h p (xs @ a # ys) 0 \<Longrightarrow> cells h a = Some c \<Longrightarrow> seg h (node_next c) ys 0"
  by (auto simp: seg_append)

lemma seg_frontier: "heap_ok h \<Longrightarrow> seg h p as q \<Longrightarrow> frontier h \<notin> set as"
  using seg_dom by (fastforce simp: heap_ok_def)

lemma prepend_spec:
  assumes "heap_ok h"
  shows "\<exists>h'. g_slist_prepend q d h = (frontier h, h') \<and> heap_ok h' \<and> frontier h' = frontier h + 1 \<and>
    cells h' = (cells h)(frontier h \<mapsto> \<lparr>node_data = d, node_next = q\<rparr>)"
  using assms by (fastforce simp: g_slist_prepend_def g_slist_alloc_def heap_ok_def)

lemma fresh_cell:
  assumes "heap_ok h" "seg h p as q" "cells h' = (cells h)(frontier h \<mapsto> c)"
  shows "seg h' p as q" "map (val h') as = map (val h) as" "frontier h \<notin> set as"
    "a \<in> dom (cells h) \<Longrightarrow> cells h' a = cells h a"
proof -
  show f: "frontier h \<notin> set as" using seg_frontier [OF assms(1,2)] .
  then have same: "cells h' a = cells h a" if "a \<in> set as" for a using assms(3) that by auto
  then show "seg h' p as q" using seg_cong [OF same] assms(2) by blast
  show "map (val h') as = map (val h) as" using same by (simp add: val_def)
  show "cells h' a = cells h a" if "a \<in> dom (cells h)" for a
    using assms(1,3) that by (auto simp: heap_ok_def)
qed

text \<open>
  The outcome of an operation that returns a list: it returns, the store is sound, the list
  passes through \<open>as\<close> and has the elements \<open>xs\<close>, and no cell outside \<open>A\<close> was changed.
\<close>

definition returns_list :: "(addr \<times> 'a heap) res option \<Rightarrow> 'a heap \<Rightarrow> addr set \<Rightarrow> addr list \<Rightarrow> 'a list \<Rightarrow> bool" where
  "returns_list r h A as xs \<longleftrightarrow> (\<exists>p h'. r = Some (Inr (p, h')) \<and> heap_ok h' \<and> seg h' p as 0 \<and>
    map (val h') as = xs \<and> (\<forall>a \<in> dom (cells h) - A. cells h' a = cells h a))"

lemma returns_listI:
  "r = Some (Inr (p, h')) \<Longrightarrow> heap_ok h' \<Longrightarrow> seg h' p as 0 \<Longrightarrow> map (val h') as = xs \<Longrightarrow>
    (\<And>a. a \<in> dom (cells h) \<Longrightarrow> a \<notin> A \<Longrightarrow> cells h' a = cells h a) \<Longrightarrow> returns_list r h A as xs"
  by (auto simp: returns_list_def)

lemma returns_list_from:
  assumes "returns_list r h' A as xs" "\<And>a. a \<in> dom (cells h) \<Longrightarrow> a \<notin> A \<Longrightarrow> cells h' a = cells h a"
  shows "returns_list r h A as xs"
proof -
  have "a \<in> dom (cells h') - A" if "a \<in> dom (cells h) - A" for a using assms(2) [of a] that by auto
  then show ?thesis using assms unfolding returns_list_def by (metis Diff_iff)
qed

lemma prepend_returns:
  assumes "heap_ok h" "seg h p as 0"
  shows "returns_list (Some (Inr (g_slist_prepend p d h))) h {} (frontier h # as) (d # map (val h) as)"
proof -
  obtain h' where h': "g_slist_prepend p d h = (frontier h, h')" "heap_ok h'"
    "cells h' = (cells h)(frontier h \<mapsto> \<lparr>node_data = d, node_next = p\<rparr>)"
    using prepend_spec [OF assms(1)] by blast
  note f = fresh_cell [OF assms h'(3)]
  have "frontier h \<noteq> 0" using assms(1) by (auto simp: heap_ok_def)
  then have "seg h' (frontier h) (frontier h # as) 0" "val h' (frontier h) = d"
    using f(1) h'(3) by (auto simp: val_def)
  then show ?thesis
    using h'(1,2) f by (intro returns_listI [of _ "frontier h" h']) auto
qed

lemma concat_returns:
  assumes "heap_ok h" "seg h p as 0" "seg h q bs 0" "set as \<inter> set bs = {}"
  shows "returns_list (g_slist_concat p q h) h (set as) (as @ bs) (map (val h) (as @ bs))"
proof (cases as rule: rev_cases)
  case Nil
  then show ?thesis using assms by (intro returns_listI [of _ q h]) (auto simp: g_slist_concat_def)
next
  case (snoc xs a)
  have p: "p \<noteq> 0" using seg_null_iff [OF assms(2)] snoc by simp
  have "g_slist_last h p = Some (Inr a)"
    using last_loop_seg [of h p "hd as" "tl as"] assms(2) snoc p by (simp add: g_slist_last_def)
  moreover have s: "seg (relink a q h) p (xs @ a # bs) 0" "a \<in> dom (cells h)"
    using relink_split [of h p xs a "[]" q bs] assms snoc by auto
  ultimately have "g_slist_concat p q h = Some (Inr (p, relink a q h))"
    using p by (simp add: g_slist_concat_def set_next_relink)
  then show ?thesis
    using s snoc relink_heap_ok [OF assms(1) s(2)] by (intro returns_listI [of _ p "relink a q h"]) auto
qed

lemma append_returns:
  assumes "heap_ok h" "seg h p as 0"
  shows "returns_list (g_slist_append p d h) h (set as) (as @ [frontier h]) (map (val h) as @ [d])"
proof -
  obtain h' where h': "g_slist_prepend 0 d h = (frontier h, h')" "heap_ok h'"
    "cells h' = (cells h)(frontier h \<mapsto> \<lparr>node_data = d, node_next = 0\<rparr>)"
    using prepend_spec [OF assms(1)] by blast
  note f = fresh_cell [OF assms h'(3)]
  have "frontier h \<noteq> 0" using assms(1) by (auto simp: heap_ok_def)
  then have r: "returns_list (g_slist_concat p (frontier h) h') h' (set as) (as @ [frontier h]) (map (val h') (as @ [frontier h]))"
    using concat_returns [OF h'(2) f(1), of "frontier h" "[frontier h]"] f(3) h'(3) by simp
  have "val h' (frontier h) = d" using h'(3) by (simp add: val_def)
  then show ?thesis using returns_list_from [OF r, of h] h'(1) f(2,4) by (simp add: g_slist_append_def)
qed

text \<open>Insertion of a new node after the node \<open>a\<close> of a list.\<close>

lemma insert_after_returns:
  assumes "heap_ok h" "seg h p (xs @ a # ys) 0"
  shows "\<exists>h'. insert_after a d h = Inr (frontier h, h') \<and>
    returns_list (Some (Inr (p, h'))) h {a} (xs @ a # frontier h # ys) (map (val h) (xs @ [a]) @ d # map (val h) ys)"
proof -
  obtain c where c: "cells h a = Some c" using seg_dom [OF assms(2)] by auto
  obtain h1 where h1: "g_slist_prepend (node_next c) d h = (frontier h, h1)" "heap_ok h1"
    "cells h1 = (cells h)(frontier h \<mapsto> \<lparr>node_data = d, node_next = node_next c\<rparr>)"
    using prepend_spec [OF assms(1)] by blast
  let ?n = "frontier h"
  note f = fresh_cell [OF assms h1(3)]
  note g = fresh_cell [OF assms(1) seg_tail [OF assms(2) c] h1(3)]
  have n0: "?n \<noteq> 0" using assms(1) by (auto simp: heap_ok_def)
  have d: "distinct (xs @ a # ys)" using seg_distinct [OF assms(2)] .
  have "seg h1 ?n (?n # ys) 0" using g(1) h1(3) n0 by auto
  then have s: "seg (relink a ?n h1) p (xs @ a # ?n # ys) 0" "a \<in> dom (cells h1)"
    using relink_split [OF f(1), of ?n "?n # ys"] d f(3) by auto
  have "insert_after a d h = Inr (?n, relink a ?n h1)"
    using c h1(1) s(2) by (simp add: insert_after_def set_next_relink)
  moreover have "val h1 ?n = d" using h1(3) by (simp add: val_def)
  then have "map (val (relink a ?n h1)) (xs @ a # ?n # ys) = map (val h) (xs @ [a]) @ d # map (val h) ys"
    using s(2) f(2) by simp
  moreover have "cells (relink a ?n h1) b = cells h b" if "b \<in> dom (cells h)" "b \<notin> {a}" for b
    using that f(4) by simp
  ultimately show ?thesis
    using s relink_heap_ok [OF h1(2) s(2)]
    by (intro exI [of _ "relink a ?n h1"] conjI returns_listI [of _ p "relink a ?n h1"]) auto
qed

section \<open>Unlinking and freeing\<close>

lemma free_1_simps [simp]:
  "b \<noteq> a \<Longrightarrow> cells (g_slist_free_1 a h) b = cells h b" "frontier (g_slist_free_1 a h) = frontier h"
  "dom (cells (g_slist_free_1 a h)) = dom (cells h) - {a}" "b \<noteq> a \<Longrightarrow> val (g_slist_free_1 a h) b = val h b"
  by (auto simp: g_slist_free_1_def val_def split: if_splits)

lemma free_cell:
  assumes "heap_ok h" "a \<notin> set as"
  shows "heap_ok (g_slist_free_1 a h)" "seg (g_slist_free_1 a h) p as q \<longleftrightarrow> seg h p as q"
    "map (val (g_slist_free_1 a h)) as = map (val h) as"
proof -
  show "heap_ok (g_slist_free_1 a h)" using assms(1) by (auto simp: heap_ok_def g_slist_free_1_def split: if_splits)
  show "seg (g_slist_free_1 a h) p as q \<longleftrightarrow> seg h p as q" using assms(2) by (intro seg_cong) (metis free_1_simps(1))
  show "map (val (g_slist_free_1 a h)) as = map (val h) as" using assms(2) by (metis (no_types) free_1_simps(4) map_cong)
qed

text \<open>The store after the node \<open>a\<close> that follows the nodes \<open>xs\<close> was unlinked, and the new head.\<close>

definition unlinked :: "addr list \<Rightarrow> addr \<Rightarrow> 'a heap \<Rightarrow> 'a heap" where
  "unlinked xs n h = (if xs = [] then h else relink (last xs) n h)"

lemma unlink_seg:
  assumes "heap_ok h" "seg h p (xs @ a # ys) 0" "cells h a = Some c"
  shows "unlink_next p (last (0 # xs)) h = Inr (if xs = [] then node_next c else p, a, unlinked xs (node_next c) h)"
    "seg (unlinked xs (node_next c) h) (if xs = [] then node_next c else p) (xs @ ys) 0"
    "heap_ok (unlinked xs (node_next c) h)" "val (unlinked xs (node_next c) h) = val h"
    "dom (cells (unlinked xs (node_next c) h)) = dom (cells h)"
    "b \<notin> set xs \<Longrightarrow> cells (unlinked xs (node_next c) h) b = cells h b"
    "a \<noteq> 0" "a \<notin> set xs" "a \<notin> set ys"
proof -
  show a: "a \<noteq> 0" using assms(2) by (auto simp: seg_append)
  have d: "distinct (xs @ a # ys)" using seg_distinct [OF assms(2)] .
  then show "a \<notin> set xs" "a \<notin> set ys" by auto
  note tl = seg_tail [OF assms(2,3)]
  let ?n = "node_next c"
  have "unlink_next p (last (0 # xs)) h = Inr (if xs = [] then ?n else p, a, unlinked xs ?n h) \<and>
    seg (unlinked xs ?n h) (if xs = [] then ?n else p) (xs @ ys) 0 \<and> (xs \<noteq> [] \<longrightarrow> last xs \<in> dom (cells h))"
  proof (cases xs rule: rev_cases)
    case Nil
    then have "p = a" using assms(2) by simp
    then show ?thesis using Nil tl a assms(3) by (simp add: unlink_next_def unlinked_def)
  next
    case (snoc zs b)
    then have s: "seg h p (zs @ b # a # ys) 0" using assms(2) by simp
    then obtain e where e: "cells h b = Some e" "node_next e = a" "b \<noteq> 0" by (auto simp: seg_append)
    have r: "seg (relink b ?n h) p (zs @ b # ys) 0" "b \<in> dom (cells h)" using relink_split [OF s tl] d snoc by auto
    then have "unlink_next p b h = Inr (p, a, relink b ?n h)"
      using e a assms(3) by (simp add: unlink_next_def relink_def)
    then show ?thesis using r snoc by (simp add: unlinked_def)
  qed
  then show "unlink_next p (last (0 # xs)) h = Inr (if xs = [] then ?n else p, a, unlinked xs ?n h)"
    "seg (unlinked xs ?n h) (if xs = [] then ?n else p) (xs @ ys) 0"
    "heap_ok (unlinked xs ?n h)" "val (unlinked xs ?n h) = val h" "dom (cells (unlinked xs ?n h)) = dom (cells h)"
    using assms(1) relink_heap_ok [of h "last xs" ?n] unfolding unlinked_def by simp_all
  show "b \<notin> set xs \<Longrightarrow> cells (unlinked xs ?n h) b = cells h b"
    by (metis unlinked_def last_in_set relink_simps(3))
qed

lemma unlink_none: "seg h p as 0 \<Longrightarrow> unlink_next p (last (0 # as)) h = Inr (p, 0, h)"
proof (cases as rule: rev_cases)
  case (snoc xs a)
  assume s: "seg h p as 0"
  then obtain c where "cells h a = Some c" "node_next c = 0" "a \<noteq> 0" using snoc by (auto simp: seg_append)
  then show ?thesis using snoc by (simp add: unlink_next_def)
qed (simp add: unlink_next_def)

text \<open>A list split at the first node that satisfies a condition.\<close>

lemma first_node:
  assumes "a \<in> set as" "P a"
  obtains ys b where "as = takeWhile (\<lambda>a. \<not> P a) as @ b # ys" "P b" "\<forall>a \<in> set (takeWhile (\<lambda>a. \<not> P a) as). \<not> P a"
proof -
  have "dropWhile (\<lambda>a. \<not> P a) as \<noteq> []" using assms by (metis dropWhile_eq_Nil_conv)
  then obtain b ys where b: "dropWhile (\<lambda>a. \<not> P a) as = b # ys" by (meson neq_Nil_conv)
  then have "P b" by (metis hd_dropWhile list.sel(1) list.simps(3))
  moreover have "as = takeWhile (\<lambda>a. \<not> P a) as @ b # ys" using b by (metis takeWhile_dropWhile_id)
  ultimately show ?thesis using that set_takeWhileD by metis
qed

lemma no_node: "(\<And>a. a \<in> set as \<Longrightarrow> \<not> P a) \<Longrightarrow> takeWhile (\<lambda>a. \<not> P a) as = as"
  by simp

lemma remove1_at: "d \<notin> set xs \<Longrightarrow> remove1 d (xs @ d # ys) = xs @ ys"
  by (simp add: remove1_append)

lemma remove_returns:
  assumes "heap_ok h" "seg h p as 0" and d: "d \<in> val h ` set as"
  obtains xs a ys where "as = xs @ a # ys" "val h a = d" "d \<notin> val h ` set xs"
    "returns_list (g_slist_remove p d h) h (set (xs @ [a])) (xs @ ys) (map (val h) (xs @ ys))"
proof -
  define xs where "xs = takeWhile (\<lambda>a. val h a \<noteq> d) as"
  from d obtain a0 where "a0 \<in> set as" "val h a0 = d" by auto
  then obtain a ys where as: "as = xs @ a # ys" "val h a = d" "\<forall>a \<in> set xs. val h a \<noteq> d"
    unfolding xs_def by (rule first_node)
  obtain c where c: "cells h a = Some c" using seg_dom [OF assms(2)] as(1) by auto
  note u = unlink_seg [OF assms(1) assms(2) [unfolded as(1)] c]
  let ?h = "g_slist_free_1 a (unlinked xs (node_next c) h)"
  have a: "a \<notin> set (xs @ ys)" using u(8,9) by simp
  have "find_prev h p d = Some (Inr (last (0 # xs)))"
    using find_prev_loop_seg [OF assms(2)] by (simp add: find_prev_def xs_def)
  then have "g_slist_remove p d h = Some (Inr (if xs = [] then node_next c else p, ?h))"
    using u(1,7) by (simp add: g_slist_remove_def)
  moreover have "cells ?h b = cells h b" if "b \<notin> set (xs @ [a])" for b using u(6) that by auto
  ultimately have "returns_list (g_slist_remove p d h) h (set (xs @ [a])) (xs @ ys) (map (val h) (xs @ ys))"
    using free_cell [OF u(3) a] u(2,4)
    by (intro returns_listI [of _ "if xs = [] then node_next c else p" ?h]) auto
  moreover have "d \<notin> val h ` set xs" using as(3) by auto
  ultimately show ?thesis using that as by blast
qed

lemma remove_absent:
  assumes "seg h p as 0" "d \<notin> val h ` set as"
  shows "g_slist_remove p d h = Some (Inr (p, h))"
proof -
  have "takeWhile (\<lambda>a. val h a \<noteq> d) as = as" using assms(2) by auto
  then have "find_prev h p d = Some (Inr (last (0 # as)))"
    using find_prev_loop_seg [OF assms(1), of d 0] by (simp only: find_prev_def)
  then show ?thesis using unlink_none [OF assms(1)] by (simp add: g_slist_remove_def)
qed

lemma returns_list_trans:
  assumes "returns_list r h' B as xs" "B \<subseteq> A" "\<And>a. a \<notin> A \<Longrightarrow> cells h' a = cells h a"
  shows "returns_list r h A as xs"
proof -
  have "a \<in> dom (cells h') - B" if "a \<in> dom (cells h) - A" for a using assms(2,3) that by auto
  then show ?thesis using assms(1,3) unfolding returns_list_def by (metis Diff_iff)
qed

lemma returns_list_step:
  assumes "returns_list r h' B as xs"
    "\<And>a. a \<in> dom (cells h) \<Longrightarrow> a \<notin> A \<Longrightarrow> a \<notin> B \<and> cells h' a = cells h a"
  shows "returns_list r h A as xs"
proof -
  have "a \<in> dom (cells h') - B" if "a \<in> dom (cells h) - A" for a using assms(2) [of a] that by (auto simp: dom_def)
  then show ?thesis using assms unfolding returns_list_def by (metis Diff_iff)
qed

text \<open>A step of \<open>g_slist_remove_all\<close> is a search and an unlinking, as in \<open>g_slist_remove\<close>.\<close>

lemma remove_all_step:
  assumes "nxt \<noteq> 0" "find_prev h nxt d = Some (Inr t)" "unlink_next list (if t \<noteq> 0 then t else prev) h = Inr (list', current, h')"
    "current \<noteq> 0" "cells h current = Some c"
  shows "remove_all_loop d list prev nxt h =
    remove_all_loop d list' (if t \<noteq> 0 then t else prev) (node_next c) (g_slist_free_1 current h')"
  using assms
  by (subst remove_all_loop.simps)
    (auto simp: unlink_next_def Let_def deref_def set_next_def split: if_splits option.splits)

lemma remove_all_stop:
  assumes "nxt \<noteq> 0" "find_prev h nxt d = Some (Inr t)" "unlink_next list (if t \<noteq> 0 then t else prev) h = Inr (list', 0, h')"
  shows "remove_all_loop d list prev nxt h = Some (Inr (list', h'))"
  using assms
  by (subst remove_all_loop.simps)
    (auto simp: unlink_next_def Let_def deref_def set_next_def split: if_splits option.splits)

text \<open>
  The loop of \<open>g_slist_remove_all\<close>: the nodes \<open>xs\<close> have been passed and kept, \<open>nxt\<close> is the head of
  the rest \<open>ys\<close>, and \<open>prev\<close> is the last node kept.
\<close>

lemma remove_all_loop_returns:
  assumes "heap_ok h" "seg h list (xs @ ys) 0" "seg h nxt ys 0"
  shows "returns_list (remove_all_loop d list (last (0 # xs)) nxt h) h (set (xs @ ys))
    (xs @ filter (\<lambda>a. val h a \<noteq> d) ys) (map (val h) (xs @ filter (\<lambda>a. val h a \<noteq> d) ys))"
  using assms
proof (induction "length ys" arbitrary: h list xs ys nxt rule: less_induct)
  case less
  note ok = less.prems(1) and sl = less.prems(2) and sn = less.prems(3)
  define tw where "tw = takeWhile (\<lambda>a. val h a \<noteq> d) ys"
  have tw: "filter (\<lambda>a. val h a \<noteq> d) tw = tw" by (auto simp: tw_def filter_id_conv dest: set_takeWhileD)
  have fp: "find_prev h nxt d = Some (Inr (last (0 # tw)))"
    using find_prev_loop_seg [OF sn] by (simp add: find_prev_def tw_def)
  have "0 \<notin> set ys" using seg_dom [OF sn] ok by (fastforce simp: heap_ok_def)
  then have "0 \<notin> set tw" unfolding tw_def by (meson set_takeWhileD)
  then have prev: "(if last (0 # tw) \<noteq> 0 then last (0 # tw) else last (0 # xs)) = last (0 # xs @ tw)"
    by (cases tw rule: rev_cases) auto
  show ?case
  proof (cases "d \<in> val h ` set ys")
    case False
    then have "tw = ys" by (auto simp: tw_def)
    then have "unlink_next list (last (0 # xs @ tw)) h = Inr (list, 0, h)" using unlink_none [OF sl] by simp
    then have "remove_all_loop d list (last (0 # xs)) nxt h = Some (Inr (list, h))" if "nxt \<noteq> 0"
      using remove_all_stop [OF that fp, of list "last (0 # xs)", unfolded prev] by blast
    then have "remove_all_loop d list (last (0 # xs)) nxt h = Some (Inr (list, h))"
      by (cases "nxt = 0") (simp_all add: remove_all_loop.simps)
    then show ?thesis using ok sl \<open>tw = ys\<close> tw by (intro returns_listI [of _ list h]) auto
  next
    case True
    then obtain a0 where "a0 \<in> set ys" "val h a0 = d" by auto
    then obtain a zs where ys: "ys = tw @ a # zs" "val h a = d" unfolding tw_def by (rule first_node)
    have sl': "seg h list ((xs @ tw) @ a # zs) 0" using sl ys(1) by simp
    obtain c where c: "cells h a = Some c" using seg_dom [OF sl'] by auto
    let ?n = "node_next c" and ?list = "if xs @ tw = [] then node_next c else list"
    let ?u = "unlinked (xs @ tw) (node_next c) h"
    let ?h = "g_slist_free_1 a ?u"
    note u = unlink_seg [OF ok sl' c]
    have "nxt \<noteq> 0" using seg_null_iff [OF sn] ys(1) by simp
    from remove_all_step [OF this fp _ u(7) c, of list "last (0 # xs)", unfolded prev, OF u(1)]
    have step: "remove_all_loop d list (last (0 # xs)) nxt h = remove_all_loop d ?list (last (0 # xs @ tw)) ?n ?h" .
    have a: "a \<notin> set ((xs @ tw) @ zs)" "a \<notin> set zs" using u(8,9) by auto
    have "set (xs @ tw) \<inter> set zs = {}" using seg_distinct [OF sl'] by auto
    then have "seg ?u ?n zs 0" using seg_cong [of zs ?u h ?n 0] u(6) seg_tail [OF sl' c] by blast
    then have "seg ?h ?n zs 0" using free_cell(2) [OF u(3) a(2)] by blast
    moreover have "seg ?h ?list ((xs @ tw) @ zs) 0" using free_cell(2) [OF u(3) a(1)] u(2) by blast
    moreover have "length zs < length ys" using ys(1) by simp
    ultimately have IH: "returns_list (remove_all_loop d ?list (last (0 # xs @ tw)) ?n ?h) ?h (set ((xs @ tw) @ zs))
      ((xs @ tw) @ filter (\<lambda>a. val ?h a \<noteq> d) zs) (map (val ?h) ((xs @ tw) @ filter (\<lambda>a. val ?h a \<noteq> d) zs))"
      using less.hyps [OF _ free_cell(1) [OF u(3) a(2)]] by blast
    have v: "val ?h b = val h b" if "b \<in> set ((xs @ tw) @ zs)" for b using a(1) u(4) that by (metis free_1_simps(4))
    then have e1: "(xs @ tw) @ filter (\<lambda>a. val ?h a \<noteq> d) zs = xs @ filter (\<lambda>a. val h a \<noteq> d) ys"
      using ys tw by (simp cong: filter_cong)
    have e2: "map (val ?h) (xs @ filter (\<lambda>a. val h a \<noteq> d) ys) = map (val h) (xs @ filter (\<lambda>a. val h a \<noteq> d) ys)"
      using v ys tw by auto
    have "cells ?h b = cells h b" if "b \<notin> set (xs @ ys)" for b using that ys(1) u(6) [of b] by auto
    moreover have "set ((xs @ tw) @ zs) \<subseteq> set (xs @ ys)" using ys(1) by auto
    ultimately show ?thesis using returns_list_trans [OF IH [folded step, unfolded e1 e2]] by blast
  qed
qed

lemma remove_all_returns:
  assumes "heap_ok h" "seg h p as 0"
  shows "returns_list (g_slist_remove_all p d h) h (set as)
    (filter (\<lambda>a. val h a \<noteq> d) as) (filter (\<lambda>x. x \<noteq> d) (map (val h) as))"
  using remove_all_loop_returns [OF assms(1), of p "[]" as p d] assms(2)
  by (simp add: g_slist_remove_all_def filter_map comp_def)

section \<open>Reversal, copying, freeing\<close>

lemma relink_head:
  assumes "heap_ok h" "seg h p (a # as) 0" "seg h q rs 0" "set (a # as) \<inter> set rs = {}"
  shows "heap_ok (relink a q h)" "seg (relink a q h) a (a # rs) 0" "seg (relink a q h) (node_next (the (cells h a))) as 0"
    "val (relink a q h) = val h" "a \<in> dom (cells h)"
proof -
  obtain c where c: "cells h a = Some c" "seg h (node_next c) as 0" using assms(2) by auto
  then show a: "a \<in> dom (cells h)" by auto
  show "heap_ok (relink a q h)" "val (relink a q h) = val h"
    using relink_heap_ok [OF assms(1) a] relink_simps(2) [OF a] by simp_all
  have "a \<notin> set as" using seg_distinct [OF assms(2)] by simp
  then show "seg (relink a q h) (node_next (the (cells h a))) as 0" using c seg_relink_other [of a as q h] by simp
  have "seg h a (a # as) 0" using assms(2) by auto
  then show "seg (relink a q h) a (a # rs) 0" using relink_split(1) [of h a "[]" a as q rs] assms by auto
qed

lemma reverse_loop_returns:
  assumes "heap_ok h" "seg h p as 0" "seg h q rs 0" "set as \<inter> set rs = {}"
  shows "returns_list (reverse_loop q p h) h (set as) (rev as @ rs) (map (val h) (rev as @ rs))"
  using assms
proof (induction as arbitrary: h p q rs)
  case Nil
  then show ?case by (intro returns_listI [of _ q h]) (auto simp: reverse_loop.simps)
next
  case (Cons a as)
  then obtain c where c: "cells h a = Some c" "p = a" "a \<noteq> 0" by auto
  let ?h = "relink a q h"
  note r = relink_head [OF Cons.prems]
  have step: "reverse_loop q p h = reverse_loop a (node_next c) ?h"
    using c by (subst reverse_loop.simps) (simp add: relink_def)
  have "seg ?h (node_next c) as 0" using r(3) c(1) by simp
  moreover have "set as \<inter> set (a # rs) = {}" using Cons.prems(4) seg_distinct [OF Cons.prems(2)] by auto
  ultimately have "returns_list (reverse_loop q p h) ?h (set as) (rev (a # as) @ rs) (map (val h) (rev (a # as) @ rs))"
    using Cons.IH [OF r(1) _ r(2)] step r(4) by simp
  then show ?case by (rule returns_list_trans) auto
qed

lemma free_returns:
  assumes "heap_ok h" "seg h p as 0"
  shows "\<exists>h'. g_slist_free p h = Some (Inr h') \<and> heap_ok h' \<and> dom (cells h') = dom (cells h) - set as \<and>
    (\<forall>b. b \<notin> set as \<longrightarrow> cells h' b = cells h b)"
  using assms
proof (induction as arbitrary: h p)
  case Nil
  then show ?case by (simp add: g_slist_free.simps)
next
  case (Cons a as)
  then obtain c where c: "cells h a = Some c" "p = a" "a \<noteq> 0" "seg h (node_next c) as 0" by auto
  have a: "a \<notin> set as" using seg_distinct [OF Cons.prems(2)] by simp
  note f = free_cell [OF Cons.prems(1) a]
  obtain h' where "g_slist_free (node_next c) (g_slist_free_1 a h) = Some (Inr h')" "heap_ok h'"
    "dom (cells h') = dom (cells h) - {a} - set as" "\<forall>b. b \<notin> set as \<longrightarrow> cells h' b = cells (g_slist_free_1 a h) b"
    using Cons.IH [OF f(1)] f(2) c(4) by (metis free_1_simps(3))
  then show ?case using c by (intro exI [of _ h']) (subst g_slist_free.simps, auto)
qed

text \<open>
  The loop of \<open>g_slist_copy\<close>: the copy ends in \<open>tmp\<close>, the rest of the source is \<open>bs\<close>, and the
  source \<open>S\<close> and the copy share no node.
\<close>

lemma copy_loop_returns:
  assumes "heap_ok h" "seg h q (xs @ [tmp]) 0" "seg h p bs 0" "set bs \<inter> set (xs @ [tmp]) = {}"
  shows "\<exists>ys h'. copy_loop tmp p h = Some (Inr h') \<and>
    returns_list (Some (Inr (q, h'))) h {tmp} (xs @ tmp # ys) (map (val h) (xs @ tmp # bs)) \<and> set ys \<inter> dom (cells h) = {}"
  using assms
proof (induction bs arbitrary: h xs tmp p)
  case Nil
  then show ?case by (intro exI [of _ "[]"] exI [of _ h]) (auto simp: copy_loop.simps intro!: returns_listI [of _ q h])
next
  case (Cons b bs)
  then obtain c where c: "cells h b = Some c" "p = b" "b \<noteq> 0" "seg h (node_next c) bs 0" by auto
  let ?n = "frontier h"
  obtain h1 where i: "insert_after tmp (node_data c) h = Inr (?n, h1)"
    and "returns_list (Some (Inr (q, h1))) h {tmp} (xs @ tmp # [?n]) (map (val h) (xs @ [tmp]) @ [node_data c])"
    using insert_after_returns [OF Cons.prems(1), of q xs tmp "[]" "node_data c"] Cons.prems(2) by auto
  then have r: "heap_ok h1" "seg h1 q ((xs @ [tmp]) @ [?n]) 0" "map (val h1) (xs @ [tmp, ?n]) = map (val h) (xs @ [tmp, b])"
    and same: "\<And>a. a \<in> dom (cells h) \<Longrightarrow> a \<noteq> tmp \<Longrightarrow> cells h1 a = cells h a"
    using val_Some [OF c(1)] by (auto simp: returns_list_def)
  have bs: "set bs \<subseteq> dom (cells h)" "tmp \<notin> set bs" "?n \<notin> set bs" "?n \<notin> dom (cells h)"
    using seg_dom [OF c(4)] Cons.prems(1,4) seg_frontier [OF Cons.prems(1) c(4)] by (auto simp: heap_ok_def)
  then have "cells h1 a = cells h a" if "a \<in> set bs" for a using that same by blast
  then have "seg h1 (node_next c) bs 0" "map (val h1) bs = map (val h) bs"
    using seg_cong [of bs h1 h "node_next c" 0] c(4) by (auto simp: val_def)
  moreover have "set bs \<inter> set ((xs @ [tmp]) @ [?n]) = {}" using Cons.prems(4) bs(3) by auto
  ultimately obtain ys h' where l: "copy_loop ?n (node_next c) h1 = Some (Inr h')" "set ys \<inter> dom (cells h1) = {}"
    "returns_list (Some (Inr (q, h'))) h1 {?n} ((xs @ [tmp]) @ ?n # ys) (map (val h1) ((xs @ [tmp]) @ ?n # bs))"
    using Cons.IH [OF r(1,2)] by blast
  have e: "map (val h1) ((xs @ [tmp]) @ ?n # bs) = map (val h) (xs @ tmp # b # bs)"
    using r(3) \<open>map (val h1) bs = map (val h) bs\<close> by simp
  have d: "a \<in> dom (cells h1)" if "a \<in> dom (cells h)" for a
    using that same [of a] seg_dom [OF r(2)] by (cases "a = tmp") (auto simp: domIff)
  have "returns_list (Some (Inr (q, h'))) h {tmp} (xs @ tmp # ?n # ys) (map (val h) (xs @ tmp # b # bs))"
    using returns_list_step [OF l(3) [unfolded e], of h "{tmp}"] same d bs(4) by auto
  moreover have "copy_loop tmp p h = Some (Inr h')" using c i l(1) by (subst copy_loop.simps) simp
  moreover have "set (?n # ys) \<inter> dom (cells h) = {}" using bs(4) d l(2) by auto
  ultimately show ?case by blast
qed

lemma copy_returns:
  assumes "heap_ok h" "seg h p as 0"
  shows "\<exists>bs. returns_list (g_slist_copy p h) h {} bs (map (val h) as) \<and> set bs \<inter> dom (cells h) = {}"
proof (cases as)
  case Nil
  then show ?thesis
    using assms by (intro exI [of _ "[]"]) (auto simp: g_slist_copy_def intro!: returns_listI [of _ 0 h])
next
  case (Cons a as')
  then obtain c where c: "cells h a = Some c" "p = a" "a \<noteq> 0" "seg h (node_next c) as' 0" using assms(2) by auto
  let ?n = "frontier h"
  obtain h1 where h1: "g_slist_prepend 0 (node_data c) h = (?n, h1)" "heap_ok h1"
    "cells h1 = (cells h)(?n \<mapsto> \<lparr>node_data = node_data c, node_next = 0\<rparr>)"
    using prepend_spec [OF assms(1)] by blast
  note f = fresh_cell [OF assms(1) c(4) h1(3)]
  have n: "?n \<noteq> 0" "?n \<notin> dom (cells h)" using assms(1) by (auto simp: heap_ok_def)
  then have "seg h1 ?n ([] @ [?n]) 0" using h1(3) by simp
  from copy_loop_returns [OF h1(2) this f(1)] f(3)
  obtain ys h' where l: "copy_loop ?n (node_next c) h1 = Some (Inr h')" "set ys \<inter> dom (cells h1) = {}"
    "returns_list (Some (Inr (?n, h'))) h1 {?n} (?n # ys) (map (val h1) (?n # as'))" by auto
  have "map (val h1) (?n # as') = map (val h) as" using f(2) h1(3) val_Some [OF c(1)] Cons by (simp add: val_def)
  moreover have "g_slist_copy p h = Some (Inr (?n, h'))" using c h1(1) l(1) by (simp add: g_slist_copy_def)
  ultimately have "returns_list (g_slist_copy p h) h {} (?n # ys) (map (val h) as)"
    using returns_list_step [OF l(3), of h "{}"] f(4) n(2) by auto
  moreover have "set (?n # ys) \<inter> dom (cells h) = {}" using l(2) h1(3) n(2) by auto
  ultimately show ?thesis by blast
qed

section \<open>Insertion at a place\<close>

lemma seg_takeWhile:
  assumes "seg h p as 0" "takeWhile P as \<noteq> []"
  obtains xs a where "takeWhile P as = xs @ [a]" "seg h p (xs @ a # dropWhile P as) 0" "a \<noteq> 0"
proof -
  obtain xs a where x: "takeWhile P as = xs @ [a]" using assms(2) by (meson rev_exhaust)
  then have "as = xs @ a # dropWhile P as" using takeWhile_dropWhile_id [of P as] by simp
  then have "seg h p (xs @ a # dropWhile P as) 0" using assms(1) by simp
  moreover from this have "a \<noteq> 0" by (auto simp: seg_append)
  ultimately show ?thesis using that x by blast
qed

lemma insert_at_returns:
  assumes "heap_ok h" "seg h p as 0"
    "r = (if takeWhile P as = [] then Some (Inr (g_slist_prepend p d h))
          else bindo (Some (insert_after (last (takeWhile P as)) d h)) (\<lambda>(new, h'). Some (Inr (p, h'))))"
  shows "returns_list r h (set as) (takeWhile P as @ frontier h # dropWhile P as)
    (map (val h) (takeWhile P as) @ d # map (val h) (dropWhile P as))"
proof (cases "takeWhile P as = []")
  case True
  then have "dropWhile P as = as" using takeWhile_dropWhile_id [of P as] by simp
  then show ?thesis using returns_list_step [OF prepend_returns [OF assms(1,2), of d], of h "set as"] assms(3) True by simp
next
  case False
  then obtain xs a where x: "takeWhile P as = xs @ [a]" "seg h p (xs @ a # dropWhile P as) 0"
    using seg_takeWhile [OF assms(2)] by metis
  then obtain h' where h': "insert_after a d h = Inr (frontier h, h')"
    and r: "returns_list (Some (Inr (p, h'))) h {a} (xs @ a # frontier h # dropWhile P as)
      (map (val h) (xs @ [a]) @ d # map (val h) (dropWhile P as))"
    using insert_after_returns [OF assms(1)] by blast
  have "a \<in> set as" using x(1) set_takeWhileD [of a P as] by simp
  then show ?thesis using returns_list_step [OF r, of h "set as"] h' x(1) assms(3) by auto
qed

lemma insert_before_returns:
  assumes "heap_ok h" "seg h p as 0"
  shows "returns_list (g_slist_insert_before p sibling d h) h (set as)
    (takeWhile (\<lambda>a. a \<noteq> sibling) as @ frontier h # dropWhile (\<lambda>a. a \<noteq> sibling) as)
    (map (val h) (takeWhile (\<lambda>a. a \<noteq> sibling) as) @ d # map (val h) (dropWhile (\<lambda>a. a \<noteq> sibling) as))"
proof (rule insert_at_returns [OF assms])
  let ?t = "takeWhile (\<lambda>a. a \<noteq> sibling) as"
  have f: "find_prev_link h p sibling = Some (Inr (last (0 # ?t)))"
    using find_prev_link_loop_seg [OF assms(2)] by (simp add: find_prev_link_def)
  have "?t \<noteq> [] \<Longrightarrow> last ?t \<noteq> 0" using seg_takeWhile [OF assms(2)] by (metis last_snoc)
  then show "g_slist_insert_before p sibling d h = (if ?t = [] then Some (Inr (g_slist_prepend p d h))
      else bindo (Some (insert_after (last ?t) d h)) (\<lambda>(new, h'). Some (Inr (p, h'))))"
    using f by (simp add: g_slist_insert_before_def)
qed

lemma insert_sorted_returns:
  assumes "heap_ok h" "seg h p as 0"
  shows "returns_list (g_slist_insert_sorted p d (Some f) h) h (set as)
    (takeWhile (\<lambda>a. f (val h a) d \<le> 0) as @ frontier h # dropWhile (\<lambda>a. f (val h a) d \<le> 0) as)
    (takeWhile (\<lambda>x. f x d \<le> 0) (map (val h) as) @ d # dropWhile (\<lambda>x. f x d \<le> 0) (map (val h) as))"
proof -
  let ?P = "\<lambda>a. f (val h a) d \<le> 0"
  have "g_slist_insert_sorted p d (Some f) h = (if takeWhile ?P as = [] then Some (Inr (g_slist_prepend p d h))
      else bindo (Some (insert_after (last (takeWhile ?P as)) d h)) (\<lambda>(new, h'). Some (Inr (p, h'))))"
  proof (cases as)
    case Nil
    then show ?thesis using assms(2) by (simp add: g_slist_insert_sorted_def)
  next
    case (Cons a as')
    then obtain c where c: "cells h a = Some c" "p = a" "a \<noteq> 0" using assms(2) by auto
    have "insert_sorted_loop f d h p = Some (Inr (last (a # takeWhile ?P as')))"
      using insert_sorted_loop_seg assms(2) unfolding Cons .
    then show ?thesis using c Cons val_Some [OF c(1)] by (auto simp: g_slist_insert_sorted_def not_less)
  qed
  from insert_at_returns [OF assms this] show ?thesis by (simp add: takeWhile_map dropWhile_map comp_def)
qed

section \<open>Removal of a node\<close>

lemma remove_link_returns:
  assumes "heap_ok h" "seg h p as 0" "a \<in> set as"
  obtains xs ys p' h' where "as = xs @ a # ys" "g_slist_remove_link p a h = Some (Inr (p', h'))" "heap_ok h'"
    "seg h' p' (xs @ ys) 0" "val h' = val h" "seg h' a [a] 0" "dom (cells h') = dom (cells h)"
    "\<And>b. b \<notin> set (xs @ [a]) \<Longrightarrow> cells h' b = cells h b"
proof -
  obtain xs ys where as: "as = xs @ a # ys" "a \<notin> set xs" using assms(3) by (meson split_list_first)
  then have tw: "takeWhile (\<lambda>b. b \<noteq> a) as = xs" by (induction xs arbitrary: as) auto
  obtain c where c: "cells h a = Some c" using seg_dom [OF assms(2)] as(1) by auto
  note u = unlink_seg [OF assms(1) assms(2) [unfolded as(1)] c]
  let ?u = "unlinked xs (node_next c) h" and ?p = "if xs = [] then node_next c else p"
  have "find_prev_link h p a = Some (Inr (last (0 # xs)))"
    using find_prev_link_loop_seg [OF assms(2)] tw by (simp only: find_prev_link_def)
  moreover have a: "a \<in> dom (cells ?u)" using c u(5) by auto
  ultimately have "g_slist_remove_link p a h = Some (Inr (?p, relink a 0 ?u))"
    using u(1,7) by (simp add: g_slist_remove_link_def set_next_relink)
  moreover have "heap_ok (relink a 0 ?u)" using relink_heap_ok [OF u(3) a] .
  moreover have "a \<notin> set (xs @ ys)" using u(8,9) by simp
  then have "seg (relink a 0 ?u) ?p (xs @ ys) 0" using seg_relink_other u(2) by blast
  moreover have "seg (relink a 0 ?u) a [a] 0" using u(7) a by (auto simp: relink_def)
  moreover have "cells (relink a 0 ?u) b = cells h b" if "b \<notin> set (xs @ [a])" for b using that u(6) by simp
  ultimately show ?thesis using that [OF as(1)] a u(4,5) by simp
qed

lemma delete_link_returns:
  assumes "heap_ok h" "seg h p as 0" "a \<in> set as"
  obtains xs ys where "as = xs @ a # ys"
    "returns_list (g_slist_delete_link p a h) h (set (xs @ [a])) (xs @ ys) (map (val h) (xs @ ys))"
proof -
  obtain xs ys p' h' where r: "as = xs @ a # ys" "g_slist_remove_link p a h = Some (Inr (p', h'))" "heap_ok h'"
    "seg h' p' (xs @ ys) 0" "val h' = val h" "\<And>b. b \<notin> set (xs @ [a]) \<Longrightarrow> cells h' b = cells h b"
    using remove_link_returns [OF assms] by metis
  have a: "a \<notin> set (xs @ ys)" using seg_distinct [OF assms(2)] r(1) by auto
  have "g_slist_delete_link p a h = Some (Inr (p', g_slist_free_1 a h'))" using r(2) by (simp add: g_slist_delete_link_def)
  then have "returns_list (g_slist_delete_link p a h) h (set (xs @ [a])) (xs @ ys) (map (val h) (xs @ ys))"
    using free_cell [OF r(3) a] r(4,5,6) by (intro returns_listI [of _ p' "g_slist_free_1 a h'"]) auto
  then show ?thesis using that r(1) by blast
qed

end
