(* ===== verification/Eg_Slist_Spec.thy ===== *)
theory Eg_Slist_Spec
  imports Eg_Slist_Proofs
begin

text \<open>
  What the linked lists promise.  \<open>represents h p xs\<close> relates a pointer in a store to the list of
  its elements; the locale \<open>sequence\<close> is the part of the interface that the runtime's idiom of
  building a list backwards and reversing it relies on, and \<open>gslist.c\<close> is an instance of it.
\<close>

section \<open>Interface\<close>

definition represents :: "'a heap \<Rightarrow> addr \<Rightarrow> 'a list \<Rightarrow> bool" where
  "represents h p xs \<longleftrightarrow> heap_ok h \<and> (\<exists>as. seg h p as 0 \<and> map (val h) as = xs)"

text \<open>Repeated application of an operation, as in a loop over a vector of elements.\<close>

definition fold_op :: "('p \<Rightarrow> 'a \<Rightarrow> 'h \<Rightarrow> ('p \<times> 'h) res option) \<Rightarrow> 'a list \<Rightarrow> 'p \<Rightarrow> 'h \<Rightarrow> ('p \<times> 'h) res option" where
  "fold_op f ds p h = foldl (\<lambda>r d. bindo r (\<lambda>(p, h). f p d h)) (Some (Inr (p, h))) ds"

definition yields :: "('h \<Rightarrow> 'p \<Rightarrow> 'a list \<Rightarrow> bool) \<Rightarrow> ('p \<times> 'h) res option \<Rightarrow> 'a list \<Rightarrow> bool" where
  "yields rep r xs \<longleftrightarrow> (\<exists>p h. r = Some (Inr (p, h)) \<and> rep h p xs)"

locale sequence =
  fixes rep :: "'h \<Rightarrow> 'p \<Rightarrow> 'a list \<Rightarrow> bool"
    and prepend append :: "'p \<Rightarrow> 'a \<Rightarrow> 'h \<Rightarrow> ('p \<times> 'h) res option"
    and reverse :: "'p \<Rightarrow> 'h \<Rightarrow> ('p \<times> 'h) res option"
  assumes prepend_rep: "rep h p xs \<Longrightarrow> yields rep (prepend p d h) (d # xs)"
    and append_rep: "rep h p xs \<Longrightarrow> yields rep (append p d h) (xs @ [d])"
    and reverse_rep: "rep h p xs \<Longrightarrow> yields rep (reverse p h) (rev xs)"
begin

lemma fold_rep:
  assumes op: "\<And>p d h xs. rep h p xs \<Longrightarrow> yields rep (f p d h) (g d xs)" and r: "yields rep r xs"
  shows "yields rep (foldl (\<lambda>r d. bindo r (\<lambda>(p, h). f p d h)) r ds) (foldl (\<lambda>xs d. g d xs) xs ds)"
  using r
proof (induction ds arbitrary: r xs)
  case (Cons d ds)
  then obtain p h where "r = Some (Inr (p, h))" "rep h p xs" by (auto simp: yields_def)
  then show ?case using Cons.IH op by simp
qed simp

lemma start: "rep h p xs \<Longrightarrow> yields rep (Some (Inr (p, h))) xs"
  by (auto simp: yields_def)

lemma foldl_append: "foldl (\<lambda>xs d. xs @ [d]) xs ds = xs @ ds"
  by (induction ds arbitrary: xs) auto

lemma foldl_prepend: "foldl (\<lambda>xs d. d # xs) xs ds = rev ds @ xs"
  by (induction ds arbitrary: xs) auto

lemma append_all: "rep h p xs \<Longrightarrow> yields rep (fold_op append ds p h) (xs @ ds)"
  using fold_rep [of append "\<lambda>d xs. xs @ [d]", OF append_rep start]
  by (simp add: fold_op_def foldl_append)

lemma prepend_all: "rep h p xs \<Longrightarrow> yields rep (fold_op prepend ds p h) (rev ds @ xs)"
  using fold_rep [of prepend "\<lambda>d xs. d # xs", OF prepend_rep start]
  by (simp add: fold_op_def foldl_prepend)

lemma prepend_all_reverse:
  assumes "rep h p []"
  shows "yields rep (bindo (fold_op prepend ds p h) (\<lambda>(p, h). reverse p h)) ds"
proof -
  obtain p' h' where "fold_op prepend ds p h = Some (Inr (p', h'))" "rep h' p' (rev ds)"
    using prepend_all [OF assms, of ds] by (auto simp: yields_def)
  then show ?thesis using reverse_rep [of h' p' "rev ds"] by simp
qed

end

lemma yields_returns: "returns_list r h A as xs \<Longrightarrow> yields represents r xs"
  by (auto simp: returns_list_def yields_def represents_def)

lemma reverse_returns:
  "heap_ok h \<Longrightarrow> seg h p as 0 \<Longrightarrow> returns_list (g_slist_reverse p h) h (set as) (rev as) (rev (map (val h) as))"
  using reverse_loop_returns [of h p as 0 "[]"] by (simp add: g_slist_reverse_def rev_map)

interpretation gslist: sequence represents "\<lambda>p d h. Some (Inr (g_slist_prepend p d h))" g_slist_append g_slist_reverse
proof
  fix h :: "'a heap" and p xs d
  assume "represents h p xs"
  then obtain as where as: "heap_ok h" "seg h p as 0" "map (val h) as = xs" by (auto simp: represents_def)
  show "yields represents (Some (Inr (g_slist_prepend p d h))) (d # xs)"
    using yields_returns [OF prepend_returns [OF as(1,2), of d]] as(3) by simp
  show "yields represents (g_slist_append p d h) (xs @ [d])"
    using yields_returns [OF append_returns [OF as(1,2), of d]] as(3) by simp
  show "yields represents (g_slist_reverse p h) (rev xs)"
    using yields_returns [OF reverse_returns [OF as(1,2)]] as(3) by simp
qed

section \<open>Examples\<close>

text \<open>The list 10, 20, 10 at the addresses 1, 2, 3.\<close>

definition heap_a :: "nat heap" where
  "heap_a = \<lparr>cells = [1 \<mapsto> \<lparr>node_data = 10, node_next = 2\<rparr>, 2 \<mapsto> \<lparr>node_data = 20, node_next = 3\<rparr>,
    3 \<mapsto> \<lparr>node_data = 10, node_next = 0\<rparr>], frontier = 4\<rparr>"

lemma heap_a_ok: "heap_ok heap_a" "seg heap_a 1 [1, 2, 3] 0" "map (val heap_a) [1, 2, 3] = [10, 20, 10]"
  by (auto simp: heap_a_def heap_ok_def val_def split: if_splits)

section \<open>Properties\<close>

text \<open>
  C38.  \<open>g_slist_reverse\<close> ends on every list, uses the same nodes in the opposite order, allocates
  and frees nothing, and leaves every cell outside the list as it was.
\<close>

theorem g_slist_reverse_in_place:
  assumes "heap_ok h" "seg h p as 0"
  shows "returns_list (g_slist_reverse p h) h (set as) (rev as) (rev (map (val h) as))"
  by (rule reverse_returns [OF assms])

theorem g_slist_reverse_in_place_witness:
  "returns_list (g_slist_reverse 1 heap_a) heap_a {1, 2, 3} [3, 2, 1] [10, 20, 10]"
  using g_slist_reverse_in_place [OF heap_a_ok(1,2)] heap_a_ok(3) by simp

text \<open>
  Building a list with \<open>g_slist_prepend\<close> and reversing it at the end gives the same elements,
  in the order in which they came, as building it with \<open>g_slist_append\<close>; both builds return.
\<close>

theorem prepend_reverse_is_append:
  assumes "represents h p []"
  shows "yields represents (fold_op g_slist_append ds p h) ds \<and>
    yields represents (bindo (fold_op (\<lambda>p d h. Some (Inr (g_slist_prepend p d h))) ds p h) (\<lambda>(p, h). g_slist_reverse p h)) ds"
  using gslist.append_all [OF assms] gslist.prepend_all_reverse [OF assms] by simp

lemma represents_null: "represents heap_a 0 []"
  using heap_a_ok(1) by (simp add: represents_def)

theorem prepend_reverse_is_append_witness:
  "yields represents (fold_op g_slist_append [5, 6] 0 heap_a) [5, 6]"
  using prepend_reverse_is_append [OF represents_null] by blast

text \<open>
  \<open>g_slist_remove_all\<close> ends and leaves exactly the nodes whose data differ from the argument, in
  their order, and \<open>g_slist_remove\<close> leaves out the first node with that data and no other; a
  later read of the result never meets a freed node.
\<close>

theorem g_slist_removals_exact:
  assumes "heap_ok h" "seg h p as 0"
  shows "returns_list (g_slist_remove_all p d h) h (set as)
      (filter (\<lambda>a. val h a \<noteq> d) as) (filter (\<lambda>x. x \<noteq> d) (map (val h) as)) \<and>
    yields represents (g_slist_remove p d h) (remove1 d (map (val h) as))"
proof
  show "returns_list (g_slist_remove_all p d h) h (set as)
      (filter (\<lambda>a. val h a \<noteq> d) as) (filter (\<lambda>x. x \<noteq> d) (map (val h) as))"
    by (rule remove_all_returns [OF assms])
  show "yields represents (g_slist_remove p d h) (remove1 d (map (val h) as))"
  proof (cases "d \<in> val h ` set as")
    case True
    then obtain xs a ys where r: "as = xs @ a # ys" "val h a = d" "d \<notin> val h ` set xs"
      "returns_list (g_slist_remove p d h) h (set (xs @ [a])) (xs @ ys) (map (val h) (xs @ ys))"
      using remove_returns [OF assms] by metis
    then show ?thesis using yields_returns [OF r(4)] by (simp add: remove1_append)
  next
    case False
    then have "remove1 d (map (val h) as) = map (val h) as" by (simp add: remove1_idem)
    then show ?thesis using remove_absent [OF assms(2) False] assms by (auto simp: yields_def represents_def)
  qed
qed

theorem g_slist_removals_exact_witness:
  "returns_list (g_slist_remove_all 1 10 heap_a) heap_a {1, 2, 3} [2] [20]"
  using g_slist_removals_exact [OF heap_a_ok(1,2), of 10] heap_a_ok(3) by simp

end
