(* ===== verification/Eg_Sort.thy ===== *)
theory Eg_Sort
  imports Mono_Prelude "HOL-Library.Multiset"
begin

text \<open>
  The bottom-up merge sort of \<open>eglib/src/sort.frag.h\<close>, which \<open>gslist.c\<close> and \<open>glist.c\<close>
  include.  A pointer to a list of nodes that nothing else points into is the list of the data of
  its nodes, the null pointer is the empty list.  The array \<open>ranks\<close> starts with whatever is on the
  stack, the parameter \<open>junk\<close>: nothing is known of it but its length.
\<close>

section \<open>The algorithm\<close>

definition MAX_RANKS :: nat where
  "MAX_RANKS = 59"

record 'a sort_info =
  min_rank :: nat
  n_ranks :: nat
  func :: "'a \<Rightarrow> 'a \<Rightarrow> int"
  ranks :: "'a list list"

definition init_sort_info :: "'a list list \<Rightarrow> ('a \<Rightarrow> 'a \<Rightarrow> int) \<Rightarrow> 'a sort_info" where
  "init_sort_info junk f = \<lparr>min_rank = 0, n_ranks = 0, func = f, ranks = junk\<rparr>"

fun merge_lists :: "'a list \<Rightarrow> 'a list \<Rightarrow> ('a \<Rightarrow> 'a \<Rightarrow> int) \<Rightarrow> 'a list" where
  "merge_lists (x # first) (y # second) f =
    (if f x y > 0 then y # merge_lists (x # first) second f else x # merge_lists first (y # second) f)"
| "merge_lists [] second f = second"
| "merge_lists first [] f = first"

function sweep_up_loop :: "nat \<Rightarrow> nat \<Rightarrow> 'a sort_info \<Rightarrow> 'a list \<Rightarrow> 'a list \<times> 'a sort_info" where
  "sweep_up_loop i lim si list =
    (if i < lim then sweep_up_loop (i + 1) lim (si\<lparr>ranks := (ranks si)[i := []]\<rparr>) (merge_lists (ranks si ! i) list (func si))
     else (list, si))"
  by pat_completeness auto
termination
  by (relation "measure (\<lambda>(i, lim, si, list). lim - i)") auto

declare sweep_up_loop.simps [simp del]

definition sweep_up :: "'a sort_info \<Rightarrow> 'a list \<Rightarrow> nat \<Rightarrow> 'a list \<times> 'a sort_info" where
  "sweep_up si list lim = sweep_up_loop (min_rank si) lim si list"

text \<open>The two loops of \<open>insert_list\<close>, with the final value of the counter.\<close>

function clear_loop :: "nat \<Rightarrow> nat \<Rightarrow> 'a sort_info \<Rightarrow> nat \<times> 'a sort_info" where
  "clear_loop i rank si =
    (if i < rank then clear_loop (i + 1) rank (si\<lparr>ranks := (ranks si)[i := []]\<rparr>) else (i, si))"
  by pat_completeness auto
termination
  by (relation "measure (\<lambda>(i, rank, si). rank - i)") auto

function carry_loop :: "nat \<Rightarrow> 'a sort_info \<Rightarrow> 'a list \<Rightarrow> nat \<times> 'a list \<times> 'a sort_info" where
  "carry_loop i si list =
    (if i < n_ranks si \<and> ranks si ! i \<noteq> []
     then carry_loop (i + 1) (si\<lparr>ranks := (ranks si)[i := []]\<rparr>) (merge_lists (ranks si ! i) list (func si))
     else (i, list, si))"
  by pat_completeness auto
termination
  by (relation "measure (\<lambda>(i, si, list). n_ranks si - i)") auto

declare clear_loop.simps [simp del] carry_loop.simps [simp del]

definition store_rank :: "nat \<Rightarrow> 'a list \<Rightarrow> 'a sort_info \<Rightarrow> 'a sort_info" where
  "store_rank i0 list si =
    (let i = (if i0 = MAX_RANKS then i0 - 1 else i0) in
     si\<lparr>n_ranks := (if i \<ge> n_ranks si then i + 1 else n_ranks si), min_rank := i, ranks := (ranks si)[i := list]\<rparr>)"

definition insert_list :: "'a sort_info \<Rightarrow> 'a list \<Rightarrow> nat \<Rightarrow> 'a sort_info" where
  "insert_list si list rank =
    (if rank > n_ranks si then
       let rank' = (if rank > MAX_RANKS then MAX_RANKS else rank);
           (swept, si1) = sweep_up si [] (n_ranks si);
           list1 = merge_lists swept list (func si);
           (i, si2) = clear_loop (n_ranks si1) rank' si1
       in store_rank i list1 si2
     else
       let (list1, si1) =
             (if rank \<noteq> 0 then let (swept, s) = sweep_up si [] rank in (merge_lists swept list (func si), s)
              else (list, si));
           (i, list2, si2) = carry_loop rank si1 list1
       in store_rank i list2 si2)"

fun do_sort_loop :: "'a sort_info \<Rightarrow> 'a list \<Rightarrow> 'a list" where
  "do_sort_loop si (a # b # tail) =
    do_sort_loop (insert_list si (if func si a b > 0 then [b, a] else [a, b]) 0) tail"
| "do_sort_loop si [] = fst (sweep_up si [] (n_ranks si))"
| "do_sort_loop si [a] = fst (sweep_up si [a] (n_ranks si))"

definition do_sort :: "'a list list \<Rightarrow> 'a list \<Rightarrow> ('a \<Rightarrow> 'a \<Rightarrow> int) \<Rightarrow> 'a list" where
  "do_sort junk list f = do_sort_loop (init_sort_info junk f) list"

definition g_slist_sort :: "'a list list \<Rightarrow> 'a list \<Rightarrow> ('a \<Rightarrow> 'a \<Rightarrow> int) \<Rightarrow> 'a list" where
  "g_slist_sort junk list f = (if length list \<le> 1 then list else do_sort junk list f)"

section \<open>Stable merging\<close>

text \<open>
  What a comparison function must be: the relation \<open>f a b \<le> 0\<close> is total and transitive, and
  \<open>f a b > 0\<close> is its strict converse.  Two elements are equivalent when neither is strictly after
  the other.
\<close>

definition compare_func :: "('a \<Rightarrow> 'a \<Rightarrow> int) \<Rightarrow> bool" where
  "compare_func f \<longleftrightarrow> (\<forall>a b. f a b > 0 \<longrightarrow> f b a \<le> 0) \<and> (\<forall>a b c. f a b \<le> 0 \<longrightarrow> f b c \<le> 0 \<longrightarrow> f a c \<le> 0)"

definition ordered :: "('a \<Rightarrow> 'a \<Rightarrow> int) \<Rightarrow> 'a list \<Rightarrow> bool" where
  "ordered f xs \<longleftrightarrow> sorted_wrt (\<lambda>a b. f a b \<le> 0) xs"

definition equiv :: "('a \<Rightarrow> 'a \<Rightarrow> int) \<Rightarrow> 'a \<Rightarrow> 'a \<Rightarrow> bool" where
  "equiv f a b \<longleftrightarrow> f a b \<le> 0 \<and> f b a \<le> 0"

text \<open>The same elements, with equivalent ones in the same order.\<close>

definition stably :: "('a \<Rightarrow> 'a \<Rightarrow> int) \<Rightarrow> 'a list \<Rightarrow> 'a list \<Rightarrow> bool" where
  "stably f xs ys \<longleftrightarrow> mset xs = mset ys \<and> (\<forall>x. filter (equiv f x) xs = filter (equiv f x) ys)"

lemma stably_refl [simp, intro]: "stably f xs xs"
  by (simp add: stably_def)

lemma stably_trans [trans]: "stably f xs ys \<Longrightarrow> stably f ys zs \<Longrightarrow> stably f xs zs"
  by (simp add: stably_def)

lemma stably_append: "stably f xs ys \<Longrightarrow> stably f xs' ys' \<Longrightarrow> stably f (xs @ xs') (ys @ ys')"
  by (simp add: stably_def)

lemma stably_set: "stably f xs ys \<Longrightarrow> set xs = set ys"
  unfolding stably_def by (metis set_mset_mset)

lemma stably_Cons: "stably f xs ys \<Longrightarrow> stably f (x # xs) (x # ys)"
  using stably_append [of f "[x]" "[x]" xs ys] by simp

text \<open>An element moves before others that are all strictly after it.\<close>

lemma stably_move:
  assumes "compare_func f" "\<forall>a \<in> set xs. f a y > 0"
  shows "stably f (y # xs) (xs @ [y])"
proof -
  have "filter (equiv f z) xs = []" if "equiv f z y" for z
    using that assms unfolding compare_func_def equiv_def filter_empty_conv by (meson not_less)
  then show ?thesis by (auto simp: stably_def)
qed

lemma compare_funcD:
  assumes "compare_func f"
  shows "f a b > 0 \<Longrightarrow> f b a \<le> 0" "f a b \<le> 0 \<Longrightarrow> f b c \<le> 0 \<Longrightarrow> f a c \<le> 0" "f a a \<le> 0"
    "f a b > 0 \<Longrightarrow> f a c \<le> 0 \<Longrightarrow> f c b > 0"
  using assms unfolding compare_func_def by (meson not_less)+

lemma merge_lists_stable:
  "compare_func f \<Longrightarrow> ordered f xs \<Longrightarrow> stably f (merge_lists xs ys f) (xs @ ys)"
proof (induction xs ys f rule: merge_lists.induct)
  case (1 x first y second f)
  show ?case
  proof (cases "f x y > 0")
    case True
    then have "\<forall>a \<in> set (x # first). f a y > 0"
      using 1(4) compare_funcD(4) [OF 1(3)] by (auto simp: ordered_def)
    then have "stably f (y # (x # first) @ second) ((x # first) @ [y] @ second)"
      using stably_append [OF stably_move [OF 1(3)] stably_refl] by fastforce
    then show ?thesis using True 1 stably_Cons stably_trans by fastforce
  qed (use 1 in \<open>auto simp: ordered_def intro: stably_Cons\<close>)
qed auto

lemma merge_lists_ordered:
  "compare_func f \<Longrightarrow> ordered f xs \<Longrightarrow> ordered f ys \<Longrightarrow> ordered f (merge_lists xs ys f)"
proof (induction xs ys f rule: merge_lists.induct)
  case (1 x first y second f)
  note s = stably_set [OF merge_lists_stable [OF 1(3)]]
  show ?case
  proof (cases "f x y > 0")
    case True
    have "f y a \<le> 0" if "a \<in> set (merge_lists (x # first) second f)" for a
      using that s [OF 1(4), of second] 1(4,5) compare_funcD(1) [OF 1(3) True] compare_funcD(2) [OF 1(3)]
      by (auto simp: ordered_def)
    then show ?thesis using True 1 by (auto simp: ordered_def)
  next
    case False
    have "f x a \<le> 0" if "a \<in> set (merge_lists first (y # second) f)" for a
      using that s [of first "y # second"] 1(4,5) False compare_funcD(2) [OF 1(3)]
      by (auto simp: ordered_def not_less)
    then show ?thesis using False 1 by (auto simp: ordered_def)
  qed
qed auto

section \<open>The ranks\<close>

text \<open>The lists of the ranks from \<open>i\<close> below \<open>k\<close>, the highest first, which is the oldest first.\<close>

definition part :: "'a list list \<Rightarrow> nat \<Rightarrow> nat \<Rightarrow> 'a list" where
  "part rs i k = concat (map ((!) rs) (rev [i..<k]))"

definition blank :: "nat \<Rightarrow> nat \<Rightarrow> 'a list list \<Rightarrow> 'a list list" where
  "blank i k rs = map (\<lambda>j. if i \<le> j \<and> j < k then [] else rs ! j) [0..<length rs]"

lemma blank_simps [simp]:
  "length (blank i k rs) = length rs"
  "j < length rs \<Longrightarrow> blank i k rs ! j = (if i \<le> j \<and> j < k then [] else rs ! j)"
  by (auto simp: blank_def)

lemma blank_none [simp]: "k \<le> i \<Longrightarrow> blank i k rs = rs"
  by (rule nth_equalityI) auto

lemma blank_step: "i < k \<Longrightarrow> blank (i + 1) k (rs[i := []]) = blank i k rs"
  by (rule nth_equalityI) (auto simp: nth_list_update)

lemma part_first: "i < k \<Longrightarrow> part rs i k = part rs (i + 1) k @ rs ! i"
  by (simp add: part_def upt_conv_Cons)

lemma part_split: "i \<le> j \<Longrightarrow> j \<le> k \<Longrightarrow> part rs i k = part rs j k @ part rs i j"
proof -
  assume "i \<le> j" "j \<le> k"
  then have "[i..<k] = [i..<j] @ [j..<k]" using upt_add_eq_append [of i j "k - j"] by simp
  then show ?thesis by (simp add: part_def)
qed

lemma part_cong: "(\<And>j. i \<le> j \<Longrightarrow> j < k \<Longrightarrow> rs ! j = rs' ! j) \<Longrightarrow> part rs i k = part rs' i k"
  unfolding part_def by (intro arg_cong [where f = concat] map_cong) auto

lemma part_empty: "(\<And>j. i \<le> j \<Longrightarrow> j < k \<Longrightarrow> rs ! j = []) \<Longrightarrow> part rs i k = []"
  by (auto simp: part_def)

definition sort_ok :: "('a \<Rightarrow> 'a \<Rightarrow> int) \<Rightarrow> 'a sort_info \<Rightarrow> bool" where
  "sort_ok f si \<longleftrightarrow> func si = f \<and> length (ranks si) = MAX_RANKS \<and> n_ranks si \<le> MAX_RANKS \<and>
    (\<forall>i < n_ranks si. ordered f (ranks si ! i)) \<and> (\<forall>i < n_ranks si. i < min_rank si \<longrightarrow> ranks si ! i = [])"

lemma sort_okD:
  assumes "sort_ok f si"
  shows "func si = f" "length (ranks si) = MAX_RANKS" "n_ranks si \<le> MAX_RANKS"
    "i < n_ranks si \<Longrightarrow> ordered f (ranks si ! i)" "i < n_ranks si \<Longrightarrow> i < min_rank si \<Longrightarrow> ranks si ! i = []"
  using assms by (simp_all add: sort_ok_def)

lemma ordered_Nil [simp]: "ordered f []"
  by (simp add: ordered_def)

text \<open>One merge of a rank with what has been collected from the lower ranks.\<close>

lemma merge_rank:
  assumes "compare_func f" "ordered f xs" "ordered f list" "stably f l (rest @ merge_lists xs list f)"
  shows "ordered f (merge_lists xs list f)" "stably f l ((rest @ xs) @ list)"
  using merge_lists_ordered [OF assms(1-3)] stably_trans [OF assms(4) stably_append [OF stably_refl merge_lists_stable [OF assms(1,2)]]]
  by simp_all

lemma sweep_up_loop_spec:
  assumes "compare_func f" "func si = f" "lim \<le> length (ranks si)" "\<forall>j. i \<le> j \<and> j < lim \<longrightarrow> ordered f (ranks si ! j)" "ordered f list"
  shows "\<exists>l. sweep_up_loop i lim si list = (l, si\<lparr>ranks := blank i lim (ranks si)\<rparr>) \<and> ordered f l \<and>
    stably f l (part (ranks si) i lim @ list)"
  using assms(2-)
proof (induction i lim si list rule: sweep_up_loop.induct)
  case (1 i lim si list)
  show ?case
  proof (cases "i < lim")
    case True
    let ?si = "si\<lparr>ranks := (ranks si)[i := []]\<rparr>" and ?list = "merge_lists (ranks si ! i) list f"
    have o: "ordered f (ranks si ! i)" using 1(4) True by simp
    obtain l where l: "sweep_up_loop (i + 1) lim ?si ?list = (l, si\<lparr>ranks := blank i lim (ranks si)\<rparr>)"
      "ordered f l" "stably f l (part ((ranks si)[i := []]) (i + 1) lim @ ?list)"
      using 1(1) [OF True] 1(2,3,4) merge_lists_ordered [OF assms(1) o 1(5)] True blank_step [of i lim "ranks si"] by auto
    have "part ((ranks si)[i := []]) (i + 1) lim = part (ranks si) (i + 1) lim" by (rule part_cong) simp
    then have "stably f l (part (ranks si) i lim @ list)"
      using merge_rank(2) [OF assms(1) o 1(5)] l(3) part_first [OF True] by metis
    then show ?thesis using l True 1(2) by (subst sweep_up_loop.simps) simp
  qed (use 1 in \<open>simp add: sweep_up_loop.simps part_def\<close>)
qed

lemma sweep_up_spec:
  assumes "compare_func f" "sort_ok f si" "lim \<le> n_ranks si" "ordered f list"
  shows "\<exists>l. sweep_up si list lim = (l, si\<lparr>ranks := blank 0 lim (ranks si)\<rparr>) \<and> ordered f l \<and>
    stably f l (part (ranks si) 0 lim @ list)"
proof -
  let ?m = "min_rank si"
  note s = sort_okD [OF assms(2)]
  have "lim \<le> length (ranks si)" "\<forall>j. ?m \<le> j \<and> j < lim \<longrightarrow> ordered f (ranks si ! j)"
    using s assms(3) by auto
  moreover have e: "ranks si ! j = []" if "j < ?m" "j < lim" for j using s(5) that assms(3) by simp
  have "blank ?m lim (ranks si) = blank 0 lim (ranks si)"
    using e by (intro nth_equalityI) auto
  moreover have "part (ranks si) ?m lim = part (ranks si) 0 lim"
  proof (cases "?m \<le> lim")
    case True
    have "part (ranks si) 0 ?m = []" using e True by (intro part_empty) auto
    then show ?thesis using part_split [of 0 ?m lim "ranks si"] True by simp
  next
    case False
    then have "part (ranks si) 0 lim = []" using e by (intro part_empty) auto
    then show ?thesis using False by (simp add: part_def)
  qed
  ultimately show ?thesis using sweep_up_loop_spec [OF assms(1) s(1) _ _ assms(4)] unfolding sweep_up_def by metis
qed

lemma carry_loop_spec:
  assumes "compare_func f" "func si = f" "n_ranks si \<le> length (ranks si)" "\<forall>j < n_ranks si. ordered f (ranks si ! j)"
    "i \<le> n_ranks si" "ordered f list"
  shows "\<exists>j l. carry_loop i si list = (j, l, si\<lparr>ranks := blank i j (ranks si)\<rparr>) \<and> i \<le> j \<and> j \<le> n_ranks si \<and>
    (j < n_ranks si \<longrightarrow> ranks si ! j = []) \<and> ordered f l \<and> stably f l (part (ranks si) i j @ list)"
  using assms(2-)
proof (induction i si list rule: carry_loop.induct)
  case (1 i si list)
  show ?case
  proof (cases "i < n_ranks si \<and> ranks si ! i \<noteq> []")
    case True
    let ?si = "si\<lparr>ranks := (ranks si)[i := []]\<rparr>" and ?list = "merge_lists (ranks si ! i) list f"
    have o: "ordered f (ranks si ! i)" using 1(4) True by simp
    have "\<forall>j < n_ranks si. ordered f ((ranks si)[i := []] ! j)" using 1(3,4) True by (auto simp: nth_list_update)
    then obtain j l where l: "carry_loop (i + 1) ?si ?list = (j, l, si\<lparr>ranks := blank (i + 1) j ((ranks si)[i := []])\<rparr>)"
      "i + 1 \<le> j" "j \<le> n_ranks si" "j < n_ranks si \<longrightarrow> (ranks si)[i := []] ! j = []" "ordered f l"
      "stably f l (part ((ranks si)[i := []]) (i + 1) j @ ?list)"
      using 1(1) [OF True] 1(2,3) merge_lists_ordered [OF assms(1) o 1(6)] True by auto
    have i: "i < j" using l(2) by simp
    have "part ((ranks si)[i := []]) (i + 1) j = part (ranks si) (i + 1) j" by (rule part_cong) simp
    then have "stably f l (part (ranks si) i j @ list)"
      using merge_rank(2) [OF assms(1) o 1(6)] l(6) part_first [OF i] by metis
    then show ?thesis using l(1,3,4,5) i True 1(2) blank_step [OF i, of "ranks si"] by (subst carry_loop.simps) auto
  qed (use 1 in \<open>subst carry_loop.simps, auto simp: part_def\<close>)
qed

lemma clear_loop_spec: "i \<le> rank \<Longrightarrow> clear_loop i rank si = (rank, si\<lparr>ranks := blank i rank (ranks si)\<rparr>)"
proof (induction i rank si rule: clear_loop.induct)
  case (1 i rank si)
  then show ?case using blank_step [of i rank "ranks si"] by (subst clear_loop.simps) auto
qed

text \<open>
  Storing the carried list at rank \<open>j\<close>, when every lower rank is empty and so is rank \<open>j\<close>.
\<close>

lemma store_rank_spec:
  assumes f: "func si = f" "length (ranks si) = MAX_RANKS" "n_ranks si \<le> MAX_RANKS" "\<forall>i < n_ranks si. ordered f (ranks si ! i)"
    and j: "j \<le> MAX_RANKS" "\<forall>k < j. ranks si ! k = []" "j < n_ranks si \<longrightarrow> ranks si ! j = []" and l: "ordered f list"
  shows "sort_ok f (store_rank j list si)"
    "part (ranks (store_rank j list si)) 0 (n_ranks (store_rank j list si)) = part (ranks si) 0 (n_ranks si) @ list"
proof -
  define i where "i = (if j = MAX_RANKS then j - 1 else j)"
  define n where "n = (if i \<ge> n_ranks si then i + 1 else n_ranks si)"
  let ?rs = "ranks si"
  have s: "store_rank j list si = si\<lparr>n_ranks := n, min_rank := i, ranks := ?rs[i := list]\<rparr>"
    by (simp add: store_rank_def i_def n_def Let_def)
  have i: "i < MAX_RANKS" "i < n" "n \<le> MAX_RANKS" using j(1) f(3) by (auto simp: i_def n_def MAX_RANKS_def)
  have e: "?rs ! k = []" if "k \<le> i" "k < n_ranks si \<or> k < i" for k
    using that j f(3) by (cases "k < j") (auto simp: i_def split: if_splits)
  have "ordered f (?rs[i := list] ! k)" if "k < n" for k
    using that l f(2,4) e [of k] i by (cases "k = i"; cases "k < n_ranks si") (auto simp: n_def split: if_splits)
  then show "sort_ok f (store_rank j list si)" using s f(1,2) i e by (simp add: sort_ok_def)
  have "part (?rs[i := list]) 0 n = part (?rs[i := list]) (i + 1) n @ list @ part (?rs[i := list]) 0 i"
    using part_split [of 0 i n "?rs[i := list]"] part_first [OF i(2), of "?rs[i := list]"] i f(2) by simp
  moreover have "part (?rs[i := list]) 0 i = []" using e by (intro part_empty) auto
  moreover have "part (?rs[i := list]) (i + 1) n = part ?rs (i + 1) n" by (rule part_cong) simp
  moreover have "part ?rs (i + 1) n = part ?rs 0 (n_ranks si)"
  proof (cases "i < n_ranks si")
    case True
    then have "part ?rs 0 (i + 1) = []" using e by (intro part_empty) auto
    then show ?thesis using True part_split [of 0 "i + 1" n ?rs] by (simp add: n_def)
  next
    case False
    then have "part ?rs 0 (n_ranks si) = []" using e by (intro part_empty) auto
    then show ?thesis using False by (simp add: n_def part_def)
  qed
  ultimately show "part (ranks (store_rank j list si)) 0 (n_ranks (store_rank j list si)) = part ?rs 0 (n_ranks si) @ list"
    using s by simp
qed

lemma blank_blank: "i \<le> j \<Longrightarrow> j \<le> k \<Longrightarrow> blank j k (blank i j rs) = blank i k rs"
  by (rule nth_equalityI) auto

lemma part_blank: "j \<le> n \<Longrightarrow> n \<le> length rs \<Longrightarrow> part (blank 0 j rs) 0 n = part rs j n"
proof -
  assume jn: "j \<le> n" "n \<le> length rs"
  then have "part (blank 0 j rs) j n = part rs j n" by (intro part_cong) auto
  moreover have "part (blank 0 j rs) 0 j = []" using jn by (intro part_empty) auto
  ultimately show ?thesis using part_split [of 0 j n "blank 0 j rs"] jn(1) by simp
qed

definition contents :: "'a sort_info \<Rightarrow> 'a list" where
  "contents si = part (ranks si) 0 (n_ranks si)"

lemma insert_list_high:
  assumes c: "compare_func f" and ok: "sort_ok f si" and l: "ordered f list" and r: "rank > n_ranks si"
  shows "sort_ok f (insert_list si list rank)" "stably f (contents (insert_list si list rank)) (contents si @ list)"
proof -
  note s = sort_okD [OF ok]
  define r where "r = (if rank > MAX_RANKS then MAX_RANKS else rank)"
  let ?rs = "ranks si" and ?n = "n_ranks si"
  obtain l1 where l1: "sweep_up si [] ?n = (l1, si\<lparr>ranks := blank 0 ?n ?rs\<rparr>)" "ordered f l1" "stably f l1 (part ?rs 0 ?n)"
    using sweep_up_spec [OF c ok order_refl ordered_Nil] by auto
  let ?l = "merge_lists l1 list f" and ?si = "si\<lparr>ranks := blank 0 r ?rs\<rparr>"
  have rn: "?n \<le> r" "r \<le> MAX_RANKS" using r s(3) by (simp_all add: r_def)
  then have "clear_loop ?n r (si\<lparr>ranks := blank 0 ?n ?rs\<rparr>) = (r, ?si)"
    using clear_loop_spec [of ?n r "si\<lparr>ranks := blank 0 ?n ?rs\<rparr>"] blank_blank [of 0 ?n r ?rs] by simp
  then have "insert_list si list rank = store_rank r ?l ?si"
    using r l1(1) s(1) by (simp add: insert_list_def Let_def r_def split del: if_split)
  moreover have e: "ranks ?si ! k = []" if "k < r" for k using that s(2) rn by simp
  moreover note store_rank_spec [of ?si f r ?l]
  ultimately have st: "sort_ok f (insert_list si list rank)" "contents (insert_list si list rank) = part (ranks ?si) 0 ?n @ ?l"
    using s rn merge_lists_ordered [OF c l1(2) l] unfolding contents_def by simp_all
  then show "sort_ok f (insert_list si list rank)" by simp
  have "part (ranks ?si) 0 ?n = []" using e rn by (intro part_empty) auto
  then show "stably f (contents (insert_list si list rank)) (contents si @ list)"
    using st stably_trans [OF merge_lists_stable [OF c l1(2), of list] stably_append [OF l1(3) stably_refl]]
    by (simp add: contents_def)
qed

lemma insert_list_low:
  assumes c: "compare_func f" and ok: "sort_ok f si" and l: "ordered f list" and r: "rank \<le> n_ranks si"
  shows "sort_ok f (insert_list si list rank)" "stably f (contents (insert_list si list rank)) (contents si @ list)"
proof -
  note s = sort_okD [OF ok]
  let ?rs = "ranks si" and ?n = "n_ranks si"
  define si1 where "si1 = si\<lparr>ranks := blank 0 rank ?rs\<rparr>"
  obtain l0 where l0: "sweep_up si [] rank = (l0, si1)" "ordered f l0" "stably f l0 (part ?rs 0 rank)"
    using sweep_up_spec [OF c ok r ordered_Nil] unfolding si1_def by auto
  define l1 where "l1 = (if rank \<noteq> 0 then merge_lists l0 list f else list)"
  have l1: "ordered f l1" using merge_lists_ordered [OF c l0(2) l] l by (simp add: l1_def)
  have "stably f l1 (part ?rs 0 rank @ list)"
    using stably_trans [OF merge_lists_stable [OF c l0(2), of list] stably_append [OF l0(3) stably_refl]]
    by (simp add: l1_def part_def)
  moreover have si1: "func si1 = f" "n_ranks si1 = ?n" "ranks si1 = blank 0 rank ?rs" using s(1) by (simp_all add: si1_def)
  have o1: "n_ranks si1 \<le> length (ranks si1)" "\<forall>k < n_ranks si1. ordered f (ranks si1 ! k)" "rank \<le> n_ranks si1"
    using s r si1 by simp_all
  obtain j l2 where l2: "carry_loop rank si1 l1 = (j, l2, si1\<lparr>ranks := blank rank j (ranks si1)\<rparr>)" "rank \<le> j" "j \<le> ?n"
    "j < ?n \<longrightarrow> ranks si1 ! j = []" "ordered f l2" "stably f l2 (part (ranks si1) rank j @ l1)"
    using carry_loop_spec [OF c si1(1) o1 l1] unfolding si1(2) by blast
  moreover have "part (ranks si1) rank j = part ?rs rank j" using si1(3) s l2(3) by (intro part_cong) auto
  ultimately have "stably f l2 (part ?rs 0 j @ list)"
    using stably_trans [OF _ stably_append [OF stably_refl]] part_split [of 0 rank j ?rs] by (metis append.assoc zero_le)
  then have st: "stably f (part ?rs j ?n @ l2) (part ?rs 0 ?n @ list)"
    using stably_append [OF stably_refl] part_split [of 0 j ?n ?rs] l2(3) by (metis append.assoc zero_le)
  let ?si = "si1\<lparr>ranks := blank 0 j ?rs\<rparr>"
  have "si1\<lparr>ranks := blank rank j (ranks si1)\<rparr> = ?si" using blank_blank [of 0 rank j ?rs] l2(2) si1(3) by simp
  moreover have "rank = 0 \<Longrightarrow> si1 = si" by (simp add: si1_def)
  ultimately have i: "insert_list si list rank = store_rank j l2 ?si"
    using r l0(1) l2(1) s(1) by (auto simp: insert_list_def l1_def)
  have "j < ?n \<longrightarrow> ?rs ! j = []" using l2(2,3,4) si1(3) s(2,3) by simp
  then show "sort_ok f (insert_list si list rank)" "stably f (contents (insert_list si list rank)) (contents si @ list)"
    using store_rank_spec [of ?si f j l2] s si1 l2(3,5) st part_blank [of j ?n ?rs] unfolding i contents_def by auto
qed

lemma insert_list_spec:
  "compare_func f \<Longrightarrow> sort_ok f si \<Longrightarrow> ordered f list \<Longrightarrow> sort_ok f (insert_list si list rank)"
  "compare_func f \<Longrightarrow> sort_ok f si \<Longrightarrow> ordered f list \<Longrightarrow> stably f (contents (insert_list si list rank)) (contents si @ list)"
  using insert_list_high insert_list_low by (metis not_less)+

section \<open>The sort\<close>

lemma pair_ordered:
  assumes "compare_func f"
  shows "ordered f (if f a b > 0 then [b, a] else [a, b])" "stably f (if f a b > 0 then [b, a] else [a, b]) [a, b]"
  using compare_funcD(1) [OF assms, of a b] stably_move [OF assms, of "[a]" b] by (auto simp: ordered_def not_less)

lemma do_sort_loop_spec:
  assumes c: "compare_func f"
  shows "sort_ok f si \<Longrightarrow> ordered f (do_sort_loop si xs) \<and> stably f (do_sort_loop si xs) (contents si @ xs)"
proof (induction si xs rule: do_sort_loop.induct)
  case (1 si a b tail)
  let ?p = "if f a b > 0 then [b, a] else [a, b]"
  note p = pair_ordered [OF c, of a b]
  have f: "func si = f" using sort_okD(1) [OF 1(2)] .
  have "stably f (contents (insert_list si ?p 0) @ tail) (contents si @ a # b # tail)"
    using stably_append [OF stably_trans [OF insert_list_spec(2) [OF c 1(2) p(1)] stably_append [OF stably_refl p(2)]] stably_refl]
    by simp
  then show ?case
    using 1(1) insert_list_spec(1) [OF c 1(2) p(1), of 0] stably_trans [of f _ "contents (insert_list si ?p 0) @ tail"] f
    by (simp split del: if_split)
next
  case (2 si)
  then show ?case using sweep_up_spec [OF c _ order_refl ordered_Nil, of si] by (auto simp: contents_def)
next
  case (3 si v)
  have "ordered f [v]" by (simp add: ordered_def)
  then show ?case using sweep_up_spec [OF c 3 order_refl] by (fastforce simp: contents_def)
qed

lemma do_sort_spec:
  assumes "compare_func f" "length junk = MAX_RANKS"
  shows "ordered f (do_sort junk xs f)" "stably f (do_sort junk xs f) xs"
proof -
  have "sort_ok f (init_sort_info junk f)" "contents (init_sort_info junk f) = []"
    using assms(2) by (simp_all add: init_sort_info_def sort_ok_def contents_def part_def)
  then show "ordered f (do_sort junk xs f)" "stably f (do_sort junk xs f) xs"
    using do_sort_loop_spec [OF assms(1), of "init_sort_info junk f" xs] by (simp_all add: do_sort_def)
qed

lemma g_slist_sort_spec:
  assumes "compare_func f" "length junk = MAX_RANKS"
  shows "ordered f (g_slist_sort junk xs f)" "stably f (g_slist_sort junk xs f) xs"
  using do_sort_spec [OF assms, of xs] by (auto simp: g_slist_sort_def ordered_def le_Suc_eq length_Suc_conv)

text \<open>An ordered list is determined by its elements and the order of the equivalent ones.\<close>

lemma stably_ordered_unique:
  assumes "compare_func f"
  shows "ordered f xs \<Longrightarrow> ordered f ys \<Longrightarrow> stably f xs ys \<Longrightarrow> xs = ys"
proof (induction xs arbitrary: ys)
  case Nil
  then show ?case by (simp add: stably_def)
next
  case (Cons x xs)
  then obtain y ys' where ys: "ys = y # ys'" by (cases ys) (auto simp: stably_def)
  note r = compare_funcD(3) [OF assms]
  have "y \<in> set (x # xs)" "x \<in> set (y # ys')" using stably_set [OF Cons.prems(3)] ys by auto
  then have "f x y \<le> 0" "f y x \<le> 0" using Cons.prems(1,2) r ys by (auto simp: ordered_def)
  then have "equiv f x x" "equiv f x y" using r by (simp_all add: equiv_def)
  moreover have "filter (equiv f x) (x # xs) = filter (equiv f x) (y # ys')" using Cons.prems(3) ys by (simp only: stably_def)
  ultimately have xy: "x = y" by simp
  have "filter (equiv f z) (x # xs) = filter (equiv f z) (x # ys')" for z using Cons.prems(3) ys xy by (simp only: stably_def)
  then have "filter (equiv f z) xs = filter (equiv f z) ys'" for z by (metis filter.simps(2) list.inject)
  moreover have "mset xs = mset ys'" using Cons.prems(3) ys xy by (simp add: stably_def)
  ultimately have "stably f xs ys'" by (simp add: stably_def)
  then show ?case using Cons.IH Cons.prems(1,2) ys xy by (simp add: ordered_def)
qed

end
