(* ===== verification/Eg_Sort_Spec.thy ===== *)
theory Eg_Sort_Spec
  imports Eg_Slist_Spec Eg_Sort
begin

text \<open>
  Sorted lists: what \<open>g_slist_sort\<close> and \<open>g_slist_insert_sorted\<close> promise, and that sorting a list is the
  same as inserting its elements one by one.
\<close>

section \<open>Sorted insertion\<close>

text \<open>The place where \<open>g_slist_insert_sorted\<close> puts an element: after those not strictly after it.\<close>

definition insert_ordered :: "('a \<Rightarrow> 'a \<Rightarrow> int) \<Rightarrow> 'a \<Rightarrow> 'a list \<Rightarrow> 'a list" where
  "insert_ordered f d xs = takeWhile (\<lambda>x. f x d \<le> 0) xs @ d # dropWhile (\<lambda>x. f x d \<le> 0) xs"

lemma dropWhile_after:
  assumes "compare_func f" "ordered f xs" "x \<in> set (dropWhile (\<lambda>x. f x d \<le> 0) xs)"
  shows "f x d > 0"
  using assms(2,3)
proof (induction xs)
  case (Cons y ys)
  show ?case
  proof (cases "f y d \<le> 0")
    case False
    then have "x = y \<or> f y x \<le> 0" using Cons.prems by (auto simp: ordered_def)
    then show ?thesis using compare_funcD(4) [OF assms(1), of y d x] False by auto
  qed (use Cons in \<open>auto simp: ordered_def\<close>)
qed simp

lemma insert_ordered_spec:
  assumes c: "compare_func f" and o: "ordered f xs"
  shows "ordered f (insert_ordered f d xs)" "stably f (insert_ordered f d xs) (xs @ [d])"
proof -
  define t r where "t = takeWhile (\<lambda>x. f x d \<le> 0) xs" and "r = dropWhile (\<lambda>x. f x d \<le> 0) xs"
  have r: "\<forall>x \<in> set r. f x d > 0" unfolding r_def by (intro ballI) (rule dropWhile_after [OF c o])
  have t: "\<forall>x \<in> set t. f x d \<le> 0" unfolding t_def by (intro ballI) (drule set_takeWhileD, simp)
  have e: "t @ r = xs" "insert_ordered f d xs = t @ d # r" by (simp_all add: t_def r_def insert_ordered_def)
  then have "ordered f (t @ r)" using o by simp
  moreover have "\<forall>x \<in> set r. f d x \<le> 0" using r compare_funcD(1) [OF c] by simp
  ultimately show "ordered f (insert_ordered f d xs)" using t e(2) by (simp add: ordered_def sorted_wrt_append)
  have "stably f (t @ d # r) ((t @ r) @ [d])"
    unfolding append.assoc by (rule stably_append [OF stably_refl stably_move [OF c r]])
  then show "stably f (insert_ordered f d xs) (xs @ [d])" using e by simp
qed

lemma fold_insert_ordered:
  assumes c: "compare_func f"
  shows "ordered f xs \<Longrightarrow> ordered f (foldl (\<lambda>xs d. insert_ordered f d xs) xs ds) \<and>
    stably f (foldl (\<lambda>xs d. insert_ordered f d xs) xs ds) (xs @ ds)"
proof (induction ds arbitrary: xs)
  case (Cons d ds)
  note i = insert_ordered_spec [OF c Cons.prems, of d]
  have "stably f (insert_ordered f d xs @ ds) (xs @ d # ds)" using stably_append [OF i(2) stably_refl, of ds] by simp
  then show ?case using Cons.IH [OF i(1)] stably_trans by fastforce
qed simp

lemma sort_is_insertion:
  assumes "compare_func f" "length junk = MAX_RANKS"
  shows "g_slist_sort junk xs f = foldl (\<lambda>xs d. insert_ordered f d xs) [] xs"
proof (rule stably_ordered_unique [OF assms(1)])
  note i = fold_insert_ordered [OF assms(1) ordered_Nil, of xs]
  show "ordered f (g_slist_sort junk xs f)" "ordered f (foldl (\<lambda>xs d. insert_ordered f d xs) [] xs)"
    using g_slist_sort_spec(1) [OF assms] i by simp_all
  show "stably f (g_slist_sort junk xs f) (foldl (\<lambda>xs d. insert_ordered f d xs) [] xs)"
    using g_slist_sort_spec(2) [OF assms, of xs] i by (simp add: stably_def)
qed

lemma insert_sorted_yields:
  assumes "represents h p xs"
  shows "yields represents (g_slist_insert_sorted p d (Some f) h) (insert_ordered f d xs)"
proof -
  obtain as where "heap_ok h" "seg h p as 0" "map (val h) as = xs" using assms by (auto simp: represents_def)
  then show ?thesis using yields_returns [OF insert_sorted_returns] by (metis insert_ordered_def)
qed

section \<open>Properties\<close>

text \<open>
  C37.  \<open>g_slist_sort\<close> is a stable sort for every comparison function that is a total preorder: it
  returns the elements of the list in order, and keeps the order of equivalent elements,
  whatever the uninitialised array of ranks holds and however long the list is.
\<close>

theorem g_slist_sort_stable:
  assumes "compare_func f" "length junk = MAX_RANKS"
  shows "sorted_wrt (\<lambda>a b. f a b \<le> 0) (g_slist_sort junk xs f) \<and> mset (g_slist_sort junk xs f) = mset xs \<and>
    filter (equiv f x) (g_slist_sort junk xs f) = filter (equiv f x) xs"
  using g_slist_sort_spec [OF assms, of xs] by (simp add: ordered_def stably_def)

definition cmp_fst :: "nat \<times> nat \<Rightarrow> nat \<times> nat \<Rightarrow> int" where
  "cmp_fst a b = int (fst a) - int (fst b)"

lemma cmp_fst_compare: "compare_func cmp_fst"
  by (auto simp: compare_func_def cmp_fst_def)

theorem g_slist_sort_stable_witness:
  "sorted_wrt (\<lambda>a b. cmp_fst a b \<le> 0) (g_slist_sort (replicate MAX_RANKS [(9, 9)]) [(2, 0), (1, 0), (2, 1)] cmp_fst)"
  using g_slist_sort_stable [OF cmp_fst_compare length_replicate] by blast

text \<open>
  Inserting elements one by one with \<open>g_slist_insert_sorted\<close>, starting from the null list,
  returns a list with exactly the elements that \<open>g_slist_sort\<close> returns for the whole list, in the
  same order.
\<close>

theorem insert_sorted_is_sort:
  assumes "compare_func f" "length junk = MAX_RANKS" "represents h p []"
  shows "yields represents (fold_op (\<lambda>p d h. g_slist_insert_sorted p d (Some f) h) ds p h) (g_slist_sort junk ds f)"
  using gslist.fold_rep [of "\<lambda>p d h. g_slist_insert_sorted p d (Some f) h" "insert_ordered f", OF insert_sorted_yields]
    gslist.start [OF assms(3)] sort_is_insertion [OF assms(1,2), of ds]
  by (simp add: fold_op_def)

lemma represents_empty: "represents \<lparr>cells = Map.empty, frontier = 1\<rparr> 0 []"
  by (simp add: represents_def heap_ok_def)

theorem insert_sorted_is_sort_witness:
  "yields represents (fold_op (\<lambda>p d h. g_slist_insert_sorted p d (Some cmp_fst) h) [(2, 0), (1, 0)] 0 \<lparr>cells = Map.empty, frontier = 1\<rparr>)
    (g_slist_sort (replicate MAX_RANKS []) [(2, 0), (1, 0)] cmp_fst)"
  by (rule insert_sorted_is_sort [OF cmp_fst_compare length_replicate represents_empty])

end
