(* ===== verification/Eg_Arrays.thy ===== *)
theory Eg_Arrays
  imports Mono_Prelude
begin

text \<open>
  The growing arrays of \<open>eglib/src/garray.c\<close> and \<open>eglib/src/gptrarray.c\<close>.  The allocated block is
  a list with one entry for each element it has room for, \<open>None\<close> where nothing has been written
  yet; its length is the capacity.  A move or a store that leaves the block is \<open>Inl Out_of_bounds\<close>.
  Lengths are numbers below \<open>2 ^ 32\<close>; the wrap-around of unsigned sums, differences and products is
  written out, and the signed length of a \<open>GArray\<close> is kept as the unsigned number with the same bits.
\<close>

section \<open>Blocks of memory\<close>

definition uadd :: "nat \<Rightarrow> nat \<Rightarrow> nat" where
  "uadd a b = (a + b) mod 2 ^ 32"

definition usub :: "nat \<Rightarrow> nat \<Rightarrow> nat" where
  "usub a b = (a + 2 ^ 32 - b) mod 2 ^ 32"

text \<open>Conversion of an unsigned value to \<open>int\<close>.\<close>

definition to_int :: "nat \<Rightarrow> int" where
  "to_int u = (if u < 2 ^ 31 then int u else int u - 2 ^ 32)"

type_synonym 'a block = "'a option list"

definition memmove :: "nat \<Rightarrow> nat \<Rightarrow> nat \<Rightarrow> 'a block \<Rightarrow> 'a block res" where
  "memmove dst src n b =
    guardr (n = 0 \<or> dst + n \<le> length b \<and> src + n \<le> length b) Out_of_bounds
      (Inr (if n = 0 then b else take dst b @ take n (drop src b) @ drop (dst + n) b))"

definition store_vals :: "nat \<Rightarrow> 'a list \<Rightarrow> 'a block \<Rightarrow> 'a block res" where
  "store_vals dst vs b =
    guardr (vs = [] \<or> dst + length vs \<le> length b) Out_of_bounds
      (Inr (if vs = [] then b else take dst b @ map Some vs @ drop (dst + length vs) b))"

section \<open>GArray\<close>

record 'a GArrayPriv =
  array_data :: "'a block"
  array_len :: nat
  clear_flag :: bool
  element_size :: nat
  zero_terminated :: bool

abbreviation capacity :: "'a GArrayPriv \<Rightarrow> nat" where
  "capacity a \<equiv> length (array_data a)"

definition INITIAL_CAPACITY :: nat where
  "INITIAL_CAPACITY = 16"

text \<open>
  Places and lengths in bytes are 32-bit products with the element size.  \<open>element_offset\<close> is for the
  signed length of the array: a negative place is before the block, and a product that does not
  fit an \<open>int\<close> overflows.  A product with an unsigned number wraps; it is
  turned back into a number of elements, and a wrapped product that is no whole number of elements
  ends in the same fault.
\<close>

definition element_offset :: "'a GArrayPriv \<Rightarrow> nat \<Rightarrow> nat res" where
  "element_offset p i =
    guardr (i < 2 ^ 31) Out_of_bounds (guardr (i * element_size p < 2 ^ 31) Int_overflow (Inr i))"

definition element_length :: "'a GArrayPriv \<Rightarrow> nat \<Rightarrow> nat res" where
  "element_length p i =
    (let bytes = (i * element_size p) mod 2 ^ 32 in
     guardr (element_size p dvd bytes) Int_overflow (Inr (bytes div element_size p)))"

function capacity_loop :: "nat \<Rightarrow> nat \<Rightarrow> nat" where
  "capacity_loop new_capacity cap =
    (if 0 < new_capacity \<and> new_capacity < cap then capacity_loop (2 * new_capacity) cap else new_capacity)"
  by pat_completeness auto
termination
  by (relation "measure (\<lambda>(n, c). c - n)") auto

declare capacity_loop.simps [simp del]

text \<open>
  The loop starts from at least 16, so its extra condition always holds.  \<open>zero\<close> is the element
  whose bytes are all zero.  A shift past \<open>G_MAXINT32\<close> overflows, and so does the size of the new
  block in bytes.
\<close>

definition ensure_capacity :: "'a \<Rightarrow> 'a GArrayPriv \<Rightarrow> int \<Rightarrow> 'a GArrayPriv res" where
  "ensure_capacity zero priv cap =
    (let new_capacity = max (capacity priv) INITIAL_CAPACITY in
     if cap < int (capacity priv) then Inr priv
     else let n = capacity_loop new_capacity (nat cap) in
       guardr (n < 2 ^ 31 \<and> n * element_size priv < 2 ^ 31) Int_overflow
         (Inr (priv\<lparr>array_data := array_data priv @
            replicate (n - capacity priv) (if clear_flag priv then Some zero else None)\<rparr>)))"

definition g_array_new :: "'a \<Rightarrow> bool \<Rightarrow> bool \<Rightarrow> nat \<Rightarrow> 'a GArrayPriv res" where
  "g_array_new zero zt clr sz =
    ensure_capacity zero \<lparr>array_data = [], array_len = 0, clear_flag = clr, element_size = sz, zero_terminated = zt\<rparr>
      (int INITIAL_CAPACITY)"

text \<open>The block that is returned, when it is not freed with the array.\<close>

definition g_array_free :: "'a GArrayPriv \<Rightarrow> bool \<Rightarrow> 'a block option" where
  "g_array_free a free_segment = (if free_segment then None else Some (array_data a))"

definition terminate_array :: "'a \<Rightarrow> 'a GArrayPriv \<Rightarrow> 'a GArrayPriv res" where
  "terminate_array zero a =
    (if zero_terminated a
     then bindr (element_offset a (array_len a)) (\<lambda>off.
       bindr (store_vals off [zero] (array_data a)) (\<lambda>b. Inr (a\<lparr>array_data := b\<rparr>)))
     else Inr a)"

definition g_array_append_vals :: "'a \<Rightarrow> 'a GArrayPriv \<Rightarrow> 'a list \<Rightarrow> 'a GArrayPriv res" where
  "g_array_append_vals zero a vs =
    bindr (ensure_capacity zero a (to_int (uadd (uadd (array_len a) (length vs)) (if zero_terminated a then 1 else 0)))) (\<lambda>a.
    bindr (element_offset a (array_len a)) (\<lambda>off.
    bindr (element_length a (length vs)) (\<lambda>n.
    bindr (store_vals off (take n vs) (array_data a)) (\<lambda>b.
    terminate_array zero (a\<lparr>array_data := b, array_len := uadd (array_len a) (length vs)\<rparr>)))))"

definition g_array_insert_vals :: "'a \<Rightarrow> 'a GArrayPriv \<Rightarrow> nat \<Rightarrow> 'a list \<Rightarrow> 'a GArrayPriv res" where
  "g_array_insert_vals zero a index vs =
    bindr (ensure_capacity zero a (to_int (uadd (uadd (array_len a) (length vs)) (if zero_terminated a then 1 else 0)))) (\<lambda>a.
    bindr (element_length a (uadd index (length vs))) (\<lambda>behind.
    bindr (element_length a index) (\<lambda>at.
    bindr (element_length a (usub (array_len a) index)) (\<lambda>moved.
    bindr (element_length a (length vs)) (\<lambda>n.
    bindr (memmove behind at moved (array_data a)) (\<lambda>b.
    bindr (store_vals at (take n vs) b) (\<lambda>b.
    terminate_array zero (a\<lparr>array_data := b, array_len := uadd (array_len a) (length vs)\<rparr>))))))))"

definition g_array_remove_index :: "'a \<Rightarrow> 'a GArrayPriv \<Rightarrow> nat \<Rightarrow> 'a GArrayPriv res" where
  "g_array_remove_index zero a index =
    bindr (element_length a index) (\<lambda>at.
    bindr (element_length a (uadd index 1)) (\<lambda>behind.
    bindr (element_length a (usub (array_len a) index)) (\<lambda>moved.
    bindr (memmove at behind moved (array_data a)) (\<lambda>b.
    terminate_array zero (a\<lparr>array_data := b, array_len := usub (array_len a) 1\<rparr>)))))"

text \<open>The last element is at the signed place \<open>array->len - 1\<close>, which is before the block when the array is empty.\<close>

definition g_array_remove_index_fast :: "'a \<Rightarrow> 'a GArrayPriv \<Rightarrow> nat \<Rightarrow> 'a GArrayPriv res" where
  "g_array_remove_index_fast zero a index =
    bindr (element_length a index) (\<lambda>at.
    bindr (element_length a (usub (array_len a) index)) (\<lambda>moved.
    guardr (0 < array_len a \<or> moved = 0) Out_of_bounds
    (bindr (element_offset a (array_len a - 1)) (\<lambda>last.
    bindr (memmove at last moved (array_data a)) (\<lambda>b.
    terminate_array zero (a\<lparr>array_data := b, array_len := usub (array_len a) 1\<rparr>))))))"

section \<open>GPtrArray\<close>

record GPtrArrayPriv =
  pdata :: "addr block"
  ptr_len :: nat

text \<open>
  The loop that doubles the size; the shift of an unsigned value wraps to 0 after \<open>2 ^ 31\<close>, and
  from 0 the loop does not end.
\<close>

partial_function (option) size_loop :: "nat \<Rightarrow> nat \<Rightarrow> nat option" where
  "size_loop sz new_length = (if sz < new_length then size_loop (2 * sz mod 2 ^ 32) new_length else Some sz)"

definition g_ptr_array_grow :: "GPtrArrayPriv \<Rightarrow> nat \<Rightarrow> GPtrArrayPriv option" where
  "g_ptr_array_grow a len =
    (let new_length = uadd (ptr_len a) len in
     if new_length \<le> length (pdata a) then Some a
     else map_option (\<lambda>sz. a\<lparr>pdata := pdata a @ replicate (max sz 16 - length (pdata a)) None\<rparr>) (size_loop 1 new_length))"

definition g_ptr_array_sized_new :: "nat \<Rightarrow> GPtrArrayPriv option" where
  "g_ptr_array_sized_new reserved_size =
    (let a = \<lparr>pdata = [], ptr_len = 0\<rparr> in
     if reserved_size > 0 then g_ptr_array_grow a reserved_size else Some a)"

definition g_ptr_array_new :: "GPtrArrayPriv option" where
  "g_ptr_array_new = g_ptr_array_sized_new 0"

definition g_ptr_array_free :: "GPtrArrayPriv \<Rightarrow> bool \<Rightarrow> addr block option" where
  "g_ptr_array_free a free_seg = (if free_seg then None else Some (pdata a))"

text \<open>
  A negative length is compared as a large \<open>size_t\<close> and passed on as a large unsigned number.
\<close>

definition g_ptr_array_set_size :: "GPtrArrayPriv \<Rightarrow> int \<Rightarrow> GPtrArrayPriv res option" where
  "g_ptr_array_set_size a len =
    (let ulen = nat (len mod 2 ^ 32) in
     if len < 0 \<or> nat len > ptr_len a then
       map_option (\<lambda>a. bindr (store_vals (ptr_len a) (replicate (usub ulen (ptr_len a)) 0) (pdata a)) (\<lambda>b.
         Inr (a\<lparr>pdata := b, ptr_len := ulen\<rparr>))) (g_ptr_array_grow a ulen)
     else Some (Inr (a\<lparr>ptr_len := ulen\<rparr>)))"

definition g_ptr_array_add :: "GPtrArrayPriv \<Rightarrow> addr \<Rightarrow> GPtrArrayPriv res option" where
  "g_ptr_array_add a d =
    map_option (\<lambda>a. bindr (store_vals (ptr_len a) [d] (pdata a)) (\<lambda>b.
      Inr (a\<lparr>pdata := b, ptr_len := uadd (ptr_len a) 1\<rparr>))) (g_ptr_array_grow a 1)"

text \<open>
  An index is unsigned, so \<open>index >= 0 || index < array->len\<close> always holds.  The removed pointer is
  \<open>None\<close> when nothing has been written at that place.
\<close>

definition index_accepted :: "nat \<Rightarrow> nat \<Rightarrow> bool" where
  "index_accepted index len \<longleftrightarrow> index \<ge> 0 \<or> index < len"

definition g_ptr_array_remove_index :: "GPtrArrayPriv \<Rightarrow> nat \<Rightarrow> (addr option \<times> GPtrArrayPriv) res" where
  "g_ptr_array_remove_index a index =
    (if \<not> index_accepted index (ptr_len a) then Inr (Some 0, a)
     else guardr (index < length (pdata a)) Out_of_bounds
       (let removed_node = pdata a ! index in
        bindr (if index \<noteq> usub (ptr_len a) 1
               then memmove index (index + 1) (usub (usub (ptr_len a) index) 1) (pdata a) else Inr (pdata a)) (\<lambda>b.
        bindr (store_vals (usub (ptr_len a) 1) [0] b) (\<lambda>b.
        Inr (removed_node, a\<lparr>pdata := b, ptr_len := usub (ptr_len a) 1\<rparr>)))))"

definition g_ptr_array_remove_index_fast :: "GPtrArrayPriv \<Rightarrow> nat \<Rightarrow> (addr option \<times> GPtrArrayPriv) res" where
  "g_ptr_array_remove_index_fast a index =
    (if \<not> index_accepted index (ptr_len a) then Inr (Some 0, a)
     else guardr (index < length (pdata a)) Out_of_bounds
       (let removed_node = pdata a ! index in
        bindr (if index \<noteq> usub (ptr_len a) 1
               then guardr (0 < ptr_len a) Out_of_bounds (memmove index (ptr_len a - 1) 1 (pdata a)) else Inr (pdata a)) (\<lambda>b.
        bindr (store_vals (usub (ptr_len a) 1) [0] b) (\<lambda>b.
        Inr (removed_node, a\<lparr>pdata := b, ptr_len := usub (ptr_len a) 1\<rparr>)))))"

text \<open>The place of the first pointer equal to \<open>d\<close> among the first \<open>len\<close>.\<close>

fun position :: "addr \<Rightarrow> nat \<Rightarrow> addr block \<Rightarrow> nat option" where
  "position d i [] = None"
| "position d i (x # xs) = (if x = Some d then Some i else position d (i + 1) xs)"

definition g_ptr_array_remove :: "GPtrArrayPriv \<Rightarrow> addr \<Rightarrow> (bool \<times> GPtrArrayPriv) res" where
  "g_ptr_array_remove a d =
    (case position d 0 (take (ptr_len a) (pdata a)) of
       Some i \<Rightarrow> bindr (g_ptr_array_remove_index a i) (\<lambda>(x, a'). Inr (True, a'))
     | None \<Rightarrow> Inr (False, a))"

text \<open>The calls \<open>func (g_ptr_array_index (array, i), user_data)\<close>, in order.\<close>

definition g_ptr_array_foreach :: "GPtrArrayPriv \<Rightarrow> addr block" where
  "g_ptr_array_foreach a = take (ptr_len a) (pdata a)"

text \<open>\<open>qsort\<close> is the C library's.\<close>

definition g_ptr_array_sort :: "(addr block \<Rightarrow> addr block) \<Rightarrow> GPtrArrayPriv \<Rightarrow> GPtrArrayPriv" where
  "g_ptr_array_sort qsort a = a\<lparr>pdata := qsort (take (ptr_len a) (pdata a)) @ drop (ptr_len a) (pdata a)\<rparr>"

definition g_ptr_array_sort_with_data :: "(addr \<Rightarrow> addr \<Rightarrow> addr \<Rightarrow> int) \<Rightarrow> addr \<Rightarrow> GPtrArrayPriv \<Rightarrow> GPtrArrayPriv" where
  "g_ptr_array_sort_with_data compare_func user_data a = a"

definition g_ptr_array_reserved_size :: "GPtrArrayPriv \<Rightarrow> nat" where
  "g_ptr_array_reserved_size a = length (pdata a)"

end
