(* ===== verification/Eg_Arrays_Spec.thy ===== *)
theory Eg_Arrays_Spec
  imports Eg_Arrays
begin

text \<open>
  What the growing arrays promise while their sizes in bytes stay below \<open>2 ^ 30\<close>, and where they break: a
  removal from a full \<open>GArray\<close>, the fast removal from the middle of one, an index past the end of a
  \<open>GPtrArray\<close>, and the growth past \<open>2 ^ 31\<close> entries.
\<close>

section \<open>Arithmetic and blocks\<close>

lemma uadd_small [simp]: "a + b < 2 ^ 32 \<Longrightarrow> uadd a b = a + b"
  by (simp add: uadd_def)

lemma usub_small [simp]: "b \<le> a \<Longrightarrow> a < 2 ^ 32 \<Longrightarrow> usub a b = a - b"
proof -
  assume "b \<le> a" "a < 2 ^ 32"
  then have "a + 2 ^ 32 - b = (a - b) + 2 ^ 32" "a - b < 2 ^ 32" by linarith+
  then show ?thesis unfolding usub_def by (metis mod_add_self2 mod_less)
qed

lemma usub_wrap: "a < b \<Longrightarrow> b \<le> 2 ^ 32 \<Longrightarrow> usub a b = a + 2 ^ 32 - b"
  by (simp add: usub_def)

lemma to_int_small [simp]: "u < 2 ^ 31 \<Longrightarrow> to_int u = int u"
  by (simp add: to_int_def)

lemma capacity_loop_ge: "0 < n \<Longrightarrow> c \<le> capacity_loop n c \<and> n \<le> capacity_loop n c"
proof (induction n c rule: capacity_loop.induct)
  case (1 n c)
  then show ?case by (subst (1 2) capacity_loop.simps) auto
qed

lemma capacity_loop_le: "n < B \<Longrightarrow> 2 * c \<le> B \<Longrightarrow> capacity_loop n c < B"
proof (induction n c rule: capacity_loop.induct)
  case (1 n c)
  then show ?case by (subst capacity_loop.simps) auto
qed

lemma capacity_loop_doubles: "0 < n \<Longrightarrow> capacity_loop n c = n \<or> capacity_loop n c < 2 * c"
proof (induction n c rule: capacity_loop.induct)
  case (1 n c)
  show ?case
  proof (cases "n < c")
    case True
    then have "capacity_loop n c = capacity_loop (2 * n) c" using 1(2) by (subst capacity_loop.simps) simp
    then show ?thesis using 1 True by auto
  qed (simp add: capacity_loop.simps)
qed

lemma element_length_small: "i * element_size p < 2 ^ 32 \<Longrightarrow> 0 < element_size p \<Longrightarrow> element_length p i = Inr i"
  by (simp add: element_length_def)

lemma element_offset_small: "i * element_size p < 2 ^ 31 \<Longrightarrow> 0 < element_size p \<Longrightarrow> element_offset p i = Inr i"
proof -
  assume a: "i * element_size p < 2 ^ 31" "0 < element_size p"
  then have "i * 1 \<le> i * element_size p" by (intro mult_le_mono2) simp
  then have "i < 2 ^ 31" using a(1) by linarith
  then show ?thesis using a(1) by (simp add: element_offset_def)
qed

definition array_ok :: "'a GArrayPriv \<Rightarrow> bool" where
  "array_ok a \<longleftrightarrow> array_len a \<le> capacity a \<and> 0 < element_size a \<and> max (capacity a) 16 * element_size a < 2 ^ 31 \<and> None \<notin> set (take (array_len a) (array_data a))"

definition elements :: "'a GArrayPriv \<Rightarrow> 'a list" where
  "elements a = map the (take (array_len a) (array_data a))"

definition terminated :: "'a \<Rightarrow> 'a GArrayPriv \<Rightarrow> bool" where
  "terminated zero a \<longleftrightarrow> zero_terminated a \<longrightarrow> array_len a < capacity a \<and> array_data a ! array_len a = Some zero"

lemma map_Some_the: "None \<notin> set xs \<Longrightarrow> map (Some \<circ> the) xs = xs"
  by (induction xs) auto

lemma take_elements: "array_ok a \<Longrightarrow> take (array_len a) (array_data a) = map Some (elements a)"
  by (simp add: array_ok_def elements_def map_Some_the)

lemma array_okI:
  "take (array_len a) (array_data a) = map Some xs \<Longrightarrow> array_len a \<le> capacity a \<Longrightarrow> 0 < element_size a \<Longrightarrow>
    max (capacity a) 16 * element_size a < 2 ^ 31 \<Longrightarrow> array_ok a \<and> elements a = xs"
  by (auto simp: array_ok_def elements_def)

text \<open>Every place and length up to the capacity is a product that fits.\<close>

lemma products_fit:
  assumes "0 < element_size a" "max (capacity a) 16 * element_size a < 2 ^ 31" "i \<le> capacity a"
  shows "element_offset a i = Inr i \<and> element_length a i = Inr i \<and> i < 2 ^ 31 \<and> i * element_size a < 2 ^ 31"
proof -
  have "i * element_size a \<le> max (capacity a) 16 * element_size a" using assms(3) by (intro mult_le_mono1) simp
  then have b: "i * element_size a < 2 ^ 31" using assms(2) by (rule le_less_trans)
  have "i * 1 \<le> i * element_size a" using assms(1) by (intro mult_le_mono2) simp
  then have "i < 2 ^ 31" using b by linarith
  moreover have "i * element_size a < 2 ^ 32" using b by (rule less_trans) simp
  ultimately show ?thesis using b assms(1) by (simp only: element_offset_small element_length_small simp_thms)
qed

lemma array_ok_sizes: "array_ok a \<Longrightarrow> i \<le> capacity a \<Longrightarrow>
    element_offset a i = Inr i \<and> element_length a i = Inr i \<and> i < 2 ^ 31 \<and> i * element_size a < 2 ^ 31"
  by (rule products_fit) (simp_all add: array_ok_def)

lemma ensure_capacity_spec:
  assumes "0 < element_size a" "max (capacity a) 16 * element_size a < 2 ^ 31" "c * element_size a \<le> 2 ^ 30"
  shows "\<exists>a' ext. ensure_capacity zero a (int c) = Inr a' \<and> a' = a\<lparr>array_data := array_data a @ ext\<rparr> \<and>
    c \<le> capacity a' \<and> max (capacity a') 16 * element_size a < 2 ^ 31"
proof (cases "c < capacity a")
  case True
  then show ?thesis using assms by (intro exI [of _ a] exI [of _ "[]"]) (simp add: ensure_capacity_def)
next
  case False
  let ?m = "max (capacity a) INITIAL_CAPACITY" and ?z = "element_size a"
  let ?n = "capacity_loop ?m c"
  have n: "c \<le> ?n" "?m \<le> ?n" using capacity_loop_ge [of ?m c] by (simp_all add: INITIAL_CAPACITY_def)
  have "?n = ?m \<or> ?n < 2 * c" using capacity_loop_doubles [of ?m c] by (simp add: INITIAL_CAPACITY_def)
  then have fits: "?n * ?z < 2 ^ 31"
  proof
    assume "?n < 2 * c"
    then have "?n * ?z < 2 * c * ?z" using assms(1) by (rule mult_strict_right_mono)
    also have "2 * c * ?z \<le> 2 ^ 31" using assms(3) by simp
    finally show ?thesis .
  qed (use assms(2) in \<open>simp add: INITIAL_CAPACITY_def\<close>)
  have "?n * 1 \<le> ?n * ?z" using assms(1) by (intro mult_le_mono2) simp
  then have "?n < 2 ^ 31" using fits by linarith
  with fits have "ensure_capacity zero a (int c) = Inr (a\<lparr>array_data := array_data a @
      replicate (?n - capacity a) (if clear_flag a then Some zero else None)\<rparr>)"
    using False by (simp add: ensure_capacity_def Let_def)
  moreover have "max (capacity a + (?n - capacity a)) 16 = ?n" using n by (simp add: INITIAL_CAPACITY_def)
  ultimately show ?thesis using n fits by (intro exI conjI) (assumption, rule refl, simp_all)
qed

lemma terminate_array_spec:
  assumes "array_len a + (if zero_terminated a then 1 else 0) \<le> capacity a" "element_offset a (array_len a) = Inr (array_len a)"
  shows "\<exists>b. terminate_array zero a = Inr (a\<lparr>array_data := b\<rparr>) \<and> length b = capacity a \<and>
    take (array_len a) b = take (array_len a) (array_data a) \<and> (zero_terminated a \<longrightarrow> b ! array_len a = Some zero)"
proof (cases "zero_terminated a")
  case True
  then show ?thesis using assms by (auto simp: terminate_array_def store_vals_def nth_append)
next
  case False
  then show ?thesis by (intro exI [of _ "array_data a"]) (simp add: terminate_array_def)
qed

text \<open>The last step of every operation: the elements before the new length are in place.\<close>

lemma finish_edit:
  assumes "take (array_len a) (array_data a) = map Some xs" "0 < element_size a" "max (capacity a) 16 * element_size a < 2 ^ 31"
    "array_len a + (if zero_terminated a then 1 else 0) \<le> capacity a"
  shows "\<exists>a'. terminate_array zero a = Inr a' \<and> array_ok a' \<and> elements a' = xs \<and> terminated zero a' \<and> element_size a' = element_size a"
proof -
  have "array_len a \<le> capacity a" using assms(4) by simp
  then have "element_offset a (array_len a) = Inr (array_len a)" using products_fit [OF assms(2,3)] by blast
  then obtain b where b: "terminate_array zero a = Inr (a\<lparr>array_data := b\<rparr>)" "length b = capacity a"
    "take (array_len a) b = take (array_len a) (array_data a)" "zero_terminated a \<longrightarrow> b ! array_len a = Some zero"
    using terminate_array_spec [OF assms(4)] by blast
  then show ?thesis using array_okI [of "a\<lparr>array_data := b\<rparr>" xs] assms by (auto simp: terminated_def split: if_splits)
qed

section \<open>GArray edits\<close>

definition edited :: "'a \<Rightarrow> nat \<Rightarrow> 'a GArrayPriv res \<Rightarrow> 'a list \<Rightarrow> bool" where
  "edited zero sz r xs \<longleftrightarrow> (\<exists>a. r = Inr a \<and> array_ok a \<and> elements a = xs \<and> terminated zero a \<and> element_size a = sz)"

text \<open>Room for the new elements and the terminator, with the old elements in place.\<close>

lemma make_room:
  assumes "array_ok a" "(array_len a + k + 1) * element_size a \<le> 2 ^ 30"
  obtains a' where
    "ensure_capacity zero a (to_int (uadd (uadd (array_len a) k) (if zero_terminated a then 1 else 0))) = Inr a'"
    "array_len a' = array_len a" "zero_terminated a' = zero_terminated a" "element_size a' = element_size a"
    "max (capacity a') 16 * element_size a' < 2 ^ 31" "array_len a + k + 1 \<le> 2 ^ 30"
    "array_len a + k + (if zero_terminated a then 1 else 0) \<le> capacity a'"
    "take (array_len a) (array_data a') = map Some (elements a)"
proof -
  let ?c = "array_len a + k + (if zero_terminated a then 1 else 0)" and ?z = "element_size a"
  have a: "array_len a \<le> capacity a" "0 < ?z" "max (capacity a) 16 * ?z < 2 ^ 31" using assms(1) by (simp_all add: array_ok_def)
  have "(array_len a + k + 1) * 1 \<le> (array_len a + k + 1) * ?z" using a(2) by (intro mult_le_mono2) simp
  then have n: "array_len a + k + 1 \<le> 2 ^ 30" using assms(2) by simp
  then have "to_int (uadd (uadd (array_len a) k) (if zero_terminated a then 1 else 0)) = int ?c"
    by (simp add: to_int_def split: if_splits)
  moreover have "?c * ?z \<le> (array_len a + k + 1) * ?z" by (intro mult_le_mono1) simp
  then have "?c * ?z \<le> 2 ^ 30" using assms(2) by simp
  ultimately obtain a' ext where "ensure_capacity zero a (to_int (uadd (uadd (array_len a) k) (if zero_terminated a then 1 else 0))) = Inr a'"
    "a' = a\<lparr>array_data := array_data a @ ext\<rparr>" "?c \<le> capacity a'" "max (capacity a') 16 * ?z < 2 ^ 31"
    using ensure_capacity_spec [OF a(2,3), of ?c zero] by auto
  then show ?thesis using that [of a'] take_elements [OF assms(1)] a(1) n by simp
qed

lemma elements_length: "array_ok a \<Longrightarrow> length (elements a) = array_len a"
  by (simp add: array_ok_def elements_def)

lemma move_up:
  assumes "length vs \<le> length rest"
  shows "\<exists>b. memmove (length xs + length vs) (length xs) (length ys) (map Some (xs @ ys) @ rest) = Inr b \<and>
    store_vals (length xs) vs b = Inr (map Some (xs @ vs @ ys) @ drop (length vs) rest)"
proof (cases "ys = []")
  case True
  then show ?thesis using assms by (auto simp: memmove_def store_vals_def)
next
  case False
  let ?b = "map Some (xs @ ys) @ rest" and ?k = "length vs"
  let ?b1 = "take (length xs + ?k) ?b @ map Some ys @ drop ?k rest"
  have "memmove (length xs + ?k) (length xs) (length ys) ?b = Inr ?b1"
    using assms False by (simp add: memmove_def)
  moreover have "take (length xs) ?b1 = map Some xs" by simp
  moreover have "drop (length xs + ?k) ?b1 = map Some ys @ drop ?k rest" using assms by simp
  ultimately show ?thesis using assms by (intro exI [of _ ?b1]) (auto simp: store_vals_def)
qed

lemma move_down:
  assumes "rest \<noteq> []"
  shows "memmove (length xs) (length xs + 1) (Suc (length ys)) (map Some (xs @ y # ys) @ rest) =
    Inr (map Some (xs @ ys) @ hd rest # rest)"
  using assms by (cases rest) (auto simp: memmove_def guardr_def)

lemma insert_vals_edited:
  assumes "array_ok a" "(array_len a + length vs + 1) * element_size a \<le> 2 ^ 30" "elements a = xs @ ys"
  shows "edited zero (element_size a) (g_array_insert_vals zero a (length xs) vs) (xs @ vs @ ys)"
proof -
  let ?n = "array_len a" and ?k = "length vs"
  obtain a' where a': "ensure_capacity zero a (to_int (uadd (uadd ?n ?k) (if zero_terminated a then 1 else 0))) = Inr a'"
    "array_len a' = ?n" "zero_terminated a' = zero_terminated a" "max (capacity a') 16 * element_size a' < 2 ^ 31"
    "?n + ?k + (if zero_terminated a then 1 else 0) \<le> capacity a'" "take ?n (array_data a') = map Some (elements a)"
    "element_size a' = element_size a" "?n + ?k + 1 \<le> 2 ^ 30"
    using make_room [OF assms(1,2)] by metis
  have z: "0 < element_size a'" using assms(1) a'(7) by (simp add: array_ok_def)
  let ?r = "drop ?n (array_data a')"
  have n: "?n = length xs + length ys" using elements_length [OF assms(1)] assms(3) by simp
  have b: "array_data a' = map Some (xs @ ys) @ ?r"
    using append_take_drop_id [of ?n "array_data a'"] a'(6) assms(3) by simp
  have k: "?k \<le> length ?r" using a'(5) by simp
  have p: "element_length a' i = Inr i" if "i \<le> capacity a'" for i using products_fit [OF z a'(4) that] by blast
  have u: "uadd (length xs) ?k = length xs + ?k" "usub ?n (length xs) = length ys" "uadd ?n ?k = ?n + ?k"
    using n a'(8) by simp_all
  have l: "element_length a' (length xs + ?k) = Inr (length xs + ?k)" "element_length a' (length xs) = Inr (length xs)"
    "element_length a' (length ys) = Inr (length ys)" "element_length a' ?k = Inr ?k"
    using n a'(5) by (auto intro!: p)
  obtain b1 where "memmove (length xs + ?k) (length xs) (length ys) (array_data a') = Inr b1"
    "store_vals (length xs) vs b1 = Inr (map Some (xs @ vs @ ys) @ drop ?k ?r)"
    using move_up [OF k, of xs ys] b by auto
  moreover define e where "e = a'\<lparr>array_data := map Some (xs @ vs @ ys) @ drop ?k ?r, array_len := ?n + ?k\<rparr>"
  ultimately have "g_array_insert_vals zero a (length xs) vs = terminate_array zero e"
    using a'(1,2) u l by (simp add: g_array_insert_vals_def)
  moreover have "capacity e = capacity a'" using k n a'(5) by (simp add: e_def)
  then have "\<exists>a. terminate_array zero e = Inr a \<and> array_ok a \<and> elements a = xs @ vs @ ys \<and> terminated zero a \<and> element_size a = element_size e"
    using a'(3,4,5) n z by (intro finish_edit) (simp_all add: e_def)
  ultimately show ?thesis using a'(7) by (auto simp: edited_def e_def)
qed

lemma append_vals_edited:
  assumes "array_ok a" "(array_len a + length vs + 1) * element_size a \<le> 2 ^ 30"
  shows "edited zero (element_size a) (g_array_append_vals zero a vs) (elements a @ vs)"
proof -
  let ?n = "array_len a" and ?k = "length vs"
  obtain a' where a': "ensure_capacity zero a (to_int (uadd (uadd ?n ?k) (if zero_terminated a then 1 else 0))) = Inr a'"
    "array_len a' = ?n" "max (capacity a') 16 * element_size a' < 2 ^ 31" "?n + ?k + (if zero_terminated a then 1 else 0) \<le> capacity a'"
    "element_size a' = element_size a" "?n + ?k + 1 \<le> 2 ^ 30"
    using make_room [OF assms] by metis
  have z: "0 < element_size a'" using assms(1) a'(5) by (simp add: array_ok_def)
  have c: "?n \<le> capacity a'" "?k \<le> capacity a'" "?n + ?k \<le> capacity a'" using a'(4) by (simp_all split: if_splits)
  have u: "uadd ?n ?k = ?n + ?k" "usub ?n ?n = 0" "element_length a' 0 = Inr 0"
    using a'(6) products_fit [OF z a'(3), of 0] by simp_all
  have "g_array_append_vals zero a vs = g_array_insert_vals zero a ?n vs"
    using a'(1,2) u products_fit [OF z a'(3) c(1)] products_fit [OF z a'(3) c(2)] products_fit [OF z a'(3) c(3)]
    by (simp add: g_array_append_vals_def g_array_insert_vals_def memmove_def)
  then show ?thesis using insert_vals_edited [OF assms, of "elements a" "[]"] elements_length [OF assms(1)] by simp
qed

lemma remove_index_edited:
  assumes "array_ok a" "array_len a < capacity a" "elements a = xs @ y # ys"
  shows "edited zero (element_size a) (g_array_remove_index zero a (length xs)) (xs @ ys)"
proof -
  let ?n = "array_len a"
  let ?r = "drop ?n (array_data a)"
  have n: "?n = length xs + Suc (length ys)" using elements_length [OF assms(1)] assms(3) by simp
  have c: "0 < element_size a" "max (capacity a) 16 * element_size a < 2 ^ 31" using assms(1) by (simp_all add: array_ok_def)
  have small: "?n < 2 ^ 31" using array_ok_sizes [OF assms(1), of ?n] assms(2) by simp
  have l: "element_length a (length xs) = Inr (length xs)" "element_length a (length xs + 1) = Inr (length xs + 1)"
    "element_length a (Suc (length ys)) = Inr (Suc (length ys))"
    using n assms(2) array_ok_sizes [OF assms(1), THEN conjunct2, THEN conjunct1] by auto
  have u: "uadd (length xs) 1 = length xs + 1" "usub ?n (length xs) = Suc (length ys)" "usub ?n 1 = ?n - 1"
    using n small by simp_all
  have b: "array_data a = map Some (xs @ y # ys) @ ?r"
    using append_take_drop_id [of ?n "array_data a"] take_elements [OF assms(1)] assms(3) by simp
  define e where "e = a\<lparr>array_data := map Some (xs @ ys) @ hd ?r # ?r, array_len := ?n - 1\<rparr>"
  have "memmove (length xs) (length xs + 1) (Suc (length ys)) (array_data a) = Inr (map Some (xs @ ys) @ hd ?r # ?r)"
    using move_down [of ?r xs ys y] b assms(2) by simp
  then have "g_array_remove_index zero a (length xs) = terminate_array zero e"
    unfolding g_array_remove_index_def u l by (simp add: l e_def)
  moreover have "capacity e = capacity a" using n assms(2) by (simp add: e_def)
  then have "\<exists>a. terminate_array zero e = Inr a \<and> array_ok a \<and> elements a = xs @ ys \<and> terminated zero a \<and> element_size a = element_size e"
    using c n assms(2) by (intro finish_edit) (simp_all add: e_def)
  ultimately show ?thesis by (auto simp: edited_def e_def)
qed

section \<open>GArray failures\<close>

lemma remove_index_full:
  assumes "array_ok a" "array_len a = capacity a" "index < array_len a"
  shows "g_array_remove_index zero a index = Inl Out_of_bounds"
proof -
  have n: "array_len a < 2 ^ 31" using array_ok_sizes [OF assms(1), of "array_len a"] assms(2) by simp
  then have u: "uadd index 1 = Suc index" "usub (array_len a) index = array_len a - index" using assms(3) by simp_all
  have "element_length a index = Inr index" "element_length a (Suc index) = Inr (Suc index)"
    "element_length a (array_len a - index) = Inr (array_len a - index)"
    using array_ok_sizes [OF assms(1)] assms(2,3) by simp_all
  then show ?thesis unfolding g_array_remove_index_def u using assms(2,3) by (simp add: memmove_def)
qed

lemma new_array:
  assumes "0 < sz" "16 * sz < 2 ^ 31"
  shows "\<exists>a. g_array_new zero zt clr sz = Inr a \<and> array_ok a \<and> elements a = [] \<and> capacity a = 16 \<and> zero_terminated a = zt \<and>
    element_size a = sz \<and> array_data a = replicate 16 (if clr then Some zero else None)"
  using assms by (simp add: g_array_new_def ensure_capacity_def Let_def INITIAL_CAPACITY_def capacity_loop.simps array_ok_def elements_def)

text \<open>
  The fast removal at \<open>index\<close> moves as many elements as follow it, from the last element on: the
  elements between are overwritten with what lies after the end.
\<close>

lemma remove_fast_eq:
  assumes "array_ok a" "\<not> zero_terminated a" "index < array_len a"
  shows "g_array_remove_index_fast zero a index = bindr (memmove index (array_len a - 1) (array_len a - index) (array_data a))
    (\<lambda>b. Inr (a\<lparr>array_data := b, array_len := array_len a - 1\<rparr>))"
proof -
  have c: "array_len a \<le> capacity a" using assms(1) by (simp add: array_ok_def)
  then have n: "array_len a < 2 ^ 31" using array_ok_sizes [OF assms(1), of "array_len a"] by simp
  then have u: "usub (array_len a) index = array_len a - index" "usub (array_len a) 1 = array_len a - 1" using assms(3) by simp_all
  have "element_length a index = Inr index" "element_length a (array_len a - index) = Inr (array_len a - index)"
    "element_offset a (array_len a - 1) = Inr (array_len a - 1)"
    using array_ok_sizes [OF assms(1)] assms(3) c by simp_all
  then show ?thesis unfolding g_array_remove_index_fast_def u using assms(2,3) by (simp add: terminate_array_def)
qed

lemma remove_fast_block:
  assumes "array_ok a" "\<not> zero_terminated a" "index < array_len a" "2 * array_len a - 1 - index \<le> capacity a"
  shows "g_array_remove_index_fast zero a index = Inr (a\<lparr>array_data :=
      take index (array_data a) @ take (array_len a - index) (drop (array_len a - 1) (array_data a)) @ drop (array_len a) (array_data a),
      array_len := array_len a - 1\<rparr>)"
  using assms by (auto simp: remove_fast_eq memmove_def array_ok_def guardr_def)

section \<open>Growth of a GPtrArray\<close>

lemma size_loop_ends:
  "n \<le> 2 ^ 31 \<Longrightarrow> k \<le> 31 \<Longrightarrow> \<exists>s. size_loop (2 ^ k) n = Some s \<and> n \<le> s \<and> s \<le> 2 ^ 31"
proof (induction "31 - k" arbitrary: k)
  case 0
  then have "k = 31" by simp
  then show ?case using 0 by (subst size_loop.simps) simp
next
  case (Suc m)
  then have k: "k < 31" by simp
  then have "(2::nat) * 2 ^ k < 2 ^ 32" "(2::nat) ^ k \<le> 2 ^ 31"
    using power_strict_increasing [of "Suc k" 32 "2::nat"] power_increasing [of k 31 "2::nat"] by simp_all
  moreover have "\<exists>s. size_loop (2 ^ Suc k) n = Some s \<and> n \<le> s \<and> s \<le> 2 ^ 31" using Suc k by (intro Suc.hyps) simp_all
  ultimately show ?case by (subst size_loop.simps) auto
qed

text \<open>The sizes that the loop meets: the powers of two up to \<open>2 ^ 31\<close>, and 0 after them.\<close>

definition loop_size :: "nat \<Rightarrow> bool" where
  "loop_size s \<longleftrightarrow> s = 0 \<or> (\<exists>k \<le> 31. s = 2 ^ k)"

lemma loop_size_step: "loop_size s \<Longrightarrow> loop_size (2 * s mod 2 ^ 32)"
proof (cases "s = 2 ^ 31")
  case False
  assume "loop_size s"
  then consider "s = 0" | k where "k \<le> 31" "s = 2 ^ k" by (auto simp: loop_size_def)
  then show ?thesis
  proof cases
    case 2
    then have "k < 31" using False by (cases "k = 31") auto
    then have "(2::nat) ^ Suc k < 2 ^ 32" by (intro power_strict_increasing) auto
    then have "2 * s mod 2 ^ 32 = 2 ^ Suc k" using 2 by (simp only: power_Suc mod_less)
    then show ?thesis using \<open>k < 31\<close> unfolding loop_size_def by (metis Suc_leI)
  qed (simp add: loop_size_def)
qed (simp add: loop_size_def)

lemma size_loop_bound:
  assumes "size_loop s n = Some y"
  shows "loop_size s \<longrightarrow> n \<le> y \<and> loop_size y"
proof (rule size_loop.raw_induct [of "\<lambda>s n y. loop_size s \<longrightarrow> n \<le> y \<and> loop_size y", OF _ assms])
  fix f :: "nat \<Rightarrow> nat \<Rightarrow> nat option" and s n y
  assume "\<And>s n y. f s n = Some y \<Longrightarrow> loop_size s \<longrightarrow> n \<le> y \<and> loop_size y"
    "(if s < n then f (2 * s mod 2 ^ 32) n else Some s) = Some y"
  then show "loop_size s \<longrightarrow> n \<le> y \<and> loop_size y" using loop_size_step by (metis leI option.inject)
qed

lemma loop_size_le: "loop_size s \<Longrightarrow> s \<le> 2 ^ 31"
  unfolding loop_size_def using power_increasing [of _ 31 "2::nat"] by auto

lemma size_loop_iff: "(\<exists>s. size_loop 1 n = Some s) \<longleftrightarrow> n \<le> 2 ^ 31"
proof
  assume "\<exists>s. size_loop 1 n = Some s"
  then obtain s where s: "size_loop 1 n = Some s" by blast
  have "loop_size 1" unfolding loop_size_def by (metis power_0 zero_le)
  then show "n \<le> 2 ^ 31" using size_loop_bound [OF s] loop_size_le by fastforce
qed (use size_loop_ends [of n 0] in auto)

definition ptr_ok :: "GPtrArrayPriv \<Rightarrow> bool" where
  "ptr_ok a \<longleftrightarrow> ptr_len a \<le> length (pdata a) \<and> length (pdata a) \<le> 2 ^ 31 \<and> None \<notin> set (take (ptr_len a) (pdata a))"

definition ptrs :: "GPtrArrayPriv \<Rightarrow> addr list" where
  "ptrs a = map the (take (ptr_len a) (pdata a))"

lemma ptr_data: "ptr_ok a \<Longrightarrow> pdata a = map Some (ptrs a) @ drop (ptr_len a) (pdata a)" "ptr_ok a \<Longrightarrow> length (ptrs a) = ptr_len a"
  using map_Some_the [of "take (ptr_len a) (pdata a)"] append_take_drop_id [of "ptr_len a" "pdata a"]
  by (simp_all add: ptr_ok_def ptrs_def)

lemma ptr_okI: "length xs + length rest \<le> 2 ^ 31 \<Longrightarrow> ptr_ok \<lparr>pdata = map Some xs @ rest, ptr_len = length xs\<rparr> \<and>
    ptrs \<lparr>pdata = map Some xs @ rest, ptr_len = length xs\<rparr> = xs"
  by (auto simp: ptr_ok_def ptrs_def)

lemma grow_spec:
  assumes "ptr_ok a" "uadd (ptr_len a) len \<le> 2 ^ 31"
  shows "\<exists>rest. g_ptr_array_grow a len = Some \<lparr>pdata = map Some (ptrs a) @ rest, ptr_len = ptr_len a\<rparr> \<and>
    uadd (ptr_len a) len \<le> ptr_len a + length rest \<and> ptr_len a + length rest \<le> 2 ^ 31"
proof (cases "uadd (ptr_len a) len \<le> length (pdata a)")
  case True
  moreover have "a = \<lparr>pdata = map Some (ptrs a) @ drop (ptr_len a) (pdata a), ptr_len = ptr_len a\<rparr>"
    using ptr_data(1) [OF assms(1)] by simp
  ultimately show ?thesis
    using assms(1) by (intro exI [of _ "drop (ptr_len a) (pdata a)"]) (auto simp: g_ptr_array_grow_def ptr_ok_def)
next
  case False
  obtain s where s: "size_loop 1 (uadd (ptr_len a) len) = Some s" "uadd (ptr_len a) len \<le> s" "s \<le> 2 ^ 31"
    using size_loop_ends [OF assms(2), of 0] by auto
  let ?rest = "drop (ptr_len a) (pdata a) @ replicate (max s 16 - length (pdata a)) None"
  have "g_ptr_array_grow a len = Some \<lparr>pdata = map Some (ptrs a) @ ?rest, ptr_len = ptr_len a\<rparr>"
    using False s(1) ptr_data(1) [OF assms(1)] by (simp add: g_ptr_array_grow_def Let_def)
  moreover have "ptr_len a + length ?rest = max (length (pdata a)) (max s 16)" using assms(1) by (auto simp: ptr_ok_def)
  ultimately show ?thesis using s assms(1) by (intro exI [of _ ?rest]) (auto simp: ptr_ok_def)
qed

section \<open>GPtrArray edits\<close>

definition ptr_edited :: "GPtrArrayPriv res option \<Rightarrow> addr list \<Rightarrow> bool" where
  "ptr_edited r xs \<longleftrightarrow> (\<exists>a. r = Some (Inr a) \<and> ptr_ok a \<and> ptrs a = xs)"

lemma ptr_editedI:
  "r = Some (Inr \<lparr>pdata = map Some xs @ rest, ptr_len = length xs\<rparr>) \<Longrightarrow> length xs + length rest \<le> 2 ^ 31 \<Longrightarrow> ptr_edited r xs"
  using ptr_okI [of xs rest] by (auto simp: ptr_edited_def)

lemma store_end: "length vs \<le> length rest \<Longrightarrow> store_vals (length xs) vs (map Some xs @ rest) = Inr (map Some (xs @ vs) @ drop (length vs) rest)"
  by (auto simp: store_vals_def)

lemma add_edited:
  assumes "ptr_ok a" "ptr_len a < 2 ^ 31"
  shows "ptr_edited (g_ptr_array_add a d) (ptrs a @ [d])"
proof -
  have u: "uadd (ptr_len a) 1 = ptr_len a + 1" using assms(2) by simp
  then obtain rest where r: "g_ptr_array_grow a 1 = Some \<lparr>pdata = map Some (ptrs a) @ rest, ptr_len = ptr_len a\<rparr>"
    "ptr_len a + 1 \<le> ptr_len a + length rest" "ptr_len a + length rest \<le> 2 ^ 31"
    using grow_spec [OF assms(1), of 1] assms(2) by auto
  show ?thesis
    using r u ptr_data(2) [OF assms(1)] store_end [of "[d]" rest "ptrs a"]
    by (intro ptr_editedI [of _ _ "drop 1 rest"]) (simp_all add: g_ptr_array_add_def)
qed

lemma set_size_edited:
  assumes "ptr_ok a" "ptr_len a + n \<le> 2 ^ 31"
  shows "ptr_edited (g_ptr_array_set_size a (int n)) (take n (ptrs a) @ replicate (n - ptr_len a) 0)"
proof (cases "n > ptr_len a")
  case True
  have n: "nat (int n mod 2 ^ 32) = n" "uadd (ptr_len a) n = ptr_len a + n" "usub n (ptr_len a) = n - ptr_len a"
    using assms(2) True by simp_all
  obtain rest where r: "g_ptr_array_grow a n = Some \<lparr>pdata = map Some (ptrs a) @ rest, ptr_len = ptr_len a\<rparr>"
    "ptr_len a + n \<le> ptr_len a + length rest" "ptr_len a + length rest \<le> 2 ^ 31"
    using grow_spec [OF assms(1), of n] assms(2) n(2) by auto
  let ?z = "replicate (n - ptr_len a) 0"
  have "store_vals (ptr_len a) ?z (map Some (ptrs a) @ rest) = Inr (map Some (ptrs a @ ?z) @ drop (length ?z) rest)"
    using store_end [of ?z rest "ptrs a"] r(2) ptr_data(2) [OF assms(1)] by simp
  then have "g_ptr_array_set_size a (int n) = Some (Inr \<lparr>pdata = map Some (ptrs a @ ?z) @ drop (length ?z) rest, ptr_len = n\<rparr>)"
    using True r(1) n by (simp add: g_ptr_array_set_size_def Let_def)
  then show ?thesis
    using True r(2,3) ptr_data(2) [OF assms(1)] by (intro ptr_editedI [of _ _ "drop (length ?z) rest"]) simp_all
next
  case False
  let ?rest = "map Some (drop n (ptrs a)) @ drop (ptr_len a) (pdata a)"
  have "nat (int n mod 2 ^ 32) = n" using assms(2) by simp
  moreover have "pdata a = map Some (take n (ptrs a)) @ ?rest"
    using ptr_data(1) [OF assms(1)] by (metis append.assoc append_take_drop_id map_append)
  ultimately have "g_ptr_array_set_size a (int n) = Some (Inr \<lparr>pdata = map Some (take n (ptrs a)) @ ?rest, ptr_len = n\<rparr>)"
    using False by (simp add: g_ptr_array_set_size_def Let_def)
  then show ?thesis
    using False ptr_data(2) [OF assms(1)] assms(1)
    by (intro ptr_editedI [of _ _ ?rest]) (simp_all add: ptr_ok_def)
qed

lemma close_gap:
  "memmove (length xs) (length xs + 1) (length ys) (map Some (xs @ y # ys) @ rest) =
    Inr (map Some (xs @ ys) @ Some (last (y # ys)) # rest)"
  by (cases ys rule: rev_cases) (auto simp: memmove_def guardr_def)

lemma remove_index_ptrs:
  assumes "ptr_ok a" "ptrs a = xs @ y # ys"
  shows "\<exists>a'. g_ptr_array_remove_index a (length xs) = Inr (Some y, a') \<and> ptr_ok a' \<and> ptrs a' = xs @ ys"
proof -
  let ?r = "drop (ptr_len a) (pdata a)" and ?n = "length xs + length ys"
  note d = ptr_data [OF assms(1)]
  have n: "ptr_len a = Suc ?n" "ptr_len a + length ?r \<le> 2 ^ 31" "Suc ?n < 2 ^ 32"
    using d(2) assms by (auto simp: ptr_ok_def)
  have b: "pdata a = map Some (xs @ y # ys) @ ?r" using d(1) assms(2) by simp
  have "pdata a ! length xs = Some y" by (subst b) (simp add: nth_append)
  moreover define r' where "r' = Some (last (y # ys))"
  have "(if length xs \<noteq> ?n then memmove (length xs) (length xs + 1) (length ys) (pdata a) else Inr (pdata a)) =
      Inr (map Some (xs @ ys) @ r' # ?r)"
    using close_gap [of xs ys y ?r] b unfolding r'_def by (cases ys) simp_all
  moreover have "store_vals ?n [0] (map Some (xs @ ys) @ r' # ?r) = Inr (map Some (xs @ ys) @ Some 0 # ?r)"
    by (simp add: store_vals_def)
  moreover have "length xs < length (pdata a)" by (subst b) simp
  ultimately have "g_ptr_array_remove_index a (length xs) = Inr (Some y, \<lparr>pdata = map Some (xs @ ys) @ Some 0 # ?r, ptr_len = ?n\<rparr>)"
    using n by (cases "ys = []") (simp_all add: g_ptr_array_remove_index_def index_accepted_def Let_def)
  then show ?thesis using ptr_okI [of "xs @ ys" "Some 0 # ?r"] n by auto
qed

lemma position_some: "y \<notin> set xs \<Longrightarrow> position y i (map Some xs @ Some y # b) = Some (i + length xs)"
  by (induction xs arbitrary: i) auto

lemma position_none: "y \<notin> set xs \<Longrightarrow> position y i (map Some xs) = None"
  by (induction xs arbitrary: i) auto

lemma remove_ptrs:
  assumes "ptr_ok a"
  shows "\<exists>a'. g_ptr_array_remove a d = Inr (d \<in> set (ptrs a), a') \<and> ptr_ok a' \<and> ptrs a' = remove1 d (ptrs a)"
proof -
  have t: "take (ptr_len a) (pdata a) = map Some (ptrs a)" using assms map_Some_the [of "take (ptr_len a) (pdata a)"] by (simp add: ptr_ok_def ptrs_def)
  show ?thesis
  proof (cases "d \<in> set (ptrs a)")
    case True
    then obtain xs ys where x: "ptrs a = xs @ d # ys" "d \<notin> set xs" by (meson split_list_first)
    then obtain a' where "g_ptr_array_remove_index a (length xs) = Inr (Some d, a')" "ptr_ok a'" "ptrs a' = xs @ ys"
      using remove_index_ptrs [OF assms] by blast
    moreover have "position d 0 (map Some (ptrs a)) = Some (length xs)" using x position_some [of d xs 0] by simp
    ultimately show ?thesis using True x t by (simp add: g_ptr_array_remove_def remove1_append)
  next
    case False
    then show ?thesis using t position_none [OF False, of 0] assms by (simp add: g_ptr_array_remove_def remove1_idem)
  qed
qed

section \<open>GPtrArray failures\<close>

lemma remove_index_out_of_range:
  assumes "ptr_ok a" "ptr_len a \<le> index" "index < 2 ^ 32"
  shows "g_ptr_array_remove_index a index = Inl Out_of_bounds"
proof (cases "index < length (pdata a)")
  case True
  have l: "length (pdata a) \<le> 2 ^ 31" using assms(1) by (simp add: ptr_ok_def)
  then have ne: "index \<noteq> usub (ptr_len a) 1"
    using assms(2) True usub_small [of 1 "ptr_len a"] by (cases "ptr_len a = 0") (simp add: usub_def, simp)
  have "usub (usub (ptr_len a) index) 1 = 2 ^ 32 + ptr_len a - index - 1"
  proof (cases "index = ptr_len a")
    case True
    then show ?thesis using assms(3) by (simp add: usub_def)
  next
    case False
    then have "usub (ptr_len a) index = ptr_len a + 2 ^ 32 - index" using assms(2,3) by (intro usub_wrap) auto
    then show ?thesis using False assms(2) True l by simp
  qed
  then show ?thesis
    using ne True l assms(2) by (simp add: g_ptr_array_remove_index_def index_accepted_def memmove_def Let_def guardr_def)
qed (simp add: g_ptr_array_remove_index_def index_accepted_def)

lemma remove_fast_out_of_range:
  assumes "ptr_ok a" "ptr_len a \<le> index" "index < length (pdata a)" "ptrs a = xs @ [y]"
  shows "\<exists>a'. g_ptr_array_remove_index_fast a index = Inr (pdata a ! index, a') \<and> ptrs a' = xs"
proof -
  note d = ptr_data [OF assms(1)]
  let ?n = "length xs"
  have n: "ptr_len a = Suc ?n" "Suc ?n < 2 ^ 32" "?n < index" using d(2) assms by (auto simp: ptr_ok_def)
  let ?b = "take index (pdata a) @ take 1 (drop ?n (pdata a)) @ drop (index + 1) (pdata a)"
  have "memmove index (ptr_len a - 1) 1 (pdata a) = Inr ?b" using n assms(3) by (simp add: memmove_def)
  moreover have "length ?b = length (pdata a)" using n assms(3) by simp
  then have "store_vals ?n [0] ?b = Inr (take ?n ?b @ [Some 0] @ drop (Suc ?n) ?b)"
    using n assms(3) by (simp add: store_vals_def)
  moreover have "take ?n ?b = map Some xs"
  proof -
    have "take ?n ?b = take ?n (pdata a)" using n assms(3) by simp
    also have "\<dots> = take ?n (map Some (xs @ [y]) @ drop (ptr_len a) (pdata a))" using d(1) assms(4) by metis
    finally show ?thesis by simp
  qed
  ultimately have "g_ptr_array_remove_index_fast a index = Inr (pdata a ! index, a\<lparr>pdata := map Some xs @ [Some 0] @ drop (Suc ?n) ?b, ptr_len := ?n\<rparr>)"
    using n assms(3) by (simp add: g_ptr_array_remove_index_fast_def index_accepted_def Let_def)
  then show ?thesis by (simp add: ptrs_def)
qed

section \<open>Collecting elements\<close>

text \<open>
  What the callers of both arrays do: push elements one by one and read the result.  \<open>rep\<close> relates
  an array to the list it holds.
\<close>

locale growing_array =
  fixes rep :: "'arr \<Rightarrow> 'e list \<Rightarrow> bool"
    and limit :: nat
    and push :: "'arr \<Rightarrow> 'e \<Rightarrow> 'arr option"
  assumes push_rep: "rep a xs \<Longrightarrow> length xs < limit \<Longrightarrow> \<exists>a'. push a x = Some a' \<and> rep a' (xs @ [x])"
begin

lemma push_all:
  "rep a xs \<Longrightarrow> length xs + length ds \<le> limit \<Longrightarrow>
    \<exists>a'. foldl (\<lambda>r d. Option.bind r (\<lambda>a. push a d)) (Some a) ds = Some a' \<and> rep a' (xs @ ds)"
proof (induction ds arbitrary: a xs)
  case (Cons d ds)
  then obtain a' where "push a d = Some a'" "rep a' (xs @ [d])" using push_rep [of a xs d] by auto
  then show ?case using Cons.IH [of a' "xs @ [d]"] Cons.prems(2) by simp
qed simp

end

definition g_array_push :: "'a \<Rightarrow> 'a GArrayPriv \<Rightarrow> 'a \<Rightarrow> 'a GArrayPriv option" where
  "g_array_push zero a x = (case g_array_append_vals zero a [x] of Inl e \<Rightarrow> None | Inr a' \<Rightarrow> Some a')"

definition g_ptr_array_push :: "GPtrArrayPriv \<Rightarrow> addr \<Rightarrow> GPtrArrayPriv option" where
  "g_ptr_array_push a d = (case g_ptr_array_add a d of Some (Inr a') \<Rightarrow> Some a' | _ \<Rightarrow> None)"

interpretation vals: growing_array "\<lambda>a xs. array_ok a \<and> elements a = xs \<and> element_size a = sz" "2 ^ 30 div sz - 1" "g_array_push zero"
  for zero sz
proof
  fix a :: "'a GArrayPriv" and xs x
  assume a: "array_ok a \<and> elements a = xs \<and> element_size a = sz" "length xs < 2 ^ 30 div sz - 1"
  then have "array_len a + 2 \<le> 2 ^ 30 div sz" using elements_length [of a] by auto
  then have "(array_len a + 2) * sz \<le> 2 ^ 30 div sz * sz" by (rule mult_le_mono1)
  also have "\<dots> \<le> 2 ^ 30" by simp
  finally have "edited zero sz (g_array_append_vals zero a [x]) (xs @ [x])"
    using append_vals_edited [of a "[x]" zero] a(1) by auto
  then show "\<exists>a'. g_array_push zero a x = Some a' \<and> array_ok a' \<and> elements a' = xs @ [x] \<and> element_size a' = sz"
    by (auto simp: edited_def g_array_push_def)
qed

interpretation pointers: growing_array "\<lambda>a xs. ptr_ok a \<and> ptrs a = xs" "2 ^ 31" g_ptr_array_push
proof
  fix a xs x
  assume "ptr_ok a \<and> ptrs a = xs" "length xs < 2 ^ 31"
  then have "ptr_edited (g_ptr_array_add a x) (xs @ [x])" using add_edited [of a x] ptr_data(2) [of a] by auto
  then show "\<exists>a'. g_ptr_array_push a x = Some a' \<and> ptr_ok a' \<and> ptrs a' = xs @ [x]"
    by (auto simp: ptr_edited_def g_ptr_array_push_def)
qed

section \<open>Properties\<close>

text \<open>The array 1, 2, 3, 4 with zeroed room, and the array of 16 elements that fills its block.\<close>

definition array_a :: "nat GArrayPriv" where
  "array_a = \<lparr>array_data = map Some [1, 2, 3, 4] @ replicate 12 (Some 0), array_len = 4, clear_flag = True,
     element_size = 8, zero_terminated = False\<rparr>"

definition array_full :: "nat GArrayPriv" where
  "array_full = \<lparr>array_data = replicate 16 (Some 7), array_len = 16, clear_flag = False, element_size = 8, zero_terminated = False\<rparr>"

lemma array_a_ok: "array_ok array_a" "array_len array_a = 4" "elements array_a = [1, 2] @ 3 # [4]"
  "capacity array_a = 16" "\<not> zero_terminated array_a" "element_size array_a = 8"
  by (auto simp: array_a_def array_ok_def elements_def)

text \<open>
  C39.  For an array of initialised elements whose capacity and 16 elements take less than \<open>2 ^ 31\<close> bytes, and
  as long as its elements, the new ones and a terminator take at most \<open>2 ^ 30\<close> bytes,
  \<open>g_array_append_vals\<close> and \<open>g_array_insert_vals\<close> never leave the block and none of their 32-bit
  products wraps; they keep every old element, put the new ones at the end or at the index, and
  leave a zero element after the last one when the array is zero-terminated.  \<open>g_array_remove_index\<close>
  takes out exactly the element at the index when the block has a place to spare, and reads past
  the end of the block when the array fills it.
\<close>

theorem g_array_edits_correct:
  assumes "array_ok a" "(array_len a + length vs + 1) * element_size a \<le> 2 ^ 30" "elements a = xs @ y # ys"
  shows "edited zero (element_size a) (g_array_append_vals zero a vs) (xs @ y # ys @ vs) \<and>
    edited zero (element_size a) (g_array_insert_vals zero a (length xs) vs) (xs @ vs @ y # ys) \<and>
    (if array_len a < capacity a then edited zero (element_size a) (g_array_remove_index zero a (length xs)) (xs @ ys)
     else g_array_remove_index zero a (length xs) = Inl Out_of_bounds)"
proof -
  have "length xs < array_len a" "array_len a \<le> capacity a"
    using elements_length [OF assms(1)] assms(1,3) by (simp_all add: array_ok_def)
  then show ?thesis
    using append_vals_edited [OF assms(1,2), of zero] insert_vals_edited [OF assms(1,2,3), of zero]
      remove_index_edited [OF assms(1) _ assms(3), of zero] remove_index_full [OF assms(1), of "length xs" zero] assms(3) by simp
qed

theorem g_array_edits_correct_witness:
  "edited 0 8 (g_array_insert_vals 0 array_a (length [1 :: nat, 2]) [9]) ([1, 2] @ [9] @ 3 # [4])"
proof -
  have "(array_len array_a + length [9 :: nat] + 1) * element_size array_a \<le> 2 ^ 30"
    using array_a_ok(2,6) by simp
  then show ?thesis using g_array_edits_correct [OF array_a_ok(1) _ array_a_ok(3), of "[9]" 0] array_a_ok(6) by simp
qed

text \<open>
  Both removals go wrong.  \<open>g_array_remove_index\<close> on an array that fills its block reads one
  element past the end.  \<open>g_array_remove_index_fast\<close>, when the block is large enough for its reads,
  leaves at every place after the removed one except the last what lay past the end of the array,
  and the elements between the removed one and the last are lost.
\<close>

theorem g_array_removals_overrun:
  assumes "array_ok a" "index < array_len a"
  shows "(array_len a = capacity a \<longrightarrow> g_array_remove_index zero a index = Inl Out_of_bounds) \<and>
    (\<not> zero_terminated a \<longrightarrow> 2 * array_len a - 1 - index \<le> capacity a \<longrightarrow>
      (\<exists>a'. g_array_remove_index_fast zero a index = Inr a' \<and> array_len a' = array_len a - 1 \<and>
        (\<forall>i. index \<le> i \<and> i < array_len a - 1 \<longrightarrow> array_data a' ! i = array_data a ! (array_len a - 1 + (i - index)))))"
proof -
  have "index < capacity a" "array_len a \<le> capacity a" using assms by (auto simp: array_ok_def)
  then show ?thesis
    using remove_index_full [OF assms(1) _ assms(2), of zero] remove_fast_block [OF assms(1) _ assms(2), of zero] assms(2)
    by (auto simp: nth_append min_def)
qed

theorem g_array_removals_overrun_witness:
  "g_array_remove_index 0 array_full 3 = Inl Out_of_bounds \<and>
    (\<exists>a'. g_array_remove_index_fast 0 array_a 0 = Inr a' \<and> array_data a' ! 1 = Some 0)"
proof -
  have "array_ok array_full" "array_len array_full = capacity array_full" "(3 :: nat) < array_len array_full"
    by (auto simp: array_full_def array_ok_def)
  moreover have "array_data array_a ! 4 = Some 0" by (simp add: array_a_def)
  moreover note g_array_removals_overrun [OF array_a_ok(1), of 0 0] array_a_ok(2,4,5)
  ultimately show ?thesis using g_array_removals_overrun [of array_full 3 0] by auto
qed

text \<open>
  The pointer array below \<open>2 ^ 31\<close> entries: \<open>g_ptr_array_add\<close> returns and adds the pointer at
  the end, \<open>g_ptr_array_set_size\<close> cuts the array or fills it up with null pointers, and
  \<open>g_ptr_array_remove\<close> answers whether the pointer was there and takes out its first occurrence.
\<close>

theorem g_ptr_array_edits_correct:
  assumes "ptr_ok a" "ptr_len a < 2 ^ 31" "ptr_len a + n \<le> 2 ^ 31"
  shows "ptr_edited (g_ptr_array_add a d) (ptrs a @ [d]) \<and>
    ptr_edited (g_ptr_array_set_size a (int n)) (take n (ptrs a) @ replicate (n - ptr_len a) 0) \<and>
    (\<exists>a'. g_ptr_array_remove a d = Inr (d \<in> set (ptrs a), a') \<and> ptr_ok a' \<and> ptrs a' = remove1 d (ptrs a))"
  using add_edited [OF assms(1,2)] set_size_edited [OF assms(1,3)] remove_ptrs [OF assms(1)] by blast

definition ptr_array_a :: GPtrArrayPriv where
  "ptr_array_a = \<lparr>pdata = map Some [5, 6, 5] @ replicate 13 None, ptr_len = 3\<rparr>"

lemma ptr_array_a_ok: "ptr_ok ptr_array_a" "ptrs ptr_array_a = [5, 6] @ [5]" "ptr_len ptr_array_a = 3" "length (pdata ptr_array_a) = 16"
  by (auto simp: ptr_array_a_def ptr_ok_def ptrs_def)

theorem g_ptr_array_edits_correct_witness:
  "ptr_edited (g_ptr_array_add ptr_array_a 8) ([5, 6, 5] @ [8])"
  using g_ptr_array_edits_correct [OF ptr_array_a_ok(1), of 0 8] ptr_array_a_ok(2,3) by simp

text \<open>
  C40.  The loop that doubles the size of a pointer array ends exactly when the new length is at most
  \<open>2 ^ 31\<close>: above that the size wraps to 0 and the call never returns.
\<close>

theorem g_ptr_array_grow_ends_iff:
  assumes "ptr_ok a"
  shows "(\<exists>a'. g_ptr_array_grow a len = Some a') \<longleftrightarrow> uadd (ptr_len a) len \<le> 2 ^ 31"
proof (cases "uadd (ptr_len a) len \<le> length (pdata a)")
  case True
  then show ?thesis using assms by (simp add: g_ptr_array_grow_def ptr_ok_def)
next
  case False
  then show ?thesis using size_loop_iff [of "uadd (ptr_len a) len"] by (simp add: g_ptr_array_grow_def Let_def)
qed

theorem g_ptr_array_grow_ends_iff_witness: "g_ptr_array_grow ptr_array_a 3000000000 = None"
  using g_ptr_array_grow_ends_iff [OF ptr_array_a_ok(1), of 3000000000] ptr_array_a_ok(3) by (simp add: uadd_def)

text \<open>
  The guard on the index of a removal never refuses: with an index at or after the end of the
  array, \<open>g_ptr_array_remove_index\<close> leaves the block, and \<open>g_ptr_array_remove_index_fast\<close> inside the
  block returns a stale entry and drops the last element, instead of returning a null pointer and
  leaving the array alone.
\<close>

theorem g_ptr_array_index_unchecked:
  assumes "ptr_ok a" "ptr_len a \<le> index" "index < length (pdata a)" "ptrs a = xs @ [y]"
  shows "g_ptr_array_remove_index a index = Inl Out_of_bounds \<and>
    (\<exists>a'. g_ptr_array_remove_index_fast a index = Inr (pdata a ! index, a') \<and> ptrs a' = xs)"
  using remove_index_out_of_range [OF assms(1,2)] remove_fast_out_of_range [OF assms] assms(1,3)
  by (auto simp: ptr_ok_def)

theorem g_ptr_array_index_unchecked_witness:
  "g_ptr_array_remove_index ptr_array_a 10 = Inl Out_of_bounds"
  using g_ptr_array_index_unchecked [OF ptr_array_a_ok(1) _ _ ptr_array_a_ok(2), of 10] ptr_array_a_ok(3,4) by simp

text \<open>
  Pushing elements of \<open>sz\<close> bytes one by one into a new array of values, as long as they take less than
  \<open>2 ^ 30\<close> bytes, or up to \<open>2 ^ 31\<close> pointers into a new pointer array, always returns, and the array then
  holds exactly these elements in order.
\<close>

theorem arrays_collect:
  assumes "g_array_new zero zt clr sz = Inr a" "0 < sz" "16 * sz < 2 ^ 31" "length vs \<le> 2 ^ 30 div sz - 1"
    and "g_ptr_array_new = Some b" "length ds \<le> 2 ^ 31"
  shows "(\<exists>a'. foldl (\<lambda>r v. Option.bind r (\<lambda>a. g_array_push zero a v)) (Some a) vs = Some a' \<and> elements a' = vs) \<and>
    (\<exists>b'. foldl (\<lambda>r d. Option.bind r (\<lambda>b. g_ptr_array_push b d)) (Some b) ds = Some b' \<and> ptrs b' = ds)"
proof -
  have a: "array_ok a \<and> elements a = [] \<and> element_size a = sz" using new_array [OF assms(2,3), of zero zt clr] assms(1) by auto
  have b: "ptr_ok b \<and> ptrs b = []"
    using assms(5) by (auto simp: g_ptr_array_new_def g_ptr_array_sized_new_def ptr_ok_def ptrs_def)
  show ?thesis using vals.push_all [OF a, of vs zero] pointers.push_all [OF b, of ds] assms(4,6) by auto
qed

theorem arrays_collect_witness:
  "\<exists>a a'. g_array_new (0 :: nat) True False 4 = Inr a \<and>
    foldl (\<lambda>r v. Option.bind r (\<lambda>a. g_array_push 0 a v)) (Some a) [3, 1] = Some a' \<and> elements a' = [3, 1]"
proof -
  obtain a where "g_array_new (0 :: nat) True False 4 = Inr a" using new_array [of 4 0 True False] by auto
  moreover have "g_ptr_array_new = Some \<lparr>pdata = [], ptr_len = 0\<rparr>"
    by (simp add: g_ptr_array_new_def g_ptr_array_sized_new_def)
  ultimately show ?thesis using arrays_collect [of 0 True False 4 a "[3, 1]" _ "[]"] by simp
qed

end
