(* ===== verification/Mono_Bitset.thy ===== *)
theory Mono_Bitset
  imports Mono_Prelude
begin

unbundle bit_operations_syntax

text \<open>
  The bit sets of \<open>mono/utils/monobitset.c\<close> on a 64-bit platform: a size in bits, flags, and an array
  of 64-bit chunks.  The array has at least \<open>size / 64\<close> chunks; an access to a chunk that is not there is
  \<open>Inl Out_of_bounds\<close>.  \<open>MONO_ZERO_LEN_ARRAY\<close> is 0 for GCC and 1 for the Microsoft compiler, and is a
  parameter where the source uses it.
\<close>

section \<open>Creation\<close>

definition BITS_PER_CHUNK :: nat where
  "BITS_PER_CHUNK = 64"

record MonoBitSet =
  bs_size :: nat
  bs_flags :: guint64
  bs_data :: "guint64 list"

definition MONO_BITSET_DONT_FREE :: guint64 where
  "MONO_BITSET_DONT_FREE = 1"

definition real_size :: "nat \<Rightarrow> nat" where
  "real_size max_size = (max_size + BITS_PER_CHUNK - 1) div BITS_PER_CHUNK"

text \<open>
  The bytes that are allocated: \<open>real_size - MONO_ZERO_LEN_ARRAY\<close> is unsigned and wraps for an empty
  set with the Microsoft compiler.
\<close>

definition alloc_bytes :: "nat \<Rightarrow> nat \<Rightarrow> nat" where
  "alloc_bytes zero_len max_size = 16 + 8 * zero_len + 8 * ((real_size max_size + 2 ^ 32 - zero_len) mod 2 ^ 32)"

definition mono_bitset_alloc_size :: "nat \<Rightarrow> nat \<Rightarrow> nat" where
  "mono_bitset_alloc_size zero_len max_size = alloc_bytes zero_len max_size mod 2 ^ 32"

text \<open>The chunks of a block of the given number of bytes, after the size and the flags.\<close>

definition mono_bitset_new :: "nat \<Rightarrow> nat \<Rightarrow> guint64 \<Rightarrow> MonoBitSet" where
  "mono_bitset_new zero_len max_size flags =
    \<lparr>bs_size = real_size max_size * BITS_PER_CHUNK, bs_flags = flags,
     bs_data = replicate ((alloc_bytes zero_len max_size - 16) div 8) 0\<rparr>"

text \<open>\<open>mem\<close> is what the memory after the size and the flags holds; it is not cleared.\<close>

definition mono_bitset_mem_new :: "guint64 list \<Rightarrow> nat \<Rightarrow> guint64 \<Rightarrow> MonoBitSet" where
  "mono_bitset_mem_new mem max_size flags =
    \<lparr>bs_size = real_size max_size * BITS_PER_CHUNK, bs_flags = flags OR MONO_BITSET_DONT_FREE, bs_data = mem\<rparr>"

text \<open>Whether the set is freed.\<close>

definition mono_bitset_free :: "MonoBitSet \<Rightarrow> bool" where
  "mono_bitset_free bs \<longleftrightarrow> bs_flags bs AND MONO_BITSET_DONT_FREE = 0"

section \<open>Single bits\<close>

abbreviation n_chunks :: "MonoBitSet \<Rightarrow> nat" where
  "n_chunks bs \<equiv> bs_size bs div BITS_PER_CHUNK"

definition read_chunk :: "MonoBitSet \<Rightarrow> nat \<Rightarrow> guint64 res" where
  "read_chunk bs j = guardr (j < length (bs_data bs)) Out_of_bounds (Inr (bs_data bs ! j))"

definition update_chunk :: "MonoBitSet \<Rightarrow> nat \<Rightarrow> (guint64 \<Rightarrow> guint64) \<Rightarrow> MonoBitSet res" where
  "update_chunk bs j f = bindr (read_chunk bs j) (\<lambda>c. Inr (bs\<lparr>bs_data := (bs_data bs)[j := f c]\<rparr>))"

definition mono_bitset_set :: "MonoBitSet \<Rightarrow> nat \<Rightarrow> MonoBitSet res" where
  "mono_bitset_set bs pos =
    (let j = pos div BITS_PER_CHUNK; bit = pos mod BITS_PER_CHUNK in
     guardr (pos < bs_size bs) Assert_failed (update_chunk bs j (\<lambda>c. c OR push_bit bit 1)))"

definition mono_bitset_test :: "MonoBitSet \<Rightarrow> nat \<Rightarrow> bool res" where
  "mono_bitset_test bs pos =
    (let j = pos div BITS_PER_CHUNK; bit = pos mod BITS_PER_CHUNK in
     if \<not> pos < bs_size bs then Inr False
     else bindr (read_chunk bs j) (\<lambda>c. Inr (c AND push_bit bit 1 > 0)))"

definition mono_bitset_test_bulk :: "MonoBitSet \<Rightarrow> nat \<Rightarrow> guint64 res" where
  "mono_bitset_test_bulk bs pos =
    (if pos \<ge> bs_size bs then Inr 0 else read_chunk bs (pos div BITS_PER_CHUNK))"

definition mono_bitset_clear :: "MonoBitSet \<Rightarrow> nat \<Rightarrow> MonoBitSet res" where
  "mono_bitset_clear bs pos =
    (let j = pos div BITS_PER_CHUNK; bit = pos mod BITS_PER_CHUNK in
     guardr (pos < bs_size bs) Assert_failed (update_chunk bs j (\<lambda>c. c AND NOT (push_bit bit 1))))"

section \<open>Whole sets\<close>

text \<open>A loop that computes the first \<open>n\<close> chunks anew, each from its old value and its index.\<close>

fun chunk_loop :: "(nat \<Rightarrow> guint64 \<Rightarrow> guint64 res) \<Rightarrow> nat \<Rightarrow> nat \<Rightarrow> guint64 list \<Rightarrow> guint64 list res" where
  "chunk_loop f i 0 cs = Inr cs"
| "chunk_loop f i (Suc n) [] = Inl Out_of_bounds"
| "chunk_loop f i (Suc n) (c # cs) =
    bindr (f i c) (\<lambda>c'. bindr (chunk_loop f (i + 1) n cs) (\<lambda>cs'. Inr (c' # cs')))"

definition update_chunks :: "MonoBitSet \<Rightarrow> nat \<Rightarrow> (nat \<Rightarrow> guint64 \<Rightarrow> guint64 res) \<Rightarrow> MonoBitSet res" where
  "update_chunks bs n f = bindr (chunk_loop f 0 n (bs_data bs)) (\<lambda>cs. Inr (bs\<lparr>bs_data := cs\<rparr>))"

definition mono_bitset_clear_all :: "MonoBitSet \<Rightarrow> MonoBitSet res" where
  "mono_bitset_clear_all bs = update_chunks bs (n_chunks bs) (\<lambda>i c. Inr 0)"

definition mono_bitset_set_all :: "MonoBitSet \<Rightarrow> MonoBitSet res" where
  "mono_bitset_set_all bs = update_chunks bs (n_chunks bs) (\<lambda>i c. Inr (- 1))"

definition mono_bitset_invert :: "MonoBitSet \<Rightarrow> MonoBitSet res" where
  "mono_bitset_invert bs = update_chunks bs (n_chunks bs) (\<lambda>i c. Inr (NOT c))"

definition mono_bitset_size :: "MonoBitSet \<Rightarrow> nat" where
  "mono_bitset_size bs = bs_size bs"

definition popcount :: "guint64 \<Rightarrow> guint64" where
  "popcount d =
    (let d = d - (drop_bit 1 d AND 0x5555555555555555);
         d = (drop_bit 2 d AND 0x3333333333333333) + (d AND 0x3333333333333333);
         d = (drop_bit 4 d + d) AND 0x0f0f0f0f0f0f0f0f;
         d = d * 0x0101010101010101
     in drop_bit 56 d)"

fun count_loop :: "nat \<Rightarrow> guint64 list \<Rightarrow> guint32 \<Rightarrow> guint32 res" where
  "count_loop 0 cs count = Inr count"
| "count_loop (Suc n) [] count = Inl Out_of_bounds"
| "count_loop (Suc n) (d # cs) count = count_loop n cs (if d \<noteq> 0 then count + ucast (popcount d) else count)"

definition mono_bitset_count :: "MonoBitSet \<Rightarrow> guint32 res" where
  "mono_bitset_count bs = count_loop (n_chunks bs) (bs_data bs) 0"

section \<open>Searching\<close>

text \<open>
  The position of the lowest set bit, counted from \<open>nth_bit\<close>; the source reaches the loop (or the
  machine instruction that replaces it) with a msk that is not 0.
\<close>

function lsf_loop :: "guint64 \<Rightarrow> nat \<Rightarrow> nat" where
  "lsf_loop msk nth_bit =
    (if msk \<noteq> 0 \<and> msk AND 1 = 0 then lsf_loop (drop_bit 1 msk) (nth_bit + 1) else nth_bit)"
  by pat_completeness auto
termination
proof (relation "measure (\<lambda>(m, n). unat m)")
  fix msk :: guint64 and n :: nat
  assume "msk \<noteq> 0 \<and> msk AND 1 = 0"
  then have "unat msk > 0" by (simp add: unat_gt_0)
  then have "unat msk div 2 < unat msk" by simp
  then show "((drop_bit 1 msk, n + 1), msk, n) \<in> measure (\<lambda>(m, n). unat m)"
    by (simp add: drop_bit_eq_div unat_div_distrib)
qed simp

declare lsf_loop.simps [simp del]

definition my_g_bit_nth_lsf :: "guint64 \<Rightarrow> int \<Rightarrow> int" where
  "my_g_bit_nth_lsf msk0 nth_bit0 =
    (let nth_bit = nat (nth_bit0 + 1); msk = drop_bit nth_bit msk0 in
     if msk = 0 \<or> nth_bit = BITS_PER_CHUNK then - 1 else int (lsf_loop msk nth_bit))"

definition my_g_bit_nth_lsf_nomask :: "guint64 \<Rightarrow> int" where
  "my_g_bit_nth_lsf_nomask msk = int (lsf_loop msk 0)"

fun msf_bytes :: "guint64 \<Rightarrow> nat \<Rightarrow> guint64 \<times> nat" where
  "msf_bytes msk i = (if i > 0 \<and> drop_bit (BITS_PER_CHUNK - 8) msk = 0 then msf_bytes (push_bit 8 msk) (i - 8) else (msk, i))"

declare msf_bytes.simps [simp del]

text \<open>The final loop: the value of \<open>i\<close> when the highest bit is set, or nothing when the msk runs out.\<close>

lemma top_bit_clear: "\<not> bit w 63 \<Longrightarrow> unat w < 2 ^ 63" for w :: guint64
proof -
  assume "\<not> bit w 63"
  then have "\<not> bit (unat w) 63" by (simp add: bit_unsigned_iff)
  then have "even (unat w div 2 ^ 63)" by (simp add: bit_iff_odd)
  moreover have "unat w div 2 ^ 63 < 2" using unsigned_less [of w] by (simp add: div_less_iff_less_mult)
  ultimately have "unat w div 2 ^ 63 = 0" by (cases "unat w div 2 ^ 63 = 1") auto
  then show ?thesis by (simp add: div_eq_0_iff)
qed

lemma and_push_bit: "w AND push_bit n 1 = 0 \<longleftrightarrow> \<not> bit w n" for w :: guint64
  by (simp add: push_bit_eq_mult and_exp_eq_0_iff_not_bit)

lemma double_word: "\<not> bit w 63 \<Longrightarrow> unat (push_bit 1 w) = 2 * unat w" for w :: guint64
  using top_bit_clear [of w] by (simp add: push_bit_eq_mult unat_word_ariths)

function msf_bits :: "guint64 \<Rightarrow> int \<Rightarrow> int option" where
  "msf_bits msk i =
    (if msk AND push_bit (BITS_PER_CHUNK - 1) 1 \<noteq> 0 then Some (i - 1)
     else if push_bit 1 msk = 0 then None else msf_bits (push_bit 1 msk) (i - 1))"
  by pat_completeness auto
termination
proof (relation "measure (\<lambda>(m, i). 2 ^ 64 - unat m)")
  fix msk :: guint64 and i :: int
  assume a: "\<not> msk AND push_bit (BITS_PER_CHUNK - 1) 1 \<noteq> 0" "push_bit 1 msk \<noteq> 0"
  then have "\<not> bit msk 63" using and_push_bit [of msk 63] by (simp add: BITS_PER_CHUNK_def)
  then have "unat (push_bit 1 msk) = 2 * unat msk" "unat msk < 2 ^ 63" by (rule double_word, intro top_bit_clear)
  moreover have "unat msk \<noteq> 0" using a(2) by (metis push_bit_of_0 unat_eq_zero)
  ultimately show "((push_bit 1 msk, i - 1), msk, i) \<in> measure (\<lambda>(m, i). 2 ^ 64 - unat m)" by simp
qed simp

declare msf_bits.simps [simp del]

definition my_g_bit_nth_msf :: "guint64 \<Rightarrow> nat \<Rightarrow> int" where
  "my_g_bit_nth_msf msk0 nth_bit =
    (if nth_bit = 0 then - 1
     else let (msk, i) = msf_bytes (push_bit (BITS_PER_CHUNK - nth_bit) msk0) BITS_PER_CHUNK in
       if msk = 0 then - 1
       else (case msf_bits msk (int i) of Some i \<Rightarrow> i - int (BITS_PER_CHUNK - nth_bit) | None \<Rightarrow> - 1))"

text \<open>\<open>1 << 64\<close> is 1 on the machines the source runs on.\<close>

function unset_loop :: "guint64 \<Rightarrow> nat \<Rightarrow> int" where
  "unset_loop msk nth_bit =
    (if msk AND push_bit (nth_bit mod BITS_PER_CHUNK) 1 = 0
     then (if nth_bit = BITS_PER_CHUNK then - 1 else int nth_bit)
     else if nth_bit < BITS_PER_CHUNK then unset_loop msk (nth_bit + 1) else - 1)"
  by pat_completeness auto
termination
  by (relation "measure (\<lambda>(m, n). BITS_PER_CHUNK - n)") auto

declare unset_loop.simps [simp del]

definition find_first_unset :: "guint64 \<Rightarrow> int \<Rightarrow> int" where
  "find_first_unset msk nth_bit = unset_loop msk (nat (nth_bit + 1))"

text \<open>A loop over the chunks from \<open>i\<close> on that stops at the first one that is not \<open>skip\<close>.\<close>

fun scan_up :: "guint64 \<Rightarrow> (guint64 \<Rightarrow> int) \<Rightarrow> nat \<Rightarrow> nat \<Rightarrow> guint64 list \<Rightarrow> int res" where
  "scan_up skip f i 0 cs = Inr (- 1)"
| "scan_up skip f i (Suc n) [] = Inl Out_of_bounds"
| "scan_up skip f i (Suc n) (c # cs) =
    (if c \<noteq> skip then Inr (f c + int (i * BITS_PER_CHUNK)) else scan_up skip f (i + 1) n cs)"

definition mono_bitset_find_start :: "MonoBitSet \<Rightarrow> int res" where
  "mono_bitset_find_start bs = scan_up 0 my_g_bit_nth_lsf_nomask 0 (n_chunks bs) (bs_data bs)"

text \<open>The chunk that holds \<open>pos\<close> first, then the chunks after it.\<close>

definition find_from :: "guint64 \<Rightarrow> (guint64 \<Rightarrow> int \<Rightarrow> int) \<Rightarrow> MonoBitSet \<Rightarrow> nat \<Rightarrow> int \<Rightarrow> int res" where
  "find_from skip f bs j b =
    bindr (read_chunk bs j) (\<lambda>c.
      let result = (if c \<noteq> skip then f c b else - 1) in
      if result \<noteq> - 1 then Inr (result + int (j * BITS_PER_CHUNK))
      else scan_up skip (\<lambda>c. f c (- 1)) (j + 1) (n_chunks bs - (j + 1)) (drop (j + 1) (bs_data bs)))"

definition mono_bitset_find_first :: "MonoBitSet \<Rightarrow> int \<Rightarrow> int res" where
  "mono_bitset_find_first bs pos =
    (if pos < 0 then find_from 0 my_g_bit_nth_lsf bs 0 (- 1)
     else guardr (pos < int (bs_size bs)) Assert_failed
       (find_from 0 my_g_bit_nth_lsf bs (nat pos div BITS_PER_CHUNK) (int (nat pos mod BITS_PER_CHUNK))))"

definition mono_bitset_find_first_unset :: "MonoBitSet \<Rightarrow> int \<Rightarrow> int res" where
  "mono_bitset_find_first_unset bs pos =
    (if pos < 0 then find_from (- 1) find_first_unset bs 0 (- 1)
     else if \<not> pos < int (bs_size bs) then Inr (- 1)
     else find_from (- 1) find_first_unset bs (nat pos div BITS_PER_CHUNK) (int (nat pos mod BITS_PER_CHUNK)))"

fun scan_down :: "MonoBitSet \<Rightarrow> nat \<Rightarrow> int res" where
  "scan_down bs 0 = Inr (- 1)"
| "scan_down bs (Suc i) =
    bindr (read_chunk bs i) (\<lambda>c.
      if c \<noteq> 0 then Inr (my_g_bit_nth_msf c BITS_PER_CHUNK + int (i * BITS_PER_CHUNK)) else scan_down bs i)"

definition mono_bitset_find_last :: "MonoBitSet \<Rightarrow> int \<Rightarrow> int res" where
  "mono_bitset_find_last bs pos0 =
    (let pos = (if pos0 < 0 then int (bs_size bs) - 1 else pos0);
         j = nat pos div BITS_PER_CHUNK; bit = nat pos mod BITS_PER_CHUNK in
     if pos < 0 \<or> \<not> pos < int (bs_size bs) then Inr (- 1)
     else bindr (read_chunk bs j) (\<lambda>c.
       let result = (if c \<noteq> 0 then my_g_bit_nth_msf c bit else - 1) in
       if result \<noteq> - 1 then Inr (result + int (j * BITS_PER_CHUNK)) else scan_down bs j))"

section \<open>Two sets\<close>

text \<open>\<open>memcpy\<close> of the first \<open>n\<close> chunks.\<close>

definition copy_chunks :: "nat \<Rightarrow> guint64 list \<Rightarrow> guint64 list \<Rightarrow> guint64 list res" where
  "copy_chunks n src dest =
    guardr (n \<le> length src \<and> n \<le> length dest) Out_of_bounds (Inr (take n src @ drop n dest))"

definition mono_bitset_clone :: "nat \<Rightarrow> MonoBitSet \<Rightarrow> nat \<Rightarrow> MonoBitSet res" where
  "mono_bitset_clone zero_len bs new_size =
    (let new_size = (if new_size = 0 then bs_size bs else new_size);
         result = mono_bitset_new zero_len new_size (bs_flags bs);
         result = result\<lparr>bs_flags := bs_flags result AND NOT MONO_BITSET_DONT_FREE\<rparr> in
     bindr (copy_chunks (n_chunks bs) (bs_data bs) (bs_data result)) (\<lambda>cs. Inr (result\<lparr>bs_data := cs\<rparr>)))"

definition mono_bitset_copyto :: "MonoBitSet \<Rightarrow> MonoBitSet \<Rightarrow> MonoBitSet res" where
  "mono_bitset_copyto src dest =
    guardr (bs_size dest \<le> bs_size src) Assert_failed
      (bindr (copy_chunks (n_chunks dest) (bs_data src) (bs_data dest)) (\<lambda>cs. Inr (dest\<lparr>bs_data := cs\<rparr>)))"

definition mono_bitset_union :: "MonoBitSet \<Rightarrow> MonoBitSet \<Rightarrow> MonoBitSet res" where
  "mono_bitset_union dest src =
    guardr (bs_size src \<le> bs_size dest) Assert_failed
      (update_chunks dest (n_chunks dest) (\<lambda>i c. bindr (read_chunk src i) (\<lambda>d. Inr (c OR d))))"

definition mono_bitset_intersection :: "MonoBitSet \<Rightarrow> MonoBitSet \<Rightarrow> MonoBitSet res" where
  "mono_bitset_intersection dest src =
    guardr (bs_size src \<le> bs_size dest) Assert_failed
      (update_chunks dest (n_chunks dest) (\<lambda>i c. bindr (read_chunk src i) (\<lambda>d. Inr (c AND d))))"

definition mono_bitset_intersection_2 :: "MonoBitSet \<Rightarrow> MonoBitSet \<Rightarrow> MonoBitSet \<Rightarrow> MonoBitSet res" where
  "mono_bitset_intersection_2 dest src1 src2 =
    guardr (bs_size src1 \<le> bs_size dest) Assert_failed
     (guardr (bs_size src2 \<le> bs_size dest) Assert_failed
      (update_chunks dest (n_chunks dest) (\<lambda>i c.
        bindr (read_chunk src1 i) (\<lambda>d1. bindr (read_chunk src2 i) (\<lambda>d2. Inr (d1 AND d2))))))"

definition mono_bitset_sub :: "MonoBitSet \<Rightarrow> MonoBitSet \<Rightarrow> MonoBitSet res" where
  "mono_bitset_sub dest src =
    guardr (bs_size src \<le> bs_size dest) Assert_failed
      (update_chunks dest (n_chunks src) (\<lambda>i c. bindr (read_chunk src i) (\<lambda>d. Inr (c AND NOT d))))"

fun equal_loop :: "nat \<Rightarrow> guint64 list \<Rightarrow> guint64 list \<Rightarrow> bool res" where
  "equal_loop 0 cs ds = Inr True"
| "equal_loop (Suc n) (c # cs) (d # ds) = (if c \<noteq> d then Inr False else equal_loop n cs ds)"
| "equal_loop (Suc n) cs ds = Inl Out_of_bounds"

definition mono_bitset_equal :: "MonoBitSet \<Rightarrow> MonoBitSet \<Rightarrow> bool res" where
  "mono_bitset_equal src src1 =
    (if bs_size src \<noteq> bs_size src1 then Inr False else equal_loop (n_chunks src) (bs_data src) (bs_data src1))"

text \<open>The positions with which \<open>func\<close> is called, in order.\<close>

fun foreach_loop :: "nat \<Rightarrow> nat \<Rightarrow> guint64 list \<Rightarrow> nat list res" where
  "foreach_loop i 0 cs = Inr []"
| "foreach_loop i (Suc n) [] = Inl Out_of_bounds"
| "foreach_loop i (Suc n) (c # cs) =
    bindr (foreach_loop (i + 1) n cs) (\<lambda>ps.
      Inr ((if c \<noteq> 0 then map (\<lambda>j. j + i * BITS_PER_CHUNK) (filter (\<lambda>j. c AND push_bit j 1 \<noteq> 0) [0..<BITS_PER_CHUNK])
            else []) @ ps))"

definition mono_bitset_foreach :: "MonoBitSet \<Rightarrow> nat list res" where
  "mono_bitset_foreach bs = foreach_loop 0 (n_chunks bs) (bs_data bs)"

end
