(* ===== verification/Mono_Bitset_Proofs.thy ===== *)
theory Mono_Bitset_Proofs
  imports Mono_Bitset
begin

unbundle bit_operations_syntax

text \<open>
  The population count of \<open>mono_bitset_count\<close>, by digit arithmetic: each step of the computation adds
  neighbouring digits and squares the base.  Then the chunk loops and the bit searches.
\<close>

section \<open>Numbers as lists of digits\<close>

fun dval :: "nat \<Rightarrow> nat list \<Rightarrow> nat" where
  "dval B [] = 0"
| "dval B (d # ds) = d + B * dval B ds"

fun evens :: "nat list \<Rightarrow> nat list" where
  "evens [] = []"
| "evens [a] = [a]"
| "evens (a # b # ds) = a # evens ds"

fun pair_sums :: "nat list \<Rightarrow> nat list" where
  "pair_sums (a # b # ds) = (a + b) # pair_sums ds"
| "pair_sums _ = []"

lemma bit_low_high:
  fixes a y :: nat
  assumes "a < 2 ^ n"
  shows "bit (a + 2 ^ n * y) i \<longleftrightarrow> (if i < n then bit a i else bit y (i - n))"
proof (cases "i < n")
  case True
  have "2 ^ n = (2::nat) ^ i * 2 ^ (n - i)" using True by (simp flip: power_add)
  then have "(a + 2 ^ n * y) div 2 ^ i = a div 2 ^ i + 2 ^ (n - i) * y"
    by (metis mult.assoc div_mult_self2 power_eq_0_iff zero_neq_numeral add.commute)
  moreover have "even ((2::nat) ^ (n - i) * y)" using True by simp
  ultimately show ?thesis using True by (simp add: bit_iff_odd)
next
  case False
  then have "(a + 2 ^ n * y) div 2 ^ i = (a + 2 ^ n * y) div 2 ^ n div 2 ^ (i - n)"
    by (metis div_mult2_eq le_add_diff_inverse not_less power_add)
  also have "(a + 2 ^ n * y) div 2 ^ n = y" using assms by simp
  finally show ?thesis using False by (simp add: bit_iff_odd)
qed

lemma and_low_high:
  fixes a c y z :: nat
  assumes "a < 2 ^ n" "c < 2 ^ n"
  shows "(a + 2 ^ n * y) AND (c + 2 ^ n * z) = (a AND c) + 2 ^ n * (y AND z)"
proof (rule bit_eqI)
  fix i
  have "a AND c < 2 ^ n" using assms(1) using assms(2) by (metis take_bit_and take_bit_nat_eq_self take_bit_nat_less_exp)
  then show "bit ((a + 2 ^ n * y) AND (c + 2 ^ n * z)) i \<longleftrightarrow> bit ((a AND c) + 2 ^ n * (y AND z)) i"
    using assms by (simp add: bit_and_iff bit_low_high)
qed

lemma and_low_mask: "a < 2 ^ k \<Longrightarrow> a AND (2 ^ k - 1) = a" for a :: nat
  by (metis mask_eq_exp_minus_1 take_bit_eq_mask take_bit_nat_eq_self)

text \<open>The mask that keeps every second digit.\<close>

lemma and_evens:
  assumes "0 < k"
  shows "length ds \<le> 2 * m \<Longrightarrow> \<forall>d \<in> set ds. d < 2 ^ k \<Longrightarrow>
    dval (2 ^ k) ds AND dval (2 ^ (2 * k)) (replicate m (2 ^ k - 1)) = dval (2 ^ (2 * k)) (evens ds)"
proof (induction ds arbitrary: m rule: evens.induct)
  case (2 a)
  then obtain m' where m: "m = Suc m'" by (cases m) auto
  have a: "a < 2 ^ k" using 2 by simp
  have k: "2 ^ k \<le> (2::nat) ^ (2 * k)" by (intro power_increasing) auto
  have "(2::nat) ^ k - 1 < 2 ^ k" by simp
  then have "a < 2 ^ (2 * k)" "(2::nat) ^ k - 1 < 2 ^ (2 * k)" using less_le_trans [OF _ k] a by blast+
  from and_low_high [OF this, of 0] show ?case using and_low_mask [OF a] m by simp
next
  case (3 a b ds)
  then obtain m' where m: "m = Suc m'" "length ds \<le> 2 * m'" by (cases m) auto
  let ?M = "dval (2 ^ (2 * k)) (replicate m' (2 ^ k - 1))"
  have ab: "a < 2 ^ k" "b < 2 ^ k" "(2::nat) ^ k - 1 < 2 ^ k" "(0::nat) < 2 ^ k" using 3 by auto
  have M: "dval (2 ^ (2 * k)) (replicate m (2 ^ k - 1)) = (2 ^ k - 1) + 2 ^ k * (0 + 2 ^ k * ?M)"
    using m by (simp add: mult_2 power_add)
  have "dval (2 ^ k) (a # b # ds) AND dval (2 ^ (2 * k)) (replicate m (2 ^ k - 1)) =
      (a AND (2 ^ k - 1)) + 2 ^ k * ((b AND 0) + 2 ^ k * (dval (2 ^ k) ds AND ?M))"
    unfolding M dval.simps(2) by (simp only: and_low_high [OF ab(1,3)] and_low_high [OF ab(2,4)])
  also have "a AND (2 ^ k - 1) = a" by (rule and_low_mask [OF ab(1)])
  finally show ?case using 3 m by (simp add: mult_2 power_add)
qed simp

lemma dval_div: "\<forall>d \<in> set ds. d < B \<Longrightarrow> dval B ds div B = dval B (tl ds)"
  by (cases ds) auto

lemma length_pair_sums: "length (pair_sums ds) = length ds div 2"
  by (induction ds rule: pair_sums.induct) auto

lemma sum_pair_sums: "even (length ds) \<Longrightarrow> sum_list (pair_sums ds) = sum_list ds"
  by (induction ds rule: pair_sums.induct) auto

lemma pair_sums_bound: "\<forall>d \<in> set ds. d \<le> c \<Longrightarrow> \<forall>d \<in> set (pair_sums ds). d \<le> 2 * c"
  by (induction ds rule: pair_sums.induct) auto

lemma evens_Cons: "evens (b # ds) = b # evens (tl ds)"
  by (cases ds) auto

lemma evens_sum: "even (length ds) \<Longrightarrow> dval B (evens ds) + dval B (evens (tl ds)) = dval B (pair_sums ds)"
  by (induction ds rule: pair_sums.induct) (auto simp: evens_Cons simp flip: distrib_left)

lemma first_step: "even (length ds) \<Longrightarrow> dval 2 ds - dval 4 (evens (tl ds)) = dval 4 (pair_sums ds) \<and> dval 4 (evens (tl ds)) \<le> dval 2 ds"
proof (induction ds rule: pair_sums.induct)
  case (1 a b ds)
  then have "dval 2 ds - dval 4 (evens (tl ds)) = dval 4 (pair_sums ds)" "dval 4 (evens (tl ds)) \<le> dval 2 ds" by auto
  moreover have "dval 4 (evens (tl (a # b # ds))) = b + 4 * dval 4 (evens (tl ds))" by (cases ds) auto
  ultimately show ?case by simp
qed auto

fun adjacent :: "nat list \<Rightarrow> nat list" where
  "adjacent (a # b # ds) = (a + b) # adjacent (b # ds)"
| "adjacent ds = ds"

lemma dval_adjacent: "dval B (tl ds) + dval B ds = dval B (adjacent ds)"
proof (induction ds rule: adjacent.induct)
  case (1 a b ds)
  then have "dval B (adjacent (b # ds)) = dval B ds + dval B (b # ds)" by simp
  then show ?case by (simp add: algebra_simps)
qed simp_all

lemma evens_adjacent: "even (length ds) \<Longrightarrow> evens (adjacent ds) = pair_sums ds"
proof (induction ds rule: pair_sums.induct)
  case (1 a b ds)
  then show ?case by (cases ds) auto
qed auto

lemma adjacent_bound: "\<forall>d \<in> set ds. d \<le> c \<Longrightarrow> \<forall>d \<in> set (adjacent ds). d \<le> 2 * c"
  by (induction ds rule: adjacent.induct) auto

lemma length_adjacent: "length (adjacent ds) = length ds"
  by (induction ds rule: adjacent.induct) auto

text \<open>The multiplication collects eight digits in the highest one.\<close>

lemma collect_digits:
  assumes "length fs = 8" "\<forall>f \<in> set fs. f \<le> 8"
  shows "dval 256 fs * 0x0101010101010101 mod 2 ^ 64 div 2 ^ 56 = sum_list fs"
proof -
  obtain a b c d e f g h where fs: "fs = [a, b, c, d, e, f, g, h]"
    using assms(1) by (auto simp: length_Suc_conv eval_nat_numeral)
  have le: "a \<le> 8" "b \<le> 8" "c \<le> 8" "d \<le> 8" "e \<le> 8" "f \<le> 8" "g \<le> 8" "h \<le> 8" using assms(2) fs by auto
  define lo where "lo = a + 256 * (a + b) + 65536 * (a + b + c) + 2 ^ 24 * (a + b + c + d) + 2 ^ 32 * (a + b + c + d + e) +
    2 ^ 40 * (a + b + c + d + e + f) + 2 ^ 48 * (a + b + c + d + e + f + g)"
  define hi where "hi = (b + c + d + e + f + g + h) + 256 * (c + d + e + f + g + h) + 65536 * (d + e + f + g + h) +
    2 ^ 24 * (e + f + g + h) + 2 ^ 32 * (f + g + h) + 2 ^ 40 * (g + h) + 2 ^ 48 * h"
  let ?s = "sum_list fs"
  have "dval 256 fs * 0x0101010101010101 = (lo + 2 ^ 56 * ?s) + 2 ^ 64 * hi"
    unfolding fs lo_def hi_def by (simp add: algebra_simps)
  moreover have lo: "lo < 2 ^ 56" using le unfolding lo_def by simp
  moreover have "lo + 2 ^ 56 * ?s < 2 ^ 64" using le lo unfolding fs by simp
  ultimately have "dval 256 fs * 0x0101010101010101 mod 2 ^ 64 = lo + 2 ^ 56 * ?s"
    by (metis mod_less mod_mult_self2)
  then show ?thesis using lo by simp
qed

section \<open>The population count\<close>

definition bit_list :: "guint64 \<Rightarrow> nat list" where
  "bit_list d = map (\<lambda>i. of_bool (bit d i)) [0..<64]"

lemma dval_horner: "dval 2 (map of_bool bs) = horner_sum of_bool 2 bs"
  by (induction bs) auto

lemma unat_bit_list: "unat d = dval 2 (bit_list d)" for d :: guint64
proof -
  have "dval 2 (bit_list d) = horner_sum of_bool 2 (map (bit (unat d)) [0..<64])"
    using dval_horner [of "map (bit (unat d)) [0..<64]"] by (simp add: bit_list_def comp_def bit_unsigned_iff)
  also have "\<dots> = take_bit 64 (unat d)" by (rule horner_sum_bit_eq_take_bit)
  also have "unat d < 2 ^ LENGTH(64)" by (rule unsigned_less)
  then have "take_bit 64 (unat d) = unat d" by (simp add: take_bit_nat_eq_self)
  finally show ?thesis by simp
qed

lemma sum_of_bool: "(\<Sum>i\<leftarrow>is. of_bool (P i)) = length (filter P is)"
  by (induction "is") auto

lemma sum_bit_list: "sum_list (bit_list d) = card {i. i < 64 \<and> bit d i}"
proof -
  have "sum_list (bit_list d) = length (filter (bit d) [0..<64])"
    unfolding bit_list_def by (rule sum_of_bool)
  also have "\<dots> = card (set (filter (bit d) [0..<64]))" by (rule distinct_card [symmetric]) simp
  also have "set (filter (bit d) [0..<64]) = {i. i < 64 \<and> bit d i}" by auto
  finally show ?thesis .
qed

lemma replicate_8: "replicate 8 x = [x, x, x, x, x, x, x, x]"
  by (simp add: eval_nat_numeral)

lemma replicate_16: "replicate 16 x = replicate 8 x @ replicate 8 x"
  using replicate_add [of 8 8 x] by simp

lemma replicate_32: "replicate 32 x = replicate 16 x @ replicate 16 x"
  using replicate_add [of 16 16 x] by simp

lemma popcount_masks:
  "dval (2 ^ (2 * 1)) (replicate 32 (2 ^ 1 - 1)) = 0x5555555555555555"
  "dval (2 ^ (2 * 2)) (replicate 16 (2 ^ 2 - 1)) = 0x3333333333333333"
  "dval (2 ^ (2 * 4)) (replicate 8 (2 ^ 4 - 1)) = 0x0f0f0f0f0f0f0f0f"
  by (simp_all only: replicate_32 replicate_16 replicate_8) simp_all

text \<open>One step: add the digits with an even and with an odd index, in the squared base.\<close>

lemma digit_masks:
  assumes "0 < k" "length ds = 2 * m" "\<forall>d \<in> set ds. d < 2 ^ k"
  shows "dval (2 ^ k) ds AND dval (2 ^ (2 * k)) (replicate m (2 ^ k - 1)) = dval (2 ^ (2 * k)) (evens ds)"
    "(dval (2 ^ k) ds div 2 ^ k) AND dval (2 ^ (2 * k)) (replicate m (2 ^ k - 1)) = dval (2 ^ (2 * k)) (evens (tl ds))"
  using and_evens [OF assms(1), of ds m] and_evens [OF assms(1), of "tl ds" m] assms(2,3) dval_div [OF assms(3)]
  by (auto dest: list.set_sel(2) split: list.splits) (metis list.set_sel(2) tl_Nil)

lemma unat_drop_word: "unat (drop_bit n w) = unat w div 2 ^ n" for w :: guint64
  by (simp only: unat_drop_bit_eq) (simp add: drop_bit_eq_div)

lemma unat_and_word: "unat (v AND w) = unat v AND unat w" for v w :: guint64
  by (simp add: unsigned_and_eq)

lemma word_masks:
  fixes w M :: guint64
  assumes "unat w = dval (2 ^ k) ds" "0 < k" "length ds = 2 * m" "\<forall>d \<in> set ds. d < 2 ^ k"
    "unat M = dval (2 ^ (2 * k)) (replicate m (2 ^ k - 1))"
  shows "unat (w AND M) = dval (2 ^ (2 * k)) (evens ds)" "unat (drop_bit k w AND M) = dval (2 ^ (2 * k)) (evens (tl ds))"
  using digit_masks [OF assms(2-4)] by (simp_all only: unat_and_word unat_drop_word assms(1,5))

lemma dval_less: "\<forall>d \<in> set ds. d < B \<Longrightarrow> dval B ds < B ^ length ds"
proof (induction ds)
  case (Cons d ds)
  then have "d + B * dval B ds < B + B * dval B ds" by simp
  also have "\<dots> \<le> B * B ^ length ds" using Cons by (metis Suc_leI list.set_intros(2) mult_Suc_right mult_le_mono2)
  finally show ?case by simp
qed simp

lemma unat_add_small: "unat v + unat w < 2 ^ 64 \<Longrightarrow> unat (v + w) = unat v + unat w" for v w :: guint64
  by (simp add: unat_word_ariths)

lemma popcount_card: "unat (popcount d) = card {i. i < 64 \<and> bit d i}"
proof -
  let ?ds0 = "bit_list d"
  define ds1 ds2 ds3 where "ds1 = pair_sums ?ds0" and "ds2 = pair_sums ds1" and "ds3 = pair_sums ds2"
  have l: "length ?ds0 = 2 * 32" "length ds1 = 2 * 16" "length ds2 = 2 * 8" "length ds3 = 8"
    by (simp_all add: bit_list_def ds1_def ds2_def ds3_def length_pair_sums)
  have b0: "\<forall>x \<in> set ?ds0. x \<le> 1" by (auto simp: bit_list_def)
  then have b1: "\<forall>x \<in> set ds1. x \<le> 2" using pair_sums_bound [OF b0] by (simp add: ds1_def)
  then have b2: "\<forall>x \<in> set ds2. x \<le> 4" using pair_sums_bound [OF b1] by (simp add: ds2_def)
  then have b3: "\<forall>x \<in> set ds3. x \<le> 8" using pair_sums_bound [OF b2] by (simp add: ds3_def)
  define d1 where "d1 = d - (drop_bit 1 d AND 0x5555555555555555)"
  define d2 where "d2 = (drop_bit 2 d1 AND 0x3333333333333333) + (d1 AND 0x3333333333333333)"
  define d3 where "d3 = (drop_bit 4 d2 + d2) AND 0x0f0f0f0f0f0f0f0f"
  have u0: "unat d = dval (2 ^ 1) ?ds0" using unat_bit_list by simp
  have "unat (drop_bit 1 d AND 0x5555555555555555) = dval (2 ^ (2 * 1)) (evens (tl ?ds0))"
    using b0 popcount_masks(1) by (intro word_masks [OF u0 _ l(1)]) auto
  then have u1: "unat d1 = dval (2 ^ 2) ds1"
    unfolding d1_def ds1_def using first_step [of ?ds0] l u0 by (subst unat_sub) (simp_all add: word_le_nat_alt)
  have "unat (d1 AND 0x3333333333333333) = dval (2 ^ (2 * 2)) (evens ds1)"
    "unat (drop_bit 2 d1 AND 0x3333333333333333) = dval (2 ^ (2 * 2)) (evens (tl ds1))"
    using b1 popcount_masks(2) by (intro word_masks [OF u1 _ l(2)]; force)+
  moreover have "dval (2 ^ 4) ds2 < 2 ^ 64" using dval_less [of ds2 16] b2 l(3) by fastforce
  ultimately have u2: "unat d2 = dval (2 ^ 4) ds2"
    unfolding d2_def using evens_sum [of ds1 16] l(2) by (subst unat_add_small) (simp_all add: ds2_def)
  let ?a = "adjacent ds2"
  have ba: "\<forall>x \<in> set ?a. x \<le> 8" "length ?a = 2 * 8" using adjacent_bound [OF b2] l(3) by (simp_all add: length_adjacent)
  have "unat (drop_bit 4 d2) = dval (2 ^ 4) (tl ds2)" using dval_div [of ds2 "2 ^ 4"] b2 u2 by (force simp: unat_drop_word)
  moreover have "dval (2 ^ 4) ?a < 2 ^ 64" using dval_less [of ?a 16] ba by fastforce
  ultimately have "unat (drop_bit 4 d2 + d2) = dval (2 ^ 4) ?a"
    using dval_adjacent [of "2 ^ 4" ds2] u2 by (subst unat_add_small) simp_all
  then have "unat d3 = dval (2 ^ (2 * 4)) (evens ?a)"
    unfolding d3_def using ba popcount_masks(3) by (intro word_masks) force+
  then have u3: "unat d3 = dval 256 ds3" using evens_adjacent [of ds2] l(3) by (simp add: ds3_def)
  have "popcount d = drop_bit 56 (d3 * 0x0101010101010101)"
    by (simp add: popcount_def Let_def d1_def d2_def d3_def)
  then have "unat (popcount d) = sum_list ds3"
    using collect_digits [OF l(4) b3] u3 by (simp add: unat_drop_word unat_word_ariths)
  then show ?thesis using sum_pair_sums l sum_bit_list [of d] by (simp add: ds1_def ds2_def ds3_def)
qed

section \<open>Searching in a chunk\<close>

text \<open>The least and the greatest position in a set, or \<open>-1\<close>.\<close>

definition is_first :: "nat set \<Rightarrow> int \<Rightarrow> bool" where
  "is_first S r \<longleftrightarrow> (S = {} \<and> r = - 1) \<or> (\<exists>p \<in> S. r = int p \<and> (\<forall>q \<in> S. p \<le> q))"

definition is_last :: "nat set \<Rightarrow> int \<Rightarrow> bool" where
  "is_last S r \<longleftrightarrow> (S = {} \<and> r = - 1) \<or> (\<exists>p \<in> S. r = int p \<and> (\<forall>q \<in> S. q \<le> p))"

lemma is_firstI: "p \<in> S \<Longrightarrow> (\<And>q. q \<in> S \<Longrightarrow> p \<le> q) \<Longrightarrow> is_first S (int p)"
  by (auto simp: is_first_def)

lemma is_lastI: "p \<in> S \<Longrightarrow> (\<And>q. q \<in> S \<Longrightarrow> q \<le> p) \<Longrightarrow> is_last S (int p)"
  by (auto simp: is_last_def)

lemma is_first_empty [simp]: "is_first {} r \<longleftrightarrow> r = - 1" "is_last {} r \<longleftrightarrow> r = - 1"
  by (auto simp: is_first_def is_last_def)

lemma bit_less_64: "bit w k \<Longrightarrow> k < 64" for w :: guint64
  using bit_imp_le_length [of w k] by simp

lemma nonzero_has_bit: "w \<noteq> 0 \<longleftrightarrow> (\<exists>k. bit w k)" for w :: guint64
  by (metis bit_0_eq bit_eqI bot_apply bot_bool_def)

lemma lsf_loop_Least: "w \<noteq> 0 \<Longrightarrow> lsf_loop w n = n + (LEAST k. bit w k)"
proof (induction w n rule: lsf_loop.induct)
  case (1 w n)
  show ?case
  proof (cases "w AND 1 = 0")
    case True
    then have z: "\<not> bit w 0" by (metis and_push_bit push_bit_0_id id_apply)
    obtain k where k: "bit w k" using 1(2) nonzero_has_bit by blast
    then obtain k' where "k = Suc k'" using z by (cases k) auto
    then have "bit (drop_bit 1 w) k'" using k by (simp add: bit_drop_bit_eq)
    then have "drop_bit 1 w \<noteq> 0" using nonzero_has_bit by blast
    then have "lsf_loop (drop_bit 1 w) (n + 1) = n + 1 + (LEAST k. bit (drop_bit 1 w) k)" using 1 True by blast
    also have "(LEAST k. bit (drop_bit 1 w) k) = (LEAST k. bit w (Suc k))" by (simp add: bit_drop_bit_eq)
    finally show ?thesis using True 1(2) Least_Suc [of "bit w", OF k z] by (subst lsf_loop.simps) simp
  next
    case False
    then have "bit w 0" by (metis and_push_bit push_bit_0_id id_apply)
    then have "(LEAST k. bit w k) = 0" by (simp add: Least_eq_0)
    then show ?thesis using False by (subst lsf_loop.simps) simp
  qed
qed

lemma lsf_first:
  assumes "- 1 \<le> b" "b < 64"
  shows "is_first {k. int k > b \<and> bit c k} (my_g_bit_nth_lsf c b)"
proof -
  let ?n = "nat (b + 1)"
  have s: "{k. int k > b \<and> bit c k} = {k. ?n \<le> k \<and> bit c k}" using assms(1) by auto
  have d: "bit (drop_bit ?n c) k \<longleftrightarrow> bit c (?n + k)" for k by (simp add: bit_drop_bit_eq)
  show ?thesis
  proof (cases "drop_bit ?n c = 0")
    case True
    then have "\<not> bit c k" if "?n \<le> k" for k using d [of "k - ?n"] that by simp
    then have "{k. ?n \<le> k \<and> bit c k} = {}" by blast
    then show ?thesis using True is_first_empty(1) unfolding s by (simp only: my_g_bit_nth_lsf_def Let_def) simp
  next
    case False
    then obtain k where k: "bit (drop_bit ?n c) k" using nonzero_has_bit by blast
    then have "?n \<noteq> 64" using d bit_less_64 [of c "?n + k"] by auto
    define L where "L = ?n + (LEAST k. bit (drop_bit ?n c) k)"
    have e: "my_g_bit_nth_lsf c b = int L" unfolding L_def using \<open>?n \<noteq> 64\<close> False lsf_loop_Least [OF False, of ?n] by (simp add: my_g_bit_nth_lsf_def Let_def BITS_PER_CHUNK_def)
    have "bit c L" "?n \<le> L" using LeastI [of "bit (drop_bit ?n c)", OF k] d by (simp_all add: L_def)
    moreover have "L \<le> q" if "?n \<le> q" "bit c q" for q
    proof -
      have "bit (drop_bit ?n c) (q - ?n)" using d [of "q - ?n"] that by simp
      then have "(LEAST k. bit (drop_bit ?n c) k) \<le> q - ?n" by (rule Least_le)
      then show ?thesis using that(1) by (simp add: L_def)
    qed
    ultimately show ?thesis unfolding s e by (intro is_firstI) blast+
  qed
qed

lemma unset_loop_first: "n \<le> 64 \<Longrightarrow> is_first {k. n \<le> k \<and> k < 64 \<and> \<not> bit c k} (unset_loop c n)"
proof (induction "64 - n" arbitrary: n)
  case 0
  then have "n = 64" by simp
  moreover have "{k. (64::nat) \<le> k \<and> k < 64 \<and> \<not> bit c k} = {}" by auto
  moreover have "unset_loop c 64 = - 1" by (subst unset_loop.simps) (simp add: BITS_PER_CHUNK_def)
  ultimately show ?case by (simp only: is_first_empty)
next
  case (Suc m)
  then have n: "n < 64" by simp
  show ?case
  proof (cases "bit c n")
    case True
    then have "n \<le> k \<and> k < 64 \<and> \<not> bit c k \<longleftrightarrow> n + 1 \<le> k \<and> k < 64 \<and> \<not> bit c k" for k
      by (cases "k = n") auto
    then have "{k. n \<le> k \<and> k < 64 \<and> \<not> bit c k} = {k. n + 1 \<le> k \<and> k < 64 \<and> \<not> bit c k}"
      by (rule Collect_cong)
    moreover have "unset_loop c n = unset_loop c (n + 1)"
      using True n and_push_bit [of c n] by (subst unset_loop.simps) (simp add: BITS_PER_CHUNK_def)
    moreover have "is_first {k. n + 1 \<le> k \<and> k < 64 \<and> \<not> bit c k} (unset_loop c (n + 1))"
      by (rule Suc.hyps(1)) (use Suc.hyps(2) n in simp_all)
    ultimately show ?thesis by (simp only:)
  next
    case False
    then have "unset_loop c n = int n"
      using n and_push_bit [of c n] by (subst unset_loop.simps) (simp add: BITS_PER_CHUNK_def)
    moreover have "is_first {k. n \<le> k \<and> k < 64 \<and> \<not> bit c k} (int n)"
      by (rule is_firstI) (use False n in simp_all)
    ultimately show ?thesis by (simp only:)
  qed
qed

lemma bit_push_64: "bit (push_bit n w) k \<longleftrightarrow> n \<le> k \<and> k < 64 \<and> bit w (k - n)" for w :: guint64
  by (auto simp: bit_push_bit_iff dest: bit_less_64)

text \<open>\<open>M\<close> has no bit at or above \<open>i\<close>; the loops work on \<open>M\<close> shifted so that bit \<open>i - 1\<close> is the highest.\<close>

lemma msf_bytes_shift:
  "\<forall>k. bit M k \<longrightarrow> k < i \<Longrightarrow> i \<le> 64 \<Longrightarrow> 8 dvd i \<Longrightarrow>
    \<exists>i'. msf_bytes (push_bit (64 - i) M) i = (push_bit (64 - i') M, i') \<and> i' \<le> 64 \<and> (\<forall>k. bit M k \<longrightarrow> k < i')"
proof (induction i rule: less_induct)
  case (less i)
  let ?m = "push_bit (64 - i) M"
  show ?case
  proof (cases "i > 0 \<and> drop_bit 56 ?m = 0")
    case True
    then have i: "8 \<le> i" using less.prems(3) by (meson dvd_imp_le)
    have "push_bit 8 ?m = push_bit (64 - (i - 8)) M" using i less.prems(2) by (simp add: push_bit_push_bit)
    moreover have "k < i - 8" if "bit M k" for k
    proof (rule ccontr)
      assume "\<not> k < i - 8"
      moreover have "k < i" using less.prems(1) that by blast
      ultimately have "bit (drop_bit 56 ?m) (k + 8 - i)"
        using that less.prems(2) i by (simp add: bit_drop_bit_eq bit_push_64) arith
      then show False using True by simp
    qed
    moreover have "8 dvd i - 8" using less.prems(3) by simp
    ultimately have "\<exists>i'. msf_bytes (push_bit 8 ?m) (i - 8) = (push_bit (64 - i') M, i') \<and> i' \<le> 64 \<and> (\<forall>k. bit M k \<longrightarrow> k < i')"
      using less.IH [of "i - 8"] less.prems(2) i by simp
    then show ?thesis using True by (subst msf_bytes.simps) (simp add: BITS_PER_CHUNK_def)
  next
    case False
    then have "msf_bytes ?m i = (?m, i)" by (subst msf_bytes.simps) (auto simp: BITS_PER_CHUNK_def)
    then show ?thesis using less.prems by blast
  qed
qed

lemma msf_bits_last:
  "\<forall>k. bit M k \<longrightarrow> k < i \<Longrightarrow> i \<le> 64 \<Longrightarrow> bit M p \<Longrightarrow>
    \<exists>k. msf_bits (push_bit (64 - i) M) (int i) = Some (int k) \<and> bit M k \<and> (\<forall>q. bit M q \<longrightarrow> q \<le> k)"
proof (induction i)
  case (Suc i)
  let ?m = "push_bit (64 - Suc i) M"
  have b: "bit ?m 63 \<longleftrightarrow> bit M i" using Suc.prems(2) by (simp add: bit_push_64)
  show ?case
  proof (cases "bit M i")
    case True
    then have "msf_bits ?m (int (Suc i)) = Some (int i)"
      using b and_push_bit [of ?m 63] by (subst msf_bits.simps) (simp add: BITS_PER_CHUNK_def)
    moreover have "\<forall>q. bit M q \<longrightarrow> q \<le> i" using Suc.prems(1) by auto
    ultimately show ?thesis using True by blast
  next
    case False
    then have lt: "\<forall>k. bit M k \<longrightarrow> k < i" using Suc.prems(1) by (auto simp: less_Suc_eq)
    have "1 + (64 - Suc i) = 64 - i" using Suc.prems(2) by simp
    then have s: "push_bit 1 ?m = push_bit (64 - i) M" by (simp only: push_bit_push_bit)
    have "p < i" using lt Suc.prems(3) by blast
    then have "bit (push_bit (64 - i) M) (p + (64 - i))" using Suc.prems(2,3) by (simp add: bit_push_64) arith
    then have "push_bit 1 ?m \<noteq> 0" unfolding s using nonzero_has_bit by blast
    then have "msf_bits ?m (int (Suc i)) = msf_bits (push_bit (64 - i) M) (int i)"
      using False b and_push_bit [of ?m 63] s by (subst msf_bits.simps) (simp add: BITS_PER_CHUNK_def)
    then show ?thesis using Suc.IH [OF lt _ Suc.prems(3)] Suc.prems(2) by simp
  qed
qed simp

lemma msf_last:
  assumes "n \<le> 64"
  shows "is_last {k. k < n \<and> bit c k} (my_g_bit_nth_msf c n)"
proof (cases "n = 0")
  case False
  let ?s = "64 - n" and ?M = "push_bit (64 - n) c"
  have M: "bit ?M (k + ?s) \<longleftrightarrow> k < n \<and> bit c k" "bit ?M k \<Longrightarrow> k < 64 \<and> ?s \<le> k" for k
    using assms by (auto simp: bit_push_64)
  obtain i where i: "msf_bytes ?M 64 = (push_bit (64 - i) ?M, i)" "i \<le> 64" "\<forall>k. bit ?M k \<longrightarrow> k < i"
    using msf_bytes_shift [of ?M 64] M(2) by auto
  show ?thesis
  proof (cases "{k. k < n \<and> bit c k} = {}")
    case True
    then have "\<not> bit ?M k" for k using M(1) [of "k - ?s"] M(2) [of k] by auto
    then have "?M = 0" using nonzero_has_bit by blast
    then have "my_g_bit_nth_msf c n = - 1" using i(1) by (simp add: my_g_bit_nth_msf_def BITS_PER_CHUNK_def Let_def)
    then show ?thesis using True by (simp only: is_first_empty)
  next
    case False
    then obtain p where p: "bit ?M (p + ?s)" using M(1) by auto
    obtain k where k: "msf_bits (push_bit (64 - i) ?M) (int i) = Some (int k)" "bit ?M k" "\<forall>q. bit ?M q \<longrightarrow> q \<le> k"
      using msf_bits_last [OF i(3,2) p] by blast
    have sk: "?s \<le> k" using M(2) k(2) by blast
    have "p + ?s < i" using p i(3) by blast
    then have "64 - i \<le> p + ?s + (64 - i)" "p + ?s + (64 - i) < 64" "p + ?s + (64 - i) - (64 - i) = p + ?s" using i(2) by simp_all
    then have "bit (push_bit (64 - i) ?M) (p + ?s + (64 - i))" using p bit_push_64 [of "64 - i" ?M] by presburger
    then have "push_bit (64 - i) ?M \<noteq> 0" using nonzero_has_bit by blast
    then have "my_g_bit_nth_msf c n = int (k - ?s)"
      using i(1) k(1) sk \<open>n \<noteq> 0\<close> by (simp add: my_g_bit_nth_msf_def BITS_PER_CHUNK_def Let_def of_nat_diff)
    moreover have "k - ?s < n \<and> bit c (k - ?s)" using M(1) [of "k - ?s"] k(2) sk by simp
    moreover have "q \<le> k - ?s" if "q < n \<and> bit c q" for q using k(3) M(1) [of q] that by fastforce
    ultimately show ?thesis using is_lastI [of "k - ?s" "{k. k < n \<and> bit c k}"] by simp
  qed
qed (simp add: my_g_bit_nth_msf_def)

end
