(* ===== verification/Mono_Bitset_Spec.thy ===== *)
theory Mono_Bitset_Spec
  imports Mono_Bitset_Proofs
begin

unbundle bit_operations_syntax

text \<open>
  Bit sets as sets of positions.  \<open>bits\<close> is the set that a bit set stands for; every operation of
  \<open>monobitset.c\<close> computes the operation on sets that its comment promises, as long as the sizes fit.
  The locale \<open>chunk_search\<close> is what the searches for a set bit and for an unset bit share.
\<close>

section \<open>Sets of positions\<close>

definition bitset_ok :: "MonoBitSet \<Rightarrow> bool" where
  "bitset_ok bs \<longleftrightarrow> bs_size bs = 64 * length (bs_data bs)"

definition members :: "(guint64 \<Rightarrow> nat \<Rightarrow> bool) \<Rightarrow> guint64 list \<Rightarrow> nat set" where
  "members Q cs = {p. p < 64 * length cs \<and> Q (cs ! (p div 64)) (p mod 64)}"

definition bits :: "MonoBitSet \<Rightarrow> nat set" where
  "bits bs = members bit (bs_data bs)"

lemma members_Nil [simp]: "members Q [] = {}"
  by (simp add: members_def)

lemma members_Cons: "members Q (c # cs) = {k. k < 64 \<and> Q c k} \<union> (\<lambda>p. p + 64) ` members Q cs"
proof (intro set_eqI iffI)
  fix p
  assume p: "p \<in> members Q (c # cs)"
  show "p \<in> {k. k < 64 \<and> Q c k} \<union> (\<lambda>p. p + 64) ` members Q cs"
  proof (cases "p < 64")
    case True
    then show ?thesis using p by (auto simp: members_def)
  next
    case False
    then have "p div 64 = Suc ((p - 64) div 64)" "p mod 64 = (p - 64) mod 64" by (simp_all add: le_div_geq le_mod_geq)
    then have "p - 64 \<in> members Q cs" using p False by (auto simp: members_def)
    then show ?thesis using False by (auto intro: image_eqI [of _ _ "p - 64"])
  qed
qed (auto simp: members_def le_div_geq)

lemma in_bits: "bitset_ok bs \<Longrightarrow> p \<in> bits bs \<longleftrightarrow> p < bs_size bs \<and> bit (bs_data bs ! (p div 64)) (p mod 64)"
  by (simp add: bits_def members_def bitset_ok_def)

lemma chunk_index: "bitset_ok bs \<Longrightarrow> p < bs_size bs \<Longrightarrow> p div 64 < length (bs_data bs)"
  by (simp add: bitset_ok_def div_less_iff_less_mult)

lemma n_chunks_length: "bitset_ok bs \<Longrightarrow> n_chunks bs = length (bs_data bs)"
  by (simp add: bitset_ok_def BITS_PER_CHUNK_def)

section \<open>Single bits\<close>

text \<open>The outcome of an operation that leaves the size and the flags: a set with the given members.\<close>

definition becomes :: "MonoBitSet res \<Rightarrow> MonoBitSet \<Rightarrow> nat set \<Rightarrow> bool" where
  "becomes r bs S \<longleftrightarrow> (\<exists>bs'. r = Inr bs' \<and> bitset_ok bs' \<and> bs_size bs' = bs_size bs \<and> bs_flags bs' = bs_flags bs \<and> bits bs' = S)"

lemma update_chunk_becomes:
  assumes "bitset_ok bs" "pos < bs_size bs"
    "\<And>p. p < bs_size bs \<Longrightarrow> p \<in> S \<longleftrightarrow> (if p div 64 = pos div 64 then bit (f (bs_data bs ! (p div 64))) (p mod 64) else p \<in> bits bs)"
    "\<And>p. p \<in> S \<Longrightarrow> p < bs_size bs"
  shows "becomes (update_chunk bs (pos div 64) f) bs S"
proof -
  let ?bs = "bs\<lparr>bs_data := (bs_data bs)[pos div 64 := f (bs_data bs ! (pos div 64))]\<rparr>"
  have j: "pos div 64 < length (bs_data bs)" using chunk_index [OF assms(1,2)] .
  then have "update_chunk bs (pos div 64) f = Inr ?bs" by (simp add: update_chunk_def read_chunk_def)
  moreover have ok: "bitset_ok ?bs" using assms(1) by (simp add: bitset_ok_def)
  moreover have "p \<in> bits ?bs \<longleftrightarrow> p \<in> S" for p
  proof (cases "p < bs_size bs")
    case True
    then show ?thesis
      using assms(3) [OF True] in_bits [OF ok, of p] in_bits [OF assms(1), of p] j by (auto simp: nth_list_update)
  next
    case False
    then show ?thesis using in_bits [OF ok, of p] assms(4) by auto
  qed
  ultimately show ?thesis by (auto simp: becomes_def)
qed

lemma split_position: "p = pos \<longleftrightarrow> p div 64 = pos div 64 \<and> p mod 64 = pos mod 64" for p pos :: nat
  by (metis div_mod_decomp)

lemma bit_set_one: "m < 64 \<Longrightarrow> bit (c OR 2 ^ m) k \<longleftrightarrow> bit c k \<or> k = m" for c :: guint64
  by (auto simp: bit_simps)

lemma bit_clear_one: "bit (c AND NOT (2 ^ m)) k \<longleftrightarrow> bit c k \<and> k \<noteq> m" for c :: guint64
  by (auto simp: bit_simps dest: bit_less_64)

lemma set_becomes:
  assumes "bitset_ok bs" "pos < bs_size bs"
  shows "becomes (mono_bitset_set bs pos) bs (insert pos (bits bs))"
proof -
  have "becomes (update_chunk bs (pos div 64) (\<lambda>c. c OR push_bit (pos mod 64) 1)) bs (insert pos (bits bs))"
  proof (rule update_chunk_becomes [OF assms])
    fix p
    assume "p < bs_size bs"
    then show "p \<in> insert pos (bits bs) \<longleftrightarrow> (if p div 64 = pos div 64
        then bit (bs_data bs ! (p div 64) OR push_bit (pos mod 64) 1) (p mod 64) else p \<in> bits bs)"
      using in_bits [OF assms(1), of p] split_position [of p pos] by (cases "p = pos") (simp_all add: bit_set_one)
  qed (use assms in_bits [OF assms(1)] in auto)
  then show ?thesis using assms(2) by (simp add: mono_bitset_set_def BITS_PER_CHUNK_def)
qed

lemma clear_becomes:
  assumes "bitset_ok bs" "pos < bs_size bs"
  shows "becomes (mono_bitset_clear bs pos) bs (bits bs - {pos})"
proof -
  have "becomes (update_chunk bs (pos div 64) (\<lambda>c. c AND NOT (push_bit (pos mod 64) 1))) bs (bits bs - {pos})"
  proof (rule update_chunk_becomes [OF assms])
    fix p
    assume "p < bs_size bs"
    then show "p \<in> bits bs - {pos} \<longleftrightarrow> (if p div 64 = pos div 64
        then bit (bs_data bs ! (p div 64) AND NOT (push_bit (pos mod 64) 1)) (p mod 64) else p \<in> bits bs)"
      using in_bits [OF assms(1), of p] split_position [of p pos] by (cases "p = pos") (simp_all add: bit_clear_one)
  qed (use in_bits [OF assms(1)] in auto)
  then show ?thesis using assms(2) by (simp add: mono_bitset_clear_def BITS_PER_CHUNK_def)
qed

lemma test_bits: "bitset_ok bs \<Longrightarrow> mono_bitset_test bs pos = Inr (pos \<in> bits bs)"
  using chunk_index [of bs pos] in_bits [of bs pos] and_push_bit [of "bs_data bs ! (pos div 64)" "pos mod 64"]
  by (auto simp: mono_bitset_test_def read_chunk_def BITS_PER_CHUNK_def word_gt_0)

section \<open>Whole sets\<close>

lemma chunk_loop_map:
  "n \<le> length cs \<Longrightarrow> (\<And>k. k < n \<Longrightarrow> f (i + k) (cs ! k) = Inr (g (i + k) (cs ! k))) \<Longrightarrow>
    \<exists>ds. chunk_loop f i n cs = Inr ds \<and> length ds = length cs \<and>
      (\<forall>k < length cs. ds ! k = (if k < n then g (i + k) (cs ! k) else cs ! k))"
proof (induction f i n cs rule: chunk_loop.induct)
  case (3 f i n c cs)
  have f: "f (i + 1 + k) (cs ! k) = Inr (g (i + 1 + k) (cs ! k))" if "k < n" for k
    using 3(3) [of "Suc k"] that by simp
  have i: "f i c = Inr (g i c)" using 3(3) [of 0] by simp
  obtain ds where ds: "chunk_loop f (i + 1) n cs = Inr ds" "length ds = length cs"
    "\<forall>k < length cs. ds ! k = (if k < n then g (i + 1 + k) (cs ! k) else cs ! k)"
    using 3(1) f 3(2) by auto
  have "chunk_loop f i (Suc n) (c # cs) = Inr (g i c # ds)" using i ds(1) by simp
  moreover have "(g i c # ds) ! k = (if k < Suc n then g (i + k) ((c # cs) ! k) else (c # cs) ! k)" if "k < length (c # cs)" for k
    using that ds(3) by (cases k) auto
  ultimately show ?case using ds(2) by (intro exI [of _ "g i c # ds"]) auto
qed auto

lemma chunk_loop_fails:
  "m < n \<Longrightarrow> m < length cs \<Longrightarrow> (\<And>k. k < m \<Longrightarrow> \<exists>c. f (i + k) (cs ! k) = Inr c) \<Longrightarrow> f (i + m) (cs ! m) = Inl e \<Longrightarrow>
    chunk_loop f i n cs = Inl e"
proof (induction f i n cs arbitrary: m rule: chunk_loop.induct)
  case (3 f i n c cs)
  show ?case
  proof (cases m)
    case (Suc k)
    have "\<exists>c. f (i + 1 + q) (cs ! q) = Inr c" if "q < k" for q using 3(4) [of "Suc q"] Suc that by simp
    then have "chunk_loop f (i + 1) n cs = Inl e" using 3(1) [of k] 3(2,3,5) Suc by auto
    moreover obtain c' where "f i c = Inr c'" using 3(4) [of 0] Suc by auto
    ultimately show ?thesis by simp
  qed (use 3 in simp)
qed auto

lemma update_chunks_becomes:
  assumes "bitset_ok bs" "n \<le> length (bs_data bs)"
    "\<And>k. k < n \<Longrightarrow> f k (bs_data bs ! k) = Inr (g k (bs_data bs ! k))"
    "\<And>p. p < bs_size bs \<Longrightarrow> p \<in> S \<longleftrightarrow> (if p div 64 < n then bit (g (p div 64) (bs_data bs ! (p div 64))) (p mod 64) else p \<in> bits bs)"
    "\<And>p. p \<in> S \<Longrightarrow> p < bs_size bs"
  shows "becomes (update_chunks bs n f) bs S"
proof -
  obtain ds where ds: "chunk_loop f 0 n (bs_data bs) = Inr ds" "length ds = length (bs_data bs)"
    "\<forall>k < length (bs_data bs). ds ! k = (if k < n then g k (bs_data bs ! k) else bs_data bs ! k)"
    using chunk_loop_map [of n "bs_data bs" f 0 g] assms(2,3) by auto
  let ?bs = "bs\<lparr>bs_data := ds\<rparr>"
  have ok: "bitset_ok ?bs" using assms(1) ds(2) by (simp add: bitset_ok_def)
  have "p \<in> bits ?bs \<longleftrightarrow> p \<in> S" for p
    using in_bits [OF ok, of p] in_bits [OF assms(1), of p] assms(4) [of p] assms(5) [of p] ds(3) chunk_index [OF assms(1), of p]
    by (cases "p < bs_size bs") auto
  then show ?thesis using ds(1) ok by (auto simp: becomes_def update_chunks_def)
qed

lemma all_becomes:
  assumes "bitset_ok bs"
  shows "becomes (mono_bitset_clear_all bs) bs {}" "becomes (mono_bitset_set_all bs) bs {..<bs_size bs}"
    "becomes (mono_bitset_invert bs) bs ({..<bs_size bs} - bits bs)"
  unfolding mono_bitset_clear_all_def mono_bitset_set_all_def mono_bitset_invert_def n_chunks_length [OF assms]
  using chunk_index [OF assms] in_bits [OF assms]
  by (intro update_chunks_becomes [OF assms order_refl refl]; simp add: bit_simps)+

text \<open>Operations that combine a set with another of the same size, chunk by chunk.\<close>

lemma read_chunk_ok: "k < length (bs_data bs) \<Longrightarrow> read_chunk bs k = Inr (bs_data bs ! k)"
  by (simp add: read_chunk_def)

lemma combine_becomes:
  assumes "bitset_ok dest" "bitset_ok src" "bs_size src = bs_size dest"
    "\<And>c d k. k < 64 \<Longrightarrow> bit (h c d) k \<longleftrightarrow> H (bit c k) (bit d k)"
    "S = {p. p < bs_size dest \<and> H (p \<in> bits dest) (p \<in> bits src)}"
  shows "becomes (update_chunks dest (length (bs_data dest)) (\<lambda>i c. bindr (read_chunk src i) (\<lambda>d. Inr (h c d)))) dest S"
proof (rule update_chunks_becomes [OF assms(1) order_refl, of _ "\<lambda>k c. h c (bs_data src ! k)"])
  have l: "length (bs_data src) = length (bs_data dest)" using assms(1-3) by (simp add: bitset_ok_def)
  then show "bindr (read_chunk src k) (\<lambda>d. Inr (h (bs_data dest ! k) d)) = Inr (h (bs_data dest ! k) (bs_data src ! k))"
    if "k < length (bs_data dest)" for k using that by (simp add: read_chunk_ok)
  show "p \<in> S \<longleftrightarrow> (if p div 64 < length (bs_data dest)
      then bit (h (bs_data dest ! (p div 64)) (bs_data src ! (p div 64))) (p mod 64) else p \<in> bits dest)" if "p < bs_size dest" for p
    using that chunk_index [OF assms(1) that] in_bits [OF assms(1), of p] in_bits [OF assms(2), of p] assms(3,4,5) by simp
qed (use assms(5) in simp)

lemma binary_becomes:
  assumes "bitset_ok dest" "bitset_ok src" "bs_size src = bs_size dest"
  shows "becomes (mono_bitset_union dest src) dest (bits dest \<union> bits src)"
    "becomes (mono_bitset_intersection dest src) dest (bits dest \<inter> bits src)"
    "becomes (mono_bitset_sub dest src) dest (bits dest - bits src)"
proof -
  have n: "n_chunks dest = length (bs_data dest)" "n_chunks src = length (bs_data dest)"
    using assms n_chunks_length by (simp_all add: bitset_ok_def)
  have b: "\<And>p. p \<in> bits dest \<Longrightarrow> p < bs_size dest" "\<And>p. p \<in> bits src \<Longrightarrow> p < bs_size dest"
    using in_bits assms by simp_all
  show "becomes (mono_bitset_union dest src) dest (bits dest \<union> bits src)"
    unfolding mono_bitset_union_def n using assms(3) b
    by simp (rule combine_becomes [OF assms, where H = "(\<or>)"]; auto simp: bit_simps)
  show "becomes (mono_bitset_intersection dest src) dest (bits dest \<inter> bits src)"
    unfolding mono_bitset_intersection_def n using assms(3) b
    by simp (rule combine_becomes [OF assms, where H = "(\<and>)"]; auto simp: bit_simps)
  show "becomes (mono_bitset_sub dest src) dest (bits dest - bits src)"
    unfolding mono_bitset_sub_def n using assms(3) b
    by simp (rule combine_becomes [OF assms, where H = "\<lambda>c d. c \<and> \<not> d"]; auto simp: bit_simps)
qed

section \<open>Counting and enumeration\<close>

lemma card_members_Cons:
  "card (members Q (c # cs)) = card {k. k < 64 \<and> Q c k} + card (members Q cs)"
proof -
  have "finite (members Q cs)" by (rule finite_subset [of _ "{..<64 * length cs}"]) (auto simp: members_def)
  moreover have "{k. k < 64 \<and> Q c k} \<inter> (\<lambda>p. p + 64) ` members Q cs = {}" by auto
  moreover have "card ((\<lambda>p. p + 64) ` members Q cs) = card (members Q cs)" by (rule card_image) (simp add: inj_on_def)
  ultimately show ?thesis unfolding members_Cons by (subst card_Un_disjoint) auto
qed

lemma count_loop_card: "count_loop (length cs) cs n = Inr (n + of_nat (card (members bit cs)))"
proof (induction cs arbitrary: n)
  case (Cons d cs)
  have "d = 0 \<Longrightarrow> card {k. k < 64 \<and> bit d k} = 0" by simp
  moreover have "ucast (popcount d) = (of_nat (card {k. k < 64 \<and> bit d k}) :: guint32)"
    using popcount_card [of d] by (metis of_nat_unat)
  ultimately show ?case using Cons by (auto simp: card_members_Cons)
qed simp

lemma foreach_loop_members:
  "foreach_loop i (length cs) cs = Inr (map (\<lambda>p. p + i * 64) (sorted_list_of_set (members bit cs)))"
proof (induction cs arbitrary: i)
  case (Cons c cs)
  let ?A = "filter (bit c) [0..<64]" and ?B = "map (\<lambda>p. p + 64) (sorted_list_of_set (members bit cs))"
  have fin: "finite (members bit cs)" by (rule finite_subset [of _ "{..<64 * length cs}"]) (auto simp: members_def)
  have A: "set ?A = {k. k < 64 \<and> bit c k}" by auto
  have "sorted (?A @ ?B)" using fin by (auto simp: sorted_append sorted_filter sorted_wrt_map)
  moreover have "distinct (?A @ ?B)" using fin by (auto simp: distinct_map inj_on_def)
  moreover have "set (?A @ ?B) = members bit (c # cs)" unfolding members_Cons using A fin by simp
  ultimately have e: "sorted_list_of_set (members bit (c # cs)) = ?A @ ?B"
    by (metis sorted_list_of_set.idem_if_sorted_distinct)
  have "c = 0 \<Longrightarrow> ?A = []" by simp
  moreover have "filter (\<lambda>j. c AND push_bit j 1 \<noteq> 0) [0..<64] = ?A" by (simp only: and_push_bit not_not)
  ultimately show ?case
    using Cons [of "i + 1"] unfolding e by (auto simp: BITS_PER_CHUNK_def algebra_simps simp del: push_bit_of_1)
qed simp

section \<open>Searching\<close>

lemma is_first_shift: "is_first S r \<Longrightarrow> r \<noteq> - 1 \<Longrightarrow> is_first ((\<lambda>p. p + n) ` S) (r + int n)"
  by (auto simp: is_first_def)

lemma is_first_left: "is_first A r \<Longrightarrow> r \<noteq> - 1 \<Longrightarrow> (\<And>a b. a \<in> A \<Longrightarrow> b \<in> B \<Longrightarrow> a \<le> b) \<Longrightarrow> is_first (A \<union> B) r"
  by (fastforce simp: is_first_def)

lemma is_first_none: "is_first S r \<Longrightarrow> r = - 1 \<longleftrightarrow> S = {}"
  by (auto simp: is_first_def)

lemma members_drop: "n \<le> length cs \<Longrightarrow> q \<in> members Q (drop n cs) \<longleftrightarrow> q + n * 64 \<in> members Q cs"
  by (auto simp: members_def add.commute [of n])

locale chunk_search =
  fixes Q :: "guint64 \<Rightarrow> nat \<Rightarrow> bool"
    and skip :: guint64
    and search :: "guint64 \<Rightarrow> int \<Rightarrow> int"
  assumes skip_none: "k < 64 \<Longrightarrow> \<not> Q skip k"
    and skip_only: "c \<noteq> skip \<Longrightarrow> \<exists>k < 64. Q c k"
    and search_first: "- 1 \<le> b \<Longrightarrow> b < 64 \<Longrightarrow> is_first {k. k < 64 \<and> int k > b \<and> Q c k} (search c b)"
begin

lemma search_start: "c \<noteq> skip \<Longrightarrow> is_first {k. k < 64 \<and> Q c k} (search c (- 1)) \<and> search c (- 1) \<noteq> - 1"
  using search_first [of "- 1" c] skip_only [of c] is_first_none [of "{k. k < 64 \<and> Q c k}" "search c (- 1)"] by auto

lemma scan_up_first:
  "\<exists>r. scan_up skip (\<lambda>c. search c (- 1)) i (length cs) cs = Inr r \<and> is_first ((\<lambda>p. p + i * 64) ` members Q cs) r"
proof (induction cs arbitrary: i)
  case (Cons c cs)
  let ?A = "{k. k < 64 \<and> Q c k}"
  have s: "(\<lambda>p. p + i * 64) ` members Q (c # cs) = (\<lambda>p. p + i * 64) ` ?A \<union> (\<lambda>p. p + (i + 1) * 64) ` members Q cs"
    unfolding members_Cons by (auto simp: image_Un image_image algebra_simps)
  show ?case
  proof (cases "c = skip")
    case True
    then have "?A = {}" using skip_none by blast
    then have "(\<lambda>p. p + i * 64) ` members Q (c # cs) = (\<lambda>p. p + (i + 1) * 64) ` members Q cs" using s by (simp only: image_empty Un_empty_left)
    then show ?thesis using Cons [of "i + 1"] True by simp
  next
    case False
    then have "is_first ((\<lambda>p. p + i * 64) ` ?A) (search c (- 1) + int (i * 64))"
      using is_first_shift search_start by blast
    moreover have "search c (- 1) \<ge> 0" using search_start [OF False] by (auto simp: is_first_def)
    ultimately have "is_first ((\<lambda>p. p + i * 64) ` members Q (c # cs)) (search c (- 1) + int (i * 64))"
      unfolding s by (intro is_first_left) auto
    then show ?thesis using False by (simp add: BITS_PER_CHUNK_def)
  qed
qed simp

lemma members_after:
  assumes "j < length cs" "- 1 \<le> b" "b < 64"
  shows "{p \<in> members Q cs. int p > int (64 * j) + b} =
    (\<lambda>k. k + j * 64) ` {k. k < 64 \<and> int k > b \<and> Q (cs ! j) k} \<union> (\<lambda>p. p + (j + 1) * 64) ` members Q (drop (j + 1) cs)"
    (is "?L = ?A \<union> ?B")
proof (intro set_eqI iffI)
  fix p
  assume p: "p \<in> ?L"
  then have j: "j \<le> p div 64" using assms(2) by (auto simp: less_eq_div_iff_mult_less_eq)
  show "p \<in> ?A \<union> ?B"
  proof (cases "p div 64 = j")
    case True
    then have "p = p mod 64 + j * 64" using mod_mult_div_eq [of p 64] by simp
    moreover from this have "int (p mod 64) > b" using p by simp
    ultimately show ?thesis using p True by (auto simp: members_def intro!: image_eqI [of _ _ "p mod 64"])
  next
    case False
    define q where "q = p - (j + 1) * 64"
    have pq: "p = q + (j + 1) * 64" using False j unfolding q_def
      by (metis Suc_eq_plus1 Suc_leI div_times_less_eq_dividend le_add_diff_inverse2 le_neq_implies_less le_trans mult_le_mono1)
    then have "q \<in> members Q (drop (j + 1) cs)" using p assms(1) members_drop [of "j + 1" cs q Q] by simp
    then show ?thesis using pq by blast
  qed
next
  fix p
  assume "p \<in> ?A \<union> ?B"
  then show "p \<in> ?L"
  proof
    assume "p \<in> ?A"
    then show ?thesis using assms(1) by (auto simp: members_def)
  next
    assume "p \<in> ?B"
    then obtain q where "p = q + (j + 1) * 64" "q \<in> members Q (drop (j + 1) cs)" by blast
    then show ?thesis using assms members_drop [of "j + 1" cs q Q] by simp
  qed
qed

lemma find_from_first:
  assumes "bitset_ok bs" "j < length (bs_data bs)" "- 1 \<le> b" "b < 64"
  shows "\<exists>r. find_from skip search bs j b = Inr r \<and> is_first {p \<in> members Q (bs_data bs). int p > int (64 * j) + b} r"
proof -
  let ?c = "bs_data bs ! j"
  let ?A = "{k. k < 64 \<and> int k > b \<and> Q ?c k}" and ?B = "(\<lambda>p. p + (j + 1) * 64) ` members Q (drop (j + 1) (bs_data bs))"
  define r where "r = (if ?c \<noteq> skip then search ?c b else - 1)"
  have r: "is_first ?A r"
  proof (cases "?c = skip")
    case True
    then have "?A = {}" using skip_none by auto
    then show ?thesis using True by (simp only: r_def) simp
  qed (use search_first [OF assms(3,4), of ?c] in \<open>simp add: r_def\<close>)
  obtain r' where r': "scan_up skip (\<lambda>c. search c (- 1)) (j + 1) (length (drop (j + 1) (bs_data bs))) (drop (j + 1) (bs_data bs)) = Inr r'"
    "is_first ?B r'" using scan_up_first [of "j + 1" "drop (j + 1) (bs_data bs)"] by blast
  have f: "find_from skip search bs j b = (if r \<noteq> - 1 then Inr (r + int (j * 64)) else Inr r')"
    using r'(1) assms(2) n_chunks_length [OF assms(1)]
    by (simp add: find_from_def read_chunk_ok r_def BITS_PER_CHUNK_def Let_def)
  note s = members_after [OF assms(2-4)]
  show ?thesis
  proof (cases "r = - 1")
    case True
    then have "?A = {}" using is_first_none [OF r] by blast
    then show ?thesis using True f r'(2) unfolding s by (simp only: image_empty Un_empty_left if_False simp_thms) simp
  next
    case False
    then have "is_first ((\<lambda>k. k + j * 64) ` ?A \<union> ?B) (r + int (j * 64))"
      using is_first_shift [OF r False, of "j * 64"] r by (intro is_first_left) (auto simp: is_first_def)
    then show ?thesis using False f unfolding s by auto
  qed
qed

end

interpretation set_bits: chunk_search bit 0 my_g_bit_nth_lsf
proof
  show "\<exists>k < 64. bit c k" if "c \<noteq> 0" for c :: guint64 using that nonzero_has_bit bit_less_64 by blast
  show "is_first {k. k < 64 \<and> b < int k \<and> bit c k} (my_g_bit_nth_lsf c b)" if "- 1 \<le> b" "b < 64" for c b
  proof -
    have "{k. k < 64 \<and> b < int k \<and> bit c k} = {k. b < int k \<and> bit c k}" using bit_less_64 by blast
    then show ?thesis using lsf_first [OF that, of c] by simp
  qed
qed simp

interpretation unset_bits: chunk_search "\<lambda>c k. \<not> bit c k" "- 1" find_first_unset
proof
  show "\<exists>k < 64. \<not> bit c k" if "c \<noteq> - 1" for c :: guint64
  proof (rule ccontr)
    assume "\<not> (\<exists>k < 64. \<not> bit c k)"
    then have "c = - 1" by (intro bit_word_eqI) simp
    then show False using that by simp
  qed
  show "is_first {k. k < 64 \<and> b < int k \<and> \<not> bit c k} (find_first_unset c b)" if "- 1 \<le> b" "b < 64" for c b
  proof -
    have "{k. k < 64 \<and> b < int k \<and> \<not> bit c k} = {k. nat (b + 1) \<le> k \<and> k < 64 \<and> \<not> bit c k}" using that by auto
    then show ?thesis using unset_loop_first [of "nat (b + 1)" c] that by (simp add: find_first_unset_def)
  qed
qed simp

lemma find_first_spec:
  assumes "bitset_ok bs" "0 < bs_size bs" "pos < int (bs_size bs)"
  shows "\<exists>r. mono_bitset_find_first bs pos = Inr r \<and> is_first {p \<in> bits bs. int p > pos} r"
    "\<exists>r. mono_bitset_find_first_unset bs pos = Inr r \<and> is_first {p. p < bs_size bs \<and> p \<notin> bits bs \<and> int p > pos} r"
proof -
  define j where "j = (if pos < 0 then 0 else nat pos div 64)"
  define b where "b = (if pos < 0 then - 1 else int (nat pos mod 64))"
  have j: "j < length (bs_data bs)" using assms chunk_index [OF assms(1)] by (simp add: j_def bitset_ok_def)
  have b: "- 1 \<le> b" "b < 64" by (auto simp: b_def)
  have after: "int p > int (64 * j) + b \<longleftrightarrow> int p > pos" for p
  proof (cases "pos < 0")
    case False
    then have "int (64 * j) + b = int (64 * (nat pos div 64) + nat pos mod 64)" by (simp only: j_def b_def if_False of_nat_add)
    then show ?thesis using False by (simp only: mult_div_mod_eq) simp
  qed (simp add: j_def b_def)
  have "mono_bitset_find_first bs pos = find_from 0 my_g_bit_nth_lsf bs j b"
    using assms(3) by (simp add: mono_bitset_find_first_def j_def b_def BITS_PER_CHUNK_def)
  then show "\<exists>r. mono_bitset_find_first bs pos = Inr r \<and> is_first {p \<in> bits bs. int p > pos} r"
    using set_bits.find_from_first [OF assms(1) j b] unfolding bits_def after by simp
  have "mono_bitset_find_first_unset bs pos = find_from (- 1) find_first_unset bs j b"
    using assms(3) by (simp add: mono_bitset_find_first_unset_def j_def b_def BITS_PER_CHUNK_def)
  moreover have "{p \<in> members (\<lambda>c k. \<not> bit c k) (bs_data bs). int p > pos} = {p. p < bs_size bs \<and> p \<notin> bits bs \<and> int p > pos}"
    using assms(1) by (auto simp: bits_def members_def bitset_ok_def)
  ultimately show "\<exists>r. mono_bitset_find_first_unset bs pos = Inr r \<and> is_first {p. p < bs_size bs \<and> p \<notin> bits bs \<and> int p > pos} r"
    using unset_bits.find_from_first [OF assms(1) j b] unfolding after by simp
qed

lemma lsf_nomask: "c \<noteq> 0 \<Longrightarrow> my_g_bit_nth_lsf c (- 1) = my_g_bit_nth_lsf_nomask c \<and> my_g_bit_nth_lsf_nomask c \<noteq> - 1"
  by (simp add: my_g_bit_nth_lsf_def my_g_bit_nth_lsf_nomask_def BITS_PER_CHUNK_def Let_def)

lemma scan_up_nomask: "scan_up 0 my_g_bit_nth_lsf_nomask i n cs = scan_up 0 (\<lambda>c. my_g_bit_nth_lsf c (- 1)) i n cs"
  by (induction "0 :: guint64" my_g_bit_nth_lsf_nomask i n cs rule: scan_up.induct) (simp_all add: lsf_nomask)

lemma find_start_is_find_first:
  assumes "bitset_ok bs" "0 < bs_size bs"
  shows "mono_bitset_find_start bs = mono_bitset_find_first bs (- 1)"
proof -
  obtain c cs where d: "bs_data bs = c # cs" using assms by (cases "bs_data bs") (auto simp: bitset_ok_def)
  then show ?thesis
    using n_chunks_length [OF assms(1)] lsf_nomask [of c]
    by (simp add: mono_bitset_find_start_def mono_bitset_find_first_def find_from_def read_chunk_def scan_up_nomask Let_def)
qed

lemma is_last_shift: "is_last S r \<Longrightarrow> r \<noteq> - 1 \<Longrightarrow> is_last ((\<lambda>p. p + n) ` S) (r + int n)"
  by (auto simp: is_last_def)

lemma is_last_right: "is_last B r \<Longrightarrow> r \<noteq> - 1 \<Longrightarrow> (\<And>a b. a \<in> A \<Longrightarrow> b \<in> B \<Longrightarrow> a \<le> b) \<Longrightarrow> is_last (A \<union> B) r"
  by (fastforce simp: is_last_def)

lemma is_last_none: "is_last S r \<Longrightarrow> r = - 1 \<longleftrightarrow> S = {}"
  by (auto simp: is_last_def)

lemma members_before:
  assumes "i < length cs" "b \<le> 64"
  shows "{p \<in> members bit cs. p < 64 * i + b} =
    {p \<in> members bit cs. p < 64 * i} \<union> (\<lambda>k. k + i * 64) ` {k. k < b \<and> bit (cs ! i) k}" (is "?L = ?A \<union> ?B")
proof (intro set_eqI iffI)
  fix p
  assume p: "p \<in> ?L"
  show "p \<in> ?A \<union> ?B"
  proof (cases "p < 64 * i")
    case False
    then have "p - 64 * i < b" "p = (p - 64 * i) + i * 64" "p - 64 * i < 64" using p assms(2) by auto
    then have "p div 64 = i" "p mod 64 = p - 64 * i" by (metis div_mult_self1 div_less add_cancel_right_right zero_neq_numeral, metis mod_mult_self1 mod_less)
    then show ?thesis using p \<open>p - 64 * i < b\<close> \<open>p = (p - 64 * i) + i * 64\<close> by (auto simp: members_def intro!: image_eqI [of _ _ "p - 64 * i"])
  qed (use p in simp)
qed (use assms in \<open>auto simp: members_def\<close>)

text \<open>One chunk of the search downwards: the result in the chunk, or else the result \<open>r'\<close> below it.\<close>

lemma chunk_down:
  assumes "i < length cs" "b \<le> 64" "r = (if cs ! i \<noteq> 0 then my_g_bit_nth_msf (cs ! i) b else - 1)"
    "is_last {p \<in> members bit cs. p < 64 * i} r'"
  shows "is_last {p \<in> members bit cs. p < 64 * i + b} (if r \<noteq> - 1 then r + int (i * 64) else r')"
proof -
  let ?B = "{k. k < b \<and> bit (cs ! i) k}"
  have r: "is_last ?B r" using msf_last [OF assms(2), of "cs ! i"] assms(3) by (cases "cs ! i = 0") auto
  note s = members_before [OF assms(1,2)]
  show ?thesis
  proof (cases "r = - 1")
    case True
    then have "?B = {}" using is_last_none [OF r] by blast
    then show ?thesis using True assms(4) unfolding s by (simp only: image_empty Un_empty_right) simp
  next
    case False
    then show ?thesis using is_last_shift [OF r False, of "i * 64"] r unfolding s
      by (simp only: if_True simp_thms) (intro is_last_right; auto simp: is_last_def)
  qed
qed

lemma scan_down_last:
  "i \<le> length (bs_data bs) \<Longrightarrow> \<exists>r. scan_down bs i = Inr r \<and> is_last {p \<in> members bit (bs_data bs). p < 64 * i} r"
proof (induction i)
  case (Suc i)
  then obtain r' where r': "scan_down bs i = Inr r'" "is_last {p \<in> members bit (bs_data bs). p < 64 * i} r'" by auto
  let ?c = "bs_data bs ! i"
  define r where "r = (if ?c \<noteq> 0 then my_g_bit_nth_msf ?c 64 else - 1)"
  have "?c \<noteq> 0 \<Longrightarrow> {k. k < 64 \<and> bit ?c k} \<noteq> {}" using nonzero_has_bit bit_less_64 by blast
  then have "?c \<noteq> 0 \<Longrightarrow> r \<noteq> - 1" using msf_last [of 64 ?c] is_last_none by (auto simp: r_def)
  then have "scan_down bs (Suc i) = Inr (if r \<noteq> - 1 then r + int (i * 64) else r')"
    using Suc.prems r'(1) by (auto simp: read_chunk_ok BITS_PER_CHUNK_def r_def)
  moreover have "is_last {p \<in> members bit (bs_data bs). p < 64 * Suc i} (if r \<noteq> - 1 then r + int (i * 64) else r')"
    using chunk_down [OF _ _ r_def r'(2)] Suc.prems by (simp add: add.commute)
  ultimately show ?case by blast
qed simp

lemma find_last_spec:
  assumes "bitset_ok bs" "pos < int (bs_size bs)"
  shows "\<exists>r. mono_bitset_find_last bs pos = Inr r \<and>
    is_last {p \<in> bits bs. int p < (if pos < 0 then int (bs_size bs) - 1 else pos)} r"
proof (cases "bs_size bs = 0")
  case True
  then have "bits bs = {}" using in_bits [OF assms(1)] by auto
  then show ?thesis using True assms(2) by (simp add: mono_bitset_find_last_def Let_def)
next
  case False
  define p0 where "p0 = nat (if pos < 0 then int (bs_size bs) - 1 else pos)"
  have p0: "p0 < bs_size bs" "int p0 = (if pos < 0 then int (bs_size bs) - 1 else pos)" using assms(2) False by (auto simp: p0_def)
  let ?j = "p0 div 64"
  have j: "?j < length (bs_data bs)" using chunk_index [OF assms(1) p0(1)] .
  obtain r' where r': "scan_down bs ?j = Inr r'" "is_last {p \<in> members bit (bs_data bs). p < 64 * ?j} r'"
    using scan_down_last [of ?j bs] j by auto
  define r where "r = (if bs_data bs ! ?j \<noteq> 0 then my_g_bit_nth_msf (bs_data bs ! ?j) (p0 mod 64) else - 1)"
  have "mono_bitset_find_last bs pos = Inr (if r \<noteq> - 1 then r + int (?j * 64) else r')"
    using p0 r'(1) j unfolding mono_bitset_find_last_def p0(2) [symmetric]
    by (simp add: read_chunk_ok r_def BITS_PER_CHUNK_def Let_def)
  moreover have "is_last {p \<in> bits bs. p < p0} (if r \<noteq> - 1 then r + int (?j * 64) else r')"
    using chunk_down [OF j _ r_def r'(2)] mult_div_mod_eq [of 64 p0] by (simp add: bits_def)
  ultimately show ?thesis unfolding p0(2) [symmetric] by auto
qed

section \<open>Creation, copying, comparison\<close>

lemma new_spec:
  assumes "zero_len \<le> 1" "0 < max_size \<or> zero_len = 0" "max_size < 2 ^ 32"
  shows "bitset_ok (mono_bitset_new zero_len max_size flags)" "bits (mono_bitset_new zero_len max_size flags) = {}"
    "max_size \<le> bs_size (mono_bitset_new zero_len max_size flags)"
    "alloc_bytes zero_len max_size = 16 + 8 * real_size max_size"
proof -
  let ?r = "real_size max_size"
  have "zero_len \<le> ?r" "?r < 2 ^ 32" "max_size \<le> 64 * ?r"
    using assms by (auto simp: real_size_def BITS_PER_CHUNK_def div_less_iff_less_mult less_eq_div_iff_mult_less_eq)
  then have m: "(?r + 2 ^ 32 - zero_len) mod 2 ^ 32 = ?r - zero_len"
    using mod_add_self2 [of "?r - zero_len" "2 ^ 32"] by simp
  then show a: "alloc_bytes zero_len max_size = 16 + 8 * ?r" using \<open>zero_len \<le> ?r\<close> by (simp add: alloc_bytes_def)
  show "bitset_ok (mono_bitset_new zero_len max_size flags)" "max_size \<le> bs_size (mono_bitset_new zero_len max_size flags)"
    using a \<open>max_size \<le> 64 * ?r\<close> by (simp_all add: mono_bitset_new_def bitset_ok_def BITS_PER_CHUNK_def)
  show "bits (mono_bitset_new zero_len max_size flags) = {}"
    by (auto simp: mono_bitset_new_def bits_def members_def div_less_iff_less_mult)
qed

lemma equal_loop_take:
  "n \<le> length cs \<Longrightarrow> n \<le> length ds \<Longrightarrow> equal_loop n cs ds = Inr (take n cs = take n ds)"
  by (induction n cs ds rule: equal_loop.induct) auto

lemma equal_iff:
  assumes "bitset_ok a" "bitset_ok b"
  shows "mono_bitset_equal a b = Inr (bs_size a = bs_size b \<and> bits a = bits b)"
proof (cases "bs_size a = bs_size b")
  case True
  then have l: "length (bs_data a) = length (bs_data b)" using assms by (simp add: bitset_ok_def)
  have "bs_data a = bs_data b" if "bits a = bits b"
  proof (rule nth_equalityI [OF l], rule bit_word_eqI)
    fix i k
    assume i: "i < length (bs_data a)" "k < LENGTH(64)"
    then have "i * 64 + k < bs_size a" "(i * 64 + k) div 64 = i" "(i * 64 + k) mod 64 = k" using assms(1) by (auto simp: bitset_ok_def)
    then show "bit (bs_data a ! i) k \<longleftrightarrow> bit (bs_data b ! i) k"
      using that in_bits [OF assms(1), of "i * 64 + k"] in_bits [OF assms(2), of "i * 64 + k"] True by simp
  qed
  then have "bs_data a = bs_data b \<longleftrightarrow> bits a = bits b" by (auto simp: bits_def)
  then show ?thesis
    using True l equal_loop_take [of "length (bs_data a)" "bs_data a" "bs_data b"] n_chunks_length [OF assms(1)]
    by (simp add: mono_bitset_equal_def)
qed (simp add: mono_bitset_equal_def)

lemma copy_spec:
  assumes "bitset_ok bs" "bs_size bs \<noteq> 0" "zero_len \<le> 1" "bs_size bs < 2 ^ 32"
  shows "\<exists>bs'. mono_bitset_clone zero_len bs 0 = Inr bs' \<and> bitset_ok bs' \<and> bs_size bs' = bs_size bs \<and> bits bs' = bits bs \<and>
    mono_bitset_free bs'"
proof -
  let ?n = "mono_bitset_new zero_len (bs_size bs) (bs_flags bs)"
  note n = new_spec(4) [OF assms(3) _ assms(4)]
  have "real_size (bs_size bs) = length (bs_data bs)"
    using assms(1) by (simp add: real_size_def BITS_PER_CHUNK_def bitset_ok_def)
  then have l: "length (bs_data ?n) = length (bs_data bs)" "bs_size ?n = bs_size bs"
    using n assms(1,2) by (simp_all add: mono_bitset_new_def BITS_PER_CHUNK_def bitset_ok_def)
  let ?r = "?n\<lparr>bs_flags := bs_flags bs AND NOT MONO_BITSET_DONT_FREE, bs_data := bs_data bs\<rparr>"
  have "mono_bitset_clone zero_len bs 0 = Inr ?r"
    using l n_chunks_length [OF assms(1)]
    by (simp add: mono_bitset_clone_def copy_chunks_def Let_def) (simp add: mono_bitset_new_def)
  moreover have "bitset_ok ?r" "bits ?r = bits bs" using assms(1) l by (simp_all add: bitset_ok_def bits_def)
  moreover have "mono_bitset_free ?r" by (simp add: mono_bitset_free_def and.assoc)
  ultimately show ?thesis using l(2) by auto
qed

section \<open>Properties\<close>

text \<open>A set of 128 bits with the bits 3, 64 and 127, and a set of 64 bits.\<close>

definition bs_a :: MonoBitSet where
  "bs_a = \<lparr>bs_size = 128, bs_flags = 0, bs_data = [8, 0x8000000000000001]\<rparr>"

definition bs_b :: MonoBitSet where
  "bs_b = \<lparr>bs_size = 64, bs_flags = 0, bs_data = [1]\<rparr>"

lemma bs_a_ok: "bitset_ok bs_a" "bs_size bs_a = 128" "bitset_ok bs_b" "bs_size bs_b = 64"
  by (simp_all add: bs_a_def bs_b_def bitset_ok_def)

text \<open>
  C34.  On sets of the same size, every operation computes the operation on sets of positions: setting
  and clearing a bit, clearing, setting and inverting all bits, union, intersection and difference;
  \<open>mono_bitset_test\<close> is membership and \<open>mono_bitset_equal\<close> is equality of the sets.
\<close>

theorem bitset_refines_set:
  assumes "bitset_ok dest" "bitset_ok src" "bs_size src = bs_size dest" "pos < bs_size dest"
  shows "becomes (mono_bitset_set dest pos) dest (insert pos (bits dest)) \<and>
    becomes (mono_bitset_clear dest pos) dest (bits dest - {pos}) \<and>
    becomes (mono_bitset_clear_all dest) dest {} \<and>
    becomes (mono_bitset_set_all dest) dest {..<bs_size dest} \<and>
    becomes (mono_bitset_invert dest) dest ({..<bs_size dest} - bits dest) \<and>
    becomes (mono_bitset_union dest src) dest (bits dest \<union> bits src) \<and>
    becomes (mono_bitset_intersection dest src) dest (bits dest \<inter> bits src) \<and>
    becomes (mono_bitset_sub dest src) dest (bits dest - bits src) \<and>
    mono_bitset_test dest q = Inr (q \<in> bits dest) \<and>
    mono_bitset_equal dest src = Inr (bits dest = bits src)"
  using set_becomes [OF assms(1,4)] clear_becomes [OF assms(1,4)] all_becomes [OF assms(1)]
    binary_becomes [OF assms(1-3)] test_bits [OF assms(1)] equal_iff [OF assms(1,2)] assms(3) by simp

theorem bitset_refines_set_witness: "becomes (mono_bitset_set bs_a 5) bs_a (insert 5 (bits bs_a))"
  using bitset_refines_set [OF bs_a_ok(1) bs_a_ok(1) refl, of 5] bs_a_ok(2) by simp

text \<open>
  C35.  The count by parallel addition in each chunk is the number of members, and
  \<open>mono_bitset_foreach\<close> calls its function exactly for the members, in increasing order.
\<close>

theorem mono_bitset_count_card:
  assumes "bitset_ok bs"
  shows "mono_bitset_count bs = Inr (of_nat (card (bits bs))) \<and> mono_bitset_foreach bs = Inr (sorted_list_of_set (bits bs))"
  using count_loop_card [of "bs_data bs" 0] foreach_loop_members [of 0 "bs_data bs"] n_chunks_length [OF assms]
  by (simp add: mono_bitset_count_def mono_bitset_foreach_def bits_def)

theorem mono_bitset_count_card_witness: "mono_bitset_count bs_a = Inr (of_nat (card (bits bs_a)))"
  using mono_bitset_count_card [OF bs_a_ok(1)] by blast

text \<open>
  The searches return the least set bit after a position, the least unset bit after it, and the
  greatest set bit before it, or \<open>-1\<close> when there is none; a negative position starts at the beginning
  for the first two.  For the search downwards a negative position means the last position, and the
  bit there is never found.  \<open>mono_bitset_find_start\<close> is the first search from a negative position.
\<close>

theorem mono_bitset_find_exact:
  assumes "bitset_ok bs" "0 < bs_size bs" "pos < int (bs_size bs)"
  shows "(\<exists>r. mono_bitset_find_first bs pos = Inr r \<and> is_first {p \<in> bits bs. int p > pos} r) \<and>
    (\<exists>r. mono_bitset_find_first_unset bs pos = Inr r \<and> is_first {p. p < bs_size bs \<and> p \<notin> bits bs \<and> int p > pos} r) \<and>
    (\<exists>r. mono_bitset_find_last bs pos = Inr r \<and>
      is_last {p \<in> bits bs. int p < (if pos < 0 then int (bs_size bs) - 1 else pos)} r) \<and>
    mono_bitset_find_start bs = mono_bitset_find_first bs (- 1)"
  using find_first_spec [OF assms] find_last_spec [OF assms(1,3)] find_start_is_find_first [OF assms(1,2)] by blast

theorem mono_bitset_find_exact_witness:
  "\<exists>r. mono_bitset_find_last bs_a (- 1) = Inr r \<and> is_last {p \<in> bits bs_a. int p < 127} r"
  using mono_bitset_find_exact [OF bs_a_ok(1), of "- 1"] bs_a_ok(2) by simp

text \<open>
  Where the sizes do not fit, the assertions do not help: a union or an intersection with a
  smaller set passes the assertion and reads past the end of that set, and a clone into a smaller
  size writes past the end of the new set.
\<close>

theorem bitset_sizes_unchecked:
  assumes "bitset_ok dest" "bitset_ok src" "bs_size src < bs_size dest" "0 < bs_size src" "bs_size src < 2 ^ 32"
  shows "mono_bitset_union dest src = Inl Out_of_bounds \<and> mono_bitset_intersection dest src = Inl Out_of_bounds \<and>
    mono_bitset_clone 0 dest (bs_size src) = Inl Out_of_bounds"
proof -
  have l: "length (bs_data src) < length (bs_data dest)" using assms(1-3) by (simp add: bitset_ok_def)
  have "chunk_loop (\<lambda>i c. bindr (read_chunk src i) (\<lambda>d. Inr (h c d))) 0 (length (bs_data dest)) (bs_data dest) = Inl Out_of_bounds" for h
    using l by (intro chunk_loop_fails [of "length (bs_data src)"]) (auto simp: read_chunk_def)
  moreover have "real_size (bs_size src) = length (bs_data src)"
    using assms(2) by (simp add: real_size_def BITS_PER_CHUNK_def bitset_ok_def)
  then have "length (bs_data (mono_bitset_new 0 (bs_size src) fl)) = length (bs_data src)" for fl
    using new_spec(4) [of 0 "bs_size src"] assms(4,5) by (simp add: mono_bitset_new_def)
  ultimately show ?thesis
    using l assms(3,4) n_chunks_length [OF assms(1)]
    by (simp add: mono_bitset_union_def mono_bitset_intersection_def update_chunks_def mono_bitset_clone_def copy_chunks_def Let_def)
qed

theorem bitset_sizes_unchecked_witness: "mono_bitset_union bs_a bs_b = Inl Out_of_bounds"
  using bitset_sizes_unchecked [OF bs_a_ok(1,3)] bs_a_ok(2,4) by simp

end
