(* ===== verification/Hazard_Pointers.thy ===== *)
theory Hazard_Pointers
  imports Eg_Arrays
begin

text \<open>
  The reclamation of retired memory: small thread ids, the table of hazard pointers and the list of
  delayed frees of \<open>mono/metadata/threads.c\<close>, with their client in \<open>mono/metadata/domain.c\<close>
  (\<open>get_hazardous_pointer\<close>, the replacement of an index table, the removal of an entry and
  \<open>jit_info_table_free\<close>).  Threads interleave after every access to shared memory: \<open>exec\<close> is the
  next access of one thread, \<open>perform\<close> also starts calls.  A thread that has a small id is named
  by it.  Each thread has a store buffer for its hazard pointers: with \<open>tso\<close> set, a store stays
  there until it is drained, as on x86-64, where the write barrier of \<open>mono-membar.h\<close> does not
  drain it; with \<open>tso\<close> unset stores are visible at once.  The chunks and tombstones that
  \<open>jit_info_table_free\<close> gives back with a table count as part of the table's storage.
\<close>

section \<open>Pointers and small ids\<close>

text \<open>What the hazard pointers of the runtime point to: index tables and \<open>MonoJitInfo\<close> blocks.\<close>

datatype ptr = NULL | Table nat | Info nat

type_synonym MonoThreadHazardPointers = "ptr \<times> ptr"

definition slot :: "MonoThreadHazardPointers \<Rightarrow> nat \<Rightarrow> ptr" where
  "slot hp k = (if k = 0 then fst hp else snd hp)"

definition set_slot :: "MonoThreadHazardPointers \<Rightarrow> nat \<Rightarrow> ptr \<Rightarrow> MonoThreadHazardPointers" where
  "set_slot hp k p = (if k = 0 then (p, snd hp) else (fst hp, p))"

text \<open>
  \<open>small_id_table\<close> has the thread of each id, 0 where the id is free; it is empty before the first
  allocation.  \<open>hazard_table\<close> is the accessible part of the reserved area, whose fresh pages are
  zero; its length is \<open>hazard_table_size\<close>.
\<close>

record SmallIds =
  small_id_table :: "addr list"
  small_id_next :: nat
  highest_small_id :: int
  hazard_table :: "MonoThreadHazardPointers list"
  pagesize :: nat

abbreviation small_id_table_size :: "SmallIds \<Rightarrow> nat" where
  "small_id_table_size s \<equiv> length (small_id_table s)"

abbreviation hazard_table_size :: "SmallIds \<Rightarrow> nat" where
  "hazard_table_size s \<equiv> length (hazard_table s)"

definition HAZARD_TABLE_MAX_SIZE :: nat where
  "HAZARD_TABLE_MAX_SIZE = 16384"

definition sizeof_hazard :: nat where
  "sizeof_hazard = 16"

fun first_free :: "nat \<Rightarrow> addr list \<Rightarrow> nat option" where
  "first_free i [] = None"
| "first_free i (x # xs) = (if x = 0 then Some i else first_free (Suc i) xs)"

text \<open>The search from \<open>small_id_next\<close> on, then from the start.\<close>

definition small_id_search :: "SmallIds \<Rightarrow> nat option" where
  "small_id_search s =
    (case first_free (small_id_next s) (drop (small_id_next s) (small_id_table s)) of
       Some i \<Rightarrow> Some i
     | None \<Rightarrow> first_free 0 (take (small_id_next s) (small_id_table s)))"

definition small_id_grow :: "SmallIds \<Rightarrow> (nat \<times> SmallIds) res" where
  "small_id_grow s =
    (let new_size = small_id_table_size s * 2 in
     guardr (new_size < 2 ^ 16) Assert_failed
       (Inr (small_id_table_size s,
             s\<lparr>small_id_table := small_id_table s @ replicate (new_size - small_id_table_size s) 0\<rparr>)))"

definition small_id_pick :: "SmallIds \<Rightarrow> (nat \<times> SmallIds) res" where
  "small_id_pick s = (case small_id_search s of Some i \<Rightarrow> Inr (i, s) | None \<Rightarrow> small_id_grow s)"

text \<open>
  One page more of the hazard table becomes accessible; the entry of the new id is cleared.
\<close>

definition hazard_table_grow :: "nat \<Rightarrow> SmallIds \<Rightarrow> SmallIds res" where
  "hazard_table_grow i s =
    (if i \<ge> hazard_table_size s then
       let num_pages = (hazard_table_size s * sizeof_hazard + pagesize s - 1) div pagesize s in
       guardr (i < HAZARD_TABLE_MAX_SIZE) Assert_failed
         (let new_size = (num_pages + 1) * pagesize s div sizeof_hazard;
              table = hazard_table s @ replicate (new_size - hazard_table_size s) (NULL, NULL)
          in guardr (i < new_size) Assert_failed
               (Inr (s\<lparr>hazard_table := table[i := (NULL, NULL)]\<rparr>)))
     else Inr s)"

definition small_id_alloc :: "addr \<Rightarrow> SmallIds \<Rightarrow> (nat \<times> SmallIds) res" where
  "small_id_alloc thr s =
    (let s = (if small_id_table s = [] then s\<lparr>small_id_table := [0, 0]\<rparr> else s) in
     bindr (small_id_pick s) (\<lambda>(i, s).
     guardr (small_id_table s ! i = 0) Assert_failed
       (let next = small_id_next s + 1;
            s = s\<lparr>small_id_table := (small_id_table s)[i := thr],
                  small_id_next := (if next > small_id_table_size s then 0 else next)\<rparr>
        in bindr (hazard_table_grow i s) (\<lambda>s.
             Inr (i, if int i > highest_small_id s then s\<lparr>highest_small_id := int i\<rparr> else s)))))"

definition small_id_free :: "nat \<Rightarrow> SmallIds \<Rightarrow> SmallIds res" where
  "small_id_free i s =
    guardr (i < small_id_table_size s) Assert_failed
      (guardr (small_id_table s ! i \<noteq> 0) Assert_failed
        (Inr (s\<lparr>small_id_table := (small_id_table s)[i := 0]\<rparr>)))"

definition no_ids :: "nat \<Rightarrow> SmallIds" where
  "no_ids page = \<lparr>small_id_table = [], small_id_next = 0, highest_small_id = -1, hazard_table = [], pagesize = page\<rparr>"

section \<open>The shared state\<close>

text \<open>
  The shared cells that are read under a hazard pointer: \<open>domain->jit_info_table\<close> and the entries of
  the chunks, numbered over all chunks.
\<close>

datatype cell = Table_cell | Data nat

datatype free_func = G_free | Jit_info_table_free

type_synonym DelayedFreeItem = "ptr \<times> free_func"

text \<open>Where the storage of a block is: unused (or given back), in use, or handed to the reclamation.\<close>

datatype storage = Unused | Live | Retired

text \<open>
  Where a thread is inside \<open>get_hazardous_pointer\<close> (\<open>Load\<close>, \<open>Publish\<close>, \<open>Check\<close>), inside
  \<open>try_free_delayed_free_item\<close> (\<open>Wait_item\<close> to \<open>Scan_item\<close>) or inside
  \<open>mono_thread_hazardous_free_or_queue\<close> (\<open>Scan_ptr\<close>, \<open>Append\<close>).  A scan has read the hazard pointers
  before \<open>j\<close> (two for each id) and stops after the ids up to \<open>hi\<close>.
\<close>

datatype activity =
    Idle
  | Load nat cell
  | Publish nat cell ptr
  | Check nat cell ptr
  | Wait_item nat
  | Locked_item nat
  | Scan_item nat ptr free_func nat int
  | Scan_ptr ptr free_func nat int
  | Append ptr free_func
  | Call_free ptr free_func

text \<open>The calls a thread still has to make.\<close>

datatype job = Try_item nat | Free_or_queue ptr free_func | Unlock_domain

text \<open>
  \<open>held t k\<close> is the pointer that \<open>get_hazardous_pointer\<close> has returned to thread \<open>t\<close> for index \<open>k\<close> and
  that the thread has not given up.  The last two fields only record what happened: whether an
  entry went to the queue of the domain, and whether the fast removal was applied to the delayed
  list before its last two items.
\<close>

record hstate =
  cells :: "cell \<Rightarrow> ptr"
  ids :: SmallIds
  act :: "nat \<Rightarrow> activity"
  work :: "nat \<Rightarrow> job list"
  held :: "nat \<Rightarrow> nat \<Rightarrow> ptr"
  delayed :: "DelayedFreeItem GArrayPriv"
  delayed_lock :: "nat option"
  domain_lock :: "nat option"
  storage :: "ptr \<Rightarrow> storage"
  num_tables :: int
  free_queue :: "ptr list"
  store_buffer :: "nat \<Rightarrow> (nat \<times> ptr) list"
  tso :: bool
  crashed :: "fault option"
  queue_used :: bool
  middle_removed :: bool

definition hazard :: "hstate \<Rightarrow> nat \<Rightarrow> nat \<Rightarrow> ptr" where
  "hazard s t k = slot (hazard_table (ids s) ! t) k"

definition write_hazard :: "nat \<Rightarrow> nat \<Rightarrow> ptr \<Rightarrow> SmallIds \<Rightarrow> SmallIds" where
  "write_hazard t k p i = i\<lparr>hazard_table := (hazard_table i)[t := set_slot (hazard_table i ! t) k p]\<rparr>"

definition mono_hazard_pointer_set :: "nat \<Rightarrow> nat \<Rightarrow> ptr \<Rightarrow> hstate \<Rightarrow> hstate" where
  "mono_hazard_pointer_set t k p s =
    (if tso s then s\<lparr>store_buffer := (store_buffer s)(t := store_buffer s t @ [(k, p)])\<rparr>
     else s\<lparr>ids := write_hazard t k p (ids s)\<rparr>)"

definition mono_hazard_pointer_clear :: "nat \<Rightarrow> nat \<Rightarrow> hstate \<Rightarrow> hstate" where
  "mono_hazard_pointer_clear t k s = mono_hazard_pointer_set t k NULL s"

definition goto :: "nat \<Rightarrow> activity \<Rightarrow> hstate \<Rightarrow> hstate" where
  "goto t a s = s\<lparr>act := (act s)(t := a)\<rparr>"

definition crash :: "fault \<Rightarrow> hstate \<Rightarrow> hstate" where
  "crash e s = s\<lparr>crashed := Some e\<rparr>"

section \<open>The steps of one thread\<close>

subsection \<open>Acquiring a hazard pointer\<close>

fun get_hazardous_pointer :: "nat \<Rightarrow> activity \<Rightarrow> hstate \<Rightarrow> hstate option" where
  "get_hazardous_pointer t (Load k c) s = Some (goto t (Publish k c (cells s c)) s)"
| "get_hazardous_pointer t (Publish k c p) s = Some (goto t (Check k c p) (mono_hazard_pointer_set t k p s))"
| "get_hazardous_pointer t (Check k c p) s =
    Some (if cells s c \<noteq> p then goto t (Load k c) (mono_hazard_pointer_clear t k s)
          else goto t Idle (s\<lparr>held := (held s)(t := (held s t)(k := p))\<rparr>))"
| "get_hazardous_pointer t _ s = None"

subsection \<open>Freeing\<close>

text \<open>
  One read of \<open>is_pointer_hazardous\<close>: \<open>None\<close> when the loop is over and nothing was found, otherwise
  whether the next hazard pointer is \<open>p\<close>.
\<close>

definition is_pointer_hazardous :: "ptr \<Rightarrow> nat \<Rightarrow> int \<Rightarrow> hstate \<Rightarrow> bool option" where
  "is_pointer_hazardous p j hi s =
    (if int (j div 2) > hi then None else Some (hazard s (j div 2) (j mod 2) = p))"

definition highest_in_table :: "hstate \<Rightarrow> bool" where
  "highest_in_table s \<longleftrightarrow> highest_small_id (ids s) < int (hazard_table_size (ids s))"

definition null_item :: DelayedFreeItem where
  "null_item = (NULL, G_free)"

definition unlock_delayed :: "hstate \<Rightarrow> hstate" where
  "unlock_delayed s = s\<lparr>delayed_lock := None\<rparr>"

fun try_free_delayed_free_item :: "nat \<Rightarrow> activity \<Rightarrow> hstate \<Rightarrow> hstate option" where
  "try_free_delayed_free_item t (Wait_item i) s =
    (if delayed_lock s = None then Some (goto t (Locked_item i) (s\<lparr>delayed_lock := Some t\<rparr>)) else None)"
| "try_free_delayed_free_item t (Locked_item i) s =
    Some (if array_len (delayed s) > i then
        (case array_data (delayed s) ! i of
           None \<Rightarrow> crash Out_of_bounds s
         | Some (p, f) \<Rightarrow>
             if highest_in_table s then goto t (Scan_item i p f 0 (highest_small_id (ids s))) s
             else crash Assert_failed s)
      else goto t Idle (unlock_delayed s))"
| "try_free_delayed_free_item t (Scan_item i p f j hi) s =
    Some (case is_pointer_hazardous p j hi s of
        None \<Rightarrow>
          (case g_array_remove_index_fast null_item (delayed s) i of
             Inl e \<Rightarrow> crash e s
           | Inr d \<Rightarrow> unlock_delayed
               (goto t (if p = NULL then Idle else Call_free p f)
                 (s\<lparr>delayed := d, middle_removed := (middle_removed s \<or> i + 2 < array_len (delayed s))\<rparr>)))
      | Some False \<Rightarrow> goto t (Scan_item i p f (Suc j) hi) s
      | Some True \<Rightarrow> goto t Idle (unlock_delayed s))"
| "try_free_delayed_free_item t _ s = None"

text \<open>
  \<open>jit_info_table_free\<close> runs under the domain lock, which its caller may hold already.  When it
  leaves one table, it frees the queue of the domain without looking at the hazard pointers.
\<close>

definition jit_info_table_free :: "nat \<Rightarrow> ptr \<Rightarrow> hstate \<Rightarrow> hstate option" where
  "jit_info_table_free t p s =
    (if domain_lock s = None \<or> domain_lock s = Some t then
       let s = s\<lparr>num_tables := num_tables s - 1\<rparr>;
           s = (if num_tables s \<le> 1
                then s\<lparr>storage := (\<lambda>q. if q \<in> set (free_queue s) then Unused else storage s q), free_queue := []\<rparr>
                else s)
       in Some (goto t Idle (s\<lparr>storage := (storage s)(p := Unused)\<rparr>))
     else None)"

fun call_free_func :: "nat \<Rightarrow> ptr \<Rightarrow> free_func \<Rightarrow> hstate \<Rightarrow> hstate option" where
  "call_free_func t p G_free s = Some (goto t Idle (s\<lparr>storage := (storage s)(p := Unused)\<rparr>))"
| "call_free_func t p Jit_info_table_free s = jit_info_table_free t p s"

fun free_or_queue :: "nat \<Rightarrow> activity \<Rightarrow> hstate \<Rightarrow> hstate option" where
  "free_or_queue t (Scan_ptr p f j hi) s =
    Some (case is_pointer_hazardous p j hi s of
        None \<Rightarrow> goto t (Call_free p f) s
      | Some False \<Rightarrow> goto t (Scan_ptr p f (Suc j) hi) s
      | Some True \<Rightarrow> goto t (Append p f) s)"
| "free_or_queue t (Append p f) s =
    (if delayed_lock s = None then
       Some (case g_array_append_vals null_item (delayed s) [(p, f)] of
           Inl e \<Rightarrow> crash e s
         | Inr d \<Rightarrow> goto t Idle (s\<lparr>delayed := d\<rparr>))
     else None)"
| "free_or_queue t (Call_free p f) s = call_free_func t p f s"
| "free_or_queue t _ s = None"

text \<open>An idle thread starts its next call.\<close>

fun next_job :: "nat \<Rightarrow> job list \<Rightarrow> hstate \<Rightarrow> hstate option" where
  "next_job t [] s = None"
| "next_job t (Try_item i # ws) s =
    Some (goto t (if array_len (delayed s) > i then Wait_item i else Idle) (s\<lparr>work := (work s)(t := ws)\<rparr>))"
| "next_job t (Free_or_queue p f # ws) s =
    Some (if highest_in_table s
      then goto t (Scan_ptr p f 0 (highest_small_id (ids s))) (s\<lparr>work := (work s)(t := ws)\<rparr>)
      else crash Assert_failed s)"
| "next_job t (Unlock_domain # ws) s = Some (s\<lparr>domain_lock := None, work := (work s)(t := ws)\<rparr>)"

definition exec :: "nat \<Rightarrow> hstate \<Rightarrow> hstate option" where
  "exec t s = (case act s t of
      Idle \<Rightarrow> next_job t (work s t) s
    | Load k c \<Rightarrow> get_hazardous_pointer t (Load k c) s
    | Publish k c p \<Rightarrow> get_hazardous_pointer t (Publish k c p) s
    | Check k c p \<Rightarrow> get_hazardous_pointer t (Check k c p) s
    | Wait_item i \<Rightarrow> try_free_delayed_free_item t (Wait_item i) s
    | Locked_item i \<Rightarrow> try_free_delayed_free_item t (Locked_item i) s
    | Scan_item i p f j hi \<Rightarrow> try_free_delayed_free_item t (Scan_item i p f j hi) s
    | a \<Rightarrow> free_or_queue t a s)"

section \<open>Calls\<close>

text \<open>\<open>mono_thread_hazardous_free_or_queue\<close> and \<open>mono_thread_hazardous_try_free_all\<close> as the calls they make.\<close>

definition mono_thread_hazardous_free_or_queue :: "ptr \<Rightarrow> free_func \<Rightarrow> job list" where
  "mono_thread_hazardous_free_or_queue p f = [Try_item 2, Try_item 1, Try_item 0, Free_or_queue p f]"

definition mono_thread_hazardous_try_free_all :: "hstate \<Rightarrow> job list" where
  "mono_thread_hazardous_try_free_all s = map Try_item (rev [0..<array_len (delayed s)])"

definition ready :: "nat \<Rightarrow> hstate \<Rightarrow> bool" where
  "ready t s \<longleftrightarrow> act s t = Idle \<and> work s t = []"

definition attached :: "nat \<Rightarrow> hstate \<Rightarrow> bool" where
  "attached t s \<longleftrightarrow> t < small_id_table_size (ids s) \<and> small_id_table (ids s) ! t \<noteq> 0"

text \<open>
  The part of \<open>mono_jit_info_table_add\<close> that replaces a full table: the new table is published, the
  old one handed to the reclamation, all under the domain lock.
\<close>

definition replace_table :: "nat \<Rightarrow> nat \<Rightarrow> hstate \<Rightarrow> hstate option" where
  "replace_table t n s =
    (if ready t s \<and> domain_lock s = None \<and> storage s (Table n) = Unused then
       Some (s\<lparr>cells := (cells s)(Table_cell := Table n),
               storage := (storage s)(Table n := Live, cells s Table_cell := Retired),
               num_tables := num_tables s + 1, domain_lock := Some t,
               work := (work s)(t := mono_thread_hazardous_free_or_queue (cells s Table_cell) Jit_info_table_free @ [Unlock_domain])\<rparr>)
     else None)"

text \<open>A write of a live entry (or a new one) into a cell of a chunk, under the domain lock.\<close>

definition write_entry :: "nat \<Rightarrow> nat \<Rightarrow> nat \<Rightarrow> hstate \<Rightarrow> hstate option" where
  "write_entry t n j s =
    (if ready t s \<and> domain_lock s = None \<and> storage s (Info j) \<noteq> Retired then
       Some (s\<lparr>cells := (cells s)(Data n := Info j), storage := (storage s)(Info j := Live)\<rparr>)
     else None)"

text \<open>
  \<open>mono_jit_info_free_or_queue\<close>.  With one table, no other cell has the entry; with more tables
  the old ones may still have it.
\<close>

definition mono_jit_info_free_or_queue_step :: "nat \<Rightarrow> ptr \<Rightarrow> hstate \<Rightarrow> hstate" where
  "mono_jit_info_free_or_queue_step t p s =
    (if num_tables s \<le> 1
     then s\<lparr>work := (work s)(t := mono_thread_hazardous_free_or_queue p G_free @ [Unlock_domain]), domain_lock := Some t\<rparr>
     else s\<lparr>free_queue := p # free_queue s, queue_used := True\<rparr>)"

text \<open>The end of \<open>mono_jit_info_table_remove\<close>: cell \<open>n\<close>, which has the entry, gets the tombstone \<open>b\<close>.\<close>

definition remove_entry :: "nat \<Rightarrow> nat \<Rightarrow> nat \<Rightarrow> hstate \<Rightarrow> hstate option" where
  "remove_entry t n b s =
    (let p = cells s (Data n) in
     if ready t s \<and> domain_lock s = None \<and> storage s (Info b) = Unused \<and> p \<noteq> NULL \<and> storage s p = Live
     then Some (mono_jit_info_free_or_queue_step t p
       (s\<lparr>cells := (cells s)(Data n := Info b), storage := (storage s)(Info b := Live, p := Retired)\<rparr>))
     else None)"

text \<open>
  A lookup acquires the table at index 0 and entries at index 1; each call gives up what the
  index held.  An entry is read only while the table is held.
\<close>

definition acquire :: "nat \<Rightarrow> nat \<Rightarrow> cell \<Rightarrow> hstate \<Rightarrow> hstate option" where
  "acquire t k c s =
    (if ready t s \<and> attached t s \<and> (k = 0 \<and> c = Table_cell \<or> k = 1 \<and> c \<noteq> Table_cell \<and> held s t 0 \<noteq> NULL)
     then Some (goto t (Load k c) (s\<lparr>held := (held s)(t := (held s t)(k := NULL))\<rparr>))
     else None)"

definition release :: "nat \<Rightarrow> nat \<Rightarrow> hstate \<Rightarrow> hstate option" where
  "release t k s =
    (if ready t s \<and> attached t s \<and> k < 2
     then Some (mono_hazard_pointer_clear t k (s\<lparr>held := (held s)(t := (held s t)(k := NULL))\<rparr>))
     else None)"

definition attach :: "addr \<Rightarrow> hstate \<Rightarrow> hstate option" where
  "attach thr s = (if thr = 0 then None else
    Some (case small_id_alloc thr (ids s) of Inl e \<Rightarrow> crash e s | Inr (i, d) \<Rightarrow> s\<lparr>ids := d\<rparr>))"

definition detach :: "nat \<Rightarrow> hstate \<Rightarrow> hstate option" where
  "detach t s =
    (if ready t s \<and> held s t 0 = NULL \<and> held s t 1 = NULL then
       Some (case small_id_free t (ids s) of Inl e \<Rightarrow> crash e s | Inr d \<Rightarrow> s\<lparr>ids := d\<rparr>)
     else None)"

definition try_free_all :: "nat \<Rightarrow> hstate \<Rightarrow> hstate option" where
  "try_free_all t s =
    (if ready t s then Some (s\<lparr>work := (work s)(t := mono_thread_hazardous_try_free_all s)\<rparr>) else None)"

text \<open>The oldest store of a buffer reaches memory.\<close>

definition drain :: "nat \<Rightarrow> hstate \<Rightarrow> hstate option" where
  "drain t s = (case store_buffer s t of [] \<Rightarrow> None
     | (k, p) # b \<Rightarrow> Some (s\<lparr>ids := write_hazard t k p (ids s), store_buffer := (store_buffer s)(t := b)\<rparr>))"

section \<open>Runs\<close>

text \<open>One step of the system, as a command that can be executed.\<close>

datatype command =
    Exec nat
  | Drain nat
  | Acquire nat nat cell
  | Release nat nat
  | Replace_table nat nat
  | Write_entry nat nat nat
  | Remove_entry nat nat nat
  | Try_free_all nat
  | Attach addr
  | Detach nat

fun dispatch :: "command \<Rightarrow> hstate \<Rightarrow> hstate option" where
  "dispatch (Exec t) s = exec t s"
| "dispatch (Drain t) s = drain t s"
| "dispatch (Acquire t k c) s = acquire t k c s"
| "dispatch (Release t k) s = release t k s"
| "dispatch (Replace_table t n) s = replace_table t n s"
| "dispatch (Write_entry t n j) s = write_entry t n j s"
| "dispatch (Remove_entry t n b) s = remove_entry t n b s"
| "dispatch (Try_free_all t) s = try_free_all t s"
| "dispatch (Attach thr) s = attach thr s"
| "dispatch (Detach t) s = detach t s"

definition perform :: "command \<Rightarrow> hstate \<Rightarrow> hstate option" where
  "perform c s = (if crashed s = None then dispatch c s else None)"

fun perform_all :: "command list \<Rightarrow> hstate \<Rightarrow> hstate option" where
  "perform_all [] s = Some s"
| "perform_all (c # cs) s = Option.bind (perform c s) (perform_all cs)"

text \<open>
  What the index of addresses guarantees at a removal: while there is one table, an entry is in
  one cell (the invariant of the index in \<open>Jit_Info_Table_Spec\<close>).
\<close>

definition single_place :: "command \<Rightarrow> hstate \<Rightarrow> bool" where
  "single_place c s \<longleftrightarrow> (case c of
      Remove_entry t n b \<Rightarrow> num_tables s \<le> 1 \<longrightarrow> (\<forall>m. m \<noteq> n \<longrightarrow> cells s (Data m) \<noteq> cells s (Data n))
    | _ \<Rightarrow> True)"

text \<open>
  The start: one domain with table 0, no thread attached, an empty list of delayed frees as
  \<open>mono_thread_init\<close> makes it.
\<close>

definition start :: "bool \<Rightarrow> nat \<Rightarrow> hstate" where
  "start weak page =
    \<lparr>cells = (\<lambda>c. NULL)(Table_cell := Table 0), ids = no_ids page, act = (\<lambda>t. Idle), work = (\<lambda>t. []),
     held = (\<lambda>t k. NULL),
     delayed = \<lparr>array_data = replicate INITIAL_CAPACITY None, array_len = 0, clear_flag = False, element_size = 16, zero_terminated = False\<rparr>,
     delayed_lock = None, domain_lock = None, storage = (\<lambda>p. Unused)(Table 0 := Live), num_tables = 1,
     free_queue = [], store_buffer = (\<lambda>t. []), tso = weak, crashed = None, queue_used = False,
     middle_removed = False\<rparr>"

inductive reachable :: "hstate \<Rightarrow> hstate \<Rightarrow> bool" for s0 where
  initial: "reachable s0 s0"
| step: "reachable s0 s \<Longrightarrow> single_place c s \<Longrightarrow> perform c s = Some s' \<Longrightarrow> reachable s0 s'"

end
