(* ===== verification/Hazard_Proofs.thy ===== *)
theory Hazard_Proofs
  imports Hazard_Pointers Eg_Arrays_Spec
begin

text \<open>
  The invariants behind the reclamation: the small ids and the hazard table that covers them, and
  the agreement of the hazard pointers, the scans in progress and the blocks waiting to be freed.
\<close>

section \<open>Small ids\<close>

lemma first_free_Some:
  "first_free i xs = Some j \<Longrightarrow> i \<le> j \<and> j - i < length xs \<and> xs ! (j - i) = 0 \<and> (\<forall>m < j - i. xs ! m \<noteq> 0)"
proof (induction xs arbitrary: i)
  case (Cons x xs)
  show ?case
  proof (cases "x = 0")
    case False
    then have IH: "Suc i \<le> j \<and> j - Suc i < length xs \<and> xs ! (j - Suc i) = 0 \<and> (\<forall>m < j - Suc i. xs ! m \<noteq> 0)"
      using Cons by simp
    then have "j - i = Suc (j - Suc i)" by linarith
    then show ?thesis using IH False by (auto simp: nth_Cons split: nat.splits)
  qed (use Cons.prems in auto)
qed simp

lemma first_free_None: "first_free i xs = None \<longleftrightarrow> 0 \<notin> set xs"
  by (induction xs arbitrary: i) auto

definition in_use :: "SmallIds \<Rightarrow> nat \<Rightarrow> bool" where
  "in_use s i \<longleftrightarrow> i < small_id_table_size s \<and> small_id_table s ! i \<noteq> 0"

definition page_ok :: "nat \<Rightarrow> bool" where
  "page_ok p \<longleftrightarrow> 0 < p \<and> sizeof_hazard dvd p \<and> p dvd HAZARD_TABLE_MAX_SIZE * sizeof_hazard"

text \<open>
  The hazard table covers every id in use, and the place where the next search starts is at most
  its end.
\<close>

definition ids_ok :: "SmallIds \<Rightarrow> bool" where
  "ids_ok s \<longleftrightarrow> page_ok (pagesize s) \<and>
    (small_id_table s = [] \<or> (\<exists>k. 1 \<le> k \<and> k \<le> 14 \<and> small_id_table_size s = 2 ^ k)) \<and>
    small_id_next s \<le> small_id_table_size s \<and> small_id_next s \<le> hazard_table_size s \<and>
    (\<forall>i. in_use s i \<longrightarrow> i < hazard_table_size s \<and> int i \<le> highest_small_id s) \<and>
    pagesize s dvd hazard_table_size s * sizeof_hazard \<and> hazard_table_size s \<le> HAZARD_TABLE_MAX_SIZE \<and>
    -1 \<le> highest_small_id s \<and> highest_small_id s < int (hazard_table_size s)"

lemma ids_ok_no_ids: "page_ok p \<Longrightarrow> ids_ok (no_ids p)"
  by (simp add: ids_ok_def no_ids_def in_use_def)

text \<open>The search finds a free id next to the ids in use, or all ids are in use.\<close>

lemma small_id_search_Some:
  assumes "small_id_search s = Some i" "small_id_next s \<le> small_id_table_size s"
  shows "i < small_id_table_size s \<and> small_id_table s ! i = 0 \<and>
    (small_id_next s \<le> i \<and> (\<forall>m. small_id_next s \<le> m \<and> m < i \<longrightarrow> in_use s m) \<or>
     i < small_id_next s \<and> (\<forall>m. small_id_next s \<le> m \<and> m < small_id_table_size s \<longrightarrow> in_use s m))"
proof (cases "first_free (small_id_next s) (drop (small_id_next s) (small_id_table s))")
  case None
  then have u: "0 \<notin> set (drop (small_id_next s) (small_id_table s))" by (simp add: first_free_None)
  have "in_use s m" if "small_id_next s \<le> m" "m < small_id_table_size s" for m
  proof -
    have "small_id_table s ! m \<in> set (drop (small_id_next s) (small_id_table s))"
      using that by (auto simp: in_set_conv_nth intro!: exI [of _ "m - small_id_next s"])
    then show ?thesis using u that by (auto simp: in_use_def)
  qed
  moreover have "i < small_id_next s \<and> small_id_table s ! i = 0"
    using assms None first_free_Some [of 0 "take (small_id_next s) (small_id_table s)" i]
    by (auto simp: small_id_search_def)
  ultimately show ?thesis using assms(2) by auto
next
  case (Some j)
  then have j: "j = i" using assms(1) by (simp add: small_id_search_def)
  have f: "small_id_next s \<le> i" "i < small_id_table_size s" "small_id_table s ! i = 0"
    "\<forall>m < i - small_id_next s. small_id_table s ! (small_id_next s + m) \<noteq> 0"
    using first_free_Some [OF Some] j assms(2) by auto
  have "in_use s m" if "small_id_next s \<le> m" "m < i" for m
    using f(2,4) that by (auto simp: in_use_def dest: spec [of _ "m - small_id_next s"])
  then show ?thesis using f by auto
qed

lemma small_id_search_None:
  assumes "small_id_search s = None"
  shows "m < small_id_table_size s \<Longrightarrow> in_use s m"
proof -
  have "0 \<notin> set (small_id_table s)"
    using assms unfolding small_id_search_def
    by (metis Un_iff append_take_drop_id first_free_None option.case_eq_if option.distinct(1) option.collapse set_append)
  then show "m < small_id_table_size s \<Longrightarrow> in_use s m" by (auto simp: in_use_def in_set_conv_nth)
qed

lemma multiple_below:
  fixes a b p :: nat
  assumes "p dvd a" "p dvd b" "a < b"
  shows "a + p \<le> b"
proof -
  obtain x y where "a = p * x" "b = p * y" using assms by (auto elim!: dvdE)
  then have "x < y" using assms(3) by auto
  then have "p * Suc x \<le> p * y" by (intro mult_le_mono2) simp
  then show ?thesis using \<open>a = p * x\<close> \<open>b = p * y\<close> by simp
qed

text \<open>The new page: the hazard table grows when the id is its end.\<close>

lemma hazard_table_grow_spec:
  assumes "page_ok (pagesize s)" "pagesize s dvd hazard_table_size s * sizeof_hazard"
    "hazard_table_size s \<le> HAZARD_TABLE_MAX_SIZE" "i \<le> hazard_table_size s" "i < HAZARD_TABLE_MAX_SIZE"
  obtains t' where "hazard_table_grow i s = Inr (s\<lparr>hazard_table := t'\<rparr>)" "hazard_table_size s \<le> length t'"
    "i < length t'" "pagesize s dvd length t' * sizeof_hazard" "length t' \<le> HAZARD_TABLE_MAX_SIZE"
    "i = hazard_table_size s \<longrightarrow> t' \<noteq> [] \<and> hazard_table_size s < length t'"
    "\<forall>j < hazard_table_size s. t' ! j = hazard_table s ! j"
proof (cases "i < hazard_table_size s")
  case True
  then have "hazard_table_grow i s = Inr (s\<lparr>hazard_table := hazard_table s\<rparr>)" by (simp add: hazard_table_grow_def)
  then show ?thesis using that [of "hazard_table s"] True assms by auto
next
  case False
  then have i: "i = hazard_table_size s" using assms(4) by simp
  let ?p = "pagesize s" and ?h = "hazard_table_size s"
  have p: "0 < ?p" "16 dvd ?p" using assms(1) by (simp_all add: page_ok_def sizeof_hazard_def)
  have dv: "?p dvd ?h * 16" using assms(2) by (simp add: sizeof_hazard_def)
  have "(?h * 16 + ?p - 1) div ?p = ?h * 16 div ?p"
  proof -
    obtain x where x: "?h * 16 = ?p * x" using dv by (auto elim!: dvdE)
    have "?p * x + ?p - 1 = (?p - 1) + ?p * x" "(?p - 1) div ?p = 0" using p(1) by auto
    then show ?thesis using x p(1) by (metis add.right_neutral add_0 div_mult_self2 less_numeral_extra(3) nonzero_mult_div_cancel_left)
  qed
  then have n: "((?h * 16 + ?p - 1) div ?p + 1) * ?p = ?h * 16 + ?p" using dv by (simp add: distrib_right)
  then have new: "((?h * 16 + ?p - 1) div ?p + 1) * ?p div 16 = ?h + ?p div 16" using p(2) by (simp add: div_plus_div_distrib_dvd_right)
  have pos: "0 < ?p div 16" using p by (auto simp: div_greater_zero_iff dest: dvd_imp_le)
  let ?t = "(hazard_table s @ replicate (?p div 16) (NULL, NULL))[i := (NULL, NULL)]"
  have eq: "hazard_table_grow i s = Inr (s\<lparr>hazard_table := ?t\<rparr>)"
    using False i new pos assms(5) by (simp add: hazard_table_grow_def sizeof_hazard_def Let_def)
  have "?h * 16 < HAZARD_TABLE_MAX_SIZE * 16" using i assms(5) by simp
  then have "?h * 16 + ?p \<le> HAZARD_TABLE_MAX_SIZE * 16"
    using assms(1) dv by (intro multiple_below) (simp_all add: page_ok_def sizeof_hazard_def)
  moreover have len: "length ?t * 16 = ?h * 16 + ?p" using p(2) by (simp add: distrib_right)
  ultimately show ?thesis
    using that [OF eq] pos i dv by (simp add: sizeof_hazard_def nth_list_update nth_append)
qed

text \<open>
  The id that an allocation picks, and the table it picks it from: the id is free, at most the end
  of the hazard table, and it is the end where the next search would otherwise start after it.
\<close>

definition all_in_use :: "SmallIds \<Rightarrow> bool" where
  "all_in_use s \<longleftrightarrow> small_id_table_size s = HAZARD_TABLE_MAX_SIZE \<and> (\<forall>i < small_id_table_size s. in_use s i)"

lemma table_size_cases:
  "ids_ok s \<Longrightarrow> small_id_table s \<noteq> [] \<Longrightarrow> \<exists>k. 1 \<le> k \<and> k \<le> 14 \<and> small_id_table_size s = 2 ^ k"
  by (simp add: ids_ok_def)

lemma table_size_le: "ids_ok s \<Longrightarrow> small_id_table_size s \<le> HAZARD_TABLE_MAX_SIZE"
proof (cases "small_id_table s = []")
  case False
  assume "ids_ok s"
  then obtain k where "k \<le> 14" "small_id_table_size s = 2 ^ k" using table_size_cases False by blast
  then show ?thesis using power_increasing [of k 14 "2::nat"] by (simp add: HAZARD_TABLE_MAX_SIZE_def)
qed simp

lemma small_id_pick_spec:
  assumes ok: "ids_ok s" and ne: "small_id_table s \<noteq> []" and room: "\<not> all_in_use s"
  obtains i tab k where "small_id_pick s = Inr (i, s\<lparr>small_id_table := tab\<rparr>)" "length tab = 2 ^ k" "1 \<le> k" "k \<le> 14"
    "i < length tab" "tab ! i = 0" "small_id_table_size s \<le> length tab"
    "\<forall>j. in_use (s\<lparr>small_id_table := tab\<rparr>) j \<longleftrightarrow> in_use s j" "i \<le> hazard_table_size s"
    "small_id_next s + 1 > length tab \<or> small_id_next s + 1 \<le> hazard_table_size s \<or> i = hazard_table_size s"
proof -
  have nx: "small_id_next s \<le> small_id_table_size s" "small_id_next s \<le> hazard_table_size s"
    and us: "\<And>i. in_use s i \<Longrightarrow> i < hazard_table_size s" using ok by (simp_all add: ids_ok_def)
  obtain k where k: "1 \<le> k" "k \<le> 14" "small_id_table_size s = 2 ^ k" using table_size_cases [OF ok ne] by blast
  show ?thesis
  proof (cases "small_id_search s")
    case (Some i)
    note f = small_id_search_Some [OF Some nx(1)]
    have "i \<le> hazard_table_size s \<and> (small_id_next s + 1 > small_id_table_size s \<or>
        small_id_next s + 1 \<le> hazard_table_size s \<or> i = hazard_table_size s)"
    proof (cases "small_id_next s \<le> i")
      case True
      have "i \<le> hazard_table_size s"
      proof (cases "i = small_id_next s")
        case False
        then have "in_use s (i - 1)" using f True by auto
        then show ?thesis using us [of "i - 1"] by simp
      qed (use nx in simp)
      then show ?thesis using True nx(2) by auto
    next
      case False
      then have "small_id_table_size s \<le> small_id_next s" if "small_id_next s = hazard_table_size s"
        using f us [of "small_id_next s"] that by (metis le_refl less_irrefl not_le)
      then show ?thesis using False nx by auto
    qed
    then show ?thesis
      using that [of i "small_id_table s" k] k f Some by (simp add: small_id_pick_def)
  next
    case None
    note u = small_id_search_None [OF None]
    have lt: "small_id_table_size s < HAZARD_TABLE_MAX_SIZE"
      using room u table_size_le [OF ok] by (auto simp: all_in_use_def)
    have k': "k < 14"
    proof (rule ccontr)
      assume "\<not> k < 14"
      then have "k = 14" using k(2) by simp
      then show False using lt k(3) by (simp add: HAZARD_TABLE_MAX_SIZE_def)
    qed
    have "small_id_table_size s * 2 < 2 ^ 16" using lt by (simp add: HAZARD_TABLE_MAX_SIZE_def)
    then have pick: "small_id_pick s = Inr (small_id_table_size s,
        s\<lparr>small_id_table := small_id_table s @ replicate (small_id_table_size s) 0\<rparr>)"
      using None by (simp add: small_id_pick_def small_id_grow_def Let_def)
    have "small_id_table_size s - 1 < hazard_table_size s" using us u ne by simp
    then have h: "small_id_table_size s \<le> hazard_table_size s" by simp
    moreover have "\<forall>j. in_use (s\<lparr>small_id_table := small_id_table s @ replicate (small_id_table_size s) 0\<rparr>) j \<longleftrightarrow> in_use s j"
      using ne by (auto simp: in_use_def nth_append)
    moreover have "small_id_next s + 1 \<le> hazard_table_size s \<or> small_id_table_size s = hazard_table_size s" using h nx by linarith
    ultimately show ?thesis
      using that [OF pick, of "Suc k"] k k' ne by (auto simp: nth_append)
  qed
qed

lemma fresh_table:
  assumes "ids_ok s" "small_id_table s = []"
  shows "ids_ok (s\<lparr>small_id_table := [0, 0]\<rparr>)" "in_use (s\<lparr>small_id_table := [0, 0]\<rparr>) i \<longleftrightarrow> in_use s i"
    "\<not> all_in_use (s\<lparr>small_id_table := [0, 0]\<rparr>)"
proof -
  have u: "\<not> in_use (s\<lparr>small_id_table := [0, 0]\<rparr>) i" for i by (auto simp: in_use_def nth_Cons split: nat.splits)
  show "in_use (s\<lparr>small_id_table := [0, 0]\<rparr>) i \<longleftrightarrow> in_use s i" using u assms(2) by (simp add: in_use_def)
  show "ids_ok (s\<lparr>small_id_table := [0, 0]\<rparr>)"
    using assms u unfolding ids_ok_def by (auto intro!: exI [of _ 1])
  show "\<not> all_in_use (s\<lparr>small_id_table := [0, 0]\<rparr>)" by (simp add: all_in_use_def HAZARD_TABLE_MAX_SIZE_def)
qed

text \<open>What an allocation may change in the hazard table and the highest id.\<close>

definition covers_more :: "SmallIds \<Rightarrow> SmallIds \<Rightarrow> bool" where
  "covers_more s s' \<longleftrightarrow> hazard_table_size s \<le> hazard_table_size s' \<and>
    (\<forall>j < hazard_table_size s. hazard_table s' ! j = hazard_table s ! j) \<and> highest_small_id s \<le> highest_small_id s'"

definition allocated :: "SmallIds \<Rightarrow> addr \<Rightarrow> nat \<Rightarrow> SmallIds \<Rightarrow> bool" where
  "allocated s thr i s' \<longleftrightarrow> ids_ok s' \<and> \<not> in_use s i \<and> (\<forall>j. in_use s' j \<longleftrightarrow> j = i \<or> in_use s j) \<and>
    small_id_table s' ! i = thr \<and> covers_more s s'"

lemma small_id_alloc_nonempty:
  assumes ok: "ids_ok s" and ne: "small_id_table s \<noteq> []" and room: "\<not> all_in_use s" and thr: "thr \<noteq> 0"
  shows "\<exists>i s'. small_id_alloc thr s = Inr (i, s') \<and> allocated s thr i s'"
proof -
  obtain i tab k where pick: "small_id_pick s = Inr (i, s\<lparr>small_id_table := tab\<rparr>)" and tab: "length tab = 2 ^ k" "1 \<le> k" "k \<le> 14"
    "i < length tab" "tab ! i = 0" "small_id_table_size s \<le> length tab"
    and same: "\<forall>j. in_use (s\<lparr>small_id_table := tab\<rparr>) j \<longleftrightarrow> in_use s j" and le: "i \<le> hazard_table_size s"
    and nx: "small_id_next s + 1 > length tab \<or> small_id_next s + 1 \<le> hazard_table_size s \<or> i = hazard_table_size s"
    using small_id_pick_spec [OF ok ne room] by metis
  define n where "n = (if small_id_next s + 1 > length tab then 0 else small_id_next s + 1)"
  define s2 where "s2 = s\<lparr>small_id_table := tab[i := thr], small_id_next := n\<rparr>"
  have i: "i < HAZARD_TABLE_MAX_SIZE"
    using tab power_increasing [of k 14 "2::nat"] by (simp add: HAZARD_TABLE_MAX_SIZE_def)
  have hz: "page_ok (pagesize s2)" "pagesize s2 dvd hazard_table_size s2 * sizeof_hazard"
      "hazard_table_size s2 \<le> HAZARD_TABLE_MAX_SIZE" "i \<le> hazard_table_size s2"
    using ok le by (simp_all add: ids_ok_def s2_def)
  obtain t' where g: "hazard_table_grow i s2 = Inr (s2\<lparr>hazard_table := t'\<rparr>)" "hazard_table_size s2 \<le> length t'"
    "i < length t'" "pagesize s2 dvd length t' * sizeof_hazard" "length t' \<le> HAZARD_TABLE_MAX_SIZE"
    "i = hazard_table_size s2 \<longrightarrow> t' \<noteq> [] \<and> hazard_table_size s2 < length t'"
    "\<forall>j < hazard_table_size s2. t' ! j = hazard_table s2 ! j"
    using hazard_table_grow_spec [OF hz i] by metis
  define s3 where "s3 = s2\<lparr>hazard_table := t', highest_small_id := max (int i) (highest_small_id s)\<rparr>"
  have "small_id_alloc thr s = bindr (hazard_table_grow i s2)
      (\<lambda>s. Inr (i, if int i > highest_small_id s then s\<lparr>highest_small_id := int i\<rparr> else s))"
    using ne pick tab(5) by (cases "small_id_next s + 1 > length tab") (simp_all add: small_id_alloc_def Let_def s2_def n_def)
  then have alloc: "small_id_alloc thr s = Inr (i, s3)"
    using g(1) by (auto simp: s3_def s2_def max_def)
  have use: "in_use s3 j \<longleftrightarrow> j = i \<or> in_use s j" for j
    using same thr tab(4) unfolding in_use_def s3_def s2_def by (auto simp: nth_list_update)
  have free: "\<not> in_use s i" using same tab(5) by (auto simp: in_use_def)
  have "small_id_next s \<le> hazard_table_size s" using ok by (simp add: ids_ok_def)
  then have nxt: "n \<le> length tab \<and> n \<le> length t'" using nx g(2,6) by (auto simp: n_def s2_def)
  have top: "highest_small_id s < int (hazard_table_size s)" "-1 \<le> highest_small_id s"
    and us: "\<And>j. in_use s j \<Longrightarrow> j < hazard_table_size s \<and> int j \<le> highest_small_id s" using ok by (simp_all add: ids_ok_def)
  have fields: "small_id_table_size s3 = length tab" "small_id_next s3 = n" "hazard_table s3 = t'" "pagesize s3 = pagesize s"
      "highest_small_id s3 = max (int i) (highest_small_id s)"
    by (simp_all add: s3_def s2_def)
  have "j < length t' \<and> int j \<le> max (int i) (highest_small_id s)" if "in_use s3 j" for j
    using use that us [of j] g(2,3) by (auto simp: s2_def)
  then have "ids_ok s3"
    unfolding ids_ok_def fields using tab g(2-5) hz nxt top by (auto simp: s2_def)
  moreover have "covers_more s s3"
    using g(2,7) unfolding covers_more_def fields by (auto simp: s2_def)
  moreover have "small_id_table s3 ! i = thr" using tab(4) by (simp add: s3_def s2_def)
  ultimately show ?thesis using alloc use free by (auto simp: allocated_def)
qed

text \<open>One allocation: it fails exactly when all 16384 ids are in use.\<close>

lemma small_id_alloc_ok:
  assumes ok: "ids_ok s" and room: "\<not> all_in_use s" and thr: "thr \<noteq> 0"
  shows "\<exists>i s'. small_id_alloc thr s = Inr (i, s') \<and> allocated s thr i s'"
proof (cases "small_id_table s = []")
  case False
  then show ?thesis using small_id_alloc_nonempty assms by blast
next
  case True
  let ?s = "s\<lparr>small_id_table := [0, 0]\<rparr>"
  have "small_id_alloc thr s = small_id_alloc thr ?s" using True by (simp add: small_id_alloc_def)
  then show ?thesis
    using small_id_alloc_nonempty [OF fresh_table(1) _ fresh_table(3) thr, OF ok True _ ok True] True fresh_table(2) [OF ok True]
    by (auto simp: allocated_def covers_more_def)
qed

lemma small_id_alloc_full:
  assumes ok: "ids_ok s" and full: "all_in_use s"
  shows "small_id_alloc thr s = Inl Assert_failed"
proof -
  have ne: "small_id_table s \<noteq> []" "small_id_table_size s = 16384" using full by (auto simp: all_in_use_def HAZARD_TABLE_MAX_SIZE_def)
  have n: "small_id_search s = None"
    using full small_id_search_Some [of s] ok by (auto simp: ids_ok_def in_use_def all_in_use_def) (metis not_None_eq)
  have "hazard_table_size s \<le> 16384" using ok by (simp add: ids_ok_def HAZARD_TABLE_MAX_SIZE_def)
  then show ?thesis
    using ne n by (simp add: small_id_alloc_def small_id_pick_def small_id_grow_def hazard_table_grow_def
        HAZARD_TABLE_MAX_SIZE_def Let_def nth_append)
qed

lemma small_id_free_spec:
  assumes "ids_ok s"
  shows "small_id_free i s = (if in_use s i then Inr (s\<lparr>small_id_table := (small_id_table s)[i := 0]\<rparr>) else Inl Assert_failed)"
  by (simp add: small_id_free_def in_use_def guardr_def)

lemma small_id_free_ok:
  assumes "ids_ok s" "in_use s i"
  shows "ids_ok (s\<lparr>small_id_table := (small_id_table s)[i := 0]\<rparr>)"
    "in_use (s\<lparr>small_id_table := (small_id_table s)[i := 0]\<rparr>) j \<longleftrightarrow> in_use s j \<and> j \<noteq> i"
proof -
  show u: "in_use (s\<lparr>small_id_table := (small_id_table s)[i := 0]\<rparr>) j \<longleftrightarrow> in_use s j \<and> j \<noteq> i" for j
    using assms(2) by (auto simp: in_use_def nth_list_update)
  show "ids_ok (s\<lparr>small_id_table := (small_id_table s)[i := 0]\<rparr>)"
    using assms(1) u unfolding ids_ok_def by auto
qed

end
