(* ===== verification/Hazard_Inv.thy ===== *)
theory Hazard_Inv
  imports Hazard_Proofs "HOL-Library.Multiset"
begin

section \<open>The list of delayed frees\<close>

text \<open>
  An append either fails or adds its item; the fast removal of the last or the last but one item
  removes just that item.
\<close>

definition list_ok :: "'a GArrayPriv \<Rightarrow> bool" where
  "list_ok a \<longleftrightarrow> array_ok a \<and> \<not> zero_terminated a"

lemma append_item:
  assumes "list_ok a" "g_array_append_vals z a [x] = Inr a'"
  shows "list_ok a' \<and> elements a' = elements a @ [x]"
proof -
  let ?c = "to_int (uadd (array_len a) 1)" and ?z = "element_size a"
  have a: "array_len a \<le> capacity a" "0 < ?z" "max (capacity a) 16 * ?z < 2 ^ 31" "\<not> zero_terminated a"
    "take (array_len a) (array_data a) = map Some (elements a)"
    using assms(1) take_elements [of a] by (auto simp: list_ok_def array_ok_def)
  have n: "array_len a < 2 ^ 31" using products_fit [OF a(2,3,1)] by simp
  then have u: "uadd (array_len a) 1 = array_len a + 1" "uadd (uadd (array_len a) 1) 0 = uadd (array_len a) 1" by simp_all
  obtain b where e: "ensure_capacity z a ?c = Inr b"
    and r: "bindr (element_offset b (array_len b)) (\<lambda>off. bindr (element_length b 1) (\<lambda>n.
      bindr (store_vals off (take n [x]) (array_data b)) (\<lambda>d.
      terminate_array z (b\<lparr>array_data := d, array_len := uadd (array_len b) 1\<rparr>)))) = Inr a'"
    using assms(2) a(4) u by (auto simp: g_array_append_vals_def)
  have b: "(\<exists>ext. b = a\<lparr>array_data := array_data a @ ext\<rparr>) \<and> max (capacity b) 16 * ?z < 2 ^ 31"
  proof (cases "b = a")
    case True
    then show ?thesis using a(3) by (intro conjI exI [of _ "[]"]) simp_all
  next
    case False
    let ?n = "capacity_loop (max (capacity a) INITIAL_CAPACITY) (nat ?c)"
    have "?n * ?z < 2 ^ 31" "b = a\<lparr>array_data := array_data a @ replicate (?n - capacity a) (if clear_flag a then Some z else None)\<rparr>"
      using e False by (auto simp: ensure_capacity_def Let_def split: if_splits)
    moreover have "max (capacity a + (?n - capacity a)) 16 = ?n"
      using capacity_loop_ge [of "max (capacity a) INITIAL_CAPACITY" "nat ?c"] by (simp add: INITIAL_CAPACITY_def)
    ultimately show ?thesis by (intro conjI exI) (assumption, simp)
  qed
  then have l: "array_len b = array_len a" "zero_terminated b = zero_terminated a" "element_size b = ?z" "capacity a \<le> capacity b"
    "take (array_len a) (array_data b) = map Some (elements a)"
    using a by auto
  have "1 * ?z \<le> max (capacity b) 16 * ?z" by (intro mult_le_mono1) simp
  then have "1 * ?z < 2 ^ 31" using b by linarith
  then have "1 * ?z < 2 ^ 32" by simp
  then have "element_length b 1 = Inr 1" using a(2) l(3) by (intro element_length_small) simp_all
  moreover have "element_offset b (array_len b) = Inr (array_len a)"
    using products_fit [of b "array_len a"] a l b by auto
  ultimately obtain d where st: "store_vals (array_len a) [x] (array_data b) = Inr d"
    and fin: "terminate_array z (b\<lparr>array_data := d, array_len := uadd (array_len b) 1\<rparr>) = Inr a'"
    using r by auto
  have d: "array_len a < capacity b" "d = take (array_len a) (array_data b) @ [Some x] @ drop (Suc (array_len a)) (array_data b)"
    using st by (auto simp: store_vals_def)
  then have a': "a' = b\<lparr>array_data := d, array_len := array_len a + 1\<rparr>"
    using fin a(4) l u by (simp add: terminate_array_def)
  have len: "length (elements a) = array_len a" using assms(1) elements_length by (auto simp: list_ok_def)
  then have "take (array_len a') (array_data a') = map Some (elements a @ [x])" using a' d l by simp
  moreover have "capacity a' = capacity b" "array_len a' = array_len a + 1" "element_size a' = ?z" "\<not> zero_terminated a'"
    using a' d l a(4) len by simp_all
  ultimately show ?thesis
    using array_okI [of a' "elements a @ [x]"] d(1) b a(2) by (simp add: list_ok_def)
qed

lemma remove_item:
  assumes "list_ok a" "g_array_remove_index_fast z a i = Inr a'" "i < array_len a" "array_len a \<le> i + 2"
  shows "list_ok a' \<and> mset (elements a') = mset (elements a) - {#elements a ! i#}"
proof -
  have ok: "array_ok a" "\<not> zero_terminated a" using assms(1) by (auto simp: list_ok_def)
  then have a: "array_len a \<le> capacity a" "0 < element_size a" "max (capacity a) 16 * element_size a < 2 ^ 31"
    by (auto simp: array_ok_def)
  have "2 * array_len a - 1 - i \<le> capacity a"
    using assms(2,3) by (auto simp: remove_fast_eq [OF ok assms(3)] memmove_def)
  from remove_fast_block [OF ok assms(3) this, of z] assms(2)
  have a': "a' = a\<lparr>array_data := take i (array_data a) @ take (array_len a - i) (drop (array_len a - 1) (array_data a)) @
      drop (array_len a) (array_data a), array_len := array_len a - 1\<rparr>" by simp
  have c': "element_size a' = element_size a" "capacity a' = capacity a" "\<not> zero_terminated a'" "array_len a' = array_len a - 1"
    using a' a(1) assms(3) ok(2) \<open>2 * array_len a - 1 - i \<le> capacity a\<close> by simp_all
  have okI: "list_ok a' \<and> elements a' = xs" if "take (array_len a') (array_data a') = map Some xs" for xs
    using array_okI [OF that] c' a by (simp add: list_ok_def)
  obtain rest where r: "array_data a = map Some (elements a) @ rest"
    using take_elements [OF ok(1)] by (metis append_take_drop_id)
  have len: "length (elements a) = array_len a" using elements_length [OF ok(1)] .
  have i: "i = array_len a - 1 \<or> i = array_len a - 2" using assms(3,4) by linarith
  show ?thesis
  proof (cases "i = array_len a - 1")
    case True
    then obtain xs y where e: "elements a = xs @ [y]" "length xs = i"
      using len assms(3) by (cases "elements a" rule: rev_cases) auto
    then have "array_len a = Suc i" using len by simp
    then have "list_ok a' \<and> elements a' = xs"
      using a' r e by (intro okI) simp
    then show ?thesis using e by (simp add: nth_append)
  next
    case False
    then have n: "array_len a = Suc (Suc i)" using i assms(3) by linarith
    obtain zs y where z: "elements a = zs @ [y]" "length zs = Suc i"
      using len n by (cases "elements a" rule: rev_cases) auto
    then obtain xs x where "zs = xs @ [x]" "length xs = i" by (cases zs rule: rev_cases) auto
    then have e: "elements a = xs @ [x, y]" "length xs = i" using z by auto
    have "list_ok a' \<and> elements a' = xs @ [y]"
      using a' r e n by (intro okI) simp
    then show ?thesis using e by (simp add: nth_append)
  qed
qed

section \<open>The invariant\<close>

text \<open>
  The pointers the protocol protects: index tables always, entries as long as none has gone to
  the queue of the domain.
\<close>

definition protected :: "hstate \<Rightarrow> ptr \<Rightarrow> bool" where
  "protected s p \<longleftrightarrow> p \<noteq> NULL \<and> ((\<exists>n. p = Table n) \<or> \<not> queue_used s)"

definition acquiring :: "hstate \<Rightarrow> nat \<Rightarrow> nat \<Rightarrow> bool" where
  "acquiring s t k \<longleftrightarrow> attached t s \<and> k < 2 \<and> held s t k = NULL"

definition hazards_published :: "hstate \<Rightarrow> bool" where
  "hazards_published s \<longleftrightarrow> \<not> tso s \<and> (\<forall>t. store_buffer s t = []) \<and> ids_ok (ids s) \<and>
    (\<forall>t k. held s t k \<noteq> NULL \<longrightarrow> attached t s \<and> k < 2 \<and> hazard s t k = held s t k)"

definition cells_live :: "hstate \<Rightarrow> bool" where
  "cells_live s \<longleftrightarrow> (\<exists>n. cells s Table_cell = Table n) \<and> (\<forall>m n. cells s (Data m) \<noteq> Table n) \<and>
    (\<forall>c. protected s (cells s c) \<longrightarrow> storage s (cells s c) = Live) \<and>
    (\<forall>q \<in> set (free_queue s). \<not> protected s q)"

fun holds_lock :: "activity \<Rightarrow> bool" where
  "holds_lock (Locked_item i) = True"
| "holds_lock (Scan_item i p f j hi) = True"
| "holds_lock _ = False"

definition list_locked :: "hstate \<Rightarrow> bool" where
  "list_locked s \<longleftrightarrow> list_ok (delayed s) \<and> (\<forall>t. delayed_lock s = Some t \<longleftrightarrow> holds_lock (act s t))"

definition waiting :: "hstate \<Rightarrow> ptr multiset" where
  "waiting s = image_mset fst (mset (elements (delayed s)))"

fun act_frees :: "activity \<Rightarrow> ptr multiset" where
  "act_frees (Scan_ptr p f j hi) = {#p#}"
| "act_frees (Append p f) = {#p#}"
| "act_frees (Call_free p f) = {#p#}"
| "act_frees _ = {#}"

fun job_frees :: "job \<Rightarrow> ptr multiset" where
  "job_frees (Free_or_queue p f) = {#p#}"
| "job_frees _ = {#}"

definition to_free :: "hstate \<Rightarrow> nat \<Rightarrow> ptr multiset" where
  "to_free s t = act_frees (act s t) + \<Sum>\<^sub># (mset (map job_frees (work s t)))"

text \<open>
  A retired block is in one place: once in the list, or once with one thread.  \<open>w\<close> counts it in the
  list, \<open>f\<close> in what the threads are about to free.
\<close>

definition owned :: "nat \<Rightarrow> (nat \<Rightarrow> nat) \<Rightarrow> storage \<Rightarrow> bool" where
  "owned w f st \<longleftrightarrow> w \<le> 1 \<and> (0 < w \<longrightarrow> st = Retired) \<and>
    (\<forall>t. f t \<le> 1 \<and> (0 < f t \<longrightarrow> st = Retired \<and> w = 0 \<and> (\<forall>t'. 0 < f t' \<longrightarrow> t' = t)))"

definition owned_once :: "hstate \<Rightarrow> bool" where
  "owned_once s \<longleftrightarrow> (\<forall>p. protected s p \<longrightarrow>
    owned (count (waiting s) p) (\<lambda>t. count (to_free s t) p) (storage s p))"

lemma owned_take: "owned w f st \<Longrightarrow> 0 < w \<Longrightarrow> owned (w - 1) (f(t := Suc (f t))) st"
  by (auto simp: owned_def)

lemma owned_put: "owned w f st \<Longrightarrow> 0 < f t \<Longrightarrow> owned (Suc w) (f(t := f t - 1)) st"
  by (auto simp: owned_def)

lemma owned_drop: "owned w f st \<Longrightarrow> 0 < f t \<Longrightarrow> owned w (f(t := f t - 1)) st'"
  by (auto simp: owned_def)

lemma owned_retire: "owned w f st \<Longrightarrow> st \<noteq> Retired \<Longrightarrow> owned w (f(t := Suc (f t))) Retired"
  by (auto simp: owned_def)

lemma owned_idle: "owned w f st \<Longrightarrow> st \<noteq> Retired \<Longrightarrow> owned w f st'"
  by (auto simp: owned_def)

text \<open>A scan for \<open>p\<close> has not gone past a hazard pointer with \<open>p\<close>; after it, none is left.\<close>

definition not_passed :: "hstate \<Rightarrow> ptr \<Rightarrow> nat \<Rightarrow> int \<Rightarrow> bool" where
  "not_passed s p j hi \<longleftrightarrow> (\<forall>t k. held s t k = p \<longrightarrow> int t \<le> hi \<and> j \<le> 2 * t + k)"

fun act_ok :: "hstate \<Rightarrow> nat \<Rightarrow> activity \<Rightarrow> bool" where
  "act_ok s t (Load k c) \<longleftrightarrow> acquiring s t k"
| "act_ok s t (Publish k c p) \<longleftrightarrow> acquiring s t k"
| "act_ok s t (Check k c p) \<longleftrightarrow> acquiring s t k \<and> hazard s t k = p"
| "act_ok s t (Scan_item i p f j hi) \<longleftrightarrow> i < array_len (delayed s) \<and> elements (delayed s) ! i = (p, f) \<and>
    (protected s p \<longrightarrow> not_passed s p j hi)"
| "act_ok s t (Scan_ptr p f j hi) \<longleftrightarrow> (protected s p \<longrightarrow> not_passed s p j hi)"
| "act_ok s t (Call_free p f) \<longleftrightarrow> (protected s p \<longrightarrow> (\<forall>t k. held s t k \<noteq> p))"
| "act_ok s t _ \<longleftrightarrow> True"

definition acts_ok :: "hstate \<Rightarrow> bool" where
  "acts_ok s \<longleftrightarrow> (\<forall>t. act_ok s t (act s t))"

definition held_stored :: "hstate \<Rightarrow> bool" where
  "held_stored s \<longleftrightarrow> (\<forall>t k. protected s (held s t k) \<longrightarrow> storage s (held s t k) \<noteq> Unused)"

definition sound :: "hstate \<Rightarrow> bool" where
  "sound s \<longleftrightarrow> hazards_published s \<and> cells_live s \<and> list_locked s \<and> owned_once s \<and> acts_ok s \<and> held_stored s"

lemmas sound_defs = sound_def hazards_published_def cells_live_def list_locked_def owned_once_def acts_ok_def
  held_stored_def protected_def

lemma sound_start: "page_ok page \<Longrightarrow> sound (start False page)"
  by (auto simp: sound_defs start_def ids_ok_no_ids list_ok_def array_ok_def waiting_def to_free_def elements_def INITIAL_CAPACITY_def acts_ok_def owned_def)

lemma attached_in_use: "attached t s \<longleftrightarrow> in_use (ids s) t"
  by (simp add: attached_def in_use_def)

subsection \<open>Steps that only move a thread\<close>

lemma goto_fields [simp]:
  "cells (goto t a s) = cells s" "ids (goto t a s) = ids s" "act (goto t a s) = (act s)(t := a)" "work (goto t a s) = work s"
  "held (goto t a s) = held s" "delayed (goto t a s) = delayed s" "delayed_lock (goto t a s) = delayed_lock s"
  "domain_lock (goto t a s) = domain_lock s" "storage (goto t a s) = storage s" "num_tables (goto t a s) = num_tables s"
  "free_queue (goto t a s) = free_queue s" "store_buffer (goto t a s) = store_buffer s" "tso (goto t a s) = tso s"
  "crashed (goto t a s) = crashed s" "queue_used (goto t a s) = queue_used s" "middle_removed (goto t a s) = middle_removed s"
  by (simp_all add: goto_def)

lemma derived_goto [simp]:
  "hazard (goto t a s) = hazard s" "protected (goto t a s) = protected s" "attached t' (goto t a s) = attached t' s"
  "acquiring (goto t a s) = acquiring s" "waiting (goto t a s) = waiting s" "not_passed (goto t a s) = not_passed s"
  by (simp_all add: hazard_def protected_def attached_def acquiring_def waiting_def not_passed_def fun_eq_iff)

lemma act_ok_goto [simp]: "act_ok (goto t a s) t' b = act_ok s t' b"
  by (cases b) simp_all

lemma to_free_goto: "to_free (goto t a s) = (to_free s)(t := act_frees a + \<Sum>\<^sub># (mset (map job_frees (work s t))))"
  by (auto simp: to_free_def)

lemma sound_goto:
  assumes "sound s" "act_frees a = act_frees (act s t)" "holds_lock a = holds_lock (act s t)" "act_ok s t a"
  shows "sound (goto t a s)"
proof -
  have "to_free (goto t a s) = to_free s" using assms(2) by (auto simp: to_free_def)
  then show ?thesis
    using assms by (simp add: sound_def hazards_published_def cells_live_def list_locked_def owned_once_def acts_ok_def held_stored_def)
qed

subsection \<open>Hazard pointers\<close>

lemma in_use_write_hazard [simp]: "in_use (write_hazard t k p i) = in_use i"
  by (simp add: in_use_def write_hazard_def fun_eq_iff)

lemma ids_ok_write_hazard [simp]: "ids_ok (write_hazard t k p i) = ids_ok i"
  unfolding ids_ok_def in_use_write_hazard by (simp add: write_hazard_def)

lemma attached_hazard_size: "ids_ok (ids s) \<Longrightarrow> attached t s \<Longrightarrow> t < hazard_table_size (ids s) \<and> int t \<le> highest_small_id (ids s)"
  by (auto simp: ids_ok_def attached_in_use)

abbreviation with_hazard :: "nat \<Rightarrow> nat \<Rightarrow> ptr \<Rightarrow> hstate \<Rightarrow> hstate" where
  "with_hazard t k p s \<equiv> s\<lparr>ids := write_hazard t k p (ids s)\<rparr>"

lemma hazard_with_hazard:
  assumes "t < hazard_table_size (ids s)" "k < 2" "k' < 2"
  shows "hazard (with_hazard t k p s) t' k' = (if t' = t \<and> k' = k then p else hazard s t' k')"
  using assms by (auto simp: hazard_def write_hazard_def nth_list_update slot_def set_slot_def)

lemma with_hazard_simps [simp]:
  "protected (with_hazard t k p s) = protected s" "attached t' (with_hazard t k p s) = attached t' s"
  "acquiring (with_hazard t k p s) = acquiring s" "waiting (with_hazard t k p s) = waiting s"
  "not_passed (with_hazard t k p s) = not_passed s" "to_free (with_hazard t k p s) = to_free s"
  by (simp_all add: protected_def attached_in_use acquiring_def waiting_def not_passed_def to_free_def fun_eq_iff)

lemma act_ok_with_hazard:
  assumes "sound s" "acquiring s t k" "act_ok s t' a" "t' \<noteq> t"
  shows "act_ok (with_hazard t k p s) t' a"
proof -
  have "t < hazard_table_size (ids s)" "k < 2"
    using assms(1,2) attached_hazard_size by (auto simp: sound_def hazards_published_def acquiring_def)
  then show ?thesis using assms(3,4) by (cases a) (auto simp: hazard_with_hazard acquiring_def)
qed

lemma sound_set_hazard:
  assumes s: "sound s" and q: "acquiring s t k" and a: "act_frees a = act_frees (act s t)" "holds_lock a = holds_lock (act s t)"
    "act_ok (with_hazard t k p s) t a"
  shows "sound (goto t a (mono_hazard_pointer_set t k p s))"
proof -
  have eq: "mono_hazard_pointer_set t k p s = with_hazard t k p s"
    using s by (simp add: mono_hazard_pointer_set_def sound_def hazards_published_def)
  have t: "t < hazard_table_size (ids s)" "k < 2" "held s t k = NULL"
    using s q attached_hazard_size by (auto simp: sound_def hazards_published_def acquiring_def)
  have h: "hazards_published (goto t a (with_hazard t k p s))"
    using s t unfolding sound_def hazards_published_def by (simp, metis hazard_with_hazard)
  have o: "to_free (goto t a (with_hazard t k p s)) = to_free s" using a(1) by (auto simp: to_free_def)
  have "acts_ok (goto t a (with_hazard t k p s))"
    using s a(3) act_ok_with_hazard [OF s q] by (simp add: acts_ok_def sound_def)
  then show ?thesis
    using h o s a(2) unfolding eq by (simp add: sound_def cells_live_def list_locked_def owned_once_def held_stored_def)
qed

lemma publish_sound:
  assumes "sound s" "act s t = Publish k c p"
  shows "sound (goto t (Check k c p) (mono_hazard_pointer_set t k p s))"
proof -
  have q: "acquiring s t k" using assms by (auto simp: sound_def acts_ok_def dest: spec [of _ t])
  then have "t < hazard_table_size (ids s)" "k < 2"
    using assms(1) attached_hazard_size by (auto simp: sound_def hazards_published_def acquiring_def)
  then show ?thesis
    using assms q by (intro sound_set_hazard) (simp_all add: hazard_with_hazard)
qed

text \<open>
  The check succeeds: the cell still has \<open>p\<close>, so \<open>p\<close> is in use and nobody is scanning for it.
\<close>

lemma live_not_owned:
  assumes "sound s" "protected s p" "storage s p \<noteq> Retired"
  shows "p \<notin># waiting s" "p \<notin># to_free s t"
proof -
  have "owned (count (waiting s) p) (\<lambda>t. count (to_free s t) p) (storage s p)"
    using assms by (simp add: sound_def owned_once_def)
  then show "p \<notin># waiting s" "p \<notin># to_free s t" using assms(3) by (auto simp: owned_def)
qed

lemma elements_waiting: "list_ok (delayed s) \<Longrightarrow> i < array_len (delayed s) \<Longrightarrow> fst (elements (delayed s) ! i) \<in># waiting s"
  by (auto simp: waiting_def list_ok_def elements_length)

lemma validate_sound:
  assumes s: "sound s" and a: "act s t = Check k c p" and c: "cells s c = p"
  shows "sound (goto t Idle (s\<lparr>held := (held s)(t := (held s t)(k := p))\<rparr>))" (is "sound ?s'")
proof -
  have q: "acquiring s t k" "hazard s t k = p" using s a by (auto simp: sound_def acts_ok_def dest: spec [of _ t])
  have live: "storage s p = Live" if "protected s p" using s c that by (auto simp: sound_def cells_live_def)
  have P: "protected ?s' = protected s" "waiting ?s' = waiting s"
    by (simp_all add: protected_def waiting_def fun_eq_iff)
  have F: "to_free ?s' = to_free s" using a by (auto simp: to_free_def)
  have np: "not_passed s q j hi \<Longrightarrow> q \<noteq> p \<Longrightarrow> not_passed ?s' q j hi" for q j hi
    by (auto simp: not_passed_def)
  have "act_ok ?s' t' (act s t')" if "t' \<noteq> t" for t'
  proof -
    have ok: "act_ok s t' (act s t')" using s by (simp add: sound_def acts_ok_def)
    have free: "r \<noteq> p" if "protected s r" "r \<in># to_free s t' \<or> r \<in># waiting s" for r
      using live_not_owned [OF s] live that by (metis storage.distinct(5))
    show ?thesis
    proof (cases "act s t'")
      case (Scan_item i r f j hi)
      then have "r \<in># waiting s" using ok s elements_waiting [of s i] by (auto simp: sound_def list_locked_def)
      then show ?thesis using ok Scan_item free np P by auto
    next
      case (Scan_ptr r f j hi)
      then show ?thesis using ok free [of r] np P by (auto simp: to_free_def)
    next
      case (Call_free r f)
      then show ?thesis using ok free [of r] P by (auto simp: to_free_def)
    qed (use ok that q in \<open>auto simp: acquiring_def attached_def hazard_def\<close>)
  qed
  then have "acts_ok ?s'" by (simp add: acts_ok_def)
  moreover have "hazards_published ?s'"
    using s q by (auto simp: sound_def hazards_published_def acquiring_def attached_def hazard_def)
  moreover have "held_stored ?s'" using s live P by (auto simp: sound_def held_stored_def)
  ultimately show ?thesis
    using s a P F by (simp add: sound_def cells_live_def list_locked_def owned_once_def)
qed

lemma get_hazardous_pointer_sound:
  assumes "sound s" "get_hazardous_pointer t (act s t) s = Some s'"
  shows "sound s'"
proof (cases "act s t")
  case (Load k c)
  moreover have "acquiring s t k" using assms(1) Load by (auto simp: sound_def acts_ok_def dest: spec [of _ t])
  ultimately show ?thesis using assms by (auto intro!: sound_goto)
next
  case (Publish k c p)
  then show ?thesis using assms publish_sound by auto
next
  case (Check k c p)
  have q: "acquiring s t k" using assms(1) Check by (auto simp: sound_def acts_ok_def dest: spec [of _ t])
  show ?thesis
  proof (cases "cells s c = p")
    case True
    then show ?thesis using assms Check validate_sound by auto
  next
    case False
    then have "s' = goto t (Load k c) (mono_hazard_pointer_set t k NULL s)"
      using assms Check by (simp add: mono_hazard_pointer_clear_def)
    then show ?thesis using assms(1) Check q by (auto intro!: sound_set_hazard)
  qed
qed (use assms in auto)

end
