(* ===== verification/Hazard_Steps.thy ===== *)
theory Hazard_Steps
  imports Hazard_Inv
begin

text \<open>Every step of a thread in the freeing functions, and every call, keeps the invariant.\<close>

section \<open>Frames\<close>

lemma act_ok_cong:
  assumes "act_ok s t a" "hazard s' = hazard s" "held s' = held s" "ids s' = ids s" "delayed s' = delayed s"
    "queue_used s' = queue_used s"
  shows "act_ok s' t a"
  using assms by (cases a) (simp_all add: acquiring_def attached_def protected_def not_passed_def)

lemma crash_sound: "sound s \<Longrightarrow> sound (crash e s)"
proof -
  assume s: "sound s"
  have "acts_ok (crash e s)"
    using s by (auto simp: sound_def acts_ok_def crash_def hazard_def fun_eq_iff intro: act_ok_cong)
  then show ?thesis
    using s by (simp add: sound_def hazards_published_def cells_live_def list_locked_def owned_once_def held_stored_def
        crash_def hazard_def protected_def attached_def waiting_def to_free_def)
qed

lemma lock_sound:
  assumes s: "sound s" and f: "act_frees a = act_frees (act s t)" "act_ok s t a"
    and l: "\<forall>t'. l = Some t' \<longleftrightarrow> (if t' = t then holds_lock a else holds_lock (act s t'))"
  shows "sound (goto t a (s\<lparr>delayed_lock := l\<rparr>))" (is "sound ?s'")
proof -
  have "act_ok ?s' t' b" if "act_ok s t' b" for t' b
    using that by (auto intro!: act_ok_cong [of s] simp: hazard_def fun_eq_iff)
  then have "acts_ok ?s'" using s f(2) by (simp add: sound_def acts_ok_def)
  moreover have "to_free ?s' = to_free s" using f(1) by (auto simp: to_free_def)
  ultimately show ?thesis
    using s l by (simp add: sound_def hazards_published_def cells_live_def list_locked_def owned_once_def held_stored_def
        hazard_def protected_def attached_def waiting_def)
qed

lemma unlock_goto: "unlock_delayed (goto t a s) = goto t a (s\<lparr>delayed_lock := None\<rparr>)" "goto t a (unlock_delayed s) = goto t a (s\<lparr>delayed_lock := None\<rparr>)"
  by (simp_all add: unlock_delayed_def goto_def)

lemma unlock_sound:
  assumes s: "sound s" and a: "holds_lock (act s t)" "act_frees (act s t) = {#}"
  shows "sound (goto t Idle (s\<lparr>delayed_lock := None\<rparr>))"
proof (rule lock_sound [OF s])
  have L: "delayed_lock s = Some t' \<longleftrightarrow> holds_lock (act s t')" for t' using s by (simp add: sound_def list_locked_def)
  then have "holds_lock (act s t') \<Longrightarrow> t' = t" for t' using a by (metis option.inject)
  then show "\<forall>t'. None = Some t' \<longleftrightarrow> (if t' = t then holds_lock Idle else holds_lock (act s t'))" by auto
qed (use a in simp_all)

section \<open>The scans\<close>

lemma scan_start:
  assumes "sound s"
  shows "not_passed s p 0 (highest_small_id (ids s)) \<or> p = NULL"
  using assms attached_hazard_size by (auto simp: sound_def hazards_published_def not_passed_def)

lemma scan_next:
  assumes "sound s" "not_passed s p j hi" "hazard s (j div 2) (j mod 2) \<noteq> p" "p \<noteq> NULL"
  shows "not_passed s p (Suc j) hi"
  unfolding not_passed_def
proof (intro allI impI)
  fix t k
  assume h: "held s t k = p"
  then have "hazard s t k = p" "k < 2" using assms(1,4) by (auto simp: sound_def hazards_published_def)
  then have "2 * t + k \<noteq> j" using assms(3) by auto
  moreover have "int t \<le> hi" "j \<le> 2 * t + k" using assms(2) h by (auto simp: not_passed_def)
  ultimately show "int t \<le> hi \<and> Suc j \<le> 2 * t + k" by simp
qed

lemma scan_end:
  assumes "sound s" "not_passed s p j hi" "int (j div 2) > hi" "p \<noteq> NULL"
  shows "held s t k \<noteq> p"
proof
  assume h: "held s t k = p"
  then have "k < 2" "int t \<le> hi" "j \<le> 2 * t + k" using assms(1,2,4) by (auto simp: sound_def hazards_published_def not_passed_def)
  then show False using assms(3) by linarith
qed

lemmas protected_nonnull = protected_def [THEN iffD1, THEN conjunct1]

lemma scan_result:
  assumes "sound s" "protected s p \<longrightarrow> not_passed s p j hi"
  shows "is_pointer_hazardous p j hi s = None \<Longrightarrow> protected s p \<longrightarrow> (\<forall>t k. held s t k \<noteq> p)"
    "is_pointer_hazardous p j hi s = Some False \<Longrightarrow> protected s p \<longrightarrow> not_passed s p (Suc j) hi"
proof -
  show "protected s p \<longrightarrow> (\<forall>t k. held s t k \<noteq> p)" if "is_pointer_hazardous p j hi s = None"
  proof (intro impI allI)
    fix t k
    assume "protected s p"
    moreover have "int (j div 2) > hi" using that by (simp add: is_pointer_hazardous_def split: if_splits)
    ultimately show "held s t k \<noteq> p" using scan_end [OF assms(1)] assms(2) protected_nonnull by blast
  qed
  show "protected s p \<longrightarrow> not_passed s p (Suc j) hi" if "is_pointer_hazardous p j hi s = Some False"
    using scan_next [OF assms(1)] assms(2) protected_nonnull that by (auto simp: is_pointer_hazardous_def split: if_splits)
qed

text \<open>Changes to the list of delayed frees and to the calls in progress.\<close>

definition same_memory :: "hstate \<Rightarrow> hstate \<Rightarrow> bool" where
  "same_memory s s' \<longleftrightarrow> cells s' = cells s \<and> ids s' = ids s \<and> held s' = held s \<and> storage s' = storage s \<and>
    free_queue s' = free_queue s \<and> store_buffer s' = store_buffer s \<and> tso s' = tso s \<and> queue_used s' = queue_used s"

lemma same_memory_simps:
  assumes "same_memory s s'"
  shows "hazard s' = hazard s" "protected s' = protected s" "attached t s' = attached t s" "acquiring s' = acquiring s"
    "not_passed s' = not_passed s" "storage s' = storage s" "held s' = held s"
  using assms by (simp_all add: same_memory_def hazard_def protected_def attached_def acquiring_def not_passed_def fun_eq_iff)

lemma act_ok_same_memory:
  assumes "same_memory s s'" "act_ok s t a" "delayed s' = delayed s \<or> \<not> holds_lock a"
  shows "act_ok s' t a"
  using assms(2,3) same_memory_simps [OF assms(1)] by (cases a) auto

lemma sound_same_memory:
  assumes "sound s" "same_memory s s'" "list_locked s'" "owned_once s'" "acts_ok s'"
  shows "sound s'"
  using assms(1,3-) same_memory_simps [OF assms(2)] assms(2)
  by (simp add: sound_def hazards_published_def cells_live_def held_stored_def same_memory_def)

text \<open>An item leaves the list and becomes the thread's own.\<close>

lemma take_item_sound:
  assumes s: "sound s" and a: "act s t = Scan_item i p f j hi" and none: "is_pointer_hazardous p j hi s = None"
    and r: "g_array_remove_index_fast null_item (delayed s) i = Inr d" and low: "array_len (delayed s) \<le> i + 2"
  shows "sound (unlock_delayed (goto t (if p = NULL then Idle else Call_free p f) (s\<lparr>delayed := d, middle_removed := m\<rparr>)))"
proof -
  define s' where "s' = unlock_delayed (goto t (if p = NULL then Idle else Call_free p f) (s\<lparr>delayed := d, middle_removed := m\<rparr>))"
  have fields: "act s' = (act s)(t := if p = NULL then Idle else Call_free p f)" "delayed s' = d" "delayed_lock s' = None"
      "work s' = work s" and mem: "same_memory s s'"
    by (simp_all add: s'_def unlock_delayed_def same_memory_def)
  note same = same_memory_simps [OF mem]
  have ok: "i < array_len (delayed s)" "elements (delayed s) ! i = (p, f)" "protected s p \<longrightarrow> not_passed s p j hi"
    using s a by (auto simp: sound_def acts_ok_def dest: spec [of _ t])
  have L: "list_ok (delayed s)" "\<forall>t. delayed_lock s = Some t \<longleftrightarrow> holds_lock (act s t)"
    using s by (simp_all add: sound_def list_locked_def)
  have lock: "holds_lock (act s t') \<longleftrightarrow> t' = t" for t' using L(2) a by (metis holds_lock.simps(2) option.inject)
  have d: "list_ok d" "mset (elements d) = mset (elements (delayed s)) - {#(p, f)#}"
    using remove_item [OF L(1) r ok(1) low] ok(2) by auto
  have in_list: "(p, f) \<in># mset (elements (delayed s))"
    using ok(1,2) L(1) by (metis elements_length list_ok_def nth_mem set_mset_mset)
  have W: "waiting s = add_mset p (waiting s')"
    using d(2) in_list unfolding waiting_def fields by (metis fst_conv image_mset_add_mset insert_DiffM)
  have F: "to_free s' t' = (if t' = t \<and> p \<noteq> NULL then add_mset p (to_free s t) else to_free s t')" for t'
    using a by (auto simp: to_free_def fields)
  have "list_locked s'" using d(1) lock by (auto simp: list_locked_def fields)
  moreover have "act_ok s' t' (act s' t')" for t'
  proof (cases "t' = t")
    case True
    then show ?thesis using scan_result(1) [OF s ok(3) none] by (simp add: fields same)
  next
    case False
    then have "\<not> holds_lock (act s t')" "act_ok s t' (act s t')" using lock s by (auto simp: sound_def acts_ok_def)
    then show ?thesis using False act_ok_same_memory [OF mem] by (simp add: fields)
  qed
  then have "acts_ok s'" by (simp add: acts_ok_def)
  moreover have "owned_once s'"
    unfolding owned_once_def
  proof (intro allI impI)
    fix q
    assume "protected s' q"
    then have q: "q \<noteq> NULL" "owned (count (waiting s) q) (\<lambda>t. count (to_free s t) q) (storage s q)"
      using s by (auto simp: same sound_def owned_once_def protected_def)
    show "owned (count (waiting s') q) (\<lambda>t. count (to_free s' t) q) (storage s' q)"
    proof (cases "q = p")
      case True
      then have "count (waiting s') q = count (waiting s) q - 1" "0 < count (waiting s) q"
          "(\<lambda>t. count (to_free s' t) q) = (\<lambda>t. count (to_free s t) q)(t := Suc (count (to_free s t) q))"
        using W F q(1) by (auto simp: fun_eq_iff)
      then show ?thesis using owned_take [OF q(2), of t] by (simp add: same)
    next
      case False
      then have "count (waiting s') q = count (waiting s) q" "\<And>t. count (to_free s' t) q = count (to_free s t) q" using W F by auto
      then show ?thesis using q(2) by (simp add: same)
    qed
  qed
  ultimately show ?thesis using sound_same_memory [OF s mem] unfolding s'_def by blast
qed


text \<open>The thread's own block goes to the list.\<close>

lemma append_item_sound:
  assumes s: "sound s" and a: "act s t = Append p f" and r: "g_array_append_vals null_item (delayed s) [(p, f)] = Inr d"
    and l: "delayed_lock s = None"
  shows "sound (goto t Idle (s\<lparr>delayed := d\<rparr>))"
proof -
  define s' where "s' = goto t Idle (s\<lparr>delayed := d\<rparr>)"
  have fields: "act s' = (act s)(t := Idle)" "delayed s' = d" "delayed_lock s' = delayed_lock s" "work s' = work s"
    and mem: "same_memory s s'" by (simp_all add: s'_def same_memory_def)
  note same = same_memory_simps [OF mem]
  have L: "list_ok (delayed s)" "\<forall>t. \<not> holds_lock (act s t)"
    using s l by (auto simp: sound_def list_locked_def)
  have d: "list_ok d" "elements d = elements (delayed s) @ [(p, f)]" using append_item [OF L(1) r] by auto
  have W: "waiting s' = add_mset p (waiting s)" using d(2) by (simp add: waiting_def fields)
  have F: "to_free s t' = (if t' = t then add_mset p (to_free s' t) else to_free s' t')" for t'
    using a by (auto simp: to_free_def fields)
  have "list_locked s'" using d(1) L l by (auto simp: list_locked_def fields)
  moreover have "acts_ok s'"
    using s L act_ok_same_memory [OF mem] by (simp add: acts_ok_def sound_def fields)
  moreover have "owned_once s'"
    unfolding owned_once_def
  proof (intro allI impI)
    fix q
    assume "protected s' q"
    then have q: "owned (count (waiting s) q) (\<lambda>t. count (to_free s t) q) (storage s q)"
      using s by (auto simp: same sound_def owned_once_def)
    show "owned (count (waiting s') q) (\<lambda>t. count (to_free s' t) q) (storage s' q)"
    proof (cases "q = p")
      case True
      then have "count (waiting s') q = Suc (count (waiting s) q)" "0 < count (to_free s t) q"
          "(\<lambda>t. count (to_free s' t) q) = (\<lambda>t. count (to_free s t) q)(t := count (to_free s t) q - 1)"
        using W F by (auto simp: fun_eq_iff)
      then show ?thesis using owned_put [OF q, of t] by (simp add: same)
    next
      case False
      then have "count (waiting s') q = count (waiting s) q" "\<And>t. count (to_free s' t) q = count (to_free s t) q" using W F by auto
      then show ?thesis using q by (simp add: same)
    qed
  qed
  ultimately show ?thesis using sound_same_memory [OF s mem] unfolding s'_def by blast
qed

section \<open>Freeing a block\<close>

text \<open>The storage of the block (and of blocks that are not protected) is given back.\<close>

lemma free_sound:
  assumes s: "sound s" and a: "act s t = Call_free p f"
    and st: "\<And>q. protected s q \<Longrightarrow> q \<noteq> p \<Longrightarrow> st q = storage s q" and fq: "set fq \<subseteq> set (free_queue s)"
  shows "sound (goto t Idle (s\<lparr>storage := st, free_queue := fq, num_tables := n\<rparr>))"
proof -
  define s' where "s' = goto t Idle (s\<lparr>storage := st, free_queue := fq, num_tables := n\<rparr>)"
  have fields: "cells s' = cells s" "ids s' = ids s" "act s' = (act s)(t := Idle)" "work s' = work s" "held s' = held s"
      "delayed s' = delayed s" "delayed_lock s' = delayed_lock s" "storage s' = st" "free_queue s' = fq"
      "store_buffer s' = store_buffer s" "tso s' = tso s" "queue_used s' = queue_used s"
    by (simp_all add: s'_def)
  have same: "hazard s' = hazard s" "protected s' = protected s" "attached t' s' = attached t' s" "waiting s' = waiting s" for t'
    by (simp_all add: hazard_def protected_def attached_def waiting_def fields fun_eq_iff)
  have F: "to_free s t' = (if t' = t then add_mset p (to_free s' t) else to_free s' t')" for t'
    using a by (auto simp: to_free_def fields)
  have retired: "storage s p = Retired" if "protected s p"
    using s live_not_owned(2) [OF s that, of t] F by auto
  have held: "\<forall>t k. held s t k \<noteq> p" if "protected s p"
  proof -
    have "act_ok s t (Call_free p f)" using s a unfolding sound_def acts_ok_def by metis
    then show ?thesis using that by simp
  qed
  have "act_ok s' t' (act s' t')" for t'
  proof (cases "t' = t")
    case False
    have "act_ok s t' (act s t')" using s by (simp add: sound_def acts_ok_def)
    then show ?thesis using False act_ok_cong [of s t' "act s t'" s'] by (simp add: fields same)
  qed (simp add: fields)
  then have "acts_ok s'" by (simp add: acts_ok_def)
  moreover have "list_locked s'"
    using s a by (auto simp: sound_def list_locked_def fields)
  moreover have "hazards_published s'"
    using s by (simp add: sound_def hazards_published_def fields same)
  moreover have "cells_live s'"
  proof -
    have c: "\<forall>c. protected s (cells s c) \<longrightarrow> storage s (cells s c) = Live" using s by (simp add: sound_def cells_live_def)
    have "st (cells s c) = Live" if p: "protected s (cells s c)" for c
    proof -
      have "storage s (cells s c) = Live" using c p by blast
      moreover from this have "cells s c \<noteq> p" using retired p by auto
      ultimately show ?thesis using st p by simp
    qed
    moreover have "\<forall>q \<in> set fq. \<not> protected s q" using s fq by (auto simp: sound_def cells_live_def)
    ultimately show ?thesis using s by (simp add: sound_def cells_live_def fields same)
  qed
  moreover have "held_stored s'"
    unfolding held_stored_def fields same
  proof (intro allI impI)
    fix t k
    assume p: "protected s (held s t k)"
    then have "held s t k \<noteq> p" using held by metis
    then show "st (held s t k) \<noteq> Unused" using s st p by (simp add: sound_def held_stored_def)
  qed
  moreover have "owned_once s'"
    unfolding owned_once_def
  proof (intro allI impI)
    fix q
    assume "protected s' q"
    then have q: "protected s q" "owned (count (waiting s) q) (\<lambda>t. count (to_free s t) q) (storage s q)"
      using s by (auto simp: same sound_def owned_once_def)
    show "owned (count (waiting s') q) (\<lambda>t. count (to_free s' t) q) (storage s' q)"
    proof (cases "q = p")
      case True
      then have "0 < count (to_free s t) q"
          "(\<lambda>t. count (to_free s' t) q) = (\<lambda>t. count (to_free s t) q)(t := count (to_free s t) q - 1)"
        using F by (auto simp: fun_eq_iff)
      then show ?thesis using owned_drop [OF q(2), of t "st q"] by (simp add: same fields)
    next
      case False
      then have "count (to_free s' t) q = count (to_free s t) q" for t using F [of t] by auto
      then show ?thesis using q(2) st [OF q(1) False] by (simp add: same fields)
    qed
  qed
  ultimately show ?thesis unfolding sound_def s'_def by blast
qed

lemma call_free_sound:
  assumes s: "sound s" and a: "act s t = Call_free p f" and c: "call_free_func t p f s = Some s'"
  shows "sound s'"
proof (cases f)
  case G_free
  then have "s' = goto t Idle (s\<lparr>storage := (storage s)(p := Unused), free_queue := free_queue s, num_tables := num_tables s\<rparr>)"
    using c by (simp add: goto_def)
  then show ?thesis using free_sound [OF s a, of "(storage s)(p := Unused)" "free_queue s" "num_tables s"] by simp
next
  case Jit_info_table_free
  let ?n = "num_tables s - 1"
  let ?st = "if ?n \<le> 1 then (\<lambda>q. if q \<in> set (free_queue s) then Unused else storage s q) else storage s"
  have "s' = goto t Idle (s\<lparr>storage := ?st(p := Unused), free_queue := (if ?n \<le> 1 then [] else free_queue s), num_tables := ?n\<rparr>)"
    using c Jit_info_table_free
    by (intro hstate.equality) (auto simp: jit_info_table_free_def Let_def goto_def cong: if_cong split: if_splits)
  moreover have "?st q = storage s q" if "protected s q" for q
    using s that by (auto simp: sound_def cells_live_def)
  ultimately show ?thesis using free_sound [OF s a, of "?st(p := Unused)"] by simp
qed

section \<open>The next call of a thread\<close>

lemma job_sound:
  assumes s: "sound s" and a: "act s t = Idle" "\<not> holds_lock a" "act_ok s t a"
    and w: "act_frees a + \<Sum>\<^sub># (mset (map job_frees ws)) = \<Sum>\<^sub># (mset (map job_frees (work s t)))"
  shows "sound (goto t a (s\<lparr>work := (work s)(t := ws), domain_lock := l\<rparr>))"
proof -
  define s' where "s' = goto t a (s\<lparr>work := (work s)(t := ws), domain_lock := l\<rparr>)"
  have fields: "act s' = (act s)(t := a)" "delayed s' = delayed s" "delayed_lock s' = delayed_lock s" "work s' = (work s)(t := ws)"
    and mem: "same_memory s s'" by (simp_all add: s'_def same_memory_def)
  note same = same_memory_simps [OF mem]
  have "to_free s' = to_free s" using w a by (auto simp: to_free_def fields)
  moreover have "waiting s' = waiting s" by (simp add: waiting_def fields)
  ultimately have "owned_once s'" using s by (simp add: sound_def owned_once_def same)
  moreover have "acts_ok s'"
    using s a(3) act_ok_same_memory [OF mem] by (simp add: acts_ok_def sound_def fields)
  moreover have "list_locked s'" using s a by (auto simp: sound_def list_locked_def fields)
  ultimately show ?thesis using sound_same_memory [OF s mem] unfolding s'_def by blast
qed

lemma next_job_sound:
  assumes s: "sound s" and a: "act s t = Idle" and r: "next_job t (work s t) s = Some s'"
  shows "sound s'"
proof (cases "work s t")
  case (Cons w ws)
  have dl: "s = s\<lparr>domain_lock := domain_lock s\<rparr>" by simp
  show ?thesis
  proof (cases w)
    case (Try_item i)
    then have "s' = goto t (if array_len (delayed s) > i then Wait_item i else Idle) (s\<lparr>work := (work s)(t := ws), domain_lock := domain_lock s\<rparr>)"
      using r Cons by (simp add: goto_def)
    then show ?thesis
      using job_sound [OF s a, of _ ws "domain_lock s"] Try_item Cons by auto
  next
    case (Free_or_queue p f)
    have "act_ok s t (Scan_ptr p f 0 (highest_small_id (ids s)))"
      using scan_start [OF s, of p] protected_nonnull by auto
    moreover have "s' = crash Assert_failed s \<or>
        s' = goto t (Scan_ptr p f 0 (highest_small_id (ids s))) (s\<lparr>work := (work s)(t := ws), domain_lock := domain_lock s\<rparr>)"
      using r Cons Free_or_queue by (auto simp: goto_def split: if_splits)
    ultimately show ?thesis using job_sound [OF s a, of _ ws "domain_lock s"] Free_or_queue Cons crash_sound [OF s] by auto
  next
    case Unlock_domain
    then have "s' = goto t Idle (s\<lparr>work := (work s)(t := ws), domain_lock := None\<rparr>)"
      using r Cons a by (intro hstate.equality) (auto simp: goto_def fun_upd_idem)
    then show ?thesis using job_sound [OF s a] Unlock_domain Cons by auto
  qed
qed (use r in simp)

section \<open>One step of a thread\<close>

lemma item_sound:
  assumes s: "sound s" and r: "try_free_delayed_free_item t (act s t) s = Some s'"
  shows "sound s' \<or> middle_removed s'"
proof (cases "act s t")
  case (Wait_item i)
  then have n: "delayed_lock s = None" and s': "s' = goto t (Locked_item i) (s\<lparr>delayed_lock := Some t\<rparr>)"
    using r by (auto split: if_splits)
  have "\<not> holds_lock (act s t')" for t' using s n by (simp add: sound_def list_locked_def)
  then show ?thesis using lock_sound [OF s, of "Locked_item i" t "Some t"] Wait_item s' by auto
next
  case (Locked_item i)
  show ?thesis
  proof (cases "array_len (delayed s) > i")
    case True
    have L: "list_ok (delayed s)" using s by (simp add: sound_def list_locked_def)
    have el: "array_data (delayed s) ! i = Some (elements (delayed s) ! i)"
      using L True take_elements [of "delayed s"] elements_length [of "delayed s"]
      by (metis list_ok_def nth_map nth_take)
    obtain p f where e: "elements (delayed s) ! i = (p, f)" by fastforce
    have "act_ok s t (Scan_item i p f 0 (highest_small_id (ids s)))"
      using scan_start [OF s, of p] protected_nonnull True e by auto
    then have "sound (goto t (Scan_item i p f 0 (highest_small_id (ids s))) s)"
      using Locked_item s by (intro sound_goto) auto
    then show ?thesis using r Locked_item True el e crash_sound [OF s] by (auto split: if_splits)
  next
    case False
    then show ?thesis using r Locked_item unlock_sound [OF s, of t] by (auto simp: unlock_goto)
  qed
next
  case (Scan_item i p f j hi)
  have ok: "protected s p \<longrightarrow> not_passed s p j hi" "i < array_len (delayed s)" "elements (delayed s) ! i = (p, f)"
    using s Scan_item by (auto simp: sound_def acts_ok_def dest: spec [of _ t])
  show ?thesis
  proof (cases "is_pointer_hazardous p j hi s")
    case None
    show ?thesis
    proof (cases "g_array_remove_index_fast null_item (delayed s) i")
      case (Inl e)
      then show ?thesis using r Scan_item None crash_sound [OF s] by auto
    next
      case (Inr d)
      then have "s' = unlock_delayed (goto t (if p = NULL then Idle else Call_free p f)
          (s\<lparr>delayed := d, middle_removed := (middle_removed s \<or> i + 2 < array_len (delayed s))\<rparr>))"
        using r Scan_item None by simp
      then show ?thesis
        using take_item_sound [OF s Scan_item None Inr, of "middle_removed s \<or> i + 2 < array_len (delayed s)"]
        by (cases "i + 2 < array_len (delayed s)") (simp_all add: unlock_delayed_def)
    qed
  next
    case (Some b)
    show ?thesis
    proof (cases b)
      case True
      then show ?thesis using r Scan_item Some unlock_sound [OF s, of t] by (auto simp: unlock_goto)
    next
      case False
      then have "act_ok s t (Scan_item i p f (Suc j) hi)" using scan_result(2) [OF s ok(1)] ok Some by simp
      then show ?thesis using r Scan_item Some False s by (auto intro!: sound_goto)
    qed
  qed
qed (use r in auto)

lemma free_or_queue_sound:
  assumes s: "sound s" and r: "free_or_queue t (act s t) s = Some s'"
  shows "sound s'"
proof (cases "act s t")
  case (Scan_ptr p f j hi)
  have ok: "protected s p \<longrightarrow> not_passed s p j hi" using s Scan_ptr by (auto simp: sound_def acts_ok_def dest: spec [of _ t])
  have "act_ok s t a \<Longrightarrow> act_frees a = {#p#} \<Longrightarrow> \<not> holds_lock a \<Longrightarrow> sound (goto t a s)" for a
    using Scan_ptr s by (intro sound_goto) auto
  then show ?thesis
    using r Scan_ptr scan_result [OF s ok] by (auto split: option.splits bool.splits)
next
  case (Append p f)
  then show ?thesis
    using r append_item_sound [OF s Append] crash_sound [OF s] by (auto split: if_splits sum.splits)
next
  case (Call_free p f)
  then show ?thesis using r call_free_sound [OF s] by auto
qed (use r in auto)

lemma exec_sound:
  assumes "sound s" "exec t s = Some s'"
  shows "sound s' \<or> middle_removed s'"
  using assms get_hazardous_pointer_sound [OF assms(1), of t s'] item_sound [OF assms(1), of t s']
    free_or_queue_sound [OF assms(1), of t s'] next_job_sound [OF assms(1), of t s']
  by (cases "act s t") (auto simp: exec_def)

end
