(* ===== verification/Hazard_Calls.thy ===== *)
theory Hazard_Calls
  imports Hazard_Steps
begin

text \<open>The calls that start an operation, and the reachable states.\<close>

section \<open>Giving up and acquiring\<close>

lemma not_protected_NULL: "\<not> protected s NULL"
  by (simp add: protected_def)

lemma drop_held_sound:
  assumes s: "sound s" and r: "act s t = Idle"
  shows "sound (s\<lparr>held := (held s)(t := (held s t)(k := NULL))\<rparr>)" (is "sound ?s'")
proof -
  have same: "protected ?s' = protected s" "waiting ?s' = waiting s" "to_free ?s' = to_free s" "hazard ?s' = hazard s" "attached t' ?s' = attached t' s" for t'
    by (simp_all add: protected_def waiting_def to_free_def hazard_def attached_def fun_eq_iff)
  have np: "not_passed ?s' p j hi" if "not_passed s p j hi" "p \<noteq> NULL" for p j hi
    using that by (auto simp: not_passed_def split: if_splits)
  have "act_ok ?s' t' (act s t')" for t'
  proof (cases "t' = t")
    case False
    have "act_ok s t' (act s t')" using s by (simp add: sound_def acts_ok_def)
    then show ?thesis using False np protected_nonnull
      by (cases "act s t'") (auto simp: same acquiring_def not_protected_NULL)
  qed (simp add: r)
  then have "acts_ok ?s'" by (simp add: acts_ok_def)
  then show ?thesis
    using s by (auto simp: sound_def hazards_published_def cells_live_def list_locked_def owned_once_def held_stored_def same protected_def)
qed

lemma acquire_sound:
  assumes s: "sound s" and r: "acquire t k c s = Some s'"
  shows "sound s'"
proof -
  let ?s = "s\<lparr>held := (held s)(t := (held s t)(k := NULL))\<rparr>"
  have a: "act s t = Idle" "attached t s" "k < 2" "s' = goto t (Load k c) ?s"
    using r by (auto simp: acquire_def ready_def split: if_splits)
  moreover have "acquiring ?s t k" using a by (simp add: acquiring_def attached_def)
  ultimately show ?thesis using sound_goto [OF drop_held_sound [OF s a(1), of k], of "Load k c" t] by simp
qed

lemma release_sound:
  assumes s: "sound s" and r: "release t k s = Some s'"
  shows "sound s'"
proof -
  let ?s = "s\<lparr>held := (held s)(t := (held s t)(k := NULL))\<rparr>"
  have a: "act s t = Idle" "attached t s" "k < 2" "s' = mono_hazard_pointer_set t k NULL ?s"
    using r by (auto simp: release_def ready_def mono_hazard_pointer_clear_def split: if_splits)
  moreover have "acquiring ?s t k" using a by (simp add: acquiring_def attached_def)
  moreover have "goto t Idle s' = s'" using a by (auto simp: goto_def mono_hazard_pointer_set_def intro!: hstate.equality)
  ultimately show ?thesis using sound_set_hazard [OF drop_held_sound [OF s a(1), of k], of t k Idle NULL] by simp
qed

section \<open>Attaching and detaching\<close>

lemma ids_change_sound:
  assumes s: "sound s" and ok: "ids_ok d" and c: "\<And>t k. held s t k \<noteq> NULL \<Longrightarrow> in_use d t"
    and q: "\<And>t. act s t \<noteq> Idle \<Longrightarrow> attached t s \<Longrightarrow> in_use d t"
    and h: "\<And>t. attached t s \<Longrightarrow> hazard_table d ! t = hazard_table (ids s) ! t"
  shows "sound (s\<lparr>ids := d\<rparr>)" (is "sound ?s'")
proof -
  have same: "protected ?s' = protected s" "waiting ?s' = waiting s" "to_free ?s' = to_free s" "not_passed ?s' = not_passed s"
    by (simp_all add: protected_def waiting_def to_free_def not_passed_def fun_eq_iff)
  have hz: "attached t s \<Longrightarrow> hazard ?s' t k = hazard s t k" for t k using h by (simp add: hazard_def)
  have at: "attached t ?s' \<longleftrightarrow> in_use d t" for t by (simp add: attached_in_use)
  have "act_ok ?s' t (act s t)" for t
  proof -
    have "act_ok s t (act s t)" using s by (simp add: sound_def acts_ok_def)
    then show ?thesis using q [of t] by (cases "act s t") (auto simp: same acquiring_def at hz)
  qed
  then have "acts_ok ?s'" by (simp add: acts_ok_def)
  moreover have "hazards_published ?s'"
    using s ok c hz by (simp add: sound_def hazards_published_def at)
  ultimately show ?thesis
    using s by (simp add: sound_def cells_live_def list_locked_def owned_once_def held_stored_def same)
qed

lemma attach_sound:
  assumes s: "sound s" and r: "attach thr s = Some s'"
  shows "sound s'"
proof -
  have thr: "thr \<noteq> 0" and ids: "ids_ok (ids s)"
    using r s by (auto simp: attach_def sound_def hazards_published_def split: if_splits)
  show ?thesis
  proof (cases "all_in_use (ids s)")
    case True
    then show ?thesis using r thr small_id_alloc_full [OF ids True] crash_sound [OF s] by (auto simp: attach_def)
  next
    case False
    then obtain i d where d: "small_id_alloc thr (ids s) = Inr (i, d)" "allocated (ids s) thr i d"
      using small_id_alloc_ok [OF ids False thr] by blast
    have in_table: "t < hazard_table_size (ids s)" if "attached t s" for t
      using attached_hazard_size [OF ids that] by simp
    have held_at: "attached t s" if "held s t k \<noteq> NULL" for t k
      using s that by (simp add: sound_def hazards_published_def)
    have "sound (s\<lparr>ids := d\<rparr>)"
      using d(2) held_at in_table by (intro ids_change_sound [OF s]) (auto simp: allocated_def covers_more_def attached_in_use)
    then show ?thesis using r thr d(1) by (simp add: attach_def)
  qed
qed

lemma detach_sound:
  assumes s: "sound s" and r: "detach t s = Some s'"
  shows "sound s'"
proof -
  have ids: "ids_ok (ids s)" using s by (simp add: sound_def hazards_published_def)
  have a: "act s t = Idle" "held s t 0 = NULL" "held s t 1 = NULL" using r by (auto simp: detach_def ready_def split: if_splits)
  have held_at: "attached t' s \<and> k < 2" if "held s t' k \<noteq> NULL" for t' k
    using s that by (simp add: sound_def hazards_published_def)
  show ?thesis
  proof (cases "in_use (ids s) t")
    case True
    let ?d = "ids s\<lparr>small_id_table := (small_id_table (ids s))[t := 0]\<rparr>"
    have "t' \<noteq> t" if "held s t' k \<noteq> NULL" for t' k
      using held_at [OF that] a(2,3) that by (auto simp: less_2_cases_iff)
    then have "sound (s\<lparr>ids := ?d\<rparr>)"
      using small_id_free_ok [OF ids True] held_at a(1) by (intro ids_change_sound [OF s]) (auto simp: attached_in_use)
    moreover have "s' = s\<lparr>ids := ?d\<rparr>"
      using r small_id_free_spec [OF ids, of t] True by (auto simp: detach_def split: if_splits)
    ultimately show ?thesis by simp
  next
    case False
    then have "s' = crash Assert_failed s"
      using r small_id_free_spec [OF ids, of t] by (auto simp: detach_def split: if_splits)
    then show ?thesis using crash_sound [OF s] by simp
  qed
qed

lemma try_free_all_sound:
  assumes s: "sound s" and r: "try_free_all t s = Some s'"
  shows "sound s'"
proof -
  have a: "act s t = Idle" "work s t = []" "s' = s\<lparr>work := (work s)(t := mono_thread_hazardous_try_free_all s)\<rparr>"
    using r by (auto simp: try_free_all_def ready_def split: if_splits)
  have z: "\<Sum>\<^sub># (mset (map job_frees (map Try_item xs))) = {#}" for xs by (induction xs) auto
  have "s' = goto t Idle (s\<lparr>work := (work s)(t := map Try_item (rev [0..<array_len (delayed s)])), domain_lock := domain_lock s\<rparr>)"
    using a by (auto simp: goto_def mono_thread_hazardous_try_free_all_def fun_upd_idem intro!: hstate.equality)
  then show ?thesis
    using job_sound [OF s a(1), of Idle "map Try_item (rev [0..<array_len (delayed s)])" "domain_lock s"] a z by simp
qed

lemma drain_sound: "sound s \<Longrightarrow> drain t s = Some s' \<Longrightarrow> sound s'"
  by (simp add: drain_def sound_def hazards_published_def)

section \<open>The writers of the index\<close>

lemma frees_of_call: "\<Sum>\<^sub># (mset (map job_frees (mono_thread_hazardous_free_or_queue p f @ [Unlock_domain]))) = {#p#}"
  by (simp add: mono_thread_hazardous_free_or_queue_def)

text \<open>
  A cell is overwritten: a new block comes into use, and the block \<open>p\<close> that was in the cell (and in
  no other, if it is protected) is retired and handed to the thread.
\<close>

definition retire_state :: "nat \<Rightarrow> cell \<Rightarrow> ptr \<Rightarrow> ptr \<Rightarrow> free_func \<Rightarrow> hstate \<Rightarrow> hstate" where
  "retire_state t c b p f s = s\<lparr>cells := (cells s)(c := b), storage := (storage s)(b := Live, p := Retired),
     work := (work s)(t := mono_thread_hazardous_free_or_queue p f @ [Unlock_domain])\<rparr>"

lemma retire_sound:
  assumes s: "sound s" and r: "ready t s" and b: "storage s b = Unused" "b \<noteq> p"
    and kind: "c = Table_cell \<longleftrightarrow> (\<exists>n. b = Table n)" "b \<noteq> NULL" and p: "cells s c = p" "storage s p = Live"
    and only: "protected s p \<Longrightarrow> \<forall>c'. c' \<noteq> c \<longrightarrow> cells s c' \<noteq> p"
  shows "sound (retire_state t c b p f s)"
proof -
  define s' where "s' = retire_state t c b p f s"
  have fields: "cells s' = (cells s)(c := b)" "ids s' = ids s" "act s' = act s" "held s' = held s" "delayed s' = delayed s"
      "delayed_lock s' = delayed_lock s" "storage s' = (storage s)(b := Live, p := Retired)" "free_queue s' = free_queue s"
      "store_buffer s' = store_buffer s" "tso s' = tso s" "queue_used s' = queue_used s"
      "work s' = (work s)(t := mono_thread_hazardous_free_or_queue p f @ [Unlock_domain])"
    by (simp_all add: s'_def retire_state_def)
  have same: "protected s' = protected s" "waiting s' = waiting s" "hazard s' = hazard s" "attached t' s' = attached t' s" for t'
    by (simp_all add: protected_def waiting_def hazard_def attached_def fields fun_eq_iff)
  have F: "to_free s' t' = (if t' = t then {#p#} else to_free s t')" "to_free s t = {#}" for t'
    using r frees_of_call [of p f] by (auto simp: to_free_def fields ready_def)
  have "acts_ok s'"
    using s act_ok_cong [of s _ _ s'] by (simp add: sound_def acts_ok_def fields same)
  moreover have "hazards_published s'" using s by (simp add: sound_def hazards_published_def fields same)
  moreover have "list_locked s'" using s by (simp add: sound_def list_locked_def fields)
  moreover have "held_stored s'" using s by (auto simp: sound_def held_stored_def fields same)
  moreover have "cells_live s'"
  proof -
    have "storage s' (cells s' c') = Live" if q: "protected s (cells s' c')" for c'
    proof (cases "c' = c")
      case True
      then show ?thesis using b(2) by (simp add: fields)
    next
      case False
      have "storage s (cells s c') = Live" using s q False by (simp add: sound_def cells_live_def fields)
      then show ?thesis using only q False by (auto simp: fields)
    qed
    then show ?thesis using s kind by (auto simp: sound_def cells_live_def fields same)
  qed
  moreover have "owned_once s'"
    unfolding owned_once_def
  proof (intro allI impI)
    fix q
    assume "protected s' q"
    then have q: "protected s q" "owned (count (waiting s) q) (\<lambda>t. count (to_free s t) q) (storage s q)"
      using s by (auto simp: same sound_def owned_once_def)
    show "owned (count (waiting s') q) (\<lambda>t. count (to_free s' t) q) (storage s' q)"
    proof (cases "q = p")
      case True
      then have "(\<lambda>t. count (to_free s' t) q) = (\<lambda>t. count (to_free s t) q)(t := Suc (count (to_free s t) q))"
        using F by (auto simp: fun_eq_iff)
      then show ?thesis using owned_retire [OF q(2), of t] p True by (simp add: same fields)
    next
      case False
      then have "count (to_free s' t') q = count (to_free s t') q" for t' using F by simp
      then show ?thesis using q(2) owned_idle [OF q(2), of Live] b False by (auto simp: same fields)
    qed
  qed
  ultimately show ?thesis unfolding sound_def s'_def by blast
qed

text \<open>Fields that the invariant does not mention.\<close>

lemma sound_counters:
  assumes "sound s"
  shows "sound (s\<lparr>num_tables := n, domain_lock := l\<rparr>)"
proof -
  let ?s' = "s\<lparr>num_tables := n, domain_lock := l\<rparr>"
  have mem: "same_memory s ?s'" by (simp add: same_memory_def)
  have "acts_ok ?s'" using assms act_ok_same_memory [OF mem] by (simp add: sound_def acts_ok_def)
  then show ?thesis
    using assms same_memory_simps [OF mem] by (intro sound_same_memory [OF assms mem])
      (simp_all add: sound_def list_locked_def owned_once_def waiting_def to_free_def)
qed

lemma replace_table_sound:
  assumes s: "sound s" and r: "replace_table t n s = Some s'"
  shows "sound s'"
proof -
  let ?p = "cells s Table_cell"
  have a: "ready t s" "storage s (Table n) = Unused"
    using r by (auto simp: replace_table_def split: if_splits)
  have c: "\<exists>m. ?p = Table m" "\<And>m k. cells s (Data m) \<noteq> Table k" "protected s ?p \<Longrightarrow> storage s ?p = Live"
    using s by (auto simp: sound_def cells_live_def)
  then have p: "storage s ?p = Live" by (auto simp: protected_def)
  have "sound (retire_state t Table_cell (Table n) ?p Jit_info_table_free s)"
    using s a c p by (intro retire_sound) (auto, metis cell.exhaust)
  moreover have "s' = (retire_state t Table_cell (Table n) ?p Jit_info_table_free s)\<lparr>num_tables := num_tables s + 1, domain_lock := Some t\<rparr>"
    using r by (intro hstate.equality) (auto simp: replace_table_def retire_state_def split: if_splits)
  ultimately show ?thesis using sound_counters by simp
qed

lemma cell_write_sound:
  assumes s: "sound s" and l: "storage s p \<noteq> Retired" and i: "p = Info j"
    and q: "queue_used s \<Longrightarrow> u" "\<And>r. protected s r \<Longrightarrow> st r = (if r = p then Live else storage s r) \<or> u \<and> (\<forall>n. r \<noteq> Table n)"
    and fq: "fq = free_queue s \<or> u \<and> (\<forall>r \<in> set fq. \<forall>n. r \<noteq> Table n)"
  shows "sound (s\<lparr>cells := (cells s)(Data n := p), storage := st, free_queue := fq, queue_used := u\<rparr>)" (is "sound ?s'")
proof -
  define s' where "s' = ?s'"
  have fields: "cells s' = (cells s)(Data n := p)" "ids s' = ids s" "act s' = act s" "held s' = held s" "delayed s' = delayed s"
      "delayed_lock s' = delayed_lock s" "storage s' = st" "free_queue s' = fq" "work s' = work s"
      "store_buffer s' = store_buffer s" "tso s' = tso s" "queue_used s' = u"
    by (simp_all add: s'_def)
  have same: "waiting s' = waiting s" "hazard s' = hazard s" "attached t' s' = attached t' s" "to_free s' t' = to_free s t'"
      "not_passed s' = not_passed s" "acquiring s' = acquiring s" for t'
    by (simp_all add: waiting_def hazard_def attached_def to_free_def not_passed_def acquiring_def fields fun_eq_iff)
  have P: "protected s r" "st r = (if r = p then Live else storage s r)" if "protected s' r" for r
  proof -
    have t: "r \<noteq> NULL" "\<not> u \<or> (\<exists>n. r = Table n)" using that by (auto simp: protected_def fields)
    then show "protected s r" using q(1) by (auto simp: protected_def)
    then show "st r = (if r = p then Live else storage s r)" using q(2) t(2) by blast
  qed
  have "act_ok s' t' a" if "act_ok s t' a" for t' a
    using that P(1) by (cases a) (auto simp: fields same)
  then have "acts_ok s'" using s by (simp add: sound_def acts_ok_def fields)
  moreover have "hazards_published s'" using s by (simp add: sound_def hazards_published_def fields same)
  moreover have "list_locked s'" using s by (simp add: sound_def list_locked_def fields)
  moreover have "held_stored s'" using s P by (auto simp: sound_def held_stored_def fields)
  moreover have "cells_live s'"
    using s i P fq q(1) by (auto simp: sound_def cells_live_def fields protected_def)
  moreover have "owned_once s'"
    unfolding owned_once_def
  proof (intro allI impI)
    fix q
    assume q: "protected s' q"
    then have "owned (count (waiting s) q) (\<lambda>t. count (to_free s t) q) (storage s q)"
      using s P(1) by (auto simp: sound_def owned_once_def)
    then show "owned (count (waiting s') q) (\<lambda>t. count (to_free s' t) q) (storage s' q)"
      using P(2) [OF q] owned_idle [of _ _ "storage s q" Live] l by (cases "q = p") (simp_all add: same fields)
  qed
  ultimately show ?thesis unfolding sound_def s'_def by blast
qed

lemma write_entry_sound:
  assumes s: "sound s" and r: "write_entry t n j s = Some s'"
  shows "sound s'"
proof -
  have a: "storage s (Info j) \<noteq> Retired"
    "s' = s\<lparr>cells := (cells s)(Data n := Info j), storage := (storage s)(Info j := Live), free_queue := free_queue s, queue_used := queue_used s\<rparr>"
    using r by (auto simp: write_entry_def split: if_splits)
  show ?thesis unfolding a(2) by (rule cell_write_sound [OF s a(1) refl]) auto
qed

lemma remove_entry_sound:
  assumes s: "sound s" and r: "remove_entry t n b s = Some s'" and o: "single_place (Remove_entry t n b) s"
  shows "sound s'"
proof -
  let ?p = "cells s (Data n)"
  have a: "ready t s" "storage s (Info b) = Unused" "?p \<noteq> NULL" "storage s ?p = Live"
    and s': "s' = mono_jit_info_free_or_queue_step t ?p
       (s\<lparr>cells := (cells s)(Data n := Info b), storage := (storage s)(Info b := Live, ?p := Retired)\<rparr>)"
    using r by (auto simp: remove_entry_def Let_def split: if_splits)
  have nt: "\<forall>m k. cells s (Data m) \<noteq> Table k" "\<exists>k. cells s Table_cell = Table k" using s by (auto simp: sound_def cells_live_def)
  show ?thesis
  proof (cases "num_tables s \<le> 1")
    case True
    have only: "\<forall>c'. c' \<noteq> Data n \<longrightarrow> cells s c' \<noteq> ?p"
    proof (intro allI impI)
      fix c'
      assume "c' \<noteq> Data n"
      then show "cells s c' \<noteq> ?p" using o True nt by (cases c') (auto simp: single_place_def)
    qed
    have "sound (retire_state t (Data n) (Info b) ?p G_free s)"
      using a only by (intro retire_sound [OF s]) auto
    moreover have "s' = (retire_state t (Data n) (Info b) ?p G_free s)\<lparr>num_tables := num_tables s, domain_lock := Some t\<rparr>"
      using s' True by (intro hstate.equality) (auto simp: mono_jit_info_free_or_queue_step_def retire_state_def)
    ultimately show ?thesis using sound_counters [where n = "num_tables s" and l = "Some t"] by simp
  next
    case False
    then have "s' = s\<lparr>cells := (cells s)(Data n := Info b), storage := (storage s)(Info b := Live, ?p := Retired),
        free_queue := ?p # free_queue s, queue_used := True\<rparr>"
      using s' by (intro hstate.equality) (auto simp: mono_jit_info_free_or_queue_step_def)
    moreover have "\<forall>q \<in> set (free_queue s). \<forall>n. q \<noteq> Table n" using s by (auto simp: sound_def cells_live_def protected_def)
    moreover have "Table k \<noteq> cells s (Data m)" for k m using nt(1) by metis
    ultimately show ?thesis
      using a(2) nt(1) by (auto intro!: cell_write_sound [OF s, of "Info b" b])
  qed
qed

section \<open>Reachable states\<close>

lemma perform_sound:
  assumes s: "sound s" and o: "single_place c s" and p: "perform c s = Some s'"
  shows "sound s' \<or> middle_removed s'"
proof -
  have d: "dispatch c s = Some s'" using p by (simp add: perform_def split: if_splits)
  show ?thesis
  proof (cases c)
    case (Exec t)
    then show ?thesis using d exec_sound [OF s] by simp
  next
    case (Remove_entry t n b)
    then show ?thesis using d o remove_entry_sound [OF s] by auto
  qed (use d drain_sound [OF s] acquire_sound [OF s] release_sound [OF s] replace_table_sound [OF s]
      write_entry_sound [OF s] try_free_all_sound [OF s] attach_sound [OF s] detach_sound [OF s] in auto)
qed


text \<open>A record of what happened stays.\<close>

lemma perform_history:
  assumes "perform c s = Some s'"
  shows "middle_removed s \<Longrightarrow> middle_removed s'" "tso s' = tso s"
proof -
  have d: "dispatch c s = Some s'" using assms by (simp add: perform_def split: if_splits)
  have e: "exec t s = Some s' \<Longrightarrow> (middle_removed s \<longrightarrow> middle_removed s') \<and> tso s' = tso s" for t
    by (cases "act s t"; cases "work s t" rule: list.exhaust)
      (auto simp: exec_def mono_hazard_pointer_set_def mono_hazard_pointer_clear_def crash_def unlock_delayed_def
        jit_info_table_free_def Let_def split: if_splits option.splits sum.splits bool.splits job.splits
        elim!: call_free_func.elims next_job.elims)
  show "middle_removed s \<Longrightarrow> middle_removed s'" "tso s' = tso s"
    using d e
    by (cases c; auto simp: drain_def acquire_def release_def replace_table_def write_entry_def remove_entry_def
        mono_jit_info_free_or_queue_step_def try_free_all_def attach_def detach_def mono_hazard_pointer_set_def
        mono_hazard_pointer_clear_def crash_def Let_def split: list.splits prod.splits if_splits sum.splits)+
qed

theorem reachable_sound:
  assumes "reachable (start False page) s" "page_ok page"
  shows "sound s \<or> middle_removed s"
  using assms
proof (induction rule: reachable.induct)
  case initial
  then show ?case using sound_start by blast
next
  case (step s c s')
  then show ?case using perform_sound perform_history(1) by blast
qed

end
