(* ===== verification/Hazard_Spec.thy ===== *)
theory Hazard_Spec
  imports Hazard_Calls
begin

text \<open>
  What the reclamation promises, and three ways in which the code of the source breaks it.
\<close>

section \<open>Small ids\<close>

text \<open>Threads start and end; each gets an id and gives it back.\<close>

inductive id_history :: "nat \<Rightarrow> SmallIds \<Rightarrow> bool" for page where
  none: "id_history page (no_ids page)"
| begins: "id_history page s \<Longrightarrow> thr \<noteq> 0 \<Longrightarrow> small_id_alloc thr s = Inr (i, s') \<Longrightarrow> id_history page s'"
| ends: "id_history page s \<Longrightarrow> small_id_free i s = Inr s' \<Longrightarrow> id_history page s'"

lemma id_history_ok: "id_history page s \<Longrightarrow> page_ok page \<Longrightarrow> ids_ok s"
proof (induction rule: id_history.induct)
  case none
  then show ?case by (rule ids_ok_no_ids)
next
  case (begins s thr i s')
  then show ?case
    using small_id_alloc_full [of s thr] small_id_alloc_ok [of s thr] by (cases "all_in_use s") (auto simp: allocated_def)
next
  case (ends s i s')
  then show ?case
    using small_id_free_spec [of s i] small_id_free_ok(1) [of s i] by (auto split: if_splits)
qed

text \<open>
  C15.  Small ids.  After any history of threads that start and end, a new thread gets an id
  unless all 16384 ids are in use, in which case the process aborts.  The id was free, the ids of the
  other threads stay, the table of hazard pointers has an entry for the id and keeps its contents,
  and the highest id covers all ids in use.
\<close>

theorem small_id_alloc_correct:
  assumes "id_history page s" "page_ok page" "thr \<noteq> 0"
  shows "small_id_alloc thr s = Inl Assert_failed \<and> small_id_table_size s = 16384 \<and> 0 \<notin> set (small_id_table s) \<or>
    (\<exists>i s'. small_id_alloc thr s = Inr (i, s') \<and> \<not> in_use s i \<and> small_id_table s' ! i = thr \<and>
      (\<forall>j. in_use s' j \<longleftrightarrow> j = i \<or> in_use s j) \<and>
      (\<forall>j. in_use s' j \<longrightarrow> j < hazard_table_size s' \<and> int j \<le> highest_small_id s') \<and>
      (\<forall>j < hazard_table_size s. hazard_table s' ! j = hazard_table s ! j))"
proof (cases "all_in_use s")
  case True
  then have "0 \<notin> set (small_id_table s)" by (auto simp: all_in_use_def in_use_def in_set_conv_nth)
  then show ?thesis
    using True small_id_alloc_full [OF id_history_ok [OF assms(1,2)] True] by (simp add: all_in_use_def HAZARD_TABLE_MAX_SIZE_def)
next
  case False
  then obtain i s' where "small_id_alloc thr s = Inr (i, s')" "allocated s thr i s'"
    using small_id_alloc_ok [OF id_history_ok [OF assms(1,2)]] assms(3) by blast
  then show ?thesis by (auto simp: allocated_def covers_more_def ids_ok_def)
qed

lemma page_ok_4096: "page_ok 4096"
  by (simp add: page_ok_def sizeof_hazard_def HAZARD_TABLE_MAX_SIZE_def)

theorem small_id_alloc_correct_witness:
  "\<exists>s'. small_id_alloc 7 (no_ids 4096) = Inr (0, s') \<and> in_use s' 0 \<and> hazard_table_size s' > 0"
proof -
  have "\<exists>s'. small_id_alloc 7 (no_ids 4096) = Inr (0, s')"
    by (simp add: small_id_alloc_def small_id_pick_def small_id_search_def no_ids_def hazard_table_grow_def
        sizeof_hazard_def HAZARD_TABLE_MAX_SIZE_def)
  then show ?thesis
    using small_id_alloc_correct [OF id_history.none page_ok_4096, of 7] by auto
qed

section \<open>What is held is not freed\<close>

text \<open>
  C11.  Hazard pointers protect what they are meant to protect, when stores become visible at once,
  as long as no item but one of the last two has been taken out of the list of delayed frees (others make it
  lose items), and for a page size that holds whole entries and divides the table of hazard pointers: in every reachable state, with any
  number of threads and any interleaving of their reads and writes, an index table that a thread got
  from \<open>get_hazardous_pointer\<close> and has not given up is not freed; neither is an entry, unless an
  entry went to the queue of the domain.  A block that is about to be freed is retired, is not
  held by anybody, and no other thread is about to free it.
\<close>

theorem held_is_not_freed:
  assumes "reachable (start False page) s" "page_ok page" "\<not> middle_removed s"
    and "p \<noteq> NULL" "(\<exists>n. p = Table n) \<or> \<not> queue_used s"
  shows "(held s t k = p \<longrightarrow> storage s p \<noteq> Unused) \<and>
    (act s t = Call_free p f \<longrightarrow> storage s p = Retired \<and> (\<forall>t' k. held s t' k \<noteq> p) \<and>
      (\<forall>t' g. act s t' = Call_free p g \<longrightarrow> t' = t))"
proof -
  have s: "sound s" using reachable_sound [OF assms(1,2)] assms(3) by blast
  have p: "protected s p" using assms(4,5) by (simp add: protected_def)
  have "storage s p = Retired \<and> (\<forall>t' g. act s t' = Call_free p g \<longrightarrow> t' = t)" if a: "act s t = Call_free p f"
  proof -
    have o: "owned (count (waiting s) p) (\<lambda>t. count (to_free s t) p) (storage s p)"
      using s p by (simp add: sound_def owned_once_def)
    have c: "0 < count (to_free s t') p" if "act s t' = Call_free p g" for t' g using that by (simp add: to_free_def)
    show ?thesis using o c [OF a] c unfolding owned_def by blast
  qed
  moreover have "\<forall>t' k. held s t' k \<noteq> p" if a: "act s t = Call_free p f"
  proof -
    have "act_ok s t (Call_free p f)" using s a unfolding sound_def acts_ok_def by metis
    then show ?thesis using p by simp
  qed
  moreover have "held s t k = p \<longrightarrow> storage s p \<noteq> Unused" using s p by (auto simp: sound_def held_stored_def)
  ultimately show ?thesis by blast
qed

subsection \<open>Runs\<close>

text \<open>A run whose removals happen while there is more than one table.\<close>

definition safe_command :: "command \<Rightarrow> hstate \<Rightarrow> bool" where
  "safe_command c s \<longleftrightarrow> (case c of Remove_entry t n b \<Rightarrow> 1 < num_tables s | _ \<Rightarrow> True)"

fun run :: "command list \<Rightarrow> hstate \<Rightarrow> hstate option" where
  "run [] s = Some s"
| "run (c # cs) s = (if safe_command c s then Option.bind (perform c s) (run cs) else None)"

lemma run_reachable: "run cs s = Some s' \<Longrightarrow> reachable s0 s \<Longrightarrow> reachable s0 s'"
proof (induction cs arbitrary: s)
  case (Cons c cs)
  then obtain s1 where "safe_command c s" "perform c s = Some s1" "run cs s1 = Some s'"
    by (auto split: if_splits bind_splits)
  moreover from this have "single_place c s" by (auto simp: safe_command_def single_place_def split: command.splits)
  ultimately show ?case using Cons reachable.step by blast
qed simp

definition ends_with :: "(hstate \<Rightarrow> bool) \<Rightarrow> hstate option \<Rightarrow> bool" where
  "ends_with P r = (case r of None \<Rightarrow> False | Some s \<Rightarrow> P s)"

lemma run_ends: "ends_with P (run cs s0) \<Longrightarrow> \<exists>s. reachable s0 s \<and> P s"
  using run_reachable [OF _ reachable.initial] by (auto simp: ends_with_def split: option.splits)

text \<open>Thread \<open>t\<close> acquires the table, or an entry; a replaced table is scanned for and freed or queued.\<close>

definition get :: "nat \<Rightarrow> nat \<Rightarrow> cell \<Rightarrow> command list" where
  "get t k c = Acquire t k c # replicate 3 (Exec t)"

lemma run_append: "run (xs @ ys) s = Option.bind (run xs s) (run ys)"
  by (induction xs arbitrary: s) (auto split: bind_splits)

lemma update_numeral: "(x # xs)[numeral n := y] = x # xs[pred_numeral n := y]"
  by (simp add: numeral_eq_Suc)

lemma replicate_numeral_Cons: "replicate (numeral n) x = x # replicate (pred_numeral n) x"
  by (simp add: numeral_eq_Suc)

lemmas run_eval = perform_def safe_command_def ends_with_def update_numeral replicate_numeral_Cons Let_def
  start_def no_ids_def INITIAL_CAPACITY_def HAZARD_TABLE_MAX_SIZE_def sizeof_hazard_def
  attach_def small_id_alloc_def small_id_pick_def small_id_search_def small_id_grow_def hazard_table_grow_def
  exec_def goto_def ready_def attached_def acquire_def release_def get_def
  mono_hazard_pointer_set_def mono_hazard_pointer_clear_def write_hazard_def set_slot_def slot_def hazard_def
  replace_table_def write_entry_def remove_entry_def mono_jit_info_free_or_queue_step_def try_free_all_def
  mono_thread_hazardous_free_or_queue_def mono_thread_hazardous_try_free_all_def highest_in_table_def
  is_pointer_hazardous_def unlock_delayed_def jit_info_table_free_def crash_def
  g_array_append_vals_def ensure_capacity_def element_offset_def element_length_def store_vals_def terminate_array_def g_array_remove_index_fast_def memmove_def

text \<open>
  Threads 0 and 1 read, thread 2 writes.  Thread 0 holds the first table while it is replaced, so
  the table waits in the list.  Thread 1 finds an entry in the new table and holds it; it is
  removed while there are two tables.  Then thread 0 lets go, and the first table is freed.
\<close>

definition entry_run :: "command list" where
  "entry_run = [Attach 11, Attach 12, Attach 13, Write_entry 2 0 1] @
     get 0 0 Table_cell @
     Replace_table 2 1 # replicate 7 (Exec 2) @
     get 1 0 Table_cell @ get 1 1 (Data 0) @
     [Remove_entry 2 0 9, Release 0 0, Try_free_all 2] @ replicate 11 (Exec 2)"

text \<open>
  C12.  An entry that a lookup holds can be freed.  The comment at \<open>mono_jit_info_free_or_queue\<close>
  asks whether an entry can be hazardous while there is one table; with more than one, the entry goes
  to the queue of the domain, and \<open>jit_info_table_free\<close> frees the queue without looking at the
  hazard pointers.  In a reachable state, with visible stores and without a lost item, thread 1 holds
  an entry, its hazard pointer says so, and the storage of the entry has been given back.
\<close>

theorem entry_freed_while_held:
  "\<exists>s. reachable (start False 64) s \<and> \<not> middle_removed s \<and> crashed s = None \<and>
    held s 1 1 = Info 1 \<and> hazard s 1 1 = Info 1 \<and> storage s (Info 1) = Unused"
  by (rule run_ends [of _ entry_run]) (simp add: entry_run_def run_eval)

text \<open>Thread 0 reads while its stores are delayed, thread 1 replaces the table.\<close>

definition weak_run :: "command list" where
  "weak_run = [Attach 11, Attach 12] @ get 0 0 Table_cell @ Replace_table 1 1 # replicate 10 (Exec 1)"

text \<open>
  C13.  The write barrier is too weak.  With stores that may be delayed, as on x86-64,
  where \<open>mono_memory_write_barrier\<close> is an \<open>sfence\<close> or, with the Microsoft compiler, no instruction
  at all, the second read in \<open>get_hazardous_pointer\<close> can come before the hazard pointer is visible:
  in a reachable state a thread holds the index table, and the table has been freed.
\<close>

theorem held_table_freed_with_delayed_stores:
  "\<exists>s. reachable (start True 64) s \<and> \<not> middle_removed s \<and> crashed s = None \<and>
    held s 0 0 = Table 0 \<and> storage s (Table 0) = Unused"
  by (rule run_ends [of _ weak_run]) (simp add: weak_run_def run_eval)

text \<open>
  Threads 0 to 2 hold the first three tables, thread 3 replaces them.  Then thread 0 lets go, and
  the list is tried twice.
\<close>

definition lost_run :: "command list" where
  "lost_run = [Attach 11, Attach 12, Attach 13, Attach 14] @
     get 0 0 Table_cell @ Replace_table 3 1 # replicate 7 (Exec 3) @
     get 1 0 Table_cell @ Replace_table 3 2 # replicate 12 (Exec 3) @
     get 2 0 Table_cell @ Replace_table 3 3 # replicate 19 (Exec 3) @
     [Release 0 0, Try_free_all 3] @ replicate 27 (Exec 3) @
     Try_free_all 3 # replicate 3 (Exec 3)"

text \<open>
  C14.  \<open>try_free_delayed_free_item\<close> takes an item out with \<open>g_array_remove_index_fast\<close>, which is
  wrong for all but the last two items.  In a reachable state the first of three items has been freed;
  the second is in the list no more and no thread is going to free it, so its table is lost; its
  place has a value that was never written, and the next try reads it.
\<close>

theorem delayed_item_lost:
  "\<exists>s. reachable (start False 64) s \<and> storage s (Table 1) = Retired \<and> (\<forall>t. Table 1 \<notin># to_free s t) \<and>
    array_len (delayed s) = 2 \<and> array_data (delayed s) ! 0 = Some (Table 2, Jit_info_table_free) \<and>
    array_data (delayed s) ! 1 = None \<and> crashed s = Some Out_of_bounds"
  by (rule run_ends [of _ lost_run]) (simp add: lost_run_def run_eval to_free_def)

theorem held_is_not_freed_witness:
  "\<exists>s. reachable (start False 4096) s \<and> held s 0 0 = Table 0 \<and> storage s (Table 0) \<noteq> Unused"
proof -
  obtain s where s: "reachable (start False 4096) s" "held s 0 0 = Table 0 \<and> \<not> middle_removed s"
    using run_ends [of "\<lambda>s. held s 0 0 = Table 0 \<and> \<not> middle_removed s" "Attach 11 # get 0 0 Table_cell" "start False 4096"]
    by (auto simp: run_eval)
  then show ?thesis using held_is_not_freed [OF s(1) page_ok_4096, of "Table 0" 0 0] by auto
qed

end
