(* ===== verification/Pe_Image.thy ===== *)
theory Pe_Image
  imports Meta_Tables
begin

text \<open>
  The loader of \<open>mono/metadata/image.c\<close> for a file that is mapped into memory, with the structures of
  \<open>cil-coff.h\<close>: PE header, section table, data directories, CLI header, metadata root and streams.  The
  records keep the fields that the modelled functions use.  \<open>None\<close> stands for the result \<open>FALSE\<close>; a
  read outside the mapped file is \<open>Out_of_bounds\<close>.  Sums with a \<open>sizeof\<close> are of 64 bits, other sums of
  \<open>guint32\<close> values wrap at 32 bits, and pointer arithmetic does not wrap.  The platform is
  little-endian, and \<open>USE_COREE\<close> is not defined.
\<close>

section \<open>Sequencing of checks\<close>

text \<open>A step may fail (\<open>Inl\<close>), refuse the image (\<open>Inr None\<close>) or go on.\<close>

definition bindc :: "'a option res \<Rightarrow> ('a \<Rightarrow> 'b option res) \<Rightarrow> 'b option res" where
  "bindc r k = bindr r (\<lambda>o'. case o' of None \<Rightarrow> Inr None | Some x \<Rightarrow> k x)"

definition refuse_if :: "bool \<Rightarrow> 'a option res \<Rightarrow> 'a option res" where
  "refuse_if b r = (if b then Inr None else r)"

lemma bindc_simps [simp]:
  "bindc (Inl e) k = Inl e" "bindc (Inr None) k = Inr None" "bindc (Inr (Some x)) k = k x"
  by (simp_all add: bindc_def)

lemma bindc_eq_Some [simp]: "bindc r k = Inr (Some y) \<longleftrightarrow> (\<exists>x. r = Inr (Some x) \<and> k x = Inr (Some y))"
  by (auto simp: bindc_def split: option.splits)

lemma refuse_if_simps [simp]: "refuse_if True r = Inr None" "refuse_if False r = r"
  by (simp_all add: refuse_if_def)

lemma refuse_if_eq_Some [simp]: "refuse_if b r = Inr (Some y) \<longleftrightarrow> \<not> b \<and> r = Inr (Some y)"
  by (simp add: refuse_if_def)

section \<open>Structures\<close>

abbreviation (input) INVALID_ADDRESS :: guint32 where "INVALID_ADDRESS \<equiv> 0xffffffff"

record MonoPEDirEntry =
  dir_rva :: guint32
  dir_size :: guint32

record MonoSectionTable =
  st_virtual_size :: guint32
  st_virtual_address :: guint32
  st_raw_data_size :: guint32
  st_raw_data_ptr :: guint32
  st_flags :: guint32

record MonoDotNetHeader =
  coff_sections :: guint16
  coff_opt_header_size :: guint16
  pe_magic :: guint16
  datadir :: "MonoPEDirEntry list"

record MonoCLIHeader =
  ch_metadata :: MonoPEDirEntry
  ch_flags :: guint32
  ch_resources :: MonoPEDirEntry

text \<open>The section count is the length of the section table.\<close>

record MonoCLIImageInfo =
  cli_header :: MonoDotNetHeader
  cli_section_tables :: "MonoSectionTable list"
  cli_cli_header :: MonoCLIHeader

definition no_cli_header :: MonoCLIHeader where
  "no_cli_header = \<lparr>ch_metadata = \<lparr>dir_rva = 0, dir_size = 0\<rparr>, ch_flags = 0, ch_resources = \<lparr>dir_rva = 0, dir_size = 0\<rparr>\<rparr>"

definition raw_data_len :: "guint8 list \<Rightarrow> guint32" where
  "raw_data_len m = of_nat (length m)"

definition memcpy_from :: "guint8 list \<Rightarrow> int \<Rightarrow> nat \<Rightarrow> guint8 list res" where
  "memcpy_from m p n = guardr (0 \<le> p \<and> p + int n \<le> int (length m)) Out_of_bounds (Inr (take n (drop (nat p) m)))"

definition read_dir_entry :: "guint8 list \<Rightarrow> int \<Rightarrow> MonoPEDirEntry res" where
  "read_dir_entry m p = bindr (read32 m p) (\<lambda>r. bindr (read32 m (p + 4)) (\<lambda>n. Inr \<lparr>dir_rva = r, dir_size = n\<rparr>))"

fun read_datadir :: "guint8 list \<Rightarrow> int \<Rightarrow> nat \<Rightarrow> MonoPEDirEntry list res" where
  "read_datadir m p 0 = Inr []"
| "read_datadir m p (Suc k) =
    bindr (read_dir_entry m p) (\<lambda>e. bindr (read_datadir m (p + 8) k) (\<lambda>es. Inr (e # es)))"

section \<open>PE headers\<close>

definition as_int :: "int \<Rightarrow> int" where
  "as_int x = sint (of_int x :: guint32)"

text \<open>The header and the offset behind it, which is an \<open>int\<close>.  The structures have 248 and 264 bytes.\<close>

definition do_load_header :: "guint8 list \<Rightarrow> int \<Rightarrow> (MonoDotNetHeader \<times> int) option res" where
  "do_load_header m offset =
    refuse_if (ucast (raw_data_len m) < (of_int offset + 248 :: guint64))
      (bindr (memcpy_from m offset 248) (\<lambda>header.
       bindr (read8 header 0) (\<lambda>p. bindr (read8 header 1) (\<lambda>e.
       bindr (read16 header 6) (\<lambda>nsections. bindr (read16 header 20) (\<lambda>opt_size. bindr (read16 header 24) (\<lambda>magic.
       refuse_if (p \<noteq> 0x50 \<or> e \<noteq> 0x45)
         (if magic = 0x10B then
            refuse_if (opt_size \<noteq> 224)
              (bindr (read_datadir header 120 16) (\<lambda>dirs.
               Inr (Some (\<lparr>coff_sections = nsections, coff_opt_header_size = opt_size, pe_magic = magic, datadir = dirs\<rparr>,
                 as_int (offset + 248)))))
          else if magic = 0x20B then
            refuse_if (opt_size \<noteq> 240)
              (bindr (memcpy_from m offset 264) (\<lambda>header64.
               bindr (read_datadir header64 136 16) (\<lambda>dirs.
               Inr (Some (\<lparr>coff_sections = nsections, coff_opt_header_size = opt_size, pe_magic = magic, datadir = dirs\<rparr>,
                 as_int (offset + 264))))))
          else Inr None))))))))"

definition read_section :: "guint8 list \<Rightarrow> int \<Rightarrow> MonoSectionTable res" where
  "read_section m p =
    bindr (read32 m (p + 8)) (\<lambda>vs. bindr (read32 m (p + 12)) (\<lambda>va. bindr (read32 m (p + 16)) (\<lambda>rs.
    bindr (read32 m (p + 20)) (\<lambda>rp. bindr (read32 m (p + 36)) (\<lambda>fl.
      Inr \<lparr>st_virtual_size = vs, st_virtual_address = va, st_raw_data_size = rs, st_raw_data_ptr = rp, st_flags = fl\<rparr>)))))"

fun load_section_tables :: "guint8 list \<Rightarrow> nat \<Rightarrow> guint32 \<Rightarrow> MonoSectionTable list option res" where
  "load_section_tables m 0 offset = Inr (Some [])"
| "load_section_tables m (Suc n) offset =
    refuse_if (ucast (raw_data_len m) < (ucast offset + 40 :: guint64))
      (bindr (memcpy_from m (uint offset) 40) (\<lambda>t.
       bindr (read_section t 0) (\<lambda>s.
       bindc (load_section_tables m n (offset + 40)) (\<lambda>ss. Inr (Some (s # ss))))))"

definition mono_image_load_pe_data :: "guint8 list \<Rightarrow> MonoCLIImageInfo option res" where
  "mono_image_load_pe_data m =
    refuse_if (raw_data_len m < 128)
      (bindr (memcpy_from m 0 128) (\<lambda>msdos.
       bindr (read8 msdos 0) (\<lambda>a. bindr (read8 msdos 1) (\<lambda>b. bindr (read32 msdos 60) (\<lambda>pe_offset.
       refuse_if (a \<noteq> 0x4D \<or> b \<noteq> 0x5A)
         (bindc (do_load_header m (sint pe_offset)) (\<lambda>(header, offset).
          refuse_if (offset < 0)
            (bindc (load_section_tables m (unat (coff_sections header)) (of_int offset)) (\<lambda>ss.
             Inr (Some \<lparr>cli_header = header, cli_section_tables = ss, cli_cli_header = no_cli_header\<rparr>))))))))))"

section \<open>Addresses\<close>

fun mono_cli_rva_image_map :: "MonoSectionTable list \<Rightarrow> guint32 \<Rightarrow> guint32" where
  "mono_cli_rva_image_map [] a = INVALID_ADDRESS"
| "mono_cli_rva_image_map (t # ts) a =
    (if a \<ge> st_virtual_address t \<and> a < st_virtual_address t + st_raw_data_size t
     then a - st_virtual_address t + st_raw_data_ptr t
     else mono_cli_rva_image_map ts a)"

definition mono_image_ensure_section_idx :: "guint8 list \<Rightarrow> MonoSectionTable \<Rightarrow> bool" where
  "mono_image_ensure_section_idx m sect \<longleftrightarrow> \<not> (st_raw_data_ptr sect + st_raw_data_size sect > raw_data_len m)"

text \<open>The address of the first byte, \<open>None\<close> for the null pointer.\<close>

fun mono_image_rva_map :: "guint8 list \<Rightarrow> MonoSectionTable list \<Rightarrow> guint32 \<Rightarrow> int option" where
  "mono_image_rva_map m [] a = None"
| "mono_image_rva_map m (t # ts) a =
    (if a \<ge> st_virtual_address t \<and> a < st_virtual_address t + st_raw_data_size t
     then if mono_image_ensure_section_idx m t
          then Some (uint (st_raw_data_ptr t) + uint (a - st_virtual_address t)) else None
     else mono_image_rva_map m ts a)"

section \<open>CLI header and metadata root\<close>

text \<open>The header has 136 bytes.\<close>

definition load_cli_header :: "guint8 list \<Rightarrow> MonoCLIImageInfo \<Rightarrow> MonoCLIImageInfo option res" where
  "load_cli_header m iinfo =
    (let offset = mono_cli_rva_image_map (cli_section_tables iinfo) (dir_rva (datadir (cli_header iinfo) ! 14)) in
     refuse_if (offset = INVALID_ADDRESS)
       (refuse_if (ucast (raw_data_len m) < (ucast offset + 136 :: guint64))
         (bindr (memcpy_from m (uint offset) 136) (\<lambda>h.
          bindr (read_dir_entry h 8) (\<lambda>md. bindr (read32 h 16) (\<lambda>fl. bindr (read_dir_entry h 24) (\<lambda>rs.
          Inr (Some (iinfo\<lparr>cli_cli_header := \<lparr>ch_metadata = md, ch_flags = fl, ch_resources = rs\<rparr>\<rparr>)))))))))"

text \<open>\<open>strncmp\<close> with a text that ends in its null character, or of exactly the compared length.\<close>

fun strncmp_is :: "guint8 list \<Rightarrow> int \<Rightarrow> guint8 list \<Rightarrow> bool res" where
  "strncmp_is m p [] = Inr True"
| "strncmp_is m p (c # cs) = bindr (read8 m p) (\<lambda>b. if b \<noteq> c then Inr False else strncmp_is m (p + 1) cs)"

text \<open>\<open>strlen\<close>: the number of bytes before the null character.\<close>

function strlen_at :: "guint8 list \<Rightarrow> int \<Rightarrow> nat res" where
  "strlen_at m p =
    (if 0 \<le> p \<and> p < int (length m)
     then if m ! nat p = 0 then Inr 0 else bindr (strlen_at m (p + 1)) (\<lambda>n. Inr (n + 1))
     else Inl Out_of_bounds)"
  by pat_completeness auto

termination by (relation "measure (\<lambda>(m, p). nat (int (length m) - p))") auto

declare strlen_at.simps [simp del]

text \<open>\<open>g_strndup\<close> reads up to the null character or to the given length; its copy is not used here.\<close>

fun strndup_reads :: "guint8 list \<Rightarrow> int \<Rightarrow> nat \<Rightarrow> unit res" where
  "strndup_reads m p 0 = Inr ()"
| "strndup_reads m p (Suc n) = bindr (read8 m p) (\<lambda>b. if b = 0 then Inr () else strndup_reads m (p + 1) n)"

text \<open>The next position that is a multiple of 4 from the root on; the difference is taken as a \<open>guint32\<close>.\<close>

definition pad_from :: "int \<Rightarrow> int \<Rightarrow> int" where
  "pad_from root p = (let pad = uint (of_int (p - root) :: guint32) in if pad mod 4 \<noteq> 0 then p + (4 - pad mod 4) else p)"

definition S_tilde :: "guint8 list" where "S_tilde = [0x23, 0x7E, 0]"
definition S_minus :: "guint8 list" where "S_minus = [0x23, 0x2D, 0]"
definition S_Strings :: "guint8 list" where "S_Strings = [0x23, 0x53, 0x74, 0x72, 0x69, 0x6E, 0x67, 0x73, 0]"
definition S_US :: "guint8 list" where "S_US = [0x23, 0x55, 0x53, 0]"
definition S_Blob :: "guint8 list" where "S_Blob = [0x23, 0x42, 0x6C, 0x6F, 0x62, 0]"
definition S_GUID :: "guint8 list" where "S_GUID = [0x23, 0x47, 0x55, 0x49, 0x44, 0]"

text \<open>One stream header at \<open>p\<close>: the heap that it describes, and the image with that heap.\<close>

definition set_heap :: "guint8 list \<Rightarrow> MonoStreamHeader \<Rightarrow> MonoImage \<Rightarrow> MonoImage" where
  "set_heap name h im =
    (if name = S_tilde then im\<lparr>heap_tables := h\<rparr>
     else if name = S_Strings then im\<lparr>heap_strings := h\<rparr>
     else if name = S_US then im\<lparr>heap_us := h\<rparr>
     else if name = S_Blob then im\<lparr>heap_blob := h\<rparr>
     else if name = S_GUID then im\<lparr>heap_guid := h\<rparr>
     else im\<lparr>heap_tables := h, uncompressed_metadata := True\<rparr>)"

fun match_stream :: "guint8 list \<Rightarrow> int \<Rightarrow> guint8 list list \<Rightarrow> guint8 list option res" where
  "match_stream m p [] = Inr None"
| "match_stream m p (s # ss) = bindr (strncmp_is m p s) (\<lambda>b. if b then Inr (Some s) else match_stream m p ss)"

fun stream_headers_loop :: "guint8 list \<Rightarrow> int \<Rightarrow> nat \<Rightarrow> int \<Rightarrow> MonoImage \<Rightarrow> MonoImage res" where
  "stream_headers_loop m root 0 p im = Inr im"
| "stream_headers_loop m root (Suc n) p im =
    bindr (match_stream m (p + 8) [S_tilde, S_Strings, S_US, S_Blob, S_GUID, S_minus]) (\<lambda>found.
    case found of
      Some s \<Rightarrow>
        bindr (read32 m p) (\<lambda>off. bindr (read32 m (p + 4)) (\<lambda>sz.
        stream_headers_loop m root n (pad_from root (p + 8 + int (length s)))
          (set_heap s \<lparr>heap_data = Some (root + uint off), heap_size = unat sz\<rparr> im)))
    | None \<Rightarrow>
        bindr (strlen_at m (p + 8)) (\<lambda>n'.
        stream_headers_loop m root n (pad_from root (p + 8 + int n' + 1)) im))"

definition load_metadata_ptrs :: "MonoImage \<Rightarrow> MonoCLIImageInfo \<Rightarrow> MonoImage option res" where
  "load_metadata_ptrs im iinfo =
    (let m = raw_data im;
         offset = mono_cli_rva_image_map (cli_section_tables iinfo) (dir_rva (ch_metadata (cli_cli_header iinfo)));
         sz = dir_size (ch_metadata (cli_cli_header iinfo)); root = uint offset in
     refuse_if (offset = INVALID_ADDRESS)
       (refuse_if (offset + sz > raw_data_len m)
         (bindr (strncmp_is m root [0x42, 0x53, 0x4A, 0x42]) (\<lambda>magic.
          refuse_if (\<not> magic)
            (bindr (read16 m (root + 4)) (\<lambda>major. bindr (read16 m (root + 6)) (\<lambda>minor.
             bindr (read32 m (root + 12)) (\<lambda>version_string_len.
             bindr (strndup_reads m (root + 16) (unat version_string_len)) (\<lambda>_.
             let p = pad_from root (root + 16 + uint version_string_len) + 2 in
             bindr (read16 m p) (\<lambda>streams.
             bindr (stream_headers_loop m root (unat streams) (p + 2) im) (\<lambda>im.
             case heap_data (heap_guid im) of None \<Rightarrow> Inl Assert_failed
             | Some g \<Rightarrow>
                 guardr (heap_size (heap_guid im) \<ge> 16) Assert_failed
                   (bindr (memcpy_from m g 16) (\<lambda>_. Inr (Some im))))))))))))))"

definition load_metadata :: "MonoImage \<Rightarrow> MonoCLIImageInfo \<Rightarrow> MonoImage option res" where
  "load_metadata im iinfo =
    bindc (load_metadata_ptrs im iinfo) (\<lambda>im. bindr (load_tables im) (\<lambda>image. Inr (Some im)))"

definition mono_image_load_cli_data :: "MonoImage \<Rightarrow> MonoCLIImageInfo \<Rightarrow> (MonoImage \<times> MonoCLIImageInfo) option res" where
  "mono_image_load_cli_data im iinfo =
    bindc (load_cli_header (raw_data im) iinfo) (\<lambda>iinfo.
    bindc (load_metadata im iinfo) (\<lambda>im. Inr (Some (im, iinfo))))"

end
