(* ===== verification/Ver_Headers.thy ===== *)
theory Ver_Headers
  imports Pe_Image
begin

text \<open>
  The first two stages of \<open>mono/metadata/metadata-verify.c\<close>: the checks of the PE headers before the
  loader reads them, and the checks of the CLI header, the metadata root and the row counts before
  the tables are loaded.  A check that calls \<open>ADD_ERROR\<close> refuses the image (\<open>Inr None\<close>); the
  messages are left out, and warnings are off, as in \<open>init_verify_context\<close>.
\<close>

section \<open>Context\<close>

record DataDirectory =
  rva :: guint32
  data_size :: guint32
  translated_offset :: guint32

record OffsetAndSize =
  off_offset :: guint32
  off_size :: guint32

record SectionHeader =
  baseRVA :: guint32
  baseOffset :: guint32
  sec_size :: guint32
  rellocationsRVA :: guint32
  numberOfRelocations :: guint16

datatype verify_stage = STAGE_PE | STAGE_CLI | STAGE_TABLES

record VerifyContext =
  ctx_data :: "guint8 list"
  ctx_token :: guint32
  ctx_image :: MonoImage
  ctx_info :: MonoCLIImageInfo
  ctx_stage :: verify_stage
  data_directories :: "DataDirectory list"
  ctx_sections :: "SectionHeader list option"
  metadata_streams :: "OffsetAndSize list"

definition init_verify_context :: "MonoImage \<Rightarrow> MonoCLIImageInfo \<Rightarrow> verify_stage \<Rightarrow> VerifyContext" where
  "init_verify_context im iinfo st = \<lparr>ctx_data = raw_data im, ctx_token = 0, ctx_image = im, ctx_info = iinfo, ctx_stage = st,
     data_directories = replicate 16 \<lparr>rva = 0, data_size = 0, translated_offset = 0\<rparr>, ctx_sections = None,
     metadata_streams = replicate 5 \<lparr>off_offset = 0, off_size = 0\<rparr>\<rparr>"

definition ctx_size :: "VerifyContext \<Rightarrow> guint32" where
  "ctx_size ctx = raw_data_len (ctx_data ctx)"

abbreviation (input) INVALID_OFFSET :: guint32 where "INVALID_OFFSET \<equiv> 0xffffffff"
abbreviation (input) IMPORT_TABLE_IDX :: nat where "IMPORT_TABLE_IDX \<equiv> 1"
abbreviation (input) RESOURCE_TABLE_IDX :: nat where "RESOURCE_TABLE_IDX \<equiv> 2"
abbreviation (input) CERTIFICATE_TABLE_IDX :: nat where "CERTIFICATE_TABLE_IDX \<equiv> 4"
abbreviation (input) IAT_IDX :: nat where "IAT_IDX \<equiv> 12"
abbreviation (input) CLI_HEADER_IDX :: nat where "CLI_HEADER_IDX \<equiv> 14"

section \<open>Bounds\<close>

definition pe_signature_offset :: "VerifyContext \<Rightarrow> guint32 res" where
  "pe_signature_offset ctx = read32 (ctx_data ctx) 0x3c"

definition pe_header_offset :: "VerifyContext \<Rightarrow> guint32 res" where
  "pe_header_offset ctx = bindr (read32 (ctx_data ctx) 0x3c) (\<lambda>v. Inr (v + 4))"

definition bounds_check_virtual_address :: "VerifyContext \<Rightarrow> guint32 \<Rightarrow> guint32 \<Rightarrow> bool" where
  "bounds_check_virtual_address ctx r sz =
    (if r + sz < r then False
     else if ctx_stage ctx \<noteq> STAGE_PE then
       list_ex (\<lambda>t. r \<ge> st_virtual_address t \<and> r + sz \<le> st_virtual_address t + st_raw_data_size t) (cli_section_tables (ctx_info ctx))
     else case ctx_sections ctx of None \<Rightarrow> False
       | Some ss \<Rightarrow> list_ex (\<lambda>s. r \<ge> baseRVA s \<and> r + sz \<le> baseRVA s + sec_size s) ss)"

definition bounds_check_datadir :: "DataDirectory \<Rightarrow> guint32 \<Rightarrow> guint32 \<Rightarrow> bool" where
  "bounds_check_datadir dir offset sz =
    (if translated_offset dir > offset then False
     else if data_size dir < sz then False
     else offset + sz \<le> translated_offset dir + data_size dir)"

definition bounds_check_offset :: "OffsetAndSize \<Rightarrow> guint32 \<Rightarrow> guint32 \<Rightarrow> bool" where
  "bounds_check_offset off offset sz =
    (if off_offset off > offset then False
     else if off_size off < sz then False
     else offset + sz \<le> off_offset off + off_size off)"

fun translate_in :: "guint32 \<Rightarrow> SectionHeader list \<Rightarrow> guint32 \<Rightarrow> guint32" where
  "translate_in sz [] r = INVALID_OFFSET"
| "translate_in sz (s # ss) r =
    (if r \<ge> baseRVA s \<and> r \<le> baseRVA s + sec_size s then
       let res = (r - baseRVA s) + baseOffset s in if res \<ge> sz then INVALID_OFFSET else res
     else translate_in sz ss r)"

definition translate_rva :: "VerifyContext \<Rightarrow> guint32 \<Rightarrow> guint32" where
  "translate_rva ctx r =
    (if ctx_stage ctx \<noteq> STAGE_PE then mono_cli_rva_image_map (cli_section_tables (ctx_info ctx)) r
     else case ctx_sections ctx of None \<Rightarrow> 0 | Some ss \<Rightarrow> translate_in (ctx_size ctx) ss r)"

section \<open>PE headers\<close>

definition verify_msdos_header :: "VerifyContext \<Rightarrow> unit option res" where
  "verify_msdos_header ctx =
    refuse_if (ctx_size ctx < 128)
      (bindr (read8 (ctx_data ctx) 0) (\<lambda>a. bindr (read8 (ctx_data ctx) 1) (\<lambda>b.
       refuse_if (a \<noteq> 0x4d \<or> b \<noteq> 0x5a)
         (bindr (pe_signature_offset ctx) (\<lambda>lfanew. refuse_if (lfanew > ctx_size ctx - 4) (Inr (Some ())))))))"

text \<open>The build is for AMD64, so both machine values are accepted.\<close>

definition verify_pe_header :: "VerifyContext \<Rightarrow> unit option res" where
  "verify_pe_header ctx =
    bindr (pe_signature_offset ctx) (\<lambda>offset.
    bindr (strncmp_is (ctx_data ctx) (uint offset) [0x50, 0x45, 0, 0]) (\<lambda>sig.
    refuse_if (\<not> sig)
      (refuse_if (offset + 4 > ctx_size ctx - 20)
        (bindr (read16 (ctx_data ctx) (uint offset + 4)) (\<lambda>machine.
         refuse_if (machine \<noteq> 0x14c \<and> machine \<noteq> 0x8664) (Inr (Some ())))))))"

definition verify_pe_optional_header :: "VerifyContext \<Rightarrow> unit option res" where
  "verify_pe_optional_header ctx =
    bindr (pe_header_offset ctx) (\<lambda>offset.
    let m = ctx_data ctx; pe_header = uint offset; opt = pe_header + 20 in
    bindr (read16 m (pe_header + 16)) (\<lambda>hs.
    let header_size = ucast hs; offset = offset + 20 in
    refuse_if (header_size < 2)
      (refuse_if (offset > ctx_size ctx - header_size \<or> header_size > ctx_size ctx)
        (bindr (read16 m opt) (\<lambda>magic.
         refuse_if (magic \<noteq> 0x10b)
           (refuse_if (header_size \<noteq> 224)
             (bindr (read32 m (opt + 32)) (\<lambda>section_alignment.
              refuse_if (section_alignment \<noteq> 0x2000)
                (bindr (read32 m (opt + 36)) (\<lambda>file_alignment.
                 refuse_if (file_alignment \<noteq> 0x200 \<and> file_alignment \<noteq> 0x1000)
                   (bindr (read32 m (opt + 92)) (\<lambda>n. refuse_if (n > 0x10) (Inr (Some ()))))))))))))))"

fun read_section_headers :: "guint8 list \<Rightarrow> int \<Rightarrow> nat \<Rightarrow> SectionHeader list res" where
  "read_section_headers m ptr 0 = Inr []"
| "read_section_headers m ptr (Suc n) =
    bindr (read32 m (ptr + 8)) (\<lambda>sz. bindr (read32 m (ptr + 12)) (\<lambda>b. bindr (read32 m (ptr + 20)) (\<lambda>off.
    bindr (read32 m (ptr + 24)) (\<lambda>rel. bindr (read16 m (ptr + 32)) (\<lambda>nrel.
    bindr (read_section_headers m (ptr + 40) n) (\<lambda>ss.
      Inr (\<lparr>baseRVA = b, baseOffset = off, sec_size = sz, rellocationsRVA = rel, numberOfRelocations = nrel\<rparr> # ss)))))))"

fun check_section_headers :: "guint8 list \<Rightarrow> guint32 \<Rightarrow> int \<Rightarrow> SectionHeader list \<Rightarrow> unit option res" where
  "check_section_headers m sz ptr [] = Inr (Some ())"
| "check_section_headers m sz ptr (s # ss) =
    refuse_if (baseOffset s = 0)
      (refuse_if (baseOffset s \<ge> sz)
        (refuse_if (sec_size s > sz - baseOffset s)
          (bindr (read32 m (ptr + 16)) (\<lambda>raw_size.
           refuse_if (raw_size < sec_size s)
             (refuse_if (raw_size > sz - baseOffset s)
               (refuse_if (rellocationsRVA s \<noteq> 0 \<or> numberOfRelocations s \<noteq> 0)
                 (bindr (read32 m (ptr + 36)) (\<lambda>flags.
                  refuse_if (flags = 0 \<or> flags AND NOT 0xFE0000E0 \<noteq> 0) (check_section_headers m sz (ptr + 40) ss)))))))))"

text \<open>\<open>g_new0\<close> returns the null pointer for zero sections.\<close>

definition new_sections :: "SectionHeader list \<Rightarrow> SectionHeader list option" where
  "new_sections ss = (if ss = [] then None else Some ss)"

definition load_section_table :: "VerifyContext \<Rightarrow> VerifyContext option res" where
  "load_section_table ctx =
    bindr (pe_header_offset ctx) (\<lambda>offset.
    let m = ctx_data ctx in
    bindr (read16 m (uint offset + 2)) (\<lambda>num_sections.
    refuse_if (ucast num_sections * 40 > ctx_size ctx - (offset + 244))
      (bindr (read_section_headers m (uint offset + 244) (unat num_sections)) (\<lambda>ss.
       bindc (check_section_headers m (ctx_size ctx) (uint (offset + 244)) ss) (\<lambda>_.
       Inr (Some (ctx\<lparr>ctx_sections := new_sections ss\<rparr>)))))))"

section \<open>Data directories\<close>

definition is_valid_data_directory :: "nat \<Rightarrow> bool" where
  "is_valid_data_directory i \<longleftrightarrow> i = 1 \<or> i = 2 \<or> i = 5 \<or> i = 12 \<or> i = 14 \<or> i = 4 \<or> i = 6"

fun data_directories_loop :: "VerifyContext \<Rightarrow> int \<Rightarrow> nat list \<Rightarrow> VerifyContext option res" where
  "data_directories_loop ctx ptr [] = Inr (Some ctx)"
| "data_directories_loop ctx ptr (i # is) =
    bindr (read32 (ctx_data ctx) ptr) (\<lambda>r. bindr (read32 (ctx_data ctx) (ptr + 4)) (\<lambda>sz.
    if i = CERTIFICATE_TABLE_IDX then data_directories_loop ctx (ptr + 8) is
    else
      refuse_if ((r \<noteq> 0 \<or> sz \<noteq> 0) \<and> \<not> is_valid_data_directory i)
        (refuse_if (r \<noteq> 0 \<and> \<not> bounds_check_virtual_address ctx r sz)
          (data_directories_loop
            (ctx\<lparr>data_directories := (data_directories ctx)[i := \<lparr>rva = r, data_size = sz, translated_offset = translate_rva ctx r\<rparr>]\<rparr>)
            (ptr + 8) is))))"

definition load_data_directories :: "VerifyContext \<Rightarrow> VerifyContext option res" where
  "load_data_directories ctx =
    bindr (pe_header_offset ctx) (\<lambda>offset. data_directories_loop ctx (uint (offset + 116)) [0..<16])"

definition mscoree_dll :: "guint8 list" where
  "mscoree_dll = [0x6D, 0x73, 0x63, 0x6F, 0x72, 0x65, 0x65, 0x2E, 0x64, 0x6C, 0x6C, 0]"

definition CorExeMain :: "guint8 list" where
  "CorExeMain = [0x5F, 0x43, 0x6F, 0x72, 0x45, 0x78, 0x65, 0x4D, 0x61, 0x69, 0x6E, 0]"

definition CorDllMain :: "guint8 list" where
  "CorDllMain = [0x5F, 0x43, 0x6F, 0x72, 0x44, 0x6C, 0x6C, 0x4D, 0x61, 0x69, 0x6E, 0]"

definition verify_hint_name_table :: "VerifyContext \<Rightarrow> guint32 \<Rightarrow> unit option res" where
  "verify_hint_name_table ctx import_rva =
    (let import_rva = translate_rva ctx import_rva in
     guardr (import_rva \<noteq> INVALID_OFFSET) Assert_failed
       (bindr (read32 (ctx_data ctx) (uint import_rva)) (\<lambda>hint_table_rva.
        refuse_if (\<not> bounds_check_virtual_address ctx hint_table_rva 14)
          (let hint_table_rva = translate_rva ctx hint_table_rva in
           guardr (hint_table_rva \<noteq> INVALID_OFFSET) Assert_failed
             (bindr (memcpy_from (ctx_data ctx) (uint hint_table_rva + 2) 12) (\<lambda>name.
              refuse_if (name \<noteq> CorExeMain \<and> name \<noteq> CorDllMain) (Inr (Some ()))))))))"

definition verify_import_table :: "VerifyContext \<Rightarrow> unit option res" where
  "verify_import_table ctx =
    (let it = data_directories ctx ! IMPORT_TABLE_IDX; m = ctx_data ctx; ptr = uint (translated_offset it) in
     guardr (translated_offset it \<noteq> INVALID_OFFSET) Assert_failed
       (refuse_if (data_size it < 40)
         (bindr (read32 m ptr) (\<lambda>ilt_rva.
          refuse_if (ilt_rva \<noteq> 0 \<and> \<not> bounds_check_virtual_address ctx ilt_rva 8)
            (bindr (read32 m (ptr + 12)) (\<lambda>name_rva.
             refuse_if (name_rva \<noteq> 0 \<and> \<not> bounds_check_virtual_address ctx name_rva 12)
               (bindr (read32 m (ptr + 16)) (\<lambda>iat_rva.
                refuse_if (iat_rva \<noteq> 0 \<and> (\<not> bounds_check_virtual_address ctx iat_rva 8 \<or> iat_rva \<noteq> rva (data_directories ctx ! IAT_IDX)))
                  (bindc (if name_rva = 0 then Inr (Some ())
                          else guardr (translate_rva ctx name_rva \<noteq> INVALID_OFFSET) Assert_failed
                            (bindr (memcpy_from m (uint (translate_rva ctx name_rva)) 12) (\<lambda>name.
                             refuse_if (name \<noteq> mscoree_dll) (Inr (Some ()))))) (\<lambda>_.
                   bindc (if ilt_rva = 0 then Inr (Some ()) else verify_hint_name_table ctx ilt_rva) (\<lambda>_.
                   if iat_rva = 0 then Inr (Some ()) else verify_hint_name_table ctx iat_rva)))))))))))"

definition verify_resources_table :: "VerifyContext \<Rightarrow> unit option res" where
  "verify_resources_table ctx =
    (let it = data_directories ctx ! RESOURCE_TABLE_IDX; m = ctx_data ctx; ptr = uint (translated_offset it) in
     if rva it = 0 then Inr (Some ())
     else refuse_if (data_size it < 16)
       (guardr (translated_offset it \<noteq> INVALID_OFFSET) Assert_failed
         (bindr (read16 m (ptr + 12)) (\<lambda>named_entries. bindr (read16 m (ptr + 14)) (\<lambda>id_entries.
          refuse_if ((ucast named_entries + ucast id_entries) * 8 + 16 > data_size it) (Inr (Some ())))))))"

text \<open>\<open>enabled\<close> is the result of \<open>mono_verifier_is_enabled_for_image\<close>.\<close>

definition mono_verifier_verify_pe_data :: "bool \<Rightarrow> MonoImage \<Rightarrow> MonoCLIImageInfo \<Rightarrow> unit option res" where
  "mono_verifier_verify_pe_data enabled_for_image im iinfo =
    (if \<not> enabled_for_image then Inr (Some ())
     else
       let ctx = init_verify_context im iinfo STAGE_PE in
       bindc (verify_msdos_header ctx) (\<lambda>_.
       bindc (verify_pe_header ctx) (\<lambda>_.
       bindc (verify_pe_optional_header ctx) (\<lambda>_.
       bindc (load_section_table ctx) (\<lambda>ctx.
       bindc (load_data_directories ctx) (\<lambda>ctx.
       bindc (verify_import_table ctx) (\<lambda>_.
       verify_resources_table ctx)))))))"

section \<open>CLI header and metadata root\<close>

definition get_data_dir :: "VerifyContext \<Rightarrow> nat \<Rightarrow> DataDirectory" where
  "get_data_dir ctx idx =
    (let entry = datadir (cli_header (ctx_info ctx)) ! idx in
     \<lparr>rva = dir_rva entry, data_size = dir_size entry, translated_offset = translate_rva ctx (dir_rva entry)\<rparr>)"

fun cli_sections_loop :: "VerifyContext \<Rightarrow> int \<Rightarrow> nat list \<Rightarrow> unit option res" where
  "cli_sections_loop ctx ptr [] = Inr (Some ())"
| "cli_sections_loop ctx ptr (i # is) =
    bindr (read32 (ctx_data ctx) ptr) (\<lambda>r. bindr (read32 (ctx_data ctx) (ptr + 4)) (\<lambda>sz.
    refuse_if (r \<noteq> 0 \<and> \<not> bounds_check_virtual_address ctx r sz)
      (refuse_if (r \<noteq> 0 \<and> i > 1) (cli_sections_loop ctx (ptr + 8) is))))"

definition verify_cli_header :: "VerifyContext \<Rightarrow> unit option res" where
  "verify_cli_header ctx =
    (let it = get_data_dir ctx CLI_HEADER_IDX; m = ctx_data ctx; ptr = uint (translated_offset it) in
     refuse_if (rva it = 0)
       (refuse_if (data_size it \<noteq> 72)
         (guardr (translated_offset it \<noteq> INVALID_OFFSET) Assert_failed
           (bindr (read16 m ptr) (\<lambda>cb.
            refuse_if (cb \<noteq> 72)
              (bindr (read32 m (ptr + 8)) (\<lambda>r. bindr (read32 m (ptr + 12)) (\<lambda>sz.
               refuse_if (\<not> bounds_check_virtual_address ctx r sz)
                 (refuse_if (r = 0 \<or> sz = 0)
                   (bindr (read32 m (ptr + 16)) (\<lambda>flags.
                    refuse_if (flags AND NOT 0x0001000B \<noteq> 0) (cli_sections_loop ctx (ptr + 24) [0..<6]))))))))))))"

definition pad4 :: "guint32 \<Rightarrow> guint32" where
  "pad4 offset = (if offset AND 0x3 \<noteq> 0 then (offset AND NOT 0x3) + 4 else offset)"

abbreviation (input) STRINGS_STREAM :: nat where "STRINGS_STREAM \<equiv> 0"
abbreviation (input) USER_STRINGS_STREAM :: nat where "USER_STRINGS_STREAM \<equiv> 1"
abbreviation (input) BLOB_STREAM :: nat where "BLOB_STREAM \<equiv> 2"
abbreviation (input) GUID_STREAM :: nat where "GUID_STREAM \<equiv> 3"
abbreviation (input) TILDE_STREAM :: nat where "TILDE_STREAM \<equiv> 4"

text \<open>
  The loop over the name of a stream, of which \<open>k\<close> bytes may still be read: the offset behind the last
  byte that was checked and the number of bytes before the end.
\<close>

fun name_loop :: "guint8 list \<Rightarrow> DataDirectory \<Rightarrow> int \<Rightarrow> guint32 \<Rightarrow> nat \<Rightarrow> nat \<Rightarrow> (guint32 \<times> nat) option res" where
  "name_loop m it ptr offset string_size 0 = Inr (Some (offset, string_size))"
| "name_loop m it ptr offset string_size (Suc k) =
    refuse_if (\<not> bounds_check_datadir it offset 1)
      (bindr (read8 m (ptr + int string_size)) (\<lambda>c.
       if c = 0 then Inr (Some (offset + 1, string_size))
       else name_loop m it ptr (offset + 1) (string_size + 1) k))"

definition stream_index :: "guint8 list \<Rightarrow> int \<Rightarrow> nat option res" where
  "stream_index m ptr =
    bindr (match_stream m ptr [S_Strings, S_US, S_Blob, S_GUID, S_tilde]) (\<lambda>found.
      Inr (case found of None \<Rightarrow> None
        | Some s \<Rightarrow> Some (if s = S_Strings then STRINGS_STREAM else if s = S_US then USER_STRINGS_STREAM
            else if s = S_Blob then BLOB_STREAM else if s = S_GUID then GUID_STREAM else TILDE_STREAM)))"

fun verify_streams_loop :: "VerifyContext \<Rightarrow> DataDirectory \<Rightarrow> nat \<Rightarrow> guint32 \<Rightarrow> VerifyContext option res" where
  "verify_streams_loop ctx it 0 offset = Inr (Some ctx)"
| "verify_streams_loop ctx it (Suc n) offset =
    (let m = ctx_data ctx; ptr = uint offset in
     refuse_if (\<not> bounds_check_datadir it offset 8)
       (bindr (read32 m ptr) (\<lambda>v. bindr (read32 m (ptr + 4)) (\<lambda>stream_size.
        let stream_off = translated_offset it + v in
        refuse_if (\<not> bounds_check_datadir it stream_off stream_size)
          (bindc (name_loop m it (ptr + 8) (offset + 8) 0 32) (\<lambda>(offset, string_size).
           bindr (read8 m (ptr + 8 + int string_size)) (\<lambda>last.
           refuse_if (last \<noteq> 0)
             (bindr (stream_index m (ptr + 8)) (\<lambda>idx.
              case idx of None \<Rightarrow> verify_streams_loop ctx it n (pad4 offset)
              | Some stream_idx \<Rightarrow>
                  refuse_if (off_offset (metadata_streams ctx ! stream_idx) \<noteq> 0)
                    (verify_streams_loop
                      (ctx\<lparr>metadata_streams := (metadata_streams ctx)[stream_idx := \<lparr>off_offset = stream_off, off_size = stream_size\<rparr>]\<rparr>)
                      it n (pad4 offset)))))))))))"

definition verify_metadata_header :: "VerifyContext \<Rightarrow> VerifyContext option res" where
  "verify_metadata_header ctx =
    (let m = ctx_data ctx; cli = get_data_dir ctx CLI_HEADER_IDX; ptr = uint (translated_offset cli) in
     guardr (translated_offset cli \<noteq> INVALID_OFFSET) Assert_failed
       (bindr (read32 m (ptr + 8)) (\<lambda>r. bindr (read32 m (ptr + 12)) (\<lambda>sz.
        let it = \<lparr>rva = r, data_size = sz, translated_offset = translate_rva ctx r\<rparr>; root = translated_offset it in
        guardr (root \<noteq> INVALID_OFFSET) Assert_failed
          (refuse_if (sz < 20)
            (bindr (read32 m (uint root)) (\<lambda>sig.
             refuse_if (sig \<noteq> 0x424A5342)
               (bindr (read32 m (uint root + 12)) (\<lambda>len.
                let offset = pad4 (root + 16 + len) in
                refuse_if (\<not> bounds_check_datadir it offset 4)
                  (bindr (read16 m (uint offset + 2)) (\<lambda>section_count.
                   refuse_if (section_count < 3)
                     (bindc (verify_streams_loop ctx it (unat section_count) (offset + 4)) (\<lambda>ctx.
                      refuse_if (off_size (metadata_streams ctx ! TILDE_STREAM) = 0)
                        (refuse_if (off_size (metadata_streams ctx ! GUID_STREAM) = 0)
                          (refuse_if (off_size (metadata_streams ctx ! BLOB_STREAM) = 0) (Inr (Some ctx)))))))))))))))))"

text \<open>The loop that counts the tables and refuses those that the verifier does not know.\<close>

fun count_tables :: "guint64 \<Rightarrow> nat list \<Rightarrow> nat \<Rightarrow> nat option res" where
  "count_tables valid_tables [] count = Inr (Some count)"
| "count_tables valid_tables (i # is) count =
    (if \<not> bit valid_tables i then count_tables valid_tables is count
     else refuse_if (i = 0x3 \<or> i = 0x5 \<or> i = 0x7 \<or> i = 0x13 \<or> i = 0x16)
       (refuse_if (i = 0x1E \<or> i = 0x1F \<or> i \<ge> 0x2D) (count_tables valid_tables is (count + 1))))"

fun check_row_counts :: "guint8 list \<Rightarrow> guint64 \<Rightarrow> nat list \<Rightarrow> int \<Rightarrow> unit option res" where
  "check_row_counts m valid_tables [] ptr = Inr (Some ())"
| "check_row_counts m valid_tables (i # is) ptr =
    (if bit valid_tables i then
       bindr (read32 m ptr) (\<lambda>row_count.
       refuse_if (row_count > 0xffffff) (check_row_counts m valid_tables is (ptr + 4)))
     else check_row_counts m valid_tables is ptr)"

definition verify_tables_schema :: "VerifyContext \<Rightarrow> unit option res" where
  "verify_tables_schema ctx =
    (let m = ctx_data ctx; tables_area = metadata_streams ctx ! TILDE_STREAM; ptr = uint (off_offset tables_area) in
     refuse_if (off_size tables_area < 24)
       (bindr (read8 m (ptr + 4)) (\<lambda>major.
        refuse_if (major \<noteq> 2 \<and> major \<noteq> 1)
          (bindr (read8 m (ptr + 5)) (\<lambda>minor.
           refuse_if (minor \<noteq> 0)
             (bindr (read8 m (ptr + 6)) (\<lambda>heap_sizes.
              refuse_if (heap_sizes AND NOT 0x7 \<noteq> 0)
                (bindr (read64 m (ptr + 8)) (\<lambda>valid_tables.
                 bindc (count_tables valid_tables [0..<64] 0) (\<lambda>count.
                 refuse_if (off_size tables_area < 24 + of_nat count * 4)
                   (check_row_counts m valid_tables [0..<64] (ptr + 24))))))))))))"

definition mono_verifier_verify_cli_data :: "bool \<Rightarrow> MonoImage \<Rightarrow> MonoCLIImageInfo \<Rightarrow> unit option res" where
  "mono_verifier_verify_cli_data enabled_for_image im iinfo =
    (if \<not> enabled_for_image then Inr (Some ())
     else
       let ctx = init_verify_context im iinfo STAGE_CLI in
       bindc (verify_cli_header ctx) (\<lambda>_.
       bindc (verify_metadata_header ctx) (\<lambda>ctx.
       verify_tables_schema ctx)))"

end
