(* ===== verification/Ver_Blobs.thy ===== *)
theory Ver_Blobs
  imports Ver_Headers
begin

text \<open>
  What \<open>mono/metadata/metadata-verify.c\<close> asks of single values: strings (with the UTF-8 check of
  \<open>mono/utils/strenc.c\<close>), GUIDs, coded indices, sorted tables and blobs.  A \<open>gboolean\<close> result is a
  \<open>bool\<close>; a function that moves a pointer returns the new one, or \<open>None\<close> for \<open>FALSE\<close>.
\<close>

section \<open>Coded indices\<close>

abbreviation (input) INVALID_TABLE :: nat where "INVALID_TABLE \<equiv> 0xFF"
abbreviation (input) TYPEDEF_OR_REF_DESC :: nat where "TYPEDEF_OR_REF_DESC \<equiv> 0"
abbreviation (input) HAS_CONSTANT_DESC :: nat where "HAS_CONSTANT_DESC \<equiv> TYPEDEF_OR_REF_DESC + 5"
abbreviation (input) HAS_CATTR_DESC :: nat where "HAS_CATTR_DESC \<equiv> HAS_CONSTANT_DESC + 5"
abbreviation (input) HAS_FIELD_MARSHAL_DESC :: nat where "HAS_FIELD_MARSHAL_DESC \<equiv> HAS_CATTR_DESC + 22"
abbreviation (input) HAS_DECL_SECURITY_DESC :: nat where "HAS_DECL_SECURITY_DESC \<equiv> HAS_FIELD_MARSHAL_DESC + 4"
abbreviation (input) MEMBERREF_PARENT_DESC :: nat where "MEMBERREF_PARENT_DESC \<equiv> HAS_DECL_SECURITY_DESC + 5"
abbreviation (input) HAS_SEMANTICS_DESC :: nat where "HAS_SEMANTICS_DESC \<equiv> MEMBERREF_PARENT_DESC + 7"
abbreviation (input) METHODDEF_OR_REF_DESC :: nat where "METHODDEF_OR_REF_DESC \<equiv> HAS_SEMANTICS_DESC + 4"
abbreviation (input) MEMBER_FORWARDED_DESC :: nat where "MEMBER_FORWARDED_DESC \<equiv> METHODDEF_OR_REF_DESC + 4"
abbreviation (input) IMPLEMENTATION_DESC :: nat where "IMPLEMENTATION_DESC \<equiv> MEMBER_FORWARDED_DESC + 4"
abbreviation (input) CATTR_TYPE_DESC :: nat where "CATTR_TYPE_DESC \<equiv> IMPLEMENTATION_DESC + 5"
abbreviation (input) RES_SCOPE_DESC :: nat where "RES_SCOPE_DESC \<equiv> CATTR_TYPE_DESC + 7"
abbreviation (input) TYPE_OR_METHODDEF_DESC :: nat where "TYPE_OR_METHODDEF_DESC \<equiv> RES_SCOPE_DESC + 6"

definition coded_index_desc :: "nat list" where
  "coded_index_desc =
   [2, 3, MONO_TABLE_TYPEDEF, MONO_TABLE_TYPEREF, MONO_TABLE_TYPESPEC,
    2, 3, MONO_TABLE_FIELD, MONO_TABLE_PARAM, MONO_TABLE_PROPERTY,
    5, 20, MONO_TABLE_METHOD, MONO_TABLE_FIELD, MONO_TABLE_TYPEREF, MONO_TABLE_TYPEDEF, MONO_TABLE_PARAM,
     MONO_TABLE_INTERFACEIMPL, MONO_TABLE_MEMBERREF, MONO_TABLE_MODULE, MONO_TABLE_DECLSECURITY, MONO_TABLE_PROPERTY,
     MONO_TABLE_EVENT, MONO_TABLE_STANDALONESIG, MONO_TABLE_MODULEREF, MONO_TABLE_TYPESPEC, MONO_TABLE_ASSEMBLY,
     MONO_TABLE_ASSEMBLYREF, MONO_TABLE_FILE, MONO_TABLE_EXPORTEDTYPE, MONO_TABLE_MANIFESTRESOURCE, MONO_TABLE_GENERICPARAM,
    1, 2, MONO_TABLE_FIELD, MONO_TABLE_PARAM,
    2, 3, MONO_TABLE_TYPEDEF, MONO_TABLE_METHOD, MONO_TABLE_ASSEMBLY,
    3, 5, MONO_TABLE_TYPEDEF, MONO_TABLE_TYPEREF, MONO_TABLE_MODULE, MONO_TABLE_METHOD, MONO_TABLE_TYPESPEC,
    1, 2, MONO_TABLE_EVENT, MONO_TABLE_PROPERTY,
    1, 2, MONO_TABLE_METHOD, MONO_TABLE_MEMBERREF,
    1, 2, MONO_TABLE_FIELD, MONO_TABLE_METHOD,
    2, 3, MONO_TABLE_FILE, MONO_TABLE_ASSEMBLYREF, MONO_TABLE_EXPORTEDTYPE,
    3, 5, INVALID_TABLE, INVALID_TABLE, MONO_TABLE_METHOD, MONO_TABLE_MEMBERREF, INVALID_TABLE,
    2, 4, MONO_TABLE_MODULE, MONO_TABLE_MODULEREF, MONO_TABLE_ASSEMBLYREF, MONO_TABLE_TYPEREF,
    1, 2, MONO_TABLE_TYPEDEF, MONO_TABLE_METHOD]"

definition get_coded_index_token :: "nat \<Rightarrow> guint32 \<Rightarrow> guint32" where
  "get_coded_index_token token_kind coded_token = drop_bit (coded_index_desc ! token_kind) coded_token"

text \<open>The array is read at the position of the tag without a check; behind its end is \<open>Out_of_bounds\<close>.\<close>

definition get_coded_index_table :: "nat \<Rightarrow> guint32 \<Rightarrow> nat res" where
  "get_coded_index_table kind coded_token =
    (let bits = coded_index_desc ! kind; k = kind + 2 + unat (coded_token AND mask bits) in
     guardr (k < length coded_index_desc) Out_of_bounds (Inr (coded_index_desc ! k)))"

fun coded_tag :: "nat list \<Rightarrow> nat \<Rightarrow> nat \<Rightarrow> nat option" where
  "coded_tag [] table i = None"
| "coded_tag (t # ts) table i = (if t = table then Some i else coded_tag ts table (i + 1))"

definition make_coded_token :: "nat \<Rightarrow> nat \<Rightarrow> guint32 \<Rightarrow> guint32 res" where
  "make_coded_token kind table table_idx =
    (case coded_tag (take (coded_index_desc ! (kind + 1)) (drop (kind + 2) coded_index_desc)) table 0 of
       None \<Rightarrow> Inl Assert_failed
     | Some i \<Rightarrow> Inr (push_bit (coded_index_desc ! kind) (table_idx + 1) OR of_nat i))"

definition is_valid_coded_index :: "VerifyContext \<Rightarrow> nat \<Rightarrow> guint32 \<Rightarrow> bool" where
  "is_valid_coded_index ctx token_kind coded_token =
    (let bits = coded_index_desc ! token_kind; table_count = coded_index_desc ! (token_kind + 1);
         tag = unat (coded_token AND mask bits); token = drop_bit bits coded_token in
     if tag \<ge> table_count then False
     else
       let table = coded_index_desc ! (token_kind + 2 + tag) in
       if table = INVALID_TABLE then False
       else unat token \<le> table_rows (ctx_image ctx) table)"

section \<open>Sorted tables\<close>

fun get_col_offset :: "VerifyContext \<Rightarrow> nat \<Rightarrow> nat \<Rightarrow> nat" where
  "get_col_offset ctx table 0 = 0"
| "get_col_offset ctx table (Suc column) =
    mono_metadata_table_size (size_bitfield (tables (ctx_image ctx) ! table)) column + get_col_offset ctx table column"

definition get_col_size :: "VerifyContext \<Rightarrow> nat \<Rightarrow> nat \<Rightarrow> nat" where
  "get_col_size ctx table column = mono_metadata_table_size (size_bitfield (tables (ctx_image ctx) ! table)) column"

record RowLocator =
  loc_token :: guint32
  col_size :: nat
  col_offset :: nat

text \<open>The difference of two \<open>int\<close> values, whose overflow is undefined.\<close>

definition token_locator :: "guint8 list \<Rightarrow> RowLocator \<Rightarrow> int \<Rightarrow> int res" where
  "token_locator m loc row =
    bindr (if col_size loc = 2 then bindr (read16 m (row + int (col_offset loc))) (\<lambda>v. Inr (ucast v))
           else read32 m (row + int (col_offset loc))) (\<lambda>token.
    guardr (in_int (sint (loc_token loc) - sint (token :: guint32))) Int_overflow (Inr (sint (loc_token loc) - sint token)))"

text \<open>\<open>bsearch\<close> of the C library on the rows from \<open>l\<close> to \<open>u\<close>: the row that it finds.\<close>

function search_loop :: "(int \<Rightarrow> int res) \<Rightarrow> int \<Rightarrow> nat \<Rightarrow> nat \<Rightarrow> nat \<Rightarrow> nat option res" where
  "search_loop compar b sz l u =
    (if l < u then
       bindr (compar (b + int ((l + u) div 2 * sz))) (\<lambda>c.
         if c < 0 then search_loop compar b sz l ((l + u) div 2)
         else if c > 0 then search_loop compar b sz ((l + u) div 2 + 1) u
         else Inr (Some ((l + u) div 2)))
     else Inr None)"
  by pat_completeness auto

termination by (relation "measure (\<lambda>(compar, b, sz, l, u). u - l)") auto

declare search_loop.simps [simp del]

text \<open>The row, or \<open>None\<close> for -1.\<close>

definition search_sorted_table :: "VerifyContext \<Rightarrow> nat \<Rightarrow> nat \<Rightarrow> guint32 \<Rightarrow> nat option res" where
  "search_sorted_table ctx table column coded_token =
    (let tinfo = tables (ctx_image ctx) ! table;
         locator = \<lparr>loc_token = coded_token, col_size = get_col_size ctx table column, col_offset = get_col_offset ctx table column\<rparr> in
     case base tinfo of None \<Rightarrow> Inr None
     | Some b \<Rightarrow> search_loop (token_locator (ctx_data ctx) locator) b (row_size tinfo) 0 (rows tinfo))"

section \<open>Strings\<close>

definition trailingBytesForUTF8 :: "guint8 \<Rightarrow> nat" where
  "trailingBytesForUTF8 b =
    (if b < 0xC0 then 0 else if b < 0xE0 then 1 else if b < 0xF0 then 2 else if b < 0xF8 then 3
     else if b < 0xFC then 4 else if b < 0xFE then 5 else 0)"

definition not_cont :: "guint8 \<Rightarrow> bool" where
  "not_cont a \<longleftrightarrow> a < 0x80 \<or> a > 0xBF"

text \<open>
  The switch over the length of a character at \<open>p\<close>, whose cases fall through from the last byte to
  the first; a length above 4 enters at the top, and the last three of its bytes are looked at.
\<close>

definition char_ok :: "guint8 list \<Rightarrow> int \<Rightarrow> nat \<Rightarrow> bool res" where
  "char_ok m p len =
    bindr (read8 m p) (\<lambda>b.
    let q = p + int len; top = (b \<le> 0xF4) in
    if len = 1 then Inr (\<not> (b \<ge> 0x80 \<and> b < 0xC2) \<and> top)
    else
      bindr (if len < 4 then Inr True
             else bindr (read8 m (q - 1)) (\<lambda>a. bindr (read8 m (q - 2)) (\<lambda>a2. bindr (read8 m (q - 3)) (\<lambda>a3.
               Inr (len = 4 \<and> \<not> not_cont a \<and>
                 \<not> ((a = 0xBF \<or> a = 0xBE) \<and> a2 = 0xBF \<and> (a3 = 0x8F \<or> a3 = 0x9F \<or> a3 = 0xAF \<or> a3 = 0xBF))))))) (\<lambda>ok4.
      let q = (if len < 4 then q else q - 1) in
      bindr (if len < 3 then Inr True else bindr (read8 m (q - 1)) (\<lambda>a. Inr (\<not> not_cont a))) (\<lambda>ok3.
      let q = (if len < 3 then q else q - 1) in
      bindr (read8 m (q - 1)) (\<lambda>a.
      bindr (if b = 0xEF then bindr (read8 m q) (\<lambda>n. Inr (Some n)) else Inr None) (\<lambda>next.
      let ok2 = (\<not> not_cont a);
          inner = (if b = 0xE0 then \<not> a < 0xA0
                   else if b = 0xED then \<not> a > 0x9F
                   else if b = 0xEF then
                     (case next of None \<Rightarrow> True
                      | Some n \<Rightarrow> \<not> (a = 0xB7 \<and> n > 0x8F \<and> n < 0xB0) \<and> \<not> (a = 0xBF \<and> (n = 0xBE \<or> n = 0xBF)))
                   else if b = 0xF0 then \<not> a < 0x90
                   else if b = 0xF4 then \<not> a > 0x8F
                   else \<not> a < 0x80) in
      Inr (ok4 \<and> ok3 \<and> ok2 \<and> inner \<and> \<not> (b \<ge> 0x80 \<and> b < 0xC2) \<and> top))))))"

function validate_loop :: "guint8 list \<Rightarrow> int \<Rightarrow> int \<Rightarrow> bool \<Rightarrow> nat \<Rightarrow> (bool \<times> nat) res" where
  "validate_loop m ptr end ret len =
    bindr (read8 m ptr) (\<lambda>b.
    let n = trailingBytesForUTF8 b + 1 in
    if b = 0 then Inr (ret, len)
    else if ptr + int n \<ge> end then Inr (False, len)
    else bindr (char_ok m ptr n) (\<lambda>ok. validate_loop m (ptr + int n) end (ret \<and> ok) (len + 1)))"
  by pat_completeness auto

termination by (relation "measure (\<lambda>(m, ptr, end, ret, len). nat (end - ptr))") auto

declare validate_loop.simps [simp del]

definition mono_utf8_validate_and_len_with_bounds :: "guint8 list \<Rightarrow> int \<Rightarrow> int \<Rightarrow> (bool \<times> nat) res" where
  "mono_utf8_validate_and_len_with_bounds m source max_bytes =
    (if max_bytes < 1 then Inr (False, 0) else validate_loop m source (source + max_bytes) True 0)"

text \<open>
  The size of a heap, and its offset from the begin of the image.  A missing heap has size 0 and a
  null pointer, from which no offset is computed here.
\<close>

definition stream_size :: "MonoStreamHeader \<Rightarrow> guint32" where
  "stream_size header = of_nat (heap_size header)"

definition stream_offset :: "MonoStreamHeader \<Rightarrow> guint32 res" where
  "stream_offset header = (case heap_data header of None \<Rightarrow> Inl Null_deref | Some p \<Rightarrow> Inr (of_int p))"

text \<open>The number of bytes is passed as a \<open>glong\<close>, of 32 bits on Windows.\<close>

definition is_valid_string_full :: "VerifyContext \<Rightarrow> guint32 \<Rightarrow> bool \<Rightarrow> bool res" where
  "is_valid_string_full ctx offset allow_empty =
    (let strings = heap_strings (ctx_image ctx) in
     if offset \<ge> stream_size strings then Inr False
     else bindr (stream_offset strings) (\<lambda>o'.
       bindr (mono_utf8_validate_and_len_with_bounds (ctx_data ctx) (uint o' + uint offset) (sint (stream_size strings - offset)))
         (\<lambda>(ok, len). Inr (ok \<and> (allow_empty \<or> len > 0)))))"

definition is_valid_string :: "VerifyContext \<Rightarrow> guint32 \<Rightarrow> bool res" where
  "is_valid_string ctx offset = is_valid_string_full ctx offset True"

definition is_valid_non_empty_string :: "VerifyContext \<Rightarrow> guint32 \<Rightarrow> bool res" where
  "is_valid_non_empty_string ctx offset = is_valid_string_full ctx offset False"

definition is_valid_guid :: "VerifyContext \<Rightarrow> guint32 \<Rightarrow> bool" where
  "is_valid_guid ctx offset =
    (let sz = stream_size (heap_guid (ctx_image ctx)) in sz \<ge> 8 \<and> sz - 8 \<ge> offset)"

section \<open>Blobs\<close>

text \<open>The value and the number of bytes it takes.\<close>

definition decode_value :: "guint8 list \<Rightarrow> int \<Rightarrow> guint32 \<Rightarrow> (guint32 \<times> guint32) option res" where
  "decode_value m ptr available =
    (if available = 0 then Inr None
     else bindr (read8 m ptr) (\<lambda>b.
       if b AND 0x80 = 0 then Inr (Some (ucast b, 1))
       else if b AND 0x40 = 0 then
         refuse_if (available < 2)
           (bindr (read8 m (ptr + 1)) (\<lambda>b1. Inr (Some (push_bit 8 (ucast b AND 0x3f) OR ucast b1, 2))))
       else
         refuse_if (available < 4)
           (bindr (read8 m (ptr + 1)) (\<lambda>b1. bindr (read8 m (ptr + 2)) (\<lambda>b2. bindr (read8 m (ptr + 3)) (\<lambda>b3.
            Inr (Some (push_bit 24 (ucast b AND 0x1f) OR push_bit 16 (ucast b1) OR push_bit 8 (ucast b2) OR ucast b3, 4))))))))"

text \<open>The first byte of a blob and the position behind its last one.\<close>

definition decode_signature_header :: "VerifyContext \<Rightarrow> guint32 \<Rightarrow> (int \<times> int) option res" where
  "decode_signature_header ctx offset =
    (let blob = heap_blob (ctx_image ctx); sz = stream_size blob in
     refuse_if (offset \<ge> sz)
       (case heap_data blob of None \<Rightarrow> Inl Null_deref
        | Some p \<Rightarrow>
          bindc (decode_value (ctx_data ctx) (p + uint offset) (sz - offset)) (\<lambda>(value, enc_size).
          refuse_if (offset + enc_size + value < offset)
            (refuse_if (offset + enc_size + value > sz)
              (let first_byte = p + uint offset + uint enc_size in
               Inr (Some (first_byte, first_byte + sint value)))))))"

definition safe_read8 :: "guint8 list \<Rightarrow> int \<Rightarrow> int \<Rightarrow> (guint8 \<times> int) option res" where
  "safe_read8 m ptr limit = refuse_if (ptr + 1 > limit) (bindr (read8 m ptr) (\<lambda>v. Inr (Some (v, ptr + 1))))"

definition safe_read16 :: "guint8 list \<Rightarrow> int \<Rightarrow> int \<Rightarrow> (guint16 \<times> int) option res" where
  "safe_read16 m ptr limit = refuse_if (ptr + 2 > limit) (bindr (read16 m ptr) (\<lambda>v. Inr (Some (v, ptr + 2))))"

definition safe_read32 :: "guint8 list \<Rightarrow> int \<Rightarrow> int \<Rightarrow> (guint32 \<times> int) option res" where
  "safe_read32 m ptr limit = refuse_if (ptr + 4 > limit) (bindr (read32 m ptr) (\<lambda>v. Inr (Some (v, ptr + 4))))"

definition safe_read_cint :: "guint8 list \<Rightarrow> int \<Rightarrow> int \<Rightarrow> (guint32 \<times> int) option res" where
  "safe_read_cint m ptr limit =
    bindc (decode_value m ptr (of_int (limit - ptr))) (\<lambda>(value, sz). Inr (Some (value, ptr + uint sz)))"

text \<open>The number of bytes left is taken from the offset of the heap, not from the offset in the heap.\<close>

definition is_valid_blob_object :: "VerifyContext \<Rightarrow> guint32 \<Rightarrow> guint32 \<Rightarrow> bool res" where
  "is_valid_blob_object ctx offset minsize =
    (let blob = heap_blob (ctx_image ctx); sz = stream_size blob in
     if sz < offset then Inr False
     else bindr (stream_offset blob) (\<lambda>o'.
       bindr (decode_value (ctx_data ctx) (uint offset + uint o') (sz - o')) (\<lambda>d.
       case d of None \<Rightarrow> Inr False
       | Some (entry_size, bytes) \<Rightarrow>
           if entry_size < minsize then Inr False
           else if 0xFFFFFFFF - bytes < entry_size then Inr False
           else
             let entry_size = entry_size + bytes in
             Inr (\<not> (offset + entry_size > sz \<or> 0xFFFFFFFF - entry_size < offset)))))"

definition is_valid_marshal_spec :: "VerifyContext \<Rightarrow> guint32 \<Rightarrow> bool" where
  "is_valid_marshal_spec ctx offset =
    (let sz = stream_size (heap_blob (ctx_image ctx)) in sz \<ge> 1 \<and> sz - 1 \<ge> offset)"

definition is_valid_permission_set :: "VerifyContext \<Rightarrow> guint32 \<Rightarrow> bool" where
  "is_valid_permission_set ctx offset =
    (let sz = stream_size (heap_blob (ctx_image ctx)) in sz \<ge> 1 \<and> sz - 1 \<ge> offset)"

definition is_vald_cattr_blob :: "VerifyContext \<Rightarrow> guint32 \<Rightarrow> bool res" where
  "is_vald_cattr_blob ctx offset =
    (if offset = 0 then Inr True
     else bindr (bindc (decode_signature_header ctx offset) (\<lambda>(ptr, end).
       bindc (safe_read16 (ctx_data ctx) ptr end) (\<lambda>(prolog, ptr). refuse_if (prolog \<noteq> 1) (Inr (Some ())))))
       (\<lambda>r. Inr (r \<noteq> None)))"

definition verify_user_string :: "VerifyContext \<Rightarrow> guint32 \<Rightarrow> bool res" where
  "verify_user_string ctx offset =
    (let us = heap_us (ctx_image ctx); sz = stream_size us in
     if sz < offset then Inr False
     else bindr (stream_offset us) (\<lambda>o'.
       bindr (decode_value (ctx_data ctx) (uint offset + uint o') (sz - o')) (\<lambda>d.
       case d of None \<Rightarrow> Inr False
       | Some (entry_size, bytes) \<Rightarrow>
           if 0xFFFFFFFF - bytes < entry_size then Inr False
           else
             let entry_size = entry_size + bytes in
             Inr (\<not> (offset + entry_size > sz \<or> 0xFFFFFFFF - entry_size < offset)))))"

end
