(* ===== verification/Ver_Sigs.thy ===== *)
theory Ver_Sigs
  imports Ver_Blobs
begin

text \<open>
  The signature parsers of \<open>mono/metadata/metadata-verify.c\<close>.  A parser maps a position to the position
  behind what it has read, or to \<open>None\<close> when the signature is refused.  The C functions are mutually
  recursive through \<open>parse_type\<close>; here \<open>parse_type\<close> has the number of nested calls that the stack allows
  as its first argument and ends with \<open>Stack_overflow\<close> when there are more, and the functions that it
  calls take it as their argument \<open>parse_type\<close>.
\<close>

section \<open>Element types and calling conventions\<close>

abbreviation (input) MONO_TYPE_VOID :: "'a::len word" where "MONO_TYPE_VOID \<equiv> 0x01"
abbreviation (input) MONO_TYPE_BOOLEAN :: "'a::len word" where "MONO_TYPE_BOOLEAN \<equiv> 0x02"
abbreviation (input) MONO_TYPE_CHAR :: "'a::len word" where "MONO_TYPE_CHAR \<equiv> 0x03"
abbreviation (input) MONO_TYPE_I1 :: "'a::len word" where "MONO_TYPE_I1 \<equiv> 0x04"
abbreviation (input) MONO_TYPE_U1 :: "'a::len word" where "MONO_TYPE_U1 \<equiv> 0x05"
abbreviation (input) MONO_TYPE_I2 :: "'a::len word" where "MONO_TYPE_I2 \<equiv> 0x06"
abbreviation (input) MONO_TYPE_U2 :: "'a::len word" where "MONO_TYPE_U2 \<equiv> 0x07"
abbreviation (input) MONO_TYPE_I4 :: "'a::len word" where "MONO_TYPE_I4 \<equiv> 0x08"
abbreviation (input) MONO_TYPE_U4 :: "'a::len word" where "MONO_TYPE_U4 \<equiv> 0x09"
abbreviation (input) MONO_TYPE_I8 :: "'a::len word" where "MONO_TYPE_I8 \<equiv> 0x0a"
abbreviation (input) MONO_TYPE_U8 :: "'a::len word" where "MONO_TYPE_U8 \<equiv> 0x0b"
abbreviation (input) MONO_TYPE_R4 :: "'a::len word" where "MONO_TYPE_R4 \<equiv> 0x0c"
abbreviation (input) MONO_TYPE_R8 :: "'a::len word" where "MONO_TYPE_R8 \<equiv> 0x0d"
abbreviation (input) MONO_TYPE_STRING :: "'a::len word" where "MONO_TYPE_STRING \<equiv> 0x0e"
abbreviation (input) MONO_TYPE_PTR :: "'a::len word" where "MONO_TYPE_PTR \<equiv> 0x0f"
abbreviation (input) MONO_TYPE_BYREF :: "'a::len word" where "MONO_TYPE_BYREF \<equiv> 0x10"
abbreviation (input) MONO_TYPE_VALUETYPE :: "'a::len word" where "MONO_TYPE_VALUETYPE \<equiv> 0x11"
abbreviation (input) MONO_TYPE_CLASS :: "'a::len word" where "MONO_TYPE_CLASS \<equiv> 0x12"
abbreviation (input) MONO_TYPE_VAR :: "'a::len word" where "MONO_TYPE_VAR \<equiv> 0x13"
abbreviation (input) MONO_TYPE_ARRAY :: "'a::len word" where "MONO_TYPE_ARRAY \<equiv> 0x14"
abbreviation (input) MONO_TYPE_GENERICINST :: "'a::len word" where "MONO_TYPE_GENERICINST \<equiv> 0x15"
abbreviation (input) MONO_TYPE_TYPEDBYREF :: "'a::len word" where "MONO_TYPE_TYPEDBYREF \<equiv> 0x16"
abbreviation (input) MONO_TYPE_I :: "'a::len word" where "MONO_TYPE_I \<equiv> 0x18"
abbreviation (input) MONO_TYPE_U :: "'a::len word" where "MONO_TYPE_U \<equiv> 0x19"
abbreviation (input) MONO_TYPE_FNPTR :: "'a::len word" where "MONO_TYPE_FNPTR \<equiv> 0x1b"
abbreviation (input) MONO_TYPE_SZARRAY :: "'a::len word" where "MONO_TYPE_SZARRAY \<equiv> 0x1d"
abbreviation (input) MONO_TYPE_MVAR :: "'a::len word" where "MONO_TYPE_MVAR \<equiv> 0x1e"
abbreviation (input) MONO_TYPE_CMOD_REQD :: "'a::len word" where "MONO_TYPE_CMOD_REQD \<equiv> 0x1f"
abbreviation (input) MONO_TYPE_CMOD_OPT :: "'a::len word" where "MONO_TYPE_CMOD_OPT \<equiv> 0x20"
abbreviation (input) MONO_TYPE_SENTINEL :: "'a::len word" where "MONO_TYPE_SENTINEL \<equiv> 0x41"
abbreviation (input) MONO_TYPE_PINNED :: "'a::len word" where "MONO_TYPE_PINNED \<equiv> 0x45"

abbreviation (input) MONO_CALL_DEFAULT :: "'a::len word" where "MONO_CALL_DEFAULT \<equiv> 0"
abbreviation (input) MONO_CALL_VARARG :: "'a::len word" where "MONO_CALL_VARARG \<equiv> 5"

section \<open>Sequences\<close>

lemma bindc_cong [fundef_cong]:
  "r = r' \<Longrightarrow> (\<And>x. r' = Inr (Some x) \<Longrightarrow> f x = g x) \<Longrightarrow> bindc r f = bindc r' g"
  by (auto simp: bindc_def split: option.splits) (cases r'; auto split: option.splits)

lemma refuse_if_cong [fundef_cong]:
  "b = b' \<Longrightarrow> (\<not> b' \<Longrightarrow> r = r') \<Longrightarrow> refuse_if b r = refuse_if b' r'"
  by (simp add: refuse_if_def)

lemma safe_read8_next: "safe_read8 m ptr end = Inr (Some (v, q)) \<Longrightarrow> q = ptr + 1 \<and> q \<le> end"
  by (auto simp: safe_read8_def)

lemma decode_value_size: "decode_value m ptr n = Inr (Some (v, s)) \<Longrightarrow> 1 \<le> uint s \<and> uint s \<le> uint n"
  by (auto simp: decode_value_def not_less word_le_def split: if_splits) (auto simp: word_neq_0_conv word_less_def)

lemma safe_read_cint_next: "safe_read_cint m ptr end = Inr (Some (v, q)) \<Longrightarrow> ptr < q"
  by (auto simp: safe_read_cint_def dest!: decode_value_size)

fun parse_n :: "(int \<Rightarrow> int option res) \<Rightarrow> nat \<Rightarrow> int \<Rightarrow> int option res" where
  "parse_n f 0 ptr = Inr (Some ptr)"
| "parse_n f (Suc n) ptr = bindc (f ptr) (\<lambda>ptr. parse_n f n ptr)"

section \<open>Types\<close>

function parse_custom_mods :: "VerifyContext \<Rightarrow> int \<Rightarrow> int \<Rightarrow> int option res" where
  "parse_custom_mods ctx end ptr =
    bindc (safe_read8 (ctx_data ctx) ptr end) (\<lambda>(ty, q).
    if ty \<noteq> MONO_TYPE_CMOD_REQD \<and> ty \<noteq> MONO_TYPE_CMOD_OPT then Inr (Some ptr)
    else bindc (safe_read_cint (ctx_data ctx) q end) (\<lambda>(token, q).
      refuse_if (\<not> is_valid_coded_index ctx TYPEDEF_OR_REF_DESC token) (parse_custom_mods ctx end q)))"
  by pat_completeness auto

termination
  by (relation "measure (\<lambda>(ctx, end, ptr). nat (end - ptr))") (auto dest!: safe_read8_next safe_read_cint_next)

declare parse_custom_mods.simps [simp del]

definition parse_array_shape :: "VerifyContext \<Rightarrow> int \<Rightarrow> int \<Rightarrow> int option res" where
  "parse_array_shape ctx end ptr =
    (let m = ctx_data ctx; cint = (\<lambda>ptr. bindc (safe_read_cint m ptr end) (\<lambda>(num, ptr). Inr (Some ptr))) in
     bindc (safe_read8 m ptr end) (\<lambda>(val, ptr).
     refuse_if (val = 0)
       (bindc (safe_read_cint m ptr end) (\<lambda>(sz, ptr).
        bindc (parse_n cint (unat sz) ptr) (\<lambda>ptr.
        bindc (safe_read_cint m ptr end) (\<lambda>(sz, ptr).
        parse_n cint (unat sz) ptr))))))"

text \<open>A type in its own specification.\<close>

definition refers_to_itself :: "VerifyContext \<Rightarrow> guint32 \<Rightarrow> bool res" where
  "refers_to_itself ctx token =
    (if ctx_token ctx = 0 then Inr False
     else if mono_metadata_token_index (ctx_token ctx) \<noteq> get_coded_index_token TYPEDEF_OR_REF_DESC token then Inr False
     else bindr (get_coded_index_table TYPEDEF_OR_REF_DESC token) (\<lambda>table.
       Inr (unat (mono_metadata_token_table (ctx_token ctx)) = table)))"

definition parse_generic_inst :: "(int \<Rightarrow> int option res) \<Rightarrow> VerifyContext \<Rightarrow> int \<Rightarrow> int \<Rightarrow> int option res" where
  "parse_generic_inst parse_type ctx end ptr =
    (let m = ctx_data ctx in
     bindc (safe_read8 m ptr end) (\<lambda>(ty, ptr).
     refuse_if (ty \<noteq> MONO_TYPE_CLASS \<and> ty \<noteq> MONO_TYPE_VALUETYPE)
       (bindc (safe_read_cint m ptr end) (\<lambda>(token, ptr).
        refuse_if (\<not> is_valid_coded_index ctx TYPEDEF_OR_REF_DESC token)
          (bindr (refers_to_itself ctx token) (\<lambda>rec.
           refuse_if rec
             (bindc (safe_read_cint m ptr end) (\<lambda>(count, ptr).
              refuse_if (count = 0) (parse_n parse_type (unat count) ptr)))))))))"

definition parse_return_type :: "(int \<Rightarrow> int option res) \<Rightarrow> VerifyContext \<Rightarrow> int \<Rightarrow> int \<Rightarrow> int option res" where
  "parse_return_type parse_type ctx end ptr =
    bindc (parse_custom_mods ctx end ptr) (\<lambda>ptr.
    bindc (safe_read8 (ctx_data ctx) ptr end) (\<lambda>(ty, q).
    if ty = MONO_TYPE_VOID \<or> ty = MONO_TYPE_TYPEDBYREF then Inr (Some q)
    else parse_type (if ty = MONO_TYPE_BYREF then q else ptr)))"

definition parse_param :: "(int \<Rightarrow> int option res) \<Rightarrow> VerifyContext \<Rightarrow> int \<Rightarrow> int \<Rightarrow> int option res" where
  "parse_param parse_type ctx end ptr =
    bindc (parse_custom_mods ctx end ptr) (\<lambda>ptr.
    bindc (safe_read8 (ctx_data ctx) ptr end) (\<lambda>(ty, q).
    if ty = MONO_TYPE_TYPEDBYREF then Inr (Some q)
    else parse_type (if ty = MONO_TYPE_BYREF then q else ptr)))"

fun params_loop :: "(int \<Rightarrow> int option res) \<Rightarrow> VerifyContext \<Rightarrow> int \<Rightarrow> bool \<Rightarrow> guint8 \<Rightarrow> bool \<Rightarrow> nat \<Rightarrow> int \<Rightarrow> int option res" where
  "params_loop parse_type ctx end allow_sentinel cconv saw_sentinel 0 ptr = Inr (Some ptr)"
| "params_loop parse_type ctx end allow_sentinel cconv saw_sentinel (Suc n) ptr =
    bindc (if allow_sentinel
           then bindc (safe_read8 (ctx_data ctx) ptr end) (\<lambda>(ty, q).
             if ty = MONO_TYPE_SENTINEL
             then refuse_if (cconv AND 0x0F \<noteq> MONO_CALL_VARARG \<or> saw_sentinel) (Inr (Some (True, q)))
             else Inr (Some (saw_sentinel, ptr)))
           else Inr (Some (saw_sentinel, ptr))) (\<lambda>(saw_sentinel, ptr).
    bindc (parse_param parse_type ctx end ptr) (\<lambda>ptr.
    params_loop parse_type ctx end allow_sentinel cconv saw_sentinel n ptr))"

definition parse_method_signature ::
  "(int \<Rightarrow> int option res) \<Rightarrow> VerifyContext \<Rightarrow> int \<Rightarrow> bool \<Rightarrow> bool \<Rightarrow> int \<Rightarrow> int option res" where
  "parse_method_signature parse_type ctx end allow_sentinel allow_unmanaged ptr =
    (let m = ctx_data ctx in
     bindc (safe_read8 m ptr end) (\<lambda>(cconv, ptr).
     refuse_if (cconv AND 0x80 \<noteq> 0)
       (refuse_if (if allow_unmanaged then cconv AND 0x0F > MONO_CALL_VARARG
                   else cconv AND 0x0F \<noteq> MONO_CALL_DEFAULT \<and> cconv AND 0x0F \<noteq> MONO_CALL_VARARG)
         (bindc (if cconv AND 0x10 \<noteq> 0 then safe_read_cint m ptr end else Inr (Some (0, ptr))) (\<lambda>(gparam_count, ptr).
          refuse_if (cconv AND 0x10 \<noteq> 0 \<and> gparam_count = 0)
            (refuse_if (allow_unmanaged \<and> cconv AND 0x10 \<noteq> 0)
              (bindc (safe_read_cint m ptr end) (\<lambda>(param_count, ptr).
               bindc (parse_return_type parse_type ctx end ptr) (\<lambda>ptr.
               params_loop parse_type ctx end allow_sentinel cconv False (unat param_count) ptr)))))))))"

definition valid_type_kind :: "guint8 \<Rightarrow> bool" where
  "valid_type_kind ty \<longleftrightarrow> (MONO_TYPE_BOOLEAN \<le> ty \<and> ty \<le> MONO_TYPE_PTR) \<or> (MONO_TYPE_VALUETYPE \<le> ty \<and> ty \<le> MONO_TYPE_GENERICINST) \<or>
     (MONO_TYPE_I \<le> ty \<and> ty \<le> MONO_TYPE_U) \<or> (MONO_TYPE_FNPTR \<le> ty \<and> ty \<le> MONO_TYPE_MVAR)"

primrec parse_type :: "nat \<Rightarrow> VerifyContext \<Rightarrow> int \<Rightarrow> int \<Rightarrow> int option res" where
  "parse_type 0 ctx end ptr = Inl Stack_overflow"
| "parse_type (Suc depth) ctx end ptr =
    (let m = ctx_data ctx; rec = parse_type depth ctx end in
     bindc (safe_read8 m ptr end) (\<lambda>(ty, ptr).
     refuse_if (\<not> valid_type_kind ty)
       (if ty = MONO_TYPE_PTR then
          bindc (parse_custom_mods ctx end ptr) (\<lambda>ptr.
          bindc (safe_read8 m ptr end) (\<lambda>(ty, q).
          if ty \<noteq> MONO_TYPE_VOID then rec ptr else Inr (Some q)))
        else if ty = MONO_TYPE_VALUETYPE \<or> ty = MONO_TYPE_CLASS then
          bindc (safe_read_cint m ptr end) (\<lambda>(token, ptr).
          refuse_if (\<not> is_valid_coded_index ctx TYPEDEF_OR_REF_DESC token)
            (bindr (refers_to_itself ctx token) (\<lambda>itself. refuse_if itself (Inr (Some ptr)))))
        else if ty = MONO_TYPE_VAR \<or> ty = MONO_TYPE_MVAR then
          bindc (safe_read_cint m ptr end) (\<lambda>(token, ptr). Inr (Some ptr))
        else if ty = MONO_TYPE_ARRAY then
          bindc (rec ptr) (\<lambda>ptr. parse_array_shape ctx end ptr)
        else if ty = MONO_TYPE_GENERICINST then parse_generic_inst rec ctx end ptr
        else if ty = MONO_TYPE_FNPTR then parse_method_signature rec ctx end True True ptr
        else if ty = MONO_TYPE_SZARRAY then
          bindc (parse_custom_mods ctx end ptr) (\<lambda>ptr. rec ptr)
        else Inr (Some ptr))))"

section \<open>Signatures\<close>

text \<open>The position where the parsing stopped is not used by the callers of a whole signature.\<close>

definition accepted :: "'a option res \<Rightarrow> bool res" where
  "accepted r = bindr r (\<lambda>o'. Inr (o' \<noteq> None))"

definition parse_property_signature :: "nat \<Rightarrow> VerifyContext \<Rightarrow> int \<Rightarrow> int \<Rightarrow> int option res" where
  "parse_property_signature depth ctx end ptr =
    (let m = ctx_data ctx in
     bindc (safe_read8 m ptr end) (\<lambda>(sig, ptr).
     refuse_if (sig \<noteq> 0x08 \<and> sig \<noteq> 0x28)
       (bindc (safe_read_cint m ptr end) (\<lambda>(param_count, ptr).
        bindc (parse_custom_mods ctx end ptr) (\<lambda>ptr.
        bindc (parse_type depth ctx end ptr) (\<lambda>ptr.
        parse_n (parse_type depth ctx end) (unat param_count) ptr))))))"

definition parse_field :: "nat \<Rightarrow> VerifyContext \<Rightarrow> int \<Rightarrow> int \<Rightarrow> int option res" where
  "parse_field depth ctx end ptr =
    (let m = ctx_data ctx in
     bindc (safe_read8 m ptr end) (\<lambda>(signature, ptr).
     refuse_if (signature \<noteq> 0x06)
       (bindc (parse_custom_mods ctx end ptr) (\<lambda>ptr.
        bindr (safe_read8 m ptr end) (\<lambda>b.
        parse_type depth ctx end
          (case b of None \<Rightarrow> ptr | Some (ty, q) \<Rightarrow> if ty = MONO_TYPE_BYREF then q else ptr))))))"

lemma parse_custom_mods_next: "parse_custom_mods ctx end ptr = Inr (Some q) \<Longrightarrow> ptr \<le> q"
proof (induction ctx "end" ptr rule: parse_custom_mods.induct)
  case (1 ctx "end" ptr)
  note IH = this(1) and step = this(2) [unfolded parse_custom_mods.simps [of ctx "end" ptr]]
  from step obtain ty q1 where r: "safe_read8 (ctx_data ctx) ptr end = Inr (Some (ty, q1))" by auto
  note q1 = safe_read8_next [OF r]
  show ?case
  proof (cases "ty \<noteq> MONO_TYPE_CMOD_REQD \<and> ty \<noteq> MONO_TYPE_CMOD_OPT")
    case False
    with step r obtain token q2 where t: "safe_read_cint (ctx_data ctx) q1 end = Inr (Some (token, q2))"
      "is_valid_coded_index ctx TYPEDEF_OR_REF_DESC token" "parse_custom_mods ctx end q2 = Inr (Some q)" by auto
    with IH [OF r _ False t(1)] safe_read_cint_next [OF t(1)] q1 show ?thesis by auto
  qed (use step r q1 in auto)
qed

text \<open>The loop over modifiers and the pinned mark in front of the type of a local variable.\<close>

function local_mods :: "VerifyContext \<Rightarrow> int \<Rightarrow> guint8 \<Rightarrow> int \<Rightarrow> (guint8 \<times> int) option res" where
  "local_mods ctx end sig ptr =
    (if sig = MONO_TYPE_CMOD_REQD \<or> sig = MONO_TYPE_CMOD_OPT \<or> sig = MONO_TYPE_PINNED then
       bindc (if sig \<noteq> MONO_TYPE_PINNED then parse_custom_mods ctx end ptr else Inr (Some ptr)) (\<lambda>ptr.
       bindc (safe_read8 (ctx_data ctx) ptr end) (\<lambda>(sig, ptr). local_mods ctx end sig ptr))
     else Inr (Some (sig, ptr)))"
  by pat_completeness auto

termination
  by (relation "measure (\<lambda>(ctx, end, sig, ptr). nat (end - ptr))")
    (auto dest!: safe_read8_next parse_custom_mods_next split: if_splits)

declare local_mods.simps [simp del]

definition parse_local :: "nat \<Rightarrow> VerifyContext \<Rightarrow> int \<Rightarrow> int \<Rightarrow> int option res" where
  "parse_local depth ctx end ptr =
    (let m = ctx_data ctx in
     bindc (safe_read8 m ptr end) (\<lambda>(sig, ptr).
     bindc (local_mods ctx end sig ptr) (\<lambda>(sig, ptr).
     bindc (if sig = MONO_TYPE_BYREF
            then bindc (safe_read8 m ptr end) (\<lambda>(sig, ptr). refuse_if (sig = MONO_TYPE_TYPEDBYREF) (Inr (Some (sig, ptr))))
            else Inr (Some (sig, ptr))) (\<lambda>(sig, ptr).
     if sig = MONO_TYPE_TYPEDBYREF then Inr (Some ptr) else parse_type depth ctx end (ptr - 1)))))"

definition parse_locals_signature :: "nat \<Rightarrow> VerifyContext \<Rightarrow> int \<Rightarrow> int \<Rightarrow> int option res" where
  "parse_locals_signature depth ctx end ptr =
    (let m = ctx_data ctx in
     bindc (safe_read8 m ptr end) (\<lambda>(sig, ptr).
     refuse_if (sig \<noteq> 0x07)
       (bindc (safe_read_cint m ptr end) (\<lambda>(locals_count, ptr).
        parse_n (parse_local depth ctx end) (unat locals_count) ptr))))"

definition is_valid_field_signature :: "nat \<Rightarrow> VerifyContext \<Rightarrow> guint32 \<Rightarrow> bool res" where
  "is_valid_field_signature depth ctx offset =
    accepted (bindc (decode_signature_header ctx offset) (\<lambda>(ptr, end).
      bindc (safe_read8 (ctx_data ctx) ptr end) (\<lambda>(signature, q).
      refuse_if (signature \<noteq> 6) (parse_field depth ctx end ptr))))"

definition is_valid_method_signature :: "nat \<Rightarrow> VerifyContext \<Rightarrow> guint32 \<Rightarrow> bool res" where
  "is_valid_method_signature depth ctx offset =
    accepted (bindc (decode_signature_header ctx offset) (\<lambda>(ptr, end).
      parse_method_signature (parse_type depth ctx end) ctx end False False ptr))"

definition is_valid_method_or_field_signature :: "nat \<Rightarrow> VerifyContext \<Rightarrow> guint32 \<Rightarrow> bool res" where
  "is_valid_method_or_field_signature depth ctx offset =
    accepted (bindc (decode_signature_header ctx offset) (\<lambda>(ptr, end).
      bindc (safe_read8 (ctx_data ctx) ptr end) (\<lambda>(signature, q).
      if signature = 0x06 then parse_field depth ctx end ptr
      else parse_method_signature (parse_type depth ctx end) ctx end True False ptr)))"

definition is_valid_standalonesig_blob :: "nat \<Rightarrow> VerifyContext \<Rightarrow> guint32 \<Rightarrow> bool res" where
  "is_valid_standalonesig_blob depth ctx offset =
    accepted (bindc (decode_signature_header ctx offset) (\<lambda>(ptr, end).
      bindc (safe_read8 (ctx_data ctx) ptr end) (\<lambda>(signature, q).
      if signature = 0x07 then parse_locals_signature depth ctx end ptr
      else if signature = 0x06 then parse_field depth ctx end ptr
      else parse_method_signature (parse_type depth ctx end) ctx end True True ptr)))"

definition is_valid_property_sig_blob :: "nat \<Rightarrow> VerifyContext \<Rightarrow> guint32 \<Rightarrow> bool res" where
  "is_valid_property_sig_blob depth ctx offset =
    accepted (bindc (decode_signature_header ctx offset) (\<lambda>(ptr, end). parse_property_signature depth ctx end ptr))"

definition is_valid_typespec_blob :: "nat \<Rightarrow> VerifyContext \<Rightarrow> guint32 \<Rightarrow> bool res" where
  "is_valid_typespec_blob depth ctx offset =
    accepted (bindc (decode_signature_header ctx offset) (\<lambda>(ptr, end).
      let m = ctx_data ctx in
      bindc (parse_custom_mods ctx end ptr) (\<lambda>ptr.
      bindc (safe_read8 m ptr end) (\<lambda>(ty, ptr).
      bindc (if ty = MONO_TYPE_BYREF
             then bindc (safe_read8 m ptr end) (\<lambda>(ty, ptr). refuse_if (ty = MONO_TYPE_TYPEDBYREF) (Inr (Some (ty, ptr))))
             else Inr (Some (ty, ptr))) (\<lambda>(ty, ptr).
      if ty = MONO_TYPE_TYPEDBYREF then Inr (Some ptr) else parse_type depth ctx end (ptr - 1))))))"

definition is_valid_methodspec_blob :: "nat \<Rightarrow> VerifyContext \<Rightarrow> guint32 \<Rightarrow> bool res" where
  "is_valid_methodspec_blob depth ctx offset =
    accepted (bindc (decode_signature_header ctx offset) (\<lambda>(ptr, end).
      let m = ctx_data ctx in
      bindc (safe_read8 m ptr end) (\<lambda>(ty, ptr).
      refuse_if (ty \<noteq> 0x0A)
        (bindc (safe_read_cint m ptr end) (\<lambda>(count, ptr).
         refuse_if (count = 0) (parse_n (parse_type depth ctx end) (unat count) ptr))))))"

end
