(* ===== verification/Ver_Columns.thy ===== *)
theory Ver_Columns
  imports Ver_Sigs Meta_Lookup
begin

text \<open>
  The column numbers of \<open>row-indexes.h\<close> and the flags of \<open>tabledefs.h\<close> that the table checks of
  \<open>mono/metadata/metadata-verify.c\<close> use and the lookups do not.
\<close>

section \<open>Columns and flags\<close>

abbreviation (input) MONO_ASSEMBLY_HASH_ALG :: nat where "MONO_ASSEMBLY_HASH_ALG \<equiv> 0"
abbreviation (input) MONO_ASSEMBLY_FLAGS :: nat where "MONO_ASSEMBLY_FLAGS \<equiv> 5"
abbreviation (input) MONO_ASSEMBLY_PUBLIC_KEY :: nat where "MONO_ASSEMBLY_PUBLIC_KEY \<equiv> 6"
abbreviation (input) MONO_ASSEMBLY_NAME :: nat where "MONO_ASSEMBLY_NAME \<equiv> 7"
abbreviation (input) MONO_ASSEMBLY_CULTURE :: nat where "MONO_ASSEMBLY_CULTURE \<equiv> 8"
abbreviation (input) MONO_ASSEMBLY_SIZE :: nat where "MONO_ASSEMBLY_SIZE \<equiv> 9"
abbreviation (input) MONO_ASSEMBLYREF_FLAGS :: nat where "MONO_ASSEMBLYREF_FLAGS \<equiv> 4"
abbreviation (input) MONO_ASSEMBLYREF_PUBLIC_KEY :: nat where "MONO_ASSEMBLYREF_PUBLIC_KEY \<equiv> 5"
abbreviation (input) MONO_ASSEMBLYREF_NAME :: nat where "MONO_ASSEMBLYREF_NAME \<equiv> 6"
abbreviation (input) MONO_ASSEMBLYREF_CULTURE :: nat where "MONO_ASSEMBLYREF_CULTURE \<equiv> 7"
abbreviation (input) MONO_ASSEMBLYREF_HASH_VALUE :: nat where "MONO_ASSEMBLYREF_HASH_VALUE \<equiv> 8"
abbreviation (input) MONO_ASSEMBLYREF_SIZE :: nat where "MONO_ASSEMBLYREF_SIZE \<equiv> 9"
abbreviation (input) MONO_CONSTANT_TYPE :: nat where "MONO_CONSTANT_TYPE \<equiv> 0"
abbreviation (input) MONO_CONSTANT_VALUE :: nat where "MONO_CONSTANT_VALUE \<equiv> 3"
abbreviation (input) MONO_CONSTANT_SIZE :: nat where "MONO_CONSTANT_SIZE \<equiv> 4"
abbreviation (input) MONO_CUSTOM_ATTR_TYPE :: nat where "MONO_CUSTOM_ATTR_TYPE \<equiv> 1"
abbreviation (input) MONO_CUSTOM_ATTR_VALUE :: nat where "MONO_CUSTOM_ATTR_VALUE \<equiv> 2"
abbreviation (input) MONO_CUSTOM_ATTR_SIZE :: nat where "MONO_CUSTOM_ATTR_SIZE \<equiv> 3"
abbreviation (input) MONO_DECL_SECURITY_PERMISSIONSET :: nat where "MONO_DECL_SECURITY_PERMISSIONSET \<equiv> 2"
abbreviation (input) MONO_DECL_SECURITY_SIZE :: nat where "MONO_DECL_SECURITY_SIZE \<equiv> 3"
abbreviation (input) MONO_EVENT_MAP_SIZE :: nat where "MONO_EVENT_MAP_SIZE \<equiv> 2"
abbreviation (input) MONO_EVENT_FLAGS :: nat where "MONO_EVENT_FLAGS \<equiv> 0"
abbreviation (input) MONO_EVENT_NAME :: nat where "MONO_EVENT_NAME \<equiv> 1"
abbreviation (input) MONO_EVENT_TYPE :: nat where "MONO_EVENT_TYPE \<equiv> 2"
abbreviation (input) MONO_EVENT_SIZE :: nat where "MONO_EVENT_SIZE \<equiv> 3"
abbreviation (input) MONO_EXP_TYPE_FLAGS :: nat where "MONO_EXP_TYPE_FLAGS \<equiv> 0"
abbreviation (input) MONO_EXP_TYPE_NAME :: nat where "MONO_EXP_TYPE_NAME \<equiv> 2"
abbreviation (input) MONO_EXP_TYPE_NAMESPACE :: nat where "MONO_EXP_TYPE_NAMESPACE \<equiv> 3"
abbreviation (input) MONO_EXP_TYPE_IMPLEMENTATION :: nat where "MONO_EXP_TYPE_IMPLEMENTATION \<equiv> 4"
abbreviation (input) MONO_EXP_TYPE_SIZE :: nat where "MONO_EXP_TYPE_SIZE \<equiv> 5"
abbreviation (input) MONO_FIELD_FLAGS :: nat where "MONO_FIELD_FLAGS \<equiv> 0"
abbreviation (input) MONO_FIELD_NAME :: nat where "MONO_FIELD_NAME \<equiv> 1"
abbreviation (input) MONO_FIELD_SIGNATURE :: nat where "MONO_FIELD_SIGNATURE \<equiv> 2"
abbreviation (input) MONO_FIELD_SIZE :: nat where "MONO_FIELD_SIZE \<equiv> 3"
abbreviation (input) MONO_FIELD_LAYOUT_SIZE :: nat where "MONO_FIELD_LAYOUT_SIZE \<equiv> 2"
abbreviation (input) MONO_FIELD_MARSHAL_SIZE :: nat where "MONO_FIELD_MARSHAL_SIZE \<equiv> 2"
abbreviation (input) MONO_FIELD_RVA_SIZE :: nat where "MONO_FIELD_RVA_SIZE \<equiv> 2"
abbreviation (input) MONO_FILE_FLAGS :: nat where "MONO_FILE_FLAGS \<equiv> 0"
abbreviation (input) MONO_FILE_NAME :: nat where "MONO_FILE_NAME \<equiv> 1"
abbreviation (input) MONO_FILE_HASH_VALUE :: nat where "MONO_FILE_HASH_VALUE \<equiv> 2"
abbreviation (input) MONO_FILE_SIZE :: nat where "MONO_FILE_SIZE \<equiv> 3"
abbreviation (input) MONO_IMPLMAP_FLAGS :: nat where "MONO_IMPLMAP_FLAGS \<equiv> 0"
abbreviation (input) MONO_IMPLMAP_NAME :: nat where "MONO_IMPLMAP_NAME \<equiv> 2"
abbreviation (input) MONO_IMPLMAP_SCOPE :: nat where "MONO_IMPLMAP_SCOPE \<equiv> 3"
abbreviation (input) MONO_IMPLMAP_SIZE :: nat where "MONO_IMPLMAP_SIZE \<equiv> 4"
abbreviation (input) MONO_MANIFEST_OFFSET :: nat where "MONO_MANIFEST_OFFSET \<equiv> 0"
abbreviation (input) MONO_MANIFEST_FLAGS :: nat where "MONO_MANIFEST_FLAGS \<equiv> 1"
abbreviation (input) MONO_MANIFEST_NAME :: nat where "MONO_MANIFEST_NAME \<equiv> 2"
abbreviation (input) MONO_MANIFEST_IMPLEMENTATION :: nat where "MONO_MANIFEST_IMPLEMENTATION \<equiv> 3"
abbreviation (input) MONO_MANIFEST_SIZE :: nat where "MONO_MANIFEST_SIZE \<equiv> 4"
abbreviation (input) MONO_MEMBERREF_CLASS :: nat where "MONO_MEMBERREF_CLASS \<equiv> 0"
abbreviation (input) MONO_MEMBERREF_NAME :: nat where "MONO_MEMBERREF_NAME \<equiv> 1"
abbreviation (input) MONO_MEMBERREF_SIGNATURE :: nat where "MONO_MEMBERREF_SIGNATURE \<equiv> 2"
abbreviation (input) MONO_MEMBERREF_SIZE :: nat where "MONO_MEMBERREF_SIZE \<equiv> 3"
abbreviation (input) MONO_METHOD_RVA :: nat where "MONO_METHOD_RVA \<equiv> 0"
abbreviation (input) MONO_METHOD_IMPLFLAGS :: nat where "MONO_METHOD_IMPLFLAGS \<equiv> 1"
abbreviation (input) MONO_METHOD_FLAGS :: nat where "MONO_METHOD_FLAGS \<equiv> 2"
abbreviation (input) MONO_METHOD_NAME :: nat where "MONO_METHOD_NAME \<equiv> 3"
abbreviation (input) MONO_METHOD_SIGNATURE :: nat where "MONO_METHOD_SIGNATURE \<equiv> 4"
abbreviation (input) MONO_METHOD_SIZE :: nat where "MONO_METHOD_SIZE \<equiv> 6"
abbreviation (input) MONO_METHODIMPL_BODY :: nat where "MONO_METHODIMPL_BODY \<equiv> 1"
abbreviation (input) MONO_METHODIMPL_DECLARATION :: nat where "MONO_METHODIMPL_DECLARATION \<equiv> 2"
abbreviation (input) MONO_METHODIMPL_SIZE :: nat where "MONO_METHODIMPL_SIZE \<equiv> 3"
abbreviation (input) MONO_METHOD_SEMA_SEMANTICS :: nat where "MONO_METHOD_SEMA_SEMANTICS \<equiv> 0"
abbreviation (input) MONO_MODULE_NAME :: nat where "MONO_MODULE_NAME \<equiv> 1"
abbreviation (input) MONO_MODULE_MVID :: nat where "MONO_MODULE_MVID \<equiv> 2"
abbreviation (input) MONO_MODULE_ENC :: nat where "MONO_MODULE_ENC \<equiv> 3"
abbreviation (input) MONO_MODULE_ENCBASE :: nat where "MONO_MODULE_ENCBASE \<equiv> 4"
abbreviation (input) MONO_MODULE_SIZE :: nat where "MONO_MODULE_SIZE \<equiv> 5"
abbreviation (input) MONO_MODULEREF_NAME :: nat where "MONO_MODULEREF_NAME \<equiv> 0"
abbreviation (input) MONO_MODULEREF_SIZE :: nat where "MONO_MODULEREF_SIZE \<equiv> 1"
abbreviation (input) MONO_NESTED_CLASS_SIZE :: nat where "MONO_NESTED_CLASS_SIZE \<equiv> 2"
abbreviation (input) MONO_PARAM_NAME :: nat where "MONO_PARAM_NAME \<equiv> 2"
abbreviation (input) MONO_PROPERTY_FLAGS :: nat where "MONO_PROPERTY_FLAGS \<equiv> 0"
abbreviation (input) MONO_PROPERTY_NAME :: nat where "MONO_PROPERTY_NAME \<equiv> 1"
abbreviation (input) MONO_PROPERTY_TYPE :: nat where "MONO_PROPERTY_TYPE \<equiv> 2"
abbreviation (input) MONO_PROPERTY_SIZE :: nat where "MONO_PROPERTY_SIZE \<equiv> 3"
abbreviation (input) MONO_PROPERTY_MAP_SIZE :: nat where "MONO_PROPERTY_MAP_SIZE \<equiv> 2"
abbreviation (input) MONO_STAND_ALONE_SIGNATURE :: nat where "MONO_STAND_ALONE_SIGNATURE \<equiv> 0"
abbreviation (input) MONO_STAND_ALONE_SIGNATURE_SIZE :: nat where "MONO_STAND_ALONE_SIGNATURE_SIZE \<equiv> 1"
abbreviation (input) MONO_TYPEDEF_FLAGS :: nat where "MONO_TYPEDEF_FLAGS \<equiv> 0"
abbreviation (input) MONO_TYPEDEF_NAME :: nat where "MONO_TYPEDEF_NAME \<equiv> 1"
abbreviation (input) MONO_TYPEDEF_NAMESPACE :: nat where "MONO_TYPEDEF_NAMESPACE \<equiv> 2"
abbreviation (input) MONO_TYPEDEF_EXTENDS :: nat where "MONO_TYPEDEF_EXTENDS \<equiv> 3"
abbreviation (input) MONO_TYPEDEF_SIZE :: nat where "MONO_TYPEDEF_SIZE \<equiv> 6"
abbreviation (input) MONO_TYPEREF_SCOPE :: nat where "MONO_TYPEREF_SCOPE \<equiv> 0"
abbreviation (input) MONO_TYPEREF_NAME :: nat where "MONO_TYPEREF_NAME \<equiv> 1"
abbreviation (input) MONO_TYPEREF_NAMESPACE :: nat where "MONO_TYPEREF_NAMESPACE \<equiv> 2"
abbreviation (input) MONO_TYPEREF_SIZE :: nat where "MONO_TYPEREF_SIZE \<equiv> 3"
abbreviation (input) MONO_TYPESPEC_SIGNATURE :: nat where "MONO_TYPESPEC_SIGNATURE \<equiv> 0"
abbreviation (input) MONO_TYPESPEC_SIZE :: nat where "MONO_TYPESPEC_SIZE \<equiv> 1"
abbreviation (input) MONO_GENERICPARAM_NUMBER :: nat where "MONO_GENERICPARAM_NUMBER \<equiv> 0"
abbreviation (input) MONO_GENERICPARAM_FLAGS :: nat where "MONO_GENERICPARAM_FLAGS \<equiv> 1"
abbreviation (input) MONO_GENERICPARAM_NAME :: nat where "MONO_GENERICPARAM_NAME \<equiv> 3"
abbreviation (input) MONO_GENERICPARAM_SIZE :: nat where "MONO_GENERICPARAM_SIZE \<equiv> 4"
abbreviation (input) MONO_METHODSPEC_METHOD :: nat where "MONO_METHODSPEC_METHOD \<equiv> 0"
abbreviation (input) MONO_METHODSPEC_SIGNATURE :: nat where "MONO_METHODSPEC_SIGNATURE \<equiv> 1"
abbreviation (input) MONO_METHODSPEC_SIZE :: nat where "MONO_METHODSPEC_SIZE \<equiv> 2"

abbreviation (input) FIELD_ATTRIBUTE_FIELD_ACCESS_MASK :: guint32 where "FIELD_ATTRIBUTE_FIELD_ACCESS_MASK \<equiv> 0x0007"
abbreviation (input) FIELD_ATTRIBUTE_COMPILER_CONTROLLED :: guint32 where "FIELD_ATTRIBUTE_COMPILER_CONTROLLED \<equiv> 0x0000"
abbreviation (input) FIELD_ATTRIBUTE_PRIVATE :: guint32 where "FIELD_ATTRIBUTE_PRIVATE \<equiv> 0x0001"
abbreviation (input) FIELD_ATTRIBUTE_PUBLIC :: guint32 where "FIELD_ATTRIBUTE_PUBLIC \<equiv> 0x0006"
abbreviation (input) FIELD_ATTRIBUTE_STATIC :: guint32 where "FIELD_ATTRIBUTE_STATIC \<equiv> 0x0010"
abbreviation (input) FIELD_ATTRIBUTE_INIT_ONLY :: guint32 where "FIELD_ATTRIBUTE_INIT_ONLY \<equiv> 0x0020"
abbreviation (input) FIELD_ATTRIBUTE_LITERAL :: guint32 where "FIELD_ATTRIBUTE_LITERAL \<equiv> 0x0040"
abbreviation (input) FIELD_ATTRIBUTE_SPECIAL_NAME :: guint32 where "FIELD_ATTRIBUTE_SPECIAL_NAME \<equiv> 0x0200"
abbreviation (input) FIELD_ATTRIBUTE_RT_SPECIAL_NAME :: guint32 where "FIELD_ATTRIBUTE_RT_SPECIAL_NAME \<equiv> 0x0400"
abbreviation (input) FIELD_ATTRIBUTE_HAS_FIELD_MARSHAL :: guint32 where "FIELD_ATTRIBUTE_HAS_FIELD_MARSHAL \<equiv> 0x1000"
abbreviation (input) FIELD_ATTRIBUTE_HAS_DEFAULT :: guint32 where "FIELD_ATTRIBUTE_HAS_DEFAULT \<equiv> 0x8000"
abbreviation (input) FIELD_ATTRIBUTE_HAS_FIELD_RVA :: guint32 where "FIELD_ATTRIBUTE_HAS_FIELD_RVA \<equiv> 0x0100"
abbreviation (input) TYPE_ATTRIBUTE_VISIBILITY_MASK :: guint32 where "TYPE_ATTRIBUTE_VISIBILITY_MASK \<equiv> 0x00000007"
abbreviation (input) TYPE_ATTRIBUTE_NESTED_PUBLIC :: guint32 where "TYPE_ATTRIBUTE_NESTED_PUBLIC \<equiv> 0x00000002"
abbreviation (input) TYPE_ATTRIBUTE_NESTED_FAM_OR_ASSEM :: guint32 where "TYPE_ATTRIBUTE_NESTED_FAM_OR_ASSEM \<equiv> 0x00000007"
abbreviation (input) TYPE_ATTRIBUTE_LAYOUT_MASK :: guint32 where "TYPE_ATTRIBUTE_LAYOUT_MASK \<equiv> 0x00000018"
abbreviation (input) TYPE_ATTRIBUTE_INTERFACE :: guint32 where "TYPE_ATTRIBUTE_INTERFACE \<equiv> 0x00000020"
abbreviation (input) TYPE_ATTRIBUTE_ABSTRACT :: guint32 where "TYPE_ATTRIBUTE_ABSTRACT \<equiv> 0x00000080"
abbreviation (input) TYPE_ATTRIBUTE_STRING_FORMAT_MASK :: guint32 where "TYPE_ATTRIBUTE_STRING_FORMAT_MASK \<equiv> 0x00030000"
abbreviation (input) TYPE_ATTRIBUTE_FORWARDER :: guint32 where "TYPE_ATTRIBUTE_FORWARDER \<equiv> 0x00200000"
abbreviation (input) METHOD_IMPL_ATTRIBUTE_CODE_TYPE_MASK :: guint32 where "METHOD_IMPL_ATTRIBUTE_CODE_TYPE_MASK \<equiv> 0x0003"
abbreviation (input) METHOD_IMPL_ATTRIBUTE_OPTIL :: guint32 where "METHOD_IMPL_ATTRIBUTE_OPTIL \<equiv> 0x0002"
abbreviation (input) METHOD_IMPL_ATTRIBUTE_RUNTIME :: guint32 where "METHOD_IMPL_ATTRIBUTE_RUNTIME \<equiv> 0x0003"
abbreviation (input) METHOD_IMPL_ATTRIBUTE_INTERNAL_CALL :: guint32 where "METHOD_IMPL_ATTRIBUTE_INTERNAL_CALL \<equiv> 0x1000"
abbreviation (input) METHOD_ATTRIBUTE_MEMBER_ACCESS_MASK :: guint32 where "METHOD_ATTRIBUTE_MEMBER_ACCESS_MASK \<equiv> 0x0007"
abbreviation (input) METHOD_ATTRIBUTE_COMPILER_CONTROLLED :: guint32 where "METHOD_ATTRIBUTE_COMPILER_CONTROLLED \<equiv> 0x0000"
abbreviation (input) METHOD_ATTRIBUTE_PRIVATE :: guint32 where "METHOD_ATTRIBUTE_PRIVATE \<equiv> 0x0001"
abbreviation (input) METHOD_ATTRIBUTE_PUBLIC :: guint32 where "METHOD_ATTRIBUTE_PUBLIC \<equiv> 0x0006"
abbreviation (input) METHOD_ATTRIBUTE_STATIC :: guint32 where "METHOD_ATTRIBUTE_STATIC \<equiv> 0x0010"
abbreviation (input) METHOD_ATTRIBUTE_FINAL :: guint32 where "METHOD_ATTRIBUTE_FINAL \<equiv> 0x0020"
abbreviation (input) METHOD_ATTRIBUTE_VIRTUAL :: guint32 where "METHOD_ATTRIBUTE_VIRTUAL \<equiv> 0x0040"
abbreviation (input) METHOD_ATTRIBUTE_NEW_SLOT :: guint32 where "METHOD_ATTRIBUTE_NEW_SLOT \<equiv> 0x0100"
abbreviation (input) METHOD_ATTRIBUTE_STRICT :: guint32 where "METHOD_ATTRIBUTE_STRICT \<equiv> 0x0200"
abbreviation (input) METHOD_ATTRIBUTE_ABSTRACT :: guint32 where "METHOD_ATTRIBUTE_ABSTRACT \<equiv> 0x0400"
abbreviation (input) METHOD_ATTRIBUTE_SPECIAL_NAME :: guint32 where "METHOD_ATTRIBUTE_SPECIAL_NAME \<equiv> 0x0800"
abbreviation (input) METHOD_ATTRIBUTE_PINVOKE_IMPL :: guint32 where "METHOD_ATTRIBUTE_PINVOKE_IMPL \<equiv> 0x2000"
abbreviation (input) METHOD_ATTRIBUTE_RT_SPECIAL_NAME :: guint32 where "METHOD_ATTRIBUTE_RT_SPECIAL_NAME \<equiv> 0x1000"
abbreviation (input) METHOD_SEMANTIC_ADD_ON :: guint32 where "METHOD_SEMANTIC_ADD_ON \<equiv> 0x0008"
abbreviation (input) METHOD_SEMANTIC_REMOVE_ON :: guint32 where "METHOD_SEMANTIC_REMOVE_ON \<equiv> 0x0010"
abbreviation (input) PARAM_ATTRIBUTE_HAS_DEFAULT :: guint32 where "PARAM_ATTRIBUTE_HAS_DEFAULT \<equiv> 0x1000"
abbreviation (input) PARAM_ATTRIBUTE_HAS_FIELD_MARSHAL :: guint32 where "PARAM_ATTRIBUTE_HAS_FIELD_MARSHAL \<equiv> 0x2000"
abbreviation (input) PROPERTY_ATTRIBUTE_HAS_DEFAULT :: guint32 where "PROPERTY_ATTRIBUTE_HAS_DEFAULT \<equiv> 0x1000"
abbreviation (input) PINVOKE_ATTRIBUTE_CALL_CONV_MASK :: guint32 where "PINVOKE_ATTRIBUTE_CALL_CONV_MASK \<equiv> 0x0700"

abbreviation (input) MONO_GEN_PARAM_VARIANCE_MASK :: guint32 where "MONO_GEN_PARAM_VARIANCE_MASK \<equiv> 0x0003"

end
