(* ===== verification/Ver_Bodies.thy ===== *)
theory Ver_Bodies
  imports Ver_Columns
begin

text \<open>
  The checks of constants, method bodies, and the module, type, field, method and parameter tables of
  \<open>mono/metadata/metadata-verify.c\<close>.
\<close>

section \<open>Sequences of checks\<close>

text \<open>
  The body of a loop over rows is a list of checks, of which the first that refuses the row or fails
  ends the list.  \<open>must\<close> is an \<open>ADD_ERROR\<close> when the condition is false, \<open>given\<close> the \<open>&&\<close> in front of a
  condition with effects.
\<close>

fun checks :: "unit option res list \<Rightarrow> unit option res" where
  "checks [] = Inr (Some ())"
| "checks (c # cs) = bindc c (\<lambda>_. checks cs)"

definition refuse_when :: "bool \<Rightarrow> unit option res" where
  "refuse_when b = (if b then Inr None else Inr (Some ()))"

definition must :: "bool res \<Rightarrow> unit option res" where
  "must r = bindr r (\<lambda>b. refuse_when (\<not> b))"

definition given :: "bool \<Rightarrow> bool res \<Rightarrow> bool res" where
  "given b r = (if b then r else Inr True)"

definition unless :: "bool \<Rightarrow> bool res \<Rightarrow> bool res" where
  "unless b r = (if b then Inr False else r)"

text \<open>The loop \<open>for (i = 0; i < table->rows; ++i)\<close> with the decoding of the row, over the row numbers \<open>is\<close>.\<close>

fun rows_loop :: "VerifyContext \<Rightarrow> nat \<Rightarrow> nat \<Rightarrow> (nat \<Rightarrow> guint32 list \<Rightarrow> 's \<Rightarrow> 's option res) \<Rightarrow> nat list \<Rightarrow> 's \<Rightarrow> 's option res" where
  "rows_loop ctx table n body [] s = Inr (Some s)"
| "rows_loop ctx table n body (i # is) s =
    bindr (mono_metadata_decode_row (ctx_data ctx) (tables (ctx_image ctx) ! table) (int i) n) (\<lambda>data.
    bindc (body i data s) (\<lambda>s. rows_loop ctx table n body is s))"

definition for_rows :: "VerifyContext \<Rightarrow> nat \<Rightarrow> nat \<Rightarrow> (nat \<Rightarrow> guint32 list \<Rightarrow> 's \<Rightarrow> 's option res) \<Rightarrow> 's \<Rightarrow> 's option res" where
  "for_rows ctx table n body s = rows_loop ctx table n body [0..<table_rows (ctx_image ctx) table] s"

definition for_each_row :: "VerifyContext \<Rightarrow> nat \<Rightarrow> nat \<Rightarrow> (nat \<Rightarrow> guint32 list \<Rightarrow> unit option res list) \<Rightarrow> unit option res" where
  "for_each_row ctx table n body = for_rows ctx table n (\<lambda>i data _. checks (body i data)) ()"

text \<open>A search whose result is compared with -1.\<close>

definition found :: "VerifyContext \<Rightarrow> nat \<Rightarrow> nat \<Rightarrow> guint32 res \<Rightarrow> bool res" where
  "found ctx table column token =
    bindr token (\<lambda>t. bindr (search_sorted_table ctx table column t) (\<lambda>r. Inr (r \<noteq> None)))"

text \<open>The pointer of a string; with a missing heap it is not a valid address.\<close>

definition get_string_ptr :: "VerifyContext \<Rightarrow> guint32 \<Rightarrow> int res" where
  "get_string_ptr ctx offset = (case heap_data (heap_strings (ctx_image ctx)) of None \<Rightarrow> Inl Null_deref | Some p \<Rightarrow> Inr (p + uint offset))"

text \<open>The result of \<open>!string_cmp\<close>; \<open>str\<close> is given without its null character.\<close>

definition string_is :: "VerifyContext \<Rightarrow> guint8 list \<Rightarrow> guint32 \<Rightarrow> bool res" where
  "string_is ctx str offset =
    (if offset = 0 then Inr (str = [])
     else bindr (get_string_ptr ctx offset) (\<lambda>p. strncmp_is (ctx_data ctx) p (str @ [0])))"

definition S_System :: "guint8 list" where "S_System = [0x53, 0x79, 0x73, 0x74, 0x65, 0x6D]"
definition S_Object :: "guint8 list" where "S_Object = [0x4F, 0x62, 0x6A, 0x65, 0x63, 0x74]"
definition S_ctor :: "guint8 list" where "S_ctor = [0x2E, 0x63, 0x74, 0x6F, 0x72]"
definition S_cctor :: "guint8 list" where "S_cctor = [0x2E, 0x63, 0x63, 0x74, 0x6F, 0x72]"

section \<open>Constants and method bodies\<close>

text \<open>\<open>ADD_IS_GREATER_OR_OVF\<close>\<close>

definition add_is_greater_or_ovf :: "guint32 \<Rightarrow> guint32 \<Rightarrow> guint32 \<Rightarrow> bool" where
  "add_is_greater_or_ovf a b c \<longleftrightarrow> a + b > c \<or> 0xFFFFFFFF - b < a"

definition constant_size :: "guint32 \<Rightarrow> guint32 option" where
  "constant_size ty =
    (if ty \<in> {MONO_TYPE_BOOLEAN, MONO_TYPE_I1, MONO_TYPE_U1} then Some 1
     else if ty \<in> {MONO_TYPE_CHAR, MONO_TYPE_I2, MONO_TYPE_U2} then Some 2
     else if ty \<in> {MONO_TYPE_I4, MONO_TYPE_U4, MONO_TYPE_R4, MONO_TYPE_CLASS} then Some 4
     else if ty \<in> {MONO_TYPE_I8, MONO_TYPE_U8, MONO_TYPE_R8} then Some 8
     else None)"

definition is_valid_constant :: "VerifyContext \<Rightarrow> guint32 \<Rightarrow> guint32 \<Rightarrow> bool res" where
  "is_valid_constant ctx ty offset =
    (let blob = heap_blob (ctx_image ctx); sz = stream_size blob in
     if sz < offset then Inr False
     else bindr (stream_offset blob) (\<lambda>o'.
       bindr (decode_value (ctx_data ctx) (uint offset + uint o') (sz - o')) (\<lambda>d.
       case d of None \<Rightarrow> Inr False
       | Some (entry_size, bytes) \<Rightarrow>
           if ty = MONO_TYPE_STRING then Inr (\<not> add_is_greater_or_ovf (offset + bytes) entry_size sz)
           else case constant_size ty of None \<Rightarrow> Inl Assert_failed
           | Some size' \<Rightarrow>
               if size' \<noteq> entry_size then Inr False
               else if add_is_greater_or_ovf (offset + bytes) size' sz then Inr False
               else if ty = MONO_TYPE_CLASS
               then bindr (read32 (ctx_data ctx) (uint o' + uint (offset + bytes))) (\<lambda>v. Inr (v = 0))
               else Inr True)))"

text \<open>The clauses of an exception section; the flags are the first byte of a clause, read without a check.\<close>

fun eh_clauses_loop :: "VerifyContext \<Rightarrow> int \<Rightarrow> bool \<Rightarrow> nat \<Rightarrow> int \<Rightarrow> int option res" where
  "eh_clauses_loop ctx end is_fat 0 ptr = Inr (Some ptr)"
| "eh_clauses_loop ctx end is_fat (Suc n) ptr =
    bindr (read8 (ctx_data ctx) ptr) (\<lambda>flags.
    bindc (safe_read32 (ctx_data ctx) (ptr + (if is_fat then 20 else 8)) end) (\<lambda>(class_token, ptr).
    let table = unat (mono_metadata_token_table class_token) in
    if flags = 0 \<and> class_token \<noteq> 0 then
      refuse_if (table \<noteq> MONO_TABLE_TYPEREF \<and> table \<noteq> MONO_TABLE_TYPEDEF \<and> table \<noteq> MONO_TABLE_TYPESPEC)
        (refuse_if (unat (mono_metadata_token_index class_token) > table_rows (ctx_image ctx) table)
          (eh_clauses_loop ctx end is_fat n ptr))
    else eh_clauses_loop ctx end is_fat n ptr))"

lemma safe_read32_next: "safe_read32 m ptr end = Inr (Some (v, q)) \<Longrightarrow> q = ptr + 4 \<and> q \<le> end"
  by (auto simp: safe_read32_def)

lemma eh_clauses_loop_next: "eh_clauses_loop ctx end is_fat n ptr = Inr (Some q) \<Longrightarrow> ptr \<le> q"
proof (induction n arbitrary: ptr)
  case (Suc n)
  then obtain v q1 where "safe_read32 (ctx_data ctx) (ptr + (if is_fat then 20 else 8)) end = Inr (Some (v, q1))"
    "eh_clauses_loop ctx end is_fat n q1 = Inr (Some q)"
    by (auto simp: bindr_eq_Inr Let_def split: if_splits)
  with Suc.IH [of q1] safe_read32_next [of "ctx_data ctx" "ptr + (if is_fat then 20 else 8)" "end" v q1] show ?case
    by (auto split: if_splits)
qed simp

lemma dword_align_eq: "dword_align p = (p + 3) - (p + 3) mod 4"
proof -
  have "((p + 3) AND 3) + ((p + 3) AND NOT 3) = ((p + 3) AND 3) OR ((p + 3) AND NOT 3)"
    by (rule disjunctive_add) (simp add: bit_simps)
  also have "\<dots> = p + 3" by (rule bit_eqI) (auto simp: bit_simps)
  finally show ?thesis
    using take_bit_eq_mask [of 2 "p + 3"] by (simp add: dword_align_def mask_eq_exp_minus_1 take_bit_eq_mod)
qed

lemma dword_align_ge: "p \<le> dword_align p"
  using pos_mod_bound [of 4 "p + 3"] unfolding dword_align_eq by linarith

text \<open>
  The data sections behind a method body.  The image is mapped at a multiple of 4, so that aligning a
  position aligns the pointer.
\<close>

function method_sections :: "VerifyContext \<Rightarrow> int \<Rightarrow> int \<Rightarrow> unit option res" where
  "method_sections ctx end ptr =
    bindc (safe_read32 (ctx_data ctx) (dword_align ptr) end) (\<lambda>(h, ptr).
    let is_fat = (h AND 0x40 \<noteq> 0); section_size = drop_bit 8 h AND (if is_fat then 0xFFFFFF else 0xFF);
        n = (if is_fat then 24 else 12); clauses = section_size div n in
    refuse_if (h AND 0x3E \<noteq> 0)
      (refuse_if (section_size < 4)
        (refuse_if (ptr + uint (section_size - 4) > end)
          (bindc (if h AND 1 = 0 then Inr (Some ptr)
                  else refuse_if (clauses * n \<noteq> section_size \<and> clauses * n + 4 \<noteq> section_size)
                    (eh_clauses_loop ctx end is_fat (unat clauses) ptr)) (\<lambda>ptr.
           if h AND 0x80 = 0 then Inr (Some ()) else method_sections ctx end ptr)))))"
  by pat_completeness auto

termination
proof (relation "measure (\<lambda>(ctx, end, ptr). nat (end - ptr))", goal_cases)
  case (2 ctx "end" ptr p h q is_fat section_size n clauses r)
  then have q: "q = dword_align ptr + 4" "q \<le> end" using safe_read32_next by blast+
  have "q \<le> r" using 2 by (auto split: if_splits dest: eh_clauses_loop_next)
  with q dword_align_ge [of ptr] show ?case by simp
qed simp

declare method_sections.simps [simp del]

definition is_valid_method_header :: "VerifyContext \<Rightarrow> guint32 \<Rightarrow> bool res" where
  "is_valid_method_header ctx r =
    (let m = ctx_data ctx; offset = mono_cli_rva_image_map (cli_section_tables (ctx_info ctx)) r; end = uint (ctx_size ctx) in
     accepted (refuse_if (offset = INVALID_ADDRESS)
       (bindc (safe_read8 m (uint offset) end) (\<lambda>(header, ptr).
        refuse_if (header AND 0x3 = 0 \<or> header AND 0x3 = 1)
          (if header AND 0x3 = 2 then refuse_if (ptr + uint (drop_bit 2 header) > end) (Inr (Some ()))
           else
             bindc (safe_read16 m (ptr - 1) end) (\<lambda>(fat_header, ptr).
             refuse_if (drop_bit 12 fat_header AND 0xF \<noteq> 3)
               (bindc (safe_read16 m ptr end) (\<lambda>(max_stack, ptr).
                bindc (safe_read32 m ptr end) (\<lambda>(code_size, ptr).
                bindc (safe_read32 m ptr end) (\<lambda>(local_vars_tok, ptr).
                refuse_if (local_vars_tok \<noteq> 0 \<and> (drop_bit 24 local_vars_tok AND 0xFF \<noteq> 0x11 \<or>
                    unat (local_vars_tok AND 0xFFFFFF) > table_rows (ctx_image ctx) MONO_TABLE_STANDALONESIG))
                  (refuse_if (fat_header AND NOT 0xF01B \<noteq> 0)
                    (refuse_if (ptr + uint code_size > end)
                      (if fat_header AND 0x08 = 0 then Inr (Some ())
                       else method_sections ctx end (ptr + uint code_size))))))))))))))"

section \<open>Modules and types\<close>

definition verify_module_table :: "VerifyContext \<Rightarrow> unit option res" where
  "verify_module_table ctx =
    refuse_if (table_rows (ctx_image ctx) MONO_TABLE_MODULE \<noteq> 1)
      (bindr (mono_metadata_decode_row (ctx_data ctx) (tables (ctx_image ctx) ! MONO_TABLE_MODULE) 0 MONO_MODULE_SIZE) (\<lambda>data.
       checks
         [must (is_valid_non_empty_string ctx (data ! MONO_MODULE_NAME)),
          refuse_when (\<not> is_valid_guid ctx (data ! MONO_MODULE_MVID)),
          refuse_when (data ! MONO_MODULE_ENC \<noteq> 0),
          refuse_when (data ! MONO_MODULE_ENCBASE \<noteq> 0)]))"

definition verify_typeref_table :: "VerifyContext \<Rightarrow> unit option res" where
  "verify_typeref_table ctx =
    for_each_row ctx MONO_TABLE_TYPEREF MONO_TYPEREF_SIZE (\<lambda>i data.
      [refuse_when (\<not> is_valid_coded_index ctx RES_SCOPE_DESC (data ! MONO_TYPEREF_SCOPE)),
       refuse_when (get_coded_index_token RES_SCOPE_DESC (data ! MONO_TYPEREF_SCOPE) = 0),
       must (unless (data ! MONO_TYPEREF_NAME = 0) (is_valid_non_empty_string ctx (data ! MONO_TYPEREF_NAME))),
       must (given (data ! MONO_TYPEREF_NAMESPACE \<noteq> 0) (is_valid_non_empty_string ctx (data ! MONO_TYPEREF_NAMESPACE)))])"

abbreviation (input) INVALID_TYPEDEF_FLAG_BITS :: guint32 where "INVALID_TYPEDEF_FLAG_BITS \<equiv> 0xFF28C240"

definition nested_visibility :: "guint32 \<Rightarrow> bool" where
  "nested_visibility flags \<longleftrightarrow>
    (let visibility = flags AND TYPE_ATTRIBUTE_VISIBILITY_MASK in
     visibility \<ge> TYPE_ATTRIBUTE_NESTED_PUBLIC \<and> visibility \<le> TYPE_ATTRIBUTE_NESTED_FAM_OR_ASSEM)"

text \<open>The state of the loop is the field list and the method list of the row before.\<close>

definition verify_typedef_row :: "VerifyContext \<Rightarrow> nat \<Rightarrow> guint32 list \<Rightarrow> guint32 \<times> guint32 \<Rightarrow> (guint32 \<times> guint32) option res" where
  "verify_typedef_row ctx i data before =
    (let flags = data ! MONO_TYPEDEF_FLAGS; fields = data ! MONO_TYPEDEF_FIELD_LIST; methods = data ! MONO_TYPEDEF_METHOD_LIST in
     bindc (checks
       [refuse_when (flags AND INVALID_TYPEDEF_FLAG_BITS \<noteq> 0),
        refuse_when (flags AND TYPE_ATTRIBUTE_LAYOUT_MASK = 0x18),
        refuse_when (flags AND TYPE_ATTRIBUTE_STRING_FORMAT_MASK = 0x30000),
        refuse_when (flags AND 0xC00000 \<noteq> 0),
        refuse_when (flags AND TYPE_ATTRIBUTE_INTERFACE \<noteq> 0 \<and> flags AND TYPE_ATTRIBUTE_ABSTRACT = 0),
        must (unless (data ! MONO_TYPEDEF_NAME = 0) (is_valid_non_empty_string ctx (data ! MONO_TYPEDEF_NAME))),
        must (given (data ! MONO_TYPEREF_NAMESPACE \<noteq> 0) (is_valid_non_empty_string ctx (data ! MONO_TYPEREF_NAMESPACE))),
        refuse_when (data ! MONO_TYPEDEF_EXTENDS \<noteq> 0 \<and> \<not> is_valid_coded_index ctx TYPEDEF_OR_REF_DESC (data ! MONO_TYPEDEF_EXTENDS)),
        must (given (nested_visibility flags)
          (found ctx MONO_TABLE_NESTEDCLASS MONO_NESTED_CLASS_NESTED (Inr (of_nat (i + 1))))),
        refuse_when (fields = 0),
        refuse_when (unat fields > table_rows (ctx_image ctx) MONO_TABLE_FIELD + 1),
        refuse_when (fields < fst before),
        refuse_when (methods = 0),
        refuse_when (unat methods > table_rows (ctx_image ctx) MONO_TABLE_METHOD + 1),
        refuse_when (methods < snd before)])
       (\<lambda>_. Inr (Some (fields, methods))))"

definition verify_typedef_table :: "VerifyContext \<Rightarrow> unit option res" where
  "verify_typedef_table ctx =
    refuse_if (table_rows (ctx_image ctx) MONO_TABLE_TYPEDEF = 0)
      (bindc (for_rows ctx MONO_TABLE_TYPEDEF MONO_TYPEDEF_SIZE (verify_typedef_row ctx) (1, 1)) (\<lambda>_. Inr (Some ())))"

text \<open>\<open>corlib\<close> is the result of \<open>mono_verifier_is_corlib\<close> for the image.\<close>

definition typedef_is_system_object :: "bool \<Rightarrow> VerifyContext \<Rightarrow> guint32 list \<Rightarrow> bool res" where
  "typedef_is_system_object corlib ctx data =
    (if \<not> corlib then Inr False
     else bindr (string_is ctx S_System (data ! MONO_TYPEDEF_NAMESPACE)) (\<lambda>b.
       if \<not> b then Inr False else string_is ctx S_Object (data ! MONO_TYPEDEF_NAME)))"

definition verify_typedef_table_full :: "bool \<Rightarrow> VerifyContext \<Rightarrow> unit option res" where
  "verify_typedef_table_full corlib ctx =
    refuse_if (table_rows (ctx_image ctx) MONO_TABLE_TYPEDEF = 0)
      (for_each_row ctx MONO_TABLE_TYPEDEF MONO_TYPEDEF_SIZE (\<lambda>i data.
        if i = 0 then []
        else if data ! MONO_TYPEDEF_FLAGS AND TYPE_ATTRIBUTE_INTERFACE \<noteq> 0 then [refuse_when (data ! MONO_TYPEDEF_EXTENDS \<noteq> 0)]
        else [must (bindr (typedef_is_system_object corlib ctx data) (\<lambda>is_sys_obj.
          let has_parent = (get_coded_index_token TYPEDEF_OR_REF_DESC (data ! MONO_TYPEDEF_EXTENDS) \<noteq> 0) in
          Inr (if is_sys_obj then \<not> has_parent else has_parent)))]))"

section \<open>Fields, methods and parameters\<close>

text \<open>The first field or method behind those of the module type, or -1.\<close>

definition module_list :: "VerifyContext \<Rightarrow> nat \<Rightarrow> guint32 res" where
  "module_list ctx col =
    (if table_rows (ctx_image ctx) MONO_TABLE_TYPEDEF > 1
     then mono_metadata_decode_row_col (ctx_data ctx) (tables (ctx_image ctx) ! MONO_TABLE_TYPEDEF) 1 col
     else Inr (- 1))"

abbreviation (input) INVALID_FIELD_FLAG_BITS :: guint32 where "INVALID_FIELD_FLAG_BITS \<equiv> 0x4808"

definition verify_field_table :: "VerifyContext \<Rightarrow> unit option res" where
  "verify_field_table ctx =
    bindr (module_list ctx MONO_TYPEDEF_FIELD_LIST) (\<lambda>module_field_list.
    for_each_row ctx MONO_TABLE_FIELD MONO_FIELD_SIZE (\<lambda>i data.
      let flags = data ! MONO_FIELD_FLAGS; has = (\<lambda>a. flags AND a \<noteq> 0); access = flags AND FIELD_ATTRIBUTE_FIELD_ACCESS_MASK in
      [refuse_when (has INVALID_FIELD_FLAG_BITS),
       refuse_when (flags AND FIELD_ATTRIBUTE_FIELD_ACCESS_MASK = 0x7),
       refuse_when (flags AND (FIELD_ATTRIBUTE_LITERAL OR FIELD_ATTRIBUTE_INIT_ONLY) = FIELD_ATTRIBUTE_LITERAL OR FIELD_ATTRIBUTE_INIT_ONLY),
       refuse_when (has FIELD_ATTRIBUTE_RT_SPECIAL_NAME \<and> \<not> has FIELD_ATTRIBUTE_SPECIAL_NAME),
       refuse_when (has FIELD_ATTRIBUTE_LITERAL \<and> \<not> has FIELD_ATTRIBUTE_STATIC),
       must (given (has FIELD_ATTRIBUTE_HAS_FIELD_MARSHAL)
         (found ctx MONO_TABLE_FIELDMARSHAL MONO_FIELD_MARSHAL_PARENT (make_coded_token HAS_FIELD_MARSHAL_DESC MONO_TABLE_FIELD (of_nat i)))),
       must (given (has FIELD_ATTRIBUTE_HAS_DEFAULT)
         (found ctx MONO_TABLE_CONSTANT MONO_CONSTANT_PARENT (make_coded_token HAS_CONSTANT_DESC MONO_TABLE_FIELD (of_nat i)))),
       must (given (has FIELD_ATTRIBUTE_LITERAL)
         (found ctx MONO_TABLE_CONSTANT MONO_CONSTANT_PARENT (make_coded_token HAS_CONSTANT_DESC MONO_TABLE_FIELD (of_nat i)))),
       must (given (has FIELD_ATTRIBUTE_HAS_FIELD_RVA)
         (found ctx MONO_TABLE_FIELDRVA MONO_FIELD_RVA_FIELD (Inr (of_nat (i + 1))))),
       must (unless (data ! MONO_FIELD_NAME = 0) (is_valid_non_empty_string ctx (data ! MONO_FIELD_NAME))),
       must (given (data ! MONO_FIELD_SIGNATURE \<noteq> 0) (is_valid_blob_object ctx (data ! MONO_FIELD_SIGNATURE) 1)),
       refuse_when (of_nat (i + 1) < module_field_list \<and>
         (\<not> has FIELD_ATTRIBUTE_STATIC \<or>
          access \<noteq> FIELD_ATTRIBUTE_COMPILER_CONTROLLED \<and> access \<noteq> FIELD_ATTRIBUTE_PRIVATE \<and> access \<noteq> FIELD_ATTRIBUTE_PUBLIC))]))"

definition verify_field_table_full :: "nat \<Rightarrow> VerifyContext \<Rightarrow> unit option res" where
  "verify_field_table_full depth ctx =
    for_each_row ctx MONO_TABLE_FIELD MONO_FIELD_SIZE (\<lambda>i data.
      [must (unless (data ! MONO_FIELD_SIGNATURE = 0) (is_valid_field_signature depth ctx (data ! MONO_FIELD_SIGNATURE)))])"

abbreviation (input) INVALID_METHOD_IMPLFLAG_BITS :: guint32 where "INVALID_METHOD_IMPLFLAG_BITS \<equiv> 0xEF00"

definition verify_method_row :: "VerifyContext \<Rightarrow> guint32 \<Rightarrow> nat \<Rightarrow> guint32 list \<Rightarrow> guint32 \<Rightarrow> guint32 option res" where
  "verify_method_row ctx module_method_list i data paramlist =
    (let r = data ! MONO_METHOD_RVA; implflags = data ! MONO_METHOD_IMPLFLAGS; flags = data ! MONO_METHOD_FLAGS;
         has = (\<lambda>a. flags AND a \<noteq> 0); access = flags AND METHOD_ATTRIBUTE_MEMBER_ACCESS_MASK;
         code_type = implflags AND METHOD_IMPL_ATTRIBUTE_CODE_TYPE_MASK; params = data ! MONO_METHOD_PARAMLIST in
     bindc (checks
       [refuse_when (implflags AND INVALID_METHOD_IMPLFLAG_BITS \<noteq> 0),
        refuse_when (access = 0x7),
        must (unless (data ! MONO_METHOD_NAME = 0) (is_valid_non_empty_string ctx (data ! MONO_METHOD_NAME)))]) (\<lambda>_.
     bindr (get_string_ptr ctx (data ! MONO_METHOD_NAME)) (\<lambda>name.
     bindr (strncmp_is (ctx_data ctx) name (S_ctor @ [0])) (\<lambda>is_ctor.
     bindr (strncmp_is (ctx_data ctx) name (S_cctor @ [0])) (\<lambda>is_cctor.
     bindc (checks
       [must (given (is_ctor \<or> is_cctor)
          (bindr (found ctx MONO_TABLE_GENERICPARAM MONO_GENERICPARAM_OWNER (make_coded_token TYPE_OR_METHODDEF_DESC MONO_TABLE_METHOD (of_nat i)))
            (\<lambda>b. Inr (\<not> b)))),
        refuse_when (has METHOD_ATTRIBUTE_STATIC \<and> has (METHOD_ATTRIBUTE_FINAL OR METHOD_ATTRIBUTE_VIRTUAL OR METHOD_ATTRIBUTE_NEW_SLOT)),
        refuse_when (has METHOD_ATTRIBUTE_ABSTRACT \<and>
          (has METHOD_ATTRIBUTE_PINVOKE_IMPL \<or> has METHOD_ATTRIBUTE_FINAL \<or> \<not> has METHOD_ATTRIBUTE_VIRTUAL)),
        refuse_when (has METHOD_ATTRIBUTE_RT_SPECIAL_NAME \<and> \<not> has METHOD_ATTRIBUTE_SPECIAL_NAME),
        refuse_when (of_nat (i + 1) < module_method_list \<and>
          (\<not> has METHOD_ATTRIBUTE_STATIC \<or> has (METHOD_ATTRIBUTE_ABSTRACT OR METHOD_ATTRIBUTE_VIRTUAL) \<or>
           \<not> (access = METHOD_ATTRIBUTE_COMPILER_CONTROLLED \<or> access = METHOD_ATTRIBUTE_PUBLIC \<or> access = METHOD_ATTRIBUTE_PRIVATE))),
        refuse_when (has (METHOD_ATTRIBUTE_FINAL OR METHOD_ATTRIBUTE_NEW_SLOT OR METHOD_ATTRIBUTE_STRICT) \<and> \<not> has METHOD_ATTRIBUTE_VIRTUAL),
        refuse_when (has METHOD_ATTRIBUTE_PINVOKE_IMPL \<and> (has METHOD_ATTRIBUTE_VIRTUAL \<or> \<not> has METHOD_ATTRIBUTE_STATIC)),
        refuse_when (\<not> has METHOD_ATTRIBUTE_ABSTRACT \<and> r = 0 \<and> \<not> has METHOD_ATTRIBUTE_PINVOKE_IMPL \<and>
          implflags AND METHOD_IMPL_ATTRIBUTE_INTERNAL_CALL = 0 \<and> code_type \<noteq> METHOD_IMPL_ATTRIBUTE_RUNTIME),
        refuse_when (access = METHOD_ATTRIBUTE_COMPILER_CONTROLLED \<and> \<not> (r \<noteq> 0 \<or> has METHOD_ATTRIBUTE_PINVOKE_IMPL)),
        refuse_when (if r \<noteq> 0 then has METHOD_ATTRIBUTE_ABSTRACT \<or> code_type = METHOD_IMPL_ATTRIBUTE_OPTIL
          else \<not> has (METHOD_ATTRIBUTE_ABSTRACT OR METHOD_ATTRIBUTE_PINVOKE_IMPL) \<and>
            implflags AND METHOD_IMPL_ATTRIBUTE_INTERNAL_CALL = 0 \<and> code_type \<noteq> METHOD_IMPL_ATTRIBUTE_RUNTIME),
        refuse_when (has METHOD_ATTRIBUTE_PINVOKE_IMPL \<and> r \<noteq> 0),
        must (given (has METHOD_ATTRIBUTE_PINVOKE_IMPL)
          (found ctx MONO_TABLE_IMPLMAP MONO_IMPLMAP_MEMBER (make_coded_token MEMBER_FORWARDED_DESC MONO_TABLE_METHOD (of_nat i)))),
        refuse_when (has METHOD_ATTRIBUTE_RT_SPECIAL_NAME \<and> \<not> is_ctor \<and> \<not> is_cctor),
        refuse_when ((is_ctor \<or> is_cctor) \<and> \<not> has METHOD_ATTRIBUTE_RT_SPECIAL_NAME),
        must (given (data ! MONO_METHOD_SIGNATURE \<noteq> 0) (is_valid_blob_object ctx (data ! MONO_METHOD_SIGNATURE) 1)),
        refuse_when (params = 0),
        refuse_when (params < paramlist),
        refuse_when (unat params > table_rows (ctx_image ctx) MONO_TABLE_PARAM + 1)])
       (\<lambda>_. Inr (Some params)))))))"

definition verify_method_table :: "VerifyContext \<Rightarrow> unit option res" where
  "verify_method_table ctx =
    bindr (module_list ctx MONO_TYPEDEF_METHOD_LIST) (\<lambda>module_method_list.
    bindc (for_rows ctx MONO_TABLE_METHOD MONO_METHOD_SIZE (verify_method_row ctx module_method_list) 1) (\<lambda>_. Inr (Some ())))"

definition verify_method_table_full :: "nat \<Rightarrow> VerifyContext \<Rightarrow> unit option res" where
  "verify_method_table_full depth ctx =
    for_each_row ctx MONO_TABLE_METHOD MONO_METHOD_SIZE (\<lambda>i data.
      [must (unless (data ! MONO_METHOD_SIGNATURE = 0) (is_valid_method_signature depth ctx (data ! MONO_METHOD_SIGNATURE))),
       must (given (data ! MONO_METHOD_RVA \<noteq> 0) (is_valid_method_header ctx (data ! MONO_METHOD_RVA)))])"

function next_param_loop :: "VerifyContext \<Rightarrow> guint32 \<Rightarrow> nat \<Rightarrow> (guint32 \<times> nat) res" where
  "next_param_loop ctx paramlist row =
    (let table = tables (ctx_image ctx) ! MONO_TABLE_METHOD in
     if row < rows table
     then bindr (mono_metadata_decode_row_col (ctx_data ctx) table (int row) MONO_METHOD_PARAMLIST) (\<lambda>tmp.
       if tmp > paramlist then Inr (tmp - paramlist, row) else next_param_loop ctx paramlist (row + 1))
     else Inr (- 1, rows table))"
  by pat_completeness auto

termination by (relation "measure (\<lambda>(ctx, paramlist, row). rows (tables (ctx_image ctx) ! MONO_TABLE_METHOD) - row)") auto

declare next_param_loop.simps [simp del]

text \<open>The number of parameters, and the new current method.\<close>

definition get_next_param_count :: "VerifyContext \<Rightarrow> nat \<Rightarrow> (guint32 \<times> nat) res" where
  "get_next_param_count ctx current_method =
    bindr (mono_metadata_decode_row_col (ctx_data ctx) (tables (ctx_image ctx) ! MONO_TABLE_METHOD) (int current_method) MONO_METHOD_PARAMLIST)
      (\<lambda>paramlist. next_param_loop ctx paramlist (current_method + 1))"

record param_state =
  param_sequence :: guint32
  remaining_params :: guint32
  current_method :: nat
  first_param :: bool

abbreviation (input) INVALID_PARAM_FLAGS_BITS :: guint32 where "INVALID_PARAM_FLAGS_BITS \<equiv> 0xCFEC"

definition verify_param_row :: "VerifyContext \<Rightarrow> nat \<Rightarrow> guint32 list \<Rightarrow> param_state \<Rightarrow> param_state option res" where
  "verify_param_row ctx i data s =
    (let flags = data ! MONO_PARAM_FLAGS; has = (\<lambda>a. flags AND a \<noteq> 0) in
     bindc (checks
       [refuse_when (has INVALID_PARAM_FLAGS_BITS),
        must (bindr (found ctx MONO_TABLE_CONSTANT MONO_CONSTANT_PARENT (make_coded_token HAS_CONSTANT_DESC MONO_TABLE_PARAM (of_nat i)))
          (\<lambda>b. Inr (b = has PARAM_ATTRIBUTE_HAS_DEFAULT))),
        must (given (has PARAM_ATTRIBUTE_HAS_FIELD_MARSHAL)
          (found ctx MONO_TABLE_FIELDMARSHAL MONO_FIELD_MARSHAL_PARENT (make_coded_token HAS_FIELD_MARSHAL_DESC MONO_TABLE_PARAM (of_nat i)))),
        must (is_valid_string ctx (data ! MONO_PARAM_NAME)),
        refuse_when (\<not> first_param s \<and> data ! MONO_PARAM_SEQUENCE \<le> param_sequence s)])
       (\<lambda>_. if remaining_params s - 1 = 0
         then bindr (get_next_param_count ctx (current_method s)) (\<lambda>(n, method).
           Inr (Some \<lparr>param_sequence = data ! MONO_PARAM_SEQUENCE, remaining_params = n, current_method = method, first_param = True\<rparr>))
         else Inr (Some (s\<lparr>param_sequence := data ! MONO_PARAM_SEQUENCE, remaining_params := remaining_params s - 1, first_param := False\<rparr>))))"

definition verify_param_table :: "VerifyContext \<Rightarrow> unit option res" where
  "verify_param_table ctx =
    (if table_rows (ctx_image ctx) MONO_TABLE_METHOD = 0
     then refuse_when (table_rows (ctx_image ctx) MONO_TABLE_PARAM > 0)
     else bindr (get_next_param_count ctx 0) (\<lambda>(n, method).
       bindc (for_rows ctx MONO_TABLE_PARAM MONO_PARAM_SIZE (verify_param_row ctx)
         \<lparr>param_sequence = 0, remaining_params = n, current_method = method, first_param = True\<rparr>) (\<lambda>_. Inr (Some ()))))"

end
