(* ===== verification/Ver_Tables.thy ===== *)
theory Ver_Tables
  imports Ver_Bodies
begin

text \<open>
  The checks of the other tables in \<open>mono/metadata/metadata-verify.c\<close>, the constraints over whole tables,
  the entry points of the verifier, and \<open>do_mono_image_load\<close> of \<open>image.c\<close>, which interleaves them with
  the loader.
\<close>

section \<open>References, constants and attributes\<close>

definition verify_interfaceimpl_table :: "VerifyContext \<Rightarrow> unit option res" where
  "verify_interfaceimpl_table ctx =
    for_each_row ctx MONO_TABLE_INTERFACEIMPL MONO_INTERFACEIMPL_SIZE (\<lambda>i data.
      [refuse_when (data ! MONO_INTERFACEIMPL_CLASS \<noteq> 0 \<and> unat (data ! MONO_INTERFACEIMPL_CLASS) > table_rows (ctx_image ctx) MONO_TABLE_TYPEDEF),
       refuse_when (\<not> is_valid_coded_index ctx TYPEDEF_OR_REF_DESC (data ! MONO_INTERFACEIMPL_INTERFACE)),
       refuse_when (get_coded_index_token TYPEDEF_OR_REF_DESC (data ! MONO_INTERFACEIMPL_INTERFACE) = 0)])"

definition verify_memberref_table :: "VerifyContext \<Rightarrow> unit option res" where
  "verify_memberref_table ctx =
    for_each_row ctx MONO_TABLE_MEMBERREF MONO_MEMBERREF_SIZE (\<lambda>i data.
      [refuse_when (\<not> is_valid_coded_index ctx MEMBERREF_PARENT_DESC (data ! MONO_MEMBERREF_CLASS)),
       refuse_when (get_coded_index_token MEMBERREF_PARENT_DESC (data ! MONO_MEMBERREF_CLASS) = 0),
       must (is_valid_non_empty_string ctx (data ! MONO_MEMBERREF_NAME)),
       must (given (data ! MONO_MEMBERREF_SIGNATURE \<noteq> 0) (is_valid_blob_object ctx (data ! MONO_MEMBERREF_SIGNATURE) 1))])"

definition verify_memberref_table_full :: "nat \<Rightarrow> VerifyContext \<Rightarrow> unit option res" where
  "verify_memberref_table_full depth ctx =
    for_each_row ctx MONO_TABLE_MEMBERREF MONO_MEMBERREF_SIZE (\<lambda>i data.
      [must (is_valid_method_or_field_signature depth ctx (data ! MONO_MEMBERREF_SIGNATURE))])"

definition verify_constant_table :: "VerifyContext \<Rightarrow> unit option res" where
  "verify_constant_table ctx =
    for_each_row ctx MONO_TABLE_CONSTANT MONO_CONSTANT_SIZE (\<lambda>i data.
      let ty = data ! MONO_CONSTANT_TYPE in
      [refuse_when (\<not> ((ty \<ge> MONO_TYPE_BOOLEAN \<and> ty \<le> MONO_TYPE_STRING) \<or> ty = MONO_TYPE_CLASS)),
       refuse_when (\<not> is_valid_coded_index ctx HAS_CONSTANT_DESC (data ! MONO_CONSTANT_PARENT)),
       refuse_when (get_coded_index_token HAS_CONSTANT_DESC (data ! MONO_CONSTANT_PARENT) = 0),
       must (is_valid_constant ctx ty (data ! MONO_CONSTANT_VALUE))])"

definition verify_cattr_table :: "VerifyContext \<Rightarrow> unit option res" where
  "verify_cattr_table ctx =
    for_each_row ctx MONO_TABLE_CUSTOMATTRIBUTE MONO_CUSTOM_ATTR_SIZE (\<lambda>i data.
      [refuse_when (\<not> is_valid_coded_index ctx HAS_CATTR_DESC (data ! MONO_CUSTOM_ATTR_PARENT)),
       refuse_when (\<not> is_valid_coded_index ctx CATTR_TYPE_DESC (data ! MONO_CUSTOM_ATTR_TYPE)),
       must (given (data ! MONO_CUSTOM_ATTR_VALUE \<noteq> 0) (is_valid_blob_object ctx (data ! MONO_CUSTOM_ATTR_VALUE) 0))])"

definition verify_cattr_table_full :: "VerifyContext \<Rightarrow> unit option res" where
  "verify_cattr_table_full ctx =
    for_each_row ctx MONO_TABLE_CUSTOMATTRIBUTE MONO_CUSTOM_ATTR_SIZE (\<lambda>i data.
      [must (is_vald_cattr_blob ctx (data ! MONO_CUSTOM_ATTR_VALUE))])"

definition verify_field_marshal_table :: "VerifyContext \<Rightarrow> unit option res" where
  "verify_field_marshal_table ctx =
    for_each_row ctx MONO_TABLE_FIELDMARSHAL MONO_FIELD_MARSHAL_SIZE (\<lambda>i data.
      [refuse_when (\<not> is_valid_coded_index ctx HAS_FIELD_MARSHAL_DESC (data ! MONO_FIELD_MARSHAL_PARENT)),
       refuse_when (get_coded_index_token HAS_FIELD_MARSHAL_DESC (data ! MONO_FIELD_MARSHAL_PARENT) = 0),
       refuse_when (data ! MONO_FIELD_MARSHAL_NATIVE_TYPE = 0),
       must (is_valid_blob_object ctx (data ! MONO_FIELD_MARSHAL_NATIVE_TYPE) 1)])"

definition verify_field_marshal_table_full :: "VerifyContext \<Rightarrow> unit option res" where
  "verify_field_marshal_table_full ctx =
    for_each_row ctx MONO_TABLE_FIELDMARSHAL MONO_FIELD_MARSHAL_SIZE (\<lambda>i data.
      [refuse_when (\<not> is_valid_marshal_spec ctx (data ! MONO_FIELD_MARSHAL_NATIVE_TYPE))])"

definition verify_decl_security_table :: "VerifyContext \<Rightarrow> unit option res" where
  "verify_decl_security_table ctx =
    for_each_row ctx MONO_TABLE_DECLSECURITY MONO_DECL_SECURITY_SIZE (\<lambda>i data.
      [refuse_when (\<not> is_valid_coded_index ctx HAS_DECL_SECURITY_DESC (data ! MONO_DECL_SECURITY_PARENT)),
       refuse_when (get_coded_index_token HAS_DECL_SECURITY_DESC (data ! MONO_DECL_SECURITY_PARENT) = 0),
       refuse_when (data ! MONO_DECL_SECURITY_PERMISSIONSET = 0)])"

definition verify_decl_security_table_full :: "VerifyContext \<Rightarrow> unit option res" where
  "verify_decl_security_table_full ctx =
    for_each_row ctx MONO_TABLE_DECLSECURITY MONO_DECL_SECURITY_SIZE (\<lambda>i data.
      [refuse_when (\<not> is_valid_permission_set ctx (data ! MONO_DECL_SECURITY_PERMISSIONSET))])"

section \<open>Layouts and signatures\<close>

definition verify_class_layout_table :: "VerifyContext \<Rightarrow> unit option res" where
  "verify_class_layout_table ctx =
    for_each_row ctx MONO_TABLE_CLASSLAYOUT MONO_CLASS_LAYOUT_SIZE (\<lambda>i data.
      [refuse_when (data ! MONO_CLASS_LAYOUT_PARENT = 0 \<or> unat (data ! MONO_CLASS_LAYOUT_PARENT) > table_rows (ctx_image ctx) MONO_TABLE_TYPEDEF + 1),
       refuse_when (data ! MONO_CLASS_LAYOUT_PACKING_SIZE \<notin> {0, 1, 2, 4, 8, 16, 32, 64, 128})])"

definition verify_field_layout_table :: "VerifyContext \<Rightarrow> unit option res" where
  "verify_field_layout_table ctx =
    for_each_row ctx MONO_TABLE_FIELDLAYOUT MONO_FIELD_LAYOUT_SIZE (\<lambda>i data.
      [refuse_when (data ! MONO_FIELD_LAYOUT_FIELD = 0 \<or> unat (data ! MONO_FIELD_LAYOUT_FIELD) > table_rows (ctx_image ctx) MONO_TABLE_FIELD + 1)])"

definition verify_standalonesig_table :: "VerifyContext \<Rightarrow> unit option res" where
  "verify_standalonesig_table ctx =
    for_each_row ctx MONO_TABLE_STANDALONESIG MONO_STAND_ALONE_SIGNATURE_SIZE (\<lambda>i data.
      [must (given (data ! MONO_STAND_ALONE_SIGNATURE \<noteq> 0) (is_valid_blob_object ctx (data ! MONO_STAND_ALONE_SIGNATURE) 1))])"

definition verify_standalonesig_table_full :: "nat \<Rightarrow> VerifyContext \<Rightarrow> unit option res" where
  "verify_standalonesig_table_full depth ctx =
    for_each_row ctx MONO_TABLE_STANDALONESIG MONO_STAND_ALONE_SIGNATURE_SIZE (\<lambda>i data.
      [must (is_valid_standalonesig_blob depth ctx (data ! MONO_STAND_ALONE_SIGNATURE))])"

section \<open>Events and properties\<close>

text \<open>The state of the loop is the list of the row before.\<close>

definition verify_eventmap_table :: "VerifyContext \<Rightarrow> unit option res" where
  "verify_eventmap_table ctx =
    bindc (for_rows ctx MONO_TABLE_EVENTMAP MONO_EVENT_MAP_SIZE (\<lambda>i data eventlist.
      bindc (checks
        [refuse_when (data ! MONO_EVENT_MAP_PARENT = 0 \<or> unat (data ! MONO_EVENT_MAP_PARENT) > table_rows (ctx_image ctx) MONO_TABLE_TYPEDEF + 1),
         refuse_when (data ! MONO_EVENT_MAP_EVENTLIST = 0 \<or> data ! MONO_EVENT_MAP_EVENTLIST \<le> eventlist)])
        (\<lambda>_. Inr (Some (data ! MONO_EVENT_MAP_EVENTLIST)))) 0) (\<lambda>_. Inr (Some ()))"

definition verify_event_table :: "VerifyContext \<Rightarrow> unit option res" where
  "verify_event_table ctx =
    for_each_row ctx MONO_TABLE_EVENT MONO_EVENT_SIZE (\<lambda>i data.
      [refuse_when (data ! MONO_EVENT_FLAGS AND NOT 0x600 \<noteq> 0),
       must (is_valid_non_empty_string ctx (data ! MONO_EVENT_NAME)),
       refuse_when (\<not> is_valid_coded_index ctx TYPEDEF_OR_REF_DESC (data ! MONO_EVENT_TYPE))])"

text \<open>The loop over the semantics rows of an event, from \<open>row\<close> on: whether it has an add and a remove method.\<close>

function event_methods_loop :: "VerifyContext \<Rightarrow> guint32 \<Rightarrow> nat \<Rightarrow> bool \<Rightarrow> bool \<Rightarrow> (bool \<times> bool) res" where
  "event_methods_loop ctx token row found_add found_remove =
    (let table = tables (ctx_image ctx) ! MONO_TABLE_METHODSEMANTICS in
     if row < rows table
     then bindr (mono_metadata_decode_row (ctx_data ctx) table (int row) MONO_METHOD_SEMA_SIZE) (\<lambda>data.
       if data ! MONO_METHOD_SEMA_ASSOCIATION \<noteq> token then Inr (found_add, found_remove)
       else
         let found_add = (found_add \<or> data ! MONO_METHOD_SEMA_SEMANTICS AND METHOD_SEMANTIC_ADD_ON \<noteq> 0);
             found_remove = (found_remove \<or> data ! MONO_METHOD_SEMA_SEMANTICS AND METHOD_SEMANTIC_REMOVE_ON \<noteq> 0) in
         if found_add \<and> found_remove then Inr (True, True) else event_methods_loop ctx token (row + 1) found_add found_remove)
     else Inr (found_add, found_remove))"
  by pat_completeness auto

termination
  by (relation "measure (\<lambda>(ctx, token, row, a, r). rows (tables (ctx_image ctx) ! MONO_TABLE_METHODSEMANTICS) - row)") auto

declare event_methods_loop.simps [simp del]

definition verify_event_table_full :: "VerifyContext \<Rightarrow> unit option res" where
  "verify_event_table_full ctx =
    (let sema_table = tables (ctx_image ctx) ! MONO_TABLE_METHODSEMANTICS in
     for_each_row ctx MONO_TABLE_EVENT MONO_EVENT_SIZE (\<lambda>i data.
       [bindr (make_coded_token HAS_SEMANTICS_DESC MONO_TABLE_EVENT (of_nat i)) (\<lambda>token.
        bindr (search_sorted_table ctx MONO_TABLE_METHODSEMANTICS MONO_METHOD_SEMA_ASSOCIATION token) (\<lambda>row.
        case row of None \<Rightarrow> Inr None
        | Some row \<Rightarrow>
            bindr (rows_back (ctx_data ctx) sema_table MONO_METHOD_SEMA_ASSOCIATION token row) (\<lambda>row.
            bindr (event_methods_loop ctx token row False False) (\<lambda>(found_add, found_remove).
            refuse_when (\<not> found_add \<or> \<not> found_remove)))))]))"

definition verify_propertymap_table :: "VerifyContext \<Rightarrow> unit option res" where
  "verify_propertymap_table ctx =
    bindc (for_rows ctx MONO_TABLE_PROPERTYMAP MONO_PROPERTY_MAP_SIZE (\<lambda>i data propertylist.
      bindc (checks
        [refuse_when (data ! MONO_PROPERTY_MAP_PARENT = 0 \<or> unat (data ! MONO_PROPERTY_MAP_PARENT) > table_rows (ctx_image ctx) MONO_TABLE_TYPEDEF + 1),
         refuse_when (data ! MONO_PROPERTY_MAP_PROPERTY_LIST = 0 \<or> data ! MONO_PROPERTY_MAP_PROPERTY_LIST \<le> propertylist)])
        (\<lambda>_. Inr (Some (data ! MONO_PROPERTY_MAP_PROPERTY_LIST)))) 0) (\<lambda>_. Inr (Some ()))"

definition verify_property_table :: "nat \<Rightarrow> VerifyContext \<Rightarrow> unit option res" where
  "verify_property_table depth ctx =
    for_each_row ctx MONO_TABLE_PROPERTY MONO_PROPERTY_SIZE (\<lambda>i data.
      [refuse_when (data ! MONO_PROPERTY_FLAGS AND NOT 0x1600 \<noteq> 0),
       must (is_valid_non_empty_string ctx (data ! MONO_PROPERTY_NAME)),
       must (is_valid_property_sig_blob depth ctx (data ! MONO_PROPERTY_TYPE)),
       must (given (data ! MONO_PROPERTY_FLAGS AND PROPERTY_ATTRIBUTE_HAS_DEFAULT \<noteq> 0)
         (found ctx MONO_TABLE_CONSTANT MONO_CONSTANT_PARENT (make_coded_token HAS_CONSTANT_DESC MONO_TABLE_PROPERTY (of_nat i))))])"

section \<open>Implementations, specifications and imports\<close>

definition verify_methodimpl_table :: "VerifyContext \<Rightarrow> unit option res" where
  "verify_methodimpl_table ctx =
    for_each_row ctx MONO_TABLE_METHODIMPL MONO_METHODIMPL_SIZE (\<lambda>i data.
      [refuse_when (data ! MONO_METHODIMPL_CLASS = 0 \<or> unat (data ! MONO_METHODIMPL_CLASS) > table_rows (ctx_image ctx) MONO_TABLE_TYPEDEF + 1),
       refuse_when (get_coded_index_token METHODDEF_OR_REF_DESC (data ! MONO_METHODIMPL_BODY) = 0),
       refuse_when (\<not> is_valid_coded_index ctx METHODDEF_OR_REF_DESC (data ! MONO_METHODIMPL_BODY)),
       refuse_when (get_coded_index_token METHODDEF_OR_REF_DESC (data ! MONO_METHODIMPL_DECLARATION) = 0),
       refuse_when (\<not> is_valid_coded_index ctx METHODDEF_OR_REF_DESC (data ! MONO_METHODIMPL_DECLARATION))])"

definition verify_moduleref_table :: "VerifyContext \<Rightarrow> unit option res" where
  "verify_moduleref_table ctx =
    for_each_row ctx MONO_TABLE_MODULEREF MONO_MODULEREF_SIZE (\<lambda>i data.
      [must (is_valid_non_empty_string ctx (data ! MONO_MODULEREF_NAME))])"

definition verify_typespec_table :: "VerifyContext \<Rightarrow> unit option res" where
  "verify_typespec_table ctx =
    for_each_row ctx MONO_TABLE_TYPESPEC MONO_TYPESPEC_SIZE (\<lambda>i data.
      [must (given (data ! MONO_TYPESPEC_SIGNATURE \<noteq> 0) (is_valid_blob_object ctx (data ! MONO_TYPESPEC_SIGNATURE) 1))])"

definition verify_typespec_table_full :: "nat \<Rightarrow> VerifyContext \<Rightarrow> unit option res" where
  "verify_typespec_table_full depth ctx =
    for_each_row ctx MONO_TABLE_TYPESPEC MONO_TYPESPEC_SIZE (\<lambda>i data.
      [must (is_valid_typespec_blob depth (ctx\<lparr>ctx_token := of_nat (i + 1) OR MONO_TOKEN_TYPE_SPEC\<rparr>) (data ! MONO_TYPESPEC_SIGNATURE))])"

definition verify_implmap_table :: "VerifyContext \<Rightarrow> unit option res" where
  "verify_implmap_table ctx =
    for_each_row ctx MONO_TABLE_IMPLMAP MONO_IMPLMAP_SIZE (\<lambda>i data.
      let cconv = data ! MONO_IMPLMAP_FLAGS AND PINVOKE_ATTRIBUTE_CALL_CONV_MASK in
      [refuse_when (data ! MONO_IMPLMAP_FLAGS AND NOT 0x747 \<noteq> 0),
       refuse_when (cconv = 0 \<or> cconv = 0x0600 \<or> cconv = 0x0700),
       refuse_when (\<not> is_valid_coded_index ctx MEMBER_FORWARDED_DESC (data ! MONO_IMPLMAP_MEMBER)),
       must (bindr (get_coded_index_table MEMBER_FORWARDED_DESC (data ! MONO_IMPLMAP_MEMBER)) (\<lambda>t. Inr (t = MONO_TABLE_METHOD))),
       refuse_when (get_coded_index_token MEMBER_FORWARDED_DESC (data ! MONO_IMPLMAP_MEMBER) = 0),
       must (is_valid_non_empty_string ctx (data ! MONO_IMPLMAP_NAME)),
       refuse_when (data ! MONO_IMPLMAP_SCOPE = 0 \<or> unat (data ! MONO_IMPLMAP_SCOPE) > table_rows (ctx_image ctx) MONO_TABLE_MODULEREF + 1)])"

definition verify_fieldrva_table :: "VerifyContext \<Rightarrow> unit option res" where
  "verify_fieldrva_table ctx =
    for_each_row ctx MONO_TABLE_FIELDRVA MONO_FIELD_RVA_SIZE (\<lambda>i data.
      [refuse_when (data ! MONO_FIELD_RVA_RVA = 0 \<or>
         mono_cli_rva_image_map (cli_section_tables (ctx_info ctx)) (data ! MONO_FIELD_RVA_RVA) = INVALID_ADDRESS),
       refuse_when (data ! MONO_FIELD_RVA_FIELD = 0 \<or> unat (data ! MONO_FIELD_RVA_FIELD) > table_rows (ctx_image ctx) MONO_TABLE_FIELD + 1)])"

section \<open>Assemblies, files and resources\<close>

definition verify_assembly_table :: "VerifyContext \<Rightarrow> unit option res" where
  "verify_assembly_table ctx =
    refuse_if (table_rows (ctx_image ctx) MONO_TABLE_ASSEMBLY > 1)
      (for_each_row ctx MONO_TABLE_ASSEMBLY MONO_ASSEMBLY_SIZE (\<lambda>i data.
        let hash = data ! MONO_ASSEMBLY_HASH_ALG in
        [refuse_when (\<not> (hash = 0 \<or> hash = 0x8003 \<or> hash = 0x8004)),
         refuse_when (data ! MONO_ASSEMBLY_FLAGS AND NOT 0xC111 \<noteq> 0),
         must (given (data ! MONO_ASSEMBLY_PUBLIC_KEY \<noteq> 0) (is_valid_blob_object ctx (data ! MONO_ASSEMBLY_PUBLIC_KEY) 1)),
         must (is_valid_non_empty_string ctx (data ! MONO_ASSEMBLY_NAME)),
         must (given (data ! MONO_ASSEMBLY_CULTURE \<noteq> 0) (is_valid_string ctx (data ! MONO_ASSEMBLY_CULTURE)))]))"

definition verify_assemblyref_table :: "VerifyContext \<Rightarrow> unit option res" where
  "verify_assemblyref_table ctx =
    for_each_row ctx MONO_TABLE_ASSEMBLYREF MONO_ASSEMBLYREF_SIZE (\<lambda>i data.
      [refuse_when (data ! MONO_ASSEMBLYREF_FLAGS AND NOT 1 \<noteq> 0),
       must (given (data ! MONO_ASSEMBLYREF_PUBLIC_KEY \<noteq> 0) (is_valid_blob_object ctx (data ! MONO_ASSEMBLYREF_PUBLIC_KEY) 1)),
       must (is_valid_non_empty_string ctx (data ! MONO_ASSEMBLYREF_NAME)),
       must (given (data ! MONO_ASSEMBLYREF_CULTURE \<noteq> 0) (is_valid_string ctx (data ! MONO_ASSEMBLYREF_CULTURE))),
       must (given (data ! MONO_ASSEMBLYREF_HASH_VALUE \<noteq> 0) (is_valid_blob_object ctx (data ! MONO_ASSEMBLYREF_HASH_VALUE) 1))])"

definition verify_file_table :: "VerifyContext \<Rightarrow> unit option res" where
  "verify_file_table ctx =
    for_each_row ctx MONO_TABLE_FILE MONO_FILE_SIZE (\<lambda>i data.
      [refuse_when (data ! MONO_FILE_FLAGS AND NOT 1 \<noteq> 0),
       must (is_valid_non_empty_string ctx (data ! MONO_FILE_NAME)),
       must (unless (data ! MONO_FILE_HASH_VALUE = 0) (is_valid_blob_object ctx (data ! MONO_FILE_HASH_VALUE) 1))])"

definition verify_exportedtype_table :: "VerifyContext \<Rightarrow> unit option res" where
  "verify_exportedtype_table ctx =
    for_each_row ctx MONO_TABLE_EXPORTEDTYPE MONO_EXP_TYPE_SIZE (\<lambda>i data.
      [refuse_when (data ! MONO_EXP_TYPE_FLAGS AND (INVALID_TYPEDEF_FLAG_BITS AND NOT TYPE_ATTRIBUTE_FORWARDER) \<noteq> 0),
       must (is_valid_non_empty_string ctx (data ! MONO_EXP_TYPE_NAME)),
       must (given (data ! MONO_EXP_TYPE_NAMESPACE \<noteq> 0) (is_valid_string ctx (data ! MONO_EXP_TYPE_NAMESPACE))),
       refuse_when (\<not> is_valid_coded_index ctx IMPLEMENTATION_DESC (data ! MONO_EXP_TYPE_IMPLEMENTATION)),
       refuse_when (get_coded_index_token IMPLEMENTATION_DESC (data ! MONO_EXP_TYPE_IMPLEMENTATION) = 0),
       must (bindr (get_coded_index_table IMPLEMENTATION_DESC (data ! MONO_EXP_TYPE_IMPLEMENTATION)) (\<lambda>t.
         Inr (\<not> (t = MONO_TABLE_EXPORTEDTYPE \<and> data ! MONO_EXP_TYPE_NAMESPACE \<noteq> 0))))])"

definition verify_manifest_resource_table :: "VerifyContext \<Rightarrow> unit option res" where
  "verify_manifest_resource_table ctx =
    (let resources_size = dir_size (ch_resources (cli_cli_header (ctx_info ctx))) in
     for_each_row ctx MONO_TABLE_MANIFESTRESOURCE MONO_MANIFEST_SIZE (\<lambda>i data.
       [refuse_when (data ! MONO_MANIFEST_FLAGS AND NOT 0x7 \<noteq> 0),
        refuse_when (data ! MONO_MANIFEST_FLAGS \<noteq> 1 \<and> data ! MONO_MANIFEST_FLAGS \<noteq> 2),
        must (is_valid_non_empty_string ctx (data ! MONO_MANIFEST_NAME)),
        refuse_when (\<not> is_valid_coded_index ctx IMPLEMENTATION_DESC (data ! MONO_MANIFEST_IMPLEMENTATION)),
        must (bindr (get_coded_index_table IMPLEMENTATION_DESC (data ! MONO_MANIFEST_IMPLEMENTATION)) (\<lambda>impl_table.
          let token = get_coded_index_token IMPLEMENTATION_DESC (data ! MONO_MANIFEST_IMPLEMENTATION) in
          Inr (impl_table \<noteq> MONO_TABLE_EXPORTEDTYPE \<and>
            \<not> (impl_table = MONO_TABLE_FILE \<and> token \<noteq> 0 \<and> data ! MONO_MANIFEST_OFFSET \<noteq> 0) \<and>
            \<not> (token = 0 \<and> data ! MONO_MANIFEST_OFFSET \<ge> resources_size))))]))"

section \<open>Nesting and generics\<close>

definition verify_nested_class_table :: "VerifyContext \<Rightarrow> unit option res" where
  "verify_nested_class_table ctx =
    for_each_row ctx MONO_TABLE_NESTEDCLASS MONO_NESTED_CLASS_SIZE (\<lambda>i data.
      [refuse_when (data ! MONO_NESTED_CLASS_NESTED = 0 \<or> unat (data ! MONO_NESTED_CLASS_NESTED) > table_rows (ctx_image ctx) MONO_TABLE_TYPEDEF),
       refuse_when (data ! MONO_NESTED_CLASS_ENCLOSING = 0 \<or> unat (data ! MONO_NESTED_CLASS_ENCLOSING) > table_rows (ctx_image ctx) MONO_TABLE_TYPEDEF),
       refuse_when (data ! MONO_NESTED_CLASS_ENCLOSING = data ! MONO_NESTED_CLASS_NESTED)])"

text \<open>The state of the loop is the owner of the row before and the number of the next parameter, an \<open>int\<close>.\<close>

definition verify_generic_param_table :: "VerifyContext \<Rightarrow> unit option res" where
  "verify_generic_param_table ctx =
    bindc (for_rows ctx MONO_TABLE_GENERICPARAM MONO_GENERICPARAM_SIZE (\<lambda>i data (last_token, param_number).
      let token = data ! MONO_GENERICPARAM_OWNER; param_number = (if token \<noteq> last_token then 0 else param_number) in
      bindc (checks
        [refuse_when (data ! MONO_GENERICPARAM_FLAGS AND NOT 0x1F \<noteq> 0),
         refuse_when (data ! MONO_GENERICPARAM_FLAGS AND MONO_GEN_PARAM_VARIANCE_MASK = 0x3),
         must (is_valid_non_empty_string ctx (data ! MONO_GENERICPARAM_NAME)),
         refuse_when (\<not> is_valid_coded_index ctx TYPE_OR_METHODDEF_DESC token),
         refuse_when (get_coded_index_token TYPE_OR_METHODDEF_DESC token = 0),
         refuse_when (data ! MONO_GENERICPARAM_NUMBER \<noteq> param_number)])
        (\<lambda>_. Inr (Some (token, param_number + 1)))) (0, 0 :: guint32)) (\<lambda>_. Inr (Some ()))"

definition verify_method_spec_table :: "VerifyContext \<Rightarrow> unit option res" where
  "verify_method_spec_table ctx =
    for_each_row ctx MONO_TABLE_METHODSPEC MONO_METHODSPEC_SIZE (\<lambda>i data.
      [refuse_when (\<not> is_valid_coded_index ctx METHODDEF_OR_REF_DESC (data ! MONO_METHODSPEC_METHOD)),
       refuse_when (get_coded_index_token METHODDEF_OR_REF_DESC (data ! MONO_METHODSPEC_METHOD) = 0),
       must (given (data ! MONO_METHODSPEC_SIGNATURE \<noteq> 0) (is_valid_blob_object ctx (data ! MONO_METHODSPEC_SIGNATURE) 1))])"

definition verify_method_spec_table_full :: "nat \<Rightarrow> VerifyContext \<Rightarrow> unit option res" where
  "verify_method_spec_table_full depth ctx =
    for_each_row ctx MONO_TABLE_METHODSPEC MONO_METHODSPEC_SIZE (\<lambda>i data.
      [must (is_valid_methodspec_blob depth ctx (data ! MONO_METHODSPEC_SIGNATURE))])"

definition verify_generic_param_constraint_table :: "VerifyContext \<Rightarrow> unit option res" where
  "verify_generic_param_constraint_table ctx =
    for_each_row ctx MONO_TABLE_GENERICPARAMCONSTRAINT MONO_GENPARCONSTRAINT_SIZE (\<lambda>i data.
      [refuse_when (data ! MONO_GENPARCONSTRAINT_GENERICPAR = 0 \<or>
         unat (data ! MONO_GENPARCONSTRAINT_GENERICPAR) > table_rows (ctx_image ctx) MONO_TABLE_GENERICPARAM),
       refuse_when (\<not> is_valid_coded_index ctx TYPEDEF_OR_REF_DESC (data ! MONO_GENPARCONSTRAINT_CONSTRAINT)),
       refuse_when (get_coded_index_token TYPEDEF_OR_REF_DESC (data ! MONO_GENPARCONSTRAINT_CONSTRAINT) = 0)])"

section \<open>Constraints over whole tables\<close>

text \<open>
  The string at a position, without its null character, and a string of the heap, where an index
  outside the heap gives the empty string.  The hash table of the types is the list of its keys, which
  are compared by their contents.
\<close>

definition cstring_at :: "guint8 list \<Rightarrow> int \<Rightarrow> guint8 list res" where
  "cstring_at m p = bindr (strlen_at m p) (\<lambda>n. memcpy_from m p n)"

definition heap_string :: "VerifyContext \<Rightarrow> guint32 \<Rightarrow> guint8 list res" where
  "heap_string ctx index =
    bindr (mono_metadata_string_heap (ctx_image ctx) index) (\<lambda>p. case p of None \<Rightarrow> Inr [] | Some p \<Rightarrow> cstring_at (ctx_data ctx) p)"

type_synonym TypeDefUniqueId = "guint8 list \<times> guint8 list \<times> guint32"

definition insert_unique :: "VerifyContext \<Rightarrow> guint32 \<Rightarrow> guint32 \<Rightarrow> guint32 \<Rightarrow> TypeDefUniqueId list \<Rightarrow> TypeDefUniqueId list option res" where
  "insert_unique ctx name name_space resolution_scope unique_types =
    bindr (heap_string ctx name) (\<lambda>name. bindr (heap_string ctx name_space) (\<lambda>name_space.
    let ty = (name, name_space, resolution_scope) in
    refuse_if (ty \<in> set unique_types) (Inr (Some (ty # unique_types)))))"

definition typedef_scope :: "VerifyContext \<Rightarrow> nat \<Rightarrow> guint32 \<Rightarrow> guint32 res" where
  "typedef_scope ctx i flags =
    (if \<not> nested_visibility flags then Inr 0
     else bindr (search_sorted_table ctx MONO_TABLE_NESTEDCLASS MONO_NESTED_CLASS_NESTED (of_nat (i + 1))) (\<lambda>r.
       case r of None \<Rightarrow> Inl Assert_failed
       | Some k \<Rightarrow>
           bindr (mono_metadata_decode_row (ctx_data ctx) (tables (ctx_image ctx) ! MONO_TABLE_NESTEDCLASS) (int k) MONO_NESTED_CLASS_SIZE)
             (\<lambda>nested_data. Inr (nested_data ! MONO_NESTED_CLASS_ENCLOSING))))"

definition verify_typedef_table_global_constraints :: "VerifyContext \<Rightarrow> unit option res" where
  "verify_typedef_table_global_constraints ctx =
    bindc (for_rows ctx MONO_TABLE_TYPEDEF MONO_TYPEDEF_SIZE (\<lambda>i data unique_types.
      bindr (typedef_scope ctx i (data ! MONO_TYPEDEF_FLAGS)) (\<lambda>scope.
      insert_unique ctx (data ! MONO_TYPEDEF_NAME) (data ! MONO_TYPEDEF_NAMESPACE) scope unique_types)) []) (\<lambda>_. Inr (Some ()))"

definition verify_typeref_table_global_constraints :: "VerifyContext \<Rightarrow> unit option res" where
  "verify_typeref_table_global_constraints ctx =
    bindc (for_rows ctx MONO_TABLE_TYPEREF MONO_TYPEREF_SIZE (\<lambda>i data unique_types.
      insert_unique ctx (data ! MONO_TYPEREF_NAME) (data ! MONO_TYPEREF_NAMESPACE) (data ! MONO_TYPEREF_SCOPE) unique_types) [])
      (\<lambda>_. Inr (Some ()))"

section \<open>All tables\<close>

text \<open>The sum of the sizes of the tables, which is 0 when it overflows.\<close>

fun table_space :: "MonoTableInfo list \<Rightarrow> guint32 \<Rightarrow> guint32" where
  "table_space [] sz = sz"
| "table_space (t # ts) sz =
    (let tmp_size = sz + of_nat (row_size t) * of_nat (rows t) in if tmp_size < sz then 0 else table_space ts tmp_size)"

definition verify_tables_data :: "nat \<Rightarrow> VerifyContext \<Rightarrow> unit option res" where
  "verify_tables_data depth ctx =
    (let sz = table_space (take 0x2D (tables (ctx_image ctx))) 0 in
     refuse_if (sz = 0)
       (bindr (stream_offset (heap_tables (ctx_image ctx))) (\<lambda>o'.
        refuse_if (\<not> bounds_check_offset \<lparr>off_offset = o', off_size = stream_size (heap_tables (ctx_image ctx))\<rparr> (of_int (tables_base (ctx_image ctx))) sz)
          (checks
            [verify_module_table ctx, verify_typeref_table ctx, verify_typedef_table ctx, verify_field_table ctx,
             verify_method_table ctx, verify_param_table ctx, verify_interfaceimpl_table ctx, verify_memberref_table ctx,
             verify_constant_table ctx, verify_cattr_table ctx, verify_field_marshal_table ctx, verify_decl_security_table ctx,
             verify_class_layout_table ctx, verify_field_layout_table ctx, verify_standalonesig_table ctx, verify_eventmap_table ctx,
             verify_event_table ctx, verify_propertymap_table ctx, verify_property_table depth ctx, verify_methodimpl_table ctx,
             verify_moduleref_table ctx, verify_typespec_table ctx, verify_implmap_table ctx, verify_fieldrva_table ctx,
             verify_assembly_table ctx, verify_assemblyref_table ctx, verify_file_table ctx, verify_exportedtype_table ctx,
             verify_manifest_resource_table ctx, verify_nested_class_table ctx, verify_generic_param_table ctx,
             verify_method_spec_table ctx, verify_generic_param_constraint_table ctx,
             verify_typedef_table_global_constraints ctx]))))"

section \<open>Entry points\<close>

text \<open>
  A parse of a single signature refuses the image exactly when it returns \<open>FALSE\<close>, because every such
  return is a \<open>FAIL\<close>, which also clears \<open>valid\<close>.
\<close>

definition mono_verifier_verify_table_data :: "bool \<Rightarrow> nat \<Rightarrow> MonoImage \<Rightarrow> MonoCLIImageInfo \<Rightarrow> unit option res" where
  "mono_verifier_verify_table_data enabled_for_image depth im iinfo =
    (if \<not> enabled_for_image then Inr (Some ()) else verify_tables_data depth (init_verify_context im iinfo STAGE_TABLES))"

definition mono_verifier_verify_full_table_data :: "bool \<Rightarrow> bool \<Rightarrow> nat \<Rightarrow> MonoImage \<Rightarrow> MonoCLIImageInfo \<Rightarrow> unit option res" where
  "mono_verifier_verify_full_table_data enabled_for_image corlib depth im iinfo =
    (if \<not> enabled_for_image then Inr (Some ())
     else
       let ctx = init_verify_context im iinfo STAGE_TABLES in
       checks
         [verify_typedef_table_full corlib ctx, verify_field_table_full depth ctx, verify_method_table_full depth ctx,
          verify_memberref_table_full depth ctx, verify_cattr_table_full ctx, verify_field_marshal_table_full ctx,
          verify_decl_security_table_full ctx, verify_standalonesig_table_full depth ctx, verify_event_table_full ctx,
          verify_typespec_table_full depth ctx, verify_method_spec_table_full depth ctx,
          verify_typeref_table_global_constraints ctx])"

definition mono_verifier_verify_field_signature :: "bool \<Rightarrow> nat \<Rightarrow> MonoImage \<Rightarrow> MonoCLIImageInfo \<Rightarrow> guint32 \<Rightarrow> bool res" where
  "mono_verifier_verify_field_signature enabled_for_image depth im iinfo offset =
    (if \<not> enabled_for_image then Inr True else is_valid_field_signature depth (init_verify_context im iinfo STAGE_TABLES) offset)"

definition mono_verifier_verify_method_header :: "bool \<Rightarrow> MonoImage \<Rightarrow> MonoCLIImageInfo \<Rightarrow> guint32 \<Rightarrow> bool res" where
  "mono_verifier_verify_method_header enabled_for_image im iinfo offset =
    (if \<not> enabled_for_image then Inr True else is_valid_method_header (init_verify_context im iinfo STAGE_TABLES) offset)"

definition mono_verifier_verify_method_signature :: "bool \<Rightarrow> nat \<Rightarrow> MonoImage \<Rightarrow> MonoCLIImageInfo \<Rightarrow> guint32 \<Rightarrow> bool res" where
  "mono_verifier_verify_method_signature enabled_for_image depth im iinfo offset =
    (if \<not> enabled_for_image then Inr True else is_valid_method_signature depth (init_verify_context im iinfo STAGE_TABLES) offset)"

definition mono_verifier_verify_memberref_signature :: "bool \<Rightarrow> nat \<Rightarrow> MonoImage \<Rightarrow> MonoCLIImageInfo \<Rightarrow> guint32 \<Rightarrow> bool res" where
  "mono_verifier_verify_memberref_signature enabled_for_image depth im iinfo offset =
    (if \<not> enabled_for_image then Inr True else is_valid_method_or_field_signature depth (init_verify_context im iinfo STAGE_TABLES) offset)"

definition mono_verifier_verify_standalone_signature :: "bool \<Rightarrow> nat \<Rightarrow> MonoImage \<Rightarrow> MonoCLIImageInfo \<Rightarrow> guint32 \<Rightarrow> bool res" where
  "mono_verifier_verify_standalone_signature enabled_for_image depth im iinfo offset =
    (if \<not> enabled_for_image then Inr True else is_valid_standalonesig_blob depth (init_verify_context im iinfo STAGE_TABLES) offset)"

definition mono_verifier_verify_typespec_signature :: "bool \<Rightarrow> nat \<Rightarrow> MonoImage \<Rightarrow> MonoCLIImageInfo \<Rightarrow> guint32 \<Rightarrow> guint32 \<Rightarrow> bool res" where
  "mono_verifier_verify_typespec_signature enabled_for_image depth im iinfo offset token =
    (if \<not> enabled_for_image then Inr True
     else is_valid_typespec_blob depth ((init_verify_context im iinfo STAGE_TABLES)\<lparr>ctx_token := token\<rparr>) offset)"

definition mono_verifier_verify_methodspec_signature :: "bool \<Rightarrow> nat \<Rightarrow> MonoImage \<Rightarrow> MonoCLIImageInfo \<Rightarrow> guint32 \<Rightarrow> bool res" where
  "mono_verifier_verify_methodspec_signature enabled_for_image depth im iinfo offset =
    (if \<not> enabled_for_image then Inr True else is_valid_methodspec_blob depth (init_verify_context im iinfo STAGE_TABLES) offset)"

definition mono_verifier_verify_string_signature :: "bool \<Rightarrow> MonoImage \<Rightarrow> MonoCLIImageInfo \<Rightarrow> guint32 \<Rightarrow> bool res" where
  "mono_verifier_verify_string_signature enabled_for_image im iinfo offset =
    (if \<not> enabled_for_image then Inr True else verify_user_string (init_verify_context im iinfo STAGE_TABLES) offset)"

section \<open>Loading an image\<close>

text \<open>The positions of the assembly name, when there is an assembly row, and of the module name.\<close>

definition mono_image_load_names :: "MonoImage \<Rightarrow> (int option option \<times> int option) res" where
  "mono_image_load_names im =
    (let name = (\<lambda>table col. bindr (mono_metadata_decode_row_col (raw_data im) (tables im ! table) 0 col) (mono_metadata_string_heap im)) in
     bindr (if table_rows im MONO_TABLE_ASSEMBLY = 0 then Inr None
            else bindr (name MONO_TABLE_ASSEMBLY MONO_ASSEMBLY_NAME) (\<lambda>p. Inr (Some p))) (\<lambda>assembly_name.
     bindr (name MONO_TABLE_MODULE MONO_MODULE_NAME) (\<lambda>module_name.
     Inr (assembly_name, module_name))))"

text \<open>
  \<open>im\<close> and \<open>iinfo\<close> are the new image with its file mapped and its empty information.  The profiler
  events, the security classification and the loading of the modules are left out.
\<close>

definition do_mono_image_load ::
  "bool \<Rightarrow> nat \<Rightarrow> bool \<Rightarrow> bool \<Rightarrow> MonoImage \<Rightarrow> MonoCLIImageInfo \<Rightarrow> (MonoImage \<times> MonoCLIImageInfo) option res" where
  "do_mono_image_load enabled_for_image depth care_about_cli care_about_pecoff im iinfo =
    (if \<not> care_about_pecoff then Inr (Some (im, iinfo))
     else
       bindc (mono_verifier_verify_pe_data enabled_for_image im iinfo) (\<lambda>_.
       bindc (mono_image_load_pe_data (raw_data im)) (\<lambda>iinfo.
       if \<not> care_about_cli then Inr (Some (im, iinfo))
       else
         bindc (mono_verifier_verify_cli_data enabled_for_image im iinfo) (\<lambda>_.
         bindc (mono_image_load_cli_data im iinfo) (\<lambda>(im, iinfo).
         bindc (mono_verifier_verify_table_data enabled_for_image depth im iinfo) (\<lambda>_.
         refuse_if (ch_flags (cli_cli_header iinfo) AND 1 = 0)
           (bindr (mono_image_load_names im) (\<lambda>names. Inr (Some (im, iinfo))))))))))"

end
