(* ===== verification/Ver_Header_Spec.thy ===== *)
theory Ver_Header_Spec
  imports Ver_Headers Meta_Tables_Proofs
begin

text \<open>
  The checks of the PE headers stay inside the file for every content, and what an accepted section
  table guarantees; the abort on a file without an import directory.
\<close>

section \<open>Computations without failure\<close>

lemma is_ok_bindr: "is_ok r \<Longrightarrow> (\<And>x. r = Inr x \<Longrightarrow> is_ok (f x)) \<Longrightarrow> is_ok (bindr r f)"
  by (cases r) auto

lemma is_ok_bindc: "is_ok r \<Longrightarrow> (\<And>x. r = Inr (Some x) \<Longrightarrow> is_ok (f x)) \<Longrightarrow> is_ok (bindc r f)"
  by (cases r) (auto simp: bindc_def split: option.splits)

lemma is_ok_refuse_if: "(\<not> b \<Longrightarrow> is_ok r) \<Longrightarrow> is_ok (refuse_if b r)"
  by (simp add: refuse_if_def)

lemma is_ok_guardr: "b \<Longrightarrow> is_ok r \<Longrightarrow> is_ok (guardr b e r)"
  by simp

lemmas ok_intros = is_ok_bindr is_ok_bindc is_ok_refuse_if

lemma ok_reads:
  "0 \<le> p \<Longrightarrow> p + 1 \<le> int (length m) \<Longrightarrow> is_ok (read8 m p)"
  "0 \<le> p \<Longrightarrow> p + 2 \<le> int (length m) \<Longrightarrow> is_ok (read16 m p)"
  "0 \<le> p \<Longrightarrow> p + 4 \<le> int (length m) \<Longrightarrow> is_ok (read32 m p)"
  "0 \<le> p \<Longrightarrow> p + 8 \<le> int (length m) \<Longrightarrow> is_ok (read64 m p)"
  by (simp_all add: read8_def read16_def read32_def read64_def)

lemma ok_strncmp: "0 \<le> p \<Longrightarrow> p + int (length cs) \<le> int (length m) \<Longrightarrow> is_ok (strncmp_is m p cs)"
proof (induction cs arbitrary: p)
  case (Cons c cs)
  then show ?case by (auto intro!: is_ok_bindr ok_reads)
qed simp

section \<open>Sections\<close>

lemma ok_read_section_headers:
  "0 \<le> p \<Longrightarrow> p + 40 * int n \<le> int (length m) \<Longrightarrow> \<exists>ss. read_section_headers m p n = Inr ss \<and> length ss = n"
proof (induction n arbitrary: p)
  case (Suc n)
  then have "0 \<le> p + 40" "p + 40 + 40 * int n \<le> int (length m)" by auto
  from Suc.IH [OF this] obtain ss where "read_section_headers m (p + 40) n = Inr ss" "length ss = n" by blast
  moreover have "is_ok (read32 m (p + k))" if "0 \<le> k" "k \<le> 36" for k using Suc.prems that by (intro ok_reads) auto
  then have "is_ok (read32 m (p + 8))" "is_ok (read32 m (p + 12))" "is_ok (read32 m (p + 20))" "is_ok (read32 m (p + 24))" by auto
  moreover have "is_ok (read16 m (p + 32))" using Suc.prems by (intro ok_reads) auto
  ultimately show ?case by (auto simp: is_ok_iff)
qed simp

definition sections_of :: "VerifyContext \<Rightarrow> SectionHeader list" where
  "sections_of ctx = (case ctx_sections ctx of None \<Rightarrow> [] | Some ss \<Rightarrow> ss)"

lemma set_new_sections: "sections_of (ctx\<lparr>ctx_sections := new_sections ss\<rparr>) = ss"
  by (simp add: sections_of_def new_sections_def)

definition section_inside :: "nat \<Rightarrow> SectionHeader \<Rightarrow> bool" where
  "section_inside n s \<longleftrightarrow> baseOffset s \<noteq> 0 \<and> unat (baseOffset s) + unat (sec_size s) \<le> n"

lemma check_section_headers_ok:
  "0 \<le> p \<Longrightarrow> p + 40 * int (length ss) \<le> int (length m) \<Longrightarrow> is_ok (check_section_headers m sz p ss)"
proof (induction ss arbitrary: p)
  case (Cons s ss)
  then have "0 \<le> p + 40" "p + 40 + 40 * int (length ss) \<le> int (length m)" by auto
  note Cons.IH [OF this]
  moreover have "is_ok (read32 m (p + 16))" "is_ok (read32 m (p + 36))" using Cons.prems by (auto intro!: ok_reads)
  ultimately show ?case by (auto intro!: ok_intros)
qed simp

lemma check_section_headers_inside:
  "check_section_headers m sz p ss = Inr (Some ()) \<Longrightarrow> \<forall>s \<in> set ss. section_inside (unat sz) s"
proof (induction ss arbitrary: p)
  case (Cons s ss)
  then have s: "baseOffset s \<noteq> 0" "baseOffset s < sz" "sec_size s \<le> sz - baseOffset s"
    and rec: "check_section_headers m sz (p + 40) ss = Inr (Some ())" by auto
  from s have "unat (baseOffset s) + unat (sec_size s) \<le> unat sz"
    by (simp add: word_le_nat_alt word_less_nat_alt unat_sub)
  with s Cons.IH [OF rec] show ?case by (simp add: section_inside_def)
qed simp

section \<open>The headers\<close>

text \<open>The steps of \<open>mono_verifier_verify_pe_data\<close> before the import table.\<close>

definition header_checks :: "VerifyContext \<Rightarrow> VerifyContext option res" where
  "header_checks ctx =
    bindc (verify_msdos_header ctx) (\<lambda>_. bindc (verify_pe_header ctx) (\<lambda>_.
    bindc (verify_pe_optional_header ctx) (\<lambda>_. bindc (load_section_table ctx) load_data_directories)))"

lemma bindc_assoc: "bindc (bindc r f) g = bindc r (\<lambda>x. bindc (f x) g)"
  by (cases r) (auto simp: bindc_def split: option.splits)

lemma verify_pe_data_split:
  "mono_verifier_verify_pe_data True im iinfo =
    bindc (header_checks (init_verify_context im iinfo STAGE_PE)) (\<lambda>ctx.
      bindc (verify_import_table ctx) (\<lambda>_. verify_resources_table ctx))"
  by (simp add: mono_verifier_verify_pe_data_def header_checks_def bindc_assoc Let_def)

text \<open>Positions in the header are sums that do not wrap.\<close>

lemma ctx_size_uint: "length (ctx_data ctx) < 2 ^ 32 \<Longrightarrow> uint (ctx_size ctx) = int (length (ctx_data ctx))"
  by (simp add: ctx_size_def raw_data_len_def unsigned_of_nat take_bit_nat_eq_self)

lemma uint_add_small: "uint (a :: guint32) + uint b < 2 ^ 32 \<Longrightarrow> uint (a + b) = uint a + uint b"
  using uint_add_lem [of a b] by simp

lemma uint_sub_small: "uint b \<le> uint (a :: guint32) \<Longrightarrow> uint (a - b) = uint a - uint b"
  using uint_sub_lem [of b a] by simp

lemma le_minus_uint: "uint b \<le> uint a \<Longrightarrow> (c > a - b) = (uint c + uint b > uint a)" for a b c :: guint32
  by (auto simp: word_less_def uint_sub_small)

lemma msdos_ok: "length (ctx_data ctx) < 2 ^ 32 \<Longrightarrow> is_ok (verify_msdos_header ctx)"
  unfolding verify_msdos_header_def pe_signature_offset_def
  by (intro ok_intros ok_reads) (auto simp: word_less_def ctx_size_uint)

lemma msdos_accepts:
  assumes "length (ctx_data ctx) < 2 ^ 32" "verify_msdos_header ctx = Inr (Some u)"
  obtains sig where "pe_signature_offset ctx = Inr sig" "uint sig + 4 \<le> int (length (ctx_data ctx))"
  using assms by (auto simp: verify_msdos_header_def not_less word_le_def ctx_size_uint uint_sub_small)

lemma pe_header_ok:
  assumes "length (ctx_data ctx) < 2 ^ 32" "pe_signature_offset ctx = Inr sig" "uint sig + 4 \<le> int (length (ctx_data ctx))"
    "128 \<le> length (ctx_data ctx)"
  shows "is_ok (verify_pe_header ctx)"
    and "verify_pe_header ctx = Inr (Some u) \<Longrightarrow> uint sig + 24 \<le> int (length (ctx_data ctx))"
proof -
  have s: "uint (sig + 4) = uint sig + 4" using assms by (subst uint_add_small) auto
  have c: "(sig + 4 > ctx_size ctx - 20) = (uint sig + 24 > int (length (ctx_data ctx)))"
    using assms by (subst le_minus_uint) (auto simp: ctx_size_uint s)
  show "is_ok (verify_pe_header ctx)" unfolding verify_pe_header_def assms(2) bindr.simps c
    using assms by (intro ok_intros ok_reads ok_strncmp) auto
  show "verify_pe_header ctx = Inr (Some u) \<Longrightarrow> uint sig + 24 \<le> int (length (ctx_data ctx))"
    unfolding verify_pe_header_def assms(2) bindr.simps c by auto
qed

lemma optional_header_ok:
  assumes "length (ctx_data ctx) < 2 ^ 32" "pe_signature_offset ctx = Inr sig" "uint sig + 24 \<le> int (length (ctx_data ctx))"
  shows "is_ok (verify_pe_optional_header ctx)"
    and "verify_pe_optional_header ctx = Inr (Some u) \<Longrightarrow> uint sig + 248 \<le> int (length (ctx_data ctx))"
proof -
  have h: "pe_header_offset ctx = Inr (sig + 4)" using assms(2) by (simp add: pe_header_offset_def pe_signature_offset_def)
  have s: "uint (sig + 4) = uint sig + 4" using assms by (subst uint_add_small) auto
  have t: "uint (sig + 4 + 20) = uint sig + 24" using assms by (subst uint_add_small) (auto simp: s)
  have c: "(sig + 4 + 20 > ctx_size ctx - n \<or> n > ctx_size ctx) = (uint sig + 24 + uint n > int (length (ctx_data ctx)))" for n
  proof (cases "n > ctx_size ctx")
    case True
    then have "int (length (ctx_data ctx)) < uint n" using assms(1) by (simp add: word_less_def ctx_size_uint)
    then have "uint sig + 24 + uint n > int (length (ctx_data ctx))" using uint_ge_0 [of sig] by linarith
    with True show ?thesis by simp
  next
    case False
    then have "uint n \<le> uint (ctx_size ctx)" by (simp add: word_less_def)
    from le_minus_uint [OF this] False assms(1) show ?thesis by (simp add: ctx_size_uint t [simplified])
  qed
  show "is_ok (verify_pe_optional_header ctx)" unfolding verify_pe_optional_header_def h bindr.simps Let_def c s
    using assms by (intro ok_intros ok_reads) (auto simp: word_less_def)
  show "verify_pe_optional_header ctx = Inr (Some u) \<Longrightarrow> uint sig + 248 \<le> int (length (ctx_data ctx))"
    unfolding verify_pe_optional_header_def h bindr.simps Let_def c s by auto
qed

lemma section_count_fits:
  fixes n :: guint16 and z p :: guint32
  assumes "uint z = L" "uint p = P" "P \<le> L"
  shows "(ucast n * 40 > z - p) = (P + 40 * int (unat n) > L)"
proof -
  have u: "uint (ucast n :: guint32) = uint n" by (simp add: uint_up_ucast is_up)
  have "uint n < 2 ^ 16" by (rule order_less_le_trans [OF unsigned_less]) simp
  then have "uint (ucast n * 40 :: guint32) = uint n * 40"
    using uint_mult_lem [of "ucast n :: guint32" 40] by (simp add: u)
  then show ?thesis using le_minus_uint [of p z "ucast n * 40"] assms by (simp add: ac_simps)
qed

lemma section_table_ok:
  assumes "length (ctx_data ctx) < 2 ^ 32" "pe_signature_offset ctx = Inr sig" "uint sig + 248 \<le> int (length (ctx_data ctx))"
  shows "is_ok (load_section_table ctx)"
    and "load_section_table ctx = Inr (Some ctx') \<Longrightarrow> \<exists>ss. ctx' = ctx\<lparr>ctx_sections := new_sections ss\<rparr> \<and>
      (\<forall>s \<in> set ss. section_inside (length (ctx_data ctx)) s)"
proof -
  have h: "pe_header_offset ctx = Inr (sig + 4)" using assms(2) by (simp add: pe_header_offset_def pe_signature_offset_def)
  have s: "uint (sig + 4) = uint sig + 4" using assms by (subst uint_add_small) auto
  have t: "uint (sig + 4 + 244) = uint sig + 248" using assms by (subst uint_add_small) (auto simp: s)
  have z: "unat (ctx_size ctx) = length (ctx_data ctx)" using ctx_size_uint [OF assms(1)] by (simp add: unat_eq_nat_uint)
  have c: "(ucast n * 40 > ctx_size ctx - (sig + 4 + 244)) = (uint sig + 248 + 40 * int (unat n) > int (length (ctx_data ctx)))" for n :: guint16
    by (rule section_count_fits) (use assms(3) in \<open>simp_all only: t ctx_size_uint [OF assms(1)]\<close>)
  have r: "\<exists>ss. read_section_headers (ctx_data ctx) (uint sig + 4 + 244) (unat n) = Inr ss \<and> length ss = unat n"
    if "\<not> uint sig + 248 + 40 * int (unat n) > int (length (ctx_data ctx))" for n :: guint16
    using that uint_ge_0 [of sig] by (intro ok_read_section_headers) auto
  show "is_ok (load_section_table ctx)" unfolding load_section_table_def h bindr.simps Let_def c s t
  proof (intro is_ok_bindr is_ok_refuse_if is_ok_bindc)
    show "is_ok (read16 (ctx_data ctx) (uint sig + 4 + 2))" using assms by (intro ok_reads) auto
    show "is_ok (read_section_headers (ctx_data ctx) (uint sig + 4 + 244) (unat n))"
      if "\<not> uint sig + 248 + 40 * int (unat n) > int (length (ctx_data ctx))" for n :: guint16 using r [OF that] by auto
    show "is_ok (check_section_headers (ctx_data ctx) (ctx_size ctx) (uint sig + 248) ss)"
      if "\<not> uint sig + 248 + 40 * int (unat n) > int (length (ctx_data ctx))"
        "read_section_headers (ctx_data ctx) (uint sig + 4 + 244) (unat n) = Inr ss" for n :: guint16 and ss
      using r [OF that(1)] that uint_ge_0 [of sig] by (intro check_section_headers_ok) auto
  qed simp
  show "load_section_table ctx = Inr (Some ctx') \<Longrightarrow> \<exists>ss. ctx' = ctx\<lparr>ctx_sections := new_sections ss\<rparr> \<and>
      (\<forall>s \<in> set ss. section_inside (length (ctx_data ctx)) s)"
    unfolding load_section_table_def h bindr.simps Let_def c s t
    by (auto dest!: check_section_headers_inside simp: z)
qed

section \<open>Data directories\<close>

lemma data_directories_ok:
  "0 \<le> p \<Longrightarrow> p + 8 * int (length is) \<le> int (length (ctx_data ctx)) \<Longrightarrow> is_ok (data_directories_loop ctx p is)"
proof (induction "is" arbitrary: ctx p)
  case (Cons i "is")
  then have "is_ok (read32 (ctx_data ctx) p)" "is_ok (read32 (ctx_data ctx) (p + 4))" by (auto intro!: ok_reads)
  moreover have "0 \<le> p + 8" "p + 8 + 8 * int (length is) \<le> int (length (ctx_data ctx))" using Cons.prems by auto
  ultimately show ?case by (auto intro!: ok_intros simp: Cons.IH)
qed simp

text \<open>The loop keeps everything but the directories, and translates each entry with the sections.\<close>

lemma data_directories_translated:
  assumes "data_directories_loop ctx p is = Inr (Some ctx')" "distinct is"
  shows "ctx' = ctx\<lparr>data_directories := data_directories ctx'\<rparr> \<and> length (data_directories ctx') = length (data_directories ctx) \<and>
    (\<forall>i. i < length (data_directories ctx) \<longrightarrow> (i \<notin> set is \<or> i = CERTIFICATE_TABLE_IDX) \<longrightarrow> data_directories ctx' ! i = data_directories ctx ! i) \<and>
    (\<forall>i \<in> set is. i < length (data_directories ctx) \<longrightarrow> i \<noteq> CERTIFICATE_TABLE_IDX \<longrightarrow>
      translated_offset (data_directories ctx' ! i) = translate_rva ctx (rva (data_directories ctx' ! i)))"
  using assms
proof (induction "is" arbitrary: ctx p)
  case (Cons i "is")
  show ?case
  proof (cases "i = CERTIFICATE_TABLE_IDX")
    case True
    then have "data_directories_loop ctx (p + 8) is = Inr (Some ctx')" using Cons.prems by auto
    from Cons.IH [OF this] Cons.prems(2) True show ?thesis by auto
  next
    case False
    define e where "e r n = \<lparr>rva = r, data_size = n, translated_offset = translate_rva ctx r\<rparr>" for r n
    define ctx1 where "ctx1 r n = ctx\<lparr>data_directories := (data_directories ctx)[i := e r n]\<rparr>" for r n
    obtain r n where rec: "data_directories_loop (ctx1 r n) (p + 8) is = Inr (Some ctx')"
      using Cons.prems False by (auto simp: e_def ctx1_def)
    have t: "translate_rva (ctx1 r n) = translate_rva ctx" by (auto simp: translate_rva_def ctx1_def ctx_size_def fun_eq_iff split: option.split)
    have l: "length (data_directories (ctx1 r n)) = length (data_directories ctx)" by (simp add: ctx1_def)
    have "distinct is" using Cons.prems by simp
    note IH = Cons.IH [OF rec this, unfolded t l]
    have "ctx' = ctx\<lparr>data_directories := data_directories ctx'\<rparr>" using IH by (metis (no_types, lifting) VerifyContext.simps VerifyContext.update_convs(6) ctx1_def VerifyContext.surjective)
    moreover have "i \<notin> set is" using Cons.prems by simp
    ultimately show ?thesis using IH False by (auto simp: ctx1_def e_def nth_list_update)
  qed
qed simp

section \<open>Properties\<close>

lemma header_checks_ok:
  assumes "length (ctx_data ctx) < 2 ^ 32"
  shows "is_ok (header_checks ctx)"
    and "header_checks ctx = Inr (Some ctx') \<Longrightarrow> \<exists>ss ctx1 p. load_section_table ctx = Inr (Some ctx1) \<and>
      ctx1 = ctx\<lparr>ctx_sections := new_sections ss\<rparr> \<and> (\<forall>s \<in> set ss. section_inside (length (ctx_data ctx)) s) \<and>
      data_directories_loop ctx1 p [0..<16] = Inr (Some ctx')"
proof -
  note len = assms
  have big: "128 \<le> length (ctx_data ctx)" if "verify_msdos_header ctx = Inr (Some u)" for u
    using that ctx_size_uint [OF len] by (auto simp: verify_msdos_header_def not_less word_le_def)
  have dirs: "is_ok (load_data_directories ctx1)"
    if "pe_signature_offset ctx = Inr sig" "uint sig + 248 \<le> int (length (ctx_data ctx))" "ctx_data ctx1 = ctx_data ctx" for sig ctx1
  proof -
    have h: "pe_header_offset ctx1 = Inr (sig + 4)" using that by (simp add: pe_header_offset_def pe_signature_offset_def)
    have s: "uint (sig + 4) = uint sig + 4" using that len by (subst uint_add_small) auto
    have t: "uint (sig + 4 + 116) = uint sig + 120" using that len by (subst uint_add_small) (auto simp: s)
    show ?thesis unfolding load_data_directories_def h bindr.simps t
      using that by (intro data_directories_ok) auto
  qed
  show "is_ok (header_checks ctx)"
    unfolding header_checks_def
  proof (intro is_ok_bindc msdos_ok [OF len])
    fix u assume ms: "verify_msdos_header ctx = Inr (Some u)"
    obtain sig where sig: "pe_signature_offset ctx = Inr sig" "uint sig + 4 \<le> int (length (ctx_data ctx))"
      by (rule msdos_accepts [OF len ms])
    note ph = pe_header_ok [OF len sig big [OF ms]]
    show "is_ok (verify_pe_header ctx)" by (rule ph(1))
    fix u1 assume "verify_pe_header ctx = Inr (Some u1)"
    note oh = optional_header_ok [OF len sig(1) ph(2) [OF this]]
    show "is_ok (verify_pe_optional_header ctx)" by (rule oh(1))
    fix u2 assume "verify_pe_optional_header ctx = Inr (Some u2)"
    note st = section_table_ok [OF len sig(1) oh(2) [OF this]]
    show "is_ok (load_section_table ctx)" by (rule st(1))
    fix ctx1 assume "load_section_table ctx = Inr (Some ctx1)"
    from st(2) [OF this] have "ctx_data ctx1 = ctx_data ctx" by auto
    then show "is_ok (load_data_directories ctx1)"
      by (rule dirs [OF sig(1) oh(2) [OF \<open>verify_pe_optional_header ctx = Inr (Some u2)\<close>]])
  qed
  assume "header_checks ctx = Inr (Some ctx')"
  then obtain u u1 u2 ctx1 where a: "verify_msdos_header ctx = Inr (Some u)" "verify_pe_header ctx = Inr (Some u1)"
    "verify_pe_optional_header ctx = Inr (Some u2)" "load_section_table ctx = Inr (Some ctx1)"
    "load_data_directories ctx1 = Inr (Some ctx')" by (auto simp: header_checks_def)
  obtain sig where sig: "pe_signature_offset ctx = Inr sig" "uint sig + 4 \<le> int (length (ctx_data ctx))"
    by (rule msdos_accepts [OF len a(1)])
  note ph = pe_header_ok(2) [OF len sig big [OF a(1)] a(2)]
  note oh = optional_header_ok(2) [OF len sig(1) ph a(3)]
  from section_table_ok(2) [OF len sig(1) oh a(4)] obtain ss where "ctx1 = ctx\<lparr>ctx_sections := new_sections ss\<rparr>"
    "\<forall>s \<in> set ss. section_inside (length (ctx_data ctx)) s" by blast
  moreover obtain p where "data_directories_loop ctx1 p [0..<16] = Inr (Some ctx')"
    using a(5) by (auto simp: load_data_directories_def simp del: upt_rec)
  ultimately show "\<exists>ss ctx1 p. load_section_table ctx = Inr (Some ctx1) \<and>
      ctx1 = ctx\<lparr>ctx_sections := new_sections ss\<rparr> \<and> (\<forall>s \<in> set ss. section_inside (length (ctx_data ctx)) s) \<and>
      data_directories_loop ctx1 p [0..<16] = Inr (Some ctx')" using a(4) by blast
qed

lemma checked_sections:
  assumes "length (ctx_data ctx) < 2 ^ 32" "header_checks ctx = Inr (Some ctx')"
  shows "(\<forall>s \<in> set (sections_of ctx'). section_inside (length (ctx_data ctx)) s) \<and>
    (\<exists>p. data_directories_loop (ctx\<lparr>ctx_sections := new_sections (sections_of ctx')\<rparr>) p [0..<16] = Inr (Some ctx'))"
proof -
  from header_checks_ok(2) [OF assms] obtain ss ctx1 p where c: "ctx1 = ctx\<lparr>ctx_sections := new_sections ss\<rparr>"
    "\<forall>s \<in> set ss. section_inside (length (ctx_data ctx)) s" "data_directories_loop ctx1 p [0..<16] = Inr (Some ctx')" by blast
  have "ctx' = ctx1\<lparr>data_directories := data_directories ctx'\<rparr>" using data_directories_translated [OF c(3)] by simp
  then have "sections_of ctx' = ss" unfolding c(1) sections_of_def
    by (metis VerifyContext.select_convs(7) VerifyContext.surjective VerifyContext.update_convs(6,7) sections_of_def set_new_sections)
  with c show ?thesis by auto
qed

text \<open>
  C27.  The checks of the PE headers stay inside the file.  For every content of a file below
  4 GiB, the checks of the DOS header, the PE header, the optional header, the section table and the
  data directories end with a decision, never with a read outside the file or a failed assertion;
  and when they accept, every section lies inside the file.
\<close>

theorem pe_headers_in_bounds:
  assumes "length (ctx_data ctx) < 2 ^ 32"
  shows "is_ok (header_checks ctx) \<and>
    (\<forall>ctx'. header_checks ctx = Inr (Some ctx') \<longrightarrow>
      (\<forall>s \<in> set (sections_of ctx'). section_inside (length (ctx_data ctx)) s))"
proof (intro conjI allI impI)
  show "is_ok (header_checks ctx)" by (rule header_checks_ok [OF assms])
  fix ctx' assume "header_checks ctx = Inr (Some ctx')"
  from checked_sections [OF assms this] show "\<forall>s \<in> set (sections_of ctx'). section_inside (length (ctx_data ctx)) s" by blast
qed

text \<open>A PE file of 416 bytes with one section of 8 bytes at address 8192 and no directories.\<close>

definition bare_file :: "guint8 list" where
  "bare_file = [0x4D, 0x5A] @ replicate 58 0 @ [0x80, 0, 0, 0] @ replicate 64 0 @
     [0x50, 0x45, 0, 0, 0x4C, 0x01, 1, 0] @ replicate 12 0 @ [0xE0, 0, 0, 0] @ [0x0B, 0x01] @ replicate 30 0 @
     [0, 0x20, 0, 0, 0, 0x02, 0, 0] @ replicate 52 0 @ [0x10, 0, 0, 0] @ replicate 128 0 @
     replicate 8 0 @ [8, 0, 0, 0, 0, 0x20, 0, 0, 8, 0, 0, 0, 0x10, 0, 0, 0] @ replicate 12 0 @ [0x20, 0, 0, 0]"

definition bare_image :: MonoImage where
  "bare_image = \<lparr>raw_data = bare_file, uncompressed_metadata = False, idx_string_wide = False, idx_guid_wide = False,
     idx_blob_wide = False, heap_strings = \<lparr>heap_data = None, heap_size = 0\<rparr>, heap_us = \<lparr>heap_data = None, heap_size = 0\<rparr>,
     heap_blob = \<lparr>heap_data = None, heap_size = 0\<rparr>, heap_guid = \<lparr>heap_data = None, heap_size = 0\<rparr>,
     heap_tables = \<lparr>heap_data = None, heap_size = 0\<rparr>, tables_base = 0, tables = []\<rparr>"

definition no_info :: MonoCLIImageInfo where
  "no_info = \<lparr>cli_header = \<lparr>coff_sections = 0, coff_opt_header_size = 0, pe_magic = 0, datadir = replicate 16 \<lparr>dir_rva = 0, dir_size = 0\<rparr>\<rparr>,
     cli_section_tables = [], cli_cli_header = no_cli_header\<rparr>"

lemma bare_file_accepted:
  "case header_checks (init_verify_context bare_image no_info STAGE_PE) of Inr (Some c) \<Rightarrow>
     rva (data_directories c ! 1) = 0 \<and> map baseRVA (sections_of c) = [8192] | _ \<Rightarrow> False"
  by code_simp

lemma bare_context:
  obtains c s where "header_checks (init_verify_context bare_image no_info STAGE_PE) = Inr (Some c)"
    "rva (data_directories c ! IMPORT_TABLE_IDX) = 0" "sections_of c = [s]" "baseRVA s = 8192"
  using bare_file_accepted by (auto split: sum.splits option.splits)

lemma bare_length: "length (raw_data bare_image) < 2 ^ 32" "length (ctx_data (init_verify_context bare_image no_info STAGE_PE)) < 2 ^ 32"
  by (simp_all add: bare_image_def bare_file_def init_verify_context_def)

theorem pe_headers_in_bounds_witness:
  "\<exists>c s. header_checks (init_verify_context bare_image no_info STAGE_PE) = Inr (Some c) \<and> sections_of c = [s] \<and>
     section_inside 416 s"
proof -
  obtain c s where c: "header_checks (init_verify_context bare_image no_info STAGE_PE) = Inr (Some c)" "sections_of c = [s]"
    by (rule bare_context)
  have "length (ctx_data (init_verify_context bare_image no_info STAGE_PE)) = 416"
    by (simp add: bare_image_def bare_file_def init_verify_context_def)
  with pe_headers_in_bounds [OF bare_length(2)] c show ?thesis by auto
qed

text \<open>
  A file without an import directory aborts the verifier.  When the headers are accepted, the
  import directory is absent (its address is 0) and there are sections, all above address 0, then
  \<open>mono_verifier_verify_pe_data\<close> does not refuse the file but fails the assertion that the directory has
  been translated.
\<close>

theorem missing_import_table_aborts:
  assumes "length (raw_data im) < 2 ^ 32" "header_checks (init_verify_context im iinfo STAGE_PE) = Inr (Some ctx)"
    and "rva (data_directories ctx ! IMPORT_TABLE_IDX) = 0" "sections_of ctx \<noteq> []" "\<forall>s \<in> set (sections_of ctx). 0 < baseRVA s"
  shows "mono_verifier_verify_pe_data True im iinfo = Inl Assert_failed"
proof -
  let ?c = "init_verify_context im iinfo STAGE_PE"
  have len: "length (ctx_data ?c) < 2 ^ 32" using assms(1) by (simp add: init_verify_context_def)
  from checked_sections [OF len assms(2)] obtain ctx1 p where c: "ctx1 = ?c\<lparr>ctx_sections := new_sections (sections_of ctx)\<rparr>"
    "data_directories_loop ctx1 p [0..<16] = Inr (Some ctx)" by blast
  note d = data_directories_translated [OF c(2)]
  have "length (data_directories ctx1) = 16" by (simp add: c(1) init_verify_context_def)
  with d have "translated_offset (data_directories ctx ! 1) = translate_rva ctx1 0" using assms(3) by simp
  moreover have "translate_in sz ss 0 = INVALID_OFFSET" if "\<forall>s \<in> set ss. 0 < baseRVA s" for sz ss
    using that by (induction ss) (auto simp: word_le_def word_less_def)
  ultimately have "translated_offset (data_directories ctx ! 1) = INVALID_OFFSET"
    using assms(4,5) by (simp add: translate_rva_def c(1) init_verify_context_def new_sections_def)
  then show ?thesis by (simp add: verify_pe_data_split assms(2) verify_import_table_def Let_def)
qed

theorem missing_import_table_aborts_witness:
  "mono_verifier_verify_pe_data True bare_image no_info = Inl Assert_failed"
proof -
  obtain c s where c: "header_checks (init_verify_context bare_image no_info STAGE_PE) = Inr (Some c)"
    "rva (data_directories c ! IMPORT_TABLE_IDX) = 0" "sections_of c = [s]" "baseRVA s = 8192"
    by (rule bare_context)
  show ?thesis by (rule missing_import_table_aborts [OF bare_length(1) c(1,2)]) (simp_all add: c)
qed

end
