(* ===== verification/Ver_Tables_Spec.thy ===== *)
theory Ver_Tables_Spec
  imports Ver_Tables Meta_Lookup_Spec Ver_Header_Spec
begin

text \<open>
  What the runtime may rely on after the table checks: the tables lie inside the image and the lists of
  members are sorted, as the lookups need it; and the binary search of the verifier.
\<close>

section \<open>Loops and lists of checks\<close>

lemma checks_accept: "checks cs = Inr (Some ()) \<longleftrightarrow> (\<forall>c \<in> set cs. c = Inr (Some ()))"
  by (induction cs) auto

lemma refuse_when_accepts [simp]: "refuse_when b = Inr (Some ()) \<longleftrightarrow> \<not> b"
  by (simp add: refuse_when_def)

lemma must_accepts [simp]: "must r = Inr (Some ()) \<longleftrightarrow> r = Inr True"
  by (auto simp: must_def)

text \<open>The states of an accepted loop over the rows.\<close>

lemma rows_loop_states:
  "rows_loop ctx table n body [j..<j + k] s = Inr (Some s') \<Longrightarrow>
    \<exists>S. S j = s \<and> S (j + k) = s' \<and> (\<forall>i. j \<le> i \<longrightarrow> i < j + k \<longrightarrow> (\<exists>data.
      mono_metadata_decode_row (ctx_data ctx) (tables (ctx_image ctx) ! table) (int i) n = Inr data \<and>
      body i data (S i) = Inr (Some (S (Suc i)))))"
proof (induction k arbitrary: j s)
  case (Suc k)
  have "[j..<j + Suc k] = j # [Suc j..<Suc j + k]" by (simp add: upt_conv_Cons)
  with Suc.prems obtain data s1 where d: "mono_metadata_decode_row (ctx_data ctx) (tables (ctx_image ctx) ! table) (int j) n = Inr data"
    "body j data s = Inr (Some s1)" and rec: "rows_loop ctx table n body [Suc j..<Suc j + k] s1 = Inr (Some s')"
    by auto
  from Suc.IH [OF rec] obtain S where S: "S (Suc j) = s1" "S (Suc j + k) = s'"
    "\<forall>i. Suc j \<le> i \<longrightarrow> i < Suc j + k \<longrightarrow> (\<exists>data.
      mono_metadata_decode_row (ctx_data ctx) (tables (ctx_image ctx) ! table) (int i) n = Inr data \<and>
      body i data (S i) = Inr (Some (S (Suc i))))" by blast
  show ?case
  proof (intro exI [of _ "S(j := s)"] conjI allI impI)
    fix i assume i: "j \<le> i" "i < j + Suc k"
    show "\<exists>data. mono_metadata_decode_row (ctx_data ctx) (tables (ctx_image ctx) ! table) (int i) n = Inr data \<and>
      body i data ((S(j := s)) i) = Inr (Some ((S(j := s)) (Suc i)))"
    proof (cases "i = j")
      case True
      then show ?thesis using d S(1) by simp
    next
      case False
      with i have "Suc j \<le> i" "i < Suc j + k" by auto
      with S(3) obtain data where "mono_metadata_decode_row (ctx_data ctx) (tables (ctx_image ctx) ! table) (int i) n = Inr data"
        "body i data (S i) = Inr (Some (S (Suc i)))" by blast
      with False i show ?thesis by auto
    qed
  qed (use S in auto)
qed auto

lemma for_rows_states:
  assumes "for_rows ctx table n body s = Inr (Some s')"
  shows "\<exists>S. S 0 = s \<and> S (table_rows (ctx_image ctx) table) = s' \<and> (\<forall>i < table_rows (ctx_image ctx) table. \<exists>data.
      mono_metadata_decode_row (ctx_data ctx) (tables (ctx_image ctx) ! table) (int i) n = Inr data \<and>
      body i data (S i) = Inr (Some (S (Suc i))))"
  using rows_loop_states [of ctx table n body 0 "table_rows (ctx_image ctx) table" s s'] assms
  unfolding for_rows_def by simp

section \<open>The type definitions\<close>

text \<open>What a row of the table satisfies, given the lists of the row before.\<close>

definition typedef_row_ok :: "VerifyContext \<Rightarrow> nat \<Rightarrow> guint32 \<times> guint32 \<Rightarrow> bool" where
  "typedef_row_ok ctx i before \<longleftrightarrow>
    (let im = ctx_image ctx; fields = cell im MONO_TABLE_TYPEDEF MONO_TYPEDEF_FIELD_LIST i;
         methods = cell im MONO_TABLE_TYPEDEF MONO_TYPEDEF_METHOD_LIST i in
     fields \<noteq> 0 \<and> unat fields \<le> table_rows im MONO_TABLE_FIELD + 1 \<and> fst before \<le> fields \<and>
     methods \<noteq> 0 \<and> unat methods \<le> table_rows im MONO_TABLE_METHOD + 1 \<and> snd before \<le> methods \<and>
     is_valid_non_empty_string ctx (cell im MONO_TABLE_TYPEDEF MONO_TYPEDEF_NAME i) = Inr True)"

lemma typedef_columns: "length (schemas ! MONO_TABLE_TYPEDEF) = 6"
  by (simp add: schemas_def)

lemma verify_typedef_row_accepts:
  assumes "verify_typedef_row ctx i (map (\<lambda>k. cell (ctx_image ctx) MONO_TABLE_TYPEDEF k i) [0..<6]) before = Inr (Some after)"
  shows "typedef_row_ok ctx i before \<and> after = (cell (ctx_image ctx) MONO_TABLE_TYPEDEF MONO_TYPEDEF_FIELD_LIST i,
    cell (ctx_image ctx) MONO_TABLE_TYPEDEF MONO_TYPEDEF_METHOD_LIST i)"
proof -
  have n: "map (\<lambda>k. cell (ctx_image ctx) MONO_TABLE_TYPEDEF k i) [0..<6] ! k = cell (ctx_image ctx) MONO_TABLE_TYPEDEF k i" if "k < 6" for k
    using that by simp
  show ?thesis
    using assms unfolding verify_typedef_row_def Let_def
    by (auto simp: checks_accept typedef_row_ok_def Let_def unless_def not_less split: if_splits simp del: upt_rec simp add: n)
qed

lemma typedef_table_rows:
  assumes "meta_ok (ctx_image ctx)" "ctx_data ctx = raw_data (ctx_image ctx)" "verify_typedef_table ctx = Inr (Some ())"
  shows "0 < table_rows (ctx_image ctx) MONO_TABLE_TYPEDEF \<and> (\<forall>i < table_rows (ctx_image ctx) MONO_TABLE_TYPEDEF. typedef_row_ok ctx i
    (if i = 0 then (1, 1) else (cell (ctx_image ctx) MONO_TABLE_TYPEDEF MONO_TYPEDEF_FIELD_LIST (i - 1),
       cell (ctx_image ctx) MONO_TABLE_TYPEDEF MONO_TYPEDEF_METHOD_LIST (i - 1))))"
proof -
  let ?im = "ctx_image ctx"
  from assms(3) obtain s' where r: "table_rows ?im MONO_TABLE_TYPEDEF \<noteq> 0"
    and f: "for_rows ctx MONO_TABLE_TYPEDEF MONO_TYPEDEF_SIZE (verify_typedef_row ctx) (1, 1) = Inr (Some s')"
    by (auto simp: verify_typedef_table_def)
  from for_rows_states [OF f] obtain S where S0: "S 0 = (1, 1)"
    and S: "\<forall>i < table_rows ?im MONO_TABLE_TYPEDEF. \<exists>data.
      mono_metadata_decode_row (ctx_data ctx) (tables ?im ! MONO_TABLE_TYPEDEF) (int i) MONO_TYPEDEF_SIZE = Inr data \<and>
      verify_typedef_row ctx i data (S i) = Inr (Some (S (Suc i)))"
    by (elim exE conjE) (rule that)
  have row: "typedef_row_ok ctx i (S i) \<and> S (Suc i) = (cell ?im MONO_TABLE_TYPEDEF MONO_TYPEDEF_FIELD_LIST i,
      cell ?im MONO_TABLE_TYPEDEF MONO_TYPEDEF_METHOD_LIST i)" if i: "i < table_rows ?im MONO_TABLE_TYPEDEF" for i
  proof -
    from S i obtain data where d: "mono_metadata_decode_row (ctx_data ctx) (tables ?im ! MONO_TABLE_TYPEDEF) (int i) MONO_TYPEDEF_SIZE = Inr data"
      and v: "verify_typedef_row ctx i data (S i) = Inr (Some (S (Suc i)))" by blast
    have "mono_metadata_decode_row (ctx_data ctx) (tables ?im ! MONO_TABLE_TYPEDEF) (int i) MONO_TYPEDEF_SIZE =
        Inr (map (\<lambda>k. cell ?im MONO_TABLE_TYPEDEF k i) [0..<6])"
      using row_decoded [OF assms(1) _ i, of 6] assms(2) typedef_columns by simp
    with d have "data = map (\<lambda>k. cell ?im MONO_TABLE_TYPEDEF k i) [0..<6]" by (metis sum.inject(2))
    with v show ?thesis by (metis verify_typedef_row_accepts)
  qed
  have prev: "S i = (if i = 0 then (1, 1) else (cell ?im MONO_TABLE_TYPEDEF MONO_TYPEDEF_FIELD_LIST (i - 1),
       cell ?im MONO_TABLE_TYPEDEF MONO_TYPEDEF_METHOD_LIST (i - 1)))" if "i < table_rows ?im MONO_TABLE_TYPEDEF" for i
  proof (cases i)
    case (Suc j)
    with that have "j < table_rows ?im MONO_TABLE_TYPEDEF" by simp
    from row [OF this] Suc show ?thesis by simp
  qed (simp add: S0)
  show ?thesis
  proof (intro conjI allI impI)
    show "0 < table_rows ?im MONO_TABLE_TYPEDEF" using r by simp
    fix i assume "i < table_rows ?im MONO_TABLE_TYPEDEF"
    from row [OF this] prev [OF this] show "typedef_row_ok ctx i
      (if i = 0 then (1, 1) else (cell ?im MONO_TABLE_TYPEDEF MONO_TYPEDEF_FIELD_LIST (i - 1),
         cell ?im MONO_TABLE_TYPEDEF MONO_TYPEDEF_METHOD_LIST (i - 1)))" by simp
  qed
qed

section \<open>The space of the tables\<close>

lemma word_sum_no_overflow: "\<not> x + y < x \<Longrightarrow> uint (x + y) = uint x + uint y" for x y :: guint32
proof -
  assume "\<not> x + y < x"
  then show ?thesis by (simp add: word_less_def uint_plus_if' split: if_splits)
      (use uint_bounded [of y] in simp)
qed

lemma uint_of_nat_small: "n < 2 ^ 32 \<Longrightarrow> uint (of_nat n :: guint32) = int n"
  by (simp add: unsigned_of_nat take_bit_nat_eq_self)

lemma table_space_sum:
  assumes "\<forall>t \<in> set ts. row_size t * rows t < 2 ^ 32" "table_space ts sz \<noteq> 0"
  shows "uint (table_space ts sz) = uint sz + int (sum_list (map (\<lambda>t. row_size t * rows t) ts))"
  using assms
proof (induction ts arbitrary: sz)
  case (Cons t ts)
  let ?w = "of_nat (row_size t) * of_nat (rows t) :: guint32"
  have "?w = of_nat (row_size t * rows t)" by simp
  moreover have "uint (of_nat (row_size t * rows t) :: guint32) = int (row_size t * rows t)"
    using Cons.prems(1) by (intro uint_of_nat_small) simp
  ultimately have w: "uint ?w = int (row_size t * rows t)" by metis
  have n: "\<not> sz + ?w < sz" "table_space ts (sz + ?w) \<noteq> 0" using Cons.prems(2) by (auto simp: Let_def split: if_splits)
  have "uint (table_space ts (sz + ?w)) = uint (sz + ?w) + int (sum_list (map (\<lambda>t. row_size t * rows t) ts))"
    using Cons.IH [of "sz + ?w"] Cons.prems(1) n(2) by simp
  then show ?case using n(1) w word_sum_no_overflow [OF n(1)] by (simp add: Let_def)
qed simp

text \<open>Nothing wraps in a bounds check of offsets below 2 GB.\<close>

lemma bounds_check_offset_exact:
  assumes "bounds_check_offset \<lparr>off_offset = o', off_size = n\<rparr> off sz" "uint o' + uint n < 2 ^ 31" "uint off < 2 ^ 31"
  shows "uint o' \<le> uint off \<and> uint off + uint sz \<le> uint o' + uint n"
proof -
  have powers: "(2 :: int) ^ 31 = 2147483648" "(2 :: int) ^ 32 = 4294967296" by simp_all
  have c: "o' \<le> off" "sz \<le> n" "off + sz \<le> o' + n" using assms(1) by (auto simp: bounds_check_offset_def split: if_splits)
  have "uint sz \<le> uint n" "uint o' \<le> uint off" using c by (simp_all add: word_le_def)
  moreover have "uint off + uint sz < 2 ^ 32"
    using assms(2,3) \<open>uint sz \<le> uint n\<close> uint_ge_0 [of o'] unfolding powers by linarith
  then have "uint (off + sz) = uint off + uint sz" by (simp add: uint_plus_if')
  moreover have "uint (o' + n) = uint o' + uint n" using assms(2) by (simp add: uint_plus_if')
  ultimately show ?thesis using c(3) by (simp add: word_le_def)
qed

text \<open>What the check of the table space gives for an image that has just been loaded.\<close>

definition tables_heap_inside :: "MonoImage \<Rightarrow> bool" where
  "tables_heap_inside meta \<longleftrightarrow> length (raw_data meta) < 2 ^ 30 \<and>
    (\<exists>p. heap_data (heap_tables meta) = Some p \<and> inside (raw_data meta) p (heap_size (heap_tables meta)))"

lemma placed_space:
  assumes "placed m t u" "t < 45" "rows u < 2 ^ 24"
  shows "row_size u * rows u = row_count (dimensions_of m) t * sum_list (widths (dimensions_of m) t) \<and> row_size u * rows u < 2 ^ 32"
proof (cases "rows u = 0")
  case True
  then show ?thesis using assms(1) by (auto simp: placed_def)
next
  case False
  then have e: "row_size u = sum_list (widths (dimensions_of m) t)" "rows u = table_rows m t" using assms(1) by (auto simp: placed_def)
  have "row_size u * rows u \<le> 36 * 2 ^ 24" using e(1) sum_widths [OF assms(2)] assms(3) by (intro mult_le_mono) simp_all
  then show ?thesis using e by simp
qed

lemma checked_tables_inside:
  assumes "load_tables meta = Inr meta'" "length (tables meta) = 45" "\<forall>t < 45. base (tables meta ! t) = None"
    and "generic_tables_modest (dimensions_of meta')" "tables_heap_inside meta"
    and "ctx_image ctx = meta'" "verify_tables_data depth ctx = Inr (Some ())"
  shows "inside (raw_data meta) (tables_base meta') (bytes_before (dimensions_of meta') 45)"
proof -
  obtain s g b us ts v ht where h: "heap_data (heap_tables meta) = Some ht" and v: "v \<le> 64"
    and m': "meta' = meta\<lparr>idx_string_wide := s, idx_guid_wide := g, idx_blob_wide := b, tables := us, tables_base := ht + 24 + 4 * int v\<rparr>"
    and d: "dimensions_of meta' = dimensions_of (meta'\<lparr>tables := ts\<rparr>)" and l: "length us = 45"
    and us: "\<forall>t < 45. base (ts ! t) = None \<and> rows (ts ! t) < 2 ^ 24 \<and> placed (meta'\<lparr>tables := ts\<rparr>) t (us ! t)"
    by (rule load_tables_placed [OF assms(1-4)])
  let ?d = "dimensions_of meta'" and ?sz = "table_space us 0" and ?n = "heap_size (heap_tables meta)"
  have one: "row_size (us ! t) * rows (us ! t) = row_count ?d t * sum_list (widths ?d t) \<and> row_size (us ! t) * rows (us ! t) < 2 ^ 32"
    if "t < 45" for t
  proof -
    have "placed (meta'\<lparr>tables := ts\<rparr>) t (us ! t)" "rows (us ! t) < 2 ^ 24"
      using us that by (auto simp: placed_def table_rows_def)
    then show ?thesis using placed_space [OF _ that] d by metis
  qed
  from one have sizes: "row_size (us ! t) * rows (us ! t) = row_count ?d t * sum_list (widths ?d t)" if "t < 45" for t
    using that by blast
  have "map (\<lambda>t. row_size t * rows t) us = map (\<lambda>t. row_count ?d t * sum_list (widths ?d t)) [0..<45]"
    using l by (intro nth_equalityI) (simp_all add: sizes)
  then have bb: "sum_list (map (\<lambda>t. row_size t * rows t) us) = bytes_before ?d 45" by (simp only: bytes_before_def)
  have small: "\<forall>t \<in> set us. row_size t * rows t < 2 ^ 32"
  proof
    fix u assume "u \<in> set us"
    then obtain t where "t < 45" "u = us ! t" using l by (auto simp: in_set_conv_nth)
    then show "row_size u * rows u < 2 ^ 32" using one by blast
  qed
  have i: "0 \<le> ht" "ht + int ?n \<le> int (length (raw_data meta))" "length (raw_data meta) < 2 ^ 30"
    using assms(5) h by (auto simp: tables_heap_inside_def inside_def)
  have "take 0x2D us = us" using l by simp
  then have c: "?sz \<noteq> 0" "bounds_check_offset \<lparr>off_offset = of_int ht, off_size = of_nat ?n\<rparr> (of_int (tables_base meta')) ?sz"
    using assms(6,7) h by (auto simp: verify_tables_data_def Let_def stream_offset_def stream_size_def m' split: if_splits)
  have "tables_base meta' = ht + 24 + 4 * int v" by (subst m') simp
  then have tb: "0 \<le> tables_base meta'" "tables_base meta' < 2 ^ 31" using i v by simp_all
  have u: "uint (of_int ht :: guint32) = ht" "uint (of_nat ?n :: guint32) = int ?n" "uint (of_int (tables_base meta') :: guint32) = tables_base meta'"
    using i tb by (simp_all add: uint_word_of_int unsigned_of_nat take_bit_nat_eq_self)
  have "tables_base meta' + uint ?sz \<le> ht + int ?n"
    using bounds_check_offset_exact [OF c(2)] u i tb by simp
  then show ?thesis using table_space_sum [OF small c(1)] bb i tb by (simp add: inside_def)
qed

section \<open>Verified images\<close>

text \<open>The member lists of the types ascend and stay inside the tables they index.\<close>

definition members_ascend :: "MonoImage \<Rightarrow> nat \<Rightarrow> nat \<Rightarrow> bool" where
  "members_ascend im col mt \<longleftrightarrow> sorted_by im MONO_TABLE_TYPEDEF col \<and>
    (\<forall>i < table_rows im MONO_TABLE_TYPEDEF. 1 \<le> cell im MONO_TABLE_TYPEDEF col i \<and>
      unat (cell im MONO_TABLE_TYPEDEF col i) \<le> table_rows im mt + 1)"

lemma typedef_rows_members:
  assumes "\<forall>i < table_rows (ctx_image ctx) MONO_TABLE_TYPEDEF. typedef_row_ok ctx i
    (if i = 0 then (1, 1) else (cell (ctx_image ctx) MONO_TABLE_TYPEDEF MONO_TYPEDEF_FIELD_LIST (i - 1),
       cell (ctx_image ctx) MONO_TABLE_TYPEDEF MONO_TYPEDEF_METHOD_LIST (i - 1)))"
  shows "members_ascend (ctx_image ctx) MONO_TYPEDEF_FIELD_LIST MONO_TABLE_FIELD \<and>
    members_ascend (ctx_image ctx) MONO_TYPEDEF_METHOD_LIST MONO_TABLE_METHOD"
proof -
  let ?im = "ctx_image ctx"
  have one: "1 \<le> c \<longleftrightarrow> c \<noteq> 0" for c :: guint32 by (simp add: word_le_nat_alt unat_gt_0 Suc_le_eq)
  have step: "cell ?im MONO_TABLE_TYPEDEF MONO_TYPEDEF_FIELD_LIST i \<le> cell ?im MONO_TABLE_TYPEDEF MONO_TYPEDEF_FIELD_LIST (Suc i) \<and>
    cell ?im MONO_TABLE_TYPEDEF MONO_TYPEDEF_METHOD_LIST i \<le> cell ?im MONO_TABLE_TYPEDEF MONO_TYPEDEF_METHOD_LIST (Suc i)"
    if "Suc i < table_rows ?im MONO_TABLE_TYPEDEF" for i
    using assms [rule_format, OF that] by (simp add: typedef_row_ok_def Let_def)
  have "sorted_by ?im MONO_TABLE_TYPEDEF MONO_TYPEDEF_FIELD_LIST" "sorted_by ?im MONO_TABLE_TYPEDEF MONO_TYPEDEF_METHOD_LIST"
    unfolding sorted_by_def using step by (blast intro: column_sorted_steps)+
  then show ?thesis using assms by (simp add: members_ascend_def typedef_row_ok_def Let_def one)
qed

text \<open>
  C25.  What the verifier guarantees to the loader and the lookups.  An image whose 45 tables were not yet
  placed has been loaded from a tables heap that lies inside a file of less than \<open>2^30\<close> bytes, and the tables
  GenericParam, GenericParamConstraint and MethodSpec do not alone decide the width of a custom attribute
  parent (\<open>generic_tables_modest\<close>).  When the verifier, enabled for the image,
  accepts its tables, every table lies inside the file with the column sizes of the standard, although the
  sizes are added up in 32 bits; there is exactly one module and at least one type; and the field lists
  and the method lists of the types ascend and stay in range, which is what the search for the type that
  declares a member needs.
\<close>

theorem verified_tables_sound:
  assumes "load_tables meta = Inr meta'" "length (tables meta) = 45" "\<forall>t < 45. base (tables meta ! t) = None"
    and "generic_tables_modest (dimensions_of meta')" "tables_heap_inside meta"
    and "mono_verifier_verify_table_data True depth meta' iinfo = Inr (Some ())"
  shows "meta_ok meta' \<and> table_rows meta' MONO_TABLE_MODULE = 1 \<and> 0 < table_rows meta' MONO_TABLE_TYPEDEF \<and>
    members_ascend meta' MONO_TYPEDEF_FIELD_LIST MONO_TABLE_FIELD \<and>
    members_ascend meta' MONO_TYPEDEF_METHOD_LIST MONO_TABLE_METHOD"
proof -
  define ctx where "ctx = init_verify_context meta' iinfo STAGE_TABLES"
  have c: "ctx_image ctx = meta'" "ctx_data ctx = raw_data meta'" by (simp_all add: ctx_def init_verify_context_def)
  have v: "verify_tables_data depth ctx = Inr (Some ())"
    using assms(6) by (simp add: mono_verifier_verify_table_data_def ctx_def)
  have "inside (raw_data meta) (tables_base meta') (bytes_before (dimensions_of meta') 45)"
    by (rule checked_tables_inside [OF assms(1-5) c(1) v])
  then have ok: "meta_ok meta'" by (rule load_tables_meta_ok [OF assms(1-4)])
  have "verify_module_table ctx = Inr (Some ())" "verify_typedef_table ctx = Inr (Some ())"
    using v by (auto simp: verify_tables_data_def Let_def split: if_splits)
  then have "table_rows meta' MONO_TABLE_MODULE = 1" "verify_typedef_table ctx = Inr (Some ())"
    by (auto simp: verify_module_table_def c split: if_splits)
  then show ?thesis using ok typedef_table_rows [of ctx] typedef_rows_members [of ctx] c by simp
qed

subsection \<open>The smallest verified image\<close>

text \<open>A module and the module type, both with the name \<open>a\<close>, behind the heaps of strings and GUIDs.\<close>

definition minimal_db :: database where
  "minimal_db t = (if t = MONO_TABLE_MODULE then [[0, 1, 1, 0, 0]] else if t = MONO_TABLE_TYPEDEF then [[0, 1, 0, 0, 1, 1]] else [])"

definition minimal_image :: MonoImage where
  "minimal_image = (image_with (\<lambda>t. 0))\<lparr>raw_data := [0, 0x61, 0] @ replicate 16 0 @ tables_stream (narrow minimal_db) 0 minimal_db,
     heap_strings := \<lparr>heap_data = Some 0, heap_size = 3\<rparr>, heap_guid := \<lparr>heap_data = Some 3, heap_size = 16\<rparr>,
     heap_tables := \<lparr>heap_data = Some 19, heap_size = 56\<rparr>\<rparr>"

lemma minimal_widths: "widths (narrow minimal_db) MONO_TABLE_MODULE = [2, 2, 2, 2, 2]" "widths (narrow minimal_db) MONO_TABLE_TYPEDEF = [4, 2, 2, 2, 2, 2]"
  by (simp_all add: widths_def schemas_def narrow_def minimal_db_def)

lemma minimal_ok: "database_ok (narrow minimal_db) minimal_db"
  unfolding database_ok_def
proof (intro conjI allI impI)
  fix t :: nat
  show "row_count (narrow minimal_db) t = length (minimal_db t)" by (simp add: narrow_def)
  show "length (minimal_db t) < 2 ^ 24" by (simp add: minimal_db_def)
  show "\<forall>r \<in> set (minimal_db t). list_all2 value_fits (widths (narrow minimal_db) t) r"
    using minimal_widths by (auto simp: minimal_db_def value_fits_def)
  show "generic_tables_modest (narrow minimal_db)" by (simp add: generic_tables_modest_def narrow_def minimal_db_def HasCustomAttribute_def)
qed

lemma minimal_bytes: "bytes_before (narrow minimal_db) 45 = 24"
  unfolding bytes_before_def using minimal_widths minimal_widths [unfolded numeral_2_eq_2]
  by (simp add: upt_rec narrow_def minimal_db_def)

lemma minimal_length: "length (tables_stream (narrow minimal_db) 0 minimal_db) = 56"
proof -
  have "present minimal_db = [0, 2]" by (simp add: present_def minimal_db_def upt_rec)
  then show ?thesis
    unfolding tables_stream_def stream_header_def using length_tables_before [OF minimal_ok, of 45] minimal_bytes by simp
qed

lemma table_space_exact:
  assumes "uint sz + int (sum_list (map (\<lambda>t. row_size t * rows t) ts)) < 2 ^ 32"
  shows "table_space ts sz = sz + of_nat (sum_list (map (\<lambda>t. row_size t * rows t) ts))"
  using assms
proof (induction ts arbitrary: sz)
  case (Cons t ts)
  define x where "x = row_size t * rows t"
  define y where "y = sum_list (map (\<lambda>t. row_size t * rows t) ts)"
  have p: "uint sz + (int x + int y) < 4294967296" using Cons.prems by (simp add: x_def y_def)
  then have "int x < 4294967296" using uint_ge_0 [of sz] by linarith
  then have "x < 2 ^ 32" by simp
  then have w: "uint (of_nat x :: guint32) = int x" by (rule uint_of_nat_small)
  have s: "uint (sz + of_nat x) = uint sz + int x" using w p by (simp add: uint_plus_if')
  then have "\<not> sz + of_nat x < sz" by (simp add: word_less_def)
  moreover have "table_space ts (sz + of_nat x) = sz + of_nat x + of_nat y"
    unfolding y_def by (rule Cons.IH) (use s p in \<open>simp add: y_def\<close>)
  moreover have "of_nat (row_size t) * of_nat (rows t) = (of_nat x :: guint32)" by (simp add: x_def)
  ultimately show ?case by (simp add: Let_def add.assoc flip: x_def y_def)
qed simp

lemma minimal_loads:
  obtains im where "load_tables minimal_image = Inr im" "meta_ok im" "generic_tables_modest (dimensions_of im)"
    "im = minimal_image\<lparr>idx_string_wide := idx_string_wide im, idx_guid_wide := idx_guid_wide im, idx_blob_wide := idx_blob_wide im,
       tables := tables im, tables_base := tables_base im\<rparr>"
    "length (tables im) = 45" "43 \<le> tables_base im" "tables_base im \<le> 51"
    "\<And>t. t < 45 \<Longrightarrow> table_rows im t = length (minimal_db t)"
    "\<And>t. t < 45 \<Longrightarrow> minimal_db t \<noteq> [] \<Longrightarrow> row_size (tables im ! t) = sum_list (widths (narrow minimal_db) t)"
    "\<And>t k. t < 45 \<Longrightarrow> minimal_db t \<noteq> [] \<Longrightarrow> k < length (schemas ! t) \<Longrightarrow> cell im t k 0 = word_of_int (minimal_db t ! 0 ! k)"
proof -
  have im: "raw_data minimal_image = ([0, 0x61, 0] @ replicate 16 0) @ tables_stream (narrow minimal_db) 0 minimal_db @ []"
    "heap_data (heap_tables minimal_image) = Some (int (length ([0, 0x61, 0] @ replicate 16 (0 :: guint8))))"
    "length (tables minimal_image) = 45" "\<forall>t < 45. base (tables minimal_image ! t) = None"
    by (simp_all add: minimal_image_def image_with_def)
  from stream_loads [OF im minimal_ok] obtain m where m: "load_tables minimal_image = Inr m" "meta_ok m"
      "generic_tables_modest (dimensions_of m)" "inside (raw_data m) (tables_base m) (bytes_before (narrow minimal_db) 45)"
    and t: "\<And>t. t < 45 \<Longrightarrow> table_rows m t = length (minimal_db t) \<and>
       (minimal_db t \<noteq> [] \<longrightarrow> row_size (tables m ! t) = sum_list (widths (narrow minimal_db) t)) \<and>
       (\<forall>i < length (minimal_db t). \<forall>k < length (schemas ! t). cell m t k i = word_of_int (minimal_db t ! i ! k))"
    by blast
  obtain s g b us v ht where e: "m = minimal_image\<lparr>idx_string_wide := s, idx_guid_wide := g, idx_blob_wide := b, tables := us, tables_base := ht + 24 + 4 * int v\<rparr>"
    and l: "length us = 45" and ht: "heap_data (heap_tables minimal_image) = Some ht"
    by (rule load_tables_placed [OF m(1) im(3,4) m(3)])
  have "raw_data m = raw_data minimal_image" by (simp add: e)
  then have "length (raw_data m) = 75" by (simp add: minimal_image_def minimal_length)
  then have b: "43 \<le> tables_base m" "tables_base m \<le> 51"
    using m(4) ht by (simp_all add: inside_def minimal_bytes) (simp_all add: e minimal_image_def)
  show ?thesis
    by (rule that [of m]) (use m t b l in \<open>simp_all add: e\<close>)
qed

lemma for_rows_none [simp]: "table_rows (ctx_image ctx) t = 0 \<Longrightarrow> for_rows ctx t n body s = Inr (Some s)"
  by (simp add: for_rows_def)

lemma for_each_row_none [simp]: "table_rows (ctx_image ctx) t = 0 \<Longrightarrow> for_each_row ctx t n body = Inr (Some ())"
  by (simp add: for_each_row_def)

lemma minimal_space:
  assumes "length (tables im) = 45" "\<And>t. t < 45 \<Longrightarrow> table_rows im t = length (minimal_db t)"
    "\<And>t. t < 45 \<Longrightarrow> minimal_db t \<noteq> [] \<Longrightarrow> row_size (tables im ! t) = sum_list (widths (narrow minimal_db) t)"
  shows "table_space (take 0x2D (tables im)) 0 = 24"
proof -
  have "map (\<lambda>t. row_size t * rows t) (tables im) = map (\<lambda>t. if t = 0 then 10 else if t = 2 then 14 else 0) [0..<45]"
  proof (rule nth_equalityI)
    fix t assume "t < length (map (\<lambda>t. row_size t * rows t) (tables im))"
    then have t: "t < 45" using assms(1) by simp
    have r: "rows (tables im ! t) = length (minimal_db t)" using assms(2) [OF t] by (simp add: table_rows_def)
    show "map (\<lambda>t. row_size t * rows t) (tables im) ! t = map (\<lambda>t. if t = 0 then 10 else if t = 2 then 14 else 0) [0..<45] ! t"
      using r assms(1) assms(3) [OF t] t minimal_widths by (auto simp: minimal_db_def)
  qed (use assms(1) in simp)
  then have "sum_list (map (\<lambda>t. row_size t * rows t) (tables im)) = 24" by (simp add: upt_rec)
  then show ?thesis using table_space_exact [of 0 "tables im"] assms(1) by simp
qed

lemma minimal_data: "raw_data minimal_image = [0, 0x61, 0] @ replicate 16 0 @ tables_stream (narrow minimal_db) 0 minimal_db"
  by (simp add: minimal_image_def)

lemma minimal_strings:
  assumes "ctx_data ctx = raw_data minimal_image" "heap_strings (ctx_image ctx) = heap_strings minimal_image"
  shows "is_valid_non_empty_string ctx 1 = Inr True"
proof -
  have r: "read8 (raw_data minimal_image) 1 = Inr 0x61" "read8 (raw_data minimal_image) 2 = Inr 0"
    by (simp_all add: read8_def minimal_data)
  have h: "heap_strings minimal_image = \<lparr>heap_data = Some 0, heap_size = 3\<rparr>" by (simp add: minimal_image_def)
  show ?thesis
    by (simp add: is_valid_non_empty_string_def is_valid_string_full_def assms h stream_size_def stream_offset_def
        mono_utf8_validate_and_len_with_bounds_def validate_loop.simps r trailingBytesForUTF8_def char_ok_def Let_def word_le_nat_alt)
qed


lemma minimal_heap: "heap_strings minimal_image = \<lparr>heap_data = Some 0, heap_size = 3\<rparr>"
  by (simp add: minimal_image_def)

lemma minimal_strlen: "strlen_at (raw_data minimal_image) 1 = Inr 1" "strlen_at (raw_data minimal_image) 0 = Inr 0"
proof -
  have "strlen_at (raw_data minimal_image) 2 = Inr 0" by (subst strlen_at.simps) (simp add: minimal_data)
  then show "strlen_at (raw_data minimal_image) 1 = Inr 1" by (subst strlen_at.simps) (simp add: minimal_data)
  show "strlen_at (raw_data minimal_image) 0 = Inr 0" by (subst strlen_at.simps) (simp add: minimal_data)
qed

lemma minimal_verified:
  assumes im: "meta_ok im" "length (tables im) = 45" "43 \<le> tables_base im" "tables_base im \<le> 51"
    and e: "im = minimal_image\<lparr>idx_string_wide := idx_string_wide im, idx_guid_wide := idx_guid_wide im, idx_blob_wide := idx_blob_wide im,
       tables := tables im, tables_base := tables_base im\<rparr>"
    and r: "\<And>t. t < 45 \<Longrightarrow> table_rows im t = length (minimal_db t)"
    and z: "\<And>t. t < 45 \<Longrightarrow> minimal_db t \<noteq> [] \<Longrightarrow> row_size (tables im ! t) = sum_list (widths (narrow minimal_db) t)"
    and c: "\<And>t k. t < 45 \<Longrightarrow> minimal_db t \<noteq> [] \<Longrightarrow> k < length (schemas ! t) \<Longrightarrow> cell im t k 0 = word_of_int (minimal_db t ! 0 ! k)"
  shows "verify_tables_data depth (init_verify_context im iinfo STAGE_TABLES) = Inr (Some ())"
proof -
  define ctx where "ctx = init_verify_context im iinfo STAGE_TABLES"
  have ci: "ctx_image ctx = im" "ctx_data ctx = raw_data im" by (simp_all add: ctx_def init_verify_context_def)
  have h: "heap_strings im = heap_strings minimal_image" "heap_guid im = heap_guid minimal_image" "heap_tables im = heap_tables minimal_image"
    "raw_data im = raw_data minimal_image" by (subst e, simp)+
  have none: "table_rows im t = 0" if "t < 45" "t \<noteq> 0" "t \<noteq> 2" for t
    using r [OF that(1)] that by (simp add: minimal_db_def)
  have one: "table_rows im 0 = 1" "table_rows im 2 = 1" using r by (simp_all add: minimal_db_def)
  have cells: "map (\<lambda>k. cell im 0 k 0) [0..<5] = [0, 1, 1, 0, 0]" "map (\<lambda>k. cell im 2 k 0) [0..<6] = [0, 1, 0, 0, 1, 1]"
    using c [of 0] c [of 2] by (simp_all add: minimal_db_def schemas_def upt_rec)
  have d0: "mono_metadata_decode_row (ctx_data ctx) (tables (ctx_image ctx) ! 0) 0 5 = Inr [0, 1, 1, 0, 0]"
    using row_decoded [OF im(1), of 0 0 5] one cells(1) by (simp add: ci schemas_def)
  have d2: "mono_metadata_decode_row (ctx_data ctx) (tables (ctx_image ctx) ! 2) 0 6 = Inr [0, 1, 0, 0, 1, 1]"
    using row_decoded [OF im(1), of 2 0 6] one cells(2) by (simp add: ci schemas_def)
  have st: "is_valid_non_empty_string ctx 1 = Inr True" by (rule minimal_strings) (simp_all add: ci h)
  have space: "table_space (take 0x2D (tables (ctx_image ctx))) 0 = 24" unfolding ci by (rule minimal_space [OF im(2) r z])
  have module: "verify_module_table ctx = Inr (Some ())"
    using d0 st one by (simp add: verify_module_table_def ci is_valid_guid_def h minimal_image_def stream_size_def refuse_when_def must_def word_le_nat_alt)
  have td: "verify_typedef_table ctx = Inr (Some ())"
    using d2 st one none by (simp add: verify_typedef_table_def for_rows_def verify_typedef_row_def unless_def given_def nested_visibility_def
        refuse_when_def must_def Let_def ci)
  have bounds: "bounds_check_offset \<lparr>off_offset = 19, off_size = 56\<rparr> (of_int (tables_base im)) 24"
  proof -
    have u: "uint (of_int (tables_base im) :: guint32) = tables_base im" using im(3,4) by (simp add: uint_word_of_int)
    then have "uint (of_int (tables_base im) + 24 :: guint32) = tables_base im + 24" using im(3,4) by (simp add: uint_plus_if')
    then show ?thesis using u im(3,4) by (simp add: bounds_check_offset_def word_le_def word_less_def)
  qed
  have others: "verify_typeref_table ctx = Inr (Some ())" "verify_field_table ctx = Inr (Some ())" "verify_method_table ctx = Inr (Some ())" 
    "verify_param_table ctx = Inr (Some ())" "verify_interfaceimpl_table ctx = Inr (Some ())" "verify_memberref_table ctx = Inr (Some ())" 
    "verify_constant_table ctx = Inr (Some ())" "verify_cattr_table ctx = Inr (Some ())" "verify_field_marshal_table ctx = Inr (Some ())" 
    "verify_decl_security_table ctx = Inr (Some ())" "verify_class_layout_table ctx = Inr (Some ())" "verify_field_layout_table ctx = Inr (Some ())" 
    "verify_standalonesig_table ctx = Inr (Some ())" "verify_eventmap_table ctx = Inr (Some ())" "verify_event_table ctx = Inr (Some ())" 
    "verify_propertymap_table ctx = Inr (Some ())" "verify_property_table depth ctx = Inr (Some ())" "verify_methodimpl_table ctx = Inr (Some ())" 
    "verify_moduleref_table ctx = Inr (Some ())" "verify_typespec_table ctx = Inr (Some ())" "verify_implmap_table ctx = Inr (Some ())" 
    "verify_fieldrva_table ctx = Inr (Some ())" "verify_assembly_table ctx = Inr (Some ())" "verify_assemblyref_table ctx = Inr (Some ())" 
    "verify_file_table ctx = Inr (Some ())" "verify_exportedtype_table ctx = Inr (Some ())" "verify_manifest_resource_table ctx = Inr (Some ())" 
    "verify_nested_class_table ctx = Inr (Some ())" "verify_generic_param_table ctx = Inr (Some ())" "verify_method_spec_table ctx = Inr (Some ())" 
    "verify_generic_param_constraint_table ctx = Inr (Some ())"
    by (simp_all add: none module_list_def ci one refuse_when_def Let_def bindc_def
      verify_typeref_table_def verify_field_table_def verify_method_table_def verify_param_table_def
      verify_interfaceimpl_table_def verify_memberref_table_def verify_constant_table_def verify_cattr_table_def
      verify_field_marshal_table_def verify_decl_security_table_def verify_class_layout_table_def
      verify_field_layout_table_def verify_standalonesig_table_def verify_eventmap_table_def verify_event_table_def
      verify_propertymap_table_def verify_property_table_def verify_methodimpl_table_def verify_moduleref_table_def
      verify_typespec_table_def verify_implmap_table_def verify_fieldrva_table_def verify_assembly_table_def
      verify_assemblyref_table_def verify_file_table_def verify_exportedtype_table_def
      verify_manifest_resource_table_def verify_nested_class_table_def verify_generic_param_table_def
      verify_method_spec_table_def verify_generic_param_constraint_table_def)
  have heap: "heap_string ctx 1 = Inr [0x61]" "heap_string ctx 0 = Inr []"
    using minimal_strlen by (simp_all add: heap_string_def cstring_at_def mono_metadata_string_heap_def heap_ptr_def memcpy_from_def
        ci h minimal_heap minimal_data)
  have unique: "verify_typedef_table_global_constraints ctx = Inr (Some ())"
    using d2 one heap by (simp add: verify_typedef_table_global_constraints_def for_rows_def typedef_scope_def insert_unique_def
        nested_visibility_def Let_def ci)
  show ?thesis unfolding ctx_def [symmetric] verify_tables_data_def Let_def space
    using bounds by (simp add: ci h minimal_image_def stream_offset_def stream_size_def module td others unique)
qed


theorem verified_tables_sound_witness:
  "\<exists>im. load_tables minimal_image = Inr im \<and> mono_verifier_verify_table_data True 0 im no_info = Inr (Some ()) \<and>
    members_ascend im MONO_TYPEDEF_METHOD_LIST MONO_TABLE_METHOD"
proof -
  obtain im where im: "load_tables minimal_image = Inr im" "meta_ok im" "generic_tables_modest (dimensions_of im)"
    "im = minimal_image\<lparr>idx_string_wide := idx_string_wide im, idx_guid_wide := idx_guid_wide im, idx_blob_wide := idx_blob_wide im,
       tables := tables im, tables_base := tables_base im\<rparr>"
    "length (tables im) = 45" "43 \<le> tables_base im" "tables_base im \<le> 51"
    and r: "\<And>t. t < 45 \<Longrightarrow> table_rows im t = length (minimal_db t)"
    "\<And>t. t < 45 \<Longrightarrow> minimal_db t \<noteq> [] \<Longrightarrow> row_size (tables im ! t) = sum_list (widths (narrow minimal_db) t)"
    "\<And>t k. t < 45 \<Longrightarrow> minimal_db t \<noteq> [] \<Longrightarrow> k < length (schemas ! t) \<Longrightarrow> cell im t k 0 = word_of_int (minimal_db t ! 0 ! k)"
    by (rule minimal_loads) blast
  have v: "mono_verifier_verify_table_data True 0 im no_info = Inr (Some ())"
    using minimal_verified [OF im(2,5,6,7,4) r] by (simp add: mono_verifier_verify_table_data_def)
  have "length (tables minimal_image) = 45" "\<forall>t < 45. base (tables minimal_image ! t) = None"
    by (simp_all add: minimal_image_def image_with_def)
  moreover have "tables_heap_inside minimal_image"
    by (simp add: tables_heap_inside_def minimal_image_def minimal_length inside_def)
  ultimately show ?thesis using verified_tables_sound [OF im(1) _ _ im(3) _ v] im(1) v by blast
qed

end
