(* ===== verification/Ver_Sigs_Spec.thy ===== *)
theory Ver_Sigs_Spec
  imports Ver_Sigs Ver_Header_Spec Meta_Numbers
begin

text \<open>
  The signature parsers never leave the blob, and the calls of \<open>parse_type\<close> nest at most as deep as the
  signature is long, a bound that is reached.
\<close>

section \<open>Compressed integers\<close>

text \<open>
  The bounded decoder of the verifier is the decoder of the loader.  When \<open>available\<close> bytes lie
  inside the image, \<open>decode_value\<close> never reads outside them, returns the value and size of
  \<open>mono_metadata_decode_value\<close> when the encoding fits into \<open>available\<close> bytes, and refuses it otherwise.
\<close>

theorem decode_value_checked:
  assumes "inside m p (unat available)"
  shows "decode_value m p available =
    (case mono_metadata_decode_value m p of Inl e \<Rightarrow> Inr None
     | Inr (v, q) \<Rightarrow> Inr (if q - p \<le> uint available then Some (v, of_int (q - p)) else None))"
proof (cases "available = 0")
  case True
  then show ?thesis by (auto simp: decode_value_def mono_metadata_decode_value_def read8_def Let_def split: sum.splits)
next
  case False
  then have a: "1 \<le> uint available" using uint_ge_0 [of available] uint_0_iff [of available] by linarith
  have b: "int (unat available) = uint available" by simp
  have r: "read8 m (p + k) = Inr (m ! nat (p + k))" if "0 \<le> k" "k < uint available" for k
    using that assms b by (auto simp: inside_def read8_def)
  have r0: "read8 m p = Inr (m ! nat p)" using r [of 0] a by simp
  define c where "c = m ! nat p"
  consider "c AND 0x80 = 0" | "c AND 0x80 \<noteq> 0" "c AND 0x40 = 0" | "c AND 0x80 \<noteq> 0" "c AND 0x40 \<noteq> 0" by blast
  then show ?thesis
  proof cases
    case 1
    then show ?thesis using False a by (simp add: decode_value_def mono_metadata_decode_value_def r0 c_def [symmetric])
  next
    case 2
    show ?thesis
    proof (cases "available < 2")
      case True
      then have "uint available < 2" by (simp add: word_less_def)
      with 2 True False show ?thesis
        by (auto simp: decode_value_def mono_metadata_decode_value_def r0 c_def [symmetric] split: sum.splits)
    next
      case F: False
      then have "2 \<le> uint available" by (simp add: word_less_def)
      with 2 F False show ?thesis
        by (simp add: decode_value_def mono_metadata_decode_value_def r0 r [of 1] c_def [symmetric])
    qed
  next
    case 3
    show ?thesis
    proof (cases "available < 4")
      case True
      then have "uint available < 4" by (simp add: word_less_def)
      with 3 True False show ?thesis
        by (auto simp: decode_value_def mono_metadata_decode_value_def r0 c_def [symmetric] split: sum.splits)
    next
      case F: False
      then have "4 \<le> uint available" by (simp add: word_less_def)
      with 3 F False show ?thesis
        by (simp add: decode_value_def mono_metadata_decode_value_def r0 r [of 1] r [of 2] r [of 3] c_def [symmetric])
    qed
  qed
qed

lemma decode_value_ok:
  assumes "0 \<le> p" "p + uint a \<le> int (length m)"
  shows "is_ok (decode_value m p a)"
proof -
  have "inside m p (unat a)" using assms by (simp add: inside_def)
  from decode_value_checked [OF this] show ?thesis by (simp split: sum.splits prod.splits)
qed

section \<open>Parsers that stay inside the blob\<close>

text \<open>A computation that does not fail and whose result, if it is not refused, has a property.\<close>

definition within :: "('a \<Rightarrow> bool) \<Rightarrow> 'a option res \<Rightarrow> bool" where
  "within P r \<longleftrightarrow> is_ok r \<and> (\<forall>x. r = Inr (Some x) \<longrightarrow> P x)"

lemma within_Some [simp]: "within P (Inr (Some x)) \<longleftrightarrow> P x"
  and within_None [simp]: "within P (Inr None)"
  by (simp_all add: within_def)

lemma within_bindc: "within P r \<Longrightarrow> (\<And>x. P x \<Longrightarrow> within Q (f x)) \<Longrightarrow> within Q (bindc r f)"
  by (cases r) (auto simp: within_def bindc_def split: option.splits)

lemma within_bindr: "is_ok r \<Longrightarrow> (\<And>x. r = Inr x \<Longrightarrow> within Q (f x)) \<Longrightarrow> within Q (bindr r f)"
  by (cases r) auto

lemma within_refuse_if: "(\<not> b \<Longrightarrow> within Q r) \<Longrightarrow> within Q (refuse_if b r)"
  by (simp add: refuse_if_def)

lemma within_weaken: "within P r \<Longrightarrow> (\<And>x. P x \<Longrightarrow> Q x) \<Longrightarrow> within Q r"
  by (simp add: within_def)

lemma within_ok: "within P r \<Longrightarrow> is_ok r"
  by (simp add: within_def)

text \<open>The end of a signature in the image.\<close>

definition ends_in :: "guint8 list \<Rightarrow> int \<Rightarrow> bool" where
  "ends_in m end \<longleftrightarrow> end \<le> int (length m) \<and> length m < 2 ^ 32"

lemma within_safe_read8:
  assumes "ends_in m end" "0 \<le> p"
  shows "within (\<lambda>x. snd x = p + 1 \<and> p + 1 \<le> end) (safe_read8 m p end)"
  unfolding safe_read8_def using assms
  by (intro within_refuse_if within_bindr ok_reads) (auto simp: ends_in_def)

lemma within_safe_read16:
  assumes "ends_in m end" "0 \<le> p"
  shows "within (\<lambda>x. snd x = p + 2 \<and> p + 2 \<le> end) (safe_read16 m p end)"
  unfolding safe_read16_def using assms
  by (intro within_refuse_if within_bindr ok_reads) (auto simp: ends_in_def)

lemma left_uint: "ends_in m end \<Longrightarrow> 0 \<le> p \<Longrightarrow> p \<le> end \<Longrightarrow> uint (of_int (end - p) :: guint32) = end - p"
  by (simp add: ends_in_def unsigned_of_int take_bit_int_eq_self del: of_int_diff)

lemma within_decode_value:
  assumes "0 \<le> p" "p + uint a \<le> int (length m)"
  shows "within (\<lambda>x. 1 \<le> uint (snd x) \<and> uint (snd x) \<le> uint a) (decode_value m p a)"
  using decode_value_ok [OF assms] by (auto simp: within_def dest: decode_value_size)

lemma within_safe_read_cint:
  assumes "ends_in m end" "0 \<le> p" "p \<le> end"
  shows "within (\<lambda>x. p < snd x \<and> snd x \<le> end) (safe_read_cint m p end)"
proof -
  have "p + uint (of_int (end - p) :: guint32) \<le> int (length m)"
    unfolding left_uint [OF assms] using assms(1) by (simp add: ends_in_def)
  from within_decode_value [OF assms(2) this] show ?thesis
    unfolding safe_read_cint_def left_uint [OF assms] by (rule within_bindc) (auto split: prod.splits)
qed

lemma within_custom_mods:
  assumes "ends_in (ctx_data ctx) end" "0 \<le> p" "p \<le> end"
  shows "within (\<lambda>q. p \<le> q \<and> q < end) (parse_custom_mods ctx end p)"
  using assms
proof (induction ctx "end" p rule: parse_custom_mods.induct)
  case (1 ctx "end" p)
  note IH = this(1) and e = this(2-4)
  show ?case
  proof (cases "safe_read8 (ctx_data ctx) p end")
    case (Inr o')
    show ?thesis
    proof (cases o')
      case (Some x)
      then obtain ty q where r: "safe_read8 (ctx_data ctx) p end = Inr (Some (ty, q))" using Inr by (cases x) auto
      have q: "0 \<le> q" "p < q" "q \<le> end" using safe_read8_next [OF r] e by auto
      show ?thesis
      proof (cases "ty \<noteq> MONO_TYPE_CMOD_REQD \<and> ty \<noteq> MONO_TYPE_CMOD_OPT")
        case True
        then have "parse_custom_mods ctx end p = Inr (Some p)" by (subst parse_custom_mods.simps) (simp add: r)
        then show ?thesis using q safe_read8_next [OF r] by simp
      next
        case t: False
        have step: "parse_custom_mods ctx end p = bindc (safe_read_cint (ctx_data ctx) q end) (\<lambda>(token, q).
          refuse_if (\<not> is_valid_coded_index ctx TYPEDEF_OR_REF_DESC token) (parse_custom_mods ctx end q))"
          by (subst parse_custom_mods.simps) (simp only: r bindc_simps prod.case t if_False)
        have rec: "within (\<lambda>q'. q2 \<le> q' \<and> q' < end) (parse_custom_mods ctx end q2)"
          if "safe_read_cint (ctx_data ctx) q end = Inr (Some (token, q2))" "is_valid_coded_index ctx TYPEDEF_OR_REF_DESC token"
            "q < q2" "q2 \<le> end" for token q2
          using IH [OF r _ t that(1)] that q e(1) by auto
        show ?thesis unfolding step
        proof (rule within_bindc)
          show "within (\<lambda>x. q < snd x \<and> snd x \<le> end \<and> safe_read_cint (ctx_data ctx) q end = Inr (Some x)) (safe_read_cint (ctx_data ctx) q end)"
            using within_safe_read_cint [OF e(1) q(1,3)] by (simp add: within_def)
        qed (use q in \<open>auto intro!: within_refuse_if within_weaken [OF rec]\<close>)
      qed
    qed (subst parse_custom_mods.simps, simp add: Inr)
  qed (use within_ok [OF within_safe_read8 [OF e(1,2)]] in simp)
qed

section \<open>The parsers\<close>

text \<open>
  A parser that, on the last \<open>n\<close> bytes before \<open>end\<close>, does not fail and moves forward by at least one
  byte, not past \<open>end\<close>.
\<close>

definition moves :: "int \<Rightarrow> (int \<Rightarrow> int option res) \<Rightarrow> nat \<Rightarrow> bool" where
  "moves end f n \<longleftrightarrow> (\<forall>p. 0 \<le> p \<longrightarrow> p \<le> end \<longrightarrow> end - p < int n \<longrightarrow> within (\<lambda>q. p < q \<and> q \<le> end) (f p))"

lemma movesD: "moves end f n \<Longrightarrow> 0 \<le> p \<Longrightarrow> p \<le> end \<Longrightarrow> end - p < int n \<Longrightarrow> within (\<lambda>q. p < q \<and> q \<le> end) (f p)"
  unfolding moves_def by blast

lemma moves_parse_n:
  assumes "moves end f n" "0 \<le> p" "p \<le> end" "end - p < int n"
  shows "within (\<lambda>q. p \<le> q \<and> q \<le> end) (parse_n f k p)"
  using assms(2-)
proof (induction k arbitrary: p)
  case (Suc k)
  show ?case
    unfolding parse_n.simps
  proof (rule within_bindc [OF movesD [OF assms(1) Suc.prems]])
    fix q assume "p < q \<and> q \<le> end"
    with Suc.prems show "within (\<lambda>q'. p \<le> q' \<and> q' \<le> end) (parse_n f k q)"
      by (intro within_weaken [OF Suc.IH]) auto
  qed
qed simp

lemma moves_cint:
  assumes "ends_in m end"
  shows "moves end (\<lambda>p. bindc (safe_read_cint m p end) (\<lambda>(num, p). Inr (Some p))) n"
  unfolding moves_def using within_safe_read_cint [OF assms]
  by (auto intro!: within_bindc split: prod.splits)

text \<open>One step of a parser, and what is left to show behind it.\<close>

lemma within_read8: "ends_in m end \<Longrightarrow> 0 \<le> p \<Longrightarrow> (\<And>v. p + 1 \<le> end \<Longrightarrow> within Q (f (v, p + 1))) \<Longrightarrow>
    within Q (bindc (safe_read8 m p end) f)"
  by (rule within_bindc [OF within_safe_read8]) auto

lemma within_read16: "ends_in m end \<Longrightarrow> 0 \<le> p \<Longrightarrow> (\<And>v. p + 2 \<le> end \<Longrightarrow> within Q (f (v, p + 2))) \<Longrightarrow>
    within Q (bindc (safe_read16 m p end) f)"
  by (rule within_bindc [OF within_safe_read16]) auto

lemma within_cint: "ends_in m end \<Longrightarrow> 0 \<le> p \<Longrightarrow> p \<le> end \<Longrightarrow> (\<And>v q. p < q \<Longrightarrow> q \<le> end \<Longrightarrow> within Q (f (v, q))) \<Longrightarrow>
    within Q (bindc (safe_read_cint m p end) f)"
  by (rule within_bindc [OF within_safe_read_cint]) auto

lemma within_mods: "ends_in (ctx_data ctx) end \<Longrightarrow> 0 \<le> p \<Longrightarrow> p \<le> end \<Longrightarrow> (\<And>q. p \<le> q \<Longrightarrow> q < end \<Longrightarrow> within Q (f q)) \<Longrightarrow>
    within Q (bindc (parse_custom_mods ctx end p) f)"
  by (rule within_bindc [OF within_custom_mods]) auto

lemma within_moves: "moves end g n \<Longrightarrow> 0 \<le> p \<Longrightarrow> p \<le> end \<Longrightarrow> end - p < int n \<Longrightarrow>
    (\<And>q. p < q \<Longrightarrow> q \<le> end \<Longrightarrow> within Q (f q)) \<Longrightarrow> within Q (bindc (g p) f)"
  by (rule within_bindc [OF movesD]) auto

lemma within_parse_n: "moves end g n \<Longrightarrow> 0 \<le> p \<Longrightarrow> p \<le> end \<Longrightarrow> end - p < int n \<Longrightarrow>
    (\<And>q. p \<le> q \<Longrightarrow> q \<le> end \<Longrightarrow> within Q (f q)) \<Longrightarrow> within Q (bindc (parse_n g k p) f)"
  by (rule within_bindc [OF moves_parse_n]) auto

lemma moves_last: "moves end g n \<Longrightarrow> 0 \<le> p \<Longrightarrow> p \<le> end \<Longrightarrow> end - p < int n \<Longrightarrow> (\<And>q. p < q \<Longrightarrow> q \<le> end \<Longrightarrow> Q q) \<Longrightarrow> within Q (g p)"
  by (rule within_weaken [OF movesD]) auto

lemma parse_n_last: "moves end g n \<Longrightarrow> 0 \<le> p \<Longrightarrow> p \<le> end \<Longrightarrow> end - p < int n \<Longrightarrow> (\<And>q. p \<le> q \<Longrightarrow> q \<le> end \<Longrightarrow> Q q) \<Longrightarrow>
    within Q (parse_n g k p)"
  by (rule within_weaken [OF moves_parse_n]) auto

lemmas within_steps = within_read8 within_read16 within_cint within_mods within_refuse_if

lemma array_shape_inside:
  assumes "ends_in (ctx_data ctx) end" "0 \<le> p" "p \<le> end"
  shows "within (\<lambda>q. p < q \<and> q \<le> end) (parse_array_shape ctx end p)"
proof -
  note n = moves_cint [OF assms(1), of "nat (end - p) + 1"]
  show ?thesis unfolding parse_array_shape_def Let_def using assms
    by (auto intro!: within_steps within_parse_n [OF n] parse_n_last [OF n])
qed

lemma coded_table_ok: "is_ok (get_coded_index_table TYPEDEF_OR_REF_DESC token)"
proof -
  have "unat (token AND mask 2) < 4" using and_mask_less_size [of 2 token] by (simp add: word_less_nat_alt word_size)
  then show ?thesis by (simp add: get_coded_index_table_def coded_index_desc_def Let_def)
qed

lemma refers_to_itself_ok: "is_ok (refers_to_itself ctx token)"
  using coded_table_ok [of token] by (auto simp: refers_to_itself_def intro!: is_ok_bindr)

lemma generic_inst_inside:
  assumes "ends_in (ctx_data ctx) end" "moves end f n" "0 \<le> p" "p \<le> end" "end - p < int n"
  shows "within (\<lambda>q. p < q \<and> q \<le> end) (parse_generic_inst f ctx end p)"
  unfolding parse_generic_inst_def Let_def using assms
  by (auto intro!: within_steps within_bindr refers_to_itself_ok parse_n_last [OF assms(2)])

lemma return_type_inside:
  assumes "ends_in (ctx_data ctx) end" "moves end f n" "0 \<le> p" "p \<le> end" "end - p < int n"
  shows "within (\<lambda>q. p < q \<and> q \<le> end) (parse_return_type f ctx end p)"
  unfolding parse_return_type_def using assms
  by (auto intro!: within_steps moves_last [OF assms(2)])

lemma param_inside:
  assumes "ends_in (ctx_data ctx) end" "moves end f n"
  shows "moves end (parse_param f ctx end) n"
  unfolding moves_def parse_param_def using assms
  by (auto intro!: within_steps moves_last [OF assms(2)])

lemma params_loop_inside:
  assumes "ends_in (ctx_data ctx) end" "moves end f n" "0 \<le> p" "p \<le> end" "end - p < int n"
  shows "within (\<lambda>q. p \<le> q \<and> q \<le> end) (params_loop f ctx end allow_sentinel cconv saw k p)"
  using assms(3-)
proof (induction k arbitrary: p saw)
  case (Suc k)
  have mark: "within (\<lambda>x. p \<le> snd x \<and> snd x \<le> end)
    (if allow_sentinel
           then bindc (safe_read8 (ctx_data ctx) p end) (\<lambda>(ty, q).
             if ty = MONO_TYPE_SENTINEL
             then refuse_if (cconv AND 0x0F \<noteq> MONO_CALL_VARARG \<or> saw) (Inr (Some (True, q)))
             else Inr (Some (saw, p)))
           else Inr (Some (saw, p)))"
    using Suc.prems assms(1) by (auto intro!: within_steps)
  show ?case
    unfolding params_loop.simps
  proof (rule within_bindc [OF mark], clarify)
    fix saw' :: bool and q assume q: "p \<le> snd (saw', q)" "snd (saw', q) \<le> end"
    show "within (\<lambda>q. p \<le> q \<and> q \<le> end)
      (bindc (parse_param f ctx end q) (\<lambda>q. params_loop f ctx end allow_sentinel cconv saw' k q))"
    proof (rule within_moves [OF param_inside [OF assms(1,2)]])
      fix r assume "q < r" "r \<le> end"
      with q Suc.prems show "within (\<lambda>q. p \<le> q \<and> q \<le> end) (params_loop f ctx end allow_sentinel cconv saw' k r)"
        by (intro within_weaken [OF Suc.IH]) auto
    qed (use q Suc.prems in auto)
  qed
qed simp

lemma method_signature_inside:
  assumes "ends_in (ctx_data ctx) end" "moves end f n" "0 \<le> p" "p \<le> end" "end - p < int n"
  shows "within (\<lambda>q. p < q \<and> q \<le> end) (parse_method_signature f ctx end allow_sentinel allow_unmanaged p)"
proof -
  have rest: "within (\<lambda>q. p < q \<and> q \<le> end) (bindc (safe_read_cint (ctx_data ctx) p1 end) (\<lambda>(param_count, ptr).
      bindc (parse_return_type f ctx end ptr) (\<lambda>ptr. params_loop f ctx end allow_sentinel cconv False (unat param_count) ptr)))"
    if "p < p1" "p1 \<le> end" for p1 cconv
  proof (rule within_cint [OF assms(1)])
    fix v q assume q: "p1 < q" "q \<le> end"
    show "within (\<lambda>q. p < q \<and> q \<le> end) (case (v, q) of (param_count, ptr) \<Rightarrow>
      bindc (parse_return_type f ctx end ptr) (\<lambda>ptr. params_loop f ctx end allow_sentinel cconv False (unat param_count) ptr))"
      unfolding prod.case
    proof (rule within_bindc [OF return_type_inside [OF assms(1,2)]])
      fix r assume "q < r \<and> r \<le> end"
      with q that assms show "within (\<lambda>q. p < q \<and> q \<le> end) (params_loop f ctx end allow_sentinel cconv False (unat v) r)"
        by (intro within_weaken [OF params_loop_inside [OF assms(1,2)]]) auto
    qed (use q that assms in auto)
  qed (use that assms in auto)
  have count: "within (\<lambda>x. p < snd x \<and> snd x \<le> end)
      (if b then safe_read_cint (ctx_data ctx) (p + 1) end else Inr (Some (0, p + 1)))" if "p + 1 \<le> end" for b
    using that assms within_safe_read_cint [OF assms(1), of "p + 1"] by (auto intro: within_weaken)
  show ?thesis unfolding parse_method_signature_def Let_def using assms
    by (auto intro!: within_steps within_bindc [OF count] rest simp del: bindc_eq_Some)
qed

lemma parse_type_moves:
  assumes "ends_in (ctx_data ctx) end"
  shows "moves end (parse_type depth ctx end) depth"
proof (induction depth)
  case (Suc depth)
  show ?case
    unfolding moves_def
  proof (intro allI impI)
    fix p assume p: "0 \<le> p" "p \<le> end" "end - p < int (Suc depth)"
    let ?Q = "\<lambda>q. p < q \<and> q \<le> end"
    have rec: "within ?Q (parse_type depth ctx end q)" if "p < q" "q \<le> end" for q
      using that p by (intro within_weaken [OF movesD [OF Suc]]) auto
    have array: "within ?Q (bindc (parse_type depth ctx end (p + 1)) (\<lambda>ptr. parse_array_shape ctx end ptr))" if "p + 1 \<le> end"
    proof (rule within_moves [OF Suc])
      fix q assume "p + 1 < q" "q \<le> end"
      with p show "within ?Q (parse_array_shape ctx end q)" by (intro within_weaken [OF array_shape_inside [OF assms]]) auto
    qed (use that p in auto)
    have gen: "within ?Q (parse_generic_inst (parse_type depth ctx end) ctx end (p + 1))"
      and fn: "within ?Q (parse_method_signature (parse_type depth ctx end) ctx end True True (p + 1))" if "p + 1 \<le> end"
      using that p by (auto intro!: within_weaken [OF generic_inst_inside [OF assms Suc]] within_weaken [OF method_signature_inside [OF assms Suc]])
    show "within ?Q (parse_type (Suc depth) ctx end p)"
      unfolding parse_type.simps Let_def
      by (rule within_read8 [OF assms p(1)], unfold prod.case, rule within_refuse_if)
        (use p in \<open>auto intro!: within_steps within_bindr refers_to_itself_ok rec array gen fn assms\<close>)
  qed
qed (simp add: moves_def)

section \<open>Whole signatures\<close>

lemma accepted_ok: "within P r \<Longrightarrow> is_ok (accepted r)"
  by (auto simp: accepted_def within_def intro!: is_ok_bindr)

text \<open>The blob heap lies inside the image.\<close>

definition blob_ok :: "VerifyContext \<Rightarrow> bool" where
  "blob_ok ctx \<longleftrightarrow> length (ctx_data ctx) < 2 ^ 32 \<and> heap_size (heap_blob (ctx_image ctx)) < 2 ^ 32 \<and>
    (\<exists>p. heap_data (heap_blob (ctx_image ctx)) = Some p \<and> inside (ctx_data ctx) p (heap_size (heap_blob (ctx_image ctx))))"

lemma low_bits_less: "(\<And>n. bit v n \<Longrightarrow> n < 29) \<Longrightarrow> uint (v :: guint32) < 2 ^ 29"
proof -
  assume "\<And>n. bit v n \<Longrightarrow> n < 29"
  then have "take_bit 29 v = v" by (intro bit_eqI) (auto simp: bit_simps)
  then have "uint v = take_bit 29 (uint v)" by (metis unsigned_take_bit_eq)
  then show ?thesis by (metis take_bit_int_less_exp)
qed

lemma decoded_less:
  assumes "decode_value m p a = Inr (Some (v, s))"
  shows "uint v < 2 ^ 29"
proof (rule low_bits_less)
  fix n assume n: "bit v n"
  have k: "bit b i \<Longrightarrow> i < 8" for b :: guint8 and i using bit_imp_le_length [of b i] by simp
  show "n < 29" using assms n
    by (auto simp: decode_value_def Let_def number_masks bits dest!: k split: if_splits)
qed

lemma encoding_size: "decode_value m p a = Inr (Some (v, n)) \<Longrightarrow> uint n \<le> 4"
  by (auto simp: decode_value_def Let_def split: if_splits)

text \<open>A signature that was found: its bytes lie in the heap.\<close>

lemma signature_header_within:
  assumes "blob_ok ctx"
  shows "within (\<lambda>x. 0 \<le> fst x \<and> fst x \<le> snd x \<and> ends_in (ctx_data ctx) (snd x) \<and>
    snd x - fst x < int (heap_size (heap_blob (ctx_image ctx)))) (decode_signature_header ctx offset)"
proof -
  let ?h = "heap_blob (ctx_image ctx)"
  obtain p where p: "heap_data ?h = Some p" "inside (ctx_data ctx) p (heap_size ?h)"
    and len: "length (ctx_data ctx) < 2 ^ 32" "heap_size ?h < 2 ^ 32" using assms by (auto simp: blob_ok_def)
  have sz: "uint (stream_size ?h) = int (heap_size ?h)" using len by (simp add: stream_size_def unsigned_of_nat take_bit_nat_eq_self)
  show ?thesis
    unfolding decode_signature_header_def Let_def p(1) option.case
  proof (rule within_refuse_if)
    assume "\<not> stream_size ?h \<le> offset"
    then have o': "uint offset < int (heap_size ?h)" using sz by (simp add: word_le_def)
    then have left: "uint (stream_size ?h - offset) = int (heap_size ?h) - uint offset" using sz by (subst uint_sub_small) auto
    let ?d = "decode_value (ctx_data ctx) (p + uint offset) (stream_size ?h - offset)"
    have ok: "is_ok ?d" using p(2) o' by (intro decode_value_ok) (auto simp: inside_def left)
    have d: "within (\<lambda>x. uint (fst x) < 2 ^ 29 \<and> 1 \<le> uint (snd x) \<and> uint (snd x) \<le> 4 \<and> uint offset + uint (snd x) \<le> int (heap_size ?h)) ?d"
      unfolding within_def
    proof (intro conjI ok allI impI)
      fix x assume x: "?d = Inr (Some x)"
      obtain v n where vn: "x = (v, n)" by (cases x)
      from decoded_less decode_value_size encoding_size x vn left
      have "uint v < 2 ^ 29 \<and> 1 \<le> uint n \<and> uint n \<le> 4 \<and> uint n \<le> int (heap_size ?h) - uint offset" by metis
      then show "uint (fst x) < 2 ^ 29" "1 \<le> uint (snd x)" "uint (snd x) \<le> 4" "uint offset + uint (snd x) \<le> int (heap_size ?h)" using vn by auto
    qed
    show "within (\<lambda>x. 0 \<le> fst x \<and> fst x \<le> snd x \<and> ends_in (ctx_data ctx) (snd x) \<and> snd x - fst x < int (heap_size ?h))
      (bindc ?d (\<lambda>(value, enc_size). refuse_if (offset + enc_size + value < offset)
        (refuse_if (stream_size ?h < offset + enc_size + value)
          (Inr (Some (p + uint offset + uint enc_size, p + uint offset + uint enc_size + sint value))))))"
    proof (rule within_bindc [OF d])
      fix x :: "guint32 \<times> guint32"
      assume x: "uint (fst x) < 2 ^ 29 \<and> 1 \<le> uint (snd x) \<and> uint (snd x) \<le> 4 \<and> uint offset + uint (snd x) \<le> int (heap_size ?h)"
      obtain v n where vn: "x = (v, n)" by (cases x)
      have v: "uint v < 2 ^ 29" "1 \<le> uint n" "uint n \<le> 4" "uint offset + uint n \<le> int (heap_size ?h)" using x vn by auto
      show "within (\<lambda>x. 0 \<le> fst x \<and> fst x \<le> snd x \<and> ends_in (ctx_data ctx) (snd x) \<and> snd x - fst x < int (heap_size ?h))
        (case x of (value, enc_size) \<Rightarrow> refuse_if (offset + enc_size + value < offset)
          (refuse_if (stream_size ?h < offset + enc_size + value)
            (Inr (Some (p + uint offset + uint enc_size, p + uint offset + uint enc_size + sint value)))))"
        unfolding vn prod.case
      proof (rule within_refuse_if, rule within_refuse_if)
      assume w: "\<not> offset + n + v < offset" "\<not> stream_size ?h < offset + n + v"
      have on: "uint (offset + n) = uint offset + uint n" using v len by (subst uint_add_small) auto
      have "uint (offset + n) + uint v < 2 ^ 32"
      proof (rule ccontr)
        assume c: "\<not> uint (offset + n) + uint v < 2 ^ 32"
        have "uint (offset + n + v) = uint (offset + n) + uint v - 2 ^ 32"
          using c by (simp add: uint_plus_if')
        then have "uint (offset + n + v) < uint offset" using on v by simp
        then show False using w(1) by (simp add: word_less_def)
      qed
      then have "uint (offset + n + v) = uint offset + uint n + uint v" by (simp add: uint_add_small on)
      then have e: "uint offset + uint n + uint v \<le> int (heap_size ?h)" using w(2) sz by (simp add: word_less_def)
      have "signed_take_bit 31 (uint v) = uint v"
        using v(1) uint_ge_0 [of v] by (intro signed_take_bit_int_eq_self; simp; linarith)
      then have "sint v = uint v" by (simp add: sint_uint)
      then have n: "p + uint offset + uint n + sint v - (p + uint offset + uint n) < int (heap_size ?h)"
        using e v(2) uint_ge_0 [of offset] by linarith
      have m: "0 \<le> p + uint offset + uint n" "p + uint offset + uint n + uint v \<le> int (length (ctx_data ctx))"
        using p(2) e uint_ge_0 [of offset] uint_ge_0 [of n] unfolding inside_def by linarith+
      show "within (\<lambda>x. 0 \<le> fst x \<and> fst x \<le> snd x \<and> ends_in (ctx_data ctx) (snd x) \<and> snd x - fst x < int (heap_size ?h))
        (Inr (Some (p + uint offset + uint n, p + uint offset + uint n + sint v)))"
        using n m len \<open>sint v = uint v\<close> unfolding within_Some fst_conv snd_conv ends_in_def by simp
      qed
    qed
  qed
qed

lemma field_inside:
  assumes "ends_in (ctx_data ctx) end" "0 \<le> p" "p \<le> end" "end - p < int depth"
  shows "is_ok (parse_field depth ctx end p)"
proof -
  note t = parse_type_moves [OF assms(1), of depth]
  have b: "within (\<lambda>q. True) (bindr (safe_read8 (ctx_data ctx) q end) (\<lambda>b. parse_type depth ctx end
      (case b of None \<Rightarrow> q | Some (ty, q') \<Rightarrow> if ty = MONO_TYPE_BYREF then q' else q)))" if "p \<le> q" "q < end" for q
    by (rule within_bindr [OF within_ok [OF within_safe_read8 [OF assms(1)]]])
      (use that assms in \<open>auto split: option.splits dest!: safe_read8_next intro!: moves_last [OF t]\<close>)
  show ?thesis
    unfolding parse_field_def Let_def using assms
    by (intro within_ok [where P = "\<lambda>q. True"]) (auto intro!: within_steps b)
qed

lemma local_mods_inside:
  assumes "ends_in (ctx_data ctx) end" "0 \<le> p" "p \<le> end"
  shows "within (\<lambda>x. p \<le> snd x \<and> snd x \<le> end) (local_mods ctx end sig p)"
  using assms
proof (induction ctx "end" sig p rule: local_mods.induct)
  case (1 ctx "end" sig p)
  note IH = this(1) and e = this(2-4)
  show ?case
  proof (cases "sig = MONO_TYPE_CMOD_REQD \<or> sig = MONO_TYPE_CMOD_OPT \<or> sig = MONO_TYPE_PINNED")
    case True
    let ?m = "if sig \<noteq> MONO_TYPE_PINNED then parse_custom_mods ctx end p else Inr (Some p)"
    have m: "within (\<lambda>q. p \<le> q \<and> q \<le> end \<and> ?m = Inr (Some q)) ?m"
      using within_custom_mods [OF e] e by (auto simp: within_def)
    have r: "within (\<lambda>x. snd x = q + 1 \<and> q + 1 \<le> end \<and> safe_read8 (ctx_data ctx) q end = Inr (Some x)) (safe_read8 (ctx_data ctx) q end)"
      if "p \<le> q" for q using within_safe_read8 [OF e(1), of q] that e by (auto simp: within_def dest: safe_read8_next)
    have "within (\<lambda>x. p \<le> snd x \<and> snd x \<le> end) (bindc ?m (\<lambda>ptr.
       bindc (safe_read8 (ctx_data ctx) ptr end) (\<lambda>(sig, ptr). local_mods ctx end sig ptr)))"
    proof (rule within_bindc [OF m])
      fix q assume q: "p \<le> q \<and> q \<le> end \<and> ?m = Inr (Some q)"
      show "within (\<lambda>x. p \<le> snd x \<and> snd x \<le> end)
        (bindc (safe_read8 (ctx_data ctx) q end) (\<lambda>(sig, ptr). local_mods ctx end sig ptr))"
      proof (rule within_bindc [OF r])
        fix x assume x: "snd x = q + 1 \<and> q + 1 \<le> end \<and> safe_read8 (ctx_data ctx) q end = Inr (Some x)"
        obtain s q' where xs: "x = (s, q')" by (cases x)
        have "within (\<lambda>x. q' \<le> snd x \<and> snd x \<le> end) (local_mods ctx end s q')"
          using IH [OF True, of q "(s, q')" s q'] q x xs e by auto
        then show "within (\<lambda>x. p \<le> snd x \<and> snd x \<le> end) (case x of (sig, ptr) \<Rightarrow> local_mods ctx end sig ptr)"
          unfolding xs prod.case by (rule within_weaken) (use q x xs in auto)
      qed (use q in simp)
    qed
    then show ?thesis using True by (subst local_mods.simps) simp
  qed (subst local_mods.simps, use e in simp)
qed

lemma local_inside:
  assumes "ends_in (ctx_data ctx) end"
  shows "moves end (parse_local depth ctx end) depth"
proof -
  note t = parse_type_moves [OF assms, of depth]
  show ?thesis unfolding moves_def
  proof (intro allI impI)
    fix p assume p: "0 \<le> p" "p \<le> end" "end - p < int depth"
    let ?byref = "\<lambda>sig q. if sig = MONO_TYPE_BYREF
      then bindc (safe_read8 (ctx_data ctx) q end) (\<lambda>(sig, ptr). refuse_if (sig = MONO_TYPE_TYPEDBYREF) (Inr (Some (sig, ptr))))
      else Inr (Some (sig, q))"
    have byref: "within (\<lambda>x. p < snd x \<and> snd x \<le> end) (?byref sig q)" if "p < q" "q \<le> end" for sig q
      using that p assms by (auto intro!: within_steps)
    show "within (\<lambda>q. p < q \<and> q \<le> end) (parse_local depth ctx end p)"
      unfolding parse_local_def Let_def
    proof (rule within_read8 [OF assms p(1)], unfold prod.case, rule within_bindc [OF local_mods_inside [OF assms]])
      fix x :: "guint8 \<times> int" assume x: "p + 1 \<le> end" "p + 1 \<le> snd x \<and> snd x \<le> end"
      obtain sig q where xs: "x = (sig, q)" by (cases x)
      show "within (\<lambda>q. p < q \<and> q \<le> end) (case x of (sig, ptr) \<Rightarrow>
        bindc (?byref sig ptr) (\<lambda>(sig, ptr). if sig = MONO_TYPE_TYPEDBYREF then Inr (Some ptr) else parse_type depth ctx end (ptr - 1)))"
        unfolding xs prod.case
        by (rule within_bindc [OF byref]) (use x xs p in \<open>auto intro!: moves_last [OF t]\<close>)
    qed (use p in auto)
  qed
qed

lemma typespec_inside:
  assumes "ends_in (ctx_data ctx) end" "0 \<le> p" "p \<le> end" "end - p < int depth"
  shows "within (\<lambda>q. True) (let m = ctx_data ctx in
      bindc (parse_custom_mods ctx end p) (\<lambda>ptr.
      bindc (safe_read8 m ptr end) (\<lambda>(ty, ptr).
      bindc (if ty = MONO_TYPE_BYREF
             then bindc (safe_read8 m ptr end) (\<lambda>(ty, ptr). refuse_if (ty = MONO_TYPE_TYPEDBYREF) (Inr (Some (ty, ptr))))
             else Inr (Some (ty, ptr))) (\<lambda>(ty, ptr).
      if ty = MONO_TYPE_TYPEDBYREF then Inr (Some ptr) else parse_type depth ctx end (ptr - 1)))))"
proof -
  note t = parse_type_moves [OF assms(1), of depth]
  let ?byref = "\<lambda>ty q. if ty = MONO_TYPE_BYREF
      then bindc (safe_read8 (ctx_data ctx) q end) (\<lambda>(ty, ptr). refuse_if (ty = MONO_TYPE_TYPEDBYREF) (Inr (Some (ty, ptr))))
      else Inr (Some (ty, q))"
  have byref: "within (\<lambda>x. p < snd x \<and> snd x \<le> end) (?byref ty q)" if "p < q" "q \<le> end" for ty q
    using that assms by (auto intro!: within_steps)
  show ?thesis
    unfolding Let_def
  proof (rule within_mods [OF assms(1-3)])
    fix q assume q: "p \<le> q" "q < end"
    have last: "within (\<lambda>q. True) (bindc (?byref ty (q + 1))
        (\<lambda>(ty, ptr). if ty = MONO_TYPE_TYPEDBYREF then Inr (Some ptr) else parse_type depth ctx end (ptr - 1)))" if "q + 1 \<le> end" for ty
      by (rule within_bindc [OF byref]) (use q that assms in \<open>auto intro!: moves_last [OF t]\<close>)
    show "within (\<lambda>q. True) (bindc (safe_read8 (ctx_data ctx) q end) (\<lambda>(ty, ptr).
      bindc (?byref ty ptr) (\<lambda>(ty, ptr). if ty = MONO_TYPE_TYPEDBYREF then Inr (Some ptr) else parse_type depth ctx end (ptr - 1))))"
      by (rule within_read8 [OF assms(1)]) (use q assms last in auto)
  qed
qed

lemma header_then:
  assumes "blob_ok ctx" "heap_size (heap_blob (ctx_image ctx)) \<le> depth"
    and "\<And>p end. ends_in (ctx_data ctx) end \<Longrightarrow> 0 \<le> p \<Longrightarrow> p \<le> end \<Longrightarrow> end - p < int depth \<Longrightarrow> is_ok (f p end)"
  shows "is_ok (accepted (bindc (decode_signature_header ctx offset) (\<lambda>(ptr, end). f ptr end)))"
proof -
  have "within (\<lambda>x. True) (bindc (decode_signature_header ctx offset) (\<lambda>(ptr, end). f ptr end))"
    by (rule within_bindc [OF signature_header_within [OF assms(1)]])
      (use assms(2,3) in \<open>force simp: within_def split: prod.splits\<close>)
  then show ?thesis by (rule accepted_ok)
qed

text \<open>
  C26.  The signature checks end and stay inside the file.  When the blob heap lies inside the image
  and the stack has room for as many nested calls of \<open>parse_type\<close> as the heap has bytes, then for every content
  of the file, every offset and every row counts the checks of field, method, member, local and
  standalone, property, type and method instantiation signatures and of custom attributes return a decision:
  no read outside the file, no failed assertion and no overflow of the stack.
\<close>

theorem signature_checks_total:
  assumes "blob_ok ctx" "heap_size (heap_blob (ctx_image ctx)) \<le> depth"
  shows "is_ok (is_valid_field_signature depth ctx offset) \<and> is_ok (is_valid_method_signature depth ctx offset) \<and>
    is_ok (is_valid_method_or_field_signature depth ctx offset) \<and> is_ok (is_valid_standalonesig_blob depth ctx offset) \<and>
    is_ok (is_valid_property_sig_blob depth ctx offset) \<and> is_ok (is_valid_typespec_blob depth ctx offset) \<and>
    is_ok (is_valid_methodspec_blob depth ctx offset) \<and> is_ok (is_vald_cattr_blob ctx offset)"
proof -
  note h = header_then [OF assms]
  have ms: "is_ok (parse_method_signature (parse_type depth ctx end) ctx end a b p)"
    if "ends_in (ctx_data ctx) end" "0 \<le> p" "p \<le> end" "end - p < int depth" for "end" p a b
    by (rule within_ok [OF method_signature_inside [OF that(1) parse_type_moves [OF that(1)] that(2-4)]])
  have pn: "within (\<lambda>q. True) (parse_n (parse_type depth ctx end) k p)"
    and ln: "within (\<lambda>q. True) (parse_n (parse_local depth ctx end) k p)"
    if "ends_in (ctx_data ctx) end" "0 \<le> p" "p \<le> end" "end - p < int depth" for "end" p k
    using that by (auto intro: parse_n_last [OF parse_type_moves] parse_n_last [OF local_inside])
  have loc: "is_ok (parse_locals_signature depth ctx end p)"
    if "ends_in (ctx_data ctx) end" "0 \<le> p" "p \<le> end" "end - p < int depth" for "end" p
    unfolding parse_locals_signature_def Let_def using that
    by (intro within_ok [where P = "\<lambda>q. True"]) (auto intro!: within_steps ln)
  have pr: "is_ok (parse_property_signature depth ctx end p)"
    if "ends_in (ctx_data ctx) end" "0 \<le> p" "p \<le> end" "end - p < int depth" for "end" p
    unfolding parse_property_signature_def Let_def using that
    by (intro within_ok [where P = "\<lambda>q. True"]) (auto intro!: within_steps within_moves [OF parse_type_moves] pn)
  have spec: "is_ok (bindc (safe_read8 (ctx_data ctx) p end) (\<lambda>(ty, ptr). refuse_if (ty \<noteq> 0x0A)
        (bindc (safe_read_cint (ctx_data ctx) ptr end) (\<lambda>(count, ptr).
         refuse_if (count = 0) (parse_n (parse_type depth ctx end) (unat count) ptr)))))"
    if "ends_in (ctx_data ctx) end" "0 \<le> p" "p \<le> end" "end - p < int depth" for "end" p
    using that by (intro within_ok [where P = "\<lambda>q. True"]) (auto intro!: within_steps pn)
  have first: "is_ok (bindc (safe_read8 (ctx_data ctx) p end) (\<lambda>(signature, q). g signature))"
    if "ends_in (ctx_data ctx) end" "0 \<le> p" "\<And>s. is_ok (g s)" for "end" p and g :: "guint8 \<Rightarrow> int option res"
    by (rule is_ok_bindc [OF within_ok [OF within_safe_read8 [OF that(1,2)]]]) (auto simp: that(3))
  have cattr: "is_ok (is_vald_cattr_blob ctx offset)"
  proof (cases "offset = 0")
    case False
    have "within (\<lambda>u. True) (bindc (decode_signature_header ctx offset) (\<lambda>(ptr, end).
       bindc (safe_read16 (ctx_data ctx) ptr end) (\<lambda>(prolog, ptr). refuse_if (prolog \<noteq> 1) (Inr (Some ())))))"
      by (rule within_bindc [OF signature_header_within [OF assms(1)]])
        (auto intro!: within_read16 within_refuse_if)
    with False show ?thesis unfolding is_vald_cattr_blob_def by (auto dest: within_ok intro!: is_ok_bindr)
  qed (simp add: is_vald_cattr_blob_def)
  show ?thesis
    unfolding is_valid_field_signature_def is_valid_method_signature_def is_valid_method_or_field_signature_def
      is_valid_standalonesig_blob_def is_valid_property_sig_blob_def is_valid_typespec_blob_def is_valid_methodspec_blob_def
    using cattr
    by (intro conjI h; (assumption)?)
      (auto intro!: first field_inside ms loc pr spec within_ok [OF typespec_inside [unfolded Let_def]] is_ok_refuse_if simp: Let_def)
qed

section \<open>The depth is reached\<close>

lemma read8_in_sig: "m = xs @ c # ys \<Longrightarrow> p = int (length xs) \<Longrightarrow> read8 m p = Inr c"
  by (simp add: read8_def)

text \<open>
  A signature of \<open>n + 1\<close> bytes nests \<open>n + 1\<close> calls.  For every \<open>n\<close>, on the signature of
  an array of an array of ... of integers, \<open>n\<close> bytes for one-dimensional arrays and one for the element type, \<open>parse_type\<close>
  needs exactly \<open>n + 1\<close> nested calls: with room for fewer the stack overflows, with that many it is accepted.
  The checks put no other bound on the depth than the length of the signature.
\<close>

theorem nested_arrays_overflow:
  assumes "ctx_data ctx = xs @ replicate n MONO_TYPE_SZARRAY @ MONO_TYPE_I4 # ys"
    and "end = int (length xs) + int n + 1"
  shows "parse_type depth ctx end (int (length xs)) =
    (if depth \<le> n then Inl Stack_overflow else Inr (Some end))"
  using assms
proof (induction n arbitrary: xs depth)
  case 0
  then have "read8 (ctx_data ctx) (int (length xs)) = Inr MONO_TYPE_I4" by (intro read8_in_sig) auto
  with 0 show ?case by (cases depth) (auto simp: safe_read8_def valid_type_kind_def Let_def)
next
  case (Suc n)
  let ?xs = "xs @ [MONO_TYPE_SZARRAY]"
  have p: "int (length ?xs) = int (length xs) + 1" by simp
  have r: "safe_read8 (ctx_data ctx) (int (length xs)) end = Inr (Some (MONO_TYPE_SZARRAY, int (length xs) + 1))"
    using Suc.prems read8_in_sig [of "ctx_data ctx" xs MONO_TYPE_SZARRAY] by (simp add: safe_read8_def)
  have "\<exists>c. read8 (ctx_data ctx) (int (length xs) + 1) = Inr c \<and> (c = MONO_TYPE_SZARRAY \<or> c = MONO_TYPE_I4)"
    using Suc.prems(1) read8_in_sig [of "ctx_data ctx" ?xs _ _ "int (length xs) + 1"] by (cases n) auto
  then obtain c where c: "read8 (ctx_data ctx) (int (length xs) + 1) = Inr c" "c = MONO_TYPE_SZARRAY \<or> c = MONO_TYPE_I4" by blast
  then have m: "parse_custom_mods ctx end (int (length xs) + 1) = Inr (Some (int (length xs) + 1))"
    using Suc.prems(2) by (subst parse_custom_mods.simps) (auto simp: safe_read8_def)
  show ?case
  proof (cases depth)
    case (Suc d)
    have "parse_type d ctx end (int (length xs) + 1) = (if d \<le> n then Inl Stack_overflow else Inr (Some end))"
      using Suc.IH [of ?xs d] Suc.prems by (simp add: ac_simps)
    then show ?thesis using Suc r m by (simp add: valid_type_kind_def Let_def)
  qed simp
qed

section \<open>Witnesses\<close>

theorem decode_value_checked_witness:
  "decode_value [0x81, 0x02, 0xC0] 0 2 = Inr (Some (0x102, 2)) \<and> decode_value [0x81, 0x02, 0xC0] 2 1 = Inr None"
  using decode_value_checked [of "[0x81, 0x02, 0xC0]" 0 2] decode_value_checked [of "[0x81, 0x02, 0xC0]" 2 1]
  by (simp add: inside_def mono_metadata_decode_value_def read8_def)

theorem nested_arrays_overflow_witness:
  "parse_type 2 (init_verify_context (bare_image\<lparr>raw_data := [0x1D, 0x1D, 0x08]\<rparr>) no_info STAGE_TABLES) 3 0 = Inl Stack_overflow"
  using nested_arrays_overflow [of "init_verify_context (bare_image\<lparr>raw_data := [0x1D, 0x1D, 0x08]\<rparr>) no_info STAGE_TABLES" "[]" 2 "[]" 3 2]
  by (simp add: init_verify_context_def numeral_2_eq_2)

definition blob_image :: MonoImage where
  "blob_image = bare_image\<lparr>raw_data := [0x02, 0x06, 0x08], heap_blob := \<lparr>heap_data = Some 0, heap_size = 3\<rparr>\<rparr>"

theorem signature_checks_total_witness:
  "\<exists>b. is_valid_field_signature 3 (init_verify_context blob_image no_info STAGE_TABLES) 0 = Inr b"
  using signature_checks_total [of "init_verify_context blob_image no_info STAGE_TABLES" 3 0]
  by (auto simp: blob_ok_def inside_def init_verify_context_def blob_image_def is_ok_iff)

end
