(* ===== verification/Ver_Index_Spec.thy ===== *)
theory Ver_Index_Spec
  imports Ver_Blobs Ver_Header_Spec
begin

text \<open>
  Coded indices: the check accepts exactly the indices of existing rows, with one table that is not
  the one of the standard; and the check of a blob, which takes the wrong number of bytes for those left.
\<close>

section \<open>Coded indices\<close>

definition kinds :: "nat list" where
  "kinds = [TYPEDEF_OR_REF_DESC, HAS_CONSTANT_DESC, HAS_CATTR_DESC, HAS_FIELD_MARSHAL_DESC, HAS_DECL_SECURITY_DESC,
     MEMBERREF_PARENT_DESC, HAS_SEMANTICS_DESC, METHODDEF_OR_REF_DESC, MEMBER_FORWARDED_DESC, IMPLEMENTATION_DESC,
     CATTR_TYPE_DESC, RES_SCOPE_DESC, TYPE_OR_METHODDEF_DESC]"

definition tag_bits :: "nat \<Rightarrow> nat" where
  "tag_bits kind = coded_index_desc ! kind"

definition tag_tables :: "nat \<Rightarrow> nat list" where
  "tag_tables kind = take (coded_index_desc ! (kind + 1)) (drop (kind + 2) coded_index_desc)"

lemma kinds_fit:
  "\<forall>kind \<in> set kinds. tag_bits kind \<le> 5 \<and> length (tag_tables kind) = coded_index_desc ! (kind + 1) \<and>
    length (tag_tables kind) \<le> 2 ^ tag_bits kind \<and> kind + 2 + length (tag_tables kind) \<le> length coded_index_desc"
  by code_simp

lemma tag_table_nth: "i < length (tag_tables kind) \<Longrightarrow> tag_tables kind ! i = coded_index_desc ! (kind + 2 + i)"
  by (auto simp: tag_tables_def nth_drop)

lemma coded_tag_Some: "coded_tag ts table i = Some k \<Longrightarrow> i \<le> k \<and> k < i + length ts \<and> ts ! (k - i) = table"
proof (induction ts arbitrary: i)
  case (Cons t ts)
  show ?case
  proof (cases "t = table")
    case False
    with Cons.prems have "coded_tag ts table (i + 1) = Some k" by simp
    from Cons.IH [OF this] show ?thesis by (auto simp: nth_Cons')
  qed (use Cons.prems in auto)
qed simp

text \<open>A row number above its tag.\<close>

lemma tagged:
  fixes r :: guint32
  assumes "k < 2 ^ b" "b \<le> 5" "uint r < 2 ^ (32 - b)"
  shows "drop_bit b (push_bit b r OR of_nat k) = r" "unat ((push_bit b r OR of_nat k) AND mask b) = k"
proof -
  have k: "take_bit b (of_nat k :: guint32) = of_nat k" using assms(1) by (rule take_bit_of_nat_less)
  have bk: "bit (of_nat k :: guint32) n \<Longrightarrow> n < b" for n using k by (metis bit_take_bit_iff)
  have "take_bit (32 - b) r = r" using assms(3) by (intro word_uint_eqI) (simp add: unsigned_take_bit_eq take_bit_int_eq_self)
  then have br: "bit r n \<Longrightarrow> n < 32 - b" for n by (metis bit_take_bit_iff)
  show "drop_bit b (push_bit b r OR of_nat k) = r"
    by (rule bit_word_eqI) (auto simp: bit_drop_bit_eq bit_or_iff bit_push_bit_iff dest: bk br)
  have "(push_bit b r OR of_nat k) AND mask b = (of_nat k :: guint32)"
    by (rule bit_word_eqI) (auto simp: bit_and_iff bit_or_iff bit_push_bit_iff bit_mask_iff dest: bk)
  moreover have "k < 2 ^ 32" using assms(1,2) power_increasing [of b 32 "2 :: nat"] by simp
  ultimately show "unat ((push_bit b r OR of_nat k) AND mask b) = k" by (simp add: unat_of_nat take_bit_nat_eq_self)
qed

text \<open>
  Coded indices.  For each of the 13 kinds, the index that \<open>make_coded_token\<close> builds for a row of a table
  decodes to that row number and that table, and \<open>is_valid_coded_index\<close> accepts it exactly when the table has
  the row; a tag that stands for no table is refused.
\<close>

theorem coded_index_round_trip:
  assumes "kind \<in> set kinds" "table \<noteq> INVALID_TABLE" "make_coded_token kind table i = Inr t" "uint i + 1 < 2 ^ (32 - tag_bits kind)"
  shows "get_coded_index_token kind t = i + 1 \<and> get_coded_index_table kind t = Inr table \<and>
    (is_valid_coded_index ctx kind t \<longleftrightarrow> unat i + 1 \<le> table_rows (ctx_image ctx) table) \<and>
    (\<forall>t'. unat (t' AND mask (tag_bits kind)) \<ge> length (tag_tables kind) \<longrightarrow> \<not> is_valid_coded_index ctx kind t')"
proof -
  have f: "tag_bits kind \<le> 5" "length (tag_tables kind) = coded_index_desc ! (kind + 1)" "length (tag_tables kind) \<le> 2 ^ tag_bits kind"
    "kind + 2 + length (tag_tables kind) \<le> length coded_index_desc" using kinds_fit assms(1) by auto
  obtain k where c: "coded_tag (tag_tables kind) table 0 = Some k" and t: "t = push_bit (tag_bits kind) (i + 1) OR of_nat k"
    using assms(3) by (auto simp: make_coded_token_def tag_bits_def tag_tables_def split: option.splits)
  have k: "k < length (tag_tables kind)" "coded_index_desc ! (kind + 2 + k) = table"
    using coded_tag_Some [OF c] by (auto simp: tag_table_nth)
  have "(2 :: int) ^ (32 - tag_bits kind) \<le> 2 ^ 32" by (intro power_increasing) auto
  then have i1: "uint (i + 1) = uint i + 1" using assms(4) by (subst uint_add_small) auto
  have "k < 2 ^ tag_bits kind" using k(1) f(3) by linarith
  note tg = tagged [OF this f(1), of "i + 1", unfolded i1, OF assms(4), folded t]
  have n: "unat (i + 1) = unat i + 1" using i1 uint_ge_0 [of i] unfolding unat_eq_nat_uint by linarith
  have token: "get_coded_index_token kind t = i + 1" using tg(1) unfolding get_coded_index_token_def tag_bits_def .
  have tag: "unat (t AND mask (coded_index_desc ! kind)) = k" using tg(2) unfolding tag_bits_def .
  have "kind + 2 + k < length coded_index_desc" using k(1) f(4) by linarith
  then have tab: "get_coded_index_table kind t = Inr table"
    unfolding get_coded_index_table_def Let_def tag k(2) by simp
  have valid: "is_valid_coded_index ctx kind t \<longleftrightarrow> unat i + 1 \<le> table_rows (ctx_image ctx) table"
    using k(1) assms(2) token unfolding is_valid_coded_index_def Let_def tag k(2) get_coded_index_token_def f(2) [symmetric]
    by (simp add: n)
  have "\<not> is_valid_coded_index ctx kind t'" if "unat (t' AND mask (tag_bits kind)) \<ge> length (tag_tables kind)" for t'
    using that unfolding is_valid_coded_index_def Let_def tag_bits_def f(2) by simp
  with token tab valid show ?thesis by blast
qed

text \<open>
  The parent of a member reference.  Tag 2 of the coded index stands for ModuleRef in the
  standard and in the loader, but \<open>coded_index_desc\<close> has Module there: an index with this tag is accepted exactly when
  the Module table, which has one row, has the row.  So the second module reference is refused,
  and a first one that does not exist is accepted.
\<close>

theorem memberref_parent_wrong_table:
  assumes "uint r < 2 ^ 29"
  shows "is_valid_coded_index ctx MEMBERREF_PARENT_DESC (push_bit 3 r OR 2) \<longleftrightarrow>
    unat r \<le> table_rows (ctx_image ctx) MONO_TABLE_MODULE"
  using tagged [of 2 3 r] assms by (simp add: is_valid_coded_index_def coded_index_desc_def Let_def)

section \<open>Blobs\<close>

text \<open>
  The blob check at the end of the heap.  Where the blob heap ends with the file, the offset of its
  end passes the first check and the size prefix is read behind the end of the file; and when the position of the heap in
  the file equals its size, no blob at all is accepted, because the bytes left are taken from the position.
\<close>

theorem blob_check_wrong_rest:
  assumes "heap_data (heap_blob (ctx_image ctx)) = Some p" "0 \<le> p" "p < 2 ^ 32" "heap_size (heap_blob (ctx_image ctx)) < 2 ^ 32"
  shows "(p + int (heap_size (heap_blob (ctx_image ctx))) = int (length (ctx_data ctx)) \<and> p \<noteq> int (heap_size (heap_blob (ctx_image ctx))) \<longrightarrow>
      is_valid_blob_object ctx (stream_size (heap_blob (ctx_image ctx))) minsize = Inl Out_of_bounds) \<and>
    (p = int (heap_size (heap_blob (ctx_image ctx))) \<longrightarrow> is_valid_blob_object ctx offset minsize = Inr False)"
proof -
  let ?h = "heap_blob (ctx_image ctx)"
  have o': "stream_offset ?h = Inr (of_int p)" by (simp add: stream_offset_def assms(1))
  have u: "uint (of_int p :: guint32) = p" using assms by (simp add: unsigned_of_int take_bit_int_eq_self)
  have sz: "uint (stream_size ?h) = int (heap_size ?h)" using assms by (simp add: stream_size_def unsigned_of_nat take_bit_nat_eq_self)
  have e: "stream_size ?h - of_int p = 0 \<longleftrightarrow> p = int (heap_size ?h)"
    using u sz by (metis right_minus_eq word_uint_eq_iff)
  show ?thesis
    using u sz e by (auto simp: is_valid_blob_object_def Let_def o' decode_value_def read8_def)
qed

section \<open>Witnesses\<close>

theorem coded_index_round_trip_witness:
  "\<exists>t. make_coded_token HAS_CONSTANT_DESC MONO_TABLE_PARAM 6 = Inr t \<and> get_coded_index_token HAS_CONSTANT_DESC t = 7"
  using coded_index_round_trip [of HAS_CONSTANT_DESC MONO_TABLE_PARAM 6]
  by (auto simp: kinds_def tag_bits_def coded_index_desc_def make_coded_token_def)

theorem memberref_parent_wrong_table_witness:
  "is_valid_coded_index (init_verify_context bare_image no_info STAGE_TABLES) MEMBERREF_PARENT_DESC (push_bit 3 2 OR 2) \<longleftrightarrow>
    2 \<le> table_rows bare_image MONO_TABLE_MODULE"
  using memberref_parent_wrong_table [of 2 "init_verify_context bare_image no_info STAGE_TABLES"] by (simp add: init_verify_context_def)

definition last_blob_image :: MonoImage where
  "last_blob_image = bare_image\<lparr>raw_data := [0, 0, 1, 5, 7], heap_blob := \<lparr>heap_data = Some 2, heap_size = 3\<rparr>\<rparr>"

theorem blob_check_wrong_rest_witness:
  "is_valid_blob_object (init_verify_context last_blob_image no_info STAGE_TABLES) 3 0 = Inl Out_of_bounds"
  using blob_check_wrong_rest [of "init_verify_context last_blob_image no_info STAGE_TABLES" 2 0 0]
  by (simp add: init_verify_context_def last_blob_image_def stream_size_def)

end
