(* ===== verification/Spec2Isabelle.thy ===== *)
theory Spec2Isabelle
  imports Meta_Lookup_Spec Meta_Numbers
    Jit_Info_Table_Spec Etw_Proofs Eg_Hashtable_Spec Eg_Sort_Spec Eg_Arrays_Spec Mono_Bitset_Spec
    Hazard_Spec Ver_Tables_Spec Ver_Sigs_Spec Ver_Index_Spec Ver_Header_Spec
begin

text \<open>
  A verification development for the ETW symbol provider of a Unity-flavoured Mono runtime.  The
  program is \<open>src/etwSymbols.c\<close>, a profiler that writes an ETW event for every compiled method and
  every loaded assembly, linked into the runtime under \<open>src/Unity-2018.2.8\<close>.  The development models
  that profiler and the parts of the runtime it stands on, and the containers of eglib that these
  parts and the rest of the runtime use.

  \<^bold>\<open>Parts and theories.\<close>

  \<^item> \<open>Mono_Prelude\<close>: the failures a C function can end in (\<open>fault\<close>), results \<open>'a res = fault + 'a\<close>
    with \<open>bindr\<close> and \<open>guardr\<close>, machine types, shared lemmas on lists and words, and the locale
    \<open>partition_search\<close> for binary searches.

  \<^item> \<open>Profiler\<close>, \<open>Profiler_Spec\<close>: \<open>mono/metadata/profiler.c\<close>, \<open>profiler.h\<close>, \<open>profiler-private.h\<close>.  A
    profiler is a record \<open>ProfilerDesc\<close> with its event mask and callbacks; the state \<open>Profilers\<close> holds
    the list of profilers, newest first, and the global mask.  Every \<open>mono_profiler_install_*\<close> is a
    state update, every report function returns the calls it makes, in order, and the coverage
    records are a table keyed by method.  Proved: the global mask is the union of the masks in every
    reachable state, a clear bit silences its report (locale \<open>guarded_report\<close>, one instance per
    report), registrations touch the newest profiler only, coverage reports stay in range, and the
    exact condition for the abort in the load reports.

  \<^item> \<open>Jit_Info_Table\<close>, \<open>Jit_Info_Table_Proofs\<close>, \<open>Jit_Info_Table_Spec\<close>: the code-address index of
    \<open>mono/metadata/domain.c\<close> with the types of \<open>domain-internals.h\<close>: chunks of sorted code blocks,
    tombstones for removed ones, splitting, purging and reallocation of full chunks, the lock-free
    lookup, and the table of ahead-of-time modules.  Proved: lookup, insertion and removal against an
    abstract set of blocks, the consistency check in every reachable state, what a concurrent
    lookup sees between the writes of an insertion, and the failed assertion when all entries of a
    full table are tombstones.

  \<^item> \<open>Hazard_Pointers\<close>, \<open>Hazard_Proofs\<close>, \<open>Hazard_Inv\<close>, \<open>Hazard_Steps\<close>, \<open>Hazard_Calls\<close>, \<open>Hazard_Spec\<close>: how the
    index gives memory back: the small thread ids, the hazard pointers and the delayed frees of
    \<open>mono/metadata/threads.c\<close>, and \<open>get_hazardous_pointer\<close>, \<open>jit_info_table_free\<close> and the places of
    \<open>domain.c\<close> that retire a table or an entry.  The state \<open>hstate\<close> is shared by any number of threads;
    \<open>exec\<close> is the next memory access of one thread, \<open>reachable\<close> all interleavings, with or without
    store buffers.  \<open>Hazard_Inv\<close> states the invariant \<open>sound\<close>, in which each retired block is owned by
    one thread or one place in the list of delayed frees; \<open>Hazard_Steps\<close> and \<open>Hazard_Calls\<close> prove that
    every step keeps it.  Proved: what is held is not freed, the allocation of ids, and three runs
    in which the source breaks the promise.

  \<^item> \<open>Utf_Conv\<close>, \<open>Utf_Conv_Proofs\<close>, \<open>Utf_Conv_Spec\<close>: the four conversions of \<open>eglib/src/gutf8.c\<close> and
    the macro \<open>u8to16\<close> of \<open>glib.h\<close>, on words of 8, 16 and 32 bits, each as its counting pass and its
    writing pass.  A \<open>glong\<close> has 32 bits, as on Windows; the count of UTF-8 bytes wraps as in the source, the
    other counts never exceed the length of the input.  Proved: correctness on well-formed text, round
    trips, refusals, and the exact inputs on which the writing pass leaves the buffer that the counting
    pass sized (locales \<open>exact_count\<close>, \<open>transcoder\<close>, \<open>transcoder_pair\<close>).

  \<^item> \<open>Etw_Symbols\<close>, \<open>Etw_Proofs\<close>: \<open>src/etwSymbols.c\<close>: \<open>on_method_jitted\<close> and \<open>on_load_assembly\<close> build the
    data descriptors of an event, \<open>init_etw_symbol_profiler\<close> registers them.  \<open>Memory\<close> gives the
    runtime structures the callbacks read; \<open>mono_method_full_name\<close> and the handle that
    \<open>EventRegister\<close> returns are parameters.  The properties that span the profiler, the index and
    the conversions are in this theory.

  \<^item> \<open>Eg_Hashtable\<close>, \<open>Eg_Hashtable_Spec\<close>: \<open>eglib/src/ghashtable.c\<close>, with chains of slots, resizing,
    destroy functions, traversal, iterators and the hash functions.  The locale \<open>hash_contract\<close>
    states what the table needs of a hash and an equality; it is interpreted for the direct,
    integer and string functions of the source, and the table refines a map.

  \<^item> \<open>Eg_Slist\<close>, \<open>Eg_Slist_Proofs\<close>, \<open>Eg_Slist_Spec\<close>: \<open>eglib/src/gslist.c\<close> on an explicit store of nodes, so
    that freed nodes, shared nodes and in-place changes are visible.  Each loop is shown to end on
    every list that is null-terminated; \<open>returns_list\<close> also says which cells are unchanged.  The
    locale \<open>sequence\<close> is the interface of lists built by prepending or appending.

  \<^item> \<open>Eg_Sort\<close>, \<open>Eg_Sort_Spec\<close>: the merge sort of \<open>eglib/src/sort.frag.h\<close> on lists of elements, with the
    uninitialised array of ranks as an arbitrary parameter; it is stable, and agrees with repeated
    \<open>g_slist_insert_sorted\<close>.

  \<^item> \<open>Eg_Arrays\<close>, \<open>Eg_Arrays_Spec\<close>: \<open>eglib/src/garray.c\<close> and \<open>eglib/src/gptrarray.c\<close> on blocks of possibly
    uninitialised elements with explicit bounds.  Lengths and capacities are unsigned and wrap; the
    products with the element size are those of the macros \<open>element_offset\<close> and \<open>element_length\<close>, a signed one
    that may overflow and an unsigned one that wraps.  The locale \<open>growing_array\<close> is the interface of both.

  \<^item> \<open>Mono_Bitset\<close>, \<open>Mono_Bitset_Proofs\<close>, \<open>Mono_Bitset_Spec\<close>: the bit sets of \<open>mono/utils/monobitset.c\<close> on 64-bit
    chunks.  The operations refine operations on sets of positions; the parallel population count
    is proved by digit arithmetic; the searches share the locale \<open>chunk_search\<close>, interpreted for set
    and for unset bits.

  \<^item> \<open>Meta_Tables\<close>, \<open>Meta_Lookup\<close>: the decoding of metadata in \<open>mono/metadata/metadata.c\<close> with the headers
    it uses and \<open>load_tables\<close> of \<open>image.c\<close>: the column codes of the tables, the sizes of rows and
    columns, the loading of the tables stream, rows, heaps, tokens, compressed integers, and the
    lookups by binary search.  The image is a list of bytes; an address is an offset into it.
    \<open>Meta_Standard\<close> states what the standard (ECMA-335, II.22 to II.24) prescribes: schemas, index
    widths, and in \<open>Meta_Rows\<close> the bytes of a database.  \<open>Meta_Tables_Proofs\<close>, \<open>Meta_Rows\<close> and
    \<open>Meta_Tables_Spec\<close> relate the code to it, \<open>Meta_Numbers\<close> treats compressed integers, and
    \<open>Meta_Lookup_Proofs\<close> and \<open>Meta_Lookup_Spec\<close> the lookups, with the locale \<open>row_comparison\<close> as the
    contract between \<open>bsearch\<close> and the three locators of the code.  Proved: loading inverts writing,
    loaded images are well-formed, round trips of numbers, the owner of a member, first rows, ranges
    and interfaces; and where the code differs from the standard: the width of custom attribute parents in
    assemblies with many generic parameters, constraints or method instantiations, and the decoding
    of some negative values.

  \<^item> \<open>Pe_Image\<close>: the loader of \<open>mono/metadata/image.c\<close> on the structures of \<open>cil-coff.h\<close>: PE headers, sections,
    addresses, the CLI header, the metadata root and its streams, up to \<open>load_tables\<close>.

  \<^item> \<open>Ver_Headers\<close>, \<open>Ver_Blobs\<close>, \<open>Ver_Sigs\<close>, \<open>Ver_Columns\<close>, \<open>Ver_Bodies\<close>, \<open>Ver_Tables\<close>: the metadata verifier
    \<open>mono/metadata/metadata-verify.c\<close>, with the constants of \<open>row-indexes.h\<close>, \<open>tabledefs.h\<close> and \<open>blob.h\<close> and the check
    of UTF-8 in \<open>mono/utils/strenc.c\<close>: headers and streams, coded indices, strings and blobs, the
    signature parsers, method bodies, the checks of every table, the entry points, and
    \<open>do_mono_image_load\<close>, which interleaves them with the loader.  The state is the record \<open>VerifyContext\<close>; a check
    goes on, refuses the image or fails, and \<open>bindc\<close> sequences checks as \<open>ADD_ERROR\<close>, \<open>FAIL\<close> and \<open>CHECK_ERROR\<close>
    do.  \<open>Ver_Header_Spec\<close> proves that the header checks stay inside the file and where a missing import
    directory aborts; \<open>Ver_Sigs_Spec\<close> that the signature checks end and stay inside the blob, with the depth of
    the recursion; \<open>Ver_Index_Spec\<close> treats coded indices and blob references; \<open>Ver_Tables_Spec\<close> shows that an image
    which the verifier accepts satisfies what \<open>Meta_Lookup_Spec\<close> asks of it.

  \<^bold>\<open>How the parts interact.\<close>  The JIT calls \<open>mono_profiler_method_end_jit\<close>, which calls the
  \<open>on_method_jitted\<close> of every enabled profiler; the callback converts the method name with
  \<open>u8to16\<close> and writes the range of the code that \<open>mono_jit_info_table_add\<close> has entered into the
  index.  \<open>report_jitted\<close> and \<open>report_loaded\<close> compose these.

  \<^bold>\<open>Errors, loops and bounds.\<close>  A failed assertion, an access outside a block, a null or dangling
  pointer, the use of a lock before its initialisation, a signed overflow and an exhausted stack are
  values of \<open>fault\<close>.  A loop whose end is evident is a \<open>fun\<close> or a \<open>function\<close> with a measure.  A loop that may run
  forever is a \<open>partial_function (option)\<close>: the restart of the insertion into the index, the
  loops over linked lists, and the doubling loop of the pointer array; for each of them it is
  proved when it returns.  Binary searches and walks along rows are \<open>function\<close>s with a measure.  No
  definition uses fuel for a loop; \<open>iterate\<close> in \<open>Eg_Hashtable_Spec\<close> is a client's loop
  with an explicit number of rounds, one more than the number of entries, and the \<open>depth\<close> of \<open>parse_type\<close> is the
  number of nested calls that the stack has room for, for which the length of the signature is enough.  Sizes that the C code
  keeps in 32 bits are words, or numbers with the wrap-around written out, wherever the source can
  reach the wrap-around; the entry counts of the index and of the hash table are natural numbers.

  \<^bold>\<open>Not modelled.\<close>  The Windows functions \<open>EventWrite\<close> and \<open>EventRegister\<close>; the built-in profiler at
  the end of \<open>profiler.c\<close> and the loading of profiler modules; the hazard pointers of threads without
  an id; the rest of the domain life cycle; the case conversion of
  \<open>gutf8.c\<close>, which needs the tables of \<open>gunicode.c\<close>; of \<open>metadata.c\<close> the signatures, types, method
  headers, method overrides and marshalling descriptions; of \<open>image.c\<close> the cache of images, the modules and
  the resources; the texts of the verifier's messages, its warnings, which are off, and
  \<open>mono_verifier_is_sig_compatible\<close>; the rest of the runtime (class loading,
  the JIT, the collectors, threads, the io-layer).  \<open>qsort\<close> is a parameter of \<open>g_ptr_array_sort\<close>.

  \<^bold>\<open>Next.\<close>  The doubly linked lists and queues of eglib, its strings and paths, the intrusive
  hash table of \<open>mono/utils\<close>, the memory pool, the signatures of \<open>metadata.c\<close>, and the IL verifier.
\<close>

unbundle bit_operations_syntax

section \<open>The symbol profiler on the runtime\<close>

text \<open>A jitted method for the examples: the text \<open>Foo\<close> at address 7, compiled to \<open>ji_a\<close>.\<close>

definition mem_a :: Memory where
  "mem_a = \<lparr>ptr_size = 8, jit_info_at = [1 \<mapsto> ji_a], method_assembly = [7 \<mapsto> 99],
    mono_method_full_name = (\<lambda>m. [0x46, 0x6F, 0x6F, 0]), assembly_name = [99 \<mapsto> [0x41, 0]]\<rparr>"

lemma name_a: "[0x46, 0x6F, 0x6F, 0] = utf8_encode [0x46, 0x6F, 0x6F] @ [0]" "nonzero_text [0x46, 0x6F, 0x6F]"
  "[0x41, 0] = utf8_encode [0x41] @ [0]" "nonzero_text [0x41]"
  by (simp_all add: utf8_of_def nonzero_text_def scalar_def)

text \<open>
  C1.  After \<open>init_etw_symbol_profiler\<close>, whatever profilers were installed before, the end of a
  compilation calls \<open>on_method_jitted\<close> exactly once and first, with the method, its code and the
  result, and then what the older profilers had registered; a loaded assembly calls
  \<open>on_load_assembly\<close> in the same way; the global mask has both kinds of event, and entering a
  method or throwing an exception calls no more than before.
\<close>

theorem etw_profiler_is_notified:
  assumes "st' = init_etw_symbol_profiler p reg st"
  shows "mono_profiler_method_end_jit m j r (profilers st') =
      Call On_method_jitted p [Ptr m, Ptr j, Num r] # mono_profiler_method_end_jit m j r (profilers st) \<and>
    mono_profiler_assembly_loaded a r (profilers st') =
      Call On_load_assembly p [Ptr a, Num r] # mono_profiler_assembly_loaded a r (profilers st) \<and>
    mono_profiler_get_events (profilers st') AND MONO_PROFILE_JIT_COMPILATION \<noteq> 0 \<and>
    mono_profiler_get_events (profilers st') AND MONO_PROFILE_ASSEMBLY_EVENTS \<noteq> 0 \<and>
    mono_profiler_method_enter m (profilers st') = mono_profiler_method_enter m (profilers st) \<and>
    mono_profiler_exception_thrown m (profilers st') = mono_profiler_exception_thrown m (profilers st) \<and>
    etw_registration_handle st' = reg PROVIDER_JSCRIPT9"
proof -
  let ?d = "desc0\<lparr>profiler := p, events := MONO_PROFILE_ASSEMBLY_EVENTS OR MONO_PROFILE_JIT_COMPILATION,
      assembly_end_load := Some On_load_assembly, jit_end2 := Some On_method_jitted\<rparr>"
  have l: "prof_list (profilers st') = ?d # prof_list (profilers st)" using assms init_prof_list by simp
  have fires: "fire jit_end args ?d = []" "fire jit_end2 args ?d = [Call On_method_jitted p args]"
    "fire assembly_end_load args ?d = [Call On_load_assembly p args]" "fire method_enter args ?d = []"
    "fire exception_throw_cb args ?d = []" for args
    by (simp_all add: fire_def desc0_def)
  have en: "enabled MONO_PROFILE_ASSEMBLY_EVENTS ?d" "enabled MONO_PROFILE_JIT_COMPILATION ?d"
    using init_enabled by (simp_all add: enabled_def)
  have mask: "mono_profiler_events (profilers st') = or_events 0 (prof_list (profilers st'))"
    using assms by (simp add: init_etw_symbol_profiler_def mono_profiler_install_def mono_profiler_set_events_def
        install_defs registered_def Let_def desc0_def)
  have "mono_profiler_get_events (profilers st') AND f \<noteq> 0" if "enabled f ?d" for f
    using or_events_silent [of 0 "prof_list (profilers st')" f ?d] that mask l
    by (auto simp: mono_profiler_get_events_def enabled_def)
  then show ?thesis
    using en assms unfolding report_defs notify_def l walk.simps fires
    by (simp add: init_etw_symbol_profiler_def Let_def)
qed

definition state0 :: EtwState where
  "state0 = \<lparr>profilers = profilers0, etw_registration_handle = 0, registered_providers = []\<rparr>"

theorem etw_profiler_is_notified_witness:
  "mono_profiler_method_end_jit 7 1 0 (profilers (init_etw_symbol_profiler 3 (\<lambda>g. 5) state0)) =
    [Call On_method_jitted 3 [Ptr 7, Ptr 1, Num 0]]"
  using etw_profiler_is_notified [OF refl, of 7 1 0 3 "\<lambda>g. 5" state0]
  by (simp add: state0_def profilers0_def mono_profiler_method_end_jit_def)

text \<open>
  C2.  The event written for a jitted method, read back field by field by a consumer, gives the
  start address and the size of the code, the low 32 bits of the method's address as its id, the
  assembly as the source, and the method's full name, whatever characters it has.
\<close>

theorem method_event_decodes:
  assumes "jit_info_at mem j = Some ji" and "method_assembly mem m = Some asm"
    and "mono_method_full_name mem m = utf8_encode cs @ [0]" and "nonzero_text cs" and "4 \<le> ptr_size mem"
    and "0 \<le> code_start ji" and "code_start ji < 256 ^ ptr_size mem"
    and "0 \<le> code_size ji" and "code_size ji < 2 ^ 31" and "0 \<le> asm" and "asm < 2 ^ 64"
  shows "\<exists>ds. on_method_jitted mem h m j result = Inr (Event h MethodLoad ds) \<and> length ds = 10 \<and>
    parse_MethodLoad (ptr_size mem) (concat ds) =
      \<lparr>ml_ScriptContextID = 0, ml_MethodStartAddress = code_start ji, ml_MethodSize = code_size ji,
       ml_MethodID = m mod 2 ^ 32, ml_MethodFlags = 0, ml_MethodAddressRangeID = 0, ml_SourceID = asm,
       ml_Line = 0, ml_Column = 0, ml_MethodName = utf16_encode cs\<rparr>"
  using method_event [OF assms(1-5) _ assms(6-9), of asm] assms(10,11) by simp

theorem method_event_decodes_witness:
  "\<exists>ds. on_method_jitted mem_a 5 7 1 0 = Inr (Event 5 MethodLoad ds) \<and>
    ml_MethodStartAddress (parse_MethodLoad 8 (concat ds)) = 4096 \<and>
    ml_MethodSize (parse_MethodLoad 8 (concat ds)) = 64 \<and>
    ml_MethodName (parse_MethodLoad 8 (concat ds)) = [0x46, 0x6F, 0x6F]"
proof -
  have f: "mono_method_full_name mem_a 7 = utf8_encode [0x46, 0x6F, 0x6F] @ [0]" using name_a by (simp add: mem_a_def)
  show ?thesis
    using method_event_decodes [OF _ _ f name_a(2), of 1 ji_a 99 5 0]
    by (auto simp: mem_a_def ji_a_def utf16_of_def)
qed

text \<open>
  The event written for a loaded assembly gives, read back, the assembly's address as the
  source id (the same value that the method events carry) and its name.
\<close>

theorem assembly_event_decodes:
  assumes "assembly_name mem a = Some (utf8_encode cs @ [0])" and "nonzero_text cs"
    and "0 \<le> a" and "a < 2 ^ 64"
  shows "\<exists>ds. on_load_assembly mem h a result = Inr (Event h SourceLoad ds) \<and> length ds = 4 \<and>
    parse_SourceLoad (ptr_size mem) (concat ds) =
      \<lparr>sl_SourceID = a, sl_ScriptContextID = 0, sl_SourceFlags = 0, sl_Url = utf16_encode cs\<rparr>"
proof -
  have z: "0 \<notin> set (utf16_encode cs)" using utf16_encode_nonzero [OF assms(2)] .
  have name: "name_buffer (utf8_encode cs @ [0]) = Inr (utf16_encode cs @ [0])"
    using name_buffer_encoded [OF assms(2), of "[]"] by simp
  let ?ds = "[le_bytes 8 a, le_bytes (ptr_size mem) 0, le_bytes 4 0, unit_bytes (utf16_encode cs @ [0])]"
  have "on_load_assembly mem h a result = Inr (Event h SourceLoad ?ds)"
    using assms(1) name EventDataDescCreate_name [OF z] by (simp add: on_load_assembly_def del: le_bytes.simps)
  moreover have "parse_SourceLoad (ptr_size mem) (concat ?ds) =
      \<lparr>sl_SourceID = a, sl_ScriptContextID = 0, sl_SourceFlags = 0, sl_Url = utf16_encode cs\<rparr>"
    using assms(3,4) takeWhile_nonzero [OF z, of "[]"]
    by (simp add: parse_SourceLoad_def del: le_bytes.simps payload_fields.simps(2))
  ultimately show ?thesis by auto
qed

theorem assembly_event_decodes_witness:
  "\<exists>ds. on_load_assembly mem_a 5 99 0 = Inr (Event 5 SourceLoad ds) \<and>
    sl_SourceID (parse_SourceLoad 8 (concat ds)) = 99 \<and> sl_Url (parse_SourceLoad 8 (concat ds)) = [0x41]"
proof -
  have f: "assembly_name mem_a 99 = Some (utf8_encode [0x41] @ [0])" using name_a by (simp add: mem_a_def)
  show ?thesis
    using assembly_event_decodes [OF f name_a(4), of 5 0] by (auto simp: mem_a_def utf16_of_def)
qed

text \<open>
  C3.  The symbol and the runtime agree: for a code block that was added to a domain and not
  removed since, the address range in the event is exactly the set of addresses that the runtime
  itself resolves to that block.
\<close>

theorem symbol_range_is_lookup_range:
  assumes "history S d" and "ji \<in> S"
    and "jit_info_at mem j = Some ji" and "method_assembly mem m = Some asm"
    and "mono_method_full_name mem m = utf8_encode cs @ [0]" and "nonzero_text cs" and "4 \<le> ptr_size mem"
    and "0 \<le> code_start ji" and "code_start ji < 256 ^ ptr_size mem"
    and "0 \<le> code_size ji" and "code_size ji < 2 ^ 31"
  shows "\<exists>ds. on_method_jitted mem h m j result = Inr (Event h MethodLoad ds) \<and>
    (let ev = parse_MethodLoad (ptr_size mem) (concat ds) in
     \<forall>a. domain_find d a = Inr (Some ji) \<longleftrightarrow>
       ml_MethodStartAddress ev \<le> a \<and> a < ml_MethodStartAddress ev + ml_MethodSize ev)"
proof -
  have "domain_wf d" "ji \<in> domain_live d" using history_simulates [OF assms(1)] assms(2) by auto
  then have find: "domain_find d a = Inr (Some ji) \<longleftrightarrow> covers ji a" for a using jit_index.find_iff by blast
  obtain ds where ds: "on_method_jitted mem h m j result = Inr (Event h MethodLoad ds)"
    "ml_MethodStartAddress (parse_MethodLoad (ptr_size mem) (concat ds)) = code_start ji"
    "ml_MethodSize (parse_MethodLoad (ptr_size mem) (concat ds)) = code_size ji"
    using method_event [OF assms(3-7) refl assms(8-11)] by fastforce
  then show ?thesis by (auto simp: find covers_def code_end_def)
qed

theorem symbol_range_is_lookup_range_witness:
  "\<exists>d ds. history {ji_a} d \<and> on_method_jitted mem_a 5 7 1 0 = Inr (Event 5 MethodLoad ds) \<and>
    (domain_find d 4100 = Inr (Some ji_a) \<longleftrightarrow>
       ml_MethodStartAddress (parse_MethodLoad 8 (concat ds)) \<le> 4100 \<and>
       4100 < ml_MethodStartAddress (parse_MethodLoad 8 (concat ds)) + ml_MethodSize (parse_MethodLoad 8 (concat ds)))"
proof -
  obtain d where "mono_jit_info_table_add (new_domain 5 100) ji_a = Some (Inr d)"
    using add_spec [OF new_domain_wf(1) can_add_first] by blast
  then have h: "history {ji_a} d"
    using history.compiled [OF history.created [of 5 100]] can_add_first by (simp add: can_add_def)
  have f: "mono_method_full_name mem_a 7 = utf8_encode [0x46, 0x6F, 0x6F] @ [0]" using name_a by (simp add: mem_a_def)
  show ?thesis
    using symbol_range_is_lookup_range [OF h _ _ _ f name_a(2), of ji_a 1 99 5 0] h
    by (auto simp: mem_a_def ji_a_def Let_def)
qed

text \<open>
  C10.  A failed compilation is reported with a null \<open>MonoJitInfo\<close> (\<open>mini.c\<close>, when an exception
  is to be thrown); the symbol profiler, once installed, then reads through that null pointer.
\<close>

theorem failed_compilation_crashes:
  assumes "jit_info_at mem 0 = None"
  shows "report_jitted mem m 0 1 (init_etw_symbol_profiler p reg st) = Inl Null_deref"
proof -
  have "\<exists>cs. mono_profiler_method_end_jit m 0 1 (profilers (init_etw_symbol_profiler p reg st)) =
      Call On_method_jitted p [Ptr m, Ptr 0, Num 1] # cs"
    using init_calls_jitted by blast
  then show ?thesis using assms by (auto simp: report_jitted_def on_method_jitted_def)
qed

theorem failed_compilation_crashes_witness:
  "report_jitted mem_a 7 0 1 (init_etw_symbol_profiler 3 (\<lambda>g. 5) state0) = Inl Null_deref"
  by (rule failed_compilation_crashes) (simp add: mem_a_def)

text \<open>
  A method whose full name has an overlong UTF-8 character that the tests of the code flag makes the
  callback write past the end of the buffer for the converted name.
\<close>

theorem overlong_name_overruns:
  assumes "jit_info_at mem j = Some ji" and "method_assembly mem m = Some asm"
    and "mono_method_full_name mem m = bs @ [0]" and "0 \<notin> set bs" and "0 < flagged_overlongs bs 0 0 0"
  shows "on_method_jitted mem h m j result = Inl Out_of_bounds"
proof -
  have "takeWhile (\<lambda>c. c \<noteq> 0) (bs @ [0]) = bs" using assms(4) by (simp add: takeWhile_nonzero)
  then have "u8to16 (bs @ [0]) = Inl Out_of_bounds"
    using overruns_if_overlong [of "bs @ [0]" "int (length bs)"] assms(5) by (simp add: u8to16_def)
  then show ?thesis using assms(1-3) by (simp add: on_method_jitted_def name_buffer_def)
qed

theorem overlong_name_overruns_witness:
  "on_method_jitted (mem_a\<lparr>mono_method_full_name := (\<lambda>m. [0x46, 0xC0, 0xAF, 0])\<rparr>) 5 7 1 0 = Inl Out_of_bounds"
  by (rule overlong_name_overruns [where ji = ji_a and asm = 99 and bs = "[0x46, 0xC0, 0xAF]"])
    (simp_all add: mem_a_def lead_byte_def overlong_def Let_def)

end
